(* ===== verification/Prelude.thy ===== *)
theory Prelude
  imports Main "HOL-Library.Word" "HOL-Library.Char_ord" "HOL-Library.List_Lexorder"
    "HOL-Library.Product_Lexorder" "HOL-Library.Sublist"
begin

section \<open>Shared vocabulary of the development\<close>

text \<open>
  What the component theories share: the named collections of facts, the parts of the Go
  language and standard library the sources use (strings and \<open>strings.TrimSpace\<close>, instants
  and durations of package \<open>time\<close>, unsigned 64 bit counters), generic lemmas on lists that are
  searched and edited by key, and the two interfaces every stateful component implements:
  a transition system with an invariant, and a table of exclusive claims.

  A Go string is a sequence of bytes and is modelled by \<^typ>\<open>string\<close>, a list of 8 bit
  characters; the orders imported above make \<open><\<close> on strings the bytewise order of Go.
  An instant is an \<^typ>\<open>int\<close>: nanoseconds since the zero value of \<open>time.Time\<close>, so that
  \<open>IsZero\<close> is equality with 0, \<open>Before\<close> and \<open>After\<close> are the order of \<^typ>\<open>int\<close> and \<open>Add\<close> is
  addition. A duration is an \<^typ>\<open>int\<close> of nanoseconds.
\<close>

named_theorems go_simps \<open>unfolding rules for small pure helpers of the sources\<close>
named_theorems store_simps \<open>rules for lists that are searched and edited by key\<close>

type_synonym instant = int
type_synonym duration = int
type_synonym uint64 = "64 word"

definition second :: duration where
  "second = 1000000000"

definition minute :: duration where
  "minute = 60 * second"

subsection \<open>Strings\<close>

text \<open>
  \<open>strings.TrimSpace\<close> removes every leading and trailing rune for which \<open>unicode.IsSpace\<close>
  holds. On bytes: the UTF-8 encodings of the 25 white space code points. A decoder that reads
  a string from either end meets an encoding exactly where the list of its bytes is a prefix
  (or, reversed, a prefix of the reversed string), so the two directions share one function.
\<close>

definition space_seqs :: "string list" where
  "space_seqs =
     [[CHR 0x09], [CHR 0x0A], [CHR 0x0B], [CHR 0x0C], [CHR 0x0D], [CHR 0x20],
      [CHR 0xC2, CHR 0x85], [CHR 0xC2, CHR 0xA0], [CHR 0xE1, CHR 0x9A, CHR 0x80],
      [CHR 0xE2, CHR 0x80, CHR 0x80], [CHR 0xE2, CHR 0x80, CHR 0x81],
      [CHR 0xE2, CHR 0x80, CHR 0x82], [CHR 0xE2, CHR 0x80, CHR 0x83],
      [CHR 0xE2, CHR 0x80, CHR 0x84], [CHR 0xE2, CHR 0x80, CHR 0x85],
      [CHR 0xE2, CHR 0x80, CHR 0x86], [CHR 0xE2, CHR 0x80, CHR 0x87],
      [CHR 0xE2, CHR 0x80, CHR 0x88], [CHR 0xE2, CHR 0x80, CHR 0x89],
      [CHR 0xE2, CHR 0x80, CHR 0x8A], [CHR 0xE2, CHR 0x80, CHR 0xA8],
      [CHR 0xE2, CHR 0x80, CHR 0xA9], [CHR 0xE2, CHR 0x80, CHR 0xAF],
      [CHR 0xE2, CHR 0x81, CHR 0x9F], [CHR 0xE3, CHR 0x80, CHR 0x80]]"

function strip :: "'a list list \<Rightarrow> 'a list \<Rightarrow> 'a list" where
  "strip ps s =
     (case find (\<lambda>p. p \<noteq> [] \<and> prefix p s) ps of
        None \<Rightarrow> s
      | Some p \<Rightarrow> strip ps (drop (length p) s))"
  by pat_completeness auto
termination
  by (relation "measure (\<lambda>(ps, s). length s)")
     (auto simp: find_Some_iff prefix_def)

declare strip.simps [simp del]

definition go_trim :: "string \<Rightarrow> string" where
  "go_trim s = rev (strip (map rev space_seqs) (rev (strip space_seqs s)))"

definition blank :: "string \<Rightarrow> bool" where
  "blank s \<longleftrightarrow> go_trim s = []"

fun firstNonBlank :: "string list \<Rightarrow> string" where
  "firstNonBlank [] = []"
| "firstNonBlank (v # vs) = (if \<not> blank v then v else firstNonBlank vs)"

text \<open>The runes of a valid UTF-8 string: one starts at every byte that is no continuation byte.\<close>

definition cont_byte :: "char \<Rightarrow> bool" where
  "cont_byte c \<longleftrightarrow> CHR 0x80 \<le> c \<and> c \<le> CHR 0xBF"

definition rune_count :: "string \<Rightarrow> nat" where
  "rune_count s = length (filter (\<lambda>c. \<not> cont_byte c) s)"

subsection \<open>Lists searched and edited by key\<close>

text \<open>
  Go code that keeps a slice of pointers finds the first element with a key and writes through
  the pointer. On values this is \<open>upd_first\<close>; removing an element by its position is
  \<open>remove_nth\<close>, putting one back is \<open>insert_nth\<close>.
\<close>

fun upd_first :: "('a \<Rightarrow> bool) \<Rightarrow> ('a \<Rightarrow> 'a) \<Rightarrow> 'a list \<Rightarrow> 'a list" where
  "upd_first P f [] = []"
| "upd_first P f (x # xs) = (if P x then f x # xs else x # upd_first P f xs)"

fun remove_first :: "('a \<Rightarrow> bool) \<Rightarrow> 'a list \<Rightarrow> 'a list" where
  "remove_first P [] = []"
| "remove_first P (x # xs) = (if P x then xs else x # remove_first P xs)"

definition remove_nth :: "nat \<Rightarrow> 'a list \<Rightarrow> 'a list" where
  "remove_nth i xs = take i xs @ drop (Suc i) xs"

definition insert_nth :: "nat \<Rightarrow> 'a \<Rightarrow> 'a list \<Rightarrow> 'a list" where
  "insert_nth i x xs = take i xs @ x # drop i xs"

subsection \<open>Reachable states\<close>

inductive reach :: "('s \<Rightarrow> bool) \<Rightarrow> ('s \<Rightarrow> 's \<Rightarrow> bool) \<Rightarrow> 's \<Rightarrow> bool"
  for init :: "'s \<Rightarrow> bool" and step :: "'s \<Rightarrow> 's \<Rightarrow> bool" where
  reach_init: "init s \<Longrightarrow> reach init step s"
| reach_step: "reach init step s \<Longrightarrow> step s t \<Longrightarrow> reach init step t"

locale invariant_system =
  fixes init :: "'s \<Rightarrow> bool"
    and step :: "'s \<Rightarrow> 's \<Rightarrow> bool"
    and inv :: "'s \<Rightarrow> bool"
  assumes inv_init: "init s \<Longrightarrow> inv s"
    and inv_step: "inv s \<Longrightarrow> step s t \<Longrightarrow> inv t"
begin

lemma reach_inv: "reach init step s \<Longrightarrow> inv s"
  by (induction rule: reach.induct) (auto intro: inv_init inv_step)

end

text \<open>
  A table of exclusive claims: \<open>holder s k\<close> is the owner of key \<open>k\<close>, if any. A claim is only
  granted where there is no owner, and only the owner itself can give the key back.
\<close>

locale claim_table =
  fixes holder :: "'s \<Rightarrow> 'k \<Rightarrow> 'o option"
    and acquire :: "'k \<Rightarrow> 'o \<Rightarrow> 's \<Rightarrow> 's option"
    and release :: "'k \<Rightarrow> 'o \<Rightarrow> 's \<Rightarrow> 's"
  assumes acquire_free: "acquire k w s = Some t \<Longrightarrow> holder s k = None"
    and acquire_holder: "acquire k w s = Some t \<Longrightarrow> holder t = (holder s)(k \<mapsto> w)"
    and release_holder: "holder (release k w s) =
          (if holder s k = Some w then (holder s)(k := None) else holder s)"
begin

lemma acquire_held: "holder s k = Some v \<Longrightarrow> acquire k w s = None"
  using acquire_free by (cases "acquire k w s") force+

lemma acquire_twice: "acquire k w s = Some t \<Longrightarrow> acquire k v t = None"
  by (rule acquire_held [where v = w]) (simp add: acquire_holder)

lemma acquire_release: "acquire k w s = Some t \<Longrightarrow> holder (release k w t) = holder s"
  using acquire_free [of k w s t]
  by (auto simp: release_holder acquire_holder fun_eq_iff)

lemma release_other: "holder s k = Some v \<Longrightarrow> v \<noteq> w \<Longrightarrow> holder (release k w s) = holder s"
  by (simp add: release_holder)

end

subsection \<open>Lemmas on strings\<close>

lemma strip_no_prefix: "find (\<lambda>p. p \<noteq> [] \<and> prefix p (strip ps s)) ps = None"
proof (induction ps s rule: strip.induct)
  case (1 ps s)
  show ?case
  proof (cases "find (\<lambda>p. p \<noteq> [] \<and> prefix p s) ps")
    case None
    then show ?thesis by (simp add: strip.simps [of ps s])
  next
    case (Some p)
    then show ?thesis using "1.IH" [OF Some] by (simp add: strip.simps [of ps s])
  qed
qed

lemma strip_id: "find (\<lambda>p. p \<noteq> [] \<and> prefix p s) ps = None \<Longrightarrow> strip ps s = s"
  by (simp add: strip.simps [of ps s])

lemma strip_suffix: "suffix (strip ps s) s"
proof (induction ps s rule: strip.induct)
  case (1 ps s)
  show ?case
  proof (cases "find (\<lambda>p. p \<noteq> [] \<and> prefix p s) ps")
    case None
    then show ?thesis by (simp add: strip.simps [of ps s])
  next
    case (Some p)
    have "suffix (drop (length p) s) s" by (rule suffix_drop)
    then show ?thesis
      using "1.IH" [OF Some] Some suffix_order.trans by (fastforce simp: strip.simps [of ps s])
  qed
qed

lemma strip_Nil [simp]: "strip ps [] = []"
  using strip_suffix [of ps "[]"] by simp

lemma strip_prefix_closed:
  "find (\<lambda>p. p \<noteq> [] \<and> prefix p s) ps = None \<Longrightarrow> prefix t s \<Longrightarrow> strip ps t = t"
  by (rule strip_id) (auto simp: find_None_iff intro: prefix_order.trans)

lemma go_trim_left: "strip space_seqs (go_trim s) = go_trim s"
proof (rule strip_prefix_closed [OF strip_no_prefix])
  have "suffix (strip (map rev space_seqs) (rev (strip space_seqs s))) (rev (strip space_seqs s))"
    by (rule strip_suffix)
  then show "prefix (go_trim s) (strip space_seqs s)"
    by (simp add: go_trim_def suffix_to_prefix)
qed

lemma go_trim_idem [simp]: "go_trim (go_trim s) = go_trim s"
proof -
  have "strip (map rev space_seqs) (rev (go_trim s)) = rev (go_trim s)"
    by (simp add: go_trim_def strip_id strip_no_prefix)
  then show ?thesis
    using go_trim_left [of s] by (simp add: go_trim_def [of "go_trim s"])
qed

lemma go_trim_Nil [simp]: "go_trim [] = []"
  by (simp add: go_trim_def)

lemma blank_Nil [simp]: "blank []"
  by (simp add: blank_def)

lemma blank_trim [simp]: "blank (go_trim s) = blank s"
  by (simp add: blank_def)

lemma trim_eq_Nil_iff [simp]: "go_trim s = [] \<longleftrightarrow> blank s"
  by (simp add: blank_def)

subsection \<open>Lemmas on edited lists\<close>

lemma find_cong_key: "find (\<lambda>x. k x = a) xs = Some y \<Longrightarrow> k y = a \<and> y \<in> set xs"
  by (auto simp: find_Some_iff)

lemma find_None_key: "find (\<lambda>x. k x = a) xs = None \<longleftrightarrow> a \<notin> k ` set xs"
  by (auto simp: find_None_iff)

lemma upd_first_id [simp]: "(\<And>x. x \<in> set xs \<Longrightarrow> \<not> P x) \<Longrightarrow> upd_first P f xs = xs"
  by (induction xs) auto

lemma length_upd_first [store_simps, simp]: "length (upd_first P f xs) = length xs"
  by (induction xs) auto

lemma map_upd_first_key [store_simps]:
  "(\<And>x. k (f x) = k x) \<Longrightarrow> map k (upd_first P f xs) = map k xs"
  by (induction xs) auto

lemma set_upd_first: "set (upd_first P f xs) \<subseteq> set xs \<union> f ` {x \<in> set xs. P x}"
  by (induction xs) auto

lemma upd_first_distinct:
  "distinct (map k xs) \<Longrightarrow>
   upd_first (\<lambda>x. k x = a) f xs = map (\<lambda>x. if k x = a then f x else x) xs"
proof (induction xs)
  case (Cons x xs)
  have "map (\<lambda>x. if k x = k x' then f x else x) xs = xs" if "k x' = k x" for x'
    using Cons.prems that by (intro map_idI) (metis distinct.simps(2) image_eqI list.simps(9) set_map)
  with Cons show ?case by force
qed simp

lemma find_upd_first:
  "(\<And>x. k (f x) = k x) \<Longrightarrow>
   find (\<lambda>x. k x = b) (upd_first (\<lambda>x. k x = a) f xs) =
     (if a = b then map_option f (find (\<lambda>x. k x = b) xs) else find (\<lambda>x. k x = b) xs)"
  by (induction xs) auto

lemma map_remove_first_key:
  "map k (remove_first (\<lambda>x. k x = a) xs) = remove1 a (map k xs)"
  by (induction xs) auto

lemma set_remove_first: "set (remove_first P xs) \<subseteq> set xs"
  by (induction xs) auto

lemma remove_first_filter:
  "distinct (map k xs) \<Longrightarrow> remove_first (\<lambda>x. k x = a) xs = filter (\<lambda>x. k x \<noteq> a) xs"
proof (induction xs)
  case (Cons x xs)
  then show ?case
    by (auto simp: image_iff intro!: filter_True [symmetric] filter_id_conv [THEN iffD2, symmetric])
qed simp

lemma insert_remove_nth:
  "i < length xs \<Longrightarrow> insert_nth i (xs ! i) (remove_nth i xs) = xs"
  by (simp add: insert_nth_def remove_nth_def id_take_nth_drop [symmetric])

lemma set_remove_nth: "set (remove_nth i xs) \<subseteq> set xs"
  by (auto simp: remove_nth_def dest: in_set_takeD in_set_dropD)

lemma map_remove_nth: "map f (remove_nth i xs) = remove_nth i (map f xs)"
  by (simp add: remove_nth_def take_map drop_map)

lemma length_remove_nth: "i < length xs \<Longrightarrow> length (remove_nth i xs) = length xs - 1"
  by (simp add: remove_nth_def)

lemma distinct_remove_nth: "distinct xs \<Longrightarrow> distinct (remove_nth i xs)"
  by (auto simp: remove_nth_def set_take_disj_set_drop_if_distinct)

end
