(* ===== verification/Go_Json.thy ===== *)
theory Go_Json
  imports Prelude
begin

section \<open>The validity test of package encoding/json\<close>

text \<open>
  The sources accept an adapter's opaque payload only when \<open>json.Valid\<close> holds. The standard
  library decides this with a byte driven machine: a current step, a stack that says what each
  open composite value expects next, and a limit on the depth of the stack. The machine is
  modelled state by state; it is structurally recursive on the input.
\<close>

datatype parse_state = ObjectKey | ObjectValue | ArrayValue

datatype jstep =
    BeginValueOrEmpty | BeginValue | BeginStringOrEmpty | BeginString
  | EndValue | EndTop
  | InString | InStringEsc | InStringEscU nat
  | Neg | Digits | Zero | Dot | DotDigits | Exp | ExpSign | ExpDigits
  | Lit string

type_synonym jscanner = "jstep \<times> parse_state list"

definition max_nesting_depth :: nat where
  "max_nesting_depth = 10000"

definition jspace :: "char \<Rightarrow> bool" where
  "jspace c \<longleftrightarrow> c \<in> {CHR 0x20, CHR 0x09, CHR 0x0D, CHR 0x0A}"

definition jdigit :: "char \<Rightarrow> bool" where
  "jdigit c \<longleftrightarrow> CHR ''0'' \<le> c \<and> c \<le> CHR ''9''"

definition jhex :: "char \<Rightarrow> bool" where
  "jhex c \<longleftrightarrow> jdigit c \<or> CHR ''a'' \<le> c \<and> c \<le> CHR ''f'' \<or> CHR ''A'' \<le> c \<and> c \<le> CHR ''F''"

definition push :: "parse_state \<Rightarrow> jstep \<Rightarrow> parse_state list \<Rightarrow> jscanner option" where
  "push p st stk = (if Suc (length stk) \<le> max_nesting_depth then Some (st, p # stk) else None)"

definition pop :: "parse_state list \<Rightarrow> jscanner option" where
  "pop stk = (case tl stk of [] \<Rightarrow> Some (EndTop, []) | stk' \<Rightarrow> Some (EndValue, stk'))"

definition step_end_value :: "parse_state list \<Rightarrow> char \<Rightarrow> jscanner option" where
  "step_end_value stk c =
     (case stk of
        [] \<Rightarrow> if jspace c then Some (EndTop, []) else None
      | p # rest \<Rightarrow>
          if jspace c then Some (EndValue, stk)
          else (case p of
              ObjectKey \<Rightarrow> if c = CHR '':'' then Some (BeginValue, ObjectValue # rest) else None
            | ObjectValue \<Rightarrow>
                if c = CHR '','' then Some (BeginString, ObjectKey # rest)
                else if c = CHR ''}'' then pop stk else None
            | ArrayValue \<Rightarrow>
                if c = CHR '','' then Some (BeginValue, stk)
                else if c = CHR '']'' then pop stk else None))"

definition step_begin_value :: "parse_state list \<Rightarrow> char \<Rightarrow> jscanner option" where
  "step_begin_value stk c =
     (if jspace c then Some (BeginValue, stk)
      else if c = CHR ''{'' then push ObjectKey BeginStringOrEmpty stk
      else if c = CHR ''['' then push ArrayValue BeginValueOrEmpty stk
      else if c = CHR 0x22 then Some (InString, stk)
      else if c = CHR ''-'' then Some (Neg, stk)
      else if c = CHR ''0'' then Some (Zero, stk)
      else if c = CHR ''t'' then Some (Lit ''rue'', stk)
      else if c = CHR ''f'' then Some (Lit ''alse'', stk)
      else if c = CHR ''n'' then Some (Lit ''ull'', stk)
      else if jdigit c then Some (Digits, stk)
      else None)"

definition step_zero :: "parse_state list \<Rightarrow> char \<Rightarrow> jscanner option" where
  "step_zero stk c =
     (if c = CHR ''.'' then Some (Dot, stk)
      else if c = CHR ''e'' \<or> c = CHR ''E'' then Some (Exp, stk)
      else step_end_value stk c)"

fun jscan :: "jscanner \<Rightarrow> char \<Rightarrow> jscanner option" where
  "jscan (BeginValueOrEmpty, stk) c =
     (if jspace c then Some (BeginValueOrEmpty, stk)
      else if c = CHR '']'' then step_end_value stk c else step_begin_value stk c)"
| "jscan (BeginValue, stk) c = step_begin_value stk c"
| "jscan (BeginStringOrEmpty, stk) c =
     (if jspace c then Some (BeginStringOrEmpty, stk)
      else if c = CHR ''}'' then step_end_value (ObjectValue # tl stk) c
      else if c = CHR 0x22 then Some (InString, stk) else None)"
| "jscan (BeginString, stk) c =
     (if jspace c then Some (BeginString, stk)
      else if c = CHR 0x22 then Some (InString, stk) else None)"
| "jscan (EndValue, stk) c = step_end_value stk c"
| "jscan (EndTop, stk) c = (if jspace c then Some (EndTop, stk) else None)"
| "jscan (InString, stk) c =
     (if c = CHR 0x22 then Some (EndValue, stk)
      else if c = CHR 0x5C then Some (InStringEsc, stk)
      else if c < CHR 0x20 then None else Some (InString, stk))"
| "jscan (InStringEsc, stk) c =
     (if c \<in> set [CHR ''b'', CHR ''f'', CHR ''n'', CHR ''r'', CHR ''t'', CHR 0x5C, CHR ''/'', CHR 0x22]
      then Some (InString, stk)
      else if c = CHR ''u'' then Some (InStringEscU 4, stk) else None)"
| "jscan (InStringEscU n, stk) c =
     (if jhex c then Some (if n \<le> 1 then InString else InStringEscU (n - 1), stk) else None)"
| "jscan (Neg, stk) c =
     (if c = CHR ''0'' then Some (Zero, stk) else if jdigit c then Some (Digits, stk) else None)"
| "jscan (Digits, stk) c = (if jdigit c then Some (Digits, stk) else step_zero stk c)"
| "jscan (Zero, stk) c = step_zero stk c"
| "jscan (Dot, stk) c = (if jdigit c then Some (DotDigits, stk) else None)"
| "jscan (DotDigits, stk) c =
     (if jdigit c then Some (DotDigits, stk)
      else if c = CHR ''e'' \<or> c = CHR ''E'' then Some (Exp, stk) else step_end_value stk c)"
| "jscan (Exp, stk) c =
     (if c = CHR ''+'' \<or> c = CHR ''-'' then Some (ExpSign, stk)
      else if jdigit c then Some (ExpDigits, stk) else None)"
| "jscan (ExpSign, stk) c = (if jdigit c then Some (ExpDigits, stk) else None)"
| "jscan (ExpDigits, stk) c = (if jdigit c then Some (ExpDigits, stk) else step_end_value stk c)"
| "jscan (Lit w, stk) c =
     (case w of
        [] \<Rightarrow> None
      | x # rest \<Rightarrow>
          if c = x then Some (if rest = [] then EndValue else Lit rest, stk) else None)"

fun jscan_all :: "jscanner \<Rightarrow> string \<Rightarrow> jscanner option" where
  "jscan_all sc [] = Some sc"
| "jscan_all sc (c # cs) = (case jscan sc c of None \<Rightarrow> None | Some sc' \<Rightarrow> jscan_all sc' cs)"

text \<open>
  At the end of the input the library feeds one more space and asks whether the top level value
  is complete.
\<close>

definition json_valid :: "string \<Rightarrow> bool" where
  "json_valid s =
     (case jscan_all (BeginValue, []) s of
        None \<Rightarrow> False
      | Some sc \<Rightarrow> (case jscan sc (CHR 0x20) of
          None \<Rightarrow> False
        | Some sc' \<Rightarrow> fst sc' = EndTop))"

lemma json_valid_Nil [simp]: "\<not> json_valid []"
  by (simp add: json_valid_def step_begin_value_def jspace_def)

lemma json_valid_empty_object [simp]: "json_valid ''{}''"
  by code_simp

lemma jscan_all_append:
  "jscan_all sc (s @ t) = Option.bind (jscan_all sc s) (\<lambda>sc'. jscan_all sc' t)"
  by (induction s arbitrary: sc) (auto split: option.splits)

end
