(* ===== verification/Outbox_Types.thy ===== *)
theory Outbox_Types
  imports Go_Json
begin

section \<open>Data of the terminal outbox\<close>

text \<open>
  The records that \<open>messaging/terminal_outbox.go\<close> keeps in memory and writes to
  \<open>terminal-outbox.json\<close>, with the platform and trace types they embed, the delivery guard, the
  test that a reservation is an active stream recovery, and the validation of an entry.
  A nil pointer is \<^const>\<open>None\<close>. The functions \<open>clone...\<close> of the source have no counterpart:
  values of this model are never shared.

  \<open>uuid.Parse\<close> belongs to a third party package; it is the parameter \<open>uuid_parse\<close> (whether
  parsing succeeds) of the definitions that call it.
\<close>

subsection \<open>Platform and trace types\<close>

record deliveryRoute =
  rPlatform :: string
  rAccountID :: string
  rChatID :: string
  rReplyToID :: string

definition route_Valid :: "deliveryRoute \<Rightarrow> bool" where
  "route_Valid r \<longleftrightarrow> \<not> blank (rPlatform r) \<and> \<not> blank (rChatID r)"

definition platformFeishu :: string where
  "platformFeishu = ''feishu''"

text \<open>\<open>TerminalCheckpoint\<close>, \<open>SupersedeCheckpoint\<close> and \<open>DurableStreamReference\<close> have the same shape.\<close>

record checkpoint =
  cKind :: string
  cPayload :: string

type_synonym terminalCheckpoint = checkpoint
type_synonym supersedeCheckpoint = checkpoint
type_synonym durableStreamReference = checkpoint

definition checkpoint_ok :: "checkpoint \<Rightarrow> bool" where
  "checkpoint_ok c \<longleftrightarrow> \<not> blank (cKind c) \<and> cPayload c \<noteq> [] \<and> json_valid (cPayload c)"

datatype streamTerminalState = StreamCompleted | StreamFailed | StreamStopped

record traceContext =
  tTraceID :: string
  tSpanID :: string
  tParentSpanID :: string
  tPlatform :: string
  tAccountID :: string
  tChatID :: string
  tMessageID :: string
  tClientID :: string
  tRouteKey :: string
  tAgentName :: string
  tTaskID :: string
  tConversationID :: string
  tSessionID :: string
  tThreadID :: string
  tTurnID :: string
  tCardID :: string
  tReplyID :: string

record durableCommandResultReference =
  crKind :: string
  crTargetID :: string
  crTitle :: string
  crCommand :: string
  crReadyAfter :: string

datatype codexFollowerAttachPhase = AttachUnset | AttachPreparing | AttachReady

record codexFrontendFollower =
  fWorkspaceRoot :: string
  fThreadID :: string
  fActorUserID :: string
  fAuthorizedIdentity :: string
  fDeliveryRoute :: deliveryRoute
  fRuntimeRecoveryResult :: "durableCommandResultReference option"
  fUpdatedAt :: string

record codexFollowerSnapshot =
  fsBindingKey :: string
  fsRouteUserID :: string
  fsAgentName :: string
  fsConversationID :: string
  fsRevision :: uint64
  fsAttachRevision :: uint64
  fsAttachPhase :: codexFollowerAttachPhase
  fsAttachTurnID :: string
  fsRuntimeGeneration :: uint64
  fsFollowTurnID :: string
  fsFollowTurnInitialized :: bool
  fsFollowTurnPending :: bool
  fsRecoveryThreadID :: string
  fsRecoveryReservationID :: string
  fsTarget :: codexFrontendFollower

record codexReleasedFollowerSnapshot =
  rsAgentName :: string
  rsConversationID :: string
  rsThreadID :: string
  rsRecoveryThreadID :: string
  rsRecoveryReservationID :: string
  rsCommitted :: bool

subsection \<open>Entries and drafts\<close>

record pendingStreamSupersede =
  pID :: string
  pRoute :: deliveryRoute
  pCheckpoint :: supersedeCheckpoint
  pAttempts :: int
  pNextAttempt :: instant
  pLastError :: string
  pDeadLetter :: bool
  pDeadLetterAt :: instant

record terminalOutboxEntry =
  eReplaySelectionID :: string
  eReplayTurnID :: string
  eID :: string
  eRoute :: deliveryRoute
  eAgentName :: string
  eAuthorizedIdentity :: string
  eFollowerBindingKey :: string
  eFollowerRevision :: uint64
  eFollowerThreadID :: string
  eFailed :: bool
  eStopped :: bool
  eStream :: "durableStreamReference option"
  eCheckpoint :: "terminalCheckpoint option"
  eResultTitle :: string
  eRichResult :: bool
  eText :: string
  eNotification :: string
  eIdempotencyKey :: string
  eTrace :: "traceContext option"
  ePendingSupersedes :: "pendingStreamSupersede list"
  eActiveStreamRecovery :: bool
  eCheckpointDelivered :: bool
  eTextDelivered :: bool
  eNotificationDelivered :: bool
  eAttempts :: int
  eCreatedAt :: instant
  eUpdatedAt :: instant
  eNextAttempt :: instant
  eLastError :: string
  eDeadLetter :: bool
  eDeadLetterAt :: instant

record terminalOutboxDraft =
  dReplaySelectionID :: string
  dReplayTurnID :: string
  dID :: string
  dRoute :: deliveryRoute
  dAgentName :: string
  dAuthorizedIdentity :: string
  dFollowerBindingKey :: string
  dFollowerRevision :: uint64
  dFollowerThreadID :: string
  dFailed :: bool
  dStopped :: bool
  dStream :: "durableStreamReference option"
  dCheckpoint :: "terminalCheckpoint option"
  dResultTitle :: string
  dRichResult :: bool
  dText :: string
  dNotification :: string
  dIdempotencyKey :: string
  dTrace :: traceContext
  dActiveStreamRecovery :: bool

record terminalDeliveryGuard =
  gAuthorizedIdentity :: string
  gFollowerBindingKey :: string
  gFollowerRevision :: uint64
  gFollowerThreadID :: string

text \<open>The errors of the outbox. \<open>PersistFailed\<close> carries the failure of the state file's writer.\<close>

datatype io_error =
    MkdirError | ChmodError | NotRegularFile | StatError | MarshalError | CreateTempError
  | TempChmodError | TempWriteError | TempSyncError | TempCloseError | RenameError
  | PermissionsTooBroad | ReadError | ParseError

datatype outbox_error =
    InvalidRoute
  | NoPayload
  | IncompleteGuard
  | InvalidEntryID
  | InvalidReplay
  | InvalidStreamReference
  | InvalidCheckpoint
  | MissingTimestamps
  | MissingDeadLetterTime
  | InvalidPendingID
  | InvalidPendingRoute
  | InvalidPendingCheckpoint
  | InvalidPendingRetryState
  | MissingPendingDeadLetterTime
  | DuplicatePendingID
  | NilEntry
  | IdConflict
  | CapacityExceeded
  | NotFound
  | ReservationNotFound
  | InvalidStagedResult
  | InvalidStreamRecovery
  | NotActiveStreamRecovery
  | PendingIdIsEntryId
  | PendingIdOfOtherEntry
  | PendingIdConflict
  | PendingIdExists
  | Busy
  | PersistFailed io_error
  | UnsupportedVersion int
  | TooManyEntries
  | DuplicateEntryID
  | DuplicateOperationID
  | DeliveryFailed

subsection \<open>Delivery guards\<close>

definition guard_empty :: "terminalDeliveryGuard \<Rightarrow> bool" where
  "guard_empty g \<longleftrightarrow>
     blank (gAuthorizedIdentity g) \<and> blank (gFollowerBindingKey g) \<and>
     gFollowerRevision g = 0 \<and> blank (gFollowerThreadID g)"

definition guard_complete :: "terminalDeliveryGuard \<Rightarrow> bool" where
  "guard_complete g \<longleftrightarrow>
     \<not> blank (gAuthorizedIdentity g) \<and> \<not> blank (gFollowerBindingKey g) \<and>
     gFollowerRevision g \<noteq> 0 \<and> \<not> blank (gFollowerThreadID g)"

definition terminalDeliveryGuardFromDraft :: "terminalOutboxDraft \<Rightarrow> terminalDeliveryGuard" where
  "terminalDeliveryGuardFromDraft d =
     \<lparr>gAuthorizedIdentity = go_trim (dAuthorizedIdentity d),
      gFollowerBindingKey = go_trim (dFollowerBindingKey d),
      gFollowerRevision = dFollowerRevision d,
      gFollowerThreadID = go_trim (dFollowerThreadID d)\<rparr>"

definition terminalDeliveryGuardFromEntry :: "terminalOutboxEntry \<Rightarrow> terminalDeliveryGuard" where
  "terminalDeliveryGuardFromEntry e =
     \<lparr>gAuthorizedIdentity = go_trim (eAuthorizedIdentity e),
      gFollowerBindingKey = go_trim (eFollowerBindingKey e),
      gFollowerRevision = eFollowerRevision e,
      gFollowerThreadID = go_trim (eFollowerThreadID e)\<rparr>"

definition set_guard :: "terminalDeliveryGuard \<Rightarrow> terminalOutboxEntry \<Rightarrow> terminalOutboxEntry" where
  "set_guard g e = e\<lparr>eAuthorizedIdentity := gAuthorizedIdentity g,
     eFollowerBindingKey := gFollowerBindingKey g,
     eFollowerRevision := gFollowerRevision g,
     eFollowerThreadID := gFollowerThreadID g\<rparr>"

definition mergeTerminalDeliveryGuard ::
  "terminalOutboxEntry \<Rightarrow> terminalOutboxDraft \<Rightarrow> outbox_error + terminalOutboxEntry" where
  "mergeTerminalDeliveryGuard e d =
     (let g = terminalDeliveryGuardFromDraft d in
      if guard_empty g then Inr e
      else if \<not> guard_complete g then Inl IncompleteGuard
      else Inr (set_guard g e))"

definition guard_apply :: "terminalDeliveryGuard \<Rightarrow> terminalOutboxDraft \<Rightarrow> terminalOutboxDraft" where
  "guard_apply g d = d\<lparr>dAuthorizedIdentity := go_trim (gAuthorizedIdentity g),
     dFollowerBindingKey := go_trim (gFollowerBindingKey g),
     dFollowerRevision := gFollowerRevision g,
     dFollowerThreadID := go_trim (gFollowerThreadID g)\<rparr>"

subsection \<open>Routes, work and recovery\<close>

definition sameDeliveryEndpoint :: "deliveryRoute \<Rightarrow> deliveryRoute \<Rightarrow> bool" where
  "sameDeliveryEndpoint l r \<longleftrightarrow>
     rPlatform l = rPlatform r \<and> go_trim (rAccountID l) = go_trim (rAccountID r) \<and>
     go_trim (rChatID l) = go_trim (rChatID r)"

definition sameDeliveryRoute :: "deliveryRoute \<Rightarrow> deliveryRoute \<Rightarrow> bool" where
  "sameDeliveryRoute l r \<longleftrightarrow>
     rPlatform l = rPlatform r \<and> go_trim (rAccountID l) = go_trim (rAccountID r) \<and>
     go_trim (rChatID l) = go_trim (rChatID r) \<and> go_trim (rReplyToID l) = go_trim (rReplyToID r)"

definition terminalEntryHasWork :: "terminalOutboxEntry \<Rightarrow> bool" where
  "terminalEntryHasWork e \<longleftrightarrow>
     eStream e \<noteq> None \<or>
     eCheckpoint e \<noteq> None \<and> \<not> eCheckpointDelivered e \<or>
     \<not> blank (eText e) \<and> \<not> eTextDelivered e \<or>
     \<not> blank (eNotification e) \<and> \<not> eNotificationDelivered e"

text \<open>
  The notice a recovered progress card shows, UTF-8 encoded: the task was interrupted because
  the WeClaw service restarted while it ran.
\<close>

definition activeStreamRestartText :: string where
  "activeStreamRestartText = map char_of
     [0xe4, 0xbb, 0xbb, 0xe5, 0x8a, 0xa1, 0xe5, 0xb7, 0xb2, 0xe4, 0xb8, 0xad, 0xe6, 0x96, 0xad,
      0xe3, 0x80, 0x82, 0x57, 0x65, 0x43, 0x6c, 0x61, 0x77, 0x20, 0xe6, 0x9c, 0x8d, 0xe5, 0x8a,
      0xa1, 0xe5, 0x9c, 0xa8, 0xe4, 0xbb, 0xbb, 0xe5, 0x8a, 0xa1, 0xe6, 0x89, 0xa7, 0xe8, 0xa1,
      0x8c, 0xe6, 0x9c, 0x9f, 0xe9, 0x97, 0xb4, 0xe5, 0x8f, 0x91, 0xe7, 0x94, 0x9f, 0xe9, 0x87,
      0x8d, 0xe5, 0x90, 0xaf, 0xe3, 0x80, 0x82 :: nat]"

definition terminalOutboxEntryIsActiveStreamRecovery :: "terminalOutboxEntry \<Rightarrow> bool" where
  "terminalOutboxEntryIsActiveStreamRecovery e \<longleftrightarrow>
     eStream e \<noteq> None \<and>
     (eActiveStreamRecovery e \<or>
      eStopped e \<and> eCheckpoint e = None \<and> eText e = activeStreamRestartText \<and>
      \<not> eCheckpointDelivered e \<and> \<not> eTextDelivered e \<and> \<not> eNotificationDelivered e)"

definition terminalOutboxEntryMatchesCodexFollowerGuard ::
  "terminalOutboxEntry \<Rightarrow> codexFollowerSnapshot \<Rightarrow> bool" where
  "terminalOutboxEntryMatchesCodexFollowerGuard e t \<longleftrightarrow>
     (let g = terminalDeliveryGuardFromEntry e in
      guard_complete g \<and> gFollowerBindingKey g = fsBindingKey t \<and>
      gFollowerRevision g = fsRevision t \<and>
      gFollowerThreadID g = go_trim (fThreadID (fsTarget t)) \<and>
      gAuthorizedIdentity g = go_trim (fAuthorizedIdentity (fsTarget t)) \<and>
      sameDeliveryEndpoint (eRoute e) (fDeliveryRoute (fsTarget t)))"

definition terminalOutboxEntryMatchesCodexFollower ::
  "terminalOutboxEntry \<Rightarrow> codexFollowerSnapshot \<Rightarrow> bool" where
  "terminalOutboxEntryMatchesCodexFollower e t \<longleftrightarrow>
     (case eTrace e of
        None \<Rightarrow> False
      | Some tr \<Rightarrow>
          terminalOutboxEntryIsActiveStreamRecovery e \<and> eAgentName e = fsAgentName t \<and>
          tConversationID tr = fsConversationID t \<and>
          sameDeliveryEndpoint (eRoute e) (fDeliveryRoute (fsTarget t)) \<and>
          (go_trim (tThreadID tr) = go_trim (fThreadID (fsTarget t)) \<or>
           \<not> blank (fsRecoveryThreadID t) \<and> \<not> blank (fsRecoveryReservationID t) \<and>
           eID e = go_trim (fsRecoveryReservationID t) \<and>
           go_trim (tThreadID tr) = go_trim (fsRecoveryThreadID t)))"

definition terminalOutboxEntryMatchesCodexRelease ::
  "terminalOutboxEntry \<Rightarrow> codexReleasedFollowerSnapshot \<Rightarrow> bool" where
  "terminalOutboxEntryMatchesCodexRelease e t \<longleftrightarrow>
     (case eTrace e of
        None \<Rightarrow> False
      | Some tr \<Rightarrow>
          let reservationID = go_trim (rsRecoveryReservationID t); threadID = go_trim (tThreadID tr) in
          terminalOutboxEntryIsActiveStreamRecovery e \<and> eAgentName e = rsAgentName t \<and>
          tConversationID tr = rsConversationID t \<and>
          (reservationID \<noteq> [] \<longrightarrow> eID e = reservationID) \<and>
          (threadID = go_trim (rsThreadID t) \<or>
           reservationID \<noteq> [] \<and> \<not> blank (rsRecoveryThreadID t) \<and>
           threadID = go_trim (rsRecoveryThreadID t)))"

definition committedCodexReleaseTargets ::
  "codexReleasedFollowerSnapshot list \<Rightarrow> codexReleasedFollowerSnapshot list" where
  "committedCodexReleaseTargets ts = filter rsCommitted ts"

subsection \<open>Validation\<close>

definition validatePendingStreamSupersede ::
  "(string \<Rightarrow> bool) \<Rightarrow> pendingStreamSupersede \<Rightarrow> outbox_error option" where
  "validatePendingStreamSupersede uuid_parse p =
     (if \<not> uuid_parse (pID p) then Some InvalidPendingID
      else if \<not> route_Valid (pRoute p) then Some InvalidPendingRoute
      else if \<not> checkpoint_ok (pCheckpoint p) then Some InvalidPendingCheckpoint
      else if pAttempts p < 0 \<or> pNextAttempt p = 0 then Some InvalidPendingRetryState
      else if pDeadLetter p \<and> pDeadLetterAt p = 0 then Some MissingPendingDeadLetterTime
      else None)"

fun validatePendings ::
  "(string \<Rightarrow> bool) \<Rightarrow> string list \<Rightarrow> pendingStreamSupersede list \<Rightarrow> outbox_error option" where
  "validatePendings uuid_parse seenPending [] = None"
| "validatePendings uuid_parse seenPending (p # ps) =
     (case validatePendingStreamSupersede uuid_parse p of
        Some err \<Rightarrow> Some err
      | None \<Rightarrow>
          if pID p \<in> set seenPending then Some DuplicatePendingID
          else validatePendings uuid_parse (pID p # seenPending) ps)"

definition entry_has_payload :: "terminalOutboxEntry \<Rightarrow> bool" where
  "entry_has_payload e \<longleftrightarrow>
     \<not> (eStream e = None \<and> eCheckpoint e = None \<and> blank (eText e) \<and> blank (eNotification e) \<and>
        ePendingSupersedes e = [])"

definition replay_incomplete :: "terminalOutboxEntry \<Rightarrow> bool" where
  "replay_incomplete e \<longleftrightarrow>
     (eReplaySelectionID e \<noteq> [] \<or> eReplayTurnID e \<noteq> []) \<and>
     (\<not> guard_complete (terminalDeliveryGuardFromEntry e) \<or> eReplaySelectionID e = [] \<or>
      eReplayTurnID e = [] \<or> \<not> eRichResult e \<or> blank (eText e))"

definition validateTerminalOutboxEntry ::
  "(string \<Rightarrow> bool) \<Rightarrow> terminalOutboxEntry \<Rightarrow> outbox_error option" where
  "validateTerminalOutboxEntry uuid_parse e =
     (let g = terminalDeliveryGuardFromEntry e in
      if \<not> uuid_parse (eID e) then Some InvalidEntryID
      else if \<not> route_Valid (eRoute e) then Some InvalidRoute
      else if \<not> guard_empty g \<and> \<not> guard_complete g then Some IncompleteGuard
      else if replay_incomplete e then Some InvalidReplay
      else if \<not> entry_has_payload e then Some NoPayload
      else if \<not> pred_option checkpoint_ok (eStream e) then Some InvalidStreamReference
      else if \<not> pred_option checkpoint_ok (eCheckpoint e) then Some InvalidCheckpoint
      else if eCreatedAt e = 0 \<or> eUpdatedAt e = 0 \<or> eNextAttempt e = 0 then Some MissingTimestamps
      else if eDeadLetter e \<and> eDeadLetterAt e = 0 then Some MissingDeadLetterTime
      else validatePendings uuid_parse [] (ePendingSupersedes e))"

subsection \<open>Lemmas\<close>

lemma guard_from_set_guard [simp]:
  "terminalDeliveryGuardFromEntry (set_guard (terminalDeliveryGuardFromDraft d) e) =
   terminalDeliveryGuardFromDraft d"
  by (simp add: terminalDeliveryGuardFromEntry_def set_guard_def terminalDeliveryGuardFromDraft_def)

lemma guard_not_empty_and_complete: "\<not> (guard_empty g \<and> guard_complete g)"
  by (auto simp: guard_empty_def guard_complete_def)

lemma guard_apply_roundtrip:
  "guard_complete g \<Longrightarrow>
   terminalDeliveryGuardFromDraft (guard_apply g d) =
     g\<lparr>gAuthorizedIdentity := go_trim (gAuthorizedIdentity g),
       gFollowerBindingKey := go_trim (gFollowerBindingKey g),
       gFollowerThreadID := go_trim (gFollowerThreadID g)\<rparr>"
  by (simp add: terminalDeliveryGuardFromDraft_def guard_apply_def)

lemma sameDeliveryEndpoint_refl [simp]: "sameDeliveryEndpoint r r"
  by (simp add: sameDeliveryEndpoint_def)

lemma sameDeliveryRoute_endpoint: "sameDeliveryRoute l r \<Longrightarrow> sameDeliveryEndpoint l r"
  by (simp add: sameDeliveryRoute_def sameDeliveryEndpoint_def)

lemma validatePendings_None_iff:
  "validatePendings u seen ps = None \<longleftrightarrow>
     (\<forall>p \<in> set ps. validatePendingStreamSupersede u p = None) \<and> distinct (map pID ps) \<and>
     pID ` set ps \<inter> set seen = {}"
  by (induction u seen ps rule: validatePendings.induct) (auto split: option.splits)

lemma validate_None_iff:
  "validateTerminalOutboxEntry u e = None \<longleftrightarrow>
     u (eID e) \<and> route_Valid (eRoute e) \<and>
     (guard_empty (terminalDeliveryGuardFromEntry e) \<or> guard_complete (terminalDeliveryGuardFromEntry e)) \<and>
     \<not> replay_incomplete e \<and> entry_has_payload e \<and>
     pred_option checkpoint_ok (eStream e) \<and> pred_option checkpoint_ok (eCheckpoint e) \<and>
     eCreatedAt e \<noteq> 0 \<and> eUpdatedAt e \<noteq> 0 \<and> eNextAttempt e \<noteq> 0 \<and>
     (eDeadLetter e \<longrightarrow> eDeadLetterAt e \<noteq> 0) \<and>
     (\<forall>p \<in> set (ePendingSupersedes e). validatePendingStreamSupersede u p = None) \<and>
     distinct (map pID (ePendingSupersedes e))"
  by (auto simp: validateTerminalOutboxEntry_def validatePendings_None_iff Let_def)

lemma hasWork_payload: "terminalEntryHasWork e \<Longrightarrow> entry_has_payload e"
  by (auto simp: terminalEntryHasWork_def entry_has_payload_def)

lemma activeRecovery_hasWork:
  "terminalOutboxEntryIsActiveStreamRecovery e \<Longrightarrow> terminalEntryHasWork e"
  by (simp add: terminalOutboxEntryIsActiveStreamRecovery_def terminalEntryHasWork_def)

end
