(* ===== verification/Outbox_Store.thy ===== *)
theory Outbox_Store
  imports Outbox_Types
begin

section \<open>The outbox's state, its file and its in-memory holds\<close>

text \<open>
  The state of \<open>terminalOutbox\<close> (\<open>messaging/terminal_outbox.go\<close>): the entries, the in-memory sets
  \<open>preparing\<close>, \<open>followerHeld\<close>, \<open>startupHeld\<close>, \<open>releaseHeld\<close>, \<open>releaseBusy\<close> and \<open>processing\<close> (Go maps
  from string to bool whose false entries are deleted), the buffered \<open>wake\<close> channel of capacity
  one, the limits, and the state file together with its temporary file. The trace recorder is
  the list of events it received.

  The writer's system calls can each fail; their outcomes are the record \<open>write_env\<close> that every
  operation which persists takes as an argument. The file holds the decoded value of its JSON text.
  Encoding drops the trace's route key (tag \<open>json:"-"\<close>) and re-indents raw messages; the latter is
  the function \<open>raw_message\<close> of the record \<open>outbox_lib\<close>, which also holds \<open>uuid_parse\<close> and the text
  of an operating system error.
\<close>

record outbox_lib =
  uuid_parse :: "string \<Rightarrow> bool"
  raw_message :: "string \<Rightarrow> string"
  io_text :: "io_error \<Rightarrow> string"

record terminalOutboxState =
  sVersion :: int
  sEntries :: "terminalOutboxEntry option list"

text \<open>A path holds nothing, something that is not a regular file, or a file with permission bits
  and contents; contents that are no JSON text of the expected shape are \<^const>\<open>None\<close>.\<close>

datatype node = Absent | NotRegular | Regular nat "terminalOutboxState option"

record outbox_fs =
  fsNode :: node
  fsTmp :: node

record write_env =
  wMkdir :: bool
  wChmodDir :: bool
  wLstat :: bool
  wMarshal :: bool
  wCreateTemp :: bool
  wChmodTemp :: bool
  wWrite :: bool
  wSync :: bool
  wClose :: bool
  wRename :: bool
  wSyncDir :: bool

definition terminalOutboxVersion :: int where
  "terminalOutboxVersion = 1"

definition terminalOutboxMaxEntries :: int where
  "terminalOutboxMaxEntries = 10000"

definition terminalOutboxMaxAttempts :: int where
  "terminalOutboxMaxAttempts = 12"

definition terminalOutboxRetryMin :: duration where
  "terminalOutboxRetryMin = 2 * second"

definition terminalOutboxRetryMax :: duration where
  "terminalOutboxRetryMax = minute"

definition terminalOutboxDeliveryTimeout :: duration where
  "terminalOutboxDeliveryTimeout = 10 * second"

record terminalOutbox =
  oEntries :: "terminalOutboxEntry list"
  oPreparing :: "string set"
  oFollowerHeld :: "string set"
  oStartupHeld :: "string set"
  oReleaseHeld :: "string set"
  oReleaseBusy :: "string set"
  oProcessing :: "string set"
  oWake :: bool
  oMaxEntries :: int
  oMaxAttempts :: int
  oFS :: outbox_fs
  oTraced :: "(string \<times> string \<times> string) list"

subsection \<open>The state file\<close>

definition encode_checkpoint :: "(string \<Rightarrow> string) \<Rightarrow> checkpoint \<Rightarrow> checkpoint" where
  "encode_checkpoint raw c = c\<lparr>cPayload := raw (cPayload c)\<rparr>"

definition encode_pending ::
  "(string \<Rightarrow> string) \<Rightarrow> pendingStreamSupersede \<Rightarrow> pendingStreamSupersede" where
  "encode_pending raw p = p\<lparr>pCheckpoint := encode_checkpoint raw (pCheckpoint p)\<rparr>"

definition encode_entry ::
  "(string \<Rightarrow> string) \<Rightarrow> terminalOutboxEntry \<Rightarrow> terminalOutboxEntry" where
  "encode_entry raw e = e\<lparr>
     eStream := map_option (encode_checkpoint raw) (eStream e),
     eCheckpoint := map_option (encode_checkpoint raw) (eCheckpoint e),
     eTrace := map_option (\<lambda>t. t\<lparr>tRouteKey := []\<rparr>) (eTrace e),
     ePendingSupersedes := map (encode_pending raw) (ePendingSupersedes e)\<rparr>"

definition encode_state ::
  "(string \<Rightarrow> string) \<Rightarrow> terminalOutboxEntry list \<Rightarrow> terminalOutboxState" where
  "encode_state raw es =
     \<lparr>sVersion = terminalOutboxVersion, sEntries = map (Some \<circ> encode_entry raw) es\<rparr>"

definition writeTerminalOutbox ::
  "outbox_lib \<Rightarrow> write_env \<Rightarrow> terminalOutboxEntry list \<Rightarrow> outbox_fs \<Rightarrow> io_error option \<times> outbox_fs" where
  "writeTerminalOutbox lib w es fs =
     (if \<not> wMkdir w then (Some MkdirError, fs)
      else if \<not> wChmodDir w then (Some ChmodError, fs)
      else if \<not> wLstat w then (Some StatError, fs)
      else if fsNode fs = NotRegular then (Some NotRegularFile, fs)
      else if \<not> wMarshal w then (Some MarshalError, fs)
      else if \<not> wCreateTemp w then (Some CreateTempError, fs)
      else
        let fs0 = fs\<lparr>fsTmp := Regular 384 None\<rparr>; cleanup = (\<lambda>f. f\<lparr>fsTmp := Absent\<rparr>) in
        if \<not> wChmodTemp w then (Some TempChmodError, cleanup fs0)
        else if \<not> wWrite w then (Some TempWriteError, cleanup fs0)
        else
          let fs1 = fs0\<lparr>fsTmp := Regular 384 (Some (encode_state (raw_message lib) es))\<rparr> in
          if \<not> wSync w then (Some TempSyncError, cleanup fs1)
          else if \<not> wClose w then (Some TempCloseError, cleanup fs1)
          else if \<not> wRename w then (Some RenameError, cleanup fs1)
          else (None, fs1\<lparr>fsNode := fsTmp fs1, fsTmp := Absent\<rparr>))"

fun load_pendings ::
  "string list \<Rightarrow> string list \<Rightarrow> pendingStreamSupersede list \<Rightarrow> outbox_error + string list" where
  "load_pendings seen seenPending [] = Inr seenPending"
| "load_pendings seen seenPending (p # ps) =
     (if pID p \<in> set seen then Inl DuplicateOperationID
      else if pID p \<in> set seenPending then Inl DuplicatePendingID
      else load_pendings seen (pID p # seenPending) ps)"

fun load_entries ::
  "(string \<Rightarrow> bool) \<Rightarrow> string list \<Rightarrow> string list \<Rightarrow> terminalOutboxEntry option list
   \<Rightarrow> outbox_error + terminalOutboxEntry list" where
  "load_entries u seen seenPending [] = Inr []"
| "load_entries u seen seenPending (None # es) = Inl NilEntry"
| "load_entries u seen seenPending (Some e # es) =
     (case validateTerminalOutboxEntry u e of
        Some err \<Rightarrow> Inl err
      | None \<Rightarrow>
          if eID e \<in> set seen then Inl DuplicateEntryID
          else if eID e \<in> set seenPending then Inl DuplicateOperationID
          else
            (case load_pendings (eID e # seen) seenPending (ePendingSupersedes e) of
               Inl err \<Rightarrow> Inl err
             | Inr seenPending' \<Rightarrow>
                 (case load_entries u (eID e # seen) seenPending' es of
                    Inl err \<Rightarrow> Inl err
                  | Inr r \<Rightarrow> Inr (e # r))))"

definition loadTerminalOutbox ::
  "outbox_lib \<Rightarrow> bool \<Rightarrow> bool \<Rightarrow> node \<Rightarrow> outbox_error + terminalOutboxEntry list" where
  "loadTerminalOutbox lib stat_ok read_ok nd =
     (if \<not> stat_ok then Inl (PersistFailed StatError)
      else (case nd of
          Absent \<Rightarrow> Inr []
        | NotRegular \<Rightarrow> Inl (PersistFailed NotRegularFile)
        | Regular perm contents \<Rightarrow>
            if perm mod 64 \<noteq> 0 then Inl (PersistFailed PermissionsTooBroad)
            else if \<not> read_ok then Inl (PersistFailed ReadError)
            else (case contents of
                None \<Rightarrow> Inl (PersistFailed ParseError)
              | Some st \<Rightarrow>
                  if sVersion st \<noteq> terminalOutboxVersion then Inl (UnsupportedVersion (sVersion st))
                  else if int (length (sEntries st)) > terminalOutboxMaxEntries then Inl TooManyEntries
                  else load_entries (uuid_parse lib) [] [] (sEntries st))))"

definition newTerminalOutbox ::
  "outbox_lib \<Rightarrow> bool \<Rightarrow> bool \<Rightarrow> outbox_fs \<Rightarrow> outbox_error + terminalOutbox" where
  "newTerminalOutbox lib stat_ok read_ok fs =
     (case loadTerminalOutbox lib stat_ok read_ok (fsNode fs) of
        Inl err \<Rightarrow> Inl err
      | Inr es \<Rightarrow> Inr \<lparr>oEntries = es, oPreparing = {}, oFollowerHeld = {}, oStartupHeld = {},
          oReleaseHeld = {}, oReleaseBusy = {}, oProcessing = {}, oWake = False,
          oMaxEntries = terminalOutboxMaxEntries, oMaxAttempts = terminalOutboxMaxAttempts,
          oFS = fs, oTraced = []\<rparr>)"

subsection \<open>Lookups, limits and the pattern persist or roll back\<close>

definition entryLocked :: "string \<Rightarrow> terminalOutbox \<Rightarrow> terminalOutboxEntry option" where
  "entryLocked i ob = find (\<lambda>e. eID e = i) (oEntries ob)"

definition entryLimit :: "terminalOutbox \<Rightarrow> int" where
  "entryLimit ob = (if oMaxEntries ob > 0 then oMaxEntries ob else terminalOutboxMaxEntries)"

definition attemptLimit :: "terminalOutbox \<Rightarrow> int" where
  "attemptLimit ob = (if oMaxAttempts ob > 0 then oMaxAttempts ob else terminalOutboxMaxAttempts)"

definition signal :: "terminalOutbox \<Rightarrow> terminalOutbox" where
  "signal ob = ob\<lparr>oWake := True\<rparr>"

definition recordTrace ::
  "terminalOutboxEntry \<Rightarrow> string \<Rightarrow> string \<Rightarrow> terminalOutbox \<Rightarrow> terminalOutbox" where
  "recordTrace e stage st ob =
     (case eTrace e of None \<Rightarrow> ob | Some _ \<Rightarrow> ob\<lparr>oTraced := oTraced ob @ [(eID e, stage, st)]\<rparr>)"

definition persistLocked ::
  "outbox_lib \<Rightarrow> write_env \<Rightarrow> terminalOutbox \<Rightarrow> io_error option \<times> terminalOutbox" where
  "persistLocked lib w ob =
     (case writeTerminalOutbox lib w (oEntries ob) (oFS ob) of
        (err, fs) \<Rightarrow> (err, ob\<lparr>oFS := fs\<rparr>))"

text \<open>
  The shape of every mutation of the source: change the entries in place, call \<open>persistLocked\<close>
  and, when it fails, write the saved copy back.
\<close>

definition persist_entries ::
  "outbox_lib \<Rightarrow> write_env \<Rightarrow> terminalOutboxEntry list \<Rightarrow> terminalOutbox
   \<Rightarrow> io_error option \<times> terminalOutbox" where
  "persist_entries lib w es ob =
     (case persistLocked lib w (ob\<lparr>oEntries := es\<rparr>) of
        (None, ob') \<Rightarrow> (None, ob')
      | (Some err, ob') \<Rightarrow> (Some err, ob'\<lparr>oEntries := oEntries ob\<rparr>))"

definition set_entry ::
  "terminalOutboxEntry \<Rightarrow> terminalOutboxEntry list \<Rightarrow> terminalOutboxEntry list" where
  "set_entry e es = upd_first (\<lambda>x. eID x = eID e) (\<lambda>_. e) es"

definition pendingStreamSupersedeIndex :: "terminalOutboxEntry \<Rightarrow> string \<Rightarrow> nat option" where
  "pendingStreamSupersedeIndex e i =
     map_option fst (find (\<lambda>(_, p). pID p = i) (enumerate 0 (ePendingSupersedes e)))"

subsection \<open>Holds taken at start-up and on release\<close>

definition holdCodexFollowerTerminalDeliveries ::
  "codexFollowerSnapshot list \<Rightarrow> terminalOutbox \<Rightarrow> terminalOutbox" where
  "holdCodexFollowerTerminalDeliveries targets ob =
     (let ids = set (map eID (filter (\<lambda>e. terminalEntryHasWork e \<and>
                  list_ex (terminalOutboxEntryMatchesCodexFollowerGuard e) targets) (oEntries ob))) in
      ob\<lparr>oStartupHeld := oStartupHeld ob \<union> ids, oPreparing := oPreparing ob \<union> ids\<rparr>)"

definition releaseCodexFollowerTerminalDeliveries ::
  "codexFollowerSnapshot \<Rightarrow> terminalOutbox \<Rightarrow> terminalOutbox" where
  "releaseCodexFollowerTerminalDeliveries target ob =
     (let ids = set (map eID (filter (\<lambda>e. eID e \<in> oStartupHeld ob \<and>
                  terminalOutboxEntryMatchesCodexFollowerGuard e target) (oEntries ob)));
          unheld = Set.filter (\<lambda>i. i \<notin> oFollowerHeld ob \<and> i \<notin> oReleaseHeld ob) ids;
          ob' = ob\<lparr>oStartupHeld := oStartupHeld ob - ids, oPreparing := oPreparing ob - unheld\<rparr>
      in if ids = {} then ob' else signal ob')"

definition reconcileCodexFollowerTerminalDeliveryHolds ::
  "codexFollowerSnapshot list \<Rightarrow> terminalOutbox \<Rightarrow> terminalOutbox" where
  "reconcileCodexFollowerTerminalDeliveryHolds targets ob =
     (let matched = (\<lambda>i. case entryLocked i ob of
              None \<Rightarrow> False
            | Some e \<Rightarrow> list_ex (terminalOutboxEntryMatchesCodexFollowerGuard e) targets);
          ids = Set.filter (\<lambda>i. \<not> matched i) (oStartupHeld ob);
          unheld = Set.filter (\<lambda>i. i \<notin> oFollowerHeld ob \<and> i \<notin> oReleaseHeld ob) ids;
          ob' = ob\<lparr>oStartupHeld := oStartupHeld ob - ids, oPreparing := oPreparing ob - unheld\<rparr>
      in if ids = {} then ob' else signal ob')"

text \<open>
  The entries a release matches are held; those not already being frozen are returned and
  marked busy.
\<close>

fun hold_released ::
  "codexReleasedFollowerSnapshot list \<Rightarrow> terminalOutboxEntry list \<Rightarrow> terminalOutbox
   \<Rightarrow> terminalOutboxEntry list \<times> terminalOutbox" where
  "hold_released targets [] ob = ([], ob)"
| "hold_released targets (e # es) ob =
     (if \<not> terminalOutboxEntryIsActiveStreamRecovery e \<or> eTrace e = None \<or>
         \<not> list_ex (terminalOutboxEntryMatchesCodexRelease e) targets
      then hold_released targets es ob
      else
        let ob1 = ob\<lparr>oPreparing := insert (eID e) (oPreparing ob),
                    oReleaseHeld := insert (eID e) (oReleaseHeld ob),
                    oFollowerHeld := oFollowerHeld ob - {eID e}\<rparr> in
        if eID e \<in> oReleaseBusy ob1 then hold_released targets es ob1
        else
          (case hold_released targets es (ob1\<lparr>oReleaseBusy := insert (eID e) (oReleaseBusy ob1)\<rparr>) of
             (held, ob2) \<Rightarrow> (e # held, ob2)))"

definition holdReleasedCodexFollowerRecoveries ::
  "codexReleasedFollowerSnapshot list \<Rightarrow> terminalOutbox \<Rightarrow> terminalOutboxEntry list \<times> terminalOutbox" where
  "holdReleasedCodexFollowerRecoveries targets ob =
     (if targets = [] then ([], ob) else hold_released targets (oEntries ob) ob)"

definition holdCodexFollowerRecoveries ::
  "codexFollowerSnapshot list \<Rightarrow> terminalOutbox \<Rightarrow> terminalOutbox" where
  "holdCodexFollowerRecoveries targets ob =
     (let ids = set (map eID (filter (\<lambda>e. terminalOutboxEntryIsActiveStreamRecovery e \<and>
                  eTrace e \<noteq> None \<and> list_ex (terminalOutboxEntryMatchesCodexFollower e) targets)
                  (oEntries ob)))
      in ob\<lparr>oPreparing := oPreparing ob \<union> ids, oFollowerHeld := oFollowerHeld ob \<union> ids\<rparr>)"

definition heldCodexFollowerRecoveries ::
  "codexFollowerSnapshot \<Rightarrow> terminalOutbox \<Rightarrow> terminalOutboxEntry list" where
  "heldCodexFollowerRecoveries target ob =
     filter (\<lambda>e. eID e \<in> oFollowerHeld ob \<and> eID e \<notin> oReleaseHeld ob \<and>
       terminalOutboxEntryIsActiveStreamRecovery e \<and> eTrace e \<noteq> None \<and>
       terminalOutboxEntryMatchesCodexFollower e target) (oEntries ob)"

definition releaseHeldCodexFollowerRecovery :: "string \<Rightarrow> terminalOutbox \<Rightarrow> terminalOutbox" where
  "releaseHeldCodexFollowerRecovery i ob =
     signal (ob\<lparr>oFollowerHeld := oFollowerHeld ob - {i}, oReleaseHeld := oReleaseHeld ob - {i},
       oReleaseBusy := oReleaseBusy ob - {i}, oPreparing := oPreparing ob - {i}\<rparr>)"

definition endReleasedRecoveryAttempt :: "string \<Rightarrow> terminalOutbox \<Rightarrow> terminalOutbox" where
  "endReleasedRecoveryAttempt i ob = ob\<lparr>oReleaseBusy := oReleaseBusy ob - {i}\<rparr>"

text \<open>
  One pass over the held ids that are not busy. Each id is treated on its own, so the pass is
  the same in every iteration order of the Go map: \<open>rel\<close> are the ids that stay held for a
  release, \<open>fol\<close> those held for a follower, \<open>gone\<close> those let go.
\<close>

definition reconcileCodexFollowerHolds ::
  "codexFollowerSnapshot list \<Rightarrow> codexReleasedFollowerSnapshot list \<Rightarrow> terminalOutbox \<Rightarrow> terminalOutbox" where
  "reconcileCodexFollowerHolds followers releases ob =
     (let ids = Set.filter (\<lambda>i. i \<notin> oReleaseBusy ob) (oFollowerHeld ob \<union> oReleaseHeld ob);
          matches = (\<lambda>P i. case entryLocked i ob of None \<Rightarrow> False | Some e \<Rightarrow> P e);
          rel = Set.filter (matches (\<lambda>e. list_ex (terminalOutboxEntryMatchesCodexRelease e) releases)) ids;
          fol = Set.filter (matches (\<lambda>e. list_ex (terminalOutboxEntryMatchesCodexFollower e) followers)) (ids - rel);
          gone = ids - rel - fol;
          changed = (\<exists>i \<in> rel. i \<notin> oReleaseHeld ob \<or> i \<in> oFollowerHeld ob \<or> i \<notin> oPreparing ob) \<or>
            (\<exists>i \<in> fol. i \<in> oReleaseHeld ob \<or> i \<notin> oFollowerHeld ob \<or> i \<notin> oPreparing ob) \<or>
            (\<exists>i \<in> gone. i \<in> oFollowerHeld ob \<or> i \<in> oReleaseHeld ob \<or> i \<in> oPreparing ob);
          ob' = ob\<lparr>oReleaseHeld := oReleaseHeld ob \<union> rel - fol - gone,
                   oFollowerHeld := oFollowerHeld ob \<union> fol - rel - gone,
                   oReleaseBusy := oReleaseBusy ob - fol - gone,
                   oPreparing := oPreparing ob \<union> rel \<union> fol - gone\<rparr>
      in if changed then signal ob' else ob')"

end
