(* ===== verification/Outbox_Ops.thy ===== *)
theory Outbox_Ops
  imports Outbox_Store
begin

section \<open>Operations of the outbox that change entries\<close>

text \<open>
  One definition per exported operation of \<open>messaging/terminal_outbox.go\<close> that changes an entry:
  enqueueing and reserving, staging and committing a reservation, refreshing, re-anchoring and
  detaching its stream, discarding it, and redriving. Each takes the outcomes of its system
  calls (\<open>write_env\<close>) and the clock's reading (\<open>now\<close>) as arguments and returns the error or the
  result together with the next state. An operation that fails before its critical section, or
  whose write fails, leaves the entries as they were; where the source also touches the
  in-memory sets on an error path, so does the definition.
\<close>

subsection \<open>Enqueueing\<close>

definition strip_route_key :: "traceContext \<Rightarrow> traceContext" where
  "strip_route_key t = t\<lparr>tRouteKey := []\<rparr>"

definition draft_trace :: "traceContext \<Rightarrow> traceContext option" where
  "draft_trace t = (if blank (tTraceID t) then None else Some (strip_route_key t))"

definition draft_no_payload :: "terminalOutboxDraft \<Rightarrow> bool" where
  "draft_no_payload d \<longleftrightarrow>
     dStream d = None \<and> dCheckpoint d = None \<and> blank (dText d) \<and> blank (dNotification d)"

definition draft_entry :: "instant \<Rightarrow> string \<Rightarrow> terminalOutboxDraft \<Rightarrow> terminalOutboxEntry" where
  "draft_entry now i d = \<lparr>
     eReplaySelectionID = dReplaySelectionID d, eReplayTurnID = dReplayTurnID d,
     eID = i, eRoute = dRoute d, eAgentName = go_trim (dAgentName d),
     eAuthorizedIdentity = go_trim (dAuthorizedIdentity d),
     eFollowerBindingKey = go_trim (dFollowerBindingKey d),
     eFollowerRevision = dFollowerRevision d,
     eFollowerThreadID = go_trim (dFollowerThreadID d),
     eFailed = dFailed d, eStopped = dStopped d,
     eStream = dStream d, eCheckpoint = dCheckpoint d,
     eResultTitle = go_trim (dResultTitle d), eRichResult = dRichResult d,
     eText = dText d, eNotification = dNotification d,
     eIdempotencyKey = go_trim (dIdempotencyKey d), eTrace = draft_trace (dTrace d),
     ePendingSupersedes = [], eActiveStreamRecovery = dActiveStreamRecovery d,
     eCheckpointDelivered = False, eTextDelivered = False, eNotificationDelivered = False,
     eAttempts = 0, eCreatedAt = now, eUpdatedAt = now, eNextAttempt = now,
     eLastError = [], eDeadLetter = False, eDeadLetterAt = 0\<rparr>"

definition sameTerminalOutboxPayload :: "terminalOutboxEntry \<Rightarrow> terminalOutboxEntry \<Rightarrow> bool" where
  "sameTerminalOutboxPayload x c \<longleftrightarrow>
     eID x = eID c \<and> eReplaySelectionID x = eReplaySelectionID c \<and> eReplayTurnID x = eReplayTurnID c \<and>
     eAgentName x = eAgentName c \<and> eFailed x = eFailed c \<and>
     eAuthorizedIdentity x = eAuthorizedIdentity c \<and> eFollowerBindingKey x = eFollowerBindingKey c \<and>
     eFollowerRevision x = eFollowerRevision c \<and> eFollowerThreadID x = eFollowerThreadID c \<and>
     eStopped x = eStopped c \<and> eResultTitle x = eResultTitle c \<and>
     eRichResult x = eRichResult c \<and> eText x = eText c \<and>
     eNotification x = eNotification c \<and> eIdempotencyKey x = eIdempotencyKey c \<and>
     eStream x = None \<and> eStream c = None \<and> eCheckpoint x = None \<and> eCheckpoint c = None \<and>
     \<not> eActiveStreamRecovery x \<and> \<not> eActiveStreamRecovery c"

text \<open>The first dead letter with the least (dead letter time, creation time), with its index.\<close>

fun oldestEvictable ::
  "(string \<Rightarrow> bool) \<Rightarrow> nat \<Rightarrow> (nat \<times> terminalOutboxEntry) option \<Rightarrow> terminalOutboxEntry list
   \<Rightarrow> (nat \<times> terminalOutboxEntry) option" where
  "oldestEvictable blocked i best [] = best"
| "oldestEvictable blocked i best (e # es) =
     oldestEvictable blocked (Suc i)
       (if \<not> eDeadLetter e \<or> blocked (eID e) then best
        else (case best of
            None \<Rightarrow> Some (i, e)
          | Some (j, b) \<Rightarrow>
              if eDeadLetterAt e < eDeadLetterAt b \<or>
                 eDeadLetterAt e = eDeadLetterAt b \<and> eCreatedAt e < eCreatedAt b
              then Some (i, e) else best)) es"

definition oldestEvictableDeadLetterLocked ::
  "terminalOutbox \<Rightarrow> (nat \<times> terminalOutboxEntry) option" where
  "oldestEvictableDeadLetterLocked ob =
     oldestEvictable (\<lambda>i. i \<in> oPreparing ob \<or> i \<in> oProcessing ob) 0 None (oEntries ob)"

text \<open>An enqueue under an id that is already stored: same payload only, and another reply route
  only for a guarded entry of the same endpoint that nobody is working on.\<close>

definition reuse_entry ::
  "outbox_lib \<Rightarrow> write_env \<Rightarrow> instant \<Rightarrow> terminalOutboxEntry \<Rightarrow> terminalOutboxEntry \<Rightarrow> terminalOutbox
   \<Rightarrow> (outbox_error + terminalOutboxEntry) \<times> terminalOutbox" where
  "reuse_entry lib w now existing entry ob =
     (if \<not> sameTerminalOutboxPayload existing entry then (Inl IdConflict, ob)
      else if sameDeliveryRoute (eRoute existing) (eRoute entry) then (Inr existing, signal ob)
      else if \<not> guard_complete (terminalDeliveryGuardFromEntry existing) \<or>
              \<not> sameDeliveryEndpoint (eRoute existing) (eRoute entry) \<or>
              eID entry \<in> oPreparing ob \<or> eID entry \<in> oProcessing ob
           then (Inl IdConflict, ob)
      else
        let moved = existing\<lparr>eRoute := eRoute entry, eAttempts := 0, eLastError := [],
              eDeadLetter := False, eDeadLetterAt := 0, eUpdatedAt := now, eNextAttempt := now\<rparr> in
        (case persist_entries lib w (set_entry moved (oEntries ob)) ob of
           (Some err, ob') \<Rightarrow> (Inl (PersistFailed err), ob')
         | (None, ob') \<Rightarrow> (Inr moved, signal ob')))"

text \<open>Appending a new entry, evicting the oldest dead letter when the outbox is full. The error
  path undoes the append and the eviction on the slice itself, as the source does.\<close>

definition append_entry ::
  "outbox_lib \<Rightarrow> write_env \<Rightarrow> bool \<Rightarrow> (nat \<times> terminalOutboxEntry) option \<Rightarrow> terminalOutboxEntry
   \<Rightarrow> terminalOutbox \<Rightarrow> (outbox_error + terminalOutboxEntry) \<times> terminalOutbox" where
  "append_entry lib w preparing evicted entry ob =
     (let kept = (case evicted of None \<Rightarrow> oEntries ob | Some (i, _) \<Rightarrow> remove_nth i (oEntries ob));
          ob1 = ob\<lparr>oEntries := kept @ [entry],
                   oPreparing := (if preparing then insert (eID entry) (oPreparing ob) else oPreparing ob)\<rparr>
      in (case persistLocked lib w ob1 of
            (Some err, ob2) \<Rightarrow>
              let es = butlast (oEntries ob2);
                  es' = (case evicted of None \<Rightarrow> es | Some (i, e) \<Rightarrow> insert_nth i e es)
              in (Inl (PersistFailed err),
                  ob2\<lparr>oEntries := es', oPreparing := oPreparing ob2 - {eID entry}\<rparr>)
          | (None, ob2) \<Rightarrow> (Inr entry, recordTrace entry ''terminal.outbox.enqueued'' ''pending'' ob2)))"

definition enqueueWithState ::
  "outbox_lib \<Rightarrow> write_env \<Rightarrow> instant \<Rightarrow> string \<Rightarrow> terminalOutboxDraft \<Rightarrow> bool \<Rightarrow> terminalOutbox
   \<Rightarrow> (outbox_error + terminalOutboxEntry) \<times> terminalOutbox" where
  "enqueueWithState lib w now newID d preparing ob =
     (if \<not> route_Valid (dRoute d) then (Inl InvalidRoute, ob)
      else if draft_no_payload d then (Inl NoPayload, ob)
      else
        let entryID = (if blank (dID d) then newID else go_trim (dID d));
            entry = draft_entry now entryID d in
        (case validateTerminalOutboxEntry (uuid_parse lib) entry of
           Some err \<Rightarrow> (Inl err, ob)
         | None \<Rightarrow>
             (case entryLocked entryID ob of
                Some existing \<Rightarrow> reuse_entry lib w now existing entry ob
              | None \<Rightarrow>
                  if int (length (oEntries ob)) \<ge> entryLimit ob then
                    (case oldestEvictableDeadLetterLocked ob of
                       None \<Rightarrow> (Inl CapacityExceeded, ob)
                     | Some ev \<Rightarrow> append_entry lib w preparing (Some ev) entry ob)
                  else append_entry lib w preparing None entry ob)))"

definition enqueue ::
  "outbox_lib \<Rightarrow> write_env \<Rightarrow> instant \<Rightarrow> string \<Rightarrow> terminalOutboxDraft \<Rightarrow> terminalOutbox
   \<Rightarrow> (outbox_error + terminalOutboxEntry) \<times> terminalOutbox" where
  "enqueue lib w now newID d ob = enqueueWithState lib w now newID d False ob"

definition reserve ::
  "outbox_lib \<Rightarrow> write_env \<Rightarrow> instant \<Rightarrow> string \<Rightarrow> terminalOutboxDraft \<Rightarrow> terminalOutbox
   \<Rightarrow> (outbox_error + terminalOutboxEntry) \<times> terminalOutbox" where
  "reserve lib w now newID d ob = enqueueWithState lib w now newID d True ob"

subsection \<open>Editing one entry\<close>

text \<open>
  \<open>edit_entry\<close> is the part the editing operations share: validate the changed entry, write, and
  on either failure restore the saved copy.
\<close>

definition edit_entry ::
  "outbox_lib \<Rightarrow> write_env \<Rightarrow> terminalOutboxEntry \<Rightarrow> terminalOutbox \<Rightarrow> outbox_error option \<times> terminalOutbox" where
  "edit_entry lib w e ob =
     (case validateTerminalOutboxEntry (uuid_parse lib) e of
        Some err \<Rightarrow> (Some err, ob)
      | None \<Rightarrow>
          (case persist_entries lib w (set_entry e (oEntries ob)) ob of
             (Some err, ob') \<Rightarrow> (Some (PersistFailed err), ob')
           | (None, ob') \<Rightarrow> (None, ob')))"

definition reset_delivery :: "instant \<Rightarrow> terminalOutboxEntry \<Rightarrow> terminalOutboxEntry" where
  "reset_delivery now e = e\<lparr>eCheckpointDelivered := False, eTextDelivered := False,
     eNotificationDelivered := False, eUpdatedAt := now, eNextAttempt := now, eLastError := [],
     eDeadLetter := False, eDeadLetterAt := 0\<rparr>"

definition stage_fields :: "terminalOutboxDraft \<Rightarrow> terminalOutboxEntry \<Rightarrow> terminalOutboxEntry" where
  "stage_fields d e = e\<lparr>eFailed := dFailed d, eStopped := dStopped d,
     eResultTitle := go_trim (dResultTitle d), eRichResult := dRichResult d,
     eText := dText d, eNotification := dNotification d,
     eIdempotencyKey := go_trim (dIdempotencyKey d), eActiveStreamRecovery := False\<rparr>"

definition stageReservationResult ::
  "outbox_lib \<Rightarrow> write_env \<Rightarrow> instant \<Rightarrow> string \<Rightarrow> terminalOutboxDraft \<Rightarrow> terminalOutbox
   \<Rightarrow> outbox_error option \<times> terminalOutbox" where
  "stageReservationResult lib w now i d ob =
     (if \<not> route_Valid (dRoute d) \<or> blank (dText d) then (Some InvalidStagedResult, ob)
      else (case entryLocked i ob of
          None \<Rightarrow> (Some NotFound, ob)
        | Some e \<Rightarrow>
            (case mergeTerminalDeliveryGuard (e\<lparr>eRoute := dRoute d, eAgentName := go_trim (dAgentName d)\<rparr>) d of
               Inl err \<Rightarrow> (Some err, ob)
             | Inr e1 \<Rightarrow>
                 let e2 = reset_delivery now (stage_fields d e1);
                     e3 = (case draft_trace (dTrace d) of None \<Rightarrow> e2 | Some t \<Rightarrow> e2\<lparr>eTrace := Some t\<rparr>)
                 in edit_entry lib w e3 ob)))"

definition releaseReservation :: "string \<Rightarrow> terminalOutbox \<Rightarrow> terminalOutbox" where
  "releaseReservation i ob = signal (ob\<lparr>oPreparing := oPreparing ob - {i}\<rparr>)"

definition commitReservation ::
  "outbox_lib \<Rightarrow> write_env \<Rightarrow> instant \<Rightarrow> string \<Rightarrow> terminalOutboxDraft \<Rightarrow> terminalOutbox
   \<Rightarrow> outbox_error option \<times> terminalOutbox" where
  "commitReservation lib w now i d ob =
     (if \<not> route_Valid (dRoute d) then (Some InvalidRoute, releaseReservation i ob)
      else if draft_no_payload d then (Some NoPayload, releaseReservation i ob)
      else (case entryLocked i ob of
          None \<Rightarrow> (Some ReservationNotFound, ob\<lparr>oPreparing := oPreparing ob - {i}\<rparr>)
        | Some e \<Rightarrow>
            (case mergeTerminalDeliveryGuard (e\<lparr>eRoute := dRoute d, eAgentName := go_trim (dAgentName d)\<rparr>) d of
               Inl err \<Rightarrow> (Some err, releaseReservation i ob)
             | Inr e1 \<Rightarrow>
                 let nextStream = (if dStream d = None \<and> dCheckpoint d = None then eStream e1 else dStream d);
                     e2 = reset_delivery now (stage_fields d
                            (e1\<lparr>eStream := nextStream, eCheckpoint := dCheckpoint d\<rparr>));
                     e3 = e2\<lparr>eTrace := draft_trace (dTrace d)\<rparr>
                 in (case edit_entry lib w e3 ob of (r, ob') \<Rightarrow> (r, releaseReservation i ob')))))"

text \<open>What is left of an entry when only its pending card operations remain to be done.\<close>

definition clear_payload :: "instant \<Rightarrow> terminalOutboxEntry \<Rightarrow> terminalOutboxEntry" where
  "clear_payload now e = e\<lparr>eStream := None, eCheckpoint := None, eText := [], eNotification := [],
     eActiveStreamRecovery := False, eCheckpointDelivered := True, eTextDelivered := True,
     eNotificationDelivered := True, eUpdatedAt := now, eLastError := [],
     eDeadLetter := False, eDeadLetterAt := 0\<rparr>"

definition discardReservation ::
  "outbox_lib \<Rightarrow> write_env \<Rightarrow> instant \<Rightarrow> string \<Rightarrow> terminalOutbox \<Rightarrow> outbox_error option \<times> terminalOutbox" where
  "discardReservation lib w now i ob =
     (case entryLocked i ob of
        None \<Rightarrow> (None, ob\<lparr>oPreparing := oPreparing ob - {i}\<rparr>)
      | Some e \<Rightarrow>
          if ePendingSupersedes e \<noteq> [] then
            (case edit_entry lib w (clear_payload now e) ob of
               (Some err, ob') \<Rightarrow> (Some err, ob')
             | (None, ob') \<Rightarrow> (None, signal (ob'\<lparr>oPreparing := oPreparing ob' - {i}\<rparr>)))
          else
            (case persist_entries lib w (remove_first (\<lambda>x. eID x = i) (oEntries ob)) ob of
               (Some err, ob') \<Rightarrow> (Some (PersistFailed err), ob')
             | (None, ob') \<Rightarrow> (None, ob'\<lparr>oPreparing := oPreparing ob' - {i}\<rparr>)))"

subsection \<open>Refreshing an active stream's recovery\<close>

definition refreshStreamReservation ::
  "outbox_lib \<Rightarrow> write_env \<Rightarrow> instant \<Rightarrow> string \<Rightarrow> deliveryRoute \<Rightarrow> durableStreamReference \<Rightarrow> terminalOutbox
   \<Rightarrow> outbox_error option \<times> terminalOutbox" where
  "refreshStreamReservation lib w now i r ref ob =
     (if \<not> route_Valid r \<or> \<not> checkpoint_ok ref then (Some InvalidStreamRecovery, ob)
      else (case entryLocked i ob of
          None \<Rightarrow> (Some NotFound, ob)
        | Some e \<Rightarrow>
            edit_entry lib w (reset_delivery now (e\<lparr>eRoute := r, eStream := Some ref,
              eActiveStreamRecovery := True, eCheckpoint := None\<rparr>)) ob))"

definition refreshStreamReservationTrace ::
  "outbox_lib \<Rightarrow> write_env \<Rightarrow> instant \<Rightarrow> string \<Rightarrow> traceContext \<Rightarrow> terminalOutbox
   \<Rightarrow> outbox_error option \<times> terminalOutbox" where
  "refreshStreamReservationTrace lib w now i t ob =
     (case draft_trace t of
        None \<Rightarrow> (None, ob)
      | Some t' \<Rightarrow>
          (case entryLocked i ob of
             None \<Rightarrow> (Some NotFound, ob)
           | Some e \<Rightarrow> edit_entry lib w (e\<lparr>eTrace := Some t', eUpdatedAt := now\<rparr>) ob))"

definition refreshReservationDeliveryGuard ::
  "outbox_lib \<Rightarrow> write_env \<Rightarrow> instant \<Rightarrow> string \<Rightarrow> terminalDeliveryGuard \<Rightarrow> terminalOutbox
   \<Rightarrow> outbox_error option \<times> terminalOutbox" where
  "refreshReservationDeliveryGuard lib w now i g ob =
     (if \<not> guard_complete g then (Some IncompleteGuard, ob)
      else (case entryLocked i ob of
          None \<Rightarrow> (Some NotFound, ob)
        | Some e \<Rightarrow> edit_entry lib w (e\<lparr>eAuthorizedIdentity := go_trim (gAuthorizedIdentity g),
              eFollowerBindingKey := go_trim (gFollowerBindingKey g),
              eFollowerRevision := gFollowerRevision g,
              eFollowerThreadID := go_trim (gFollowerThreadID g), eUpdatedAt := now\<rparr>) ob))"

subsection \<open>Re-anchoring and detaching a card\<close>

definition schedule_pending :: "instant \<Rightarrow> pendingStreamSupersede \<Rightarrow> pendingStreamSupersede" where
  "schedule_pending now p = (if pNextAttempt p = 0 then p\<lparr>pNextAttempt := now\<rparr> else p)"

text \<open>The scan for the pending operation's id: an error, or whether the entry already has it.\<close>

fun scan_pendings ::
  "string \<Rightarrow> string \<Rightarrow> pendingStreamSupersede \<Rightarrow> bool \<Rightarrow> pendingStreamSupersede list \<Rightarrow> outbox_error + bool" where
  "scan_pendings i cid p dup [] = Inr dup"
| "scan_pendings i cid p dup (x # xs) =
     (if pID x \<noteq> pID p then scan_pendings i cid p dup xs
      else if cid \<noteq> i then Inl PendingIdOfOtherEntry
      else if \<not> sameDeliveryRoute (pRoute x) (pRoute p) \<or>
              cKind (pCheckpoint x) \<noteq> cKind (pCheckpoint p) \<or>
              cPayload (pCheckpoint x) \<noteq> cPayload (pCheckpoint p)
           then Inl PendingIdConflict
      else scan_pendings i cid p True xs)"

fun scan_entries ::
  "string \<Rightarrow> pendingStreamSupersede \<Rightarrow> bool \<Rightarrow> terminalOutboxEntry list \<Rightarrow> outbox_error + bool" where
  "scan_entries i p dup [] = Inr dup"
| "scan_entries i p dup (c # cs) =
     (if eID c = pID p then Inl PendingIdIsEntryId
      else (case scan_pendings i (eID c) p dup (ePendingSupersedes c) of
          Inl err \<Rightarrow> Inl err
        | Inr dup' \<Rightarrow> scan_entries i p dup' cs))"

definition reanchorStreamReservation ::
  "outbox_lib \<Rightarrow> write_env \<Rightarrow> instant \<Rightarrow> string \<Rightarrow> deliveryRoute \<Rightarrow> durableStreamReference
   \<Rightarrow> pendingStreamSupersede \<Rightarrow> terminalOutbox \<Rightarrow> outbox_error option \<times> terminalOutbox" where
  "reanchorStreamReservation lib w now i newRoute newRef pending0 ob =
     (if \<not> route_Valid newRoute \<or> \<not> checkpoint_ok newRef then (Some InvalidStreamRecovery, ob)
      else
        let pending = schedule_pending now pending0 in
        (case validatePendingStreamSupersede (uuid_parse lib) pending of
           Some err \<Rightarrow> (Some err, ob)
         | None \<Rightarrow>
             (case entryLocked i ob of
                None \<Rightarrow> (Some NotFound, ob)
              | Some e \<Rightarrow>
                  (case scan_entries i pending False (oEntries ob) of
                     Inl err \<Rightarrow> (Some err, ob)
                   | Inr duplicate \<Rightarrow>
                       let e1 = (reset_delivery now (e\<lparr>eRoute := newRoute, eStream := Some newRef,
                             eActiveStreamRecovery := True, eCheckpoint := None\<rparr>))\<lparr>eAttempts := 0\<rparr>;
                           e2 = (if duplicate then e1
                                 else e1\<lparr>ePendingSupersedes := ePendingSupersedes e1 @ [pending]\<rparr>)
                       in (case edit_entry lib w e2 ob of
                             (Some err, ob') \<Rightarrow> (Some err, ob')
                           | (None, ob') \<Rightarrow>
                               (None, signal (if duplicate then ob'
                                  else recordTrace e2 ''task.card_supersede_pending'' ''pending'' ob')))))))"

fun pending_id_taken :: "string \<Rightarrow> terminalOutboxEntry list \<Rightarrow> outbox_error option" where
  "pending_id_taken pid [] = None"
| "pending_id_taken pid (c # cs) =
     (if eID c = pid then Some PendingIdIsEntryId
      else if list_ex (\<lambda>x. pID x = pid) (ePendingSupersedes c) then Some PendingIdExists
      else pending_id_taken pid cs)"

definition detachStreamReservation ::
  "outbox_lib \<Rightarrow> write_env \<Rightarrow> instant \<Rightarrow> string \<Rightarrow> pendingStreamSupersede \<Rightarrow> terminalOutbox
   \<Rightarrow> outbox_error option \<times> terminalOutbox" where
  "detachStreamReservation lib w now i pending0 ob =
     (let pending = schedule_pending now pending0 in
      (case validatePendingStreamSupersede (uuid_parse lib) pending of
         Some err \<Rightarrow> (Some err, ob)
       | None \<Rightarrow>
           (case entryLocked i ob of
              None \<Rightarrow> (Some NotFound, ob)
            | Some e \<Rightarrow>
                if \<not> terminalOutboxEntryIsActiveStreamRecovery e then (Some NotActiveStreamRecovery, ob)
                else (case pending_id_taken (pID pending) (oEntries ob) of
                    Some err \<Rightarrow> (Some err, ob)
                  | None \<Rightarrow>
                      let e1 = (clear_payload now e)\<lparr>eAttempts := 0, eNextAttempt := now,
                            ePendingSupersedes := ePendingSupersedes e @ [pending]\<rparr>
                      in (case edit_entry lib w e1 ob of
                            (Some err, ob') \<Rightarrow> (Some err, ob')
                          | (None, ob') \<Rightarrow>
                              (None, signal (recordTrace e1 ''task.card_detach_pending'' ''pending''
                                 (ob'\<lparr>oPreparing := oPreparing ob' - {i},
                                      oFollowerHeld := oFollowerHeld ob' - {i},
                                      oReleaseHeld := oReleaseHeld ob' - {i},
                                      oReleaseBusy := oReleaseBusy ob' - {i}\<rparr>))))))))"

definition beginStreamReanchor :: "string \<Rightarrow> terminalOutbox \<Rightarrow> outbox_error option \<times> terminalOutbox" where
  "beginStreamReanchor i ob =
     (if entryLocked i ob = None then (Some NotFound, ob)
      else if i \<in> oProcessing ob then (Some Busy, ob)
      else (None, ob\<lparr>oProcessing := insert i (oProcessing ob)\<rparr>))"

definition endAttempt :: "string \<Rightarrow> terminalOutbox \<Rightarrow> terminalOutbox" where
  "endAttempt i ob = signal (ob\<lparr>oProcessing := oProcessing ob - {i}\<rparr>)"

definition endStreamReanchor :: "string \<Rightarrow> terminalOutbox \<Rightarrow> terminalOutbox" where
  "endStreamReanchor i ob = endAttempt i ob"

subsection \<open>Redriving\<close>

definition redrive_pending :: "instant \<Rightarrow> pendingStreamSupersede \<Rightarrow> pendingStreamSupersede" where
  "redrive_pending now p = p\<lparr>pNextAttempt := now, pDeadLetter := False, pDeadLetterAt := 0\<rparr>"

text \<open>One entry under redrive of \<open>i\<close> (the empty id asks for all), and whether it changed.\<close>

definition redrive_entry ::
  "instant \<Rightarrow> string \<Rightarrow> terminalOutboxEntry \<Rightarrow> terminalOutboxEntry \<times> bool" where
  "redrive_entry now i e =
     (let matchedParent = (i = [] \<or> eID e = i) in
      if \<not> matchedParent \<and> pendingStreamSupersedeIndex e i = None then (e, False)
      else
        let work = (matchedParent \<and> (terminalEntryHasWork e \<or> eDeadLetter e));
            e1 = (if work then e\<lparr>eNextAttempt := now, eDeadLetter := False, eDeadLetterAt := 0\<rparr> else e);
            touched = (\<lambda>p. matchedParent \<or> pID p = i);
            e2 = e1\<lparr>ePendingSupersedes :=
                   map (\<lambda>p. if touched p then redrive_pending now p else p) (ePendingSupersedes e1)\<rparr>;
            changed = (work \<or> list_ex touched (ePendingSupersedes e))
        in (if changed then e2\<lparr>eUpdatedAt := now\<rparr> else e2, changed))"

definition redrive ::
  "outbox_lib \<Rightarrow> write_env \<Rightarrow> instant \<Rightarrow> string \<Rightarrow> terminalOutbox \<Rightarrow> (outbox_error + nat) \<times> terminalOutbox" where
  "redrive lib w now i0 ob =
     (let i = go_trim i0;
          rs = map (redrive_entry now i) (oEntries ob);
          requested = length (filter snd rs) in
      if i \<noteq> [] \<and> requested = 0 then (Inl NotFound, ob\<lparr>oEntries := map fst rs\<rparr>)
      else if requested = 0 then (Inr 0, ob\<lparr>oEntries := map fst rs\<rparr>)
      else (case persist_entries lib w (map fst rs) ob of
          (Some err, ob') \<Rightarrow> (Inl (PersistFailed err), ob')
        | (None, ob') \<Rightarrow> (Inr requested, signal ob')))"

end
