(* ===== verification/Outbox_Delivery.thy ===== *)
theory Outbox_Delivery
  imports Outbox_Ops
begin

section \<open>Delivery attempts, retries and the worker's schedule\<close>

text \<open>
  The delivery half of \<open>messaging/terminal_outbox.go\<close>: which entries and pending card operations
  are due, one attempt on each, the bookkeeping after a success, a failure or a refusal, the
  backoff, and the status report.

  A platform replier is an interface value; its optional capabilities are the fields of the
  record \<open>replier\<close> (\<^const>\<open>None\<close>: not implemented), each a function that answers an error text or
  success. A call gets the time left of its context; a terminal card update also says how long
  it took. The stages of an attempt run in goroutines of their own and are started together;
  \<open>aOrder\<close> is the order in which they complete, and \<open>aWrite\<close>, \<open>aNow\<close> are the outcomes and clock
  readings of the critical sections of the attempt.
\<close>

datatype stage = CheckpointStage | TextStage | NotificationStage

datatype section_id = PrepareSection | MarkSection stage | FinishSection

datatype send_error = Unsupported | SendError string

record terminalResult =
  trTitle :: string
  trText :: string
  trState :: streamTerminalState

record replier =
  rpRoute :: "deliveryRoute option"
  rpDeliverTerminal :: "(duration \<Rightarrow> terminalCheckpoint \<Rightarrow> send_error option \<times> duration) option"
  rpSendText :: "(duration \<Rightarrow> string \<Rightarrow> string \<Rightarrow> send_error option) option"
  rpSendResult :: "(duration \<Rightarrow> terminalResult \<Rightarrow> string \<Rightarrow> send_error option) option"
  rpPrepareState :: "(durableStreamReference \<Rightarrow> string \<Rightarrow> streamTerminalState \<Rightarrow> send_error + terminalCheckpoint) option"
  rpPrepare :: "(durableStreamReference \<Rightarrow> string \<Rightarrow> bool \<Rightarrow> send_error + terminalCheckpoint) option"
  rpDeliverSupersede :: "(duration \<Rightarrow> supersedeCheckpoint \<Rightarrow> send_error option) option"

record attempt_env =
  aDecision :: "terminalOutboxEntry \<Rightarrow> bool \<times> string"
  aRegistry :: "deliveryRoute \<Rightarrow> replier option"
  aPreferred :: "replier option"
  aReplayDelivered :: "(terminalOutboxEntry \<Rightarrow> string option) option"
  aOrder :: "stage list"
  aWrite :: "section_id \<Rightarrow> write_env"
  aNow :: "section_id \<Rightarrow> instant"

subsection \<open>Texts\<close>

fun send_error_text :: "send_error \<Rightarrow> string" where
  "send_error_text Unsupported = ''platform capability unsupported''"
| "send_error_text (SendError s) = s"

fun stage_String :: "stage \<Rightarrow> string" where
  "stage_String CheckpointStage = ''checkpoint''"
| "stage_String TextStage = ''text''"
| "stage_String NotificationStage = ''notification''"

text \<open>\<open>errors.Join\<close> over the stage errors, in the order of completion.\<close>

fun join_errors :: "(stage \<times> string) list \<Rightarrow> string" where
  "join_errors [] = []"
| "join_errors [(s, e)] = stage_String s @ '' delivery: '' @ e"
| "join_errors ((s, e) # r) = stage_String s @ '' delivery: '' @ e @ [CHR 0x0A] @ join_errors r"

text \<open>
  The first \<open>n\<close> runes of a valid UTF-8 string.
\<close>

fun take_runes :: "nat \<Rightarrow> string \<Rightarrow> string" where
  "take_runes n [] = []"
| "take_runes n (c # cs) =
     (if cont_byte c then c # take_runes n cs
      else (case n of 0 \<Rightarrow> [] | Suc m \<Rightarrow> c # take_runes m cs))"

definition terminalOutboxErrorMaxRunes :: nat where
  "terminalOutboxErrorMaxRunes = 500"

definition truncateTerminalOutboxError :: "string \<Rightarrow> string" where
  "truncateTerminalOutboxError err =
     (let value = go_trim err in
      if rune_count value \<le> terminalOutboxErrorMaxRunes then value
      else take_runes terminalOutboxErrorMaxRunes value @ [CHR 0xE2, CHR 0x80, CHR 0xA6])"

definition terminalOutboxIdempotencyKey :: "terminalOutboxEntry \<Rightarrow> string \<Rightarrow> string" where
  "terminalOutboxIdempotencyKey e stage =
     (if blank (eIdempotencyKey e) then eID e else go_trim (eIdempotencyKey e)) @ '':'' @ stage"

definition terminalOutboxResultState :: "terminalOutboxEntry \<Rightarrow> streamTerminalState" where
  "terminalOutboxResultState e =
     (if eStopped e then StreamStopped else if eFailed e then StreamFailed else StreamCompleted)"

subsection \<open>Backoff\<close>

text \<open>The doubling loop, with the loop index \<open>k\<close> as in the source.\<close>

function backoff_loop :: "int \<Rightarrow> int \<Rightarrow> duration \<Rightarrow> duration" where
  "backoff_loop k attempt delay =
     (if k < attempt \<and> delay < terminalOutboxRetryMax
      then backoff_loop (k + 1) attempt (delay * 2) else delay)"
  by pat_completeness auto
termination
  by (relation "measure (\<lambda>(k, attempt, delay). nat (attempt - k))") auto

declare backoff_loop.simps [simp del]

definition terminalOutboxBackoff :: "int \<Rightarrow> duration" where
  "terminalOutboxBackoff attempt =
     (if attempt \<le> 1 then terminalOutboxRetryMin
      else
        let delay = backoff_loop 1 attempt terminalOutboxRetryMin in
        if delay > terminalOutboxRetryMax then terminalOutboxRetryMax else delay)"

subsection \<open>The schedule\<close>

definition due_entry :: "terminalOutbox \<Rightarrow> instant \<Rightarrow> terminalOutboxEntry \<Rightarrow> bool" where
  "due_entry ob now e \<longleftrightarrow>
     terminalEntryHasWork e \<and> \<not> eDeadLetter e \<and> eID e \<notin> oPreparing ob \<and>
     eID e \<notin> oProcessing ob \<and> \<not> eNextAttempt e > now"

definition dueIDs :: "instant \<Rightarrow> terminalOutbox \<Rightarrow> string list" where
  "dueIDs now ob =
     map eID (sort_key (\<lambda>e. (eNextAttempt e, eCreatedAt e, eID e)) (filter (due_entry ob now) (oEntries ob)))"

record duePendingStreamSupersede =
  dpEntryID :: string
  dpPendingID :: string
  dpNextAttempt :: instant
  dpCreatedAt :: instant

definition due_pending_of :: "terminalOutbox \<Rightarrow> instant \<Rightarrow> terminalOutboxEntry \<Rightarrow> duePendingStreamSupersede list" where
  "due_pending_of ob now e =
     (if eID e \<in> oProcessing ob \<or> eID e \<in> oStartupHeld ob then []
      else map (\<lambda>p. \<lparr>dpEntryID = eID e, dpPendingID = pID p, dpNextAttempt = pNextAttempt p,
                     dpCreatedAt = eCreatedAt e\<rparr>)
             (filter (\<lambda>p. \<not> (pDeadLetter p \<or> pNextAttempt p > now)) (ePendingSupersedes e)))"

definition duePendingStreamSupersedes :: "instant \<Rightarrow> terminalOutbox \<Rightarrow> duePendingStreamSupersede list" where
  "duePendingStreamSupersedes now ob =
     sort_key (\<lambda>d. (dpNextAttempt d, dpCreatedAt d, dpEntryID d, dpPendingID d))
       (concat (map (due_pending_of ob now) (oEntries ob)))"

text \<open>The running minimum of the source's loop: the zero instant means that nothing was seen yet.\<close>

definition earlier :: "instant \<Rightarrow> instant \<Rightarrow> instant" where
  "earlier next t = (if next = 0 \<or> t < next then t else next)"

definition next_of_entry :: "terminalOutbox \<Rightarrow> instant \<Rightarrow> terminalOutboxEntry \<Rightarrow> instant" where
  "next_of_entry ob next e =
     (let n1 = (if eID e \<notin> oProcessing ob \<and> eID e \<notin> oStartupHeld ob
                then foldl (\<lambda>n p. if \<not> pDeadLetter p then earlier n (pNextAttempt p) else n) next
                       (ePendingSupersedes e)
                else next)
      in if terminalEntryHasWork e \<and> \<not> eDeadLetter e \<and> eID e \<notin> oPreparing ob \<and> eID e \<notin> oProcessing ob
         then earlier n1 (eNextAttempt e) else n1)"

definition nextAttemptDelay :: "instant \<Rightarrow> terminalOutbox \<Rightarrow> duration \<times> bool" where
  "nextAttemptDelay now ob =
     (let next = foldl (next_of_entry ob) 0 (oEntries ob) in
      if next = 0 then (0, False)
      else if \<not> next > now then (0, True)
      else (next - now, True))"

subsection \<open>Bookkeeping of an attempt\<close>

definition beginAttempt :: "string \<Rightarrow> terminalOutbox \<Rightarrow> (terminalOutboxEntry \<times> terminalOutbox) option" where
  "beginAttempt i ob =
     (if i \<in> oProcessing ob then None
      else (case entryLocked i ob of
          None \<Rightarrow> None
        | Some e \<Rightarrow>
            if eDeadLetter e \<or> \<not> terminalEntryHasWork e then None
            else Some (e, ob\<lparr>oProcessing := insert i (oProcessing ob)\<rparr>)))"

fun set_delivered :: "stage \<Rightarrow> terminalOutboxEntry \<Rightarrow> terminalOutboxEntry" where
  "set_delivered CheckpointStage e = e\<lparr>eCheckpointDelivered := True\<rparr>"
| "set_delivered TextStage e = e\<lparr>eTextDelivered := True\<rparr>"
| "set_delivered NotificationStage e = e\<lparr>eNotificationDelivered := True\<rparr>"

definition markDelivered ::
  "outbox_lib \<Rightarrow> write_env \<Rightarrow> instant \<Rightarrow> string \<Rightarrow> stage \<Rightarrow> terminalOutbox \<Rightarrow> string option \<times> terminalOutbox" where
  "markDelivered lib w now i s ob =
     (case entryLocked i ob of
        None \<Rightarrow> (None, ob)
      | Some e \<Rightarrow>
          (case persist_entries lib w
                  (set_entry ((set_delivered s e)\<lparr>eUpdatedAt := now, eLastError := []\<rparr>) (oEntries ob)) ob of
             (err, ob') \<Rightarrow> (map_option (io_text lib) err, ob')))"

definition deferDelivery ::
  "outbox_lib \<Rightarrow> write_env \<Rightarrow> instant \<Rightarrow> string \<Rightarrow> string \<Rightarrow> terminalOutbox \<Rightarrow> string option \<times> terminalOutbox" where
  "deferDelivery lib w now i reason ob =
     (case entryLocked i ob of
        None \<Rightarrow> (None, ob)
      | Some e \<Rightarrow>
          let summary = ''delivery deferred: '' @ go_trim reason;
              e' = e\<lparr>eUpdatedAt := now, eNextAttempt := now + terminalOutboxRetryMin, eLastError := summary\<rparr> in
          (case persist_entries lib w (set_entry e' (oEntries ob)) ob of
             (Some err, ob') \<Rightarrow> (Some (io_text lib err), ob')
           | (None, ob') \<Rightarrow>
               (None, if eLastError e \<noteq> summary
                      then recordTrace e' ''terminal.delivery.deferred'' ''waiting'' ob' else ob')))"

definition failed_entry :: "terminalOutbox \<Rightarrow> instant \<Rightarrow> string \<Rightarrow> terminalOutboxEntry \<Rightarrow> terminalOutboxEntry" where
  "failed_entry ob now err e =
     (let e1 = e\<lparr>eAttempts := eAttempts e + 1, eUpdatedAt := now,
                 eLastError := truncateTerminalOutboxError err\<rparr> in
      if eAttempts e1 \<ge> attemptLimit ob
      then e1\<lparr>eDeadLetter := True, eDeadLetterAt := now, eNextAttempt := now\<rparr>
      else e1\<lparr>eNextAttempt := now + terminalOutboxBackoff (eAttempts e1)\<rparr>)"

definition recordFailure ::
  "outbox_lib \<Rightarrow> write_env \<Rightarrow> instant \<Rightarrow> string \<Rightarrow> string \<Rightarrow> terminalOutbox \<Rightarrow> string option \<times> terminalOutbox" where
  "recordFailure lib w now i err ob =
     (case entryLocked i ob of
        None \<Rightarrow> (Some err, ob)
      | Some e \<Rightarrow>
          let e' = failed_entry ob now err e in
          (case persist_entries lib w (set_entry e' (oEntries ob)) ob of
             (Some ioerr, ob') \<Rightarrow>
               (Some (''delivery failed: '' @ err @ ''; persist retry state: '' @ io_text lib ioerr), ob')
           | (None, ob') \<Rightarrow>
               (Some err, recordTrace e' (if eDeadLetter e' then ''terminal.delivery.dead_letter''
                  else ''terminal.delivery.retry'') ''failed'' ob')))"

definition removeDelivered ::
  "outbox_lib \<Rightarrow> write_env \<Rightarrow> instant \<Rightarrow> string \<Rightarrow> terminalOutbox \<Rightarrow> string option \<times> terminalOutbox" where
  "removeDelivered lib w now i ob =
     (case entryLocked i ob of
        None \<Rightarrow> (None, ob)
      | Some e \<Rightarrow>
          let es' = (if ePendingSupersedes e \<noteq> []
              then set_entry (e\<lparr>eUpdatedAt := now, eLastError := [], eDeadLetter := False, eDeadLetterAt := 0\<rparr>)
                     (oEntries ob)
              else remove_first (\<lambda>x. eID x = i) (oEntries ob)) in
          (case persist_entries lib w es' ob of
             (Some err, ob') \<Rightarrow> (Some (io_text lib err), ob')
           | (None, ob') \<Rightarrow> (None, recordTrace e ''terminal.delivery.completed'' ''completed'' ob')))"

subsection \<open>Repliers\<close>

definition resolveReplier ::
  "(deliveryRoute \<Rightarrow> replier option) \<Rightarrow> deliveryRoute \<Rightarrow> replier option \<Rightarrow> replier option" where
  "resolveReplier reg route preferred =
     (case preferred of
        Some p \<Rightarrow> (case rpRoute p of
            Some r \<Rightarrow> if sameDeliveryRoute r route then Some p else reg route
          | None \<Rightarrow> reg route)
      | None \<Rightarrow> reg route)"

definition resolveStageReplier ::
  "(deliveryRoute \<Rightarrow> replier option) \<Rightarrow> deliveryRoute \<Rightarrow> replier option \<Rightarrow> replier option" where
  "resolveStageReplier reg route preferred =
     (case reg route of Some r \<Rightarrow> Some r | None \<Rightarrow> resolveReplier reg route preferred)"

definition no_replier_text :: "deliveryRoute \<Rightarrow> string" where
  "no_replier_text route = ''no outbound replier for platform='' @ rPlatform route"

definition sendOutboxText :: "replier \<Rightarrow> duration \<Rightarrow> string \<Rightarrow> string \<Rightarrow> send_error option" where
  "sendOutboxText r left text key =
     (case rpSendText r of None \<Rightarrow> Some Unsupported | Some f \<Rightarrow> f left text key)"

definition sendOutboxResult ::
  "replier \<Rightarrow> duration \<Rightarrow> terminalOutboxEntry \<Rightarrow> string \<Rightarrow> string \<Rightarrow> send_error option" where
  "sendOutboxResult r left e text key =
     (if \<not> eRichResult e then sendOutboxText r left text key
      else
        let result = \<lparr>trTitle = firstNonBlank [eResultTitle e, eAgentName e, ''WeClaw''],
                      trText = text, trState = terminalOutboxResultState e\<rparr> in
        (case rpSendResult r of
           None \<Rightarrow> sendOutboxText r left text key
         | Some f \<Rightarrow>
             (case f left result key of
                Some Unsupported \<Rightarrow> sendOutboxText r left text key
              | Some (SendError s) \<Rightarrow> Some (SendError s)
              | None \<Rightarrow> None)))"

definition prepareStreamRecovery ::
  "outbox_lib \<Rightarrow> write_env \<Rightarrow> instant \<Rightarrow> string \<Rightarrow> terminalOutboxEntry \<Rightarrow> replier \<Rightarrow> terminalOutbox
   \<Rightarrow> string option \<times> terminalOutboxEntry \<times> terminalOutbox" where
  "prepareStreamRecovery lib w now i e r ob =
     (case eStream e of
        None \<Rightarrow> (None, e, ob)
      | Some ref \<Rightarrow>
          let content = firstNonBlank [eText e, activeStreamRestartText];
              st = terminalOutboxResultState e;
              prepared = (case rpPrepareState r of
                  Some f \<Rightarrow> f ref content st
                | None \<Rightarrow> (case rpPrepare r of
                    Some f \<Rightarrow> f ref content (st = StreamFailed)
                  | None \<Rightarrow> Inl Unsupported)) in
          (case prepared of
             Inl err \<Rightarrow> (Some (send_error_text err), e, ob)
           | Inr cp \<Rightarrow>
               if \<not> checkpoint_ok cp then (Some ''invalid recovered terminal checkpoint'', e, ob)
               else (case entryLocked i ob of
                   None \<Rightarrow> (Some ''terminal outbox entry not found'', e, ob)
                 | Some cur \<Rightarrow>
                     let cur' = cur\<lparr>eStream := None, eCheckpoint := Some cp, eUpdatedAt := now, eNextAttempt := now\<rparr> in
                     (case edit_entry lib w cur' ob of
                        (Some (PersistFailed ioerr), ob') \<Rightarrow>
                          (Some (''persist recovered terminal checkpoint: '' @ io_text lib ioerr), e, ob')
                      | (Some err, ob') \<Rightarrow> (Some ''invalid recovered entry'', e, ob')
                      | (None, ob') \<Rightarrow> (None, cur', ob')))))"

subsection \<open>One attempt on an entry\<close>

text \<open>
  A Feishu result card has to follow the final update of the progress card, so its stage waits
  for the checkpoint stage to end before it sends.
\<close>

definition waitForCheckpoint :: "terminalOutboxEntry \<Rightarrow> bool" where
  "waitForCheckpoint e \<longleftrightarrow>
     rPlatform (eRoute e) = platformFeishu \<and> eRichResult e \<and> eCheckpoint e \<noteq> None \<and>
     \<not> eCheckpointDelivered e"

definition started_stages :: "string option \<Rightarrow> terminalOutboxEntry \<Rightarrow> stage list" where
  "started_stages preparationErr e =
     (if preparationErr = None \<and> eCheckpoint e \<noteq> None \<and> \<not> eCheckpointDelivered e
      then [CheckpointStage] else []) @
     (if \<not> blank (eText e) \<and> \<not> eTextDelivered e then [TextStage] else []) @
     (if \<not> blank (eNotification e) \<and> \<not> eNotificationDelivered e then [NotificationStage] else [])"

text \<open>The completion order of the started stages: the given order where it names them, then the
  rest; a waiting text stage completes after the checkpoint stage.\<close>

definition completion_order :: "stage list \<Rightarrow> bool \<Rightarrow> stage list \<Rightarrow> stage list" where
  "completion_order order wait started =
     (let ss = remdups (filter (\<lambda>s. s \<in> set started) order @ started) in
      if wait \<and> CheckpointStage \<in> set ss
      then CheckpointStage # filter (\<lambda>s. s \<noteq> CheckpointStage) ss else ss)"

definition checkpoint_elapsed :: "attempt_env \<Rightarrow> terminalOutboxEntry \<Rightarrow> duration" where
  "checkpoint_elapsed env e =
     (case resolveStageReplier (aRegistry env) (eRoute e) (aPreferred env) of
        None \<Rightarrow> 0
      | Some r \<Rightarrow> (case rpDeliverTerminal r of
          None \<Rightarrow> 0
        | Some f \<Rightarrow> (case eCheckpoint e of
            None \<Rightarrow> 0
          | Some cp \<Rightarrow> snd (f terminalOutboxDeliveryTimeout cp))))"

definition deliver_stage ::
  "attempt_env \<Rightarrow> terminalOutboxEntry \<Rightarrow> replier \<Rightarrow> stage \<Rightarrow> send_error option" where
  "deliver_stage env e r s =
     (case s of
        CheckpointStage \<Rightarrow>
          (case rpDeliverTerminal r of
             None \<Rightarrow> Some Unsupported
           | Some f \<Rightarrow> (case eCheckpoint e of
               None \<Rightarrow> None
             | Some cp \<Rightarrow> fst (f terminalOutboxDeliveryTimeout cp)))
      | TextStage \<Rightarrow>
          let left = (if waitForCheckpoint e
                then terminalOutboxDeliveryTimeout - checkpoint_elapsed env e
                else terminalOutboxDeliveryTimeout);
              key = terminalOutboxIdempotencyKey e (if eRichResult e then ''result'' else ''text'')
          in sendOutboxResult r left e (eText e) key
      | NotificationStage \<Rightarrow>
          sendOutboxText r terminalOutboxDeliveryTimeout (eNotification e)
            (terminalOutboxIdempotencyKey e ''notification''))"

definition run_stage ::
  "outbox_lib \<Rightarrow> attempt_env \<Rightarrow> string \<Rightarrow> terminalOutboxEntry \<Rightarrow> stage \<Rightarrow> terminalOutbox
   \<Rightarrow> string option \<times> terminalOutbox" where
  "run_stage lib env i e s ob =
     (case resolveStageReplier (aRegistry env) (eRoute e) (aPreferred env) of
        None \<Rightarrow> (Some (no_replier_text (eRoute e)), ob)
      | Some r \<Rightarrow>
          (case deliver_stage env e r s of
             Some err \<Rightarrow> (Some (send_error_text err), ob)
           | None \<Rightarrow>
               let receipt = (if s = TextStage \<and> eReplaySelectionID e \<noteq> []
                     then (case aReplayDelivered env of
                         None \<Rightarrow> Some ''result replay receipt store unavailable''
                       | Some f \<Rightarrow> f e)
                     else None) in
               (case receipt of
                  Some err \<Rightarrow> (Some err, ob)
                | None \<Rightarrow>
                    markDelivered lib (aWrite env (MarkSection s)) (aNow env (MarkSection s)) i s ob)))"

fun run_stages ::
  "outbox_lib \<Rightarrow> attempt_env \<Rightarrow> string \<Rightarrow> terminalOutboxEntry \<Rightarrow> stage list \<Rightarrow> terminalOutbox
   \<Rightarrow> (stage \<times> string) list \<times> terminalOutbox" where
  "run_stages lib env i e [] ob = ([], ob)"
| "run_stages lib env i e (s # ss) ob =
     (case run_stage lib env i e s ob of
        (r, ob1) \<Rightarrow>
          (case run_stages lib env i e ss ob1 of
             (errs, ob2) \<Rightarrow> (case r of None \<Rightarrow> errs | Some err \<Rightarrow> (s, err) # errs, ob2)))"

definition deliver_entry ::
  "outbox_lib \<Rightarrow> attempt_env \<Rightarrow> string \<Rightarrow> terminalOutboxEntry \<Rightarrow> terminalOutbox \<Rightarrow> string option \<times> terminalOutbox" where
  "deliver_entry lib env i e0 ob0 =
     (let (prepErr, e, ob1) =
        (if eStream e0 \<noteq> None \<and> eCheckpoint e0 = None
         then (case resolveStageReplier (aRegistry env) (eRoute e0) (aPreferred env) of
                 None \<Rightarrow> (Some (no_replier_text (eRoute e0)), e0, ob0)
               | Some r \<Rightarrow> prepareStreamRecovery lib (aWrite env PrepareSection)
                   (aNow env PrepareSection) i e0 r ob0)
         else (None, e0, ob0));
          (errs, ob2) = run_stages lib env i e
            (completion_order (aOrder env) (waitForCheckpoint e) (started_stages prepErr e)) ob1;
          allErrs = (case prepErr of None \<Rightarrow> errs | Some err \<Rightarrow> (CheckpointStage, err) # errs)
      in if allErrs \<noteq> []
         then recordFailure lib (aWrite env FinishSection) (aNow env FinishSection) i (join_errors allErrs) ob2
         else removeDelivered lib (aWrite env FinishSection) (aNow env FinishSection) i ob2)"

definition attempt ::
  "outbox_lib \<Rightarrow> attempt_env \<Rightarrow> string \<Rightarrow> terminalOutbox \<Rightarrow> string option \<times> terminalOutbox" where
  "attempt lib env i ob =
     (case beginAttempt i ob of
        None \<Rightarrow> (None, ob)
      | Some (e, ob1) \<Rightarrow>
          let (allowed, reason) = aDecision env e in
          if \<not> allowed then
            (if reason = ''attach_not_ready''
             then (case deferDelivery lib (aWrite env FinishSection) (aNow env FinishSection) i reason ob1 of
                 (Some err, ob2) \<Rightarrow>
                   (Some (''defer terminal delivery until follower attach is ready: '' @ err), endAttempt i ob2)
               | (None, ob2) \<Rightarrow> (None, endAttempt i ob2))
             else (case discardReservation lib (aWrite env FinishSection) (aNow env FinishSection) i ob1 of
                 (Some err, ob2) \<Rightarrow> (Some ''discard unauthorized terminal delivery'', endAttempt i ob2)
               | (None, ob2) \<Rightarrow> (None, endAttempt i ob2)))
          else
            (case deliver_entry lib env i e (recordTrace e ''terminal.delivery.attempt'' ''running'' ob1) of
               (r, ob2) \<Rightarrow> (r, endAttempt i ob2)))"

definition enqueueAndAttempt ::
  "outbox_lib \<Rightarrow> write_env \<Rightarrow> instant \<Rightarrow> string \<Rightarrow> terminalOutboxDraft \<Rightarrow> attempt_env \<Rightarrow> terminalOutbox
   \<Rightarrow> outbox_error option \<times> terminalOutbox" where
  "enqueueAndAttempt lib w now newID d env ob =
     (case enqueue lib w now newID d ob of
        (Inl err, ob1) \<Rightarrow> (Some err, ob1)
      | (Inr e, ob1) \<Rightarrow> (None, signal (snd (attempt lib env (eID e) ob1))))"

subsection \<open>One attempt on a pending card operation\<close>

definition beginPendingStreamSupersedeAttempt ::
  "string \<Rightarrow> string \<Rightarrow> terminalOutbox
   \<Rightarrow> (terminalOutboxEntry \<times> pendingStreamSupersede \<times> terminalOutbox) option" where
  "beginPendingStreamSupersedeAttempt i pid ob =
     (if i \<in> oProcessing ob \<or> i \<in> oStartupHeld ob then None
      else (case entryLocked i ob of
          None \<Rightarrow> None
        | Some e \<Rightarrow>
            (case find (\<lambda>p. pID p = pid \<and> \<not> pDeadLetter p) (ePendingSupersedes e) of
               None \<Rightarrow> None
             | Some p \<Rightarrow> Some (e, p, ob\<lparr>oProcessing := insert i (oProcessing ob)\<rparr>))))"

definition completePendingStreamSupersede ::
  "outbox_lib \<Rightarrow> write_env \<Rightarrow> instant \<Rightarrow> string \<Rightarrow> string \<Rightarrow> terminalOutbox \<Rightarrow> string option \<times> terminalOutbox" where
  "completePendingStreamSupersede lib w now i pid ob =
     (case entryLocked i ob of
        None \<Rightarrow> (None, ob)
      | Some e \<Rightarrow>
          (case pendingStreamSupersedeIndex e pid of
             None \<Rightarrow> (None, ob)
           | Some k \<Rightarrow>
               let e' = e\<lparr>ePendingSupersedes := remove_nth k (ePendingSupersedes e), eUpdatedAt := now\<rparr>;
                   removeParent = (ePendingSupersedes e' = [] \<and> \<not> terminalEntryHasWork e' \<and> \<not> eDeadLetter e');
                   es' = (if removeParent then filter (\<lambda>x. eID x \<noteq> i) (oEntries ob)
                          else set_entry e' (oEntries ob)) in
               (case persist_entries lib w es' ob of
                  (Some err, ob') \<Rightarrow> (Some (''persist completed stream supersede: '' @ io_text lib err), ob')
                | (None, ob') \<Rightarrow> (None, ob'))))"

definition failed_pending ::
  "terminalOutbox \<Rightarrow> instant \<Rightarrow> string \<Rightarrow> pendingStreamSupersede \<Rightarrow> pendingStreamSupersede" where
  "failed_pending ob now err p =
     (let p1 = p\<lparr>pAttempts := pAttempts p + 1, pLastError := truncateTerminalOutboxError err\<rparr> in
      if pAttempts p1 \<ge> attemptLimit ob
      then p1\<lparr>pDeadLetter := True, pDeadLetterAt := now, pNextAttempt := now\<rparr>
      else p1\<lparr>pNextAttempt := now + terminalOutboxBackoff (pAttempts p1)\<rparr>)"

definition recordPendingStreamSupersedeFailure ::
  "outbox_lib \<Rightarrow> write_env \<Rightarrow> instant \<Rightarrow> string \<Rightarrow> string \<Rightarrow> string \<Rightarrow> terminalOutbox
   \<Rightarrow> string option \<times> terminalOutbox" where
  "recordPendingStreamSupersedeFailure lib w now i pid err ob =
     (case entryLocked i ob of
        None \<Rightarrow> (Some err, ob)
      | Some e \<Rightarrow>
          (case pendingStreamSupersedeIndex e pid of
             None \<Rightarrow> (Some err, ob)
           | Some k \<Rightarrow>
               let p' = failed_pending ob now err (ePendingSupersedes e ! k);
                   e' = e\<lparr>ePendingSupersedes := (ePendingSupersedes e)[k := p'], eUpdatedAt := now\<rparr> in
               (case edit_entry lib w e' ob of
                  (Some e2, ob') \<Rightarrow> (Some (''supersede delivery failed: '' @ err), ob')
                | (None, ob') \<Rightarrow>
                    (Some err, recordTrace e' (if pDeadLetter p' then ''task.card_supersede_dead_letter''
                       else ''task.card_supersede_retry'') ''failed'' ob'))))"

definition attemptPendingStreamSupersede ::
  "outbox_lib \<Rightarrow> attempt_env \<Rightarrow> string \<Rightarrow> string \<Rightarrow> terminalOutbox \<Rightarrow> string option \<times> terminalOutbox" where
  "attemptPendingStreamSupersede lib env i pid ob =
     (case beginPendingStreamSupersedeAttempt i pid ob of
        None \<Rightarrow> (None, ob)
      | Some (e, p, ob1) \<Rightarrow>
          let w = aWrite env FinishSection; now = aNow env FinishSection;
              err = (case resolveStageReplier (aRegistry env) (pRoute p) None of
                  None \<Rightarrow> Some (no_replier_text (pRoute p))
                | Some r \<Rightarrow> (case rpDeliverSupersede r of
                    None \<Rightarrow> Some (send_error_text Unsupported)
                  | Some f \<Rightarrow> map_option send_error_text (f terminalOutboxDeliveryTimeout (pCheckpoint p)))) in
          (case err of
             Some msg \<Rightarrow>
               (case recordPendingStreamSupersedeFailure lib w now i pid msg ob1 of
                  (r, ob2) \<Rightarrow> (r, endAttempt i ob2))
           | None \<Rightarrow>
               (case completePendingStreamSupersede lib w now i pid ob1 of
                  (Some msg, ob2) \<Rightarrow> (Some msg, endAttempt i ob2)
                | (None, ob2) \<Rightarrow> (None, endAttempt i (recordTrace e ''task.card_superseded'' ''completed'' ob2)))))"

subsection \<open>One round of the worker\<close>

text \<open>
  A round of \<open>run\<close>: attempt what was due when the round asked, first the card operations and then
  the entries (asked again after the former), and compute the time to sleep. The ids come from
  the list computed at the start of each loop; every attempt re-checks the entry under the lock.
\<close>

definition run_pendings ::
  "outbox_lib \<Rightarrow> (string \<Rightarrow> attempt_env) \<Rightarrow> duePendingStreamSupersede list \<Rightarrow> terminalOutbox \<Rightarrow> terminalOutbox" where
  "run_pendings lib envs ds ob =
     foldl (\<lambda>s d. snd (attemptPendingStreamSupersede lib (envs (dpPendingID d)) (dpEntryID d) (dpPendingID d) s)) ob ds"

definition run_entries ::
  "outbox_lib \<Rightarrow> (string \<Rightarrow> attempt_env) \<Rightarrow> string list \<Rightarrow> terminalOutbox \<Rightarrow> terminalOutbox" where
  "run_entries lib envs ids ob = foldl (\<lambda>s i. snd (attempt lib (envs i) i s)) ob ids"

definition run_round ::
  "outbox_lib \<Rightarrow> (string \<Rightarrow> attempt_env) \<Rightarrow> instant \<Rightarrow> instant \<Rightarrow> instant \<Rightarrow> terminalOutbox
   \<Rightarrow> (duration \<times> bool) \<times> terminalOutbox" where
  "run_round lib envs now1 now2 now3 ob =
     (let ob1 = run_pendings lib envs (duePendingStreamSupersedes now1 ob) ob;
          ob2 = run_entries lib envs (dueIDs now2 ob1) ob1
      in (nextAttemptDelay now3 ob2, ob2))"

subsection \<open>Status\<close>

record terminalOutboxEntryStatus =
  esID :: string
  esKind :: string
  esParentID :: string
  esAgentName :: string
  esAttempts :: int
  esCreatedAt :: instant
  esUpdatedAt :: instant
  esNextAttempt :: instant
  esLastError :: string
  esPreparing :: bool
  esProcessing :: bool
  esDeadLetter :: bool
  esDeadLetterAt :: instant

record terminalOutboxStatus =
  osPending :: nat
  osDeadLetter :: nat
  osPreparing :: nat
  osProcessing :: nat
  osOldestCreatedAt :: instant
  osNextAttempt :: instant
  osRecentError :: string
  osAtCapacity :: bool
  osTruncated :: bool
  osEntries :: "terminalOutboxEntryStatus list"

definition terminalOutboxStatusMaxEntries :: nat where
  "terminalOutboxStatusMaxEntries = 100"

text \<open>A status line with its \<open>blocked\<close> mark; its \<open>deadLetter\<close> mark is the line's own field.\<close>

definition status_candidates ::
  "(string \<Rightarrow> string) \<Rightarrow> string set \<Rightarrow> string set \<Rightarrow> terminalOutboxEntry \<Rightarrow> (terminalOutboxEntryStatus \<times> bool) list" where
  "status_candidates sanitize preparing processing e =
     (let isPreparing = (eID e \<in> preparing); isProcessing = (eID e \<in> processing) in
      (if terminalEntryHasWork e \<or> eDeadLetter e
       then [(\<lparr>esID = eID e, esKind = [], esParentID = [], esAgentName = eAgentName e,
               esAttempts = eAttempts e, esCreatedAt = eCreatedAt e, esUpdatedAt = eUpdatedAt e,
               esNextAttempt = eNextAttempt e, esLastError = sanitize (eLastError e),
               esPreparing = isPreparing, esProcessing = isProcessing,
               esDeadLetter = eDeadLetter e, esDeadLetterAt = eDeadLetterAt e\<rparr>,
              isPreparing \<or> isProcessing)]
       else []) @
      map (\<lambda>p. (\<lparr>esID = pID p, esKind = ''supersede'', esParentID = eID e, esAgentName = eAgentName e,
               esAttempts = pAttempts p, esCreatedAt = eCreatedAt e, esUpdatedAt = eUpdatedAt e,
               esNextAttempt = pNextAttempt p, esLastError = sanitize (pLastError p),
               esPreparing = False, esProcessing = isProcessing,
               esDeadLetter = pDeadLetter p, esDeadLetterAt = pDeadLetterAt p\<rparr>, isProcessing))
        (ePendingSupersedes e))"

definition status_step ::
  "(string \<Rightarrow> string) \<Rightarrow> terminalOutboxStatus \<times> instant \<Rightarrow> terminalOutboxEntryStatus \<times> bool
   \<Rightarrow> terminalOutboxStatus \<times> instant" where
  "status_step sanitize acc cand =
     (let (st, recentErrorAt) = acc; (v, blocked) = cand;
          s1 = (if esDeadLetter v then st\<lparr>osDeadLetter := osDeadLetter st + 1\<rparr>
                else st\<lparr>osPending := osPending st + 1\<rparr>);
          s2 = (if esPreparing v then s1\<lparr>osPreparing := osPreparing s1 + 1\<rparr> else s1);
          s3 = (if esProcessing v then s2\<lparr>osProcessing := osProcessing s2 + 1\<rparr> else s2);
          s4 = (if \<not> esDeadLetter v \<and> (osOldestCreatedAt s3 = 0 \<or> esCreatedAt v < osOldestCreatedAt s3)
                then s3\<lparr>osOldestCreatedAt := esCreatedAt v\<rparr> else s3);
          s5 = (if \<not> esDeadLetter v \<and> \<not> blocked \<and> (osNextAttempt s4 = 0 \<or> esNextAttempt v < osNextAttempt s4)
                then s4\<lparr>osNextAttempt := esNextAttempt v\<rparr> else s4);
          recent = (esLastError v \<noteq> [] \<and> (recentErrorAt = 0 \<or> esUpdatedAt v > recentErrorAt));
          s6 = (if recent then s5\<lparr>osRecentError := sanitize (esLastError v)\<rparr> else s5);
          s7 = (if length (osEntries s6) < terminalOutboxStatusMaxEntries
                then s6\<lparr>osEntries := osEntries s6 @ [v]\<rparr> else s6)
      in (s7, if recent then esUpdatedAt v else recentErrorAt))"

definition terminalOutboxStatus_of ::
  "(string \<Rightarrow> string) \<Rightarrow> terminalOutboxEntry list \<Rightarrow> string set \<Rightarrow> string set \<Rightarrow> int \<Rightarrow> terminalOutboxStatus" where
  "terminalOutboxStatus_of sanitize es preparing processing limit0 =
     (let limit = (if limit0 > 0 then limit0 else terminalOutboxMaxEntries);
          cands = sort_key (\<lambda>(v, _). (esCreatedAt v, esID v))
            (concat (map (status_candidates sanitize preparing processing) es));
          empty = \<lparr>osPending = 0, osDeadLetter = 0, osPreparing = 0, osProcessing = 0,
            osOldestCreatedAt = 0, osNextAttempt = 0, osRecentError = [], osAtCapacity = False,
            osTruncated = False, osEntries = []\<rparr>;
          st = fst (foldl (status_step sanitize) (empty, 0) cands)
      in st\<lparr>osAtCapacity := int (length es) \<ge> limit, osTruncated := length cands > length (osEntries st)\<rparr>)"

definition status :: "(string \<Rightarrow> string) \<Rightarrow> terminalOutbox \<Rightarrow> terminalOutboxStatus" where
  "status sanitize ob =
     terminalOutboxStatus_of sanitize (oEntries ob) (oPreparing ob) (oProcessing ob) (entryLimit ob)"

end
