(* ===== verification/Outbox_Inv.thy ===== *)
theory Outbox_Inv
  imports Outbox_Delivery
begin

section \<open>Durability of the outbox\<close>

text \<open>
  The invariant of the outbox and what every critical section of
  \<open>messaging/terminal_outbox.go\<close> keeps of it: the entries pass the validation of the loader, no two
  operations share an id, a dead letter always has something to deliver, no route key is kept,
  the capacity bound holds, and the state file, read back by \<^const>\<open>loadTerminalOutbox\<close>, gives the
  entries in memory up to the encoding of raw messages.

  The hypotheses on code outside the repository are the laws of \<open>json.RawMessage\<close> under
  \<open>json.MarshalIndent\<close> (\<open>raw_laws\<close>): the written text of a valid message is a valid message, and
  writing it again changes nothing.
\<close>

definition raw_laws :: "outbox_lib \<Rightarrow> bool" where
  "raw_laws lib \<longleftrightarrow> (\<forall>p. json_valid p \<longrightarrow>
     raw_message lib p \<noteq> [] \<and> json_valid (raw_message lib p) \<and>
     raw_message lib (raw_message lib p) = raw_message lib p)"

definition op_ids :: "terminalOutboxEntry \<Rightarrow> string list" where
  "op_ids e = eID e # map pID (ePendingSupersedes e)"

definition all_ids :: "terminalOutboxEntry list \<Rightarrow> string list" where
  "all_ids es = concat (map op_ids es)"

definition base_payload :: "terminalOutboxEntry \<Rightarrow> bool" where
  "base_payload e \<longleftrightarrow>
     eStream e \<noteq> None \<or> eCheckpoint e \<noteq> None \<or> \<not> blank (eText e) \<or> \<not> blank (eNotification e)"

definition entry_ok :: "(string \<Rightarrow> bool) \<Rightarrow> terminalOutboxEntry \<Rightarrow> bool" where
  "entry_ok u e \<longleftrightarrow>
     validateTerminalOutboxEntry u e = None \<and> (eDeadLetter e \<longrightarrow> base_payload e) \<and>
     pred_option (\<lambda>t. tRouteKey t = []) (eTrace e)"

definition wf_entries :: "(string \<Rightarrow> bool) \<Rightarrow> terminalOutboxEntry list \<Rightarrow> bool" where
  "wf_entries u es \<longleftrightarrow> list_all (entry_ok u) es \<and> distinct (all_ids es)"

definition recoverable :: "outbox_lib \<Rightarrow> terminalOutboxEntry list \<Rightarrow> outbox_fs \<Rightarrow> bool" where
  "recoverable lib es fs \<longleftrightarrow>
     (case loadTerminalOutbox lib True True (fsNode fs) of
        Inl err \<Rightarrow> False
      | Inr es' \<Rightarrow> wf_entries (uuid_parse lib) es' \<and>
          map (encode_entry (raw_message lib)) es' = map (encode_entry (raw_message lib)) es)"

text \<open>\<open>D\<close> is the set of ids whose delivery is under way in some goroutine.\<close>

definition outbox_inv :: "outbox_lib \<Rightarrow> string set \<Rightarrow> terminalOutbox \<Rightarrow> bool" where
  "outbox_inv lib D ob \<longleftrightarrow>
     wf_entries (uuid_parse lib) (oEntries ob) \<and>
     int (length (oEntries ob)) \<le> terminalOutboxMaxEntries \<and>
     0 < oMaxEntries ob \<and> oMaxEntries ob \<le> terminalOutboxMaxEntries \<and>
     recoverable lib (oEntries ob) (oFS ob) \<and>
     (\<forall>e \<in> set (oEntries ob). eID e \<in> D \<longrightarrow> base_payload e)"

subsection \<open>The loader accepts exactly the well formed lists\<close>

lemma load_pendings_iff:
  "load_pendings seen sp ps = Inr r \<longleftrightarrow>
     distinct (map pID ps) \<and> pID ` set ps \<inter> (set seen \<union> set sp) = {} \<and>
     r = rev (map pID ps) @ sp"
  by (induction seen sp ps arbitrary: r rule: load_pendings.induct) auto

lemma all_ids_Nil [simp]: "all_ids [] = []"
  by (simp add: all_ids_def)

lemma all_ids_Cons [simp]: "all_ids (e # es) = eID e # map pID (ePendingSupersedes e) @ all_ids es"
  by (simp add: all_ids_def op_ids_def)

lemma load_entries_Cons:
  "load_entries u seen sp (Some e # os) = Inr r \<longleftrightarrow>
     (\<exists>r' sp'. r = e # r' \<and> validateTerminalOutboxEntry u e = None \<and> eID e \<notin> set seen \<and> eID e \<notin> set sp \<and>
        load_pendings (eID e # seen) sp (ePendingSupersedes e) = Inr sp' \<and>
        load_entries u (eID e # seen) sp' os = Inr r')"
  by (auto split: option.splits sum.splits)

lemma load_entries_iff:
  "load_entries u seen sp (map Some es) = Inr r \<longleftrightarrow>
     r = es \<and> (\<forall>e \<in> set es. validateTerminalOutboxEntry u e = None) \<and>
     distinct (all_ids es) \<and> set (all_ids es) \<inter> (set seen \<union> set sp) = {}"
proof (induction es arbitrary: seen sp r)
  case (Cons e es)
  have "load_entries u seen sp (map Some (e # es)) = Inr r \<longleftrightarrow>
     (r = e # es \<and> validateTerminalOutboxEntry u e = None \<and> eID e \<notin> set seen \<and> eID e \<notin> set sp \<and>
      distinct (map pID (ePendingSupersedes e)) \<and>
      pID ` set (ePendingSupersedes e) \<inter> (set (eID e # seen) \<union> set sp) = {} \<and>
      (\<forall>e \<in> set es. validateTerminalOutboxEntry u e = None) \<and> distinct (all_ids es) \<and>
      set (all_ids es) \<inter> (set (eID e # seen) \<union> (pID ` set (ePendingSupersedes e) \<union> set sp)) = {})"
    by (auto simp: load_entries_Cons Cons.IH load_pendings_iff simp del: load_entries.simps)
  also have "\<dots> \<longleftrightarrow> r = e # es \<and> (\<forall>e \<in> set (e # es). validateTerminalOutboxEntry u e = None) \<and>
     distinct (all_ids (e # es)) \<and> set (all_ids (e # es)) \<inter> (set seen \<union> set sp) = {}"
    by (simp add: disjoint_iff) blast
  finally show ?case .
qed auto

lemma load_entries_all_Some:
  "load_entries u seen sp os = Inr r \<Longrightarrow> os = map Some r"
  by (induction u seen sp os arbitrary: r rule: load_entries.induct)
     (auto split: option.splits sum.splits if_splits)

lemma load_written:
  "loadTerminalOutbox lib True True (Regular 384 (Some (encode_state raw es))) = Inr r \<longleftrightarrow>
     int (length es) \<le> terminalOutboxMaxEntries \<and> r = map (encode_entry raw) es \<and>
     (\<forall>e \<in> set r. validateTerminalOutboxEntry (uuid_parse lib) e = None) \<and> distinct (all_ids r)"
proof -
  have "map (Some \<circ> encode_entry raw) es = map Some (map (encode_entry raw) es)" by simp
  then show ?thesis
    by (auto simp: loadTerminalOutbox_def encode_state_def load_entries_iff simp del: map_map)
qed

lemma load_length:
  assumes "loadTerminalOutbox lib a b nd = Inr es"
  shows "int (length es) \<le> terminalOutboxMaxEntries"
  using assms
  by (auto simp: loadTerminalOutbox_def terminalOutboxMaxEntries_def dest!: load_entries_all_Some
      split: node.splits if_splits option.splits)

subsection \<open>Encoding\<close>

lemma encode_sel [simp]:
  "eID (encode_entry raw e) = eID e" "op_ids (encode_entry raw e) = op_ids e"
  "base_payload (encode_entry raw e) = base_payload e" "eDeadLetter (encode_entry raw e) = eDeadLetter e"
  by (auto simp: encode_entry_def op_ids_def base_payload_def encode_pending_def comp_def)

lemma encode_route_key: "pred_option (\<lambda>t. tRouteKey t = []) (eTrace (encode_entry raw e))"
  by (cases "eTrace e") (simp_all add: encode_entry_def)

lemma checkpoint_ok_encode:
  "raw_laws lib \<Longrightarrow> checkpoint_ok c \<Longrightarrow> checkpoint_ok (encode_checkpoint (raw_message lib) c)"
  by (simp add: checkpoint_ok_def encode_checkpoint_def raw_laws_def)

lemma encode_checkpoint_idem:
  "raw_laws lib \<Longrightarrow> checkpoint_ok c \<Longrightarrow>
   encode_checkpoint (raw_message lib) (encode_checkpoint (raw_message lib) c) =
   encode_checkpoint (raw_message lib) c"
  by (simp add: checkpoint_ok_def encode_checkpoint_def raw_laws_def)

lemma validate_pending_encode:
  "raw_laws lib \<Longrightarrow> validatePendingStreamSupersede u p = None \<Longrightarrow>
   validatePendingStreamSupersede u (encode_pending (raw_message lib) p) = None"
  by (auto simp: validatePendingStreamSupersede_def encode_pending_def checkpoint_ok_encode
      split: if_splits)

lemma validate_pending_checkpoint:
  "validatePendingStreamSupersede u p = None \<Longrightarrow> checkpoint_ok (pCheckpoint p)"
  by (auto simp: validatePendingStreamSupersede_def split: if_splits)

lemma validate_encode:
  assumes "raw_laws lib" "validateTerminalOutboxEntry u e = None"
  shows "validateTerminalOutboxEntry u (encode_entry (raw_message lib) e) = None"
proof -
  have guard: "terminalDeliveryGuardFromEntry (encode_entry raw e) = terminalDeliveryGuardFromEntry e" for raw
    by (simp add: terminalDeliveryGuardFromEntry_def encode_entry_def)
  have ids: "map (pID \<circ> encode_pending raw) ps = map pID ps" for raw ps
    by (simp add: encode_pending_def)
  show ?thesis
    using assms unfolding validate_None_iff guard
    by (simp add: encode_entry_def replay_incomplete_def entry_has_payload_def option.pred_map ids
        validate_pending_encode terminalDeliveryGuardFromEntry_def)
       (auto simp: pred_option_def checkpoint_ok_encode)
qed

lemma encode_idem:
  assumes "raw_laws lib" "validateTerminalOutboxEntry u e = None"
  shows "encode_entry (raw_message lib) (encode_entry (raw_message lib) e) = encode_entry (raw_message lib) e"
proof -
  have "encode_pending (raw_message lib) (encode_pending (raw_message lib) p) = encode_pending (raw_message lib) p"
    if "p \<in> set (ePendingSupersedes e)" for p
    using assms that by (simp add: validate_None_iff encode_pending_def encode_checkpoint_idem
        validate_pending_checkpoint [of u])
  then show ?thesis
    using assms unfolding validate_None_iff
    by (cases "eStream e"; cases "eCheckpoint e"; cases "eTrace e")
       (simp_all add: encode_entry_def encode_checkpoint_idem)
qed

lemma all_ids_encode [simp]: "all_ids (map (encode_entry raw) es) = all_ids es"
  by (simp add: all_ids_def comp_def)

lemma wf_encode:
  assumes "raw_laws lib" "wf_entries u es"
  shows "wf_entries u (map (encode_entry (raw_message lib)) es)"
  using assms
  by (auto simp: wf_entries_def list_all_iff entry_ok_def validate_encode encode_route_key)

lemma wf_written_recoverable:
  assumes "raw_laws lib" "wf_entries (uuid_parse lib) es" "int (length es) \<le> terminalOutboxMaxEntries"
    "fsNode fs = Regular 384 (Some (encode_state (raw_message lib) es))"
  shows "recoverable lib es fs"
proof -
  have ok: "validateTerminalOutboxEntry (uuid_parse lib) e = None" if "e \<in> set es" for e
    using assms(2) that by (auto simp: wf_entries_def entry_ok_def list_all_iff)
  then have "loadTerminalOutbox lib True True (fsNode fs) = Inr (map (encode_entry (raw_message lib)) es)"
    using assms by (auto simp: load_written wf_entries_def intro: validate_encode)
  with ok wf_encode [OF assms(1,2)] show ?thesis
    by (auto simp: recoverable_def intro: encode_idem [OF assms(1)])
qed

subsection \<open>Writes are all or nothing\<close>

lemma write_cases:
  obtains err where "writeTerminalOutbox lib w es fs = (Some err, fs\<lparr>fsTmp := fsTmp fs\<rparr>)"
  | err where "writeTerminalOutbox lib w es fs = (Some err, fs\<lparr>fsTmp := Absent\<rparr>)"
  | "writeTerminalOutbox lib w es fs =
      (None, fs\<lparr>fsNode := Regular 384 (Some (encode_state (raw_message lib) es)), fsTmp := Absent\<rparr>)"
    "fsNode fs \<noteq> NotRegular"
proof (cases "wMkdir w \<and> wChmodDir w \<and> wLstat w \<and> fsNode fs \<noteq> NotRegular \<and> wMarshal w \<and> wCreateTemp w \<and> wChmodTemp w \<and>
    wWrite w \<and> wSync w \<and> wClose w \<and> wRename w")
  case True
  then show ?thesis by (intro that(3)) (simp_all add: writeTerminalOutbox_def Let_def)
next
  case False
  then have "fst (writeTerminalOutbox lib w es fs) \<noteq> None \<and>
      (snd (writeTerminalOutbox lib w es fs) = fs \<or> snd (writeTerminalOutbox lib w es fs) = fs\<lparr>fsTmp := Absent\<rparr>)"
    unfolding writeTerminalOutbox_def Let_def
    by (cases "\<not> wMkdir w", simp, cases "\<not> wChmodDir w", simp, cases "\<not> wLstat w", simp, cases "fsNode fs = NotRegular", simp,
        cases "\<not> wMarshal w", simp, cases "\<not> wCreateTemp w", simp, cases "\<not> wChmodTemp w", simp, cases "\<not> wWrite w", simp,
        cases "\<not> wSync w", simp, cases "\<not> wClose w", simp, simp)
  then show ?thesis using that(1,2) by (cases "writeTerminalOutbox lib w es fs") auto
qed

lemma write_fail_node: "writeTerminalOutbox lib w es fs = (Some err, fs') \<Longrightarrow> fsNode fs' = fsNode fs"
  by (rule write_cases [of lib w es fs]) auto

lemma write_ok_node:
  "writeTerminalOutbox lib w es fs = (None, fs') \<Longrightarrow>
   fsNode fs' = Regular 384 (Some (encode_state (raw_message lib) es)) \<and> fsTmp fs' = Absent"
  by (rule write_cases [of lib w es fs]) auto

lemma persist_fail:
  assumes "persist_entries lib w es ob = (Some err, ob')"
  obtains fs where "ob' = ob\<lparr>oFS := fs\<rparr>" "fsNode fs = fsNode (oFS ob)"
  using assms write_fail_node [of lib w es "oFS ob"]
  by (cases "writeTerminalOutbox lib w es (oFS ob)")
     (auto simp: persist_entries_def persistLocked_def split: option.splits)

lemma persist_ok:
  assumes "persist_entries lib w es ob = (None, ob')"
  obtains fs where "ob' = ob\<lparr>oEntries := es, oFS := fs\<rparr>"
    "fsNode fs = Regular 384 (Some (encode_state (raw_message lib) es))" "fsTmp fs = Absent"
  using assms write_ok_node [of lib w es "oFS ob"]
  by (cases "writeTerminalOutbox lib w es (oFS ob)")
     (auto simp: persist_entries_def persistLocked_def split: option.splits)

subsection \<open>Replacing and removing entries of a well formed list\<close>

lemma upd_first_split:
  assumes "find P xs = Some x"
  obtains ys zs where "xs = ys @ x # zs" "\<And>f. upd_first P f xs = ys @ f x # zs"
    "remove_first P xs = ys @ zs" "P x"
proof -
  have "\<exists>ys zs. xs = ys @ x # zs \<and> (\<forall>f. upd_first P f xs = ys @ f x # zs) \<and> remove_first P xs = ys @ zs \<and> P x"
    using assms
  proof (induction xs)
    case (Cons a xs)
    show ?case
    proof (cases "P a")
      case True
      with Cons.prems show ?thesis by (intro exI [of _ "[]"] exI [of _ xs]) auto
    next
      case False
      with Cons obtain ys zs where "xs = ys @ x # zs" "\<forall>f. upd_first P f xs = ys @ f x # zs"
        "remove_first P xs = ys @ zs" "P x" by auto
      with False show ?thesis by (intro exI [of _ "a # ys"] exI [of _ zs]) auto
    qed
  qed simp
  then show ?thesis using that by blast
qed

lemma all_ids_append [simp]: "all_ids (xs @ ys) = all_ids xs @ all_ids ys"
  by (simp add: all_ids_def)

lemma wf_set_entry:
  assumes wf: "wf_entries u es" and f: "find (\<lambda>x. eID x = eID e') es = Some e"
    and ok: "entry_ok u e'"
    and new: "\<And>p. p \<in> set (ePendingSupersedes e') \<Longrightarrow>
      pID p \<in> pID ` set (ePendingSupersedes e) \<or> pID p \<notin> set (all_ids es)"
  shows "wf_entries u (set_entry e' es)"
proof -
  obtain ys zs where es: "es = ys @ e # zs" and upd: "\<And>f. upd_first (\<lambda>x. eID x = eID e') f es = ys @ f e # zs"
    and id: "eID e = eID e'"
    using upd_first_split [OF f] by metis
  have set: "set_entry e' es = ys @ e' # zs"
    by (simp add: set_entry_def upd)
  have d: "distinct (map pID (ePendingSupersedes e'))"
    using ok by (simp add: entry_ok_def validate_None_iff)
  have dist: "distinct (all_ids ys @ eID e # map pID (ePendingSupersedes e) @ all_ids zs)"
    using wf by (simp add: wf_entries_def es)
  have fresh: "x \<noteq> eID e' \<and> x \<notin> set (all_ids ys) \<and> x \<notin> set (all_ids zs)"
    if "x \<in> pID ` set (ePendingSupersedes e')" for x
  proof -
    from that new consider "x \<in> pID ` set (ePendingSupersedes e)" | "x \<notin> set (all_ids es)" by blast
    then show ?thesis
    proof cases
      case 1
      with dist id show ?thesis by (simp add: disjoint_iff) metis
    next
      case 2
      with id show ?thesis by (simp add: es)
    qed
  qed
  have "distinct (all_ids (ys @ e' # zs))"
    using dist d fresh by (auto simp: id [symmetric])
  moreover have "list_all (entry_ok u) (ys @ e' # zs)"
    using wf ok by (simp add: wf_entries_def es)
  ultimately show ?thesis
    by (simp only: wf_entries_def set)
qed

lemma wf_remove_first:
  assumes wf: "wf_entries u es"
  shows "wf_entries u (remove_first P es)"
proof (cases "find P es")
  case None
  then have "remove_first P es = es" by (induction es) (auto split: if_splits)
  with wf show ?thesis by simp
next
  case (Some e)
  then obtain ys zs where "es = ys @ e # zs" "remove_first P es = ys @ zs"
    by (rule upd_first_split)
  with wf show ?thesis by (auto simp: wf_entries_def)
qed

lemma wf_filter:
  assumes "wf_entries u es"
  shows "wf_entries u (filter P es)"
proof -
  have sub: "set (all_ids (filter P es)) \<subseteq> set (all_ids es)" for es
    by (auto simp: all_ids_def)
  have "distinct (all_ids es) \<Longrightarrow> distinct (all_ids (filter P es))"
    using sub by (induction es) fastforce+
  with assms show ?thesis by (auto simp: wf_entries_def list_all_iff)
qed

lemma wf_remove_nth: "wf_entries u es \<Longrightarrow> wf_entries u (remove_nth i es)"
proof (cases "i < length es")
  case True
  assume wf: "wf_entries u es"
  have "es = take i es @ es ! i # drop (Suc i) es"
    using True by (rule id_take_nth_drop)
  then obtain e where "es = take i es @ e # drop (Suc i) es" by blast
  with wf have "wf_entries u (take i es @ e # drop (Suc i) es)" by simp
  then show ?thesis by (auto simp: wf_entries_def remove_nth_def)
qed (simp add: remove_nth_def)

lemma wf_append:
  "wf_entries u es \<Longrightarrow> entry_ok u e \<Longrightarrow> set (op_ids e) \<inter> set (all_ids es) = {} \<Longrightarrow> distinct (op_ids e) \<Longrightarrow>
   wf_entries u (es @ [e])"
  by (auto simp: wf_entries_def op_ids_def)

end
