(* ===== verification/Outbox_Steps.thy ===== *)
theory Outbox_Steps
  imports Outbox_Inv
begin

section \<open>Every critical section keeps the outbox durable\<close>

text \<open>
  One lemma per critical section of \<open>messaging/terminal_outbox.go\<close>: the invariant
  \<^const>\<open>outbox_inv\<close> survives it, whatever the outcome of the writer's system calls. The
  interleaving of the goroutines is the step relation \<open>outbox_step\<close>: worker attempts are split
  into the critical sections they run under the lock, so that another operation may come in
  between any two of them, and a crash followed by a restart may happen at every point.
\<close>

subsection \<open>Frame rules\<close>

lemma inv_frame:
  "outbox_inv lib D ob \<Longrightarrow> oEntries ob' = oEntries ob \<Longrightarrow> fsNode (oFS ob') = fsNode (oFS ob) \<Longrightarrow>
   oMaxEntries ob' = oMaxEntries ob \<Longrightarrow> outbox_inv lib D ob'"
  by (simp add: outbox_inv_def recoverable_def)

lemma inv_upd [simp]:
  "outbox_inv lib D (ob\<lparr>oPreparing := a\<rparr>) = outbox_inv lib D ob"
  "outbox_inv lib D (ob\<lparr>oFollowerHeld := a\<rparr>) = outbox_inv lib D ob"
  "outbox_inv lib D (ob\<lparr>oStartupHeld := a\<rparr>) = outbox_inv lib D ob"
  "outbox_inv lib D (ob\<lparr>oReleaseHeld := a\<rparr>) = outbox_inv lib D ob"
  "outbox_inv lib D (ob\<lparr>oReleaseBusy := a\<rparr>) = outbox_inv lib D ob"
  "outbox_inv lib D (ob\<lparr>oProcessing := a\<rparr>) = outbox_inv lib D ob"
  "outbox_inv lib D (ob\<lparr>oWake := b\<rparr>) = outbox_inv lib D ob"
  "outbox_inv lib D (ob\<lparr>oTraced := c\<rparr>) = outbox_inv lib D ob"
  by (simp_all add: outbox_inv_def)

lemma inv_signal [simp]: "outbox_inv lib D (signal ob) = outbox_inv lib D ob"
  by (simp add: signal_def)

lemma inv_recordTrace [simp]: "outbox_inv lib D (recordTrace e a b ob) = outbox_inv lib D ob"
  by (simp add: recordTrace_def split: option.splits)

lemma entryLocked_upd [simp]:
  "entryLocked i (ob\<lparr>oPreparing := a\<rparr>) = entryLocked i ob"
  "entryLocked i (ob\<lparr>oProcessing := a\<rparr>) = entryLocked i ob"
  "entryLocked i (recordTrace e x y ob) = entryLocked i ob"
  "entryLocked i (signal ob) = entryLocked i ob"
  by (simp_all add: entryLocked_def recordTrace_def signal_def split: option.splits)

lemma entryLocked_SomeD: "entryLocked i ob = Some e \<Longrightarrow> eID e = i \<and> e \<in> set (oEntries ob)"
  unfolding entryLocked_def by (rule find_cong_key)

lemma inv_entry:
  "outbox_inv lib D ob \<Longrightarrow> entryLocked i ob = Some e \<Longrightarrow> entry_ok (uuid_parse lib) e \<and> (i \<in> D \<longrightarrow> base_payload e)"
  by (auto dest!: entryLocked_SomeD simp: outbox_inv_def wf_entries_def list_all_iff)

lemma inv_mono: "outbox_inv lib D ob \<Longrightarrow> D' \<subseteq> D \<Longrightarrow> outbox_inv lib D' ob"
  by (auto simp: outbox_inv_def)

subsection \<open>Persisting a new list of entries\<close>

lemma inv_persist:
  assumes raw: "raw_laws lib" and inv: "outbox_inv lib D ob"
    and wf: "wf_entries (uuid_parse lib) es" and len: "int (length es) \<le> terminalOutboxMaxEntries"
    and D: "\<And>e. e \<in> set es \<Longrightarrow> eID e \<in> D \<Longrightarrow> base_payload e"
    and p: "persist_entries lib w es ob = (r, ob')"
  shows "outbox_inv lib D ob'"
proof (cases r)
  case (Some err)
  with p obtain fs where "ob' = ob\<lparr>oFS := fs\<rparr>" "fsNode fs = fsNode (oFS ob)"
    using persist_fail by metis
  with inv show ?thesis by (auto intro: inv_frame)
next
  case None
  with p obtain fs where ob': "ob' = ob\<lparr>oEntries := es, oFS := fs\<rparr>"
    and fs: "fsNode fs = Regular 384 (Some (encode_state (raw_message lib) es))"
    using persist_ok by metis
  from raw wf len fs have "recoverable lib es fs" by (rule wf_written_recoverable)
  with inv wf len D show ?thesis by (simp add: ob' outbox_inv_def)
qed

lemma inv_set_entry:
  assumes raw: "raw_laws lib" and inv: "outbox_inv lib D ob"
    and e: "entryLocked (eID e') ob = Some e" and ok: "entry_ok (uuid_parse lib) e'"
    and new: "\<And>p. p \<in> set (ePendingSupersedes e') \<Longrightarrow>
      pID p \<in> pID ` set (ePendingSupersedes e) \<or> pID p \<notin> set (all_ids (oEntries ob))"
    and D: "eID e' \<in> D \<Longrightarrow> base_payload e'"
    and p: "persist_entries lib w (set_entry e' (oEntries ob)) ob = (r, ob')"
  shows "outbox_inv lib D ob'"
proof (rule inv_persist [OF raw inv _ _ _ p])
  show "wf_entries (uuid_parse lib) (set_entry e' (oEntries ob))"
    using inv e ok new by (intro wf_set_entry) (auto simp: outbox_inv_def entryLocked_def)
  show "int (length (set_entry e' (oEntries ob))) \<le> terminalOutboxMaxEntries"
    using inv by (simp add: outbox_inv_def set_entry_def)
  fix x assume "x \<in> set (set_entry e' (oEntries ob))" "eID x \<in> D"
  then show "base_payload x"
    using set_upd_first [of "\<lambda>x. eID x = eID e'" "\<lambda>_. e'" "oEntries ob"] inv D
    by (auto simp: set_entry_def outbox_inv_def)
qed

lemma inv_edit_entry:
  assumes raw: "raw_laws lib" and inv: "outbox_inv lib D ob"
    and e: "entryLocked (eID e') ob = Some e"
    and dead: "eDeadLetter e' \<Longrightarrow> base_payload e'" and rk: "pred_option (\<lambda>t. tRouteKey t = []) (eTrace e')"
    and new: "\<And>p. p \<in> set (ePendingSupersedes e') \<Longrightarrow>
      pID p \<in> pID ` set (ePendingSupersedes e) \<or> pID p \<notin> set (all_ids (oEntries ob))"
    and D: "eID e' \<in> D \<Longrightarrow> base_payload e'"
  shows "outbox_inv lib D (snd (edit_entry lib w e' ob))"
proof (cases "validateTerminalOutboxEntry (uuid_parse lib) e'")
  case None
  then have ok: "entry_ok (uuid_parse lib) e'" using dead rk by (simp add: entry_ok_def)
  obtain r ob' where p: "persist_entries lib w (set_entry e' (oEntries ob)) ob = (r, ob')" by fastforce
  from inv_set_entry [OF raw inv e ok new D p] None p show ?thesis
    by (auto simp: edit_entry_def split: option.splits)
qed (simp add: edit_entry_def inv)

text \<open>The frequent case: the pending operations are those of the stored entry.\<close>

lemma inv_edit_same:
  assumes "raw_laws lib" "outbox_inv lib D ob" "entryLocked (eID e') ob = Some e"
    and "eDeadLetter e' \<Longrightarrow> base_payload e'" "pred_option (\<lambda>t. tRouteKey t = []) (eTrace e')"
    and "pID ` set (ePendingSupersedes e') \<subseteq> pID ` set (ePendingSupersedes e)"
    and "eID e' \<in> D \<Longrightarrow> base_payload e'"
  shows "outbox_inv lib D (snd (edit_entry lib w e' ob))"
  using assms by (intro inv_edit_entry) auto

lemma length_remove_first: "length (remove_first P xs) \<le> length xs"
  by (induction xs) auto

lemma inv_remove:
  assumes raw: "raw_laws lib" and inv: "outbox_inv lib D ob"
    and es: "es = remove_first P (oEntries ob) \<or> es = filter P (oEntries ob)"
    and p: "persist_entries lib w es ob = (r, ob')"
  shows "outbox_inv lib D ob'"
proof (rule inv_persist [OF raw inv _ _ _ p])
  show "wf_entries (uuid_parse lib) es"
    using inv es by (auto simp: outbox_inv_def intro: wf_remove_first wf_filter)
  have sub: "set es \<subseteq> set (oEntries ob)" and len: "length es \<le> length (oEntries ob)"
    using es set_remove_first [of P "oEntries ob"] by (auto simp: length_remove_first)
  from len inv show "int (length es) \<le> terminalOutboxMaxEntries"
    by (simp add: outbox_inv_def)
  fix x assume "x \<in> set es" "eID x \<in> D"
  with sub inv show "base_payload x" by (auto simp: outbox_inv_def)
qed

subsection \<open>Operations of the callers\<close>

lemma draft_trace_key [simp]: "pred_option (\<lambda>t. tRouteKey t = []) (draft_trace t)"
  by (simp add: draft_trace_def strip_route_key_def)

lemma draft_trace_SomeD: "draft_trace t = Some t' \<Longrightarrow> tRouteKey t' = []"
  by (auto simp: draft_trace_def strip_route_key_def split: if_splits)

lemma draft_base: "\<not> draft_no_payload d \<Longrightarrow> base_payload (draft_entry now i d)"
  by (simp add: draft_no_payload_def base_payload_def draft_entry_def)

lemma merge_cases:
  assumes "mergeTerminalDeliveryGuard e d = Inr e'"
  obtains "e' = e" | g where "e' = set_guard g e"
  using assms by (auto simp: mergeTerminalDeliveryGuard_def Let_def split: if_splits)

lemma merge_sel:
  assumes "mergeTerminalDeliveryGuard e d = Inr e'"
  shows "eID e' = eID e" "ePendingSupersedes e' = ePendingSupersedes e" "eTrace e' = eTrace e"
    "eStream e' = eStream e" "eCheckpoint e' = eCheckpoint e"
  using assms by (auto elim!: merge_cases simp: set_guard_def)

lemma inv_reuse:
  assumes raw: "raw_laws lib" and inv: "outbox_inv lib D ob" and now: "now \<noteq> 0"
    and ex: "entryLocked (eID entry) ob = Some existing" and rv: "route_Valid (eRoute entry)"
  shows "outbox_inv lib D (snd (reuse_entry lib w now existing entry ob))"
proof -
  let ?moved = "existing\<lparr>eRoute := eRoute entry, eAttempts := 0, eLastError := [],
              eDeadLetter := False, eDeadLetterAt := 0, eUpdatedAt := now, eNextAttempt := now\<rparr>"
  obtain r ob' where p: "persist_entries lib w (set_entry ?moved (oEntries ob)) ob = (r, ob')" by fastforce
  have ex': "entryLocked (eID ?moved) ob = Some existing"
    using ex entryLocked_SomeD [OF ex] by simp
  have "entry_ok (uuid_parse lib) ?moved"
    using inv_entry [OF inv ex] now rv
    by (simp add: entry_ok_def validate_None_iff replay_incomplete_def entry_has_payload_def
        terminalDeliveryGuardFromEntry_def)
  from inv_set_entry [OF raw inv ex' this _ _ p] inv_entry [OF inv ex] entryLocked_SomeD [OF ex]
  have "outbox_inv lib D ob'" by (simp add: base_payload_def)
  with inv p show ?thesis
    by (auto simp: reuse_entry_def Let_def split: option.splits)
qed

lemma oldestEvictable_in:
  "oldestEvictable bl i best es = Some (j, e) \<Longrightarrow>
     best = Some (j, e) \<or>
     i \<le> j \<and> j < i + length es \<and> es ! (j - i) = e \<and> eDeadLetter e \<and> \<not> bl (eID e)"
proof (induction bl i best es rule: oldestEvictable.induct)
  case (2 bl i best e0 es)
  let ?best = "if \<not> eDeadLetter e0 \<or> bl (eID e0) then best
        else (case best of
            None \<Rightarrow> Some (i, e0)
          | Some (j, b) \<Rightarrow>
              if eDeadLetterAt e0 < eDeadLetterAt b \<or>
                 eDeadLetterAt e0 = eDeadLetterAt b \<and> eCreatedAt e0 < eCreatedAt b
              then Some (i, e0) else best)"
  from 2 consider "?best = Some (j, e)"
    | "Suc i \<le> j" "j < Suc i + length es" "es ! (j - Suc i) = e" "eDeadLetter e" "\<not> bl (eID e)"
    by auto
  then show ?case
  proof cases
    case 1
    then show ?thesis by (auto split: if_splits option.splits)
  next
    case 2
    then show ?thesis by (auto simp: nth_Cons' Suc_diff_Suc)
  qed
qed simp

lemma oldestEvictable_nth:
  assumes "oldestEvictableDeadLetterLocked ob = Some (j, e)"
  shows "j < length (oEntries ob)" "oEntries ob ! j = e" "eDeadLetter e"
    "eID e \<notin> oPreparing ob" "eID e \<notin> oProcessing ob"
  using oldestEvictable_in [OF assms [unfolded oldestEvictableDeadLetterLocked_def]] by auto

lemma persistLocked_eq:
  "persistLocked lib w (ob\<lparr>oEntries := es, oPreparing := P\<rparr>) =
     (case persist_entries lib w es ob of
        (None, ob') \<Rightarrow> (None, ob'\<lparr>oPreparing := P\<rparr>)
      | (Some err, ob') \<Rightarrow> (Some err, ob'\<lparr>oEntries := es, oPreparing := P\<rparr>))"
  by (simp add: persist_entries_def persistLocked_def split: prod.splits option.splits)

definition kept_entries ::
  "(nat \<times> terminalOutboxEntry) option \<Rightarrow> terminalOutboxEntry list \<Rightarrow> terminalOutboxEntry list" where
  "kept_entries ev es = (case ev of None \<Rightarrow> es | Some (i, _) \<Rightarrow> remove_nth i es)"

text \<open>
  An append is an instance of the pattern persist or roll back: undoing the append and the
  eviction on the slice gives the list of entries as it was, the evicted entry at its old place.
\<close>

lemma append_entry_eq:
  assumes "ev = None \<or> ev = oldestEvictableDeadLetterLocked ob"
  shows "append_entry lib w preparing ev entry ob =
    (case persist_entries lib w (kept_entries ev (oEntries ob) @ [entry]) ob of
       (None, ob') \<Rightarrow> (Inr entry, recordTrace entry ''terminal.outbox.enqueued'' ''pending''
          (ob'\<lparr>oPreparing := (if preparing then insert (eID entry) (oPreparing ob) else oPreparing ob)\<rparr>))
     | (Some err, ob') \<Rightarrow> (Inl (PersistFailed err), ob'\<lparr>oPreparing := oPreparing ob - {eID entry}\<rparr>))"
proof -
  have undo: "(case ev of None \<Rightarrow> kept_entries ev (oEntries ob)
      | Some (i, e) \<Rightarrow> insert_nth i e (kept_entries ev (oEntries ob))) = oEntries ob"
  proof (cases ev)
    case (Some a)
    then obtain j e where e: "ev = Some (j, e)" by (cases a) auto
    with assms have sel: "oldestEvictableDeadLetterLocked ob = Some (j, e)" by simp
    from insert_remove_nth [OF oldestEvictable_nth(1) [OF sel]] oldestEvictable_nth(2) [OF sel]
    show ?thesis by (simp add: e kept_entries_def)
  qed (simp add: kept_entries_def)
  obtain err fs where w: "writeTerminalOutbox lib w (kept_entries ev (oEntries ob) @ [entry]) (oFS ob) = (err, fs)"
    by fastforce
  show ?thesis
    using undo w
    by (cases ob; cases err; cases ev)
       (auto simp: append_entry_def persist_entries_def persistLocked_def kept_entries_def Let_def)
qed

lemma inv_append:
  assumes raw: "raw_laws lib" and inv: "outbox_inv lib D ob"
    and ok: "entry_ok (uuid_parse lib) entry" and base: "base_payload entry"
    and ps: "ePendingSupersedes entry = []" and fresh: "eID entry \<notin> set (all_ids (oEntries ob))"
    and ev: "ev = None \<and> int (length (oEntries ob)) < entryLimit ob \<or>
             ev \<noteq> None \<and> ev = oldestEvictableDeadLetterLocked ob"
  shows "outbox_inv lib D (snd (append_entry lib w preparing ev entry ob))"
proof -
  let ?kept = "kept_entries ev (oEntries ob)"
  obtain r ob' where p: "persist_entries lib w (?kept @ [entry]) ob = (r, ob')" by fastforce
  have wfk: "wf_entries (uuid_parse lib) ?kept"
    using inv by (auto simp: kept_entries_def outbox_inv_def wf_remove_nth split: option.splits)
  have subk: "set ?kept \<subseteq> set (oEntries ob)"
    using set_remove_nth by (force simp: kept_entries_def split: option.splits)
  then have "eID entry \<notin> set (all_ids ?kept)"
    using fresh by (auto simp: all_ids_def)
  with ps have wf: "wf_entries (uuid_parse lib) (?kept @ [entry])"
    by (intro wf_append wfk ok) (auto simp: op_ids_def)
  have len: "int (length (?kept @ [entry])) \<le> terminalOutboxMaxEntries"
  proof (cases ev)
    case None
    then have "int (length (oEntries ob)) < oMaxEntries ob"
      using ev inv by (simp add: outbox_inv_def entryLimit_def)
    with None inv show ?thesis by (simp add: kept_entries_def outbox_inv_def)
  next
    case (Some a)
    then obtain j e where e: "ev = Some (j, e)" by (cases a) auto
    with ev have sel: "oldestEvictableDeadLetterLocked ob = Some (j, e)" by simp
    from oldestEvictable_nth(1) [OF sel] inv show ?thesis
      by (simp add: kept_entries_def e length_remove_nth outbox_inv_def)
  qed
  have "outbox_inv lib D ob'"
    using subk base inv by (intro inv_persist [OF raw inv wf len _ p]) (auto simp: outbox_inv_def)
  moreover have "ev = None \<or> ev = oldestEvictableDeadLetterLocked ob" using ev by blast
  ultimately show ?thesis
    using p by (cases r) (simp_all add: append_entry_eq)
qed

lemma inv_enqueueWithState:
  assumes raw: "raw_laws lib" and inv: "outbox_inv lib D ob" and now: "now \<noteq> 0"
    and fresh: "(if blank (dID d) then newID else go_trim (dID d)) \<notin>
      pID ` set (concat (map ePendingSupersedes (oEntries ob)))"
  shows "outbox_inv lib D (snd (enqueueWithState lib w now newID d preparing ob))"
proof -
  define entryID where "entryID = (if blank (dID d) then newID else go_trim (dID d))"
  let ?entry = "draft_entry now entryID d"
  have id: "eID ?entry = entryID" and ps: "ePendingSupersedes ?entry = []" and rt: "eRoute ?entry = dRoute d"
    by (simp_all add: draft_entry_def)
  show ?thesis
  proof (cases "\<not> route_Valid (dRoute d) \<or> draft_no_payload d \<or>
      validateTerminalOutboxEntry (uuid_parse lib) ?entry \<noteq> None")
    case True
    then show ?thesis
      using inv by (auto simp: enqueueWithState_def Let_def entryID_def [symmetric] split: option.splits)
  next
    case False
    then have ok: "entry_ok (uuid_parse lib) ?entry"
      by (simp add: entry_ok_def) (simp add: draft_entry_def)
    have eq: "enqueueWithState lib w now newID d preparing ob =
       (case entryLocked entryID ob of
                Some existing \<Rightarrow> reuse_entry lib w now existing ?entry ob
              | None \<Rightarrow>
                  if int (length (oEntries ob)) \<ge> entryLimit ob then
                    (case oldestEvictableDeadLetterLocked ob of
                       None \<Rightarrow> (Inl CapacityExceeded, ob)
                     | Some ev \<Rightarrow> append_entry lib w preparing (Some ev) ?entry ob)
                  else append_entry lib w preparing None ?entry ob)"
      using False by (simp add: enqueueWithState_def Let_def entryID_def [symmetric])
    show ?thesis
    proof (cases "entryLocked entryID ob")
      case (Some ex)
      then show ?thesis
        using False inv_reuse [OF raw inv now, of ?entry ex w] by (simp add: eq id rt)
    next
      case None
      then have "entryID \<notin> eID ` set (oEntries ob)"
        by (simp add: entryLocked_def find_None_key)
      then have f: "eID ?entry \<notin> set (all_ids (oEntries ob))"
        using fresh by (auto simp: id entryID_def [symmetric] all_ids_def op_ids_def)
      have b: "base_payload ?entry" using False by (auto intro: draft_base)
      show ?thesis
        using None inv inv_append [OF raw inv ok b ps f]
        by (auto simp: eq not_le split: option.splits)
    qed
  qed
qed

lemma inv_stageReservationResult:
  assumes raw: "raw_laws lib" and inv: "outbox_inv lib D ob"
  shows "outbox_inv lib D (snd (stageReservationResult lib w now i d ob))"
proof (cases "\<not> route_Valid (dRoute d) \<or> blank (dText d) \<or> entryLocked i ob = None")
  case True
  with inv show ?thesis by (auto simp: stageReservationResult_def)
next
  case False
  then obtain e where e: "entryLocked i ob = Some e" and t: "\<not> blank (dText d)" by auto
  note eID = entryLocked_SomeD [OF e]
  show ?thesis
  proof (cases "mergeTerminalDeliveryGuard (e\<lparr>eRoute := dRoute d, eAgentName := go_trim (dAgentName d)\<rparr>) d")
    case (Inl err)
    with False e inv show ?thesis by (simp add: stageReservationResult_def)
  next
    case (Inr e1)
    note m = merge_sel [OF Inr]
    define e2 where "e2 = reset_delivery now (stage_fields d e1)"
    define e3 where "e3 = (case draft_trace (dTrace d) of None \<Rightarrow> e2 | Some t \<Rightarrow> e2\<lparr>eTrace := Some t\<rparr>)"
    have "outbox_inv lib D (snd (edit_entry lib w e3 ob))"
    proof (rule inv_edit_same [OF raw inv])
      show "entryLocked (eID e3) ob = Some e"
        using e eID m by (simp add: e3_def e2_def reset_delivery_def stage_fields_def split: option.splits)
      show "pred_option (\<lambda>t. tRouteKey t = []) (eTrace e3)"
        using inv_entry [OF inv e] m
        by (auto simp: e3_def e2_def reset_delivery_def stage_fields_def entry_ok_def
            dest: draft_trace_SomeD split: option.splits)
      show "pID ` set (ePendingSupersedes e3) \<subseteq> pID ` set (ePendingSupersedes e)"
        using m by (simp add: e3_def e2_def reset_delivery_def stage_fields_def split: option.splits)
      show "base_payload e3"
        using t by (simp add: e3_def e2_def reset_delivery_def stage_fields_def base_payload_def split: option.splits)
      then show "base_payload e3" .
    qed
    with False e Inr show ?thesis
      by (simp add: stageReservationResult_def Let_def e2_def [symmetric] e3_def [symmetric])
  qed
qed

lemma inv_releaseReservation [simp]: "outbox_inv lib D (releaseReservation i ob) = outbox_inv lib D ob"
  by (simp add: releaseReservation_def)

lemma inv_commitReservation:
  assumes raw: "raw_laws lib" and inv: "outbox_inv lib D ob"
  shows "outbox_inv lib D (snd (commitReservation lib w now i d ob))"
proof (cases "\<not> route_Valid (dRoute d) \<or> draft_no_payload d \<or> entryLocked i ob = None")
  case True
  with inv show ?thesis by (auto simp: commitReservation_def)
next
  case False
  then obtain e where e: "entryLocked i ob = Some e" and t: "\<not> draft_no_payload d" by auto
  note eID = entryLocked_SomeD [OF e]
  show ?thesis
  proof (cases "mergeTerminalDeliveryGuard (e\<lparr>eRoute := dRoute d, eAgentName := go_trim (dAgentName d)\<rparr>) d")
    case (Inl err)
    with False e inv show ?thesis by (simp add: commitReservation_def)
  next
    case (Inr e1)
    note m = merge_sel [OF Inr]
    define e3 where "e3 = (reset_delivery now (stage_fields d
       (e1\<lparr>eStream := (if dStream d = None \<and> dCheckpoint d = None then eStream e1 else dStream d),
           eCheckpoint := dCheckpoint d\<rparr>)))\<lparr>eTrace := draft_trace (dTrace d)\<rparr>"
    note e3 = e3_def reset_delivery_def stage_fields_def
    have "outbox_inv lib D (snd (edit_entry lib w e3 ob))"
      using t m eID
      by (intro inv_edit_same [OF raw inv, of _ e])
         (auto simp: e3 e base_payload_def draft_no_payload_def)
    with False e Inr show ?thesis
      by (simp add: commitReservation_def Let_def e3_def [symmetric] case_prod_beta)
  qed
qed

lemma inv_discardReservation:
  assumes raw: "raw_laws lib" and inv: "outbox_inv lib D ob" and i: "i \<notin> D"
  shows "outbox_inv lib D (snd (discardReservation lib w now i ob))"
proof (cases "entryLocked i ob")
  case None
  with inv show ?thesis by (simp add: discardReservation_def)
next
  case (Some e)
  note eID = entryLocked_SomeD [OF Some]
  obtain r ob' where p: "persist_entries lib w (remove_first (\<lambda>x. eID x = i) (oEntries ob)) ob = (r, ob')"
    by fastforce
  have "outbox_inv lib D ob'" by (rule inv_remove [OF raw inv disjI1 [OF refl] p])
  moreover have "outbox_inv lib D (snd (edit_entry lib w (clear_payload now e) ob))"
    using inv_entry [OF inv Some] eID i Some
    by (intro inv_edit_same [OF raw inv, of _ e]) (auto simp: clear_payload_def entry_ok_def)
  ultimately show ?thesis
    using Some p by (auto simp: discardReservation_def split: option.splits prod.splits)
qed

lemma inv_refreshStreamReservation:
  assumes raw: "raw_laws lib" and inv: "outbox_inv lib D ob"
  shows "outbox_inv lib D (snd (refreshStreamReservation lib w now i r ref ob))"
proof (cases "entryLocked i ob")
  case (Some e)
  let ?e = "reset_delivery now (e\<lparr>eRoute := r, eStream := Some ref, eActiveStreamRecovery := True, eCheckpoint := None\<rparr>)"
  have "outbox_inv lib D (snd (edit_entry lib w ?e ob))"
    using inv_entry [OF inv Some] entryLocked_SomeD [OF Some] Some
    by (intro inv_edit_same [OF raw inv, of _ e]) (auto simp: reset_delivery_def entry_ok_def base_payload_def)
  with inv Some show ?thesis by (simp add: refreshStreamReservation_def)
qed (use inv in \<open>simp add: refreshStreamReservation_def\<close>)

lemma inv_refreshStreamReservationTrace:
  assumes raw: "raw_laws lib" and inv: "outbox_inv lib D ob"
  shows "outbox_inv lib D (snd (refreshStreamReservationTrace lib w now i t ob))"
proof (cases "entryLocked i ob")
  case (Some e)
  have "outbox_inv lib D (snd (edit_entry lib w (e\<lparr>eTrace := Some t', eUpdatedAt := now\<rparr>) ob))"
    if "draft_trace t = Some t'" for t'
    using inv_entry [OF inv Some] entryLocked_SomeD [OF Some] Some draft_trace_SomeD [OF that]
    by (intro inv_edit_same [OF raw inv, of _ e]) (auto simp: entry_ok_def base_payload_def)
  with inv Some show ?thesis by (auto simp: refreshStreamReservationTrace_def split: option.splits)
qed (use inv in \<open>simp add: refreshStreamReservationTrace_def split: option.splits\<close>)

lemma inv_refreshReservationDeliveryGuard:
  assumes raw: "raw_laws lib" and inv: "outbox_inv lib D ob"
  shows "outbox_inv lib D (snd (refreshReservationDeliveryGuard lib w now i g ob))"
proof (cases "entryLocked i ob")
  case (Some e)
  have "outbox_inv lib D (snd (edit_entry lib w (e\<lparr>eAuthorizedIdentity := go_trim (gAuthorizedIdentity g),
              eFollowerBindingKey := go_trim (gFollowerBindingKey g),
              eFollowerRevision := gFollowerRevision g,
              eFollowerThreadID := go_trim (gFollowerThreadID g), eUpdatedAt := now\<rparr>) ob))"
    using inv_entry [OF inv Some] entryLocked_SomeD [OF Some] Some
    by (intro inv_edit_same [OF raw inv, of _ e]) (auto simp: entry_ok_def base_payload_def)
  with inv Some show ?thesis by (auto simp: refreshReservationDeliveryGuard_def)
qed (use inv in \<open>simp add: refreshReservationDeliveryGuard_def\<close>)

lemma scan_pendings_dup:
  "scan_pendings i cid p dup xs = Inr dup' \<Longrightarrow>
   dup' = (dup \<or> pID p \<in> pID ` set xs) \<and> (pID p \<in> pID ` set xs \<longrightarrow> cid = i)"
  by (induction i cid p dup xs arbitrary: dup' rule: scan_pendings.induct) (auto split: if_splits)

lemma scan_entries_dup:
  "scan_entries i p dup cs = Inr dup' \<Longrightarrow>
   pID p \<notin> eID ` set cs \<and>
   dup' = (dup \<or> (\<exists>c \<in> set cs. pID p \<in> pID ` set (ePendingSupersedes c))) \<and>
   (\<forall>c \<in> set cs. pID p \<in> pID ` set (ePendingSupersedes c) \<longrightarrow> eID c = i)"
proof (induction i p dup cs arbitrary: dup' rule: scan_entries.induct)
  case (2 i p dup c cs)
  from "2.prems" obtain d where d: "scan_pendings i (eID c) p dup (ePendingSupersedes c) = Inr d"
    "scan_entries i p d cs = Inr dup'" "eID c \<noteq> pID p"
    by (auto split: if_splits sum.splits)
  note ih = "2.IH" [OF d(3,1,2)] and sp = scan_pendings_dup [OF d(1)]
  have "pID p \<notin> eID ` set (c # cs)" using ih d(3) by auto
  moreover have "dup' = (dup \<or> (\<exists>c \<in> set (c # cs). pID p \<in> pID ` set (ePendingSupersedes c)))"
    using ih sp by (simp only: list.set bex_simps) blast
  moreover have "\<forall>x \<in> set (c # cs). pID p \<in> pID ` set (ePendingSupersedes x) \<longrightarrow> eID x = i"
    using ih sp by (simp only: list.set ball_simps) blast
  ultimately show ?case by blast
qed simp

lemma in_all_ids: "x \<in> set (all_ids es) \<longleftrightarrow> (\<exists>e \<in> set es. x = eID e \<or> x \<in> pID ` set (ePendingSupersedes e))"
  by (auto simp: all_ids_def op_ids_def)

lemma inv_reanchorStreamReservation:
  assumes raw: "raw_laws lib" and inv: "outbox_inv lib D ob"
  shows "outbox_inv lib D (snd (reanchorStreamReservation lib w now i r ref pending0 ob))"
proof (cases "entryLocked i ob")
  case None
  with inv show ?thesis
    by (simp add: reanchorStreamReservation_def Let_def split: option.splits)
next
  case (Some e)
  define pending where "pending = schedule_pending now pending0"
  show ?thesis
  proof (cases "scan_entries i pending False (oEntries ob)")
    case (Inl err)
    with Some inv show ?thesis
      by (simp add: reanchorStreamReservation_def Let_def pending_def [symmetric] split: option.splits)
  next
    case (Inr dup)
    define e2 where "e2 = (let e1 = (reset_delivery now (e\<lparr>eRoute := r, eStream := Some ref,
        eActiveStreamRecovery := True, eCheckpoint := None\<rparr>))\<lparr>eAttempts := 0\<rparr> in
        if dup then e1 else e1\<lparr>ePendingSupersedes := ePendingSupersedes e1 @ [pending]\<rparr>)"
    note sel = entryLocked_SomeD [OF Some]
    have e2: "eID e2 = eID e" "eStream e2 \<noteq> None" "eDeadLetter e2 = False" "eTrace e2 = eTrace e"
      "ePendingSupersedes e2 = (if dup then ePendingSupersedes e else ePendingSupersedes e @ [pending])"
      by (simp_all add: e2_def reset_delivery_def Let_def)
    have "outbox_inv lib D (snd (edit_entry lib w e2 ob))"
    proof (rule inv_edit_entry [OF raw inv])
      show "entryLocked (eID e2) ob = Some e" using e2 sel Some by simp
      show "pred_option (\<lambda>t. tRouteKey t = []) (eTrace e2)"
        using inv_entry [OF inv Some] e2 by (simp add: entry_ok_def)
      fix p assume "p \<in> set (ePendingSupersedes e2)"
      then show "pID p \<in> pID ` set (ePendingSupersedes e) \<or> pID p \<notin> set (all_ids (oEntries ob))"
        using scan_entries_dup [OF Inr] e2(5) by (auto simp: in_all_ids split: if_splits)
    qed (use e2 in \<open>simp_all add: base_payload_def\<close>)
    with Some Inr inv show ?thesis
      by (auto simp: reanchorStreamReservation_def Let_def pending_def [symmetric]
          e2_def [unfolded Let_def, symmetric] split: option.splits prod.splits)
  qed
qed

lemma pending_id_taken_None:
  "pending_id_taken x es = None \<longleftrightarrow> x \<notin> set (all_ids es)"
  by (induction x es rule: pending_id_taken.induct) (auto simp: list_ex_iff)

lemma inv_detachStreamReservation:
  assumes raw: "raw_laws lib" and inv: "outbox_inv lib D ob" and i: "i \<notin> D"
  shows "outbox_inv lib D (snd (detachStreamReservation lib w now i pending0 ob))"
proof (cases "entryLocked i ob")
  case None
  with inv show ?thesis
    by (simp add: detachStreamReservation_def Let_def split: option.splits)
next
  case (Some e)
  define pending where "pending = schedule_pending now pending0"
  let ?e1 = "(clear_payload now e)\<lparr>eAttempts := 0, eNextAttempt := now,
                            ePendingSupersedes := ePendingSupersedes e @ [pending]\<rparr>"
  have "outbox_inv lib D (snd (edit_entry lib w ?e1 ob))"
    if "pending_id_taken (pID pending) (oEntries ob) = None"
    using that inv_entry [OF inv Some] entryLocked_SomeD [OF Some] Some i
    by (intro inv_edit_entry [OF raw inv, of _ e])
       (auto simp: clear_payload_def pending_id_taken_None entry_ok_def)
  with Some inv show ?thesis
    by (auto simp: detachStreamReservation_def Let_def pending_def [symmetric] split: option.splits prod.splits)
qed

lemma wf_map_same:
  assumes "wf_entries u es" "\<And>e. e \<in> set es \<Longrightarrow> entry_ok u e \<Longrightarrow> entry_ok u (f e) \<and> op_ids (f e) = op_ids e"
  shows "wf_entries u (map f es)"
proof -
  have "all_ids (map f es) = all_ids es"
    using assms by (auto simp: all_ids_def wf_entries_def list_all_iff intro!: arg_cong [of _ _ concat])
  with assms show ?thesis by (simp add: wf_entries_def list_all_iff)
qed

lemma entry_ok_touch:
  assumes "entry_ok u e" "eID e' = eID e" "eRoute e' = eRoute e" "op_ids e' = op_ids e"
    "ePendingSupersedes e' = ePendingSupersedes e"
    "terminalDeliveryGuardFromEntry e' = terminalDeliveryGuardFromEntry e"
    "eReplaySelectionID e' = eReplaySelectionID e" "eReplayTurnID e' = eReplayTurnID e" "eRichResult e' = eRichResult e"
    "eText e' = eText e" "eNotification e' = eNotification e" "eStream e' = eStream e" "eCheckpoint e' = eCheckpoint e"
    "eTrace e' = eTrace e" "eCreatedAt e' = eCreatedAt e" "eUpdatedAt e' \<noteq> 0" "eNextAttempt e' \<noteq> 0"
    "eDeadLetter e' \<longrightarrow> eDeadLetterAt e' \<noteq> 0 \<and> base_payload e"
  shows "entry_ok u e'"
  using assms
  by (simp add: entry_ok_def validate_None_iff replay_incomplete_def entry_has_payload_def base_payload_def)

lemma entry_ok_pendings:
  assumes "entry_ok u e" "\<forall>p \<in> set ps. validatePendingStreamSupersede u p = None" "distinct (map pID ps)"
    "ps = [] \<Longrightarrow> base_payload e \<or> ePendingSupersedes e = []"
  shows "entry_ok u (e\<lparr>ePendingSupersedes := ps\<rparr>)"
  using assms
  by (auto simp: entry_ok_def validate_None_iff replay_incomplete_def entry_has_payload_def base_payload_def
      terminalDeliveryGuardFromEntry_def)

lemma redrive_entry_sel:
  "eID (fst (redrive_entry now i e)) = eID e"
  "op_ids (fst (redrive_entry now i e)) = op_ids e"
  "base_payload (fst (redrive_entry now i e)) = base_payload e"
  by (auto simp: redrive_entry_def op_ids_def base_payload_def redrive_pending_def Let_def)

lemma redrive_entry_ok:
  assumes "entry_ok u e" "now \<noteq> 0"
  shows "entry_ok u (fst (redrive_entry now i e))"
proof -
  have p: "validatePendingStreamSupersede u (redrive_pending now p) = None"
    if "validatePendingStreamSupersede u p = None" for p
    using that assms(2) by (auto simp: validatePendingStreamSupersede_def redrive_pending_def split: if_splits)
  have id: "map (pID \<circ> (\<lambda>p. if P p then redrive_pending now p else p)) ps = map pID ps" for P ps
    by (simp add: redrive_pending_def)
  have pend: "entry_ok u (x\<lparr>ePendingSupersedes :=
      map (\<lambda>p. if P p then redrive_pending now p else p) (ePendingSupersedes x)\<rparr>)"
    if x: "entry_ok u x" for x P
  proof (rule entry_ok_pendings [OF x])
    show "\<forall>q \<in> set (map (\<lambda>p. if P p then redrive_pending now p else p) (ePendingSupersedes x)).
        validatePendingStreamSupersede u q = None"
      using p x by (auto simp: entry_ok_def validate_None_iff)
    show "distinct (map pID (map (\<lambda>p. if P p then redrive_pending now p else p) (ePendingSupersedes x)))"
      using x by (simp add: id entry_ok_def validate_None_iff)
  qed simp
  have alive: "entry_ok u (e\<lparr>eNextAttempt := now, eDeadLetter := False, eDeadLetterAt := 0\<rparr>)"
    using assms by (rule_tac entry_ok_touch [of _ e])
      (simp_all add: op_ids_def terminalDeliveryGuardFromEntry_def entry_ok_def validate_None_iff)
  have upd: "entry_ok u (x\<lparr>eUpdatedAt := now\<rparr>)" if "entry_ok u x" for x
    using that assms(2) by (rule_tac entry_ok_touch [of _ x])
      (simp_all add: op_ids_def terminalDeliveryGuardFromEntry_def entry_ok_def validate_None_iff)
  define e1 where "e1 = (if (i = [] \<or> eID e = i) \<and> (terminalEntryHasWork e \<or> eDeadLetter e)
    then e\<lparr>eNextAttempt := now, eDeadLetter := False, eDeadLetterAt := 0\<rparr> else e)"
  define e2 where "e2 = e1\<lparr>ePendingSupersedes :=
    map (\<lambda>p. if (i = [] \<or> eID e = i) \<or> pID p = i then redrive_pending now p else p) (ePendingSupersedes e1)\<rparr>"
  have "entry_ok u e1" by (simp add: e1_def alive assms(1))
  then have "entry_ok u e2" unfolding e2_def by (rule pend)
  with upd [OF this] assms(1) show ?thesis
    by (simp only: redrive_entry_def Let_def e1_def [symmetric] e2_def [symmetric] fst_conv split: if_split) simp
qed

lemma redrive_unchanged:
  assumes "\<not> snd (redrive_entry now i e)"
  shows "fst (redrive_entry now i e) = e"
proof (cases "\<not> (i = [] \<or> eID e = i) \<and> pendingStreamSupersedeIndex e i = None")
  case True
  then show ?thesis by (simp add: redrive_entry_def)
next
  case False
  let ?work = "(i = [] \<or> eID e = i) \<and> (terminalEntryHasWork e \<or> eDeadLetter e)"
  let ?touched = "\<lambda>p. (i = [] \<or> eID e = i) \<or> pID p = i"
  from assms False have n: "\<not> ?work" "\<not> list_ex ?touched (ePendingSupersedes e)"
    by (simp_all only: redrive_entry_def Let_def if_False snd_conv de_Morgan_disj not_False_eq_True)
  then have "map (\<lambda>p. if ?touched p then redrive_pending now p else p) (ePendingSupersedes e) = ePendingSupersedes e"
    by (intro map_idI) (simp only: list_ex_iff, metis)
  with n False show ?thesis
    by (simp only: redrive_entry_def Let_def if_False fst_conv de_Morgan_disj) simp
qed

lemma inv_redrive:
  assumes raw: "raw_laws lib" and inv: "outbox_inv lib D ob" and now: "now \<noteq> 0"
  shows "outbox_inv lib D (snd (redrive lib w now i0 ob))"
proof -
  define rs where "rs = map (redrive_entry now (go_trim i0)) (oEntries ob)"
  have fst: "map fst rs = map (fst \<circ> redrive_entry now (go_trim i0)) (oEntries ob)"
    by (simp add: rs_def)
  have unchanged: "map fst rs = oEntries ob" if "length (filter snd rs) = 0"
    unfolding fst
  proof (rule map_idI)
    fix e assume "e \<in> set (oEntries ob)"
    with that have "\<not> snd (redrive_entry now (go_trim i0) e)"
      by (auto simp: rs_def filter_empty_conv)
    then show "(fst \<circ> redrive_entry now (go_trim i0)) e = e" unfolding comp_def
      by (rule redrive_unchanged)
  qed
  obtain r ob' where p: "persist_entries lib w (map fst rs) ob = (r, ob')" by fastforce
  have "outbox_inv lib D ob'"
  proof (rule inv_persist [OF raw inv _ _ _ p])
    show "wf_entries (uuid_parse lib) (map fst rs)"
      unfolding fst using inv now
      by (intro wf_map_same) (auto simp: outbox_inv_def redrive_entry_sel redrive_entry_ok)
    show "int (length (map fst rs)) \<le> terminalOutboxMaxEntries"
      using inv by (simp add: rs_def outbox_inv_def)
    fix e assume "e \<in> set (map fst rs)" "eID e \<in> D"
    then show "base_payload e"
      using inv by (auto simp: fst redrive_entry_sel outbox_inv_def)
  qed
  with inv p unchanged show ?thesis
    by (auto simp: redrive_def Let_def rs_def [symmetric] intro: inv_frame split: option.splits)
qed

subsection \<open>Sections of an attempt\<close>

lemma backoff_loop_ge: "0 \<le> d \<Longrightarrow> d \<le> backoff_loop k n d"
proof (induction k n d rule: backoff_loop.induct)
  case (1 k n d)
  then show ?case by (cases "k < n \<and> d < terminalOutboxRetryMax") (auto simp: backoff_loop.simps [of k n d])
qed

lemma backoff_pos: "0 < terminalOutboxBackoff n"
  using backoff_loop_ge [of terminalOutboxRetryMin 1 n]
  by (auto simp: terminalOutboxBackoff_def Let_def terminalOutboxRetryMin_def terminalOutboxRetryMax_def
      second_def minute_def)

lemma inv_touch:
  assumes raw: "raw_laws lib" and inv: "outbox_inv lib D ob" and e: "entryLocked i ob = Some e"
    and ok: "entry_ok (uuid_parse lib) e'" and sel: "eID e' = eID e" "ePendingSupersedes e' = ePendingSupersedes e"
      "base_payload e' = base_payload e"
    and p: "persist_entries lib w (set_entry e' (oEntries ob)) ob = (r, ob')"
  shows "outbox_inv lib D ob'"
proof (rule inv_set_entry [OF raw inv _ ok _ _ p])
  show "entryLocked (eID e') ob = Some e" using e sel entryLocked_SomeD [OF e] by simp
  show "eID e' \<in> D \<Longrightarrow> base_payload e'" using inv_entry [OF inv e] sel entryLocked_SomeD [OF e] by simp
qed (simp add: sel)

lemma set_delivered_sel:
  "eID (set_delivered s e) = eID e" "ePendingSupersedes (set_delivered s e) = ePendingSupersedes e"
  "base_payload (set_delivered s e) = base_payload e"
  by (cases s; simp add: base_payload_def)+

lemma inv_markDelivered:
  assumes raw: "raw_laws lib" and inv: "outbox_inv lib D ob" and now: "0 < now"
  shows "outbox_inv lib D (snd (markDelivered lib w now i s ob))"
proof (cases "entryLocked i ob")
  case (Some e)
  let ?e = "(set_delivered s e)\<lparr>eUpdatedAt := now, eLastError := []\<rparr>"
  obtain r ob' where p: "persist_entries lib w (set_entry ?e (oEntries ob)) ob = (r, ob')" by fastforce
  have "entry_ok (uuid_parse lib) ?e"
    using inv_entry [OF inv Some] now
    by (cases s; rule_tac entry_ok_touch [of _ e])
       (auto simp: op_ids_def terminalDeliveryGuardFromEntry_def entry_ok_def validate_None_iff)
  from inv_touch [OF raw inv Some this _ _ _ p] have "outbox_inv lib D ob'"
    using set_delivered_sel [of s e] by (simp add: base_payload_def)
  with Some p show ?thesis by (simp add: markDelivered_def)
qed (use inv in \<open>simp add: markDelivered_def\<close>)

lemma inv_deferDelivery:
  assumes raw: "raw_laws lib" and inv: "outbox_inv lib D ob" and now: "0 < now"
  shows "outbox_inv lib D (snd (deferDelivery lib w now i reason ob))"
proof (cases "entryLocked i ob")
  case (Some e)
  let ?e = "e\<lparr>eUpdatedAt := now, eNextAttempt := now + terminalOutboxRetryMin,
     eLastError := ''delivery deferred: '' @ go_trim reason\<rparr>"
  obtain r ob' where p: "persist_entries lib w (set_entry ?e (oEntries ob)) ob = (r, ob')" by fastforce
  have "entry_ok (uuid_parse lib) ?e"
    using inv_entry [OF inv Some] now
    by (rule_tac entry_ok_touch [of _ e])
       (auto simp: op_ids_def terminalDeliveryGuardFromEntry_def entry_ok_def validate_None_iff
         terminalOutboxRetryMin_def second_def)
  from inv_touch [OF raw inv Some this _ _ _ p] have "outbox_inv lib D ob'"
    by (simp add: base_payload_def)
  with Some p show ?thesis by (auto simp: deferDelivery_def Let_def split: option.splits)
qed (use inv in \<open>simp add: deferDelivery_def\<close>)

lemma failed_entry_sel:
  "eID (failed_entry ob now err e) = eID e"
  "ePendingSupersedes (failed_entry ob now err e) = ePendingSupersedes e"
  "base_payload (failed_entry ob now err e) = base_payload e"
  by (simp_all add: failed_entry_def Let_def base_payload_def)

lemma failed_entry_ok:
  "entry_ok u e \<Longrightarrow> base_payload e \<Longrightarrow> 0 < now \<Longrightarrow> entry_ok u (failed_entry ob now err e)"
  using backoff_pos [of "eAttempts e + 1"]
  by (rule_tac entry_ok_touch [of _ e])
     (auto simp: failed_entry_def Let_def op_ids_def terminalDeliveryGuardFromEntry_def
       entry_ok_def validate_None_iff)

lemma inv_recordFailure:
  assumes raw: "raw_laws lib" and inv: "outbox_inv lib D ob" and now: "0 < now" and i: "i \<in> D"
  shows "outbox_inv lib D (snd (recordFailure lib w now i err ob))"
proof (cases "entryLocked i ob")
  case (Some e)
  let ?e = "failed_entry ob now err e"
  obtain r ob' where p: "persist_entries lib w (set_entry ?e (oEntries ob)) ob = (r, ob')" by fastforce
  have "entry_ok (uuid_parse lib) ?e"
    using inv_entry [OF inv Some] now i by (simp add: failed_entry_ok)
  from inv_touch [OF raw inv Some this _ _ _ p] have "outbox_inv lib D ob'"
    by (simp add: failed_entry_sel)
  with Some p show ?thesis by (auto simp: recordFailure_def Let_def split: option.splits)
qed (use inv in \<open>simp add: recordFailure_def\<close>)

lemma inv_removeDelivered:
  assumes raw: "raw_laws lib" and inv: "outbox_inv lib D ob" and now: "0 < now"
  shows "outbox_inv lib D (snd (removeDelivered lib w now i ob))"
proof (cases "entryLocked i ob")
  case (Some e)
  let ?e = "e\<lparr>eUpdatedAt := now, eLastError := [], eDeadLetter := False, eDeadLetterAt := 0\<rparr>"
  obtain r ob' where p: "persist_entries lib w (set_entry ?e (oEntries ob)) ob = (r, ob')" by fastforce
  have "entry_ok (uuid_parse lib) ?e"
    using inv_entry [OF inv Some] now
    by (rule_tac entry_ok_touch [of _ e])
       (auto simp: op_ids_def terminalDeliveryGuardFromEntry_def entry_ok_def validate_None_iff)
  from inv_touch [OF raw inv Some this _ _ _ p] have 1: "outbox_inv lib D ob'"
    by (simp add: base_payload_def)
  obtain r2 ob2 where p2: "persist_entries lib w (remove_first (\<lambda>x. eID x = i) (oEntries ob)) ob = (r2, ob2)"
    by fastforce
  have "outbox_inv lib D ob2" by (rule inv_remove [OF raw inv disjI1 [OF refl] p2])
  with Some p p2 1 show ?thesis by (auto simp: removeDelivered_def Let_def split: option.splits)
qed (use inv in \<open>simp add: removeDelivered_def\<close>)

lemma prepare_state_case:
  "snd (snd (case x of (Some (PersistFailed ioerr), ob') \<Rightarrow> (f ioerr, a, ob')
      | (Some err, ob') \<Rightarrow> (g, b, ob') | (None, ob') \<Rightarrow> (h, c, ob'))) = snd x"
  by (cases x; cases "fst x") (auto split: outbox_error.splits)

lemma prepare_state:
  "snd (snd (prepareStreamRecovery lib w now i e r ob)) = ob \<or>
   (\<exists>cur cp. entryLocked i ob = Some cur \<and>
      snd (snd (prepareStreamRecovery lib w now i e r ob)) = snd (edit_entry lib w
        (cur\<lparr>eStream := None, eCheckpoint := Some cp, eUpdatedAt := now, eNextAttempt := now\<rparr>) ob))"
proof (cases "eStream e")
  case (Some ref)
  define prepared where "prepared = (case rpPrepareState r of
       Some f \<Rightarrow> f ref (firstNonBlank [eText e, activeStreamRestartText]) (terminalOutboxResultState e)
     | None \<Rightarrow> (case rpPrepare r of
          Some f \<Rightarrow> f ref (firstNonBlank [eText e, activeStreamRestartText]) (terminalOutboxResultState e = StreamFailed)
        | None \<Rightarrow> Inl Unsupported))"
  show ?thesis
    by (cases prepared; cases "entryLocked i ob")
       (simp_all only: prepareStreamRecovery_def Some option.case Let_def prepared_def [symmetric] sum.case
         snd_conv prepare_state_case if_distrib [of snd] cong: if_cong, auto)
qed (simp add: prepareStreamRecovery_def)

lemma inv_prepareStreamRecovery:
  assumes raw: "raw_laws lib" and inv: "outbox_inv lib D ob"
  shows "outbox_inv lib D (snd (snd (prepareStreamRecovery lib w now i e r ob)))"
proof -
  have "outbox_inv lib D (snd (edit_entry lib w
      (cur\<lparr>eStream := None, eCheckpoint := Some cp, eUpdatedAt := now, eNextAttempt := now\<rparr>) ob))"
    if "entryLocked i ob = Some cur" for cur cp
    using inv_entry [OF inv that] entryLocked_SomeD [OF that] that
    by (intro inv_edit_same [OF raw inv, of _ cur]) (auto simp: entry_ok_def base_payload_def)
  with inv prepare_state [of lib w now i e r ob] show ?thesis by auto
qed

lemma pending_index_Some:
  assumes "pendingStreamSupersedeIndex e pid = Some k"
  shows "k < length (ePendingSupersedes e)" "pID (ePendingSupersedes e ! k) = pid"
  using assms by (auto simp: pendingStreamSupersedeIndex_def find_Some_iff nth_enumerate_eq)

lemma inv_completePendingStreamSupersede:
  assumes raw: "raw_laws lib" and inv: "outbox_inv lib D ob" and now: "0 < now"
  shows "outbox_inv lib D (snd (completePendingStreamSupersede lib w now i pid ob))"
proof (cases "entryLocked i ob")
  case (Some e)
  show ?thesis
  proof (cases "pendingStreamSupersedeIndex e pid")
    case None
    with Some inv show ?thesis by (simp add: completePendingStreamSupersede_def)
  next
    case (Some k)
    define e' where "e' = e\<lparr>ePendingSupersedes := remove_nth k (ePendingSupersedes e), eUpdatedAt := now\<rparr>"
    note e = \<open>entryLocked i ob = Some e\<close>
    note sel = entryLocked_SomeD [OF e] and ok = inv_entry [OF inv e]
    have sub: "set (ePendingSupersedes e') \<subseteq> set (ePendingSupersedes e)"
      by (simp add: e'_def set_remove_nth)
    have "outbox_inv lib D ob'"
      if rp: "\<not> (ePendingSupersedes e' = [] \<and> \<not> terminalEntryHasWork e' \<and> \<not> eDeadLetter e')"
        and p: "persist_entries lib w (set_entry e' (oEntries ob)) ob = (r, ob')" for r ob'
    proof (rule inv_set_entry [OF raw inv _ _ _ _ p])
      show "entryLocked (eID e') ob = Some e" using e sel by (simp add: e'_def)
      have "entry_ok (uuid_parse lib) (e\<lparr>eUpdatedAt := now\<rparr>)"
        using ok now by (rule_tac entry_ok_touch [of _ e])
          (auto simp: op_ids_def terminalDeliveryGuardFromEntry_def entry_ok_def validate_None_iff)
      moreover have "base_payload e" if "ePendingSupersedes e' = []"
        using rp that ok
        by (auto simp: e'_def terminalEntryHasWork_def base_payload_def entry_ok_def)
      moreover have "\<forall>p \<in> set (ePendingSupersedes e'). validatePendingStreamSupersede (uuid_parse lib) p = None"
        using sub ok by (auto simp: entry_ok_def validate_None_iff)
      moreover have "distinct (map pID (ePendingSupersedes e'))"
        using ok by (simp add: e'_def map_remove_nth distinct_remove_nth entry_ok_def validate_None_iff)
      ultimately have "entry_ok (uuid_parse lib) (e\<lparr>eUpdatedAt := now, ePendingSupersedes := ePendingSupersedes e'\<rparr>)"
        by (rule_tac entry_ok_pendings) (simp_all add: base_payload_def)
      moreover have "e\<lparr>eUpdatedAt := now, ePendingSupersedes := ePendingSupersedes e'\<rparr> = e'"
        by (cases e) (simp add: e'_def)
      ultimately show "entry_ok (uuid_parse lib) e'" by simp
      show "eID e' \<in> D \<Longrightarrow> base_payload e'" using ok sel by (simp add: e'_def base_payload_def)
      show "\<And>p. p \<in> set (ePendingSupersedes e') \<Longrightarrow>
        pID p \<in> pID ` set (ePendingSupersedes e) \<or> pID p \<notin> set (all_ids (oEntries ob))"
        using sub by auto
    qed
    moreover have "outbox_inv lib D ob'"
      if p: "persist_entries lib w (filter (\<lambda>x. eID x \<noteq> i) (oEntries ob)) ob = (r, ob')" for r ob'
      by (rule inv_remove [OF raw inv disjI2 [OF refl] p])
    ultimately show ?thesis
      using e Some by (auto simp: completePendingStreamSupersede_def Let_def e'_def [symmetric]
          split: option.splits prod.splits if_splits)
  qed
qed (use inv in \<open>simp add: completePendingStreamSupersede_def\<close>)

lemma inv_recordPendingStreamSupersedeFailure:
  assumes raw: "raw_laws lib" and inv: "outbox_inv lib D ob"
  shows "outbox_inv lib D (snd (recordPendingStreamSupersedeFailure lib w now i pid err ob))"
proof (cases "entryLocked i ob")
  case (Some e)
  show ?thesis
  proof (cases "pendingStreamSupersedeIndex e pid")
    case None
    with Some inv show ?thesis by (simp add: recordPendingStreamSupersedeFailure_def)
  next
    case (Some k)
    note e = \<open>entryLocked i ob = Some e\<close>
    define p' where "p' = failed_pending ob now err (ePendingSupersedes e ! k)"
    let ?e = "e\<lparr>ePendingSupersedes := (ePendingSupersedes e)[k := p'], eUpdatedAt := now\<rparr>"
    have "pID p' = pID (ePendingSupersedes e ! k)"
      by (simp add: p'_def failed_pending_def Let_def)
    then have m: "map pID ((ePendingSupersedes e)[k := p']) = map pID (ePendingSupersedes e)"
      by (simp add: map_update) (metis list_update_id map_update)
    have "pID ` set (ePendingSupersedes ?e) \<subseteq> pID ` set (ePendingSupersedes e)"
      using arg_cong [OF m, of set] by simp
    then have "outbox_inv lib D (snd (edit_entry lib w ?e ob))"
      using inv_entry [OF inv e] entryLocked_SomeD [OF e] e
      by (intro inv_edit_same [OF raw inv, of _ e]) (auto simp: entry_ok_def base_payload_def)
    with e Some show ?thesis
      by (auto simp: recordPendingStreamSupersedeFailure_def Let_def p'_def split: option.splits prod.splits)
  qed
qed (use inv in \<open>simp add: recordPendingStreamSupersedeFailure_def\<close>)

end
