(* ===== verification/Outbox_System.thy ===== *)
theory Outbox_System
  imports Outbox_Steps
begin

section \<open>The outbox as a transition system\<close>

text \<open>
  The goroutines that share a \<open>terminalOutbox\<close>: the callers of its operations, the worker and the
  inline attempts. A state is the outbox together with the set of ids that some goroutine is
  delivering, that is, that are between \<open>beginAttempt\<close> and \<open>endAttempt\<close>. The clock never reads the
  zero instant or an earlier one.

  The rules carry the discipline of the callers that the code relies on and does not check:
  a caller discards or detaches a reservation only while no attempt is delivering it, and the
  id of a new entry is not the id of a pending card operation (ids are random UUIDs).
\<close>

record sys =
  yOutbox :: terminalOutbox
  yDelivering :: "string set"

abbreviation lift_ob :: "sys \<Rightarrow> terminalOutbox \<Rightarrow> sys" where
  "lift_ob y ob \<equiv> y\<lparr>yOutbox := ob\<rparr>"

definition pending_ids :: "terminalOutbox \<Rightarrow> string set" where
  "pending_ids ob = pID ` set (concat (map ePendingSupersedes (oEntries ob)))"

inductive hold_step :: "terminalOutbox \<Rightarrow> terminalOutbox \<Rightarrow> bool" where
  "hold_step ob (holdCodexFollowerTerminalDeliveries fs ob)"
| "hold_step ob (releaseCodexFollowerTerminalDeliveries f ob)"
| "hold_step ob (reconcileCodexFollowerTerminalDeliveryHolds fs ob)"
| "hold_step ob (snd (holdReleasedCodexFollowerRecoveries rs ob))"
| "hold_step ob (holdCodexFollowerRecoveries fs ob)"
| "hold_step ob (releaseHeldCodexFollowerRecovery i ob)"
| "hold_step ob (endReleasedRecoveryAttempt i ob)"
| "hold_step ob (reconcileCodexFollowerHolds fs rs ob)"
| "hold_step ob (releaseReservation i ob)"
| "hold_step ob (snd (beginStreamReanchor i ob))"
| "hold_step ob (endStreamReanchor i ob)"

inductive caller_step :: "outbox_lib \<Rightarrow> string set \<Rightarrow> terminalOutbox \<Rightarrow> terminalOutbox \<Rightarrow> bool" for lib where
  "0 < now \<Longrightarrow> (if blank (dID d) then newID else go_trim (dID d)) \<notin> pending_ids ob \<Longrightarrow>
   caller_step lib D ob (snd (enqueueWithState lib w now newID d preparing ob))"
| "caller_step lib D ob (snd (stageReservationResult lib w now i d ob))"
| "caller_step lib D ob (snd (commitReservation lib w now i d ob))"
| "i \<notin> D \<Longrightarrow> caller_step lib D ob (snd (discardReservation lib w now i ob))"
| "caller_step lib D ob (snd (refreshStreamReservation lib w now i r ref ob))"
| "caller_step lib D ob (snd (refreshStreamReservationTrace lib w now i t ob))"
| "caller_step lib D ob (snd (refreshReservationDeliveryGuard lib w now i g ob))"
| "caller_step lib D ob (snd (reanchorStreamReservation lib w now i r ref p ob))"
| "i \<notin> D \<Longrightarrow> caller_step lib D ob (snd (detachStreamReservation lib w now i p ob))"
| "0 < now \<Longrightarrow> caller_step lib D ob (snd (redrive lib w now i ob))"
| "hold_step ob ob' \<Longrightarrow> caller_step lib D ob ob'"

inductive outbox_step :: "outbox_lib \<Rightarrow> sys \<Rightarrow> sys \<Rightarrow> bool" for lib where
  step_caller: "caller_step lib (yDelivering y) (yOutbox y) ob \<Longrightarrow> outbox_step lib y (lift_ob y ob)"
| step_begin: "beginAttempt i (yOutbox y) = Some (e, ob) \<Longrightarrow>
   outbox_step lib y \<lparr>yOutbox = ob, yDelivering = insert i (yDelivering y)\<rparr>"
| step_trace: "outbox_step lib y (lift_ob y (recordTrace e a b (yOutbox y)))"
| step_prepare: "outbox_step lib y
     (lift_ob y (snd (snd (prepareStreamRecovery lib w now i e r (yOutbox y)))))"
| step_mark: "0 < now \<Longrightarrow> outbox_step lib y (lift_ob y (snd (markDelivered lib w now i s (yOutbox y))))"
| step_defer: "0 < now \<Longrightarrow> outbox_step lib y (lift_ob y (snd (deferDelivery lib w now i reason (yOutbox y))))"
| step_refuse: "outbox_step lib y \<lparr>yOutbox = snd (discardReservation lib w now i (yOutbox y)),
     yDelivering = yDelivering y - {i}\<rparr>"
| step_fail: "0 < now \<Longrightarrow> i \<in> yDelivering y \<Longrightarrow>
   outbox_step lib y (lift_ob y (snd (recordFailure lib w now i err (yOutbox y))))"
| step_finish: "0 < now \<Longrightarrow> outbox_step lib y (lift_ob y (snd (removeDelivered lib w now i (yOutbox y))))"
| step_end: "outbox_step lib y \<lparr>yOutbox = endAttempt i (yOutbox y), yDelivering = yDelivering y - {i}\<rparr>"
| step_begin_pending: "beginPendingStreamSupersedeAttempt i pid (yOutbox y) = Some (e, p, ob) \<Longrightarrow>
   outbox_step lib y (lift_ob y ob)"
| step_complete_pending: "0 < now \<Longrightarrow>
   outbox_step lib y (lift_ob y (snd (completePendingStreamSupersede lib w now i pid (yOutbox y))))"
| step_fail_pending:
   "outbox_step lib y (lift_ob y (snd (recordPendingStreamSupersedeFailure lib w now i pid err (yOutbox y))))"
| step_restart: "newTerminalOutbox lib s r (oFS (yOutbox y)) = Inr ob \<Longrightarrow>
   outbox_step lib y \<lparr>yOutbox = ob, yDelivering = {}\<rparr>"

inductive_cases hold_stepE: "hold_step ob ob'"
inductive_cases caller_stepE: "caller_step lib D ob ob'"
inductive_cases outbox_stepE: "outbox_step lib y z"

text \<open>The process starts on a state file whose entries are well formed (a missing file has none).\<close>

definition outbox_init :: "outbox_lib \<Rightarrow> sys \<Rightarrow> bool" where
  "outbox_init lib y \<longleftrightarrow> raw_laws lib \<and>
     newTerminalOutbox lib True True (oFS (yOutbox y)) = Inr (yOutbox y) \<and>
     wf_entries (uuid_parse lib) (oEntries (yOutbox y)) \<and> yDelivering y = {}"

definition sys_inv :: "outbox_lib \<Rightarrow> sys \<Rightarrow> bool" where
  "sys_inv lib y \<longleftrightarrow> raw_laws lib \<and> outbox_inv lib (yDelivering y) (yOutbox y)"

subsection \<open>Every step keeps the invariant\<close>

definition same_core :: "terminalOutbox \<Rightarrow> terminalOutbox \<Rightarrow> bool" where
  "same_core ob ob' \<longleftrightarrow> oEntries ob' = oEntries ob \<and> oFS ob' = oFS ob \<and> oMaxEntries ob' = oMaxEntries ob"

lemma same_core_upd [simp]:
  "same_core x (ob\<lparr>oPreparing := a\<rparr>) = same_core x ob"
  "same_core x (ob\<lparr>oFollowerHeld := a\<rparr>) = same_core x ob"
  "same_core x (ob\<lparr>oStartupHeld := a\<rparr>) = same_core x ob"
  "same_core x (ob\<lparr>oReleaseHeld := a\<rparr>) = same_core x ob"
  "same_core x (ob\<lparr>oReleaseBusy := a\<rparr>) = same_core x ob"
  "same_core x (ob\<lparr>oProcessing := a\<rparr>) = same_core x ob"
  "same_core x (signal ob) = same_core x ob"
  "same_core x (if c then signal ob else ob) = same_core x ob"
  "same_core x (if c then ob else signal ob) = same_core x ob"
  "same_core x x"
  by (simp_all add: same_core_def signal_def)

lemma hold_released_core: "same_core x ob \<Longrightarrow> same_core x (snd (hold_released ts es ob))"
proof (induction ts es ob rule: hold_released.induct)
  case (2 targets e es ob)
  then show ?case
    by (simp add: Let_def case_prod_beta del: not_None_eq)
qed simp

lemmas hold_defs = holdCodexFollowerTerminalDeliveries_def releaseCodexFollowerTerminalDeliveries_def
  reconcileCodexFollowerTerminalDeliveryHolds_def holdCodexFollowerRecoveries_def
  releaseHeldCodexFollowerRecovery_def endReleasedRecoveryAttempt_def reconcileCodexFollowerHolds_def
  releaseReservation_def endStreamReanchor_def endAttempt_def Let_def same_core_upd

lemma hold_step_core: "hold_step ob ob' \<Longrightarrow> same_core ob ob'"
proof (induction rule: hold_step.induct)
  case (4 ob rs)
  show ?case
    by (simp add: holdReleasedCodexFollowerRecoveries_def hold_released_core)
next
  case (10 ob i)
  show ?case by (simp add: beginStreamReanchor_def)
qed (simp_all only: hold_defs)

lemma inv_caller_step:
  assumes "caller_step lib D ob ob'" "raw_laws lib" "outbox_inv lib D ob"
  shows "outbox_inv lib D ob'"
  using assms(1)
proof (cases rule: caller_step.cases)
  case (1 now d newID w preparing)
  then show ?thesis
    using assms by (auto simp: pending_ids_def intro: inv_enqueueWithState)
next
  case 11
  with hold_step_core [of ob ob'] inv_frame [OF assms(3), of ob'] show ?thesis by (simp add: same_core_def)
qed (use assms in \<open>auto intro: inv_stageReservationResult inv_commitReservation inv_discardReservation
    inv_refreshStreamReservation inv_refreshStreamReservationTrace inv_refreshReservationDeliveryGuard
    inv_reanchorStreamReservation inv_detachStreamReservation inv_redrive\<close>)

lemma inv_beginAttempt:
  assumes "outbox_inv lib D ob" "beginAttempt i ob = Some (e, ob')"
  shows "outbox_inv lib (insert i D) ob'"
proof -
  have e: "entryLocked i ob = Some e" "terminalEntryHasWork e"
    and ob': "ob' = ob\<lparr>oProcessing := insert i (oProcessing ob)\<rparr>"
    using assms(2) by (auto simp: beginAttempt_def split: if_splits option.splits)
  have "x = e" if "x \<in> set (oEntries ob)" "eID x = i" for x
  proof -
    have "distinct (map eID (oEntries ob))"
    proof -
      have "distinct (all_ids es) \<Longrightarrow> distinct (map eID es)" for es
        by (induction es) (auto simp: in_all_ids)
      with assms(1) show ?thesis by (simp add: outbox_inv_def wf_entries_def)
    qed
    with entryLocked_SomeD [OF e(1)] that show ?thesis
      by (auto simp: distinct_map inj_on_def)
  qed
  moreover have "base_payload e"
    using e(2) by (auto simp: terminalEntryHasWork_def base_payload_def)
  ultimately show ?thesis
    using assms(1) by (auto simp: ob' outbox_inv_def)
qed

lemma new_fields:
  "newTerminalOutbox lib s r fs = Inr ob \<Longrightarrow>
   loadTerminalOutbox lib s r (fsNode fs) = Inr (oEntries ob) \<and> oFS ob = fs \<and>
   oMaxEntries ob = terminalOutboxMaxEntries \<and> oPreparing ob = {} \<and> oProcessing ob = {}"
  by (auto simp: newTerminalOutbox_def split: sum.splits)

lemma inv_restart:
  assumes raw: "raw_laws lib" and inv: "outbox_inv lib D ob"
    and new: "newTerminalOutbox lib s r (oFS ob) = Inr ob'"
  shows "outbox_inv lib {} ob'"
proof -
  obtain es where es: "loadTerminalOutbox lib s r (fsNode (oFS ob)) = Inr es" "oEntries ob' = es" "oFS ob' = oFS ob"
    "oMaxEntries ob' = terminalOutboxMaxEntries"
    using new_fields [OF new] by blast
  have load: "loadTerminalOutbox lib True True (fsNode (oFS ob)) = Inr es"
    using es(1) by (auto simp: loadTerminalOutbox_def split: if_splits node.splits)
  with inv have "wf_entries (uuid_parse lib) es"
    by (simp add: outbox_inv_def recoverable_def)
  moreover from this have "recoverable lib es (oFS ob)"
    using load by (simp add: recoverable_def)
  ultimately show ?thesis
    using load_length [OF es(1)] by (simp add: outbox_inv_def es terminalOutboxMaxEntries_def)
qed

lemma inv_outbox_step:
  assumes inv: "sys_inv lib y" and step: "outbox_step lib y z"
  shows "sys_inv lib z"
proof -
  from inv have raw: "raw_laws lib" by (simp add: sys_inv_def)
  from step show ?thesis
proof (cases rule: outbox_step.cases)
  case (step_caller ob)
  with raw inv show ?thesis by (simp add: sys_inv_def inv_caller_step)
next
  case (step_begin i e ob)
  with inv inv_beginAttempt [of lib "yDelivering y" "yOutbox y" i e ob] show ?thesis by (simp add: sys_inv_def)
next
  case (step_refuse w now i)
  have "outbox_inv lib (yDelivering y - {i}) (yOutbox y)"
    using inv by (auto simp: sys_inv_def intro: inv_mono)
  with raw step_refuse show ?thesis by (simp add: sys_inv_def inv_discardReservation)
next
  case (step_end i)
  have "outbox_inv lib (yDelivering y - {i}) (yOutbox y)"
    using inv by (auto simp: sys_inv_def intro: inv_mono)
  with raw step_end show ?thesis by (simp add: sys_inv_def endAttempt_def)
next
  case (step_begin_pending i pid e p ob)
  then have "ob = (yOutbox y)\<lparr>oProcessing := insert i (oProcessing (yOutbox y))\<rparr>"
    by (auto simp: beginPendingStreamSupersedeAttempt_def split: if_splits option.splits)
  with step_begin_pending inv show ?thesis by (simp add: sys_inv_def)
next
  case (step_restart s r ob)
  with raw inv show ?thesis by (auto simp: sys_inv_def intro: inv_restart)
qed (use raw inv in \<open>simp_all add: sys_inv_def inv_prepareStreamRecovery inv_markDelivered inv_deferDelivery
    inv_recordFailure inv_removeDelivered inv_completePendingStreamSupersede
    inv_recordPendingStreamSupersedeFailure\<close>)
qed

lemma inv_outbox_init: "outbox_init lib y \<Longrightarrow> sys_inv lib y"
  using load_length [of lib True True "fsNode (oFS (yOutbox y))"]
  by (auto simp: outbox_init_def sys_inv_def outbox_inv_def recoverable_def terminalOutboxMaxEntries_def
      dest: new_fields)

interpretation outbox: invariant_system "outbox_init lib" "outbox_step lib" "sys_inv lib" for lib
  by unfold_locales (auto intro: inv_outbox_init inv_outbox_step)

lemma reach_outbox_inv:
  "reach (outbox_init lib) (outbox_step lib) y \<Longrightarrow> raw_laws lib \<and> outbox_inv lib (yDelivering y) (yOutbox y)"
  using outbox.reach_inv [of lib y] by (simp add: sys_inv_def)

subsection \<open>Attempts and worker rounds are runs of the system\<close>

text \<open>
  The definitions \<^const>\<open>attempt\<close> and \<^const>\<open>run_round\<close> are sequences of the steps above, so what
  holds of all reachable states holds after them, and in between.
\<close>

definition positive_clock :: "attempt_env \<Rightarrow> bool" where
  "positive_clock env \<longleftrightarrow> (\<forall>s. 0 < aNow env s)"

abbreviation run :: "outbox_lib \<Rightarrow> sys \<Rightarrow> sys \<Rightarrow> bool" where
  "run lib \<equiv> rtranclp (outbox_step lib)"

lemma run_lift: "outbox_step lib \<lparr>yOutbox = a, yDelivering = D\<rparr> (lift_ob \<lparr>yOutbox = a, yDelivering = D\<rparr> b) \<Longrightarrow>
   run lib \<lparr>yOutbox = a, yDelivering = D\<rparr> \<lparr>yOutbox = b, yDelivering = D\<rparr>"
  by (simp add: r_into_rtranclp)

lemma run_stage_run:
  assumes "positive_clock env"
  shows "run lib \<lparr>yOutbox = ob, yDelivering = D\<rparr> \<lparr>yOutbox = snd (run_stage lib env i e s ob), yDelivering = D\<rparr>"
proof -
  have "snd (run_stage lib env i e s ob) = ob \<or>
     snd (run_stage lib env i e s ob) =
       snd (markDelivered lib (aWrite env (MarkSection s)) (aNow env (MarkSection s)) i s ob)"
    by (simp add: run_stage_def Let_def split: option.split)
  moreover have "0 < aNow env (MarkSection s)" using assms by (simp add: positive_clock_def)
  from step_mark [OF this, of lib "\<lparr>yOutbox = ob, yDelivering = D\<rparr>"]
  have "run lib \<lparr>yOutbox = ob, yDelivering = D\<rparr> \<lparr>yOutbox = snd (markDelivered lib (aWrite env (MarkSection s))
       (aNow env (MarkSection s)) i s ob), yDelivering = D\<rparr>"
    by (intro run_lift) simp
  ultimately show ?thesis by auto
qed

lemma run_stages_run:
  assumes "positive_clock env"
  shows "run lib \<lparr>yOutbox = ob, yDelivering = D\<rparr> \<lparr>yOutbox = snd (run_stages lib env i e ss ob), yDelivering = D\<rparr>"
proof (induction ss arbitrary: ob)
  case (Cons s ss)
  have "snd (run_stages lib env i e (s # ss) ob) = snd (run_stages lib env i e ss (snd (run_stage lib env i e s ob)))"
    by (simp add: case_prod_beta)
  with run_stage_run [OF assms, of lib ob D i e s] Cons.IH [of "snd (run_stage lib env i e s ob)"]
  show ?case by simp
qed simp

lemma deliver_entry_run:
  assumes clock: "positive_clock env" and i: "i \<in> D"
  shows "run lib \<lparr>yOutbox = ob, yDelivering = D\<rparr> \<lparr>yOutbox = snd (deliver_entry lib env i e ob), yDelivering = D\<rparr>"
proof -
  define prep where "prep = (if eStream e \<noteq> None \<and> eCheckpoint e = None
         then (case resolveStageReplier (aRegistry env) (eRoute e) (aPreferred env) of
                 None \<Rightarrow> (Some (no_replier_text (eRoute e)), e, ob)
               | Some r \<Rightarrow> prepareStreamRecovery lib (aWrite env PrepareSection) (aNow env PrepareSection) i e r ob)
         else (None, e, ob))"
  obtain prepErr e1 ob1 where p: "prep = (prepErr, e1, ob1)" by (cases prep)
  obtain errs ob2 where s: "run_stages lib env i e1
      (completion_order (aOrder env) (waitForCheckpoint e1) (started_stages prepErr e1)) ob1 = (errs, ob2)"
    by fastforce
  have "ob1 = snd (snd prep)" by (simp add: p)
  then have "ob1 = ob \<or> (\<exists>w now r. ob1 = snd (snd (prepareStreamRecovery lib w now i e r ob)))"
    by (auto simp: prep_def split: if_splits option.splits)
  then have 1: "run lib \<lparr>yOutbox = ob, yDelivering = D\<rparr> \<lparr>yOutbox = ob1, yDelivering = D\<rparr>"
    using step_prepare [of lib "\<lparr>yOutbox = ob, yDelivering = D\<rparr>"] by (auto intro: r_into_rtranclp)
  have 2: "run lib \<lparr>yOutbox = ob1, yDelivering = D\<rparr> \<lparr>yOutbox = ob2, yDelivering = D\<rparr>"
    using run_stages_run [OF clock, of lib ob1 D i e1] s by (metis snd_conv)
  have now: "0 < aNow env FinishSection" using clock by (simp add: positive_clock_def)
  have eq: "deliver_entry lib env i e ob =
    (let allErrs = (case prepErr of None \<Rightarrow> errs | Some err \<Rightarrow> (CheckpointStage, err) # errs)
      in if allErrs \<noteq> []
         then recordFailure lib (aWrite env FinishSection) (aNow env FinishSection) i (join_errors allErrs) ob2
         else removeDelivered lib (aWrite env FinishSection) (aNow env FinishSection) i ob2)"
    unfolding deliver_entry_def prep_def [symmetric] by (simp add: p s)
  have 3: "run lib \<lparr>yOutbox = ob2, yDelivering = D\<rparr> \<lparr>yOutbox = snd (deliver_entry lib env i e ob), yDelivering = D\<rparr>"
    using step_fail [OF now, of i "\<lparr>yOutbox = ob2, yDelivering = D\<rparr>" lib]
      step_finish [OF now, of lib "\<lparr>yOutbox = ob2, yDelivering = D\<rparr>"] i
    unfolding eq Let_def by (auto intro!: run_lift)
  from 1 2 3 show ?thesis by (meson rtranclp_trans)
qed

lemma attempt_run:
  assumes clock: "positive_clock env" and i: "i \<notin> D"
  shows "run lib \<lparr>yOutbox = ob, yDelivering = D\<rparr> \<lparr>yOutbox = snd (attempt lib env i ob), yDelivering = D\<rparr>"
proof (cases "beginAttempt i ob")
  case None
  then show ?thesis by (simp add: attempt_def)
next
  case (Some a)
  then obtain e ob1 where b: "beginAttempt i ob = Some (e, ob1)" by (cases a) auto
  let ?D = "insert i D"
  let ?w = "aWrite env FinishSection" and ?now = "aNow env FinishSection"
  have now: "0 < ?now" using clock by (simp add: positive_clock_def)
  have D: "?D - {i} = D" using i by simp
  have 1: "run lib \<lparr>yOutbox = ob, yDelivering = D\<rparr> \<lparr>yOutbox = ob1, yDelivering = ?D\<rparr>"
    using step_begin [of i "\<lparr>yOutbox = ob, yDelivering = D\<rparr>" e ob1 lib] b by (simp add: r_into_rtranclp)
  have fin: "run lib \<lparr>yOutbox = x, yDelivering = E\<rparr> \<lparr>yOutbox = endAttempt i x, yDelivering = D\<rparr>"
    if "E - {i} = D" for x E
    using step_end [of lib "\<lparr>yOutbox = x, yDelivering = E\<rparr>" i] that by (simp add: r_into_rtranclp)
  have deferred: "run lib \<lparr>yOutbox = ob1, yDelivering = ?D\<rparr>
      \<lparr>yOutbox = snd (deferDelivery lib ?w ?now i reason ob1), yDelivering = ?D\<rparr>" for reason
    using step_defer [OF now, of lib "\<lparr>yOutbox = ob1, yDelivering = ?D\<rparr>"] by (intro run_lift) simp
  have refuse: "run lib \<lparr>yOutbox = ob1, yDelivering = ?D\<rparr>
      \<lparr>yOutbox = snd (discardReservation lib ?w ?now i ob1), yDelivering = D\<rparr>"
    using step_refuse [of lib "\<lparr>yOutbox = ob1, yDelivering = ?D\<rparr>" ?w ?now i] i by (simp add: r_into_rtranclp)
  have trace: "run lib \<lparr>yOutbox = ob1, yDelivering = ?D\<rparr>
      \<lparr>yOutbox = recordTrace e ''terminal.delivery.attempt'' ''running'' ob1, yDelivering = ?D\<rparr>"
    using step_trace [of lib "\<lparr>yOutbox = ob1, yDelivering = ?D\<rparr>"] by (intro run_lift) simp
  have deliver: "run lib \<lparr>yOutbox = ob1, yDelivering = ?D\<rparr>
      \<lparr>yOutbox = snd (deliver_entry lib env i e (recordTrace e ''terminal.delivery.attempt'' ''running'' ob1)),
       yDelivering = ?D\<rparr>"
    using trace deliver_entry_run [OF clock, of i ?D lib] by (meson insertI1 rtranclp_trans)
  have cases: "snd (attempt lib env i ob) = endAttempt i (snd (deferDelivery lib ?w ?now i (snd (aDecision env e)) ob1)) \<or>
     snd (attempt lib env i ob) = endAttempt i (snd (discardReservation lib ?w ?now i ob1)) \<or>
     snd (attempt lib env i ob) = endAttempt i (snd (deliver_entry lib env i e
        (recordTrace e ''terminal.delivery.attempt'' ''running'' ob1)))"
    by (auto simp: attempt_def b Let_def split: prod.splits option.splits)
  have fin': "D - {i} = D" using i by simp
  from cases show ?thesis
    using rtranclp_trans [OF rtranclp_trans [OF 1 deferred] fin [OF D]]
      rtranclp_trans [OF rtranclp_trans [OF 1 refuse] fin [OF fin']]
      rtranclp_trans [OF rtranclp_trans [OF 1 deliver] fin [OF D]]
    by (elim disjE) simp_all
qed

lemma attemptPending_run:
  assumes clock: "positive_clock env" and i: "i \<notin> D"
  shows "run lib \<lparr>yOutbox = ob, yDelivering = D\<rparr>
    \<lparr>yOutbox = snd (attemptPendingStreamSupersede lib env i pid ob), yDelivering = D\<rparr>"
proof (cases "beginPendingStreamSupersedeAttempt i pid ob")
  case None
  then show ?thesis by (simp add: attemptPendingStreamSupersede_def)
next
  case (Some a)
  then obtain e p ob1 where b: "beginPendingStreamSupersedeAttempt i pid ob = Some (e, p, ob1)" by (cases a) auto
  let ?w = "aWrite env FinishSection" and ?now = "aNow env FinishSection"
  have now: "0 < ?now" using clock by (simp add: positive_clock_def)
  have D: "D - {i} = D" using i by simp
  have 1: "run lib \<lparr>yOutbox = ob, yDelivering = D\<rparr> \<lparr>yOutbox = ob1, yDelivering = D\<rparr>"
    using step_begin_pending [of i pid "\<lparr>yOutbox = ob, yDelivering = D\<rparr>" e p ob1 lib] b
    by (intro run_lift) simp
  have fin: "run lib \<lparr>yOutbox = x, yDelivering = D\<rparr> \<lparr>yOutbox = endAttempt i x, yDelivering = D\<rparr>" for x
    using step_end [of lib "\<lparr>yOutbox = x, yDelivering = D\<rparr>" i] D by (simp add: r_into_rtranclp)
  have failed: "run lib \<lparr>yOutbox = ob1, yDelivering = D\<rparr>
      \<lparr>yOutbox = snd (recordPendingStreamSupersedeFailure lib ?w ?now i pid msg ob1), yDelivering = D\<rparr>" for msg
    using step_fail_pending [of lib "\<lparr>yOutbox = ob1, yDelivering = D\<rparr>"] by (intro run_lift) simp
  have completed: "run lib \<lparr>yOutbox = ob1, yDelivering = D\<rparr>
      \<lparr>yOutbox = snd (completePendingStreamSupersede lib ?w ?now i pid ob1), yDelivering = D\<rparr>"
    using step_complete_pending [OF now, of lib "\<lparr>yOutbox = ob1, yDelivering = D\<rparr>"] by (intro run_lift) simp
  have trace: "run lib \<lparr>yOutbox = x, yDelivering = D\<rparr> \<lparr>yOutbox = recordTrace e a b x, yDelivering = D\<rparr>" for a b x
    using step_trace [of lib "\<lparr>yOutbox = x, yDelivering = D\<rparr>"] by (intro run_lift) simp
  have "(\<exists>msg. snd (attemptPendingStreamSupersede lib env i pid ob) =
      endAttempt i (snd (recordPendingStreamSupersedeFailure lib ?w ?now i pid msg ob1))) \<or>
    snd (attemptPendingStreamSupersede lib env i pid ob) =
      endAttempt i (snd (completePendingStreamSupersede lib ?w ?now i pid ob1)) \<or>
    snd (attemptPendingStreamSupersede lib env i pid ob) =
      endAttempt i (recordTrace e ''task.card_superseded'' ''completed''
        (snd (completePendingStreamSupersede lib ?w ?now i pid ob1)))"
    unfolding attemptPendingStreamSupersede_def b option.case prod.case Let_def
    by (split option.split) (auto simp: case_prod_beta split: option.splits)
  then show ?thesis
    using rtranclp_trans [OF rtranclp_trans [OF 1 failed] fin]
      rtranclp_trans [OF rtranclp_trans [OF 1 completed] fin]
      rtranclp_trans [OF rtranclp_trans [OF rtranclp_trans [OF 1 completed] trace] fin]
    by (elim disjE exE) simp_all
qed

lemma run_pendings_run:
  assumes "\<And>i. positive_clock (envs i)"
  shows "run lib \<lparr>yOutbox = ob, yDelivering = {}\<rparr> \<lparr>yOutbox = run_pendings lib envs ds ob, yDelivering = {}\<rparr>"
proof (induction ds arbitrary: ob)
  case (Cons d ds)
  let ?ob = "snd (attemptPendingStreamSupersede lib (envs (dpPendingID d)) (dpEntryID d) (dpPendingID d) ob)"
  have "run_pendings lib envs (d # ds) ob = run_pendings lib envs ds ?ob"
    by (simp add: run_pendings_def)
  with rtranclp_trans [OF attemptPending_run [OF assms, where D = "{}" and i = "dpEntryID d"] Cons.IH [of ?ob]]
  show ?case by simp
qed (simp add: run_pendings_def)

lemma run_entries_run:
  assumes "\<And>i. positive_clock (envs i)"
  shows "run lib \<lparr>yOutbox = ob, yDelivering = {}\<rparr> \<lparr>yOutbox = run_entries lib envs ids ob, yDelivering = {}\<rparr>"
proof (induction ids arbitrary: ob)
  case (Cons i ids)
  let ?ob = "snd (attempt lib (envs i) i ob)"
  have "run_entries lib envs (i # ids) ob = run_entries lib envs ids ?ob"
    by (simp add: run_entries_def)
  with rtranclp_trans [OF attempt_run [OF assms, where D = "{}" and i = i] Cons.IH [of ?ob]]
  show ?case by simp
qed (simp add: run_entries_def)

lemma run_round_run:
  assumes "\<And>i. positive_clock (envs i)"
  shows "run lib \<lparr>yOutbox = ob, yDelivering = {}\<rparr>
    \<lparr>yOutbox = snd (run_round lib envs now1 now2 now3 ob), yDelivering = {}\<rparr>"
  unfolding run_round_def Let_def snd_conv
  by (rule rtranclp_trans [OF run_pendings_run run_entries_run]) (rule assms)+

lemma reach_run: "reach init stp x \<Longrightarrow> rtranclp stp x y \<Longrightarrow> reach init stp y"
  by (rotate_tac, induction rule: rtranclp_induct) (auto intro: reach_step)

end
