(* ===== verification/Outbox_Demo.thy ===== *)
theory Outbox_Demo
  imports Outbox_System
begin

section \<open>Concrete values\<close>

text \<open>
  A library, a system whose calls all succeed, drafts and outboxes on which the definitions are
  evaluated: a valid text delivery to a Feishu chat, a reservation of a progress card, a replier
  that accepts and one that refuses everything.
\<close>

definition demo_lib :: outbox_lib where
  "demo_lib = \<lparr>uuid_parse = (\<lambda>s. s \<noteq> []), raw_message = (\<lambda>p. p), io_text = (\<lambda>_. ''io'')\<rparr>"

definition all_ok :: write_env where
  "all_ok = \<lparr>wMkdir = True, wChmodDir = True, wLstat = True, wMarshal = True, wCreateTemp = True,
     wChmodTemp = True, wWrite = True, wSync = True, wClose = True, wRename = True, wSyncDir = True\<rparr>"

definition disk_full :: write_env where
  "disk_full = all_ok\<lparr>wWrite := False\<rparr>"

definition demo_route :: deliveryRoute where
  "demo_route = \<lparr>rPlatform = ''feishu'', rAccountID = ''a'', rChatID = ''c'', rReplyToID = []\<rparr>"

definition no_trace :: traceContext where
  "no_trace = \<lparr>tTraceID = [], tSpanID = [], tParentSpanID = [], tPlatform = [], tAccountID = [],
     tChatID = [], tMessageID = [], tClientID = [], tRouteKey = [], tAgentName = [], tTaskID = [],
     tConversationID = [], tSessionID = [], tThreadID = [], tTurnID = [], tCardID = [], tReplyID = []\<rparr>"

definition demo_draft :: "string \<Rightarrow> string \<Rightarrow> terminalOutboxDraft" where
  "demo_draft i text = \<lparr>dReplaySelectionID = [], dReplayTurnID = [], dID = i, dRoute = demo_route,
     dAgentName = ''codex'', dAuthorizedIdentity = [], dFollowerBindingKey = [], dFollowerRevision = 0,
     dFollowerThreadID = [], dFailed = False, dStopped = False, dStream = None, dCheckpoint = None,
     dResultTitle = [], dRichResult = False, dText = text, dNotification = [], dIdempotencyKey = [],
     dTrace = no_trace, dActiveStreamRecovery = False\<rparr>"

definition demo_reference :: durableStreamReference where
  "demo_reference = \<lparr>cKind = ''card'', cPayload = ''{}''\<rparr>"

definition card_draft :: "string \<Rightarrow> terminalOutboxDraft" where
  "card_draft i = (demo_draft i [])\<lparr>dStream := Some demo_reference, dActiveStreamRecovery := True\<rparr>"

definition demo_pending :: "string \<Rightarrow> pendingStreamSupersede" where
  "demo_pending i = \<lparr>pID = i, pRoute = demo_route, pCheckpoint = demo_reference, pAttempts = 0,
     pNextAttempt = 0, pLastError = [], pDeadLetter = False, pDeadLetterAt = 0\<rparr>"

definition empty_fs :: outbox_fs where
  "empty_fs = \<lparr>fsNode = Absent, fsTmp = Absent\<rparr>"

definition fresh_outbox :: terminalOutbox where
  "fresh_outbox = projr (newTerminalOutbox demo_lib True True empty_fs)"

definition demo_outbox :: terminalOutbox where
  "demo_outbox = snd (enqueue demo_lib all_ok 5 ''n'' (demo_draft ''e1'' ''hello'') fresh_outbox)"

definition accepting :: replier where
  "accepting = \<lparr>rpRoute = None, rpDeliverTerminal = Some (\<lambda>_ _. (None, 1)), rpSendText = Some (\<lambda>_ _ _. None),
     rpSendResult = None, rpPrepareState = None, rpPrepare = Some (\<lambda>r _ _. Inr r), rpDeliverSupersede = Some (\<lambda>_ _. None)\<rparr>"

definition refusing :: replier where
  "refusing = \<lparr>rpRoute = None, rpDeliverTerminal = Some (\<lambda>_ _. (Some (SendError ''no''), 1)),
     rpSendText = Some (\<lambda>_ _ _. Some (SendError ''no'')), rpSendResult = None, rpPrepareState = None,
     rpPrepare = None, rpDeliverSupersede = Some (\<lambda>_ _. Some (SendError ''no''))\<rparr>"

definition demo_env :: "replier \<Rightarrow> instant \<Rightarrow> attempt_env" where
  "demo_env r now = \<lparr>aDecision = (\<lambda>_. (True, [])), aRegistry = (\<lambda>_. Some r), aPreferred = None,
     aReplayDelivered = None, aOrder = [], aWrite = (\<lambda>_. all_ok), aNow = (\<lambda>_. now)\<rparr>"

lemma pred_option_code [code]: "pred_option P None = True" "pred_option P (Some x) = P x"
  by simp_all

lemma demo_laws: "raw_laws demo_lib"
  by (auto simp: raw_laws_def demo_lib_def)

lemma demo_eval: "map eID (oEntries demo_outbox) = [''e1'']"
  by code_simp

lemma demo_eval2: "oEntries (snd (attempt demo_lib (demo_env accepting 9) ''e1'' demo_outbox)) = []"
  by code_simp

lemma demo_eval3: "map eAttempts (oEntries (snd (attempt demo_lib (demo_env refusing 9) ''e1'' demo_outbox))) = [1]"
  by code_simp

end
