(* ===== verification/Outbox_Schedule.thy ===== *)
theory Outbox_Schedule
  imports Outbox_Demo
begin

section \<open>The worker's schedule, its retries and its claims\<close>

text \<open>
  What the delivery half of \<open>messaging/terminal_outbox.go\<close> promises about time: the delay the
  worker sleeps agrees with what is due, what is due can be begun, the backoff doubles up to a
  bound, failures end in a dead letter after the attempt limit, and an id is worked on by one
  goroutine at a time.
\<close>

subsection \<open>The sleep of the worker and what is due\<close>

definition pending_times :: "terminalOutbox \<Rightarrow> terminalOutboxEntry \<Rightarrow> instant list" where
  "pending_times ob e =
     (if eID e \<notin> oProcessing ob \<and> eID e \<notin> oStartupHeld ob
      then map pNextAttempt (filter (\<lambda>p. \<not> pDeadLetter p) (ePendingSupersedes e)) else [])"

definition entry_times :: "terminalOutbox \<Rightarrow> terminalOutboxEntry \<Rightarrow> instant list" where
  "entry_times ob e =
     (if terminalEntryHasWork e \<and> \<not> eDeadLetter e \<and> eID e \<notin> oPreparing ob \<and> eID e \<notin> oProcessing ob
      then [eNextAttempt e] else [])"

definition wake_times :: "terminalOutbox \<Rightarrow> instant list" where
  "wake_times ob = concat (map (\<lambda>e. pending_times ob e @ entry_times ob e) (oEntries ob))"

lemma foldl_earlier_filter:
  "foldl (\<lambda>n p. if P p then earlier n (f p) else n) a xs = foldl earlier a (map f (filter P xs))"
  by (induction xs arbitrary: a) auto

lemma next_of_entry_eq: "next_of_entry ob a e = foldl earlier a (pending_times ob e @ entry_times ob e)"
  by (simp add: next_of_entry_def pending_times_def entry_times_def foldl_earlier_filter Let_def)

lemma foldl_next_of_entry: "foldl (next_of_entry ob) a es =
   foldl earlier a (concat (map (\<lambda>e. pending_times ob e @ entry_times ob e) es))"
  by (induction es arbitrary: a) (simp_all add: next_of_entry_eq)

lemma foldl_earlier_Min:
  "0 \<notin> set ts \<Longrightarrow> a \<noteq> 0 \<Longrightarrow> foldl earlier a ts = Min (insert a (set ts))"
proof (induction ts arbitrary: a)
  case (Cons t ts)
  have "earlier a t = min a t" using Cons.prems by (auto simp: earlier_def)
  with Cons show ?case by (cases "ts = []") (auto simp: insert_commute min_def split: if_splits)
qed simp

lemma foldl_earlier_0:
  "0 \<notin> set ts \<Longrightarrow> foldl earlier 0 ts = (if ts = [] then 0 else Min (set ts))"
  by (cases ts) (auto simp: earlier_def foldl_earlier_Min)

lemma wake_times_nz:
  assumes "wf_entries u (oEntries ob)"
  shows "0 \<notin> set (wake_times ob)"
proof -
  have "eNextAttempt e \<noteq> 0 \<and> (\<forall>p \<in> set (ePendingSupersedes e). pNextAttempt p \<noteq> 0)" if "e \<in> set (oEntries ob)" for e
    using assms that
    by (auto simp: wf_entries_def list_all_iff entry_ok_def validate_None_iff validatePendingStreamSupersede_def
        split: if_splits)
  then show ?thesis
    by (auto simp: wake_times_def pending_times_def entry_times_def split: if_splits)
qed

lemma nextAttemptDelay_eq:
  assumes "wf_entries u (oEntries ob)"
  shows "nextAttemptDelay now ob =
    (if wake_times ob = [] then (0, False)
     else if Min (set (wake_times ob)) \<le> now then (0, True)
     else (Min (set (wake_times ob)) - now, True))"
proof -
  let ?n = "foldl (next_of_entry ob) 0 (oEntries ob)"
  have n: "?n = (if wake_times ob = [] then 0 else Min (set (wake_times ob)))"
    using foldl_earlier_0 [OF wake_times_nz [OF assms]]
    by (simp only: foldl_next_of_entry wake_times_def [symmetric])
  have "Min (set (wake_times ob)) \<noteq> 0" if "wake_times ob \<noteq> []"
  proof -
    have "Min (set (wake_times ob)) \<in> set (wake_times ob)" using that by (intro Min_in) auto
    with wake_times_nz [OF assms] show ?thesis by metis
  qed
  moreover define m where "m = Min (set (wake_times ob))"
  ultimately show ?thesis
    using n unfolding nextAttemptDelay_def Let_def m_def [symmetric] by (simp add: not_less)
qed

lemma due_iff_wake:
  "dueIDs now ob \<noteq> [] \<or> duePendingStreamSupersedes now ob \<noteq> [] \<longleftrightarrow> (\<exists>t \<in> set (wake_times ob). t \<le> now)"
proof -
  have sort: "sort_key f xs = [] \<longleftrightarrow> xs = []" for f :: "'z \<Rightarrow> 'b::linorder" and xs
    using length_sort [of f xs] by (metis length_0_conv)
  have sort2: "sort_key f xs = [] \<longleftrightarrow> xs = []" for f :: "duePendingStreamSupersede \<Rightarrow> 'b::linorder" and xs
    using length_sort [of f xs] by (metis length_0_conv)
  have "dueIDs now ob \<noteq> [] \<longleftrightarrow> (\<exists>e \<in> set (oEntries ob). due_entry ob now e)"
    by (simp add: dueIDs_def sort filter_empty_conv)
  also have "\<dots> \<longleftrightarrow> (\<exists>e \<in> set (oEntries ob). \<exists>t \<in> set (entry_times ob e). t \<le> now)"
    by (auto simp: due_entry_def entry_times_def)
  finally have 1: "dueIDs now ob \<noteq> [] \<longleftrightarrow> (\<exists>e \<in> set (oEntries ob). \<exists>t \<in> set (entry_times ob e). t \<le> now)" .
  have "duePendingStreamSupersedes now ob \<noteq> [] \<longleftrightarrow> (\<exists>e \<in> set (oEntries ob). due_pending_of ob now e \<noteq> [])"
    by (simp add: duePendingStreamSupersedes_def sort2)
  also have "\<dots> \<longleftrightarrow> (\<exists>e \<in> set (oEntries ob). \<exists>t \<in> set (pending_times ob e). t \<le> now)"
    by (auto simp: due_pending_of_def pending_times_def filter_empty_conv not_less)
  finally have 2: "duePendingStreamSupersedes now ob \<noteq> [] \<longleftrightarrow>
    (\<exists>e \<in> set (oEntries ob). \<exists>t \<in> set (pending_times ob e). t \<le> now)" .
  show ?thesis unfolding 1 2 by (auto simp: wake_times_def)
qed

definition due_now :: "terminalOutbox \<Rightarrow> instant \<Rightarrow> bool" where
  "due_now ob t \<longleftrightarrow> dueIDs t ob \<noteq> [] \<or> duePendingStreamSupersedes t ob \<noteq> []"

text \<open>
  C5: the worker neither oversleeps nor spins. With valid entries, the delay it computes is zero
  exactly when something is due now; when it is positive, nothing becomes due before it has passed and
  something is due when it has; and when the worker waits for a signal only, nothing is due at
  any time, unless the state changes.
\<close>

theorem worker_schedule_exact:
  assumes wf: "wf_entries u (oEntries ob)"
  shows "((nextAttemptDelay now ob = (0, True)) = due_now ob now) \<and>
    (\<forall>d. nextAttemptDelay now ob = (d, True) \<and> 0 < d \<longrightarrow>
      due_now ob (now + d) \<and> (\<forall>t. t < now + d \<longrightarrow> \<not> due_now ob t)) \<and>
    (\<not> snd (nextAttemptDelay now ob) \<longrightarrow> (\<forall>t. \<not> due_now ob t))"
proof (intro conjI allI impI)
  let ?S = "set (wake_times ob)"
  have fin: "?S \<noteq> {} \<Longrightarrow> Min ?S \<in> ?S" by (intro Min_in) auto
  have le: "t \<in> ?S \<Longrightarrow> Min ?S \<le> t" for t by (intro Min_le) auto
  have due: "due_now ob x \<longleftrightarrow> (\<exists>t \<in> ?S. t \<le> x)" for x
    unfolding due_now_def by (rule due_iff_wake)
  have due_Min: "due_now ob x \<longleftrightarrow> ?S \<noteq> {} \<and> Min ?S \<le> x" for x
    unfolding due using fin le by (metis empty_iff order_trans)
  show "(nextAttemptDelay now ob = (0, True)) = due_now ob now"
    by (auto simp: nextAttemptDelay_eq [OF wf] due_Min)
  show "due_now ob (now + d)" if "nextAttemptDelay now ob = (d, True) \<and> 0 < d" for d
    using that by (auto simp: nextAttemptDelay_eq [OF wf] due_Min split: if_splits)
  show "\<not> due_now ob t" if "nextAttemptDelay now ob = (d, True) \<and> 0 < d" "t < now + d" for d t
    using that by (auto simp: nextAttemptDelay_eq [OF wf] due_Min split: if_splits)
  show "\<not> due_now ob t" if "\<not> snd (nextAttemptDelay now ob)" for t
    using that by (auto simp: nextAttemptDelay_eq [OF wf] due split: if_splits)
qed

lemma demo_wf: "wf_entries (uuid_parse demo_lib) (oEntries demo_outbox)"
  by code_simp

theorem worker_schedule_exact_witness:
  "nextAttemptDelay 3 demo_outbox = (2, True) \<and> due_now demo_outbox 5 \<and> \<not> due_now demo_outbox 4"
proof -
  have "nextAttemptDelay 3 demo_outbox = (2, True)" by code_simp
  with worker_schedule_exact [OF demo_wf, of 3] show ?thesis by force
qed

subsection \<open>What is due can be begun\<close>

lemma wf_distinct_ids:
  assumes "wf_entries u es"
  shows "distinct (map eID es)"
proof -
  have "distinct (all_ids es) \<Longrightarrow> distinct (map eID es)"
    by (induction es) (auto simp: in_all_ids)
  with assms show ?thesis by (simp add: wf_entries_def)
qed

lemma entryLocked_member:
  assumes "wf_entries u (oEntries ob)" "e \<in> set (oEntries ob)"
  shows "entryLocked (eID e) ob = Some e"
proof (cases "entryLocked (eID e) ob")
  case None
  with assms(2) show ?thesis by (auto simp: entryLocked_def find_None_iff)
next
  case (Some x)
  with entryLocked_SomeD [OF Some] assms wf_distinct_ids show ?thesis
    by (metis eq_key_imp_eq_value image_eqI inj_on_eq_iff distinct_map)
qed

lemma set_dueIDs: "i \<in> set (dueIDs now ob) \<longleftrightarrow> (\<exists>e \<in> set (oEntries ob). eID e = i \<and> due_entry ob now e)"
  by (auto simp: dueIDs_def)

text \<open>
  An id is offered to the worker exactly when its entry has work left, is no dead letter, is
  neither reserved nor being worked on and its time has come; the ids come in the order of their next
  attempt, and an attempt on each of them begins, claiming the id.
\<close>

theorem due_entries_begin:
  assumes wf: "wf_entries u (oEntries ob)"
  shows "sorted (map (\<lambda>i. eNextAttempt (the (entryLocked i ob))) (dueIDs now ob)) \<and>
    (i \<in> set (dueIDs now ob)) =
      (case entryLocked i ob of
         None \<Rightarrow> False
       | Some e \<Rightarrow> terminalEntryHasWork e \<and> \<not> eDeadLetter e \<and> i \<notin> oPreparing ob \<and> i \<notin> oProcessing ob \<and>
           eNextAttempt e \<le> now \<and>
           beginAttempt i ob = Some (e, ob\<lparr>oProcessing := insert i (oProcessing ob)\<rparr>))"
proof
  let ?es = "sort_key (\<lambda>e. (eNextAttempt e, eCreatedAt e, eID e)) (filter (due_entry ob now) (oEntries ob))"
  have "map (\<lambda>i. eNextAttempt (the (entryLocked i ob))) (dueIDs now ob) = map eNextAttempt ?es"
    using entryLocked_member [OF wf] by (auto simp: dueIDs_def)
  moreover have "sorted (map (\<lambda>e. (eNextAttempt e, eCreatedAt e, eID e)) ?es)" by (rule sorted_sort_key)
  then have "sorted (map eNextAttempt ?es)"
    by (auto simp: sorted_map less_eq_prod_def elim: sorted_wrt_mono_rel [rotated])
  ultimately show "sorted (map (\<lambda>i. eNextAttempt (the (entryLocked i ob))) (dueIDs now ob))" by simp
next
  have "i \<in> set (dueIDs now ob) \<longleftrightarrow> (\<exists>e. entryLocked i ob = Some e \<and> due_entry ob now e)"
    using entryLocked_member [OF wf] by (auto simp: set_dueIDs dest: entryLocked_SomeD)
  then show "(i \<in> set (dueIDs now ob)) =
      (case entryLocked i ob of
         None \<Rightarrow> False
       | Some e \<Rightarrow> terminalEntryHasWork e \<and> \<not> eDeadLetter e \<and> i \<notin> oPreparing ob \<and> i \<notin> oProcessing ob \<and>
           eNextAttempt e \<le> now \<and>
           beginAttempt i ob = Some (e, ob\<lparr>oProcessing := insert i (oProcessing ob)\<rparr>))"
    by (auto simp: due_entry_def beginAttempt_def dest: entryLocked_SomeD split: option.splits)
qed

subsection \<open>One goroutine at a time\<close>

definition processing_holder :: "terminalOutbox \<Rightarrow> string \<Rightarrow> unit option" where
  "processing_holder ob i = (if i \<in> oProcessing ob then Some () else None)"

definition processing_acquire :: "string \<Rightarrow> unit \<Rightarrow> terminalOutbox \<Rightarrow> terminalOutbox option" where
  "processing_acquire i w ob = map_option snd (beginAttempt i ob)"

definition processing_release :: "string \<Rightarrow> unit \<Rightarrow> terminalOutbox \<Rightarrow> terminalOutbox" where
  "processing_release i w ob = endAttempt i ob"

interpretation processing: claim_table processing_holder processing_acquire processing_release
  by unfold_locales
     (auto simp: processing_holder_def processing_acquire_def processing_release_def beginAttempt_def
       endAttempt_def signal_def fun_eq_iff split: if_splits option.splits)

lemma begin_holder: "beginAttempt i ob = Some (e, ob') \<Longrightarrow> processing_acquire i () ob = Some ob'"
  by (simp add: processing_acquire_def)

text \<open>
  While an attempt on an id is under way, no second attempt, no card operation and no
  re-anchoring of the same id can begin, nothing of it is scheduled, and ending the attempt gives the
  id free again.
\<close>

theorem attempt_exclusive:
  assumes b: "beginAttempt i ob = Some (e, ob')"
  shows "beginAttempt i ob' = None \<and> beginPendingStreamSupersedeAttempt i pid ob' = None \<and>
    fst (beginStreamReanchor i ob') = Some Busy \<and>
    i \<notin> set (dueIDs now ob') \<and> i \<notin> dpEntryID ` set (duePendingStreamSupersedes now ob') \<and>
    oProcessing (endAttempt i ob') = oProcessing ob"
proof -
  have ob': "ob' = ob\<lparr>oProcessing := insert i (oProcessing ob)\<rparr>" and e: "entryLocked i ob = Some e"
    and free: "i \<notin> oProcessing ob"
    using b by (auto simp: beginAttempt_def split: if_splits option.splits)
  have "beginAttempt i ob' = None"
    using processing.acquire_twice [OF begin_holder [OF b]] by (simp add: processing_acquire_def)
  moreover have "oProcessing (endAttempt i ob') = oProcessing ob"
    using free by (simp add: ob' endAttempt_def signal_def)
  ultimately show ?thesis
    using e by (auto simp: ob' beginPendingStreamSupersedeAttempt_def beginStreamReanchor_def set_dueIDs
        due_entry_def duePendingStreamSupersedes_def due_pending_of_def split: if_splits)
qed

subsection \<open>Backoff and dead letters\<close>

lemma backoff_loop_min:
  "0 < d \<Longrightarrow> min (backoff_loop k n d) terminalOutboxRetryMax = min (d * 2 ^ nat (n - k)) terminalOutboxRetryMax"
proof (induction k n d rule: backoff_loop.induct)
  case (1 k n d)
  show ?case
  proof (cases "k < n \<and> d < terminalOutboxRetryMax")
    case True
    then have "nat (n - k) = Suc (nat (n - (k + 1)))" by arith
    with True 1 show ?thesis by (simp add: backoff_loop.simps [of k n d] mult.assoc)
  next
    case False
    moreover have "d \<le> d * 2 ^ nat (n - k)" using "1.prems" by simp
    ultimately show ?thesis by (auto simp: backoff_loop.simps [of k n d] min_def)
  qed
qed

text \<open>
  The delay after the n-th failure is two seconds doubled n-1 times and never more than one
  minute; it never shrinks with n, and is never shorter than two seconds.
\<close>

theorem backoff_formula:
  "terminalOutboxBackoff n = min (terminalOutboxRetryMin * 2 ^ nat (n - 1)) terminalOutboxRetryMax \<and>
   terminalOutboxRetryMin \<le> terminalOutboxBackoff n \<and> terminalOutboxBackoff n \<le> terminalOutboxRetryMax \<and>
   terminalOutboxBackoff n \<le> terminalOutboxBackoff (n + 1)"
proof -
  have pos: "0 < terminalOutboxRetryMin" "terminalOutboxRetryMin \<le> terminalOutboxRetryMax"
    by (simp_all add: terminalOutboxRetryMin_def terminalOutboxRetryMax_def second_def minute_def)
  have eq: "terminalOutboxBackoff m = min (terminalOutboxRetryMin * 2 ^ nat (m - 1)) terminalOutboxRetryMax" for m
  proof (cases "m \<le> 1")
    case True
    with pos show ?thesis by (simp add: terminalOutboxBackoff_def)
  next
    case False
    then have "terminalOutboxBackoff m = min (backoff_loop 1 m terminalOutboxRetryMin) terminalOutboxRetryMax"
      by (auto simp: terminalOutboxBackoff_def Let_def min_def)
    with backoff_loop_min [OF pos(1)] show ?thesis by simp
  qed
  have "terminalOutboxRetryMin \<le> terminalOutboxRetryMin * 2 ^ nat (n - 1)" using pos by simp
  moreover have "(2::int) ^ nat (n - 1) \<le> 2 ^ nat (n + 1 - 1)" by (rule power_increasing) auto
  then have "terminalOutboxRetryMin * 2 ^ nat (n - 1) \<le> terminalOutboxRetryMin * 2 ^ nat (n + 1 - 1)"
    using pos by (intro mult_left_mono) auto
  then have "min (terminalOutboxRetryMin * 2 ^ nat (n - 1)) terminalOutboxRetryMax
      \<le> min (terminalOutboxRetryMin * 2 ^ nat (n + 1 - 1)) terminalOutboxRetryMax"
    by (rule min.mono) simp
  ultimately show ?thesis
    using pos unfolding eq by (simp only: min.bounded_iff min.cobounded2)
qed

lemma entryLocked_set_entry:
  assumes "entryLocked i ob = Some e" "eID e' = i" "oEntries ob' = set_entry e' (oEntries ob)"
  shows "entryLocked i ob' = Some e'"
proof -
  obtain ys zs where es: "oEntries ob = ys @ e # zs" and u: "\<And>f. upd_first (\<lambda>x. eID x = i) f (oEntries ob) = ys @ f e # zs"
    using upd_first_split [OF assms(1) [unfolded entryLocked_def]] by metis
  have "find (\<lambda>x. eID x = i) (upd_first (\<lambda>x. eID x = i) (\<lambda>_. e') xs) = Some e'"
    if "find (\<lambda>x. eID x = i) xs = Some e" for xs
    using that assms(2) by (induction xs) (auto split: if_splits)
  with assms show ?thesis by (simp add: entryLocked_def set_entry_def)
qed

lemma persist_ok_entries:
  "persist_entries lib w es ob = (None, ob') \<Longrightarrow>
   oEntries ob' = es \<and> oProcessing ob' = oProcessing ob \<and> oPreparing ob' = oPreparing ob \<and>
   oMaxAttempts ob' = oMaxAttempts ob"
  by (erule persist_ok) simp

lemma recordTrace_sel [simp]:
  "oEntries (recordTrace e a b ob) = oEntries ob" "oPreparing (recordTrace e a b ob) = oPreparing ob"
  "oProcessing (recordTrace e a b ob) = oProcessing ob" "oFS (recordTrace e a b ob) = oFS ob"
  by (simp_all add: recordTrace_def split: option.splits)

lemma recordFailure_entry:
  assumes e: "entryLocked i ob = Some e"
    and p: "persist_entries lib w (set_entry (failed_entry ob now err e) (oEntries ob)) ob = (None, ob1)"
  shows "entryLocked i (snd (recordFailure lib w now i err ob)) = Some (failed_entry ob now err e) \<and>
    fst (recordFailure lib w now i err ob) = Some err"
proof -
  have "entryLocked i ob1 = Some (failed_entry ob now err e)"
    using entryLocked_set_entry [OF e] persist_ok_entries [OF p] failed_entry_sel(1) [of ob now err e]
      entryLocked_SomeD [OF e] by simp
  with e p show ?thesis by (simp add: recordFailure_def Let_def)
qed

text \<open>
  When the failure of an attempt has been recorded, the entry has one attempt more; below
  the limit it is not due again before the backoff has passed, at the limit it is a dead letter, on
  which no attempt begins.
\<close>

theorem failure_backs_off:
  assumes wf: "wf_entries u (oEntries ob)" and e: "entryLocked i ob = Some e"
    and w: "persist_entries lib w (set_entry (failed_entry ob now err e) (oEntries ob)) ob = (None, ob1)"
  shows "\<exists>e'. entryLocked i (snd (recordFailure lib w now i err ob)) = Some e' \<and> eAttempts e' = eAttempts e + 1 \<and>
    (if attemptLimit ob \<le> eAttempts e + 1
     then eDeadLetter e' \<and> beginAttempt i (snd (recordFailure lib w now i err ob)) = None
     else \<forall>t < now + terminalOutboxBackoff (eAttempts e + 1).
            i \<notin> set (dueIDs t (snd (recordFailure lib w now i err ob))))"
proof -
  let ?ob = "snd (recordFailure lib w now i err ob)" and ?e = "failed_entry ob now err e"
  have l: "entryLocked i ?ob = Some ?e" using recordFailure_entry [OF e w] by simp
  have ent: "oEntries ?ob = set_entry ?e (oEntries ob)"
    using e w persist_ok_entries [OF w] by (simp add: recordFailure_def Let_def)
  have ids: "map eID (oEntries ?ob) = map eID (oEntries ob)"
  proof -
    have "map eID (upd_first (\<lambda>x. eID x = i) (\<lambda>_. ?e) xs) = map eID xs" for xs
      using failed_entry_sel(1) [of ob now err e] entryLocked_SomeD [OF e] by (induction xs) auto
    then show ?thesis
      using failed_entry_sel(1) [of ob now err e] entryLocked_SomeD [OF e] by (simp add: ent set_entry_def)
  qed
  have uniq: "x = ?e" if "x \<in> set (oEntries ?ob)" "eID x = i" for x
  proof -
    have "inj_on eID (set (oEntries ?ob))" using wf_distinct_ids [OF wf] ids by (metis distinct_map)
    with that entryLocked_SomeD [OF l] show ?thesis by (auto dest: inj_onD)
  qed
  have late: "i \<notin> set (dueIDs t ?ob)"
    if "\<not> attemptLimit ob \<le> eAttempts e + 1" "t < now + terminalOutboxBackoff (eAttempts e + 1)" for t
  proof
    assume "i \<in> set (dueIDs t ?ob)"
    then have "due_entry ?ob t ?e" using uniq by (auto simp: set_dueIDs)
    with that show False by (simp add: due_entry_def failed_entry_def Let_def)
  qed
  have dead: "eDeadLetter ?e" if "attemptLimit ob \<le> eAttempts e + 1"
    using that by (simp add: failed_entry_def Let_def)
  show ?thesis
  proof (intro exI conjI)
    show "entryLocked i ?ob = Some ?e" by (rule l)
    show "eAttempts ?e = eAttempts e + 1" by (simp add: failed_entry_def Let_def)
    show "if attemptLimit ob \<le> eAttempts e + 1 then eDeadLetter ?e \<and> beginAttempt i ?ob = None
       else \<forall>t < now + terminalOutboxBackoff (eAttempts e + 1). i \<notin> set (dueIDs t ?ob)"
      using l dead late by (simp add: beginAttempt_def)
  qed
qed

theorem failure_backs_off_witness:
  "\<exists>e'. entryLocked ''e1'' (snd (recordFailure demo_lib all_ok 9 ''e1'' ''no'' demo_outbox)) = Some e' \<and>
     eAttempts e' = 1 \<and> (\<forall>t < 9 + terminalOutboxBackoff 1.
        ''e1'' \<notin> set (dueIDs t (snd (recordFailure demo_lib all_ok 9 ''e1'' ''no'' demo_outbox))))"
proof -
  let ?e = "hd (oEntries demo_outbox)"
  have e: "entryLocked ''e1'' demo_outbox = Some ?e" by code_simp
  have a: "eAttempts ?e = 0" "attemptLimit demo_outbox = 12" by code_simp+
  have "fst (persist_entries demo_lib all_ok (set_entry (failed_entry demo_outbox 9 ''no'' ?e) (oEntries demo_outbox))
     demo_outbox) = None" by code_simp
  then obtain ob1 where "persist_entries demo_lib all_ok (set_entry (failed_entry demo_outbox 9 ''no'' ?e)
     (oEntries demo_outbox)) demo_outbox = (None, ob1)" by (metis prod.collapse)
  from failure_backs_off [OF demo_wf e this] a show ?thesis by simp
qed



end
