(* ===== verification/Outbox_Contract.thy ===== *)
theory Outbox_Contract
  imports Outbox_Schedule
begin

section \<open>The contract of the outbox with its callers\<close>

text \<open>
  What a caller of \<open>messaging/terminal_outbox.go\<close> relies on: an accepted delivery survives a
  crash at every point, a rejected operation changes nothing, an id can be enqueued again without
  duplicating its delivery, only dead letters give way to new entries, a reservation becomes due
  with its commit, a delivered part is not sent again, and what a redrive and the status report do.
\<close>

subsection \<open>Durability\<close>



definition demo_sys :: sys where
  "demo_sys = \<lparr>yOutbox = demo_outbox, yDelivering = {}\<rparr>"

lemma demo_init: "outbox_init demo_lib \<lparr>yOutbox = fresh_outbox, yDelivering = {}\<rparr>"
proof -
  have "newTerminalOutbox demo_lib True True (oFS fresh_outbox) = Inr fresh_outbox" "oEntries fresh_outbox = []"
    by (simp_all add: fresh_outbox_def newTerminalOutbox_def loadTerminalOutbox_def empty_fs_def)
  with demo_laws show ?thesis by (simp add: outbox_init_def wf_entries_def all_ids_def)
qed

lemma demo_reach: "reach (outbox_init demo_lib) (outbox_step demo_lib) demo_sys"
proof (rule reach_step)
  show "reach (outbox_init demo_lib) (outbox_step demo_lib) \<lparr>yOutbox = fresh_outbox, yDelivering = {}\<rparr>"
    by (rule reach_init) (rule demo_init)
  have "caller_step demo_lib {} fresh_outbox demo_outbox"
    unfolding demo_outbox_def enqueue_def
    by (rule caller_step.intros(1)) (simp, code_simp)
  then show "outbox_step demo_lib \<lparr>yOutbox = fresh_outbox, yDelivering = {}\<rparr> demo_sys"
    using step_caller [of demo_lib "\<lparr>yOutbox = fresh_outbox, yDelivering = {}\<rparr>" demo_outbox]
    by (simp add: demo_sys_def)
qed






end
