(* ===== verification/Outbox_Callers.thy ===== *)
theory Outbox_Callers
  imports Outbox_Contract
begin

section \<open>What the callers of the outbox rely on\<close>

text \<open>
  Errors leave everything as it was, enqueueing is idempotent under an explicit id, eviction
  takes only the oldest dead letter nobody works on, a commit makes a reservation due, delivered
  parts are not sent again, an entry is only removed after its parts were accepted, and what a
  redrive and the status report do.
\<close>

subsection \<open>A rejected operation changes nothing durable\<close>

definition unchanged :: "terminalOutbox \<Rightarrow> terminalOutbox \<Rightarrow> bool" where
  "unchanged ob ob' \<longleftrightarrow> oEntries ob' = oEntries ob \<and> fsNode (oFS ob') = fsNode (oFS ob)"

lemma unchanged_simps [simp]:
  "unchanged ob ob" "unchanged x (signal ob) = unchanged x ob" "unchanged x (ob\<lparr>oPreparing := P\<rparr>) = unchanged x ob"
  "unchanged x (recordTrace e a b ob) = unchanged x ob" "unchanged x (releaseReservation i ob) = unchanged x ob"
  by (simp_all add: unchanged_def signal_def releaseReservation_def)

lemma persist_err_unchanged: "persist_entries lib w es ob = (Some err, ob') \<Longrightarrow> unchanged ob ob'"
  by (erule persist_fail) (simp add: unchanged_def)

lemma edit_entry_err: "edit_entry lib w e ob = (Some err, ob') \<Longrightarrow> unchanged ob ob'"
  by (auto simp: edit_entry_def dest: persist_err_unchanged split: option.splits prod.splits)

lemma append_entry_err:
  assumes "append_entry lib w preparing ev entry ob = (Inl err, ob')"
    and "ev = None \<or> ev = oldestEvictableDeadLetterLocked ob"
  shows "unchanged ob ob'"
  using assms(1) unfolding append_entry_eq [OF assms(2)]
  by (auto dest: persist_err_unchanged split: prod.splits option.splits)

lemma enqueue_err: "enqueueWithState lib w now newID d preparing ob = (Inl err, ob') \<Longrightarrow> unchanged ob ob'"
  by (auto simp: enqueueWithState_def reuse_entry_def Let_def
      dest: persist_err_unchanged append_entry_err split: if_splits option.splits prod.splits)

text \<open>
  C7: an operation that reports an error, from the validation or from any system call of the
  write, leaves the entries and the state file as they were: enqueue and reserve, stage, commit,
  discard, the refreshes, re-anchoring, detaching and redriving. A full outbox in which the write of
  an eviction fails has the evicted entry back at its place.
\<close>

theorem rejected_operation_changes_nothing:
  "(enqueueWithState lib w now newID d preparing ob = (Inl err, ob') \<longrightarrow> unchanged ob ob') \<and>
   (stageReservationResult lib w now i d ob = (Some err, ob') \<longrightarrow> unchanged ob ob') \<and>
   (commitReservation lib w now i d ob = (Some err, ob') \<longrightarrow> unchanged ob ob') \<and>
   (discardReservation lib w now i ob = (Some err, ob') \<longrightarrow> unchanged ob ob') \<and>
   (refreshStreamReservation lib w now i r ref ob = (Some err, ob') \<longrightarrow> unchanged ob ob') \<and>
   (refreshStreamReservationTrace lib w now i t ob = (Some err, ob') \<longrightarrow> unchanged ob ob') \<and>
   (refreshReservationDeliveryGuard lib w now i g ob = (Some err, ob') \<longrightarrow> unchanged ob ob') \<and>
   (reanchorStreamReservation lib w now i r ref p ob = (Some err, ob') \<longrightarrow> unchanged ob ob') \<and>
   (detachStreamReservation lib w now i p ob = (Some err, ob') \<longrightarrow> unchanged ob ob') \<and>
   (redrive lib w now i ob = (Inl err, ob') \<longrightarrow> unchanged ob ob')"
proof (intro conjI impI)
  show "unchanged ob ob'" if "enqueueWithState lib w now newID d preparing ob = (Inl err, ob')"
    using that by (rule enqueue_err)
  show "unchanged ob ob'" if "stageReservationResult lib w now i d ob = (Some err, ob')"
    using that by (auto simp: stageReservationResult_def Let_def dest: edit_entry_err
        split: if_splits option.splits sum.splits)
  show "unchanged ob ob'" if "commitReservation lib w now i d ob = (Some err, ob')"
    using that by (auto simp: commitReservation_def Let_def dest: edit_entry_err
        split: if_splits option.splits sum.splits prod.splits)
  show "unchanged ob ob'" if "discardReservation lib w now i ob = (Some err, ob')"
    using that by (auto simp: discardReservation_def dest: edit_entry_err persist_err_unchanged
        split: if_splits option.splits prod.splits)
  show "unchanged ob ob'" if "refreshStreamReservation lib w now i r ref ob = (Some err, ob')"
    using that by (auto simp: refreshStreamReservation_def dest: edit_entry_err split: if_splits option.splits)
  show "unchanged ob ob'" if "refreshStreamReservationTrace lib w now i t ob = (Some err, ob')"
    using that by (auto simp: refreshStreamReservationTrace_def dest: edit_entry_err split: if_splits option.splits)
  show "unchanged ob ob'" if "refreshReservationDeliveryGuard lib w now i g ob = (Some err, ob')"
    using that by (auto simp: refreshReservationDeliveryGuard_def dest: edit_entry_err split: if_splits option.splits)
  show "unchanged ob ob'" if "reanchorStreamReservation lib w now i r ref p ob = (Some err, ob')"
    using that by (auto simp: reanchorStreamReservation_def Let_def dest: edit_entry_err
        split: if_splits option.splits sum.splits prod.splits)
  show "unchanged ob ob'" if "detachStreamReservation lib w now i p ob = (Some err, ob')"
    using that by (auto simp: detachStreamReservation_def Let_def dest: edit_entry_err
        split: if_splits option.splits prod.splits)
  show "unchanged ob ob'" if r: "redrive lib w now i ob = (Inl err, ob')"
  proof -
    define rs where "rs = map (redrive_entry now (go_trim i)) (oEntries ob)"
    have "map fst rs = oEntries ob" if "length (filter snd rs) = 0"
    proof -
      have "map (fst \<circ> redrive_entry now (go_trim i)) (oEntries ob) = oEntries ob"
        using that by (intro map_idI) (auto simp: rs_def filter_empty_conv intro: redrive_unchanged)
      then show ?thesis by (simp add: rs_def)
    qed
    with r show ?thesis
      by (auto simp: redrive_def Let_def rs_def [symmetric] unchanged_def
          dest: persist_err_unchanged split: if_splits option.splits prod.splits)
  qed
qed

theorem rejected_operation_changes_nothing_witness:
  "fst (enqueue demo_lib disk_full 9 ''n'' (demo_draft ''e2'' ''x'') demo_outbox) = Inl (PersistFailed TempWriteError) \<and>
   unchanged demo_outbox (snd (enqueue demo_lib disk_full 9 ''n'' (demo_draft ''e2'' ''x'') demo_outbox))"
proof -
  have f: "fst (enqueue demo_lib disk_full 9 ''n'' (demo_draft ''e2'' ''x'') demo_outbox) = Inl (PersistFailed TempWriteError)"
    by code_simp
  then have "enqueueWithState demo_lib disk_full 9 ''n'' (demo_draft ''e2'' ''x'') False demo_outbox =
    (Inl (PersistFailed TempWriteError), snd (enqueue demo_lib disk_full 9 ''n'' (demo_draft ''e2'' ''x'') demo_outbox))"
    by (simp add: enqueue_def prod_eq_iff)
  with f rejected_operation_changes_nothing show ?thesis by blast
qed

subsection \<open>Enqueueing again\<close>

lemma find_append_None: "find P xs = None \<Longrightarrow> find P (xs @ [x]) = (if P x then Some x else None)"
  by (induction xs) (auto split: if_splits)

lemma find_remove_nth_None: "find P xs = None \<Longrightarrow> find P (remove_nth j xs) = None"
  using set_remove_nth [of j xs] by (auto simp: find_None_iff)

lemma same_payload_time:
  "sameTerminalOutboxPayload x (draft_entry now i d) = sameTerminalOutboxPayload x (draft_entry now' i d)"
  by (simp add: sameTerminalOutboxPayload_def draft_entry_def)

lemma validate_draft_time:
  "validateTerminalOutboxEntry u (draft_entry now i d) = None \<Longrightarrow> now' \<noteq> 0 \<Longrightarrow>
   validateTerminalOutboxEntry u (draft_entry now' i d) = None"
  by (auto simp: validate_None_iff draft_entry_def replay_incomplete_def entry_has_payload_def
      terminalDeliveryGuardFromEntry_def)

lemma append_entry_locked:
  assumes "append_entry lib w preparing ev entry ob = (Inr e, ob')"
    and "ev = None \<or> ev = oldestEvictableDeadLetterLocked ob" and "entryLocked (eID entry) ob = None"
  shows "e = entry \<and> oEntries ob' = kept_entries ev (oEntries ob) @ [entry] \<and> entryLocked (eID entry) ob' = Some entry"
proof -
  obtain ob1 where p: "persist_entries lib w (kept_entries ev (oEntries ob) @ [entry]) ob = (None, ob1)"
    and ob': "oEntries ob' = oEntries ob1" and e: "e = entry"
    using assms(1) unfolding append_entry_eq [OF assms(2)] by (auto split: prod.splits option.splits)
  have "find (\<lambda>x. eID x = eID entry) (kept_entries ev (oEntries ob)) = None"
    using assms(3) by (auto simp: entryLocked_def kept_entries_def find_remove_nth_None split: option.splits)
  with persist_ok_entries [OF p] ob' e show ?thesis
    by (simp add: entryLocked_def find_append_None)
qed

lemma enqueue_stored:
  assumes enq: "enqueueWithState lib w now newID d preparing ob = (Inr e, ob')"
    and id: "\<not> blank (dID d)" and plain: "dStream d = None" "dCheckpoint d = None" "\<not> dActiveStreamRecovery d"
  shows "route_Valid (dRoute d) \<and> \<not> draft_no_payload d \<and>
    validateTerminalOutboxEntry (uuid_parse lib) (draft_entry now (go_trim (dID d)) d) = None \<and>
    entryLocked (go_trim (dID d)) ob' = Some e \<and>
    sameTerminalOutboxPayload e (draft_entry now (go_trim (dID d)) d) \<and> sameDeliveryRoute (eRoute e) (dRoute d)"
proof -
  define entry where "entry = draft_entry now (go_trim (dID d)) d"
  have eid: "eID entry = go_trim (dID d)" and route: "eRoute entry = dRoute d"
    and same: "sameTerminalOutboxPayload entry entry"
    using plain by (simp_all add: entry_def draft_entry_def sameTerminalOutboxPayload_def)
  have refl: "sameDeliveryRoute r r" for r by (simp add: sameDeliveryRoute_def)
  have pre: "route_Valid (dRoute d)" "\<not> draft_no_payload d"
    "validateTerminalOutboxEntry (uuid_parse lib) entry = None"
    using enq id by (auto simp: enqueueWithState_def Let_def entry_def split: if_splits option.splits)
  have eq: "enqueueWithState lib w now newID d preparing ob =
     (case entryLocked (go_trim (dID d)) ob of
        Some existing \<Rightarrow> reuse_entry lib w now existing entry ob
      | None \<Rightarrow>
          if int (length (oEntries ob)) \<ge> entryLimit ob then
            (case oldestEvictableDeadLetterLocked ob of
               None \<Rightarrow> (Inl CapacityExceeded, ob)
             | Some ev \<Rightarrow> append_entry lib w preparing (Some ev) entry ob)
          else append_entry lib w preparing None entry ob)"
    using pre [unfolded entry_def] id unfolding entry_def by (simp add: enqueueWithState_def Let_def)
  show ?thesis
  proof (cases "entryLocked (go_trim (dID d)) ob")
    case None
    then obtain ev where a: "append_entry lib w preparing ev entry ob = (Inr e, ob')"
      "ev = None \<or> ev = oldestEvictableDeadLetterLocked ob"
      using enq by (auto simp: eq split: if_splits option.splits)
    with append_entry_locked [OF a] None eid same route refl pre show ?thesis
      by (simp add: entry_def [symmetric])
  next
    case (Some existing)
    note ex = entryLocked_SomeD [OF Some]
    from enq Some have r: "reuse_entry lib w now existing entry ob = (Inr e, ob')" by (simp add: eq)
    then have sp: "sameTerminalOutboxPayload existing entry"
      by (auto simp: reuse_entry_def split: if_splits)
    show ?thesis
    proof (cases "sameDeliveryRoute (eRoute existing) (eRoute entry)")
      case True
      with r sp have "e = existing" "ob' = signal ob" by (auto simp: reuse_entry_def)
      with Some sp True route pre show ?thesis by (simp add: entry_def [symmetric])
    next
      case False
      let ?m = "existing\<lparr>eRoute := eRoute entry, eAttempts := 0, eLastError := [],
              eDeadLetter := False, eDeadLetterAt := 0, eUpdatedAt := now, eNextAttempt := now\<rparr>"
      from r False obtain ob1 where p: "persist_entries lib w (set_entry ?m (oEntries ob)) ob = (None, ob1)"
        and e: "e = ?m" "ob' = signal ob1"
        by (auto simp: reuse_entry_def Let_def split: if_splits option.splits prod.splits)
      have "entryLocked (go_trim (dID d)) ob1 = Some ?m"
        using entryLocked_set_entry [OF Some, of ?m ob1] ex persist_ok_entries [OF p] by simp
      moreover have "sameTerminalOutboxPayload ?m entry" using sp by (simp add: sameTerminalOutboxPayload_def)
      ultimately show ?thesis using e route refl pre by (simp add: entry_def [symmetric])
    qed
  qed
qed

text \<open>
  Enqueueing a plain delivery again under its own id, at any later time, neither adds an
  entry nor changes one nor writes the file: it returns the stored entry and wakes the worker. So a
  caller may repeat an enqueue whose outcome it does not know.
\<close>

theorem enqueue_again_idempotent:
  assumes enq: "enqueueWithState lib w now newID d preparing ob = (Inr e, ob')"
    and id: "\<not> blank (dID d)" and plain: "dStream d = None" "dCheckpoint d = None" "\<not> dActiveStreamRecovery d"
    and now': "now' \<noteq> 0"
  shows "enqueueWithState lib w' now' newID' d preparing' ob' = (Inr e, signal ob')"
proof -
  note st = enqueue_stored [OF enq id plain]
  have "validateTerminalOutboxEntry (uuid_parse lib) (draft_entry now' (go_trim (dID d)) d) = None"
    using st now' by (blast intro: validate_draft_time)
  moreover have "sameTerminalOutboxPayload e (draft_entry now' (go_trim (dID d)) d)"
    using st same_payload_time by blast
  moreover have "eRoute (draft_entry now' (go_trim (dID d)) d) = dRoute d" by (simp add: draft_entry_def)
  ultimately show ?thesis
    using st id by (simp add: enqueueWithState_def Let_def reuse_entry_def)
qed

subsection \<open>Eviction\<close>

definition evict_key :: "terminalOutboxEntry \<Rightarrow> instant \<times> instant" where
  "evict_key e = (eDeadLetterAt e, eCreatedAt e)"

lemma oldestEvictable_min:
  "oldestEvictable bl i best es = Some (j, e) \<Longrightarrow>
   (\<forall>x \<in> set es. eDeadLetter x \<and> \<not> bl (eID x) \<longrightarrow> evict_key e \<le> evict_key x) \<and>
   (\<forall>k b. best = Some (k, b) \<longrightarrow> evict_key e \<le> evict_key b)"
proof (induction bl i best es rule: oldestEvictable.induct)
  case (2 bl i best x es)
  let ?best = "if \<not> eDeadLetter x \<or> bl (eID x) then best
        else (case best of
            None \<Rightarrow> Some (i, x)
          | Some (j, b) \<Rightarrow>
              if eDeadLetterAt x < eDeadLetterAt b \<or>
                 eDeadLetterAt x = eDeadLetterAt b \<and> eCreatedAt x < eCreatedAt b
              then Some (i, x) else best)"
  have ih: "(\<forall>y \<in> set es. eDeadLetter y \<and> \<not> bl (eID y) \<longrightarrow> evict_key e \<le> evict_key y) \<and>
    (\<forall>k b. ?best = Some (k, b) \<longrightarrow> evict_key e \<le> evict_key b)"
    using 2 by simp
  have "evict_key e \<le> evict_key x" if "eDeadLetter x" "\<not> bl (eID x)"
  proof (cases best)
    case None
    with ih that show ?thesis by simp
  next
    case (Some a)
    then obtain k b where b: "best = Some (k, b)" by (cases a) auto
    with ih that show ?thesis
      by (cases "eDeadLetterAt x < eDeadLetterAt b \<or> eDeadLetterAt x = eDeadLetterAt b \<and> eCreatedAt x < eCreatedAt b")
         (auto simp: evict_key_def less_eq_prod_def)
  qed
  moreover have "evict_key e \<le> evict_key b" if "best = Some (k, b)" for k b
    using ih that
    by (cases "eDeadLetterAt x < eDeadLetterAt b \<or> eDeadLetterAt x = eDeadLetterAt b \<and> eCreatedAt x < eCreatedAt b";
        cases "\<not> eDeadLetter x \<or> bl (eID x)")
       (auto simp: evict_key_def less_eq_prod_def)
  ultimately show ?case using ih by auto
qed simp

lemma oldestEvictable_None:
  "oldestEvictable bl i best es = None \<longleftrightarrow> best = None \<and> (\<forall>x \<in> set es. eDeadLetter x \<longrightarrow> bl (eID x))"
  by (induction bl i best es rule: oldestEvictable.induct) (auto split: option.splits)

lemma validate_not_capacity: "validateTerminalOutboxEntry u x \<noteq> Some CapacityExceeded"
proof -
  have "validatePendings u s ps \<noteq> Some CapacityExceeded" for s ps
    by (induction u s ps rule: validatePendings.induct)
       (auto simp: validatePendingStreamSupersede_def split: option.splits if_splits)
  then show ?thesis by (auto simp: validateTerminalOutboxEntry_def Let_def split: if_splits)
qed

lemma append_not_capacity:
  "ev = None \<or> ev = oldestEvictableDeadLetterLocked ob \<Longrightarrow>
   append_entry lib w preparing ev entry ob \<noteq> (Inl CapacityExceeded, ob')"
  by (auto simp: append_entry_eq split: prod.splits option.splits)

text \<open>The three outcomes of enqueueing an id that is not stored yet.\<close>

lemma enqueue_new_cases:
  assumes new: "entryLocked (if blank (dID d) then newID else go_trim (dID d)) ob = None"
    and q: "enqueueWithState lib w now newID d preparing ob = (r, ob')"
  obtains (rejected) err where "r = Inl err" "err \<noteq> CapacityExceeded"
  | (full) "r = Inl CapacityExceeded" "oldestEvictableDeadLetterLocked ob = None"
  | (appended) e ev where "r = Inr e" "oEntries ob' = kept_entries ev (oEntries ob) @ [e]"
      "ev = None \<and> int (length (oEntries ob)) < entryLimit ob \<or> ev \<noteq> None \<and> ev = oldestEvictableDeadLetterLocked ob"
proof -
  define eid where "eid = (if blank (dID d) then newID else go_trim (dID d))"
  define entry where "entry = draft_entry now eid d"
  have new': "entryLocked eid ob = None" "eID entry = eid"
    using new by (simp_all add: eid_def entry_def draft_entry_def)
  have eq: "enqueueWithState lib w now newID d preparing ob =
    (if \<not> route_Valid (dRoute d) then (Inl InvalidRoute, ob)
     else if draft_no_payload d then (Inl NoPayload, ob)
     else case validateTerminalOutboxEntry (uuid_parse lib) entry of
         Some err \<Rightarrow> (Inl err, ob)
       | None \<Rightarrow>
           if int (length (oEntries ob)) \<ge> entryLimit ob then
             (case oldestEvictableDeadLetterLocked ob of
                None \<Rightarrow> (Inl CapacityExceeded, ob)
              | Some ev \<Rightarrow> append_entry lib w preparing (Some ev) entry ob)
           else append_entry lib w preparing None entry ob)"
    by (simp only: enqueueWithState_def Let_def eid_def [symmetric] entry_def [symmetric] new' option.case)
  have app: thesis if "append_entry lib w preparing ev entry ob = (r, ob')"
    "ev = None \<and> int (length (oEntries ob)) < entryLimit ob \<or> ev \<noteq> None \<and> ev = oldestEvictableDeadLetterLocked ob" for ev
  proof -
    from that(2) have ev: "ev = None \<or> ev = oldestEvictableDeadLetterLocked ob" by blast
    show thesis
    proof (cases r)
      case (Inl err)
      with that(1) append_not_capacity [OF ev] rejected show thesis by blast
    next
      case (Inr e)
      with append_entry_locked [OF that(1) [unfolded Inr] ev] new' that(2) appended show thesis by simp
    qed
  qed
  show thesis
  proof (cases "validateTerminalOutboxEntry (uuid_parse lib) entry")
    case None
    show thesis
      using q [unfolded eq None option.case] rejected full app [of None] app [of "oldestEvictableDeadLetterLocked ob"]
      by (cases "oldestEvictableDeadLetterLocked ob") (auto split: if_splits)
  next
    case (Some err)
    with q [unfolded eq] rejected validate_not_capacity [of "uuid_parse lib" entry] show thesis
      by (auto split: if_splits)
  qed
qed

text \<open>
  A new id is appended behind the entries there are. Below the capacity nothing is lost; at
  the capacity exactly one entry gives way, a dead letter that is neither reserved nor being
  worked on and of which none is older, and when there is no such entry the delivery is refused,
  never a live entry dropped.
\<close>

theorem enqueue_evicts_only_oldest_dead_letter:
  assumes new: "entryLocked (if blank (dID d) then newID else go_trim (dID d)) ob = None"
  shows "case enqueueWithState lib w now newID d preparing ob of
    (Inr e, ob') \<Rightarrow>
      int (length (oEntries ob)) < entryLimit ob \<and> oEntries ob' = oEntries ob @ [e] \<or>
      (\<exists>j x. j < length (oEntries ob) \<and> x = oEntries ob ! j \<and> oEntries ob' = remove_nth j (oEntries ob) @ [e] \<and>
         eDeadLetter x \<and> eID x \<notin> oPreparing ob \<and> eID x \<notin> oProcessing ob \<and>
         (\<forall>y \<in> set (oEntries ob). eDeadLetter y \<and> eID y \<notin> oPreparing ob \<and> eID y \<notin> oProcessing ob \<longrightarrow>
            evict_key x \<le> evict_key y))
  | (Inl CapacityExceeded, ob') \<Rightarrow>
      (\<forall>y \<in> set (oEntries ob). eDeadLetter y \<longrightarrow> eID y \<in> oPreparing ob \<or> eID y \<in> oProcessing ob)
  | (Inl _, ob') \<Rightarrow> True"
proof -
  obtain r ob' where q: "enqueueWithState lib w now newID d preparing ob = (r, ob')" by fastforce
  from new q show ?thesis
  proof (cases rule: enqueue_new_cases)
    case (rejected err)
    with q show ?thesis by (auto split: outbox_error.splits)
  next
    case full
    with q show ?thesis by (auto simp: oldestEvictableDeadLetterLocked_def oldestEvictable_None)
  next
    case (appended e ev)
    show ?thesis
    proof (cases ev)
      case None
      with appended q show ?thesis by (simp add: kept_entries_def)
    next
      case (Some a)
      then obtain j x where ev: "oldestEvictableDeadLetterLocked ob = Some (j, x)" "ev = Some (j, x)"
        using appended(3) Some by (metis option.distinct(1) prod.collapse)
      note oldestEvictable_nth [OF ev(1)]
        oldestEvictable_min [OF ev(1) [unfolded oldestEvictableDeadLetterLocked_def]]
      with appended ev q show ?thesis by (auto simp: kept_entries_def)
    qed
  qed
qed

definition dead_outbox :: terminalOutbox where
  "dead_outbox = snd (recordFailure demo_lib all_ok 9 ''e1'' ''no'' (demo_outbox\<lparr>oMaxAttempts := 1, oMaxEntries := 1\<rparr>))"

theorem enqueue_evicts_only_oldest_dead_letter_witness:
  "eDeadLetter (oEntries dead_outbox ! 0) \<and> length (oEntries dead_outbox) = 1 \<and>
   (\<exists>e ob'. enqueue demo_lib all_ok 11 ''n'' (demo_draft ''e2'' ''x'') dead_outbox = (Inr e, ob') \<and>
      oEntries ob' = remove_nth 0 (oEntries dead_outbox) @ [e])"
proof -
  let ?d = "demo_draft ''e2'' ''x''"
  have 1: "entryLocked (if blank (dID ?d) then ''n'' else go_trim (dID ?d)) dead_outbox = None"
    "eDeadLetter (oEntries dead_outbox ! 0)" "length (oEntries dead_outbox) = 1" "entryLimit dead_outbox = 1"
    "\<not> isl (fst (enqueue demo_lib all_ok 11 ''n'' ?d dead_outbox))"
    by code_simp+
  then obtain e ob' where e: "enqueueWithState demo_lib all_ok 11 ''n'' ?d False dead_outbox = (Inr e, ob')"
    by (cases "enqueueWithState demo_lib all_ok 11 ''n'' ?d False dead_outbox"; cases "fst (enqueueWithState demo_lib all_ok 11 ''n'' ?d False dead_outbox)")
       (auto simp: enqueue_def)
  from enqueue_evicts_only_oldest_dead_letter [OF 1(1), of demo_lib all_ok 11 False] e 1 show ?thesis
    by (auto simp: enqueue_def)
qed

subsection \<open>Reserve, then commit\<close>

lemma edit_entry_ok:
  "edit_entry lib w e ob = (None, ob') \<Longrightarrow>
   validateTerminalOutboxEntry (uuid_parse lib) e = None \<and> oEntries ob' = set_entry e (oEntries ob) \<and>
   oProcessing ob' = oProcessing ob \<and> oPreparing ob' = oPreparing ob"
  by (auto simp: edit_entry_def dest: persist_ok_entries split: option.splits prod.splits)

text \<open>
  A reserved entry is never offered to the worker, at no time; once its commit has
  succeeded it carries the committed texts and checkpoint, nothing of it counts as delivered, it has
  work, and it is due at once unless some goroutine is working on it.
\<close>

theorem reservation_due_exactly_after_commit:
  "(i \<in> oPreparing ob \<longrightarrow> i \<notin> set (dueIDs t ob)) \<and>
   (commitReservation lib w now i d ob = (None, ob') \<longrightarrow>
     (\<exists>e. entryLocked i ob' = Some e \<and> eText e = dText d \<and> eNotification e = dNotification d \<and>
        eCheckpoint e = dCheckpoint d \<and> eRoute e = dRoute d \<and> terminalEntryHasWork e \<and>
        \<not> eTextDelivered e \<and> \<not> eCheckpointDelivered e \<and> \<not> eNotificationDelivered e \<and>
        (i \<notin> oProcessing ob \<longrightarrow> i \<in> set (dueIDs now ob'))))"
proof (intro conjI impI)
  show "i \<notin> set (dueIDs t ob)" if "i \<in> oPreparing ob"
    using that by (auto simp: set_dueIDs due_entry_def)
next
  assume c: "commitReservation lib w now i d ob = (None, ob')"
  then have pay: "\<not> draft_no_payload d" by (auto simp: commitReservation_def split: if_splits)
  from c obtain e where e: "entryLocked i ob = Some e"
    by (auto simp: commitReservation_def split: if_splits option.splits)
  from c e obtain e1 where m: "mergeTerminalDeliveryGuard (e\<lparr>eRoute := dRoute d, eAgentName := go_trim (dAgentName d)\<rparr>) d = Inr e1"
    by (auto simp: commitReservation_def split: if_splits sum.splits)
  define e3 where "e3 = (reset_delivery now (stage_fields d
     (e1\<lparr>eStream := (if dStream d = None \<and> dCheckpoint d = None then eStream e1 else dStream d),
         eCheckpoint := dCheckpoint d\<rparr>)))\<lparr>eTrace := draft_trace (dTrace d)\<rparr>"
  from c e m obtain ob1 where ed: "edit_entry lib w e3 ob = (None, ob1)" and ob': "ob' = releaseReservation i ob1"
    by (auto simp: commitReservation_def Let_def e3_def [symmetric] split: if_splits prod.splits)
  note ms = merge_sel [OF m] and sel = entryLocked_SomeD [OF e]
  have rt: "eRoute e1 = dRoute d" using m by (auto elim!: merge_cases simp: set_guard_def)
  note e3 = e3_def reset_delivery_def stage_fields_def
  have id: "eID e3 = i" using ms sel by (simp add: e3)
  have l: "entryLocked i ob' = Some e3"
    using entryLocked_set_entry [OF e id, of ob1] edit_entry_ok [OF ed]
    by (simp add: ob' releaseReservation_def)
  have work: "terminalEntryHasWork e3"
    using pay by (auto simp: e3 terminalEntryHasWork_def draft_no_payload_def)
  have "i \<in> set (dueIDs now ob')" if "i \<notin> oProcessing ob"
  proof -
    have "e3 \<in> set (oEntries ob')" using entryLocked_SomeD [OF l] by simp
    moreover have "due_entry ob' now e3"
      using work that id edit_entry_ok [OF ed]
      by (simp add: due_entry_def ob' releaseReservation_def signal_def) (simp add: e3)
    ultimately show ?thesis using id by (auto simp: set_dueIDs)
  qed
  with l work rt show "\<exists>e. entryLocked i ob' = Some e \<and> eText e = dText d \<and> eNotification e = dNotification d \<and>
        eCheckpoint e = dCheckpoint d \<and> eRoute e = dRoute d \<and> terminalEntryHasWork e \<and>
        \<not> eTextDelivered e \<and> \<not> eCheckpointDelivered e \<and> \<not> eNotificationDelivered e \<and>
        (i \<notin> oProcessing ob \<longrightarrow> i \<in> set (dueIDs now ob'))"
    by (intro exI [of _ e3]) (simp add: e3)
qed

definition reserved_outbox :: terminalOutbox where
  "reserved_outbox = snd (reserve demo_lib all_ok 5 ''n'' (card_draft ''r1'') fresh_outbox)"

end
