(* ===== verification/Outbox_Outcome.thy ===== *)
theory Outbox_Outcome
  imports Outbox_Callers
begin

section \<open>What an attempt leaves behind\<close>

text \<open>
  The outcome of \<open>attempt\<close> (\<open>messaging/terminal_outbox.go\<close>) for the entry it works on: parts that
  were delivered are not sent again, an attempt that reports success had every part accepted and
  removes the entry, a result card never waits for a card update that was not started; then what a
  redrive and the status report do, and two limits of the design.
\<close>

subsection \<open>Delivered parts\<close>

lemma set_delivered_not_started: "s \<notin> set (started_stages pe ((set_delivered s e)\<lparr>eUpdatedAt := now, eLastError := []\<rparr>))"
  by (cases s) (auto simp: started_stages_def)



subsection \<open>Success means acceptance\<close>

definition prepared ::
  "outbox_lib \<Rightarrow> attempt_env \<Rightarrow> string \<Rightarrow> terminalOutboxEntry \<Rightarrow> terminalOutbox
   \<Rightarrow> string option \<times> terminalOutboxEntry \<times> terminalOutbox" where
  "prepared lib env i e ob =
     (if eStream e \<noteq> None \<and> eCheckpoint e = None
      then (case resolveStageReplier (aRegistry env) (eRoute e) (aPreferred env) of
              None \<Rightarrow> (Some (no_replier_text (eRoute e)), e, ob)
            | Some r \<Rightarrow> prepareStreamRecovery lib (aWrite env PrepareSection) (aNow env PrepareSection) i e r ob)
      else (None, e, ob))"

definition stage_order :: "attempt_env \<Rightarrow> string option \<Rightarrow> terminalOutboxEntry \<Rightarrow> stage list" where
  "stage_order env pe e = completion_order (aOrder env) (waitForCheckpoint e) (started_stages pe e)"

lemma set_completion_order: "set (completion_order order wait started) = set started"
  by (auto simp: completion_order_def Let_def)

lemma deliver_entry_eq:
  assumes "prepared lib env i e ob = (pe, e1, ob1)" "run_stages lib env i e1 (stage_order env pe e1) ob1 = (errs, ob2)"
  shows "deliver_entry lib env i e ob =
    (let allErrs = (case pe of None \<Rightarrow> errs | Some err \<Rightarrow> (CheckpointStage, err) # errs) in
     if allErrs \<noteq> []
     then recordFailure lib (aWrite env FinishSection) (aNow env FinishSection) i (join_errors allErrs) ob2
     else removeDelivered lib (aWrite env FinishSection) (aNow env FinishSection) i ob2)"
  unfolding deliver_entry_def prepared_def [symmetric]
  using assms by (simp add: stage_order_def)

lemma recordFailure_Some: "fst (recordFailure lib w now i err ob) \<noteq> None"
  by (simp add: recordFailure_def Let_def split: option.splits prod.splits)

lemma run_stages_accepted:
  "fst (run_stages lib env i e ss ob) = [] \<Longrightarrow> s \<in> set ss \<Longrightarrow>
   \<exists>r. resolveStageReplier (aRegistry env) (eRoute e) (aPreferred env) = Some r \<and> deliver_stage env e r s = None"
proof (induction ss arbitrary: ob)
  case (Cons x ss)
  obtain r1 ob1 where x: "run_stage lib env i e x ob = (r1, ob1)" by fastforce
  with Cons.prems(1) have "r1 = None" "fst (run_stages lib env i e ss ob1) = []"
    by (auto split: prod.splits option.splits)
  moreover have "\<exists>r. resolveStageReplier (aRegistry env) (eRoute e) (aPreferred env) = Some r \<and>
      deliver_stage env e r x = None" if "r1 = None"
    using x that by (auto simp: run_stage_def split: option.splits)
  ultimately show ?case using Cons.IH [of ob1] Cons.prems(2) by auto
qed simp

text \<open>What the sections of an attempt keep: the list of ids and the pending operations of the entry.\<close>

definition view :: "string \<Rightarrow> terminalOutbox \<Rightarrow> string list \<times> pendingStreamSupersede list option" where
  "view i ob = (map eID (oEntries ob), map_option ePendingSupersedes (entryLocked i ob))"

lemma map_eID_set_entry: "map eID (set_entry e es) = map eID es"
proof -
  have "map eID (upd_first (\<lambda>x. eID x = eID e) (\<lambda>_. e) xs) = map eID xs" for xs
    by (induction xs) auto
  then show ?thesis by (simp add: set_entry_def)
qed

lemma view_unchanged: "oEntries ob' = oEntries ob \<Longrightarrow> view i ob' = view i ob"
  by (simp add: view_def entryLocked_def)

lemma view_set_entry:
  assumes "entryLocked i ob = Some e" "eID e' = i" "ePendingSupersedes e' = ePendingSupersedes e"
    "persist_entries lib w (set_entry e' (oEntries ob)) ob = (r, ob')"
  shows "view i ob' = view i ob"
proof (cases r)
  case None
  with assms(4) have es: "oEntries ob' = set_entry e' (oEntries ob)" by (auto dest: persist_ok_entries)
  from entryLocked_set_entry [OF assms(1,2) es] assms(1,3) show ?thesis
    by (simp add: view_def es map_eID_set_entry)
next
  case (Some err)
  with assms(4) have "oEntries ob' = oEntries ob" by (auto dest: persist_err_unchanged simp: unchanged_def)
  then show ?thesis by (rule view_unchanged)
qed

lemma view_markDelivered: "view i (snd (markDelivered lib w now i s ob)) = view i ob"
proof (cases "entryLocked i ob")
  case (Some e)
  let ?e = "(set_delivered s e)\<lparr>eUpdatedAt := now, eLastError := []\<rparr>"
  obtain r ob' where p: "persist_entries lib w (set_entry ?e (oEntries ob)) ob = (r, ob')" by fastforce
  from view_set_entry [OF Some _ _ p] entryLocked_SomeD [OF Some] set_delivered_sel [of s e] Some p
  show ?thesis by (simp add: markDelivered_def)
qed (simp add: markDelivered_def)

lemma view_run_stages: "view i (snd (run_stages lib env i e ss ob)) = view i ob"
proof (induction ss arbitrary: ob)
  case (Cons s ss)
  have "view i (snd (run_stage lib env i e s ob)) = view i ob"
    by (simp add: run_stage_def Let_def view_markDelivered split: option.split)
  moreover have "snd (run_stages lib env i e (s # ss) ob) = snd (run_stages lib env i e ss (snd (run_stage lib env i e s ob)))"
    by (simp add: case_prod_beta)
  ultimately show ?case using Cons.IH by simp
qed simp

lemma view_edit_entry:
  assumes "entryLocked i ob = Some e" "eID e' = i" "ePendingSupersedes e' = ePendingSupersedes e"
  shows "view i (snd (edit_entry lib w e' ob)) = view i ob"
proof -
  obtain r ob' where p: "persist_entries lib w (set_entry e' (oEntries ob)) ob = (r, ob')" by fastforce
  from view_set_entry [OF assms p] p show ?thesis
    by (simp add: edit_entry_def split: option.split)
qed

lemma view_prepared: "view i (snd (snd (prepared lib env i e ob))) = view i ob"
proof -
  have "view i (snd (snd (prepareStreamRecovery lib w now i e r ob))) = view i ob" for w now r
  proof (cases "snd (snd (prepareStreamRecovery lib w now i e r ob)) = ob")
    case False
    with prepare_state [of lib w now i e r ob] obtain cur cp where c: "entryLocked i ob = Some cur"
      "snd (snd (prepareStreamRecovery lib w now i e r ob)) = snd (edit_entry lib w
        (cur\<lparr>eStream := None, eCheckpoint := Some cp, eUpdatedAt := now, eNextAttempt := now\<rparr>) ob)" by blast
    show ?thesis unfolding c(2)
      by (rule view_edit_entry [OF c(1)]) (simp_all add: entryLocked_SomeD [OF c(1)])
  qed simp
  then show ?thesis by (simp add: prepared_def split: option.split)
qed

lemma remove_first_absent: "distinct (map eID es) \<Longrightarrow> find (\<lambda>x. eID x = i) (remove_first (\<lambda>x. eID x = i) es) = None"
  by (simp add: remove_first_filter find_None_iff)

lemma removeDelivered_gone:
  assumes "distinct (map eID (oEntries ob))" "map_option ePendingSupersedes (entryLocked i ob) = Some []"
    "removeDelivered lib w now i ob = (None, ob')"
  shows "entryLocked i ob' = None"
proof -
  from assms(2) obtain e where e: "entryLocked i ob = Some e" "ePendingSupersedes e = []" by auto
  with assms(3) obtain ob1 where p: "persist_entries lib w (remove_first (\<lambda>x. eID x = i) (oEntries ob)) ob = (None, ob1)"
    "oEntries ob' = oEntries ob1"
    by (auto simp: removeDelivered_def Let_def split: prod.splits option.splits)
  with persist_ok_entries [OF p(1)] remove_first_absent [OF assms(1)] show ?thesis
    by (simp add: entryLocked_def)
qed



subsection \<open>The result card and the progress card\<close>

text \<open>
  The stage that sends a Feishu result card waits for the final update of the progress card
  only when that update has been started, so it never waits for ever; then the update completes
  before it; and every started stage completes exactly once.
\<close>

theorem result_waits_only_for_started_update:
  assumes "prepared lib env i e ob = (pe, e1, ob1)"
  shows "(waitForCheckpoint e1 \<longrightarrow> CheckpointStage \<in> set (started_stages pe e1) \<and>
      hd (stage_order env pe e1) = CheckpointStage) \<and>
    distinct (stage_order env pe e1) \<and> set (stage_order env pe e1) = set (started_stages pe e1)"
proof (intro conjI impI)
  assume w: "waitForCheckpoint e1"
  have "pe = None"
  proof (rule ccontr)
    assume pe: "pe \<noteq> None"
    then have "e1 = e \<and> eCheckpoint e = None"
      using assms
      by (auto simp: prepared_def prepareStreamRecovery_def Let_def
          split: if_splits option.splits sum.splits prod.splits outbox_error.splits)
    with w show False by (simp add: waitForCheckpoint_def)
  qed
  with w show c: "CheckpointStage \<in> set (started_stages pe e1)"
    by (auto simp: waitForCheckpoint_def started_stages_def)
  with w show "hd (stage_order env pe e1) = CheckpointStage"
    by (auto simp: stage_order_def completion_order_def Let_def)
next
  show "distinct (stage_order env pe e1)"
    by (auto simp: stage_order_def completion_order_def Let_def)
  show "set (stage_order env pe e1) = set (started_stages pe e1)"
    by (simp add: stage_order_def set_completion_order)
qed

definition rich_entry :: terminalOutboxEntry where
  "rich_entry = (hd (oEntries demo_outbox))\<lparr>eRichResult := True, eCheckpoint := Some demo_reference\<rparr>"

text \<open>
  The result card's ten seconds run while it waits for the progress card. When the update of the
  progress card uses up its own ten seconds, the replier is asked to send the result with no time
  left, although the two are meant to be delivered independently of each other.
\<close>

theorem blocked_update_exhausts_result:
  assumes w: "waitForCheckpoint e" and r: "resolveStageReplier (aRegistry env) (eRoute e) (aPreferred env) = Some r"
    and f: "rpDeliverTerminal r = Some f" and cp: "eCheckpoint e = Some cp"
    and slow: "snd (f terminalOutboxDeliveryTimeout cp) = terminalOutboxDeliveryTimeout"
  shows "deliver_stage env e r TextStage =
    sendOutboxResult r 0 e (eText e) (terminalOutboxIdempotencyKey e ''result'')"
  using assms by (simp add: deliver_stage_def checkpoint_elapsed_def waitForCheckpoint_def)

definition slow_replier :: replier where
  "slow_replier = accepting\<lparr>rpDeliverTerminal := Some (\<lambda>left _. (Some (SendError ''timeout''), left)),
     rpSendText := Some (\<lambda>left _ _. if 0 < left then None else Some (SendError ''deadline exceeded''))\<rparr>"

theorem blocked_update_exhausts_result_witness:
  "deliver_stage (demo_env slow_replier 9) rich_entry slow_replier TextStage = Some (SendError ''deadline exceeded'') \<and>
   deliver_stage (demo_env slow_replier 9) (rich_entry\<lparr>eCheckpoint := None\<rparr>) slow_replier TextStage = None"
proof -
  have 1: "waitForCheckpoint rich_entry" "eCheckpoint rich_entry = Some demo_reference"
    "resolveStageReplier (aRegistry (demo_env slow_replier 9)) (eRoute rich_entry) (aPreferred (demo_env slow_replier 9)) =
       Some slow_replier"
    "rpDeliverTerminal slow_replier = Some (\<lambda>left _. (Some (SendError ''timeout''), left))"
    by (code_simp, code_simp, simp add: resolveStageReplier_def demo_env_def, simp add: slow_replier_def)
  have 2: "sendOutboxResult slow_replier 0 rich_entry (eText rich_entry) k = Some (SendError ''deadline exceeded'')" for k
    by (simp add: sendOutboxResult_def sendOutboxText_def slow_replier_def accepting_def)
  have 3: "deliver_stage (demo_env slow_replier 9) (rich_entry\<lparr>eCheckpoint := None\<rparr>) slow_replier TextStage = None"
    by (simp add: deliver_stage_def waitForCheckpoint_def sendOutboxResult_def sendOutboxText_def slow_replier_def
        accepting_def terminalOutboxDeliveryTimeout_def second_def)
  from blocked_update_exhausts_result [OF 1(1,3,4,2)] 2 3 show ?thesis by simp
qed

subsection \<open>Redriving\<close>

lemma redrive_all_entry:
  assumes "e' = fst (redrive_entry now [] e)"
  shows "\<not> eDeadLetter e'" "\<forall>p \<in> set (ePendingSupersedes e'). \<not> pDeadLetter p \<and> pNextAttempt p = now"
    "terminalEntryHasWork e' = terminalEntryHasWork e" "terminalEntryHasWork e \<Longrightarrow> eNextAttempt e' = now"
    "eAttempts e' = eAttempts e" "eID e' = eID e" "eText e' = eText e"
  by (auto simp: assms redrive_entry_def Let_def redrive_pending_def terminalEntryHasWork_def)

text \<open>
  A redrive of everything revives every dead letter and every dead card operation, keeps the ids,
  texts and attempt counters, and makes every entry with work due at once unless it is reserved
  or being worked on.
\<close>

theorem redrive_all_revives:
  assumes r: "redrive lib w now [] ob = (Inr n, ob')"
  shows "(\<forall>e \<in> set (oEntries ob'). \<not> eDeadLetter e \<and> (\<forall>p \<in> set (ePendingSupersedes e). \<not> pDeadLetter p) \<and>
      (terminalEntryHasWork e \<and> eID e \<notin> oPreparing ob \<and> eID e \<notin> oProcessing ob \<longrightarrow> eID e \<in> set (dueIDs now ob'))) \<and>
    map (\<lambda>e. (eID e, eText e, eAttempts e)) (oEntries ob') = map (\<lambda>e. (eID e, eText e, eAttempts e)) (oEntries ob)"
proof -
  define rs where "rs = map (redrive_entry now []) (oEntries ob)"
  have es: "oEntries ob' = map fst rs \<and> oPreparing ob' = oPreparing ob \<and> oProcessing ob' = oProcessing ob"
    using r by (auto simp: redrive_def Let_def rs_def [symmetric] signal_def dest: persist_ok_entries
        split: if_splits option.splits prod.splits)
  have mem: "\<exists>x \<in> set (oEntries ob). e = fst (redrive_entry now [] x)" if "e \<in> set (oEntries ob')" for e
    using that es by (auto simp: rs_def)
  have due: "eID e \<in> set (dueIDs now ob')"
    if e: "e \<in> set (oEntries ob')" "terminalEntryHasWork e" "eID e \<notin> oPreparing ob" "eID e \<notin> oProcessing ob" for e
  proof -
    from mem [OF e(1)] obtain x where x: "e = fst (redrive_entry now [] x)" by blast
    have "due_entry ob' now e"
      using e redrive_all_entry(1,3,4) [OF x] es by (simp add: due_entry_def)
    with e(1) show ?thesis by (auto simp: set_dueIDs)
  qed
  moreover have "map (\<lambda>e. (eID e, eText e, eAttempts e)) (oEntries ob') = map (\<lambda>e. (eID e, eText e, eAttempts e)) (oEntries ob)"
    using es redrive_all_entry(5,6,7) [OF refl] by (simp add: rs_def)
  ultimately show ?thesis
    using mem redrive_all_entry(1,2) by blast
qed

subsection \<open>The status report\<close>

definition counted :: "terminalOutboxStatus \<Rightarrow> nat \<times> nat \<times> nat" where
  "counted st = (osPending st, osDeadLetter st, length (osEntries st))"

lemma counted_step:
  "counted (fst (status_step f (st, t) (v, b))) =
     (osPending st + (if esDeadLetter v then 0 else 1), osDeadLetter st + (if esDeadLetter v then 1 else 0),
      if length (osEntries st) < terminalOutboxStatusMaxEntries then Suc (length (osEntries st)) else length (osEntries st))"
  by (simp add: status_step_def counted_def Let_def)

lemma counted_foldl:
  assumes "length (osEntries (fst acc)) \<le> terminalOutboxStatusMaxEntries"
  shows "counted (fst (foldl (status_step f) acc cs)) =
    (osPending (fst acc) + length (filter (\<lambda>(v, _). \<not> esDeadLetter v) cs),
     osDeadLetter (fst acc) + length (filter (\<lambda>(v, _). esDeadLetter v) cs),
     min terminalOutboxStatusMaxEntries (length (osEntries (fst acc)) + length cs))"
  using assms
proof (induction cs arbitrary: acc)
  case (Cons c cs)
  obtain st t where acc: "acc = (st, t)" by fastforce
  obtain v b where c: "c = (v, b)" by fastforce
  define acc' where "acc' = status_step f (st, t) (v, b)"
  have 1: "counted (fst acc') = (osPending st + (if esDeadLetter v then 0 else 1),
      osDeadLetter st + (if esDeadLetter v then 1 else 0),
      if length (osEntries st) < terminalOutboxStatusMaxEntries then Suc (length (osEntries st)) else length (osEntries st))"
    unfolding acc'_def by (rule counted_step)
  then have "length (osEntries (fst acc')) \<le> terminalOutboxStatusMaxEntries"
    using Cons.prems by (auto simp: counted_def acc split: if_splits)
  from Cons.IH [OF this] 1 Cons.prems show ?case
    by (auto simp: acc c acc'_def [symmetric] counted_def min_def split: if_splits)
qed (simp add: counted_def)

lemma length_filter_sort: "length (filter P (sort_key f xs)) = length (filter P xs)"
  by (simp add: filter_sort)

lemma candidates_counts:
  "length (filter (\<lambda>(v, _). esDeadLetter v) (status_candidates f p q e)) =
     (if eDeadLetter e then 1 else 0) + length (filter pDeadLetter (ePendingSupersedes e))"
  "length (filter (\<lambda>(v, _). \<not> esDeadLetter v) (status_candidates f p q e)) =
     (if terminalEntryHasWork e \<and> \<not> eDeadLetter e then 1 else 0) +
     length (filter (\<lambda>p. \<not> pDeadLetter p) (ePendingSupersedes e))"
  by (auto simp: status_candidates_def Let_def filter_map comp_def)

lemma candidates_total:
  "length (filter (\<lambda>(v, _). esDeadLetter v) (concat (map (status_candidates f p q) es))) =
     length (filter eDeadLetter es) + length (filter pDeadLetter (concat (map ePendingSupersedes es)))"
  "length (filter (\<lambda>(v, _). \<not> esDeadLetter v) (concat (map (status_candidates f p q) es))) =
     length (filter (\<lambda>e. terminalEntryHasWork e \<and> \<not> eDeadLetter e) es) +
     length (filter (\<lambda>p. \<not> pDeadLetter p) (concat (map ePendingSupersedes es)))"
  by (induction es) (simp_all add: candidates_counts)

text \<open>
  The status report counts what there is: the dead letters are the dead entries and dead
  card operations, the pending ones are the live entries with work and the live card operations,
  the list is cut at a hundred lines and says so exactly when it was cut.
\<close>

theorem status_counts:
  "osDeadLetter (status sanitize ob) = length (filter eDeadLetter (oEntries ob)) +
      length (filter pDeadLetter (concat (map ePendingSupersedes (oEntries ob)))) \<and>
    osPending (status sanitize ob) =
      length (filter (\<lambda>e. terminalEntryHasWork e \<and> \<not> eDeadLetter e) (oEntries ob)) +
      length (filter (\<lambda>p. \<not> pDeadLetter p) (concat (map ePendingSupersedes (oEntries ob)))) \<and>
    length (osEntries (status sanitize ob)) = min 100 (osPending (status sanitize ob) + osDeadLetter (status sanitize ob)) \<and>
    (osTruncated (status sanitize ob) = (100 < osPending (status sanitize ob) + osDeadLetter (status sanitize ob)))"
proof -
  define cs where "cs = concat (map (status_candidates sanitize (oPreparing ob) (oProcessing ob)) (oEntries ob))"
  define sorted where "sorted = sort_key (\<lambda>(v, _). (esCreatedAt v, esID v)) cs"
  define st0 where "st0 = \<lparr>osPending = 0, osDeadLetter = 0, osPreparing = 0, osProcessing = 0,
            osOldestCreatedAt = 0, osNextAttempt = 0, osRecentError = [], osAtCapacity = False,
            osTruncated = False, osEntries = []\<rparr>"
  define st where "st = fst (foldl (status_step sanitize) (st0, 0) sorted)"
  obtain c where status: "status sanitize ob = st\<lparr>osAtCapacity := c, osTruncated := length sorted > length (osEntries st)\<rparr>"
    unfolding status_def terminalOutboxStatus_of_def Let_def cs_def [symmetric] sorted_def [symmetric]
      st0_def [symmetric] st_def [symmetric] by blast
  have cnt: "counted st = (length (filter (\<lambda>(v, _). \<not> esDeadLetter v) cs), length (filter (\<lambda>(v, _). esDeadLetter v) cs),
     min terminalOutboxStatusMaxEntries (length cs))"
    using counted_foldl [of "(st0, 0)" sanitize sorted]
    by (simp add: st_def st0_def sorted_def length_filter_sort)
  have tot: "length cs = length (filter (\<lambda>(v, _). \<not> esDeadLetter v) cs) + length (filter (\<lambda>(v, _). esDeadLetter v) cs)"
    using sum_length_filter_compl [of "\<lambda>(v, _). esDeadLetter v" cs] by (simp add: case_prod_unfold)
  note nums = candidates_total [where es = "oEntries ob" and f = sanitize and p = "oPreparing ob" and q = "oProcessing ob",
      folded cs_def]
  have len: "length sorted = length cs" by (simp add: sorted_def)
  from cnt have 1: "osPending st = length (filter (\<lambda>(v, _). \<not> esDeadLetter v) cs)"
    "osDeadLetter st = length (filter (\<lambda>(v, _). esDeadLetter v) cs)"
    "length (osEntries st) = min 100 (length cs)"
    by (simp_all add: counted_def terminalOutboxStatusMaxEntries_def)
  then have "(length (osEntries st) < length sorted) = (100 < osPending st + osDeadLetter st)"
    using tot len by (simp add: min_def)
  with 1 tot nums show ?thesis unfolding status by simp
qed

subsection \<open>Two limits of the design\<close>

definition idle_entry :: "terminalOutboxEntry \<Rightarrow> bool" where
  "idle_entry e \<longleftrightarrow> \<not> terminalEntryHasWork e \<and> \<not> eDeadLetter e \<and> ePendingSupersedes e = []"

text \<open>
  An entry all of whose parts are delivered but whose removal was not written (the disk failed
  or the process died between the two writes) is never collected: it is never due, no attempt
  on it begins, no redrive touches it, it is never evicted and no status report shows it, while
  it counts against the capacity.
\<close>

theorem delivered_leftover_never_collected:
  assumes wf: "wf_entries u (oEntries ob)" and e: "e \<in> set (oEntries ob)" "idle_entry e"
  shows "eID e \<notin> set (dueIDs t ob) \<and> beginAttempt (eID e) ob = None \<and>
    beginPendingStreamSupersedeAttempt (eID e) pid ob = None \<and>
    e \<in> set (oEntries (snd (redrive lib w now i ob))) \<and>
    (\<forall>j. oldestEvictableDeadLetterLocked ob \<noteq> Some (j, e)) \<and>
    status_candidates sanitize (oPreparing ob) (oProcessing ob) e = []"
proof (intro conjI allI)
  note l = entryLocked_member [OF wf e(1)]
  show "eID e \<notin> set (dueIDs t ob)"
    using entryLocked_member [OF wf] l e(2)
    by (simp add: set_dueIDs due_entry_def idle_entry_def) (metis option.inject)
  show "beginAttempt (eID e) ob = None" "beginPendingStreamSupersedeAttempt (eID e) pid ob = None"
    using l e(2) by (simp_all add: beginAttempt_def beginPendingStreamSupersedeAttempt_def idle_entry_def)
  show "oldestEvictableDeadLetterLocked ob \<noteq> Some (j, e)" for j
    using oldestEvictable_nth(3) [of ob j e] e(2) by (auto simp: idle_entry_def)
  show "status_candidates sanitize (oPreparing ob) (oProcessing ob) e = []"
    using e(2) by (simp add: status_candidates_def idle_entry_def Let_def)
  have same: "fst (redrive_entry now (go_trim i) e) = e"
    using e(2) by (intro redrive_unchanged) (auto simp: redrive_entry_def Let_def idle_entry_def)
  define rs where "rs = map (redrive_entry now (go_trim i)) (oEntries ob)"
  have "e \<in> set (map fst rs)" using same e(1) by (force simp: rs_def)
  moreover have "oEntries (snd (redrive lib w now i ob)) = map fst rs \<or> oEntries (snd (redrive lib w now i ob)) = oEntries ob"
    by (cases "persist_entries lib w (map fst rs) ob"; cases "fst (persist_entries lib w (map fst rs) ob)")
       (auto simp: redrive_def Let_def rs_def [symmetric] signal_def unchanged_def
         dest: persist_ok_entries persist_err_unchanged)
  ultimately show "e \<in> set (oEntries (snd (redrive lib w now i ob)))" using e(1) by metis
qed

definition leftover_env :: attempt_env where
  "leftover_env = (demo_env accepting 9)\<lparr>aWrite := (\<lambda>s. if s = FinishSection then disk_full else all_ok)\<rparr>"

definition leftover_outbox :: terminalOutbox where
  "leftover_outbox = snd (attempt demo_lib leftover_env ''e1'' demo_outbox)"

theorem delivered_leftover_never_collected_witness:
  "eTextDelivered (hd (oEntries leftover_outbox)) \<and> length (oEntries leftover_outbox) = 1 \<and>
   (\<forall>t. ''e1'' \<notin> set (dueIDs t leftover_outbox))"
proof -
  let ?e = "hd (oEntries leftover_outbox)"
  have 1: "wf_entries (uuid_parse demo_lib) (oEntries leftover_outbox)" "idle_entry ?e" "eID ?e = ''e1''"
    "eTextDelivered ?e" "length (oEntries leftover_outbox) = 1" by code_simp+
  then have "?e \<in> set (oEntries leftover_outbox)" by (intro hd_in_set) auto
  from delivered_leftover_never_collected [OF 1(1) this 1(2)] 1 show ?thesis by simp
qed

definition card_entry :: terminalOutboxEntry where
  "card_entry = (draft_entry 5 ''r1'' (card_draft ''r1''))\<lparr>ePendingSupersedes := [schedule_pending 7 (demo_pending ''p1'')]\<rparr>"

definition anchored_outbox :: terminalOutbox where
  "anchored_outbox = fresh_outbox\<lparr>oEntries := [card_entry], oMaxAttempts := 1\<rparr>"

lemma persist_all_ok:
  "fsNode (oFS ob) \<noteq> NotRegular \<Longrightarrow> persist_entries lib all_ok es ob = (None, ob\<lparr>oEntries := es,
     oFS := (oFS ob)\<lparr>fsNode := Regular 384 (Some (encode_state (raw_message lib) es)), fsTmp := Absent\<rparr>\<rparr>)"
  by (simp add: persist_entries_def persistLocked_def writeTerminalOutbox_def all_ok_def)

lemma set_entry_single: "eID e' = eID e \<Longrightarrow> set_entry e' [e] = [e']"
  by (simp add: set_entry_def)

text \<open>The entry after the discard, after the failure and after the completion of its card operation.\<close>

definition discarded_entry :: terminalOutboxEntry where
  "discarded_entry = clear_payload 10 card_entry"

definition dead_entry :: terminalOutboxEntry where
  "dead_entry = failed_entry anchored_outbox 11 ''no'' discarded_entry"

definition broken_entry :: terminalOutboxEntry where
  "broken_entry = dead_entry\<lparr>ePendingSupersedes := [], eUpdatedAt := 12\<rparr>"

lemma race_facts:
  "eID card_entry = ''r1''" "eID discarded_entry = ''r1''" "eID dead_entry = ''r1''"
  "ePendingSupersedes card_entry \<noteq> []" "pendingStreamSupersedeIndex dead_entry ''p1'' = Some 0"
  "remove_nth 0 (ePendingSupersedes dead_entry) = []" "eDeadLetter dead_entry"
  "validateTerminalOutboxEntry (uuid_parse demo_lib) discarded_entry = None"
  "validateTerminalOutboxEntry (uuid_parse demo_lib) (encode_entry (raw_message demo_lib) broken_entry) = Some NoPayload"
  "terminalEntryHasWork card_entry" "\<not> eDeadLetter card_entry" "eTrace dead_entry = None"
  "wf_entries (uuid_parse demo_lib) [card_entry]"
  by code_simp+

definition race_restart :: "(outbox_error + terminalOutboxEntry list) option" where
  "race_restart =
     (case beginAttempt ''r1'' anchored_outbox of
        None \<Rightarrow> None
      | Some (e, ob) \<Rightarrow>
          Some (loadTerminalOutbox demo_lib True True (fsNode (oFS
            (snd (completePendingStreamSupersede demo_lib all_ok 12 ''r1'' ''p1''
              (endAttempt ''r1'' (snd (recordFailure demo_lib all_ok 11 ''r1'' ''no''
                (snd (discardReservation demo_lib all_ok 10 ''r1'' ob)))))))))))"

text \<open>
  Why the callers' discipline is needed. If a caller discards a reservation that has a pending card
  operation while an attempt on it is under way, and that attempt fails at the limit, the entry
  becomes a dead letter without payload; the completion of its card operation then writes a
  state file that the next start of the process refuses.
\<close>

theorem discard_during_attempt_breaks_restart:
  "wf_entries (uuid_parse demo_lib) (oEntries anchored_outbox) \<and> race_restart = Some (Inl NoPayload)"
proof
  show "wf_entries (uuid_parse demo_lib) (oEntries anchored_outbox)"
    using race_facts by (simp add: anchored_outbox_def)
  let ?file = "\<lambda>e. \<lparr>fsNode = Regular 384 (Some (encode_state (raw_message demo_lib) [e])), fsTmp = Absent\<rparr>"
  have fresh: "oProcessing fresh_outbox = {}" "oFS fresh_outbox = empty_fs" "oMaxAttempts fresh_outbox = 12"
    by (simp_all add: fresh_outbox_def newTerminalOutbox_def loadTerminalOutbox_def empty_fs_def terminalOutboxMaxAttempts_def)
  define ob1 where "ob1 = anchored_outbox\<lparr>oProcessing := {''r1''}\<rparr>"
  have b: "beginAttempt ''r1'' anchored_outbox = Some (card_entry, ob1)"
    using race_facts fresh by (simp add: beginAttempt_def entryLocked_def anchored_outbox_def ob1_def)
  define ob2 where "ob2 = snd (discardReservation demo_lib all_ok 10 ''r1'' ob1)"
  have 2: "oEntries ob2 = [discarded_entry]" "oFS ob2 = ?file discarded_entry" "oMaxAttempts ob2 = 1"
    using race_facts fresh
    by (simp_all add: ob2_def discardReservation_def entryLocked_def ob1_def anchored_outbox_def edit_entry_def
        discarded_entry_def [symmetric] persist_all_ok set_entry_single signal_def empty_fs_def)
  have f: "failed_entry ob2 11 ''no'' discarded_entry = dead_entry"
    using 2 by (simp add: dead_entry_def failed_entry_def attemptLimit_def anchored_outbox_def)
  define ob3 where "ob3 = snd (recordFailure demo_lib all_ok 11 ''r1'' ''no'' ob2)"
  have 3: "oEntries (endAttempt ''r1'' ob3) = [dead_entry]" "oFS (endAttempt ''r1'' ob3) = ?file dead_entry"
    using race_facts 2 f
    by (simp_all add: ob3_def recordFailure_def entryLocked_def Let_def persist_all_ok set_entry_single endAttempt_def
        signal_def recordTrace_def)
  have "oFS (snd (completePendingStreamSupersede demo_lib all_ok 12 ''r1'' ''p1'' (endAttempt ''r1'' ob3))) = ?file broken_entry"
    using race_facts 3
    by (simp add: completePendingStreamSupersede_def entryLocked_def Let_def persist_all_ok broken_entry_def set_entry_single)
  moreover have "loadTerminalOutbox demo_lib True True (fsNode (?file broken_entry)) = Inl NoPayload"
    using race_facts by (simp add: loadTerminalOutbox_def encode_state_def terminalOutboxMaxEntries_def)
  ultimately show "race_restart = Some (Inl NoPayload)"
    by (simp add: race_restart_def b ob2_def [symmetric] ob3_def [symmetric])
qed

end
