(* ===== verification/Owner_Registry.thy ===== *)
theory Owner_Registry
  imports Prelude
begin

section \<open>The Codex runtime owner registry\<close>

text \<open>
  \<open>agent/codex_desktop_owner.go\<close>, \<open>agent/codex_runtime_lease.go\<close>, \<open>agent/codex_runtime_observation.go\<close>,
  \<open>agent/codex_runtime_reconcile.go\<close> and \<open>forgetThread\<close> of \<open>agent/codex_thread_archive.go\<close>: which
  runtime holds a Codex thread, which conversation is bound to which thread, and the writer
  leases that keep two turns from being started on one thread.

  A Go map is a function; an absent key reads as the zero value where the source relies on it.
  Lease objects are compared by pointer in the source, so leases live in a store indexed by
  their address and the registry maps a thread to an address. A channel that is only ever
  closed is a flag. The named string types of the source keep their strings, since their zero value
  is a value of its own. \<open>uint64\<close> counters are 64 bit words and wrap. Loops over a map take the
  order of the iteration as an argument where it matters.
\<close>

subsection \<open>Data\<close>

type_synonym codexControlOwner = string
type_synonym codexRuntimeHolder = string

definition codexControlUnclaimed :: codexControlOwner where "codexControlUnclaimed = ''unclaimed''"
definition codexControlDesktop :: codexControlOwner where "codexControlDesktop = ''desktop''"
definition codexControlRemote :: codexControlOwner where "codexControlRemote = ''remote''"
definition codexRuntimeUnknown :: codexRuntimeHolder where "codexRuntimeUnknown = ''unknown''"
definition codexRuntimeDesktop :: codexRuntimeHolder where "codexRuntimeDesktop = ''desktop''"
definition codexRuntimeWeClaw :: codexRuntimeHolder where "codexRuntimeWeClaw = ''weclaw''"
definition codexRuntimeConflict :: codexRuntimeHolder where "codexRuntimeConflict = ''conflict''"

record codexThreadRef =
  refConversationID :: string
  refThreadID :: string

record codexControlIntent =
  ciOwner :: codexControlOwner
  ciRouteKey :: string
  ciConversationID :: string
  ciRevision :: uint64

record codexThreadState =
  tsThreadID :: string
  tsThreadStatus :: string
  tsModel :: string
  tsEffort :: string
  tsActive :: bool
  tsActiveTurnID :: string
  tsLastTurnID :: string
  tsLastTurnStatus :: string
  tsLastTurnError :: string
  tsWaitingOnApproval :: bool
  tsWaitingOnUserInput :: bool
  tsPreview :: string
  tsLastAgentMessageText :: string
  tsLastTurnBodyLoaded :: bool

record codexThreadBinding =
  tbRef :: codexThreadRef
  tbState :: codexThreadState
  tbControl :: codexControlIntent
  tbRuntime :: codexRuntimeHolder
  tbRuntimeGeneration :: uint64
  tbConflictReason :: string

record codexRolloutCheckpoint =
  rcPath :: string
  rcTurnID :: string
  rcOffset :: int
  rcSize :: int
  rcActive :: bool

record codexRuntimeRequest =
  rqRef :: codexThreadRef
  rqIntent :: codexControlIntent
  rqCheckpoint :: codexRolloutCheckpoint
  rqWorkspaceRoot :: string
  rqPendingFirstTurn :: bool

record codexWriterLeaseState =
  wlRuntimeGeneration :: uint64
  wlControlRevision :: uint64
  wlRuntime :: codexRuntimeHolder
  wlRouteKey :: string
  wlTurnID :: string
  wlCandidateDesktopTurn :: string
  wlBaselineLastTurnID :: string
  wlUncertain :: bool
  wlConflict :: bool
  wlConflictClosed :: bool
  wlResolvedClosed :: bool

record codexWriterLease =
  lhThreadID :: string
  lhState :: nat

record codexRuntimeOwnerRegistry =
  orThreads :: "string \<rightharpoonup> codexThreadBinding"
  orConversations :: "string \<rightharpoonup> string"
  orConversationRevisions :: "string \<Rightarrow> uint64"
  orRevisionCounter :: uint64
  orLeases :: "string \<rightharpoonup> nat"
  orLeaseStore :: "nat \<Rightarrow> codexWriterLeaseState"
  orNextLease :: nat
  orArchivedThreads :: "string set"
  orEnforceControl :: bool

datatype codex_error =
    ErrControlChanged | ErrControlRequired | ErrRuntimeConflict | ErrRuntimeUnavailable | ErrWriterBusy
  | ErrMissingIdentity | ErrInvalidOwner | ErrInvalidRuntime | ErrThreadMismatch | ErrEmptyTurnID
  | ErrMissingTurnID

definition zero_state :: codexThreadState where
  "zero_state = \<lparr>tsThreadID = [], tsThreadStatus = [], tsModel = [], tsEffort = [], tsActive = False,
     tsActiveTurnID = [], tsLastTurnID = [], tsLastTurnStatus = [], tsLastTurnError = [],
     tsWaitingOnApproval = False, tsWaitingOnUserInput = False, tsPreview = [], tsLastAgentMessageText = [],
     tsLastTurnBodyLoaded = False\<rparr>"

definition zero_binding :: codexThreadBinding where
  "zero_binding = \<lparr>tbRef = \<lparr>refConversationID = [], refThreadID = []\<rparr>, tbState = zero_state,
     tbControl = \<lparr>ciOwner = [], ciRouteKey = [], ciConversationID = [], ciRevision = 0\<rparr>,
     tbRuntime = [], tbRuntimeGeneration = 0, tbConflictReason = []\<rparr>"

definition threadAt :: "codexRuntimeOwnerRegistry \<Rightarrow> string \<Rightarrow> codexThreadBinding" where
  "threadAt r t = (case orThreads r t of None \<Rightarrow> zero_binding | Some b \<Rightarrow> b)"

definition conversationAt :: "codexRuntimeOwnerRegistry \<Rightarrow> string \<Rightarrow> string" where
  "conversationAt r c = (case orConversations r c of None \<Rightarrow> [] | Some t \<Rightarrow> t)"

definition set_thread :: "string \<Rightarrow> codexThreadBinding \<Rightarrow> codexRuntimeOwnerRegistry \<Rightarrow> codexRuntimeOwnerRegistry" where
  "set_thread t b r = r\<lparr>orThreads := (orThreads r)(t \<mapsto> b)\<rparr>"

definition set_conversation :: "string \<Rightarrow> string \<Rightarrow> codexRuntimeOwnerRegistry \<Rightarrow> codexRuntimeOwnerRegistry" where
  "set_conversation c t r = r\<lparr>orConversations := (orConversations r)(c \<mapsto> t)\<rparr>"

definition newCodexRuntimeOwnerRegistry :: "bool \<Rightarrow> codexRuntimeOwnerRegistry" where
  "newCodexRuntimeOwnerRegistry hasProbe =
     \<lparr>orThreads = Map.empty, orConversations = Map.empty, orConversationRevisions = (\<lambda>_. 0),
      orRevisionCounter = 0, orLeases = Map.empty,
      orLeaseStore = (\<lambda>_. \<lparr>wlRuntimeGeneration = 0, wlControlRevision = 0, wlRuntime = [], wlRouteKey = [],
        wlTurnID = [], wlCandidateDesktopTurn = [], wlBaselineLastTurnID = [], wlUncertain = False,
        wlConflict = False, wlConflictClosed = False, wlResolvedClosed = False\<rparr>),
      orNextLease = 0, orArchivedThreads = {}, orEnforceControl = hasProbe\<rparr>"

subsection \<open>Requests, intents and generations\<close>

definition validateCodexRuntimeRequest :: "codexRuntimeRequest \<Rightarrow> codex_error option" where
  "validateCodexRuntimeRequest req =
     (if blank (refThreadID (rqRef req)) \<or> blank (refConversationID (rqRef req)) then Some ErrMissingIdentity
      else if ciOwner (rqIntent req) = codexControlUnclaimed \<or> ciOwner (rqIntent req) = codexControlDesktop then None
      else if ciOwner (rqIntent req) = codexControlRemote then
        (if blank (ciRouteKey (rqIntent req)) \<or> blank (ciConversationID (rqIntent req))
         then Some ErrControlRequired else None)
      else Some ErrInvalidOwner)"

definition validateRemoteCodexRequest :: "codexRuntimeRequest \<Rightarrow> codex_error option" where
  "validateRemoteCodexRequest req =
     (case validateCodexRuntimeRequest req of
        Some err \<Rightarrow> Some err
      | None \<Rightarrow>
          if ciOwner (rqIntent req) \<noteq> codexControlRemote \<or>
             go_trim (ciConversationID (rqIntent req)) \<noteq> go_trim (refConversationID (rqRef req))
          then Some ErrControlRequired else None)"

definition validateCodexRuntimeRequestForRegistry :: "codexRuntimeRequest \<Rightarrow> bool \<Rightarrow> codex_error option" where
  "validateCodexRuntimeRequestForRegistry req enforceControl =
     (if enforceControl then validateRemoteCodexRequest req
      else if blank (refThreadID (rqRef req)) \<or> blank (refConversationID (rqRef req)) then Some ErrMissingIdentity
      else None)"

definition sameCodexControlIntent :: "codexControlIntent \<Rightarrow> codexControlIntent \<Rightarrow> bool" where
  "sameCodexControlIntent l r \<longleftrightarrow>
     ciOwner l = ciOwner r \<and> ciRouteKey l = ciRouteKey r \<and> ciConversationID l = ciConversationID r \<and>
     ciRevision l = ciRevision r"

definition codexControlIntentEstablished :: "codexControlIntent \<Rightarrow> bool" where
  "codexControlIntentEstablished i \<longleftrightarrow>
     ciOwner i \<noteq> [] \<or> ciRouteKey i \<noteq> [] \<or> ciConversationID i \<noteq> [] \<or> ciRevision i \<noteq> 0"

definition validCodexRuntimeHolder :: "codexRuntimeHolder \<Rightarrow> bool" where
  "validCodexRuntimeHolder rt \<longleftrightarrow>
     rt = codexRuntimeUnknown \<or> rt = codexRuntimeDesktop \<or> rt = codexRuntimeWeClaw \<or> rt = codexRuntimeConflict"

definition codexBindingRuntime :: "codexThreadBinding \<Rightarrow> codexRuntimeHolder" where
  "codexBindingRuntime b = tbRuntime b"

definition nextCodexRuntimeGeneration :: "codexThreadBinding \<Rightarrow> codexRuntimeHolder \<Rightarrow> uint64" where
  "nextCodexRuntimeGeneration b rt =
     (if tbRuntimeGeneration b = 0 \<or> codexBindingRuntime b \<noteq> rt then tbRuntimeGeneration b + 1
      else tbRuntimeGeneration b)"

definition activateCodexBinding ::
  "codexThreadBinding \<Rightarrow> codexRuntimeRequest \<Rightarrow> codexRuntimeHolder \<Rightarrow> codexThreadState \<Rightarrow> codexThreadBinding" where
  "activateCodexBinding cur req rt st =
     \<lparr>tbRef = rqRef req, tbState = st\<lparr>tsThreadID := refThreadID (rqRef req)\<rparr>, tbControl = rqIntent req,
      tbRuntime = rt,
      tbRuntimeGeneration = (if tbRuntimeGeneration cur = 0 \<or> tbRuntime cur \<noteq> rt
        then tbRuntimeGeneration cur + 1 else tbRuntimeGeneration cur),
      tbConflictReason = (if rt = codexRuntimeConflict then tbConflictReason cur else [])\<rparr>"

subsection \<open>Conversation revisions\<close>

definition advanceConversationRevisionLocked ::
  "string \<Rightarrow> codexRuntimeOwnerRegistry \<Rightarrow> uint64 \<times> codexRuntimeOwnerRegistry" where
  "advanceConversationRevisionLocked c r =
     (if c = [] then (0, r)
      else
        let n = orRevisionCounter r + 1 in
        (n, r\<lparr>orRevisionCounter := n, orConversationRevisions := (orConversationRevisions r)(c := n)\<rparr>))"

definition ensureConversationRevisionLocked ::
  "string \<Rightarrow> codexRuntimeOwnerRegistry \<Rightarrow> uint64 \<times> codexRuntimeOwnerRegistry" where
  "ensureConversationRevisionLocked c r =
     (if orConversationRevisions r c \<noteq> 0 then (orConversationRevisions r c, r)
      else advanceConversationRevisionLocked c r)"

definition conversationBindingRevisionMatchesLocked ::
  "string \<Rightarrow> uint64 \<Rightarrow> string \<Rightarrow> codexRuntimeOwnerRegistry \<Rightarrow> bool" where
  "conversationBindingRevisionMatchesLocked c0 revision expected r =
     (let c = go_trim c0 in
      revision \<noteq> 0 \<and> orConversationRevisions r c = revision \<and>
      (blank expected \<or> go_trim (conversationAt r c) = go_trim expected))"

definition beginConversationBindingIntent ::
  "string \<Rightarrow> codexRuntimeOwnerRegistry \<Rightarrow> uint64 \<times> codexRuntimeOwnerRegistry" where
  "beginConversationBindingIntent c r = advanceConversationRevisionLocked (go_trim c) r"

definition currentConversationBindingRevision ::
  "codexThreadRef \<Rightarrow> codexRuntimeOwnerRegistry \<Rightarrow> (uint64 \<times> bool) \<times> codexRuntimeOwnerRegistry" where
  "currentConversationBindingRevision ref r =
     (let c = go_trim (refConversationID ref); t = go_trim (refThreadID ref) in
      if c = [] \<or> t = [] \<or> go_trim (conversationAt r c) \<noteq> t then ((0, False), r)
      else (case ensureConversationRevisionLocked c r of (n, r') \<Rightarrow> ((n, True), r')))"

definition invalidateConversationBinding ::
  "string \<Rightarrow> codexRuntimeOwnerRegistry \<Rightarrow> uint64 \<times> codexRuntimeOwnerRegistry" where
  "invalidateConversationBinding c0 r =
     (let c = go_trim c0 in
      case advanceConversationRevisionLocked c r of
        (n, r') \<Rightarrow> (n, r'\<lparr>orConversations := (orConversations r')(c := None)\<rparr>))"

definition trim_ref :: "codexThreadRef \<Rightarrow> codexThreadRef" where
  "trim_ref ref = \<lparr>refConversationID = go_trim (refConversationID ref), refThreadID = go_trim (refThreadID ref)\<rparr>"

definition bindConversation ::
  "codexThreadRef \<Rightarrow> codexThreadBinding \<Rightarrow> codexRuntimeOwnerRegistry \<Rightarrow> codexThreadBinding \<times> codexRuntimeOwnerRegistry" where
  "bindConversation ref0 b r =
     (let ref = trim_ref ref0; (_, r') = advanceConversationRevisionLocked (refConversationID ref) r in
      (b\<lparr>tbRef := ref\<rparr>, set_conversation (refConversationID ref) (refThreadID ref) r'))"

definition bindConversationAtRevision ::
  "codexThreadRef \<Rightarrow> codexThreadBinding \<Rightarrow> uint64 \<Rightarrow> codexRuntimeOwnerRegistry
   \<Rightarrow> (codexThreadBinding \<times> codex_error option) \<times> codexRuntimeOwnerRegistry" where
  "bindConversationAtRevision ref0 b revision r =
     (let ref = trim_ref ref0 in
      if orConversationRevisions r (refConversationID ref) \<noteq> revision then ((b, Some ErrControlChanged), r)
      else ((b\<lparr>tbRef := ref\<rparr>, None), set_conversation (refConversationID ref) (refThreadID ref) r))"

definition currentConversationBinding ::
  "string \<Rightarrow> codexRuntimeOwnerRegistry \<Rightarrow> codexThreadBinding option" where
  "currentConversationBinding c0 r =
     (let c = go_trim c0 in
      map_option (\<lambda>b. b\<lparr>tbRef := (tbRef b)\<lparr>refConversationID := c\<rparr>, tbRuntime := codexBindingRuntime b\<rparr>)
        (orThreads r (conversationAt r c)))"

definition threadBinding :: "string \<Rightarrow> codexRuntimeOwnerRegistry \<Rightarrow> codexThreadBinding option" where
  "threadBinding t r = orThreads r (go_trim t)"

subsection \<open>Claims and runtime authority\<close>

definition claimWeClawThread ::
  "string \<Rightarrow> codexThreadState \<Rightarrow> codexRuntimeOwnerRegistry \<Rightarrow> codexThreadBinding \<times> codexRuntimeOwnerRegistry" where
  "claimWeClawThread t st r =
     (let cur = threadAt r t;
          b = \<lparr>tbRef = \<lparr>refConversationID = [], refThreadID = t\<rparr>, tbState = st, tbControl = tbControl cur,
               tbRuntime = codexRuntimeWeClaw, tbRuntimeGeneration = nextCodexRuntimeGeneration cur codexRuntimeWeClaw,
               tbConflictReason = []\<rparr>
      in (b, set_thread t b r))"

definition claimWeClawConversationLocked ::
  "codexThreadRef \<Rightarrow> codexThreadState \<Rightarrow> codexRuntimeOwnerRegistry \<Rightarrow> codexThreadBinding \<times> codexRuntimeOwnerRegistry" where
  "claimWeClawConversationLocked ref st r =
     (let cur = threadAt r (refThreadID ref);
          b = \<lparr>tbRef = ref, tbState = st\<lparr>tsThreadID := refThreadID ref\<rparr>, tbControl = tbControl cur,
               tbRuntime = codexRuntimeWeClaw, tbRuntimeGeneration = nextCodexRuntimeGeneration cur codexRuntimeWeClaw,
               tbConflictReason = []\<rparr>
      in (b, set_conversation (refConversationID ref) (refThreadID ref) (set_thread (refThreadID ref) b r)))"

definition claimWeClawConversation ::
  "codexThreadRef \<Rightarrow> codexThreadState \<Rightarrow> codexRuntimeOwnerRegistry \<Rightarrow> codexThreadBinding \<times> codexRuntimeOwnerRegistry" where
  "claimWeClawConversation ref0 st r =
     (let ref = trim_ref ref0 in
      claimWeClawConversationLocked ref st (snd (advanceConversationRevisionLocked (refConversationID ref) r)))"

definition claimWeClawConversationAtRevision ::
  "codexThreadRef \<Rightarrow> codexThreadState \<Rightarrow> uint64 \<Rightarrow> codexRuntimeOwnerRegistry
   \<Rightarrow> (codexThreadBinding \<times> codex_error option) \<times> codexRuntimeOwnerRegistry" where
  "claimWeClawConversationAtRevision ref0 st revision r =
     (let ref = trim_ref ref0 in
      if orConversationRevisions r (refConversationID ref) \<noteq> revision then ((zero_binding, Some ErrControlChanged), r)
      else if refThreadID ref \<in> orArchivedThreads r then ((zero_binding, Some ErrControlChanged), r)
      else (case claimWeClawConversationLocked ref st r of (b, r') \<Rightarrow> ((b, None), r')))"

definition unarchiveThread :: "string \<Rightarrow> codexRuntimeOwnerRegistry \<Rightarrow> codexRuntimeOwnerRegistry" where
  "unarchiveThread t r = r\<lparr>orArchivedThreads := orArchivedThreads r - {go_trim t}\<rparr>"

definition lose_runtime :: "codexThreadBinding \<Rightarrow> codexThreadBinding" where
  "lose_runtime b = b\<lparr>tbRuntime := codexRuntimeUnknown, tbRuntimeGeneration := tbRuntimeGeneration b + 1\<rparr>"

definition markDesktopDisconnected :: "codexRuntimeOwnerRegistry \<Rightarrow> codexRuntimeOwnerRegistry" where
  "markDesktopDisconnected r = r\<lparr>orThreads := (\<lambda>t. map_option
     (\<lambda>b. if codexBindingRuntime b \<noteq> codexRuntimeDesktop then b else lose_runtime b) (orThreads r t))\<rparr>"

definition switchRuntimeAuthority :: "codexRuntimeHolder \<Rightarrow> codexRuntimeOwnerRegistry \<Rightarrow> codexRuntimeOwnerRegistry" where
  "switchRuntimeAuthority rt r = r\<lparr>orThreads := (\<lambda>t. map_option
     (\<lambda>b. let cur = codexBindingRuntime b in
        if cur = codexRuntimeConflict \<or> cur = codexRuntimeUnknown \<or> cur = rt then b else lose_runtime b) (orThreads r t))\<rparr>"

definition invalidateRuntimeAuthority :: "codexRuntimeHolder \<Rightarrow> codexRuntimeOwnerRegistry \<Rightarrow> codexRuntimeOwnerRegistry" where
  "invalidateRuntimeAuthority rt r = r\<lparr>orThreads := (\<lambda>t. map_option
     (\<lambda>b. if codexBindingRuntime b \<noteq> rt then b else lose_runtime b) (orThreads r t))\<rparr>"

definition confirmWeClawThreadsIdle :: "codexRuntimeOwnerRegistry \<Rightarrow> codexRuntimeOwnerRegistry" where
  "confirmWeClawThreadsIdle r = r\<lparr>orThreads := (\<lambda>t. map_option
     (\<lambda>b. if tbRuntime b \<noteq> codexRuntimeWeClaw then b
          else b\<lparr>tbState := (tbState b)\<lparr>tsActive := False, tsActiveTurnID := []\<rparr>\<rparr>) (orThreads r t))\<rparr>"

text \<open>Restoring the bindings of the previous process, one conversation at a time.\<close>

definition restore_binding ::
  "string \<times> codexThreadBinding \<Rightarrow> codexRuntimeOwnerRegistry \<Rightarrow> codexRuntimeOwnerRegistry" where
  "restore_binding cb r =
     (let c = fst cb; t = go_trim (refThreadID (tbRef (snd cb))) in
      if c = [] \<or> t = [] then r
      else
        let b = \<lparr>tbRef = \<lparr>refConversationID = c, refThreadID = t\<rparr>, tbState = tbState (snd cb),
                 tbControl = tbControl zero_binding, tbRuntime = codexRuntimeUnknown,
                 tbRuntimeGeneration = 1, tbConflictReason = []\<rparr>
        in snd (ensureConversationRevisionLocked c (set_conversation c t (set_thread t b r))))"

definition restoreBindings ::
  "(string \<times> codexThreadBinding) list \<Rightarrow> codexRuntimeOwnerRegistry \<Rightarrow> nat \<times> codexRuntimeOwnerRegistry" where
  "restoreBindings bs r =
     (length (filter (\<lambda>(c, b). c \<noteq> [] \<and> go_trim (refThreadID (tbRef b)) \<noteq> []) bs), fold restore_binding bs r)"

end
