(* ===== verification/Owner_Lease.thy ===== *)
theory Owner_Lease
  imports Owner_Registry
begin

section \<open>Writer leases, observations and reconciliation\<close>

text \<open>
  The operations of \<open>agent/codex_runtime_lease.go\<close>, \<open>agent/codex_runtime_observation.go\<close>,
  \<open>agent/codex_runtime_reconcile.go\<close> and \<open>forgetThread\<close> of \<open>agent/codex_thread_archive.go\<close> on
  the registry of \<open>Owner_Registry\<close>. Every operation holds the registry's mutex from its first
  to its last access, so each is one function on the registry. Operations that answer with a
  binding and an error return both: the source fills the binding in on several of its error
  paths. The Go struct that a writer keeps is the handle \<^typ>\<open>codexWriterLease\<close>, the thread
  and the address of the lease object.
\<close>

type_synonym binding_result = "(codexThreadBinding \<times> codex_error option) \<times> codexRuntimeOwnerRegistry"

definition lease_of :: "codexRuntimeOwnerRegistry \<Rightarrow> nat \<Rightarrow> codexWriterLeaseState" where
  "lease_of r a = orLeaseStore r a"

definition set_lease :: "nat \<Rightarrow> (codexWriterLeaseState \<Rightarrow> codexWriterLeaseState) \<Rightarrow> codexRuntimeOwnerRegistry
    \<Rightarrow> codexRuntimeOwnerRegistry" where
  "set_lease a f r = r\<lparr>orLeaseStore := (orLeaseStore r)(a := f (orLeaseStore r a))\<rparr>"

subsection \<open>Activation\<close>

definition bindingDuringWriterLease ::
  "codexRuntimeRequest \<Rightarrow> codexRuntimeHolder \<Rightarrow> codexRuntimeOwnerRegistry \<Rightarrow> codexThreadBinding \<times> codex_error option" where
  "bindingDuringWriterLease req rt r =
     (case orThreads r (refThreadID (rqRef req)) of
        None \<Rightarrow> (zero_binding, Some ErrControlChanged)
      | Some b \<Rightarrow>
          if \<not> sameCodexControlIntent (tbControl b) (rqIntent req) then (zero_binding, Some ErrControlChanged)
          else if tbRuntime b = codexRuntimeConflict then (b, Some ErrRuntimeConflict)
          else if tbRuntime b \<noteq> rt then (b, Some ErrWriterBusy)
          else (b, None))"

definition activateRuntimeLocked ::
  "codexRuntimeRequest \<Rightarrow> codexRuntimeHolder \<Rightarrow> codexThreadState \<Rightarrow> codexRuntimeOwnerRegistry \<Rightarrow> binding_result" where
  "activateRuntimeLocked req rt st r =
     (let t = refThreadID (rqRef req) in
      if t \<in> orArchivedThreads r then ((threadAt r t, Some ErrControlChanged), r)
      else if orLeases r t \<noteq> None then
        (if \<not> orEnforceControl r then
           (let b = threadAt r t in
            if tbRuntime b \<noteq> rt then ((b, Some ErrWriterBusy), r)
            else ((b\<lparr>tbRef := rqRef req\<rparr>, None), set_conversation (refConversationID (rqRef req)) t r))
         else (bindingDuringWriterLease req rt r, r))
      else
        let b = activateCodexBinding (threadAt r t) req rt st in
        ((b, None), set_conversation (refConversationID (rqRef req)) t (set_thread t b r)))"

definition activateRuntime ::
  "codexRuntimeRequest \<Rightarrow> codexRuntimeHolder \<Rightarrow> codexThreadState \<Rightarrow> codexRuntimeOwnerRegistry \<Rightarrow> binding_result" where
  "activateRuntime req rt st r =
     (case validateCodexRuntimeRequest req of
        Some err \<Rightarrow> ((zero_binding, Some err), r)
      | None \<Rightarrow>
          if \<not> validCodexRuntimeHolder rt then ((zero_binding, Some ErrInvalidRuntime), r)
          else activateRuntimeLocked req rt st r)"

definition activateRuntimeAtRevision ::
  "codexRuntimeRequest \<Rightarrow> codexRuntimeHolder \<Rightarrow> codexThreadState \<Rightarrow> uint64 \<Rightarrow> string
   \<Rightarrow> codexRuntimeOwnerRegistry \<Rightarrow> binding_result" where
  "activateRuntimeAtRevision req rt st revision expected r =
     (case validateCodexRuntimeRequest req of
        Some err \<Rightarrow> ((zero_binding, Some err), r)
      | None \<Rightarrow>
          if \<not> validCodexRuntimeHolder rt then ((zero_binding, Some ErrInvalidRuntime), r)
          else if \<not> conversationBindingRevisionMatchesLocked (refConversationID (rqRef req)) revision expected r
          then ((zero_binding, Some ErrControlChanged), r)
          else activateRuntimeLocked req rt st r)"

definition state_thread_differs :: "string \<Rightarrow> codexThreadState \<Rightarrow> bool" where
  "state_thread_differs t st \<longleftrightarrow> \<not> blank (tsThreadID st) \<and> go_trim (tsThreadID st) \<noteq> t"

definition activateDesktopActiveWriter ::
  "codexRuntimeRequest \<Rightarrow> codexThreadBinding option \<Rightarrow> codexThreadState \<Rightarrow> uint64 \<Rightarrow> string
   \<Rightarrow> codexRuntimeOwnerRegistry \<Rightarrow> binding_result" where
  "activateDesktopActiveWriter req expected st revision expectedThread r =
     (case validateCodexRuntimeRequestForRegistry req (orEnforceControl r) of
        Some err \<Rightarrow> ((zero_binding, Some err), r)
      | None \<Rightarrow>
          let t = go_trim (refThreadID (rqRef req)); c = go_trim (refConversationID (rqRef req)) in
          if state_thread_differs t st then ((zero_binding, Some ErrThreadMismatch), r)
          else if revision = 0 \<or> orConversationRevisions r c \<noteq> revision \<or>
                  go_trim (conversationAt r c) \<noteq> go_trim expectedThread
          then ((zero_binding, Some ErrControlChanged), r)
          else (case orThreads r t of
              None \<Rightarrow> ((zero_binding, Some ErrControlChanged), r)
            | Some b \<Rightarrow>
                if (case expected of None \<Rightarrow> False
                    | Some e \<Rightarrow> tbRuntime b \<noteq> tbRuntime e \<or> tbRuntimeGeneration b \<noteq> tbRuntimeGeneration e \<or>
                        \<not> sameCodexControlIntent (tbControl b) (tbControl e))
                then ((b, Some ErrControlChanged), r)
                else if tbRuntime b = codexRuntimeConflict then ((b, Some ErrRuntimeConflict), r)
                else if tbRuntime b \<noteq> codexRuntimeWeClaw then ((b, Some ErrRuntimeUnavailable), r)
                else if orLeases r t \<noteq> None then ((b, Some ErrWriterBusy), r)
                else
                  let b' = activateCodexBinding b req codexRuntimeDesktop (st\<lparr>tsThreadID := t\<rparr>) in
                  ((b', None), set_conversation (refConversationID (rqRef req)) t (set_thread t b' r))))"

subsection \<open>The life of a lease\<close>

definition new_lease :: "codexRuntimeRequest \<Rightarrow> codexThreadBinding \<Rightarrow> codexWriterLeaseState" where
  "new_lease req b =
     \<lparr>wlRuntimeGeneration = tbRuntimeGeneration b, wlControlRevision = ciRevision (rqIntent req),
      wlRuntime = tbRuntime b, wlRouteKey = ciRouteKey (rqIntent req), wlTurnID = [], wlCandidateDesktopTurn = [],
      wlBaselineLastTurnID = go_trim (tsLastTurnID (tbState b)), wlUncertain = False, wlConflict = False,
      wlConflictClosed = False, wlResolvedClosed = False\<rparr>"

definition beginTurn ::
  "codexRuntimeRequest \<Rightarrow> codexRuntimeOwnerRegistry \<Rightarrow> (codex_error + codexWriterLease) \<times> codexRuntimeOwnerRegistry" where
  "beginTurn req r =
     (case validateCodexRuntimeRequestForRegistry req (orEnforceControl r) of
        Some err \<Rightarrow> (Inl err, r)
      | None \<Rightarrow>
          let t = refThreadID (rqRef req) in
          case orThreads r t of
            None \<Rightarrow> (Inl ErrControlChanged, r)
          | Some b \<Rightarrow>
              if t \<in> orArchivedThreads r then (Inl ErrControlChanged, r)
              else if orEnforceControl r \<and> \<not> sameCodexControlIntent (tbControl b) (rqIntent req)
              then (Inl ErrControlChanged, r)
              else if tbRuntime b = codexRuntimeConflict then (Inl ErrRuntimeConflict, r)
              else if tbRuntime b \<noteq> codexRuntimeWeClaw \<and> tbRuntime b \<noteq> codexRuntimeDesktop
              then (Inl ErrRuntimeUnavailable, r)
              else if orLeases r t \<noteq> None then (Inl ErrWriterBusy, r)
              else
                let a = orNextLease r in
                (Inr \<lparr>lhThreadID = t, lhState = a\<rparr>,
                 r\<lparr>orLeases := (orLeases r)(t \<mapsto> a), orNextLease := Suc a,
                   orLeaseStore := (orLeaseStore r)(a := new_lease req b)\<rparr>))"

definition holds_lease :: "codexWriterLease \<Rightarrow> codexRuntimeOwnerRegistry \<Rightarrow> bool" where
  "holds_lease l r \<longleftrightarrow> orLeases r (lhThreadID l) = Some (lhState l)"

definition bindingErrorLocked :: "codexWriterLease \<Rightarrow> codexRuntimeOwnerRegistry \<Rightarrow> codex_error option" where
  "bindingErrorLocked l r =
     (let b = threadAt r (lhThreadID l); ls = lease_of r (lhState l) in
      if orEnforceControl r \<and> (ciOwner (tbControl b) \<noteq> codexControlRemote \<or>
           ciRevision (tbControl b) \<noteq> wlControlRevision ls \<or> ciRouteKey (tbControl b) \<noteq> wlRouteKey ls)
      then Some ErrControlChanged
      else if tbRuntime b \<noteq> wlRuntime ls \<or> tbRuntimeGeneration b \<noteq> wlRuntimeGeneration ls
      then Some ErrRuntimeUnavailable
      else None)"

definition accept ::
  "codexWriterLease \<Rightarrow> string \<Rightarrow> codexRuntimeOwnerRegistry \<Rightarrow> codex_error option \<times> codexRuntimeOwnerRegistry" where
  "accept l turn r =
     (if blank turn then (Some ErrEmptyTurnID, r)
      else if \<not> holds_lease l r then (Some ErrControlChanged, r)
      else (case bindingErrorLocked l r of
          Some err \<Rightarrow> (Some err, r)
        | None \<Rightarrow>
            let b = threadAt r (lhThreadID l) in
            (None, set_thread (lhThreadID l)
               (b\<lparr>tbState := (tbState b)\<lparr>tsActive := True, tsActiveTurnID := go_trim turn\<rparr>\<rparr>)
               (set_lease (lhState l) (\<lambda>s. s\<lparr>wlTurnID := go_trim turn, wlResolvedClosed := True\<rparr>) r))))"

definition check :: "codexWriterLease \<Rightarrow> codexRuntimeOwnerRegistry \<Rightarrow> codex_error option" where
  "check l r =
     (if \<not> holds_lease l r then Some ErrControlChanged
      else if wlConflict (lease_of r (lhState l)) \<or> tbRuntime (threadAt r (lhThreadID l)) = codexRuntimeConflict
      then Some ErrRuntimeConflict
      else bindingErrorLocked l r)"

definition acceptedTurnID :: "codexWriterLease \<Rightarrow> codexRuntimeOwnerRegistry \<Rightarrow> string" where
  "acceptedTurnID l r = (if \<not> holds_lease l r then [] else go_trim (wlTurnID (lease_of r (lhState l))))"

definition keep_active :: "string \<Rightarrow> codexThreadState \<Rightarrow> codexThreadState" where
  "keep_active turn st = st\<lparr>tsActive := True,
     tsActiveTurnID := (if tsActiveTurnID st = [] then turn else tsActiveTurnID st)\<rparr>"

definition markUncertain :: "codexWriterLease \<Rightarrow> codexRuntimeOwnerRegistry \<Rightarrow> codexRuntimeOwnerRegistry" where
  "markUncertain l r =
     (if \<not> holds_lease l r then r
      else
        let r' = set_lease (lhState l) (\<lambda>s. s\<lparr>wlUncertain := True\<rparr>) r; b = threadAt r (lhThreadID l) in
        set_thread (lhThreadID l)
          (b\<lparr>tbState := keep_active (wlTurnID (lease_of r (lhState l))) (tbState b)\<rparr>) r')"

definition finish :: "codexWriterLease \<Rightarrow> codexRuntimeOwnerRegistry \<Rightarrow> codexRuntimeOwnerRegistry" where
  "finish l r =
     (if \<not> holds_lease l r then r
      else
        let t = lhThreadID l;
            r1 = set_lease (lhState l) (\<lambda>s. s\<lparr>wlResolvedClosed := True\<rparr>) r;
            r2 = r1\<lparr>orLeases := (orLeases r1)(t := None)\<rparr> in
        if t \<in> orArchivedThreads r then r2\<lparr>orThreads := (orThreads r2)(t := None)\<rparr>
        else
          let b = threadAt r t; st = tbState b;
              active = go_trim (tsActiveTurnID st); turn = go_trim (wlTurnID (lease_of r (lhState l))) in
          set_thread t
            (if tbRuntime b \<noteq> codexRuntimeConflict \<and>
                (\<not> tsActive st \<or> active = [] \<or> turn = [] \<or> active = turn)
             then b\<lparr>tbState := st\<lparr>tsActive := False, tsActiveTurnID := []\<rparr>\<rparr> else b) r2)"

subsection \<open>Looking at the leases\<close>

definition writerLeaseSnapshot :: "string \<Rightarrow> codexRuntimeOwnerRegistry \<Rightarrow> nat option \<times> bool" where
  "writerLeaseSnapshot t r =
     (case orLeases r (go_trim t) of None \<Rightarrow> (None, False) | Some a \<Rightarrow> (Some a, wlUncertain (lease_of r a)))"

definition writerLeaseStatus :: "string \<Rightarrow> codexRuntimeOwnerRegistry \<Rightarrow> bool \<times> bool" where
  "writerLeaseStatus t r = (case writerLeaseSnapshot t r of (l, u) \<Rightarrow> (l \<noteq> None, u))"

definition hasWriterLease :: "string \<Rightarrow> codexRuntimeOwnerRegistry \<Rightarrow> bool" where
  "hasWriterLease t r \<longleftrightarrow> orLeases r (go_trim t) \<noteq> None"

definition writerLeaseResolution :: "string \<Rightarrow> codexRuntimeOwnerRegistry \<Rightarrow> bool option" where
  "writerLeaseResolution t r = map_option (\<lambda>a. wlResolvedClosed (lease_of r a)) (orLeases r (go_trim t))"

definition anyWriterLeaseStatus :: "string list \<Rightarrow> codexRuntimeOwnerRegistry \<Rightarrow> nat \<times> bool" where
  "anyWriterLeaseStatus order r =
     (length (filter (\<lambda>t. orLeases r t \<noteq> None) order),
      list_ex (\<lambda>t. case orLeases r t of None \<Rightarrow> False | Some a \<Rightarrow> wlUncertain (lease_of r a)) order)"

definition anyActiveThreadStatus :: "string list \<Rightarrow> codexRuntimeOwnerRegistry \<Rightarrow> nat \<times> bool" where
  "anyActiveThreadStatus order r =
     (length (filter (\<lambda>t. case orThreads r t of None \<Rightarrow> False | Some b \<Rightarrow> tsActive (tbState b)) order),
      list_ex (\<lambda>t. case orThreads r t of None \<Rightarrow> False | Some b \<Rightarrow> tbRuntime b = codexRuntimeConflict) order)"

subsection \<open>A second frontend during a lease\<close>

definition bindSharedHostFrontendDuringLeaseLocked ::
  "codexRuntimeRequest \<Rightarrow> codexThreadState \<Rightarrow> codexRuntimeOwnerRegistry \<Rightarrow> binding_result" where
  "bindSharedHostFrontendDuringLeaseLocked req st r =
     (let t = go_trim (refThreadID (rqRef req)) in
      if orThreads r t = None \<or> orLeases r t = None then ((threadAt r t, Some ErrControlChanged), r)
      else
        let b = threadAt r t in
        if tbRuntime b = codexRuntimeConflict then ((b, Some ErrRuntimeConflict), r)
        else if tbRuntime b \<noteq> codexRuntimeWeClaw then ((b, Some ErrRuntimeUnavailable), r)
        else
          let b' = b\<lparr>tbRef := rqRef req, tbState := st\<rparr> in
          ((b', None), set_conversation (refConversationID (rqRef req)) t (set_thread t b' r)))"

definition bindSharedHostFrontendDuringLeaseAtRevision ::
  "codexRuntimeRequest \<Rightarrow> codexThreadState \<Rightarrow> uint64 \<Rightarrow> string \<Rightarrow> codexRuntimeOwnerRegistry \<Rightarrow> binding_result" where
  "bindSharedHostFrontendDuringLeaseAtRevision req st revision expected r =
     (case validateCodexRuntimeRequestForRegistry req (orEnforceControl r) of
        Some err \<Rightarrow> ((zero_binding, Some err), r)
      | None \<Rightarrow>
          let t = go_trim (refThreadID (rqRef req)) in
          if state_thread_differs t st then ((zero_binding, Some ErrThreadMismatch), r)
          else if \<not> conversationBindingRevisionMatchesLocked (refConversationID (rqRef req)) revision expected r
          then ((zero_binding, Some ErrControlChanged), r)
          else bindSharedHostFrontendDuringLeaseLocked req (st\<lparr>tsThreadID := t\<rparr>) r)"

subsection \<open>Uncertain leases\<close>

definition release_evidence :: "codexWriterLeaseState \<Rightarrow> codexThreadState \<Rightarrow> bool" where
  "release_evidence ls st =
     (let last = go_trim (tsLastTurnID st) in
      (wlTurnID ls \<noteq> [] \<and> last = wlTurnID ls) \<or>
      (wlTurnID ls \<noteq> [] \<and> last \<noteq> [] \<and> last \<noteq> wlBaselineLastTurnID ls))"

definition reconcileUncertainSharedHostLeaseLocked ::
  "codexRuntimeRequest \<Rightarrow> codexThreadState \<Rightarrow> nat option \<Rightarrow> codexRuntimeOwnerRegistry
   \<Rightarrow> (codexThreadBinding \<times> bool \<times> codex_error option) \<times> codexRuntimeOwnerRegistry" where
  "reconcileUncertainSharedHostLeaseLocked req st lease r =
     (let t = refThreadID (rqRef req); b = threadAt r t in
      case lease of
        None \<Rightarrow> ((b, False, None), r)
      | Some a \<Rightarrow>
          let ls = lease_of r a in
          if \<not> wlUncertain ls then ((b, False, None), r)
          else if tsActive st then
            let r' = (if wlTurnID ls = [] then set_lease a (\<lambda>s. s\<lparr>wlTurnID := go_trim (tsActiveTurnID st)\<rparr>) r else r);
                b' = b\<lparr>tbRef := rqRef req, tbState := st\<rparr> in
            ((b', True, None), set_thread t b' r')
          else if release_evidence ls st then
            let r' = r\<lparr>orLeases := (orLeases r)(t := None)\<rparr> in
            (if t \<in> orArchivedThreads r then ((zero_binding, False, None), r'\<lparr>orThreads := (orThreads r')(t := None)\<rparr>)
             else let b' = b\<lparr>tbRef := rqRef req, tbState := st\<rparr> in ((b', False, None), set_thread t b' r'))
          else
            let b' = b\<lparr>tbRef := rqRef req, tbState := keep_active (wlTurnID ls) (tbState b)\<rparr> in
            ((b', True, None), set_thread t b' r))"

definition reconcileUncertainSharedHostLease ::
  "codexRuntimeRequest \<Rightarrow> codexThreadState \<Rightarrow> codexRuntimeOwnerRegistry
   \<Rightarrow> (codexThreadBinding \<times> bool \<times> codex_error option) \<times> codexRuntimeOwnerRegistry" where
  "reconcileUncertainSharedHostLease req st r =
     (case validateCodexRuntimeRequestForRegistry req (orEnforceControl r) of
        Some err \<Rightarrow> ((zero_binding, False, Some err), r)
      | None \<Rightarrow> reconcileUncertainSharedHostLeaseLocked req st (orLeases r (refThreadID (rqRef req))) r)"

definition reconcileUncertainSharedHostLeaseAtRevision ::
  "codexRuntimeRequest \<Rightarrow> codexThreadState \<Rightarrow> nat option \<Rightarrow> uint64 \<Rightarrow> string \<Rightarrow> codexRuntimeOwnerRegistry
   \<Rightarrow> (codexThreadBinding \<times> bool \<times> codex_error option) \<times> codexRuntimeOwnerRegistry" where
  "reconcileUncertainSharedHostLeaseAtRevision req st expectedLease revision expected r =
     (case validateCodexRuntimeRequestForRegistry req (orEnforceControl r) of
        Some err \<Rightarrow> ((zero_binding, False, Some err), r)
      | None \<Rightarrow>
          if \<not> conversationBindingRevisionMatchesLocked (refConversationID (rqRef req)) revision expected r
          then ((zero_binding, False, Some ErrControlChanged), r)
          else
            let t = refThreadID (rqRef req); lease = orLeases r t in
            if (case expectedLease of None \<Rightarrow> True | Some e \<Rightarrow> lease \<noteq> Some e \<or> \<not> wlUncertain (lease_of r e))
            then ((threadAt r t, False, Some ErrControlChanged), r)
            else reconcileUncertainSharedHostLeaseLocked req st lease r)"

subsection \<open>Observations of the desktop application\<close>

definition logCoexistingDesktopTurnLocked ::
  "nat \<Rightarrow> string \<Rightarrow> codexRuntimeOwnerRegistry \<Rightarrow> codexRuntimeOwnerRegistry" where
  "logCoexistingDesktopTurnLocked a turn0 r =
     (let turn = go_trim turn0 in
      if turn = [] \<or> wlCandidateDesktopTurn (lease_of r a) = turn then r
      else set_lease a (\<lambda>s. s\<lparr>wlCandidateDesktopTurn := turn\<rparr>) r)"

definition observeDesktopLeaseLocked ::
  "string \<Rightarrow> codexThreadState \<Rightarrow> codexThreadBinding \<Rightarrow> nat \<Rightarrow> codexRuntimeOwnerRegistry
   \<Rightarrow> codexThreadBinding \<times> codexRuntimeOwnerRegistry" where
  "observeDesktopLeaseLocked t st cur a r =
     (let active = go_trim (tsActiveTurnID st); last = go_trim (tsLastTurnID st); ls = lease_of r a;
          candidate = (\<lambda>turn r. set_lease a (\<lambda>s. s\<lparr>wlCandidateDesktopTurn := turn\<rparr>) r);
          store = (\<lambda>r. (cur\<lparr>tbState := st\<rparr>, set_thread t (cur\<lparr>tbState := st\<rparr>) r)) in
      if tsActive st \<and> wlTurnID ls \<noteq> [] \<and> (active = [] \<or> active \<noteq> wlTurnID ls)
      then (cur, logCoexistingDesktopTurnLocked a active r)
      else
        let r1 = (if tsActive st \<and> wlTurnID ls = [] then candidate active r else r) in
        if \<not> tsActive st \<and> last \<noteq> [] \<and> last \<noteq> wlBaselineLastTurnID ls then
          (if wlTurnID ls = [] then store (candidate last r1)
           else if last \<noteq> wlTurnID ls then (cur, logCoexistingDesktopTurnLocked a last r1)
           else store r1)
        else if wlTurnID ls \<noteq> [] \<and> \<not> tsActive st then (cur, r1)
        else store r1)"

definition observeDesktopSnapshotLocked ::
  "string \<Rightarrow> codexThreadState \<Rightarrow> codexRuntimeOwnerRegistry \<Rightarrow> codexThreadBinding \<times> codexRuntimeOwnerRegistry" where
  "observeDesktopSnapshotLocked t st0 r =
     (let cur = threadAt r t; st = st0\<lparr>tsThreadID := t\<rparr> in
      if t \<in> orArchivedThreads r \<and> orLeases r t = None then (cur, r)
      else (case orLeases r t of
          Some a \<Rightarrow> observeDesktopLeaseLocked t st cur a r
        | None \<Rightarrow>
            let b = cur\<lparr>tbRef := (tbRef cur)\<lparr>refThreadID := t\<rparr>,
                     tbRuntimeGeneration := nextCodexRuntimeGeneration cur codexRuntimeDesktop,
                     tbRuntime := codexRuntimeDesktop, tbState := st, tbConflictReason := []\<rparr> in
            (b, set_thread t b r)))"

definition observeDesktopSnapshot ::
  "string \<Rightarrow> codexThreadState \<Rightarrow> codexRuntimeOwnerRegistry \<Rightarrow> codexThreadBinding \<times> codexRuntimeOwnerRegistry" where
  "observeDesktopSnapshot t st r = observeDesktopSnapshotLocked (go_trim t) st r"

definition markConflictLocked ::
  "string \<Rightarrow> string \<Rightarrow> codexRuntimeOwnerRegistry \<Rightarrow> codex_error \<times> codexRuntimeOwnerRegistry" where
  "markConflictLocked t reason r =
     (let b = threadAt r t;
          r' = set_thread t (b\<lparr>tbRuntimeGeneration := nextCodexRuntimeGeneration b codexRuntimeConflict,
                              tbRuntime := codexRuntimeConflict, tbConflictReason := go_trim reason\<rparr>) r in
      (ErrRuntimeConflict,
       case orLeases r t of
         None \<Rightarrow> r'
       | Some a \<Rightarrow> set_lease a (\<lambda>s. s\<lparr>wlConflict := True, wlConflictClosed := True\<rparr>) r'))"

definition intent_outdated :: "codexControlIntent \<Rightarrow> codexControlIntent \<Rightarrow> bool" where
  "intent_outdated cur new \<longleftrightarrow>
     codexControlIntentEstablished cur \<and>
     (ciRevision cur > ciRevision new \<or> (ciRevision cur = ciRevision new \<and> \<not> sameCodexControlIntent cur new))"

definition markRuntimeConflictLocked ::
  "codexRuntimeRequest \<Rightarrow> string \<Rightarrow> codexRuntimeOwnerRegistry \<Rightarrow> binding_result" where
  "markRuntimeConflictLocked req reason r =
     (let t = go_trim (refThreadID (rqRef req)); b = threadAt r t; c = go_trim (refConversationID (rqRef req)) in
      if t \<in> orArchivedThreads r then ((b, Some ErrControlChanged), r)
      else if intent_outdated (tbControl b) (rqIntent req) then ((b, Some ErrControlChanged), r)
      else
        let st = tbState b;
            b' = b\<lparr>tbRef := rqRef req, tbControl := rqIntent req,
                   tbState := (if tsThreadID st = [] then st\<lparr>tsThreadID := t\<rparr> else st)\<rparr>;
            r1 = set_thread t b' r;
            r2 = (if c \<noteq> [] then set_conversation c t r1 else r1);
            r3 = snd (markConflictLocked t reason r2) in
        ((threadAt r3 t, None), r3))"

definition markRuntimeConflict :: "codexRuntimeRequest \<Rightarrow> string \<Rightarrow> codexRuntimeOwnerRegistry \<Rightarrow> binding_result" where
  "markRuntimeConflict req reason r = markRuntimeConflictLocked req reason r"

definition markRuntimeConflictAtRevision ::
  "codexRuntimeRequest \<Rightarrow> string \<Rightarrow> uint64 \<Rightarrow> string \<Rightarrow> codexRuntimeOwnerRegistry \<Rightarrow> binding_result" where
  "markRuntimeConflictAtRevision req reason revision expected r =
     (if \<not> conversationBindingRevisionMatchesLocked (refConversationID (rqRef req)) revision expected r
      then ((zero_binding, Some ErrControlChanged), r)
      else markRuntimeConflictLocked req reason r)"

subsection \<open>Reconciling an observed turn\<close>

definition observedCodexTurnID :: "codexThreadState \<Rightarrow> string option" where
  "observedCodexTurnID st =
     (let turn = (if tsActive st then go_trim (tsActiveTurnID st) else go_trim (tsLastTurnID st)) in
      if turn = [] then None else Some turn)"

definition conflicted :: "string \<Rightarrow> string \<Rightarrow> codexRuntimeOwnerRegistry \<Rightarrow> binding_result" where
  "conflicted t reason r =
     (case markConflictLocked t reason r of (err, r') \<Rightarrow> ((threadAt r' t, Some err), r'))"

definition other_active_turn :: "codexThreadBinding \<Rightarrow> string \<Rightarrow> bool" where
  "other_active_turn b turn =
     (let active = go_trim (tsActiveTurnID (tbState b)) in
      tsActive (tbState b) \<and> (active = [] \<or> active \<noteq> turn))"

text \<open>
  The reasons the source writes into the conflict are Chinese sentences; only their presence
  matters, so they are arguments here: the reason for an active and for a terminal turn.
\<close>

definition reconcileObservedTurn ::
  "string \<times> string \<Rightarrow> codexRuntimeRequest \<Rightarrow> codexThreadState \<Rightarrow> codexRuntimeOwnerRegistry \<Rightarrow> binding_result" where
  "reconcileObservedTurn reasons req st0 r =
     (case validateRemoteCodexRequest req of
        Some err \<Rightarrow> ((zero_binding, Some err), r)
      | None \<Rightarrow>
          let t = go_trim (refThreadID (rqRef req)) in
          if state_thread_differs t st0 then ((zero_binding, Some ErrThreadMismatch), r)
          else
            let st = st0\<lparr>tsThreadID := t\<rparr> in
            case observedCodexTurnID st of
              None \<Rightarrow> ((zero_binding, Some ErrMissingTurnID), r)
            | Some turn \<Rightarrow>
                let b = threadAt r t; store = b\<lparr>tbState := st\<rparr> in
                if orThreads r t = None \<or> (orEnforceControl r \<and> \<not> sameCodexControlIntent (tbControl b) (rqIntent req))
                then ((b, Some ErrControlChanged), r)
                else if orLeases r t \<noteq> None then ((b, Some ErrWriterBusy), r)
                else if tbRuntime b = codexRuntimeConflict then ((b, Some ErrRuntimeConflict), r)
                else if tsActive st then
                  (if tbRuntime b \<noteq> codexRuntimeDesktop then ((b, Some ErrRuntimeUnavailable), r)
                   else if other_active_turn b turn then conflicted t (fst reasons) r
                   else ((store, None), set_thread t store r))
                else if tbRuntime b \<noteq> codexRuntimeDesktop \<and> tbRuntime b \<noteq> codexRuntimeUnknown
                then ((b, Some ErrRuntimeUnavailable), r)
                else if other_active_turn b turn then conflicted t (snd reasons) r
                else if \<not> tsActive (tbState b) \<and> go_trim (tsLastTurnID (tbState b)) \<noteq> turn
                then ((b, Some ErrControlChanged), r)
                else ((store, None), set_thread t store r))"

definition reconcileSharedHostObservedTurn ::
  "string \<times> string \<Rightarrow> codexRuntimeRequest \<Rightarrow> codexThreadState \<Rightarrow> codexRuntimeOwnerRegistry \<Rightarrow> binding_result" where
  "reconcileSharedHostObservedTurn reasons req st0 r =
     (case validateCodexRuntimeRequestForRegistry req (orEnforceControl r) of
        Some err \<Rightarrow> ((zero_binding, Some err), r)
      | None \<Rightarrow>
          let t = go_trim (refThreadID (rqRef req)) in
          if state_thread_differs t st0 then ((zero_binding, Some ErrThreadMismatch), r)
          else
            let st = st0\<lparr>tsThreadID := t\<rparr> in
            case observedCodexTurnID st of
              None \<Rightarrow> ((zero_binding, Some ErrMissingTurnID), r)
            | Some turn \<Rightarrow>
                let b = threadAt r t; last = go_trim (tsLastTurnID (tbState b)) in
                if orThreads r t = None then ((b, Some ErrControlChanged), r)
                else if orEnforceControl r \<and> \<not> sameCodexControlIntent (tbControl b) (rqIntent req)
                then ((b, Some ErrControlChanged), r)
                else if tbRuntime b = codexRuntimeConflict then ((b, Some ErrRuntimeConflict), r)
                else if tbRuntime b \<noteq> codexRuntimeWeClaw then ((b, Some ErrRuntimeUnavailable), r)
                else if (case orLeases r t of None \<Rightarrow> False
                         | Some a \<Rightarrow> let e = go_trim (wlTurnID (lease_of r a)) in e = [] \<or> e \<noteq> turn)
                then ((b, Some ErrWriterBusy), r)
                else if tsActive st \<and> other_active_turn b turn then conflicted t (fst reasons) r
                else if \<not> tsActive st \<and> other_active_turn b turn then conflicted t (snd reasons) r
                else if \<not> tsActive st \<and> \<not> tsActive (tbState b) \<and> last \<noteq> [] \<and> last \<noteq> turn
                then ((b, Some ErrControlChanged), r)
                else
                  let b' = b\<lparr>tbRef := rqRef req, tbState := st\<rparr> in
                  ((b', None), set_conversation (refConversationID (rqRef req)) t (set_thread t b' r)))"

subsection \<open>Forgetting an archived thread\<close>

definition forget_conversation :: "string \<Rightarrow> string \<Rightarrow> codexRuntimeOwnerRegistry \<Rightarrow> codexRuntimeOwnerRegistry" where
  "forget_conversation t c r =
     (case orConversations r c of
        None \<Rightarrow> r
      | Some cur \<Rightarrow>
          if go_trim cur = t
          then (let r' = snd (advanceConversationRevisionLocked c r) in
                r'\<lparr>orConversations := (orConversations r')(c := None)\<rparr>)
          else r)"

definition forgetThread ::
  "string list \<Rightarrow> string \<Rightarrow> bool \<Rightarrow> codexRuntimeOwnerRegistry \<Rightarrow> codex_error option \<times> codexRuntimeOwnerRegistry" where
  "forgetThread order t0 requireNoLease r =
     (let t = go_trim t0; leaseActive = (orLeases r t \<noteq> None) in
      if leaseActive \<and> requireNoLease then (Some ErrWriterBusy, r)
      else
        let r' = fold (forget_conversation t) order (r\<lparr>orArchivedThreads := insert t (orArchivedThreads r)\<rparr>) in
        if leaseActive then (None, r') else (None, r'\<lparr>orThreads := (orThreads r')(t := None)\<rparr>))"

end
