(* ===== verification/Owner_System.thy ===== *)
theory Owner_System
  imports Owner_Lease
begin

section \<open>The registry as a transition system\<close>

text \<open>
  The registry is shared by every conversation, by the notifications of the desktop application
  and by the turns themselves. Since each operation runs under the registry's mutex, an execution
  is a sequence of whole operations with arbitrary arguments: \<open>registry_op\<close> names them,
  \<open>apply_op\<close> is their effect and \<open>owner_step\<close> the step relation. Bindings of the previous process
  are restored while the agent is constructed, before any other operation, so restoring is part
  of the initial states. The lemmas say what one operation can do to a thread while a writer
  holds its lease; the theorems on executions are in \<open>Owner_Contract\<close>.
\<close>

datatype registry_op =
    OpBeginIntent string
  | OpCurrentRevision codexThreadRef
  | OpInvalidate string
  | OpBind codexThreadRef codexThreadBinding
  | OpBindAt codexThreadRef codexThreadBinding uint64
  | OpClaimThread string codexThreadState
  | OpClaim codexThreadRef codexThreadState
  | OpClaimAt codexThreadRef codexThreadState uint64
  | OpUnarchive string
  | OpDesktopDisconnected
  | OpSwitchAuthority codexRuntimeHolder
  | OpInvalidateAuthority codexRuntimeHolder
  | OpConfirmIdle
  | OpActivateDesktop codexRuntimeRequest "codexThreadBinding option" codexThreadState uint64 string
  | OpActivate codexRuntimeRequest codexRuntimeHolder codexThreadState
  | OpActivateAt codexRuntimeRequest codexRuntimeHolder codexThreadState uint64 string
  | OpBeginTurn codexRuntimeRequest
  | OpFrontendAt codexRuntimeRequest codexThreadState uint64 string
  | OpAccept codexWriterLease string
  | OpMarkUncertain codexWriterLease
  | OpFinish codexWriterLease
  | OpReconcileLease codexRuntimeRequest codexThreadState
  | OpReconcileLeaseAt codexRuntimeRequest codexThreadState "nat option" uint64 string
  | OpObserveDesktop string codexThreadState
  | OpMarkConflict codexRuntimeRequest string
  | OpMarkConflictAt codexRuntimeRequest string uint64 string
  | OpReconcileTurn "string \<times> string" codexRuntimeRequest codexThreadState
  | OpReconcileSharedTurn "string \<times> string" codexRuntimeRequest codexThreadState
  | OpForget "string list" string bool

fun apply_op :: "registry_op \<Rightarrow> codexRuntimeOwnerRegistry \<Rightarrow> codexRuntimeOwnerRegistry" where
  "apply_op (OpBeginIntent c) r = snd (beginConversationBindingIntent c r)"
| "apply_op (OpCurrentRevision ref) r = snd (currentConversationBindingRevision ref r)"
| "apply_op (OpInvalidate c) r = snd (invalidateConversationBinding c r)"
| "apply_op (OpBind ref b) r = snd (bindConversation ref b r)"
| "apply_op (OpBindAt ref b n) r = snd (bindConversationAtRevision ref b n r)"
| "apply_op (OpClaimThread t st) r = snd (claimWeClawThread t st r)"
| "apply_op (OpClaim ref st) r = snd (claimWeClawConversation ref st r)"
| "apply_op (OpClaimAt ref st n) r = snd (claimWeClawConversationAtRevision ref st n r)"
| "apply_op (OpUnarchive t) r = unarchiveThread t r"
| "apply_op OpDesktopDisconnected r = markDesktopDisconnected r"
| "apply_op (OpSwitchAuthority rt) r = switchRuntimeAuthority rt r"
| "apply_op (OpInvalidateAuthority rt) r = invalidateRuntimeAuthority rt r"
| "apply_op OpConfirmIdle r = confirmWeClawThreadsIdle r"
| "apply_op (OpActivateDesktop req e st n t) r = snd (activateDesktopActiveWriter req e st n t r)"
| "apply_op (OpActivate req rt st) r = snd (activateRuntime req rt st r)"
| "apply_op (OpActivateAt req rt st n t) r = snd (activateRuntimeAtRevision req rt st n t r)"
| "apply_op (OpBeginTurn req) r = snd (beginTurn req r)"
| "apply_op (OpFrontendAt req st n t) r = snd (bindSharedHostFrontendDuringLeaseAtRevision req st n t r)"
| "apply_op (OpAccept l turn) r = snd (accept l turn r)"
| "apply_op (OpMarkUncertain l) r = markUncertain l r"
| "apply_op (OpFinish l) r = finish l r"
| "apply_op (OpReconcileLease req st) r = snd (reconcileUncertainSharedHostLease req st r)"
| "apply_op (OpReconcileLeaseAt req st e n t) r = snd (reconcileUncertainSharedHostLeaseAtRevision req st e n t r)"
| "apply_op (OpObserveDesktop t st) r = snd (observeDesktopSnapshot t st r)"
| "apply_op (OpMarkConflict req reason) r = snd (markRuntimeConflict req reason r)"
| "apply_op (OpMarkConflictAt req reason n t) r = snd (markRuntimeConflictAtRevision req reason n t r)"
| "apply_op (OpReconcileTurn reasons req st) r = snd (reconcileObservedTurn reasons req st r)"
| "apply_op (OpReconcileSharedTurn reasons req st) r = snd (reconcileSharedHostObservedTurn reasons req st r)"
| "apply_op (OpForget order t b) r = snd (forgetThread order t b r)"

inductive owner_step :: "codexRuntimeOwnerRegistry \<Rightarrow> codexRuntimeOwnerRegistry \<Rightarrow> bool" where
  owner_op: "owner_step r (apply_op op r)"

inductive_cases owner_stepE: "owner_step r r'"

definition owner_init :: "codexRuntimeOwnerRegistry \<Rightarrow> bool" where
  "owner_init r \<longleftrightarrow> (\<exists>probe bs. r = snd (restoreBindings bs (newCodexRuntimeOwnerRegistry probe)))"

subsection \<open>What the small updates leave alone\<close>

named_theorems owner_simps \<open>fields of an updated registry\<close>

lemma set_thread_fields [owner_simps, simp]:
  "orThreads (set_thread t b r) = (orThreads r)(t \<mapsto> b)"
  "orConversations (set_thread t b r) = orConversations r"
  "orConversationRevisions (set_thread t b r) = orConversationRevisions r"
  "orRevisionCounter (set_thread t b r) = orRevisionCounter r"
  "orLeases (set_thread t b r) = orLeases r"
  "orLeaseStore (set_thread t b r) = orLeaseStore r"
  "orNextLease (set_thread t b r) = orNextLease r"
  "orArchivedThreads (set_thread t b r) = orArchivedThreads r"
  "orEnforceControl (set_thread t b r) = orEnforceControl r"
  by (simp_all add: set_thread_def)

lemma set_conversation_fields [owner_simps, simp]:
  "orThreads (set_conversation c t r) = orThreads r"
  "orConversations (set_conversation c t r) = (orConversations r)(c \<mapsto> t)"
  "orConversationRevisions (set_conversation c t r) = orConversationRevisions r"
  "orRevisionCounter (set_conversation c t r) = orRevisionCounter r"
  "orLeases (set_conversation c t r) = orLeases r"
  "orLeaseStore (set_conversation c t r) = orLeaseStore r"
  "orNextLease (set_conversation c t r) = orNextLease r"
  "orArchivedThreads (set_conversation c t r) = orArchivedThreads r"
  "orEnforceControl (set_conversation c t r) = orEnforceControl r"
  by (simp_all add: set_conversation_def)

lemma set_lease_fields [owner_simps, simp]:
  "orThreads (set_lease a f r) = orThreads r"
  "orConversations (set_lease a f r) = orConversations r"
  "orConversationRevisions (set_lease a f r) = orConversationRevisions r"
  "orRevisionCounter (set_lease a f r) = orRevisionCounter r"
  "orLeases (set_lease a f r) = orLeases r"
  "orLeaseStore (set_lease a f r) = (orLeaseStore r)(a := f (orLeaseStore r a))"
  "orNextLease (set_lease a f r) = orNextLease r"
  "orArchivedThreads (set_lease a f r) = orArchivedThreads r"
  "orEnforceControl (set_lease a f r) = orEnforceControl r"
  by (simp_all add: set_lease_def)

lemma advance_fields [owner_simps, simp]:
  "orThreads (snd (advanceConversationRevisionLocked c r)) = orThreads r"
  "orConversations (snd (advanceConversationRevisionLocked c r)) = orConversations r"
  "orLeases (snd (advanceConversationRevisionLocked c r)) = orLeases r"
  "orLeaseStore (snd (advanceConversationRevisionLocked c r)) = orLeaseStore r"
  "orNextLease (snd (advanceConversationRevisionLocked c r)) = orNextLease r"
  "orArchivedThreads (snd (advanceConversationRevisionLocked c r)) = orArchivedThreads r"
  "orEnforceControl (snd (advanceConversationRevisionLocked c r)) = orEnforceControl r"
  by (simp_all add: advanceConversationRevisionLocked_def Let_def)

lemma ensure_fields [owner_simps, simp]:
  "orThreads (snd (ensureConversationRevisionLocked c r)) = orThreads r"
  "orConversations (snd (ensureConversationRevisionLocked c r)) = orConversations r"
  "orLeases (snd (ensureConversationRevisionLocked c r)) = orLeases r"
  "orLeaseStore (snd (ensureConversationRevisionLocked c r)) = orLeaseStore r"
  "orNextLease (snd (ensureConversationRevisionLocked c r)) = orNextLease r"
  "orArchivedThreads (snd (ensureConversationRevisionLocked c r)) = orArchivedThreads r"
  "orEnforceControl (snd (ensureConversationRevisionLocked c r)) = orEnforceControl r"
  by (simp_all add: ensureConversationRevisionLocked_def)

lemma forget_conversation_fields [owner_simps, simp]:
  "orThreads (forget_conversation t c r) = orThreads r"
  "orLeases (forget_conversation t c r) = orLeases r"
  "orLeaseStore (forget_conversation t c r) = orLeaseStore r"
  "orNextLease (forget_conversation t c r) = orNextLease r"
  "orArchivedThreads (forget_conversation t c r) = orArchivedThreads r"
  "orEnforceControl (forget_conversation t c r) = orEnforceControl r"
  by (simp_all add: forget_conversation_def Let_def split: option.splits)

lemma forget_conversations_fields [owner_simps, simp]:
  "orThreads (fold (forget_conversation t) cs r) = orThreads r"
  "orLeases (fold (forget_conversation t) cs r) = orLeases r"
  "orLeaseStore (fold (forget_conversation t) cs r) = orLeaseStore r"
  "orNextLease (fold (forget_conversation t) cs r) = orNextLease r"
  "orArchivedThreads (fold (forget_conversation t) cs r) = orArchivedThreads r"
  "orEnforceControl (fold (forget_conversation t) cs r) = orEnforceControl r"
  by (induction cs arbitrary: r) simp_all

lemma threadAt_Some [simp]: "orThreads r t = Some b \<Longrightarrow> threadAt r t = b"
  by (simp add: threadAt_def)

subsection \<open>One operation, seen from one thread\<close>

text \<open>
  While a writer holds the lease of a thread, an operation either leaves the thread's runtime,
  generation and control intent alone, or advances the generation, or finds the thread in
  conflict already and leaves it there.
\<close>

definition authority_step :: "codexThreadBinding \<Rightarrow> codexThreadBinding \<Rightarrow> bool" where
  "authority_step b b' \<longleftrightarrow>
     (tbRuntime b' = tbRuntime b \<and> tbRuntimeGeneration b' = tbRuntimeGeneration b \<and> tbControl b' = tbControl b) \<or>
     tbRuntimeGeneration b' = tbRuntimeGeneration b + 1 \<or>
     (tbRuntime b = codexRuntimeConflict \<and> tbRuntime b' = codexRuntimeConflict \<and>
      tbRuntimeGeneration b' = tbRuntimeGeneration b)"

definition same_terms :: "codexWriterLeaseState \<Rightarrow> codexWriterLeaseState \<Rightarrow> bool" where
  "same_terms ls ls' \<longleftrightarrow>
     wlRuntime ls' = wlRuntime ls \<and> wlRuntimeGeneration ls' = wlRuntimeGeneration ls \<and>
     wlControlRevision ls' = wlControlRevision ls \<and> wlRouteKey ls' = wlRouteKey ls \<and>
     (wlConflict ls \<longrightarrow> wlConflict ls') \<and> (wlResolvedClosed ls \<longrightarrow> wlResolvedClosed ls') \<and>
     (wlConflictClosed ls \<longrightarrow> wlConflictClosed ls') \<and> (wlUncertain ls \<longrightarrow> wlUncertain ls')"

definition holder_step :: "string \<Rightarrow> codexRuntimeOwnerRegistry \<Rightarrow> codexRuntimeOwnerRegistry \<Rightarrow> bool" where
  "holder_step t r r' \<longleftrightarrow>
     (case orLeases r' t of
        None \<Rightarrow> True
      | Some a \<Rightarrow>
          (case orLeases r t of
             Some a0 \<Rightarrow> a0 = a \<and>
               (\<forall>b. orThreads r t = Some b \<longrightarrow> (\<exists>b'. orThreads r' t = Some b' \<and> authority_step b b'))
           | None \<Rightarrow> a = orNextLease r \<and> orNextLease r' = Suc a \<and> t \<notin> orArchivedThreads r \<and>
               (\<exists>b. orThreads r t = Some b \<and> orThreads r' t = Some b)))"

definition store_step :: "codexRuntimeOwnerRegistry \<Rightarrow> codexRuntimeOwnerRegistry \<Rightarrow> bool" where
  "store_step r r' \<longleftrightarrow> orNextLease r \<le> orNextLease r' \<and> orEnforceControl r' = orEnforceControl r \<and>
     (\<forall>a < orNextLease r. same_terms (orLeaseStore r a) (orLeaseStore r' a))"

lemma authority_step_refl [simp]: "authority_step b b"
  by (simp add: authority_step_def)

lemma authority_step_same:
  "tbRuntime b' = tbRuntime b \<Longrightarrow> tbRuntimeGeneration b' = tbRuntimeGeneration b \<Longrightarrow> tbControl b' = tbControl b
   \<Longrightarrow> authority_step b b'"
  by (simp add: authority_step_def)

lemma authority_step_lose [simp]: "authority_step b (lose_runtime b)"
  by (simp add: authority_step_def lose_runtime_def)

lemma same_terms_refl [simp]: "same_terms ls ls"
  by (simp add: same_terms_def)

lemma holder_step_same:
  "orLeases r' = orLeases r \<Longrightarrow> orThreads r' = orThreads r \<Longrightarrow> holder_step t r r'"
  by (simp add: holder_step_def split: option.splits)

lemma holder_step_refl [simp]: "holder_step t r r"
  by (simp add: holder_step_same)

lemma store_step_same:
  "orLeaseStore r' = orLeaseStore r \<Longrightarrow> orNextLease r' = orNextLease r \<Longrightarrow> orEnforceControl r' = orEnforceControl r
   \<Longrightarrow> store_step r r'"
  by (simp add: store_step_def)

lemma store_step_refl [simp]: "store_step r r"
  by (simp add: store_step_same)

lemma holder_step_thread:
  "orLeases r' = orLeases r \<Longrightarrow> orThreads r' = (orThreads r)(u \<mapsto> b') \<Longrightarrow>
   (\<And>b. orThreads r u = Some b \<Longrightarrow> orLeases r u \<noteq> None \<Longrightarrow> authority_step b b') \<Longrightarrow> holder_step t r r'"
  by (auto simp: holder_step_def split: option.splits)

lemma holder_step_state:
  "orLeases r' = orLeases r \<Longrightarrow> orThreads r' = (orThreads r)(u \<mapsto> b') \<Longrightarrow>
   tbRuntime b' = tbRuntime (threadAt r u) \<Longrightarrow> tbRuntimeGeneration b' = tbRuntimeGeneration (threadAt r u) \<Longrightarrow>
   tbControl b' = tbControl (threadAt r u) \<Longrightarrow> holder_step t r r'"
  by (rule holder_step_thread [where u = u]) (auto intro: authority_step_same)

lemma holder_step_map:
  "orLeases r' = orLeases r \<Longrightarrow> orThreads r' = (\<lambda>u. map_option f (orThreads r u)) \<Longrightarrow>
   (\<And>b. authority_step b (f b)) \<Longrightarrow> holder_step t r r'"
  by (simp add: holder_step_def split: option.splits)

lemma holder_step_release:
  "orLeases r' = (orLeases r)(u := None) \<Longrightarrow> (\<And>v. v \<noteq> u \<Longrightarrow> orThreads r' v = orThreads r v) \<Longrightarrow> holder_step t r r'"
  by (auto simp: holder_step_def split: option.splits)

lemma holder_step_drop:
  "orLeases r' = orLeases r \<Longrightarrow> orLeases r u = None \<Longrightarrow> (\<And>v. v \<noteq> u \<Longrightarrow> orThreads r' v = orThreads r v) \<Longrightarrow>
   holder_step t r r'"
  by (cases "t = u") (simp_all add: holder_step_def split: option.splits)

lemma store_step_lease:
  "orLeaseStore r' = (orLeaseStore r)(a := ls) \<Longrightarrow> same_terms (orLeaseStore r a) ls \<Longrightarrow>
   orNextLease r' = orNextLease r \<Longrightarrow> orEnforceControl r' = orEnforceControl r \<Longrightarrow> store_step r r'"
  by (simp add: store_step_def)

lemma authority_step_next:
  "tbRuntimeGeneration b' = nextCodexRuntimeGeneration b rt \<Longrightarrow> tbRuntime b' = rt \<Longrightarrow>
   tbControl b' = tbControl b \<Longrightarrow> authority_step b b'"
  by (auto simp: authority_step_def nextCodexRuntimeGeneration_def codexBindingRuntime_def)

lemmas owner_binding_defs = beginConversationBindingIntent_def currentConversationBindingRevision_def
  invalidateConversationBinding_def bindConversation_def bindConversationAtRevision_def claimWeClawThread_def
  claimWeClawConversationLocked_def claimWeClawConversation_def claimWeClawConversationAtRevision_def
  unarchiveThread_def markDesktopDisconnected_def switchRuntimeAuthority_def invalidateRuntimeAuthority_def
  confirmWeClawThreadsIdle_def

lemma snd_case_prod: "snd (case p of (x, y) \<Rightarrow> f x y) = snd (f (fst p) (snd p))"
  by (cases p) simp

lemma bindConversation_step: "holder_step t r (snd (bindConversation ref b r)) \<and> store_step r (snd (bindConversation ref b r))"
  by (simp add: bindConversation_def Let_def snd_case_prod store_step_same holder_step_same)

lemma claimWeClawThread_step: "holder_step t r (snd (claimWeClawThread u st r))"
  unfolding claimWeClawThread_def Let_def snd_conv
  by (rule holder_step_thread [where u = u]) (auto intro: authority_step_next)

lemma claimLocked_step: "holder_step t r (snd (claimWeClawConversationLocked ref st r))"
  unfolding claimWeClawConversationLocked_def Let_def snd_conv
  by (rule holder_step_thread [where u = "refThreadID ref"]) (auto intro: authority_step_next)

lemma claim_step: "holder_step t r (snd (claimWeClawConversation ref st r))"
  unfolding claimWeClawConversation_def claimWeClawConversationLocked_def Let_def snd_conv
  by (rule holder_step_thread [where u = "refThreadID (trim_ref ref)"]) (auto simp: threadAt_def intro: authority_step_next)

lemma activateRuntimeLocked_step:
  "holder_step t r (snd (activateRuntimeLocked req rt st r)) \<and> store_step r (snd (activateRuntimeLocked req rt st r))"
  by (auto simp: activateRuntimeLocked_def Let_def store_step_same
      intro: holder_step_same holder_step_drop [where u = "refThreadID (rqRef req)"])

lemma activateDesktop_step:
  "holder_step t r (snd (activateDesktopActiveWriter req e st n x r)) \<and>
   store_step r (snd (activateDesktopActiveWriter req e st n x r))"
  by (auto simp: activateDesktopActiveWriter_def Let_def store_step_same split: option.split
      intro: holder_step_drop [where u = "go_trim (refThreadID (rqRef req))"])

lemma beginTurn_step: "holder_step t r (snd (beginTurn req r)) \<and> store_step r (snd (beginTurn req r))"
  by (simp add: beginTurn_def Let_def holder_step_def store_step_def split: option.split)

lemma frontend_step:
  "holder_step t r (snd (bindSharedHostFrontendDuringLeaseAtRevision req st n x r)) \<and>
   store_step r (snd (bindSharedHostFrontendDuringLeaseAtRevision req st n x r))"
  by (auto simp: bindSharedHostFrontendDuringLeaseAtRevision_def bindSharedHostFrontendDuringLeaseLocked_def Let_def
      store_step_same split: option.split intro!: holder_step_state [where u = "go_trim (refThreadID (rqRef req))"])

lemma accept_step: "holder_step t r (snd (accept l turn r)) \<and> store_step r (snd (accept l turn r))"
  by (auto simp: accept_def Let_def same_terms_def split: option.split
      intro!: holder_step_state [where u = "lhThreadID l"] intro: store_step_lease)

lemma markUncertain_step: "holder_step t r (markUncertain l r) \<and> store_step r (markUncertain l r)"
  by (auto simp: markUncertain_def Let_def same_terms_def
      intro!: holder_step_state [where u = "lhThreadID l"] intro: store_step_lease)

lemma finish_step: "holder_step t r (finish l r) \<and> store_step r (finish l r)"
  by (auto simp: finish_def Let_def same_terms_def
      intro: holder_step_release [where u = "lhThreadID l"] store_step_lease)

lemma reconcileLeaseLocked_holder:
  "holder_step t r (snd (reconcileUncertainSharedHostLeaseLocked req st e r))"
proof (cases "\<exists>a. e = Some a \<and> wlUncertain (lease_of r a) \<and> \<not> tsActive st \<and> release_evidence (lease_of r a) st")
  case True
  then show ?thesis
    by (auto simp: reconcileUncertainSharedHostLeaseLocked_def Let_def
        intro: holder_step_release [where u = "refThreadID (rqRef req)"])
next
  case False
  then show ?thesis
    by (auto simp: reconcileUncertainSharedHostLeaseLocked_def Let_def split: option.split
        intro!: holder_step_state [where u = "refThreadID (rqRef req)"])
qed

lemma reconcileLeaseLocked_store:
  "store_step r (snd (reconcileUncertainSharedHostLeaseLocked req st e r))"
  by (auto simp: reconcileUncertainSharedHostLeaseLocked_def Let_def same_terms_def store_step_same split: option.split
      intro: store_step_lease)

lemma logCoexisting_step:
  "holder_step t r (logCoexistingDesktopTurnLocked a turn r) \<and> store_step r (logCoexistingDesktopTurnLocked a turn r)"
  by (auto simp: logCoexistingDesktopTurnLocked_def Let_def same_terms_def intro: holder_step_same store_step_lease)

lemma observeLease_holder:
  "holder_step t r (snd (observeDesktopLeaseLocked u st (threadAt r u) a r))"
proof -
  let ?b = "threadAt r u\<lparr>tbState := st\<rparr>"
  have store: "holder_step t r (set_thread u ?b (set_lease a f r))" "holder_step t r (set_thread u ?b r)" for f
    by (rule holder_step_state [where u = u and b' = ?b]; simp)+
  have log: "holder_step t r (logCoexistingDesktopTurnLocked a turn r)" for turn
    by (simp add: logCoexisting_step)
  show ?thesis
    by (cases "tsActive st"; cases "wlTurnID (lease_of r a) = []")
       (simp_all add: observeDesktopLeaseLocked_def Let_def store log)
qed

lemma observeLease_store: "store_step r (snd (observeDesktopLeaseLocked u st b a r))"
proof -
  have cand: "store_step r (set_thread u b' (set_lease a (\<lambda>s. s\<lparr>wlCandidateDesktopTurn := x\<rparr>) r))" for b' x
    by (auto simp: same_terms_def intro: store_step_lease)
  have log: "store_step r (logCoexistingDesktopTurnLocked a turn r)" for turn
    by (simp add: logCoexisting_step)
  show ?thesis
    by (cases "tsActive st"; cases "wlTurnID (lease_of r a) = []")
       (simp_all add: observeDesktopLeaseLocked_def Let_def cand log store_step_same)
qed

lemma observe_step:
  "holder_step t r (snd (observeDesktopSnapshot u st r)) \<and> store_step r (snd (observeDesktopSnapshot u st r))"
  by (auto simp: observeDesktopSnapshot_def observeDesktopSnapshotLocked_def Let_def observeLease_holder observeLease_store
      store_step_same split: option.split intro!: holder_step_drop [where u = "go_trim u"])

lemma markConflictLocked_step:
  "holder_step t r (snd (markConflictLocked u reason r)) \<and> store_step r (snd (markConflictLocked u reason r))"
proof -
  let ?b = "threadAt r u\<lparr>tbRuntimeGeneration := nextCodexRuntimeGeneration (threadAt r u) codexRuntimeConflict,
    tbRuntime := codexRuntimeConflict, tbConflictReason := go_trim reason\<rparr>"
  have "holder_step t r r'" if "orLeases r' = orLeases r" "orThreads r' = (orThreads r)(u \<mapsto> ?b)" for r'
    using that by (rule holder_step_thread) (auto intro: authority_step_next)
  then show ?thesis
    by (auto simp: markConflictLocked_def Let_def store_step_same same_terms_def split: option.split
        intro: store_step_lease)
qed

lemma markConflictLocked_threads [simp]:
  "orThreads (snd (markConflictLocked u reason r)) = (orThreads r)(u \<mapsto>
     threadAt r u\<lparr>tbRuntimeGeneration := nextCodexRuntimeGeneration (threadAt r u) codexRuntimeConflict,
       tbRuntime := codexRuntimeConflict, tbConflictReason := go_trim reason\<rparr>)"
  "orLeases (snd (markConflictLocked u reason r)) = orLeases r"
  by (simp_all add: markConflictLocked_def Let_def split: option.split)

lemma authority_step_conflict:
  "tbRuntime b' = codexRuntimeConflict \<Longrightarrow>
   tbRuntimeGeneration b' = nextCodexRuntimeGeneration b codexRuntimeConflict \<Longrightarrow> authority_step b b'"
  by (auto simp: authority_step_def nextCodexRuntimeGeneration_def codexBindingRuntime_def)

lemma threadAt_set [simp]:
  "threadAt (set_thread u b r) u = b" "threadAt (set_conversation c v r) u = threadAt r u"
  by (simp_all add: threadAt_def)

lemma markRuntimeConflictLocked_holder:
  "holder_step t r (snd (markRuntimeConflictLocked req reason r))"
proof -
  let ?u = "go_trim (refThreadID (rqRef req))"
  have *: "holder_step t r r'" if "orLeases r' = orLeases r" "orThreads r' = (orThreads r)(?u \<mapsto> b')"
    "tbRuntime b' = codexRuntimeConflict"
    "tbRuntimeGeneration b' = nextCodexRuntimeGeneration (threadAt r ?u) codexRuntimeConflict" for r' b'
    using that(1,2) by (rule holder_step_thread) (use that(3,4) in \<open>auto intro: authority_step_conflict\<close>)
  show ?thesis
    by (cases "go_trim (refConversationID (rqRef req)) = []")
       (simp_all add: markRuntimeConflictLocked_def Let_def nextCodexRuntimeGeneration_def codexBindingRuntime_def *)
qed

lemma markRuntimeConflictLocked_store:
  "store_step r (snd (markRuntimeConflictLocked req reason r))"
  by (auto simp: markRuntimeConflictLocked_def markConflictLocked_def Let_def store_step_same same_terms_def
      split: option.split intro!: store_step_lease)

lemma conflicted_step: "holder_step t r (snd (conflicted u reason r)) \<and> store_step r (snd (conflicted u reason r))"
  by (simp add: conflicted_def snd_case_prod markConflictLocked_step)

lemma reconcileTurn_step:
  "holder_step t r (snd (reconcileObservedTurn reasons req st r)) \<and>
   store_step r (snd (reconcileObservedTurn reasons req st r))"
proof -
  have "holder_step t r (set_thread u (threadAt r u\<lparr>tbState := st'\<rparr>) r)" for u st'
    by (rule holder_step_state [where u = u and b' = "threadAt r u\<lparr>tbState := st'\<rparr>"]; simp)
  then show ?thesis
    by (simp add: reconcileObservedTurn_def Let_def conflicted_step store_step_same split: option.split)
qed

lemma reconcileSharedTurn_step:
  "holder_step t r (snd (reconcileSharedHostObservedTurn reasons req st r)) \<and>
   store_step r (snd (reconcileSharedHostObservedTurn reasons req st r))"
proof -
  have "holder_step t r (set_conversation c u (set_thread u (threadAt r u\<lparr>tbRef := ref, tbState := st'\<rparr>) r))"
    for c u ref st'
    by (rule holder_step_state [where u = u and b' = "threadAt r u\<lparr>tbRef := ref, tbState := st'\<rparr>"]; simp)
  then show ?thesis
    by (simp add: reconcileSharedHostObservedTurn_def Let_def conflicted_step store_step_same split: option.split)
qed

lemma forget_step: "holder_step t r (snd (forgetThread order u q r)) \<and> store_step r (snd (forgetThread order u q r))"
  by (auto simp: forgetThread_def Let_def store_step_same
      intro: holder_step_same holder_step_drop [where u = "go_trim u"])

lemma authority_ops_step:
  "holder_step t r (markDesktopDisconnected r)" "holder_step t r (switchRuntimeAuthority rt r)"
  "holder_step t r (invalidateRuntimeAuthority rt r)" "holder_step t r (confirmWeClawThreadsIdle r)"
  by (auto simp: markDesktopDisconnected_def switchRuntimeAuthority_def invalidateRuntimeAuthority_def
      confirmWeClawThreadsIdle_def Let_def intro!: holder_step_map intro: authority_step_same)

lemmas owner_op_steps = claimWeClawThread_step claimLocked_step claim_step activateRuntimeLocked_step
  activateDesktop_step beginTurn_step frontend_step accept_step markUncertain_step finish_step
  reconcileLeaseLocked_holder reconcileLeaseLocked_store observe_step markRuntimeConflictLocked_holder
  markRuntimeConflictLocked_store reconcileTurn_step reconcileSharedTurn_step forget_step authority_ops_step

lemmas owner_wrapper_defs = activateRuntime_def activateRuntimeAtRevision_def reconcileUncertainSharedHostLease_def
  reconcileUncertainSharedHostLeaseAtRevision_def markRuntimeConflict_def markRuntimeConflictAtRevision_def

lemma store_step_op: "store_step r (apply_op op r)"
  by (cases op) (simp_all add: owner_op_steps owner_wrapper_defs owner_binding_defs Let_def snd_case_prod
      store_step_same split: option.split)

lemma holder_step_op: "holder_step t r (apply_op op r)"
  by (cases op) (simp_all add: owner_op_steps owner_wrapper_defs beginConversationBindingIntent_def
      currentConversationBindingRevision_def invalidateConversationBinding_def bindConversation_def
      bindConversationAtRevision_def claimWeClawConversationAtRevision_def unarchiveThread_def
      Let_def snd_case_prod holder_step_same split: option.split)

end
