(* ===== verification/Owner_Runs.thy ===== *)
theory Owner_Runs
  imports Owner_System
begin

section \<open>Executions of the registry\<close>

text \<open>
  Lemmas on sequences of operations: the invariant of the lease table, what a run can do to a
  thread whose lease is held from its beginning to its end, the lease object a writer keeps
  and the conversation revisions.
\<close>

abbreviation run_ops :: "registry_op list \<Rightarrow> codexRuntimeOwnerRegistry \<Rightarrow> codexRuntimeOwnerRegistry" where
  "run_ops ops r \<equiv> fold apply_op ops r"

definition owner_inv :: "codexRuntimeOwnerRegistry \<Rightarrow> bool" where
  "owner_inv r \<longleftrightarrow>
     (\<forall>t a. orLeases r t = Some a \<longrightarrow>
        a < orNextLease r \<and> orThreads r t \<noteq> None \<and> (\<forall>u. orLeases r u = Some a \<longrightarrow> u = t))"

lemma restore_leases: "orLeases (fold restore_binding bs r) = orLeases r"
  by (induction bs arbitrary: r) (simp_all add: restore_binding_def Let_def)

lemma holder_stepD:
  "holder_step t r r' \<Longrightarrow> orLeases r' t = Some a \<Longrightarrow> orLeases r t \<noteq> None \<Longrightarrow>
     orLeases r t = Some a \<and> (\<forall>b. orThreads r t = Some b \<longrightarrow> (\<exists>b'. orThreads r' t = Some b' \<and> authority_step b b'))"
  "holder_step t r r' \<Longrightarrow> orLeases r' t = Some a \<Longrightarrow> orLeases r t = None \<Longrightarrow>
     a = orNextLease r \<and> orNextLease r' = Suc a \<and> t \<notin> orArchivedThreads r \<and> orThreads r' t \<noteq> None"
  by (auto simp: holder_step_def split: option.splits)

lemma store_stepD:
  "store_step r r' \<Longrightarrow> orNextLease r \<le> orNextLease r'"
  "store_step r r' \<Longrightarrow> orEnforceControl r' = orEnforceControl r"
  "store_step r r' \<Longrightarrow> a < orNextLease r \<Longrightarrow> same_terms (orLeaseStore r a) (orLeaseStore r' a)"
  by (auto simp: store_step_def)

lemma leaseE_step:
  assumes "orLeases (apply_op op r) t = Some a"
  obtains (kept) "orLeases r t = Some a" | (new) "orLeases r t = None" "a = orNextLease r"
  using holder_stepD [OF holder_step_op assms] by (cases "orLeases r t") auto

subsection \<open>Which operations touch the lease table\<close>

definition lease_released :: "codexRuntimeRequest \<Rightarrow> codexThreadState \<Rightarrow> codexRuntimeOwnerRegistry \<Rightarrow> bool" where
  "lease_released req st r \<longleftrightarrow>
     (case orLeases r (refThreadID (rqRef req)) of
        None \<Rightarrow> False
      | Some a \<Rightarrow> wlUncertain (lease_of r a) \<and> \<not> tsActive st \<and> release_evidence (lease_of r a) st)"

lemma reconcileLocked_leases:
  "orLeases (snd (reconcileUncertainSharedHostLeaseLocked req st (orLeases r (refThreadID (rqRef req))) r)) =
     (if lease_released req st r then (orLeases r)(refThreadID (rqRef req) := None) else orLeases r)"
  by (simp add: reconcileUncertainSharedHostLeaseLocked_def lease_released_def Let_def split: option.split)

lemma beginTurn_leases:
  "orLeases (snd (beginTurn req r)) =
     (case fst (beginTurn req r) of Inl _ \<Rightarrow> orLeases r | Inr l \<Rightarrow> (orLeases r)(lhThreadID l \<mapsto> lhState l))"
  by (simp add: beginTurn_def Let_def split: option.split)

lemma finish_leases:
  "orLeases (finish l r) = (if holds_lease l r then (orLeases r)(lhThreadID l := None) else orLeases r)"
  by (simp add: finish_def Let_def)

lemma observeLease_leases [simp]: "orLeases (snd (observeDesktopLeaseLocked u st b a r)) = orLeases r"
  by (simp add: observeDesktopLeaseLocked_def logCoexistingDesktopTurnLocked_def Let_def)

lemma conflicted_leases [simp]: "orLeases (snd (conflicted u reason r)) = orLeases r"
  by (simp add: conflicted_def snd_case_prod)

definition touches_leases :: "registry_op \<Rightarrow> bool" where
  "touches_leases op \<longleftrightarrow> (case op of OpBeginTurn _ \<Rightarrow> True | OpFinish _ \<Rightarrow> True | OpReconcileLease _ _ \<Rightarrow> True
     | OpReconcileLeaseAt _ _ _ _ _ \<Rightarrow> True | _ \<Rightarrow> False)"

lemma other_op_leases: "\<not> touches_leases op \<Longrightarrow> orLeases (apply_op op r) = orLeases r"
  by (cases op)
     (simp_all add: touches_leases_def owner_wrapper_defs owner_binding_defs activateRuntimeLocked_def
       activateDesktopActiveWriter_def bindSharedHostFrontendDuringLeaseAtRevision_def
       bindSharedHostFrontendDuringLeaseLocked_def accept_def markUncertain_def observeDesktopSnapshot_def
       observeDesktopSnapshotLocked_def markRuntimeConflictLocked_def reconcileObservedTurn_def
       reconcileSharedHostObservedTurn_def forgetThread_def Let_def snd_case_prod split: option.split)

lemma lease_op_cases:
  assumes "orLeases (apply_op op r) \<noteq> orLeases r"
  obtains (begun) req l where "op = OpBeginTurn req" "fst (beginTurn req r) = Inr l"
      "orLeases (apply_op op r) = (orLeases r)(lhThreadID l \<mapsto> lhState l)"
  | (finished) l where "op = OpFinish l" "holds_lease l r" "orLeases (apply_op op r) = (orLeases r)(lhThreadID l := None)"
  | (reconciled) req st e n x where "op = OpReconcileLease req st \<or> op = OpReconcileLeaseAt req st e n x"
      "lease_released req st r" "orLeases (apply_op op r) = (orLeases r)(refThreadID (rqRef req) := None)"
proof -
  have touched: "touches_leases op" using assms other_op_leases by blast
  show thesis
  proof (cases op)
    case (OpBeginTurn req)
    then show ?thesis using assms begun by (cases "fst (beginTurn req r)") (auto simp: beginTurn_leases)
  next
    case (OpFinish l)
    then show ?thesis using assms finished by (cases "holds_lease l r") (auto simp: finish_leases)
  next
    case (OpReconcileLease req st)
    then show ?thesis using assms reconciled
      by (auto simp: reconcileUncertainSharedHostLease_def reconcileLocked_leases split: option.splits if_splits)
  next
    case (OpReconcileLeaseAt req st e n x)
    then have "orLeases (apply_op op r) = orLeases r \<or> orLeases (apply_op op r) =
        orLeases (snd (reconcileUncertainSharedHostLeaseLocked req st (orLeases r (refThreadID (rqRef req))) r))"
      by (simp add: reconcileUncertainSharedHostLeaseAtRevision_def Let_def split: option.split)
    then show ?thesis using assms reconciled [of req st e n x] OpReconcileLeaseAt reconcileLocked_leases [of req st r] by metis
  qed (use touched in \<open>simp_all add: touches_leases_def\<close>)
qed

lemma new_lease_unique:
  assumes "orLeases r t = None" "orLeases (apply_op op r) t = Some a" "u \<noteq> t"
  shows "orLeases (apply_op op r) u = orLeases r u"
proof -
  have "orLeases (apply_op op r) \<noteq> orLeases r" using assms by auto
  then show ?thesis using assms by (cases rule: lease_op_cases) (auto split: if_splits)
qed

lemma owner_inv_op: "owner_inv r \<Longrightarrow> owner_inv (apply_op op r)"
  unfolding owner_inv_def
proof (intro allI impI, goal_cases)
  case (1 t a)
  let ?r' = "apply_op op r"
  have grow: "orNextLease r \<le> orNextLease ?r'" by (rule store_stepD(1) [OF store_step_op])
  have thread: "orThreads ?r' t \<noteq> None"
  proof (cases "orLeases r t")
    case None
    then show ?thesis using holder_stepD(2) [OF holder_step_op 1(2)] by blast
  next
    case (Some a0)
    then obtain b where "orThreads r t = Some b" using 1(1) by blast
    then show ?thesis using holder_stepD(1) [OF holder_step_op 1(2)] Some by blast
  qed
  have old: "orLeases r u \<noteq> Some (orNextLease r)" for u using 1(1) by (metis order_less_irrefl)
  from 1(2) show ?case
  proof (cases rule: leaseE_step)
    case kept
    then have "a < orNextLease r" using 1(1) by blast
    then have "a < orNextLease ?r'" using grow by linarith
    moreover have "u = t" if "orLeases ?r' u = Some a" for u
    proof (cases "orLeases r u = Some a")
      case True
      then show ?thesis using 1(1) kept by blast
    next
      case False
      then have "a = orNextLease r" using that by (elim leaseE_step) auto
      then show ?thesis using kept old by blast
    qed
    ultimately show ?thesis using thread by blast
  next
    case new
    have "a < orNextLease ?r'" using holder_stepD(2) [OF holder_step_op 1(2)] new by simp
    moreover have "u = t" if u: "orLeases ?r' u = Some a" for u
      using new_lease_unique [OF new(1) 1(2), of u] u new(2) old by metis
    ultimately show ?thesis using thread by blast
  qed
qed

lemma owner_inv_init: "owner_init r \<Longrightarrow> owner_inv r"
  by (auto simp: owner_init_def owner_inv_def restoreBindings_def restore_leases newCodexRuntimeOwnerRegistry_def)

interpretation owner: invariant_system owner_init owner_step owner_inv
  by unfold_locales (auto simp: owner_inv_init elim!: owner_stepE intro: owner_inv_op)

lemma owner_inv_run: "owner_inv r \<Longrightarrow> owner_inv (run_ops ops r)"
  by (induction ops arbitrary: r) (simp_all add: owner_inv_op)

subsection \<open>Runs during which a lease is held\<close>

lemma counter_not_wrapped: "(of_nat k :: uint64) = 0 \<Longrightarrow> k < 2 ^ 64 \<Longrightarrow> k = 0"
  by (auto simp: word_of_nat_eq_0_iff dest: nat_dvd_not_less)

lemma next_run: "orNextLease r \<le> orNextLease (run_ops ops r)"
proof (induction ops arbitrary: r)
  case (Cons op ops)
  show ?case using store_stepD(1) [OF store_step_op, of r op] Cons.IH [of "apply_op op r"] by simp
qed simp

lemma lease_not_regained:
  "a < orNextLease r \<Longrightarrow> orLeases (run_ops ops r) t = Some a \<Longrightarrow> orLeases r t = Some a"
proof (induction ops arbitrary: r)
  case (Cons op ops)
  have "a < orNextLease (apply_op op r)" using Cons.prems(1) store_stepD(1) [OF store_step_op] order_less_le_trans by blast
  with Cons have "orLeases (apply_op op r) t = Some a" by simp
  then show ?case using Cons.prems(1) by (cases rule: leaseE_step) auto
qed simp

lemma lease_run:
  assumes "owner_inv r" "orThreads r t = Some b" "orLeases r t = Some a" "orLeases (run_ops ops r) t = Some a"
  shows "\<exists>b' k. orThreads (run_ops ops r) t = Some b' \<and> k \<le> length ops \<and>
     tbRuntimeGeneration b' = tbRuntimeGeneration b + of_nat k \<and>
     (k = 0 \<and> tbRuntime b \<noteq> codexRuntimeConflict \<longrightarrow> tbRuntime b' = tbRuntime b \<and> tbControl b' = tbControl b)"
  using assms
proof (induction ops arbitrary: r b)
  case (Cons op ops)
  let ?r' = "apply_op op r"
  have "a < orNextLease r" using Cons.prems unfolding owner_inv_def by blast
  then have "a < orNextLease ?r'" using store_stepD(1) [OF store_step_op] order_less_le_trans by blast
  then have held: "orLeases ?r' t = Some a" using lease_not_regained Cons.prems(4) by fastforce
  then obtain b1 where b1: "orThreads ?r' t = Some b1" "authority_step b b1"
    using holder_stepD(1) [OF holder_step_op held] Cons.prems(2,3) by blast
  obtain b' k where *: "orThreads (run_ops ops ?r') t = Some b'" "k \<le> length ops"
    "tbRuntimeGeneration b' = tbRuntimeGeneration b1 + of_nat k"
    "k = 0 \<and> tbRuntime b1 \<noteq> codexRuntimeConflict \<longrightarrow> tbRuntime b' = tbRuntime b1 \<and> tbControl b' = tbControl b1"
    using Cons.IH [OF owner_inv_op [OF Cons.prems(1)] b1(1) held] Cons.prems(4) unfolding fold_simps(2) by blast
  show ?case
  proof (cases "tbRuntimeGeneration b1 = tbRuntimeGeneration b + 1")
    case True
    then have "tbRuntimeGeneration b' = tbRuntimeGeneration b + of_nat (Suc k)" using *(3) by simp
    then show ?thesis using *(1,2) by (intro exI [of _ b'] exI [of _ "Suc k"]) simp
  next
    case False
    then have same: "tbRuntimeGeneration b1 = tbRuntimeGeneration b"
      "tbRuntime b \<noteq> codexRuntimeConflict \<Longrightarrow> tbRuntime b1 = tbRuntime b \<and> tbControl b1 = tbControl b"
      using b1(2) unfolding authority_step_def by metis+
    show ?thesis using *(1-3) *(4) same by (intro exI [of _ b'] exI [of _ k]) simp
  qed
qed simp

lemma terms_run:
  "a < orNextLease r \<Longrightarrow> same_terms (orLeaseStore r a) (orLeaseStore (run_ops ops r) a)"
proof (induction ops arbitrary: r)
  case (Cons op ops)
  have "a < orNextLease (apply_op op r)" using Cons.prems store_stepD(1) [OF store_step_op] order_less_le_trans by blast
  from Cons.IH [OF this] store_stepD(3) [OF store_step_op Cons.prems] show ?case by (auto simp: same_terms_def)
qed simp

lemma enforce_run: "orEnforceControl (run_ops ops r) = orEnforceControl r"
  by (induction ops arbitrary: r) (simp_all add: store_stepD(2) [OF store_step_op])

lemma beginTurn_InrD:
  assumes "beginTurn req r = (Inr l, r')"
  shows "validateCodexRuntimeRequestForRegistry req (orEnforceControl r) = None"
    "\<exists>b. orThreads r (refThreadID (rqRef req)) = Some b \<and>
       (orEnforceControl r \<longrightarrow> sameCodexControlIntent (tbControl b) (rqIntent req)) \<and>
       tbRuntime b \<in> {codexRuntimeWeClaw, codexRuntimeDesktop} \<and>
       orLeaseStore r' = (orLeaseStore r)(orNextLease r := new_lease req b)"
    "refThreadID (rqRef req) \<notin> orArchivedThreads r"
    "orLeases r (refThreadID (rqRef req)) = None"
    "l = \<lparr>lhThreadID = refThreadID (rqRef req), lhState = orNextLease r\<rparr>"
    "orLeases r' = (orLeases r)(refThreadID (rqRef req) \<mapsto> orNextLease r)" "orNextLease r' = Suc (orNextLease r)"
    "orThreads r' = orThreads r" "orEnforceControl r' = orEnforceControl r"
    "r' = apply_op (OpBeginTurn req) r"
  using assms by (auto simp: beginTurn_def Let_def split: option.splits if_splits)

end
