(* ===== verification/Owner_Contract.thy ===== *)
theory Owner_Contract
  imports Owner_Runs
begin

section \<open>What the owner registry guarantees\<close>

text \<open>
  The properties of the registry: leases are exclusive and their check is sound, revisions fence
  off late answers, archived threads get no turn, an uncertain lease is released only on
  evidence, and a conflict ends the turn. The claim table of the prelude is interpreted on
  \<open>beginTurn\<close> and \<open>finish\<close>.
\<close>

subsection \<open>The lease table is a claim table\<close>

definition lease_acquire ::
  "codexRuntimeRequest \<Rightarrow> string \<Rightarrow> nat \<Rightarrow> codexRuntimeOwnerRegistry \<Rightarrow> codexRuntimeOwnerRegistry option" where
  "lease_acquire req t a r =
     (case beginTurn req r of
        (Inl _, _) \<Rightarrow> None
      | (Inr l, r') \<Rightarrow> if lhThreadID l = t \<and> lhState l = a then Some r' else None)"

definition lease_release :: "string \<Rightarrow> nat \<Rightarrow> codexRuntimeOwnerRegistry \<Rightarrow> codexRuntimeOwnerRegistry" where
  "lease_release t a r = finish \<lparr>lhThreadID = t, lhState = a\<rparr> r"

lemma lease_acquire_SomeD:
  "lease_acquire req t a r = Some r' \<Longrightarrow> beginTurn req r = (Inr \<lparr>lhThreadID = t, lhState = a\<rparr>, r')"
  by (auto simp: lease_acquire_def split: prod.splits sum.splits if_splits)

interpretation lease: claim_table orLeases "lease_acquire req" lease_release for req
proof unfold_locales
  fix t a r r'
  assume *: "lease_acquire req t a r = Some r'"
  note b = beginTurn_InrD [OF lease_acquire_SomeD [OF *]]
  show "orLeases r t = None" "orLeases r' = (orLeases r)(t \<mapsto> a)" using b(4,5,6) by auto
qed (auto simp: lease_release_def finish_leases holds_lease_def)

lemma beginTurn_busy:
  assumes "orLeases r (refThreadID (rqRef req)) = Some a"
  shows "\<exists>err. beginTurn req r = (Inl err, r)"
proof (cases "fst (beginTurn req r)")
  case (Inl err)
  then show ?thesis by (auto simp: beginTurn_def Let_def split: option.splits if_splits)
next
  case (Inr l)
  then obtain r' where r': "beginTurn req r = (Inr l, r')" by (metis prod.collapse)
  then have "lease_acquire req (lhThreadID l) (lhState l) r = Some r'" by (simp add: lease_acquire_def)
  then show ?thesis using lease.acquire_held [OF assms, of req "lhState l"] beginTurn_InrD(5) [OF r'] by simp
qed

subsection \<open>Exclusive writers\<close>

text \<open>
  C10: a writer that began a turn is the only one: as long as it holds its lease, after any sequence
  of operations of the rest of the program, no other turn begins on the thread, no other handle is
  the holder, and nobody else's finish releases it; its own finish does, and a lease once
  given back is never held again.
\<close>

theorem writer_lease_exclusive:
  assumes r0: "reach owner_init owner_step r0" and b: "beginTurn req r0 = (Inr l, r1)"
    and held: "holds_lease l (run_ops ops r1)"
  shows "(\<forall>req'. refThreadID (rqRef req') = lhThreadID l \<longrightarrow>
      (\<exists>err. beginTurn req' (run_ops ops r1) = (Inl err, run_ops ops r1))) \<and>
    (\<forall>l'. holds_lease l' (run_ops ops r1) \<and> (lhThreadID l' = lhThreadID l \<or> lhState l' = lhState l) \<longrightarrow> l' = l) \<and>
    (\<forall>l'. l' \<noteq> l \<longrightarrow> holds_lease l (finish l' (run_ops ops r1))) \<and>
    (\<forall>later. \<not> holds_lease l (run_ops later (finish l (run_ops ops r1))))"
proof -
  let ?r = "run_ops ops r1"
  have inv: "owner_inv r1"
    using owner.reach_inv [OF r0] beginTurn_InrD(10) [OF b] owner_inv_op by metis
  have inv': "owner_inv ?r" by (rule owner_inv_run [OF inv])
  have lt: "lhState l < orNextLease ?r" using inv' held by (auto simp: owner_inv_def holds_lease_def)
  have "lhState l < orNextLease (finish l ?r)"
    using lt store_stepD(1) [OF store_step_op [of ?r "OpFinish l"]] by simp
  then have gone: "\<not> holds_lease l (run_ops later (finish l ?r))" for later
    using lease_not_regained [of "lhState l" "finish l ?r" later "lhThreadID l"] held
    by (auto simp: holds_lease_def finish_leases)
  have other: "holds_lease l (finish l' ?r)" if "l' \<noteq> l" for l'
    using that held by (cases "lhThreadID l' = lhThreadID l") (auto simp: holds_lease_def finish_leases)
  have uniq: "l' = l" if "holds_lease l' ?r" "lhThreadID l' = lhThreadID l \<or> lhState l' = lhState l" for l'
    using that held inv' by (auto simp: holds_lease_def owner_inv_def)
  show ?thesis using beginTurn_busy held gone other uniq by (auto simp: holds_lease_def)
qed

text \<open>A small registry for the witnesses: one conversation, one thread claimed for the local host.\<close>

definition demo_ref :: codexThreadRef where
  "demo_ref = \<lparr>refConversationID = ''c'', refThreadID = ''t''\<rparr>"

definition demo_request :: codexRuntimeRequest where
  "demo_request = \<lparr>rqRef = demo_ref, rqIntent = tbControl zero_binding,
     rqCheckpoint = \<lparr>rcPath = [], rcTurnID = [], rcOffset = 0, rcSize = 0, rcActive = False\<rparr>,
     rqWorkspaceRoot = [], rqPendingFirstTurn = False\<rparr>"

definition demo_registry :: codexRuntimeOwnerRegistry where
  "demo_registry = apply_op (OpClaim demo_ref zero_state) (newCodexRuntimeOwnerRegistry False)"

definition demo_lease :: codexWriterLease where
  "demo_lease = \<lparr>lhThreadID = ''t'', lhState = 0\<rparr>"

definition demo_running :: codexRuntimeOwnerRegistry where
  "demo_running = snd (beginTurn demo_request demo_registry)"

lemma owner_demo_reach: "reach owner_init owner_step demo_registry"
proof -
  have "owner_init (newCodexRuntimeOwnerRegistry False)"
    unfolding owner_init_def by (rule exI [of _ False], rule exI [of _ "[]"]) (simp add: restoreBindings_def)
  then have "reach owner_init owner_step (newCodexRuntimeOwnerRegistry False)" by (rule reach_init)
  then show ?thesis unfolding demo_registry_def by (rule reach_step) (rule owner_op)
qed

lemma owner_demo_trim [simp]: "go_trim ''t'' = ''t''" "go_trim ''c'' = ''c''" "go_trim ''m'' = ''m''" "\<not> blank ''t''" "\<not> blank ''c''" "\<not> blank ''m''"
  by code_simp+

lemma owner_demo_begins: "beginTurn demo_request demo_registry = (Inr demo_lease, demo_running)"
  by (simp add: demo_running_def demo_registry_def demo_request_def demo_ref_def demo_lease_def beginTurn_def Let_def
      claimWeClawConversation_def claimWeClawConversationLocked_def trim_ref_def newCodexRuntimeOwnerRegistry_def
      advanceConversationRevisionLocked_def validateCodexRuntimeRequestForRegistry_def
      codexRuntimeWeClaw_def codexRuntimeConflict_def codexRuntimeDesktop_def)

lemma owner_demo_held: "holds_lease demo_lease demo_running"
  using beginTurn_InrD(5,6) [OF owner_demo_begins] by (simp add: holds_lease_def demo_lease_def)

theorem writer_lease_exclusive_witness:
  "\<exists>err. beginTurn demo_request demo_running = (Inl err, demo_running)"
proof -
  have "holds_lease demo_lease (run_ops [] demo_running)" using owner_demo_held by simp
  from writer_lease_exclusive [OF owner_demo_reach owner_demo_begins this] show ?thesis
    by (simp add: demo_request_def demo_ref_def demo_lease_def)
qed

subsection \<open>Checking a lease\<close>

text \<open>
  C11: a lease check that passes is proof for the whole turn. If a turn that has seen fewer than 2^64
  operations of the rest of the program passes its check, then at every moment since it began
  it held the lease, and the runtime of the thread, its generation and the control intent were
  those it began with: no hand-over, loss of the host, conflict or change of control in
  between goes unnoticed, even if the old runtime is back at the time of the check.
\<close>

theorem lease_check_sound:
  assumes r0: "reach owner_init owner_step r0" and b: "beginTurn req r0 = (Inr l, r1)"
    and len: "length ops < 2 ^ 64" and ok: "check l (run_ops ops r1) = None" and i: "i \<le> length ops"
  shows "holds_lease l (run_ops (take i ops) r1) \<and>
    (let now = threadAt (run_ops (take i ops) r1) (lhThreadID l); start = threadAt r0 (lhThreadID l) in
     tbRuntime now = tbRuntime start \<and> tbRuntimeGeneration now = tbRuntimeGeneration start \<and>
     tbControl now = tbControl start)"
proof -
  let ?t = "lhThreadID l" and ?a = "lhState l" and ?m = "run_ops (take i ops) r1" and ?e = "run_ops ops r1"
  have e: "?e = run_ops (drop i ops) ?m" by (metis append_take_drop_id fold_append o_apply)
  note B = beginTurn_InrD [OF b]
  obtain bd where bd: "orThreads r0 ?t = Some bd" "tbRuntime bd \<in> {codexRuntimeWeClaw, codexRuntimeDesktop}"
    "orLeaseStore r1 = (orLeaseStore r0)(orNextLease r0 := new_lease req bd)"
    using B(2,5) by auto
  have inv: "owner_inv r1" using owner.reach_inv [OF r0] B(10) owner_inv_op by metis
  have a: "?a < orNextLease r1" "orLeases r1 ?t = Some ?a" "orThreads r1 ?t = Some bd"
    "?a = orNextLease r0" using B(5-8) bd(1) by auto
  have held: "orLeases ?e ?t = Some ?a" using ok by (simp add: check_def holds_lease_def split: if_splits)
  have "?a < orNextLease ?m" using a(1) next_run order_less_le_trans by blast
  then have heldm: "orLeases ?m ?t = Some ?a" using lease_not_regained held unfolding e by blast
  have len_take: "length (take i ops) = i" using i by simp
  obtain bm k where bm: "orThreads ?m ?t = Some bm" "k \<le> i"
    "tbRuntimeGeneration bm = tbRuntimeGeneration bd + of_nat k"
    "k = 0 \<and> tbRuntime bd \<noteq> codexRuntimeConflict \<longrightarrow> tbRuntime bm = tbRuntime bd \<and> tbControl bm = tbControl bd"
    using lease_run [OF inv a(3,2) heldm] len_take by auto
  obtain be k' where be: "orThreads ?e ?t = Some be" "k' \<le> length ops - i"
    "tbRuntimeGeneration be = tbRuntimeGeneration bm + of_nat k'"
    using lease_run [OF owner_inv_run [OF inv] bm(1) heldm held [unfolded e]] unfolding e [symmetric] by auto
  have "same_terms (new_lease req bd) (orLeaseStore ?e ?a)" using terms_run [OF a(1), of ops] bd(3) a(4) by simp
  then have "tbRuntimeGeneration be = tbRuntimeGeneration bd"
    using ok be(1) by (auto simp: check_def bindingErrorLocked_def Let_def lease_of_def same_terms_def new_lease_def
        split: if_splits)
  then have "(of_nat (k + k') :: 64 word) = 0" using bm(3) be(3) by (simp add: add.assoc)
  moreover have "k + k' < 2 ^ 64" using bm(2) be(2) len i by linarith
  ultimately have "k = 0" using counter_not_wrapped by blast
  moreover have "tbRuntime bd \<noteq> codexRuntimeConflict"
    using bd(2) by (auto simp: codexRuntimeConflict_def codexRuntimeWeClaw_def codexRuntimeDesktop_def)
  ultimately show ?thesis using bm bd(1) heldm by (simp add: holds_lease_def Let_def)
qed

theorem lease_check_sound_witness:
  "tbRuntime (threadAt demo_running ''t'') = tbRuntime (threadAt demo_registry ''t'') \<and>
   check demo_lease (run_ops [OpAccept demo_lease ''m'', OpDesktopDisconnected] demo_running) = None"
proof -
  have ok: "check demo_lease (run_ops [OpAccept demo_lease ''m'', OpDesktopDisconnected] demo_running) = None"
    by (simp add: demo_running_def demo_registry_def demo_request_def demo_ref_def demo_lease_def beginTurn_def Let_def
      claimWeClawConversation_def claimWeClawConversationLocked_def trim_ref_def newCodexRuntimeOwnerRegistry_def
      advanceConversationRevisionLocked_def validateCodexRuntimeRequestForRegistry_def check_def accept_def
      holds_lease_def bindingErrorLocked_def lease_of_def threadAt_def markDesktopDisconnected_def codexBindingRuntime_def
      new_lease_def codexRuntimeWeClaw_def codexRuntimeConflict_def codexRuntimeDesktop_def)
  from lease_check_sound [OF owner_demo_reach owner_demo_begins _ ok, of 0] ok show ?thesis
    by (simp add: Let_def demo_lease_def)
qed

end
