(* ===== verification/Owner_Fences.thy ===== *)
theory Owner_Fences
  imports Owner_Contract
begin

section \<open>Revisions, archived threads and conflicts\<close>

text \<open>
  The conversation revisions of the registry, the archived threads, uncertain leases and the
  conflict state, over sequences of operations.
\<close>

subsection \<open>How far an operation advances the revision counter\<close>

definition op_advances :: "registry_op \<Rightarrow> nat" where
  "op_advances op = (case op of OpForget order _ _ \<Rightarrow> length order | _ \<Rightarrow> 1)"

definition revisions_step :: "nat \<Rightarrow> codexRuntimeOwnerRegistry \<Rightarrow> codexRuntimeOwnerRegistry \<Rightarrow> bool" where
  "revisions_step n r r' \<longleftrightarrow> (\<exists>k \<le> n. orRevisionCounter r' = orRevisionCounter r + of_nat k \<and>
     (\<forall>c. orConversationRevisions r' c = orConversationRevisions r c \<or>
       (\<exists>j. 1 \<le> j \<and> j \<le> k \<and> orConversationRevisions r' c = orRevisionCounter r + of_nat j)))"

lemma revisions_step_same:
  "orRevisionCounter r' = orRevisionCounter r \<Longrightarrow> orConversationRevisions r' = orConversationRevisions r \<Longrightarrow>
   revisions_step n r r'"
  unfolding revisions_step_def by (rule exI [of _ 0]) simp

lemma revisions_step_trans:
  assumes "revisions_step m r r1" "revisions_step n r1 r2"
  shows "revisions_step (m + n) r r2"
proof -
  obtain k where k: "k \<le> m" "orRevisionCounter r1 = orRevisionCounter r + of_nat k"
    "\<And>c. orConversationRevisions r1 c = orConversationRevisions r c \<or>
       (\<exists>j. 1 \<le> j \<and> j \<le> k \<and> orConversationRevisions r1 c = orRevisionCounter r + of_nat j)"
    using assms(1) unfolding revisions_step_def by blast
  obtain k' where k': "k' \<le> n" "orRevisionCounter r2 = orRevisionCounter r1 + of_nat k'"
    "\<And>c. orConversationRevisions r2 c = orConversationRevisions r1 c \<or>
       (\<exists>j. 1 \<le> j \<and> j \<le> k' \<and> orConversationRevisions r2 c = orRevisionCounter r1 + of_nat j)"
    using assms(2) unfolding revisions_step_def by blast
  have "orConversationRevisions r2 c = orConversationRevisions r c \<or>
      (\<exists>j. 1 \<le> j \<and> j \<le> k + k' \<and> orConversationRevisions r2 c = orRevisionCounter r + of_nat j)" for c
    using k'(3) [of c]
  proof
    assume "orConversationRevisions r2 c = orConversationRevisions r1 c"
    then show ?thesis using k(3) [of c] by (metis trans_le_add1)
  next
    assume "\<exists>j. 1 \<le> j \<and> j \<le> k' \<and> orConversationRevisions r2 c = orRevisionCounter r1 + of_nat j"
    then obtain j where "1 \<le> j" "j \<le> k'" "orConversationRevisions r2 c = orRevisionCounter r1 + of_nat j" by blast
    then show ?thesis using k(2) by (intro disjI2 exI [of _ "k + j"]) (simp add: add.assoc)
  qed
  then show ?thesis
    unfolding revisions_step_def using k(1,2) k'(1,2) by (intro exI [of _ "k + k'"]) (simp add: add.assoc)
qed

lemma revisions_step_advance: "revisions_step (Suc 0) r (snd (advanceConversationRevisionLocked c r))"
  unfolding revisions_step_def advanceConversationRevisionLocked_def Let_def
  by (cases "c = []") (force intro: exI [of _ 0], force intro: exI [of _ 1])

lemma revisions_step_trans_same:
  "revisions_step n r r1 \<Longrightarrow> orRevisionCounter r2 = orRevisionCounter r1 \<Longrightarrow>
   orConversationRevisions r2 = orConversationRevisions r1 \<Longrightarrow> revisions_step n r r2"
  unfolding revisions_step_def by simp

lemma forget_conversation_revisions: "revisions_step (Suc 0) r (forget_conversation t c r)"
  by (auto simp: forget_conversation_def Let_def revisions_step_same split: option.split
      intro: revisions_step_trans_same [OF revisions_step_advance])

lemma forget_conversations_revisions: "revisions_step (length cs) r (fold (forget_conversation t) cs r)"
proof (induction cs arbitrary: r)
  case (Cons c cs)
  from revisions_step_trans [OF forget_conversation_revisions Cons.IH] show ?case by simp
qed (simp add: revisions_step_same)

lemma observeLease_revisions [simp]:
  "orRevisionCounter (snd (observeDesktopLeaseLocked u st b a r)) = orRevisionCounter r"
  "orConversationRevisions (snd (observeDesktopLeaseLocked u st b a r)) = orConversationRevisions r"
  "orArchivedThreads (snd (observeDesktopLeaseLocked u st b a r)) = orArchivedThreads r"
  by (simp_all add: observeDesktopLeaseLocked_def logCoexistingDesktopTurnLocked_def Let_def)

lemma markConflictLocked_revisions [simp]:
  "orRevisionCounter (snd (markConflictLocked u reason r)) = orRevisionCounter r"
  "orConversationRevisions (snd (markConflictLocked u reason r)) = orConversationRevisions r"
  "orArchivedThreads (snd (markConflictLocked u reason r)) = orArchivedThreads r"
  by (simp_all add: markConflictLocked_def Let_def split: option.split)

lemma conflicted_revisions [simp]:
  "orRevisionCounter (snd (conflicted u reason r)) = orRevisionCounter r"
  "orConversationRevisions (snd (conflicted u reason r)) = orConversationRevisions r"
  "orArchivedThreads (snd (conflicted u reason r)) = orArchivedThreads r"
  by (simp_all add: conflicted_def snd_case_prod)

lemmas owner_lease_defs = activateRuntimeLocked_def activateDesktopActiveWriter_def beginTurn_def
  bindSharedHostFrontendDuringLeaseAtRevision_def bindSharedHostFrontendDuringLeaseLocked_def accept_def
  markUncertain_def finish_def reconcileUncertainSharedHostLeaseLocked_def observeDesktopSnapshot_def
  observeDesktopSnapshotLocked_def markRuntimeConflictLocked_def reconcileObservedTurn_def
  reconcileSharedHostObservedTurn_def

definition advances_revisions :: "registry_op \<Rightarrow> bool" where
  "advances_revisions op \<longleftrightarrow> (case op of OpBeginIntent _ \<Rightarrow> True | OpCurrentRevision _ \<Rightarrow> True | OpInvalidate _ \<Rightarrow> True
     | OpBind _ _ \<Rightarrow> True | OpClaim _ _ \<Rightarrow> True | OpForget _ _ _ \<Rightarrow> True | _ \<Rightarrow> False)"

lemma other_op_revisions:
  assumes "\<not> advances_revisions op"
  shows "orRevisionCounter (apply_op op r) = orRevisionCounter r"
    "orConversationRevisions (apply_op op r) = orConversationRevisions r"
  using assms by (cases op; simp add: advances_revisions_def owner_wrapper_defs owner_binding_defs owner_lease_defs
      Let_def snd_case_prod split: option.split)+

lemma revisions_step_op: "revisions_step (op_advances op) r (apply_op op r)"
proof (cases "advances_revisions op")
  case False
  then show ?thesis by (simp add: revisions_step_same other_op_revisions)
next
  case True
  note adv = revisions_step_trans_same [OF revisions_step_advance]
  show ?thesis
  proof (cases op)
    case (OpForget order t q)
    then show ?thesis
      using forget_conversations_revisions [of order "r\<lparr>orArchivedThreads := insert (go_trim t) (orArchivedThreads r)\<rparr>" "go_trim t"]
      by (auto simp: op_advances_def forgetThread_def Let_def revisions_step_def)
  qed (use True in \<open>auto simp: op_advances_def advances_revisions_def owner_binding_defs Let_def snd_case_prod
      ensureConversationRevisionLocked_def revisions_step_same intro: adv revisions_step_advance\<close>)
qed

lemma revisions_step_run: "revisions_step (sum_list (map op_advances ops)) r (run_ops ops r)"
proof (induction ops arbitrary: r)
  case (Cons op ops)
  from revisions_step_trans [OF revisions_step_op Cons.IH] show ?case by simp
qed (simp add: revisions_step_same)

subsection \<open>Revisions fence off late answers\<close>

lemma at_revision_rejected:
  assumes "orConversationRevisions r c \<noteq> n"
  shows "go_trim (refConversationID ref) = c \<Longrightarrow> bindConversationAtRevision ref b n r = ((b, Some ErrControlChanged), r)"
    "go_trim (refConversationID ref) = c \<Longrightarrow>
       claimWeClawConversationAtRevision ref st n r = ((zero_binding, Some ErrControlChanged), r)"
    "go_trim (refConversationID (rqRef req)) = c \<Longrightarrow> \<exists>err. activateRuntimeAtRevision req rt st n x r = ((zero_binding, Some err), r)"
    "go_trim (refConversationID (rqRef req)) = c \<Longrightarrow> \<exists>err. activateDesktopActiveWriter req e st n x r = ((zero_binding, Some err), r)"
    "go_trim (refConversationID (rqRef req)) = c \<Longrightarrow>
       \<exists>err. bindSharedHostFrontendDuringLeaseAtRevision req st n x r = ((zero_binding, Some err), r)"
    "go_trim (refConversationID (rqRef req)) = c \<Longrightarrow>
       markRuntimeConflictAtRevision req reason n x r = ((zero_binding, Some ErrControlChanged), r)"
    "go_trim (refConversationID (rqRef req)) = c \<Longrightarrow>
       \<exists>err. reconcileUncertainSharedHostLeaseAtRevision req st a n x r = ((zero_binding, False, Some err), r)"
  using assms by (auto simp: bindConversationAtRevision_def claimWeClawConversationAtRevision_def trim_ref_def
      activateRuntimeAtRevision_def activateDesktopActiveWriter_def bindSharedHostFrontendDuringLeaseAtRevision_def
      markRuntimeConflictAtRevision_def reconcileUncertainSharedHostLeaseAtRevision_def
      conversationBindingRevisionMatchesLocked_def Let_def split: option.split)

text \<open>
  C12: a route revision is a fence. Once the revision that a selection of a conversation was given has been
  replaced, no operation of the next 2^64 advances of the counter makes it current again, and
  every commit that carries it is refused and changes nothing: binding, claiming, activating a
  runtime or the desktop writer, refreshing a second frontend, registering a conflict and reconciling a lease.
\<close>

theorem superseded_revision_rejected:
  assumes begun: "beginConversationBindingIntent c r0 = (n, r1)" and c: "\<not> blank c"
    and bound: "sum_list (map op_advances (ops @ later)) < 2 ^ 64"
    and superseded: "orConversationRevisions (run_ops ops r1) (go_trim c) \<noteq> n"
    and r: "r = run_ops (ops @ later) r1"
    and ref: "go_trim (refConversationID ref) = go_trim c" and req: "go_trim (refConversationID (rqRef req)) = go_trim c"
  shows "bindConversationAtRevision ref b n r = ((b, Some ErrControlChanged), r) \<and>
    claimWeClawConversationAtRevision ref st n r = ((zero_binding, Some ErrControlChanged), r) \<and>
    (\<exists>err. activateRuntimeAtRevision req rt st n x r = ((zero_binding, Some err), r)) \<and>
    (\<exists>err. activateDesktopActiveWriter req e st n x r = ((zero_binding, Some err), r)) \<and>
    (\<exists>err. bindSharedHostFrontendDuringLeaseAtRevision req st n x r = ((zero_binding, Some err), r)) \<and>
    markRuntimeConflictAtRevision req reason n x r = ((zero_binding, Some ErrControlChanged), r) \<and>
    (\<exists>err. reconcileUncertainSharedHostLeaseAtRevision req st a n x r = ((zero_binding, False, Some err), r))"
proof -
  let ?c = "go_trim c" and ?m = "run_ops ops r1" and ?k = "sum_list (map op_advances ops)"
    and ?k' = "sum_list (map op_advances later)"
  have n: "n = orRevisionCounter r1"
    using begun c by (auto simp: beginConversationBindingIntent_def advanceConversationRevisionLocked_def Let_def)
  obtain k where k: "k \<le> ?k" "orRevisionCounter ?m = n + of_nat k"
    using revisions_step_run [of ops r1] n unfolding revisions_step_def by blast
  have "orConversationRevisions r ?c = orConversationRevisions ?m ?c \<or>
      (\<exists>j. 1 \<le> j \<and> j \<le> ?k' \<and> orConversationRevisions r ?c = orRevisionCounter ?m + of_nat j)"
    using revisions_step_run [of later ?m] order_trans unfolding r revisions_step_def fold_append o_apply by blast
  then have "orConversationRevisions r ?c \<noteq> n"
  proof
    assume "\<exists>j. 1 \<le> j \<and> j \<le> ?k' \<and> orConversationRevisions r ?c = orRevisionCounter ?m + of_nat j"
    then obtain j where j: "1 \<le> j" "j \<le> ?k'" "orConversationRevisions r ?c = n + of_nat (k + j)"
      using k(2) by (auto simp: add.assoc)
    have "k + j < 2 ^ 64" using k(1) j(2) bound by simp
    then have "(of_nat (k + j) :: uint64) \<noteq> 0" using counter_not_wrapped j(1) by fastforce
    then show ?thesis using j(3) by simp
  qed (use superseded in simp)
  then show ?thesis by (intro conjI) (erule at_revision_rejected; rule ref req)+
qed

theorem superseded_revision_rejected_witness:
  "bindConversationAtRevision demo_ref zero_binding 1 (run_ops [OpBeginIntent ''c''] (snd (beginConversationBindingIntent ''c''
      (newCodexRuntimeOwnerRegistry False)))) =
   ((zero_binding, Some ErrControlChanged), run_ops [OpBeginIntent ''c''] (snd (beginConversationBindingIntent ''c''
      (newCodexRuntimeOwnerRegistry False))))"
proof -
  let ?r0 = "newCodexRuntimeOwnerRegistry False" and ?r1 = "snd (beginConversationBindingIntent ''c'' (newCodexRuntimeOwnerRegistry False))"
  have b: "beginConversationBindingIntent ''c'' ?r0 = (1, ?r1)"
    by (simp add: beginConversationBindingIntent_def advanceConversationRevisionLocked_def Let_def newCodexRuntimeOwnerRegistry_def)
  have s: "orConversationRevisions (run_ops [OpBeginIntent ''c''] ?r1) (go_trim ''c'') \<noteq> 1"
    by (simp add: beginConversationBindingIntent_def advanceConversationRevisionLocked_def Let_def newCodexRuntimeOwnerRegistry_def)
  show ?thesis
    using superseded_revision_rejected [OF b _ _ s, of "[]" "run_ops [OpBeginIntent ''c''] ?r1" demo_ref demo_request zero_binding]
    by (simp add: op_advances_def demo_ref_def demo_request_def)
qed

subsection \<open>Archived threads\<close>

lemma archived_op:
  assumes "t \<in> orArchivedThreads r" "\<And>u. op = OpUnarchive u \<Longrightarrow> go_trim u \<noteq> t"
  shows "t \<in> orArchivedThreads (apply_op op r)"
  using assms by (cases op; simp add: owner_wrapper_defs owner_binding_defs owner_lease_defs forgetThread_def
      Let_def snd_case_prod split: option.split)

lemma archived_run:
  "t \<in> orArchivedThreads r \<Longrightarrow> (\<And>u. OpUnarchive u \<in> set ops \<Longrightarrow> go_trim u \<noteq> t) \<Longrightarrow>
   t \<in> orArchivedThreads (run_ops ops r)"
proof (induction ops arbitrary: r)
  case (Cons op ops)
  have "t \<in> orArchivedThreads (apply_op op r)"
    by (rule archived_op [OF Cons.prems(1)]) (use Cons.prems(2) in simp)
  from Cons.IH [OF this] show ?case using Cons.prems(2) by simp
qed simp

lemma archived_lease_run:
  assumes "t \<in> orArchivedThreads r" "\<And>u. OpUnarchive u \<in> set ops \<Longrightarrow> go_trim u \<noteq> t"
    "orLeases (run_ops ops r) t = Some a"
  shows "orLeases r t = Some a"
  using assms
proof (induction ops arbitrary: r)
  case (Cons op ops)
  have "t \<in> orArchivedThreads (apply_op op r)"
    by (rule archived_op [OF Cons.prems(1)]) (use Cons.prems(2) in simp)
  from Cons.IH [OF this] have l: "orLeases (apply_op op r) t = Some a" using Cons.prems(2,3) by simp
  show ?case using holder_stepD [OF holder_step_op l] Cons.prems(1) by (cases "orLeases r t") blast+
qed simp

lemma forget_conversation_at:
  "orConversations (forget_conversation t c r) d =
     (if d = c \<and> go_trim (conversationAt r c) = t \<and> orConversations r c \<noteq> None then None else orConversations r d)"
  by (auto simp: forget_conversation_def conversationAt_def Let_def split: option.split)

lemma forget_conversations_at:
  "c \<in> set cs \<Longrightarrow> orConversations (fold (forget_conversation t) cs r) c = Some u \<Longrightarrow> go_trim u \<noteq> t"
proof (induction cs arbitrary: r)
  case (Cons d cs)
  have keep: "orConversations (fold (forget_conversation t) cs r') c = Some u \<Longrightarrow> orConversations r' c = Some u" for r'
  proof (induction cs arbitrary: r')
    case (Cons d cs)
    then have "orConversations (forget_conversation t d r') c = Some u" by simp
    then show ?case by (simp add: forget_conversation_at split: if_splits)
  qed simp
  show ?case
  proof (cases "c \<in> set cs")
    case True
    then show ?thesis using Cons by simp
  next
    case False
    then have "c = d" using Cons.prems by simp
    moreover have "orConversations (forget_conversation t d r) c = Some u" using keep Cons.prems(2) by simp
    ultimately show ?thesis by (auto simp: forget_conversation_at conversationAt_def split: if_splits)
  qed
qed simp

text \<open>
  C13: an archived thread gets no new turn. After the registry has accepted to forget a thread, and until
  the thread is unarchived, no conversation that was selected leads to it, every attempt to begin a turn on it or to
  activate a runtime for it is refused and changes nothing, whatever happens in between; the one
  writer that may still be running keeps its lease, and its end removes the thread.
\<close>

theorem archived_thread_gets_no_turn:
  assumes forgot: "forgetThread order t q r0 = (None, r1)"
    and archived: "\<And>u. OpUnarchive u \<in> set ops \<Longrightarrow> go_trim u \<noteq> go_trim t"
    and r: "r = run_ops ops r1"
  shows "(\<forall>c \<in> set order. orConversations r1 c \<noteq> None \<longrightarrow> go_trim (conversationAt r1 c) \<noteq> go_trim t) \<and>
    (\<forall>req. refThreadID (rqRef req) = go_trim t \<longrightarrow> (\<exists>err. beginTurn req r = (Inl err, r))) \<and>
    (\<forall>req rt st. refThreadID (rqRef req) = go_trim t \<longrightarrow>
       (\<exists>b err. activateRuntime req rt st r = ((b, Some err), r))) \<and>
    (orLeases r (go_trim t) = None \<or> orLeases r (go_trim t) = orLeases r0 (go_trim t)) \<and>
    (\<forall>l. lhThreadID l = go_trim t \<and> holds_lease l r \<longrightarrow> orThreads (finish l r) (go_trim t) = None)"
proof -
  let ?t = "go_trim t"
  have r1: "?t \<in> orArchivedThreads r1" "orLeases r1 = orLeases r0"
    "orConversations r1 = orConversations (fold (forget_conversation ?t) order (r0\<lparr>orArchivedThreads := insert ?t (orArchivedThreads r0)\<rparr>))"
    using forgot by (auto simp: forgetThread_def Let_def split: if_splits)
  have arch: "?t \<in> orArchivedThreads r" using archived_run r1(1) archived r by blast
  have conv: "go_trim (conversationAt r1 c) \<noteq> ?t" if "c \<in> set order" "orConversations r1 c \<noteq> None" for c
    using that forget_conversations_at r1(3) by (fastforce simp: conversationAt_def)
  have refused: "\<exists>err. beginTurn req r = (Inl err, r)" if "refThreadID (rqRef req) = ?t" for req
    using arch that by (simp add: beginTurn_def Let_def split: option.split)
  have act: "\<exists>b err. activateRuntime req rt st r = ((b, Some err), r)" if "refThreadID (rqRef req) = ?t" for req rt st
    using arch that by (simp add: activateRuntime_def activateRuntimeLocked_def Let_def split: option.split)
  have lease: "orLeases r ?t = None \<or> orLeases r ?t = orLeases r0 ?t"
    using archived_lease_run [OF r1(1) archived] r1(2) r by (cases "orLeases r ?t") auto
  have fin: "orThreads (finish l r) ?t = None" if "lhThreadID l = ?t" "holds_lease l r" for l
    using arch that by (simp add: finish_def Let_def)
  show ?thesis using conv refused act lease fin by blast
qed

theorem archived_thread_gets_no_turn_witness:
  "\<exists>err. beginTurn demo_request (run_ops [OpClaimThread ''t'' zero_state] (snd (forgetThread [''c''] ''t'' True demo_registry))) =
     (Inl err, run_ops [OpClaimThread ''t'' zero_state] (snd (forgetThread [''c''] ''t'' True demo_registry)))"
proof -
  have "orLeases demo_registry ''t'' = None"
    using beginTurn_InrD(4) [OF owner_demo_begins] by (simp add: demo_request_def demo_ref_def)
  then have "forgetThread [''c''] ''t'' True demo_registry = (None, snd (forgetThread [''c''] ''t'' True demo_registry))"
    by (simp add: forgetThread_def Let_def)
  from archived_thread_gets_no_turn [OF this _ refl, of "[OpClaimThread ''t'' zero_state]"] show ?thesis
    by (simp add: demo_request_def demo_ref_def)
qed

end
