(* ===== verification/Owner_Turns.thy ===== *)
theory Owner_Turns
  imports Owner_Fences
begin

section \<open>The life of a turn\<close>

text \<open>
  When a turn may begin and what its steps do, when an uncertain lease is released, what a
  conflict does to a running turn, and what a snapshot of the desktop application can do.
\<close>

text \<open>
  C18: a turn begins exactly when the request is valid, the thread is known and not archived, the
  control intent is the registered one where control is enforced, a runtime holds the thread
  and no writer is there. From then on: the check passes, accepting the started turn makes it the
  active turn of the thread and wakes those who wait for the lease, and finishing gives the
  lease back and leaves the thread idle.
\<close>

theorem turn_lifecycle:
  "((\<exists>l r'. beginTurn req r = (Inr l, r')) \<longleftrightarrow>
      validateCodexRuntimeRequestForRegistry req (orEnforceControl r) = None \<and>
      refThreadID (rqRef req) \<notin> orArchivedThreads r \<and> orLeases r (refThreadID (rqRef req)) = None \<and>
      (\<exists>b. orThreads r (refThreadID (rqRef req)) = Some b \<and>
         (orEnforceControl r \<longrightarrow> sameCodexControlIntent (tbControl b) (rqIntent req)) \<and>
         tbRuntime b \<in> {codexRuntimeWeClaw, codexRuntimeDesktop})) \<and>
   (beginTurn req r = (Inr l, r1) \<and> \<not> blank turn \<longrightarrow>
      check l r1 = None \<and>
      (\<exists>r2. accept l turn r1 = (None, r2) \<and> acceptedTurnID l r2 = go_trim turn \<and>
         tsActive (tbState (threadAt r2 (lhThreadID l))) \<and>
         tsActiveTurnID (tbState (threadAt r2 (lhThreadID l))) = go_trim turn \<and>
         wlResolvedClosed (lease_of r2 (lhState l)) \<and> check l r2 = None \<and>
         orLeases (finish l r2) (lhThreadID l) = None \<and>
         \<not> tsActive (tbState (threadAt (finish l r2) (lhThreadID l)))))"
proof -
  have iff: "(\<exists>l r'. beginTurn req r = (Inr l, r')) \<longleftrightarrow>
      validateCodexRuntimeRequestForRegistry req (orEnforceControl r) = None \<and>
      refThreadID (rqRef req) \<notin> orArchivedThreads r \<and> orLeases r (refThreadID (rqRef req)) = None \<and>
      (\<exists>b. orThreads r (refThreadID (rqRef req)) = Some b \<and>
         (orEnforceControl r \<longrightarrow> sameCodexControlIntent (tbControl b) (rqIntent req)) \<and>
         tbRuntime b \<in> {codexRuntimeWeClaw, codexRuntimeDesktop})"
    by (auto simp: beginTurn_def Let_def codexRuntimeWeClaw_def codexRuntimeDesktop_def codexRuntimeConflict_def
        split: option.splits)
  have grant: "check l r1 = None \<and> (\<exists>r2. accept l turn r1 = (None, r2) \<and> acceptedTurnID l r2 = go_trim turn \<and>
         tsActive (tbState (threadAt r2 (lhThreadID l))) \<and>
         tsActiveTurnID (tbState (threadAt r2 (lhThreadID l))) = go_trim turn \<and>
         wlResolvedClosed (lease_of r2 (lhState l)) \<and> check l r2 = None \<and>
         orLeases (finish l r2) (lhThreadID l) = None \<and>
         \<not> tsActive (tbState (threadAt (finish l r2) (lhThreadID l))))"
    if b: "beginTurn req r = (Inr l, r1)" and t: "\<not> blank turn"
  proof -
    note B = beginTurn_InrD [OF b]
    obtain bd where bd: "orThreads r (lhThreadID l) = Some bd" "tbRuntime bd \<noteq> codexRuntimeConflict"
      "orEnforceControl r \<longrightarrow> sameCodexControlIntent (tbControl bd) (rqIntent req)"
      "orLeaseStore r1 (lhState l) = new_lease req bd"
      using B(2,5) by (auto simp: codexRuntimeWeClaw_def codexRuntimeDesktop_def codexRuntimeConflict_def)
    have owner: "orEnforceControl r \<Longrightarrow> ciOwner (rqIntent req) = codexControlRemote"
      using B(1) by (auto simp: validateCodexRuntimeRequestForRegistry_def validateRemoteCodexRequest_def
          split: option.splits if_splits)
    have now: "orThreads r1 (lhThreadID l) = Some bd" "holds_lease l r1" using B(5,6,8) bd(1) by (simp_all add: holds_lease_def)
    have ok: "bindingErrorLocked l r1 = None"
      using now(1) bd owner B(9)
      by (simp add: bindingErrorLocked_def Let_def lease_of_def new_lease_def sameCodexControlIntent_def)
    have c: "check l r1 = None"
      using now bd ok by (simp add: check_def lease_of_def new_lease_def)
    define r2 where "r2 = snd (accept l turn r1)"
    have acc: "accept l turn r1 = (None, r2)"
      using t now(2) ok unfolding r2_def by (simp add: accept_def Let_def)
    have r2: "orThreads r2 (lhThreadID l) = Some (bd\<lparr>tbState := (tbState bd)\<lparr>tsActive := True, tsActiveTurnID := go_trim turn\<rparr>\<rparr>)"
      "orLeases r2 = orLeases r1" "orEnforceControl r2 = orEnforceControl r1" "orArchivedThreads r2 = orArchivedThreads r1"
      "orLeaseStore r2 (lhState l) = (new_lease req bd)\<lparr>wlTurnID := go_trim turn, wlResolvedClosed := True\<rparr>"
      using t now ok bd(4) unfolding r2_def by (simp_all add: accept_def Let_def)
    have held: "holds_lease l r2" using now(2) r2(2) by (simp add: holds_lease_def)
    have c2: "check l r2 = None"
      using held r2 bd owner B(9) by (simp add: check_def bindingErrorLocked_def Let_def lease_of_def new_lease_def
          sameCodexControlIntent_def)
    have fin: "orLeases (finish l r2) (lhThreadID l) = None" using held by (simp add: finish_leases)
    have idle: "\<not> tsActive (tbState (threadAt (finish l r2) (lhThreadID l)))"
      using held r2 bd(2) by (simp add: finish_def Let_def lease_of_def threadAt_def zero_binding_def zero_state_def)
    show ?thesis using c acc r2 held c2 fin idle by (simp add: acceptedTurnID_def lease_of_def)
  qed
  show ?thesis using iff grant by blast
qed

theorem turn_lifecycle_witness:
  "check demo_lease demo_running = None \<and>
   acceptedTurnID demo_lease (snd (accept demo_lease ''m'' demo_running)) = ''m''"
  using turn_lifecycle [of demo_request demo_registry demo_lease demo_running "''m''"] owner_demo_begins by auto

text \<open>
  C19: a turn whose observation was lost keeps its thread. A lease marked uncertain leaves the table only
  when its own writer finishes, or when the authoritative host reports an idle thread whose last turn
  is the accepted turn or is newer than the history before the turn; no other operation, whatever
  its arguments, gives the thread to a second writer.
\<close>

theorem uncertain_lease_needs_evidence:
  assumes held: "orLeases r t = Some a" and uncertain: "wlUncertain (lease_of r a)"
    and lost: "orLeases (apply_op op r) t \<noteq> Some a"
  shows "op = OpFinish \<lparr>lhThreadID = t, lhState = a\<rparr> \<or>
    (\<exists>req st e n x. (op = OpReconcileLease req st \<or> op = OpReconcileLeaseAt req st e n x) \<and>
       refThreadID (rqRef req) = t \<and> \<not> tsActive st \<and> wlTurnID (lease_of r a) \<noteq> [] \<and>
       (go_trim (tsLastTurnID st) = wlTurnID (lease_of r a) \<or>
        \<not> blank (tsLastTurnID st) \<and> go_trim (tsLastTurnID st) \<noteq> wlBaselineLastTurnID (lease_of r a)))"
proof -
  have "orLeases (apply_op op r) \<noteq> orLeases r" using held lost by auto
  then show ?thesis
  proof (cases rule: lease_op_cases)
    case (begun req l)
    obtain r' where "beginTurn req r = (Inr l, r')" using begun(2) by (metis prod.collapse)
    then have "orLeases r (lhThreadID l) = None" using beginTurn_InrD(4,5) by fastforce
    then show ?thesis using begun(3) held lost by (auto split: if_splits)
  next
    case (finished l)
    then have "lhThreadID l = t" using held lost by (auto split: if_splits)
    then show ?thesis using finished held by (cases l) (simp add: holds_lease_def)
  next
    case (reconciled req st e n x)
    then have "refThreadID (rqRef req) = t" using held lost by (auto split: if_splits)
    then show ?thesis using reconciled(1,2) held
      by (auto simp: lease_released_def release_evidence_def Let_def split: option.splits)
  qed
qed

theorem uncertain_lease_needs_evidence_witness:
  "orLeases (apply_op (OpActivate demo_request codexRuntimeDesktop zero_state) (markUncertain demo_lease demo_running)) ''t'' = Some 0"
proof (rule ccontr)
  assume lost: "\<not> ?thesis"
  have "orLeases (markUncertain demo_lease demo_running) ''t'' = Some 0"
    "wlUncertain (lease_of (markUncertain demo_lease demo_running) 0)"
    using owner_demo_held by (simp_all add: markUncertain_def holds_lease_def demo_lease_def Let_def lease_of_def)
  from uncertain_lease_needs_evidence [OF this lost] show False by simp
qed

text \<open>
  A conflict ends the running turn. When a conflict is registered for a thread whose lease is held,
  the writer's signal is raised, and from then on no check of that lease ever passes, whatever
  operations follow, also when some runtime holds the thread again.
\<close>

theorem conflict_ends_turn:
  assumes r0: "reach owner_init owner_step r" and held: "holds_lease l r"
    and c: "markRuntimeConflict req reason r = ((b, None), r')"
    and t: "go_trim (refThreadID (rqRef req)) = lhThreadID l"
  shows "wlConflictClosed (lease_of r' (lhState l)) \<and> tbRuntime (threadAt r' (lhThreadID l)) = codexRuntimeConflict \<and>
    check l (run_ops ops r') \<in> {Some ErrControlChanged, Some ErrRuntimeConflict}"
proof -
  have upd: "orLeaseStore r' (lhState l) = (orLeaseStore r (lhState l))\<lparr>wlConflict := True, wlConflictClosed := True\<rparr>"
    "tbRuntime (threadAt r' (lhThreadID l)) = codexRuntimeConflict"
    using c held t by (auto simp: markRuntimeConflict_def markRuntimeConflictLocked_def markConflictLocked_def Let_def
        holds_lease_def threadAt_def split: if_splits)
  have "lhState l < orNextLease r" using owner.reach_inv [OF r0] held by (auto simp: owner_inv_def holds_lease_def)
  then have "lhState l < orNextLease r'"
    using store_stepD(1) [OF store_step_op [of r "OpMarkConflict req reason"]] c by simp
  from terms_run [OF this, of ops] upd(1) have "wlConflict (orLeaseStore (run_ops ops r') (lhState l))"
    by (simp add: same_terms_def)
  then show ?thesis using upd by (simp add: lease_of_def check_def)
qed

text \<open>
  A snapshot of the desktop application never puts a thread into conflict: the threads in conflict after it
  were in conflict before, and no lease is told of a conflict, also when the snapshot shows a
  turn that is not the one of the writer.
\<close>

theorem desktop_snapshot_never_conflicts:
  "{u. tbRuntime (threadAt (snd (observeDesktopSnapshot t st r)) u) = codexRuntimeConflict} \<subseteq>
     {u. tbRuntime (threadAt r u) = codexRuntimeConflict} \<and>
   wlConflict (lease_of (snd (observeDesktopSnapshot t st r)) a) = wlConflict (lease_of r a)"
proof -
  have thr: "tbRuntime (threadAt (snd (observeDesktopLeaseLocked u st' (threadAt r u) k r)) v) = tbRuntime (threadAt r v)"
    for u st' k v
    by (cases "tsActive st'"; cases "wlTurnID (lease_of r k) = []")
       (simp_all add: observeDesktopLeaseLocked_def logCoexistingDesktopTurnLocked_def Let_def threadAt_def)
  have flag: "wlConflict (lease_of (snd (observeDesktopLeaseLocked u st' b k r)) a) = wlConflict (lease_of r a)" for u st' b k
    by (cases "tsActive st'"; cases "wlTurnID (lease_of r k) = []")
       (simp_all add: observeDesktopLeaseLocked_def logCoexistingDesktopTurnLocked_def Let_def lease_of_def)
  have none: "codexRuntimeDesktop \<noteq> codexRuntimeConflict" by (simp add: codexRuntimeDesktop_def codexRuntimeConflict_def)
  show ?thesis
    using none by (auto simp: observeDesktopSnapshot_def observeDesktopSnapshotLocked_def Let_def thr flag
        split: option.splits if_splits) (auto simp: threadAt_def lease_of_def split: if_splits)
qed

end
