(* ===== verification/Gate.thy ===== *)
theory Gate
  imports Prelude
begin

section \<open>The admission gate of the shared app-server\<close>

text \<open>
  \<open>agent/codex_app_server_gate.go\<close>: turns hold a permit while they run; account switches, mode
  changes and restarts close the gate. Every method locks the gate's mutex for one or, in its
  waiting loops, several short sections; a section is one function here, and a loop is the
  section it repeats, which says to return or to wait on the channel it read. The channel that
  \<open>notifyLocked\<close> closes and replaces is a number: a waiter that read number \<open>c\<close> wakes exactly when the
  current number is no longer \<open>c\<close>. The transition system interleaves the sections of any number
  of turns and maintenance operations; \<open>fail\<close> is only called while the gate is created, so it
  belongs to the initial states.
\<close>

subsection \<open>The gate and its sections\<close>

datatype codexAppServerGateState = Running | Draining | Restarting | Failed

record codexAppServerGate =
  gState :: codexAppServerGateState
  gGenerationID :: uint64
  gActiveTurns :: int
  gChanged :: nat
  gFailure :: "string option"

datatype gate_error = ErrGateBusy | ErrGateUnavailable "string option"

datatype 'a gate_section = Answer 'a | WaitOn nat

definition newCodexAppServerGate :: codexAppServerGate where
  "newCodexAppServerGate = \<lparr>gState = Running, gGenerationID = 1, gActiveTurns = 0, gChanged = 0, gFailure = None\<rparr>"

definition notifyLocked :: "codexAppServerGate \<Rightarrow> codexAppServerGate" where
  "notifyLocked g = g\<lparr>gChanged := Suc (gChanged g)\<rparr>"

definition unavailableErrorLocked :: "codexAppServerGate \<Rightarrow> gate_error" where
  "unavailableErrorLocked g = ErrGateUnavailable (gFailure g)"

definition gate_acquire :: "codexAppServerGate \<Rightarrow> (gate_error + uint64) gate_section \<times> codexAppServerGate" where
  "gate_acquire g =
     (if gState g = Running then (Answer (Inr (gGenerationID g)), g\<lparr>gActiveTurns := gActiveTurns g + 1\<rparr>)
      else if gState g = Failed then (Answer (Inl (unavailableErrorLocked g)), g)
      else (WaitOn (gChanged g), g))"

definition permit_release :: "codexAppServerGate \<Rightarrow> codexAppServerGate" where
  "permit_release g = notifyLocked (g\<lparr>gActiveTurns := gActiveTurns g - 1\<rparr>)"

definition beginExclusive :: "codexAppServerGate \<Rightarrow> gate_error option \<times> codexAppServerGate" where
  "beginExclusive g =
     (if gState g = Failed then (Some (unavailableErrorLocked g), g)
      else if gState g \<noteq> Running \<or> gActiveTurns g \<noteq> 0 then (Some ErrGateBusy, g)
      else (None, notifyLocked (g\<lparr>gState := Draining\<rparr>)))"

definition beginForcedExclusive :: "codexAppServerGate \<Rightarrow> gate_error option \<times> codexAppServerGate" where
  "beginForcedExclusive g =
     (if gState g = Failed then (None, notifyLocked (g\<lparr>gState := Draining\<rparr>))
      else if gState g \<noteq> Running then (Some ErrGateBusy, g)
      else (None, notifyLocked (g\<lparr>gState := Draining\<rparr>)))"

definition finishExclusive :: "bool \<Rightarrow> bool \<Rightarrow> codexAppServerGate \<Rightarrow> codexAppServerGate" where
  "finishExclusive committed available g =
     (if \<not> available \<or> gFailure g \<noteq> None then notifyLocked (g\<lparr>gState := Failed\<rparr>)
      else notifyLocked (g\<lparr>gGenerationID := (if committed then gGenerationID g + 1 else gGenerationID g),
             gFailure := None, gState := Running\<rparr>))"

definition fail :: "string \<Rightarrow> codexAppServerGate \<Rightarrow> codexAppServerGate" where
  "fail cause g = notifyLocked (g\<lparr>gFailure := Some cause, gState := Failed\<rparr>)"

definition beginDrain :: "codexAppServerGate \<Rightarrow> gate_error option gate_section \<times> codexAppServerGate" where
  "beginDrain g =
     (if gState g = Running then (Answer None, notifyLocked (g\<lparr>gState := Draining\<rparr>))
      else if gState g = Failed then (Answer (Some (unavailableErrorLocked g)), g)
      else (WaitOn (gChanged g), g))"

definition waitUntilIdle :: "codexAppServerGate \<Rightarrow> unit gate_section" where
  "waitUntilIdle g = (if gActiveTurns g = 0 then Answer () else WaitOn (gChanged g))"

definition markRestarting :: "codexAppServerGate \<Rightarrow> codexAppServerGate" where
  "markRestarting g = notifyLocked (g\<lparr>gState := Restarting\<rparr>)"

definition abortDrain :: "codexAppServerGate \<Rightarrow> codexAppServerGate" where
  "abortDrain g = notifyLocked (g\<lparr>gFailure := None, gState := Running\<rparr>)"

definition finishRestart :: "bool \<Rightarrow> codexAppServerGate \<Rightarrow> codexAppServerGate" where
  "finishRestart restarted g =
     notifyLocked (if restarted then g\<lparr>gGenerationID := gGenerationID g + 1, gFailure := None, gState := Running\<rparr>
                   else g\<lparr>gState := Failed\<rparr>)"

subsection \<open>Turns and maintenance operations side by side\<close>

text \<open>
  A maintenance operation is an exclusive section (account switch, change of the host) or a run of
  \<open>drain\<close>, which first waits until the gate is idle and then restarts the host.
\<close>

datatype maintenance = NoWork | InExclusive | InForced | DrainWaiting | DrainIdle | InRestart

record gate_sys =
  gsGate :: codexAppServerGate
  gsPermits :: "nat set"
  gsWork :: "nat \<Rightarrow> maintenance"

inductive gate_step :: "gate_sys \<Rightarrow> gate_sys \<Rightarrow> bool" where
  turn_admitted: "gate_acquire (gsGate s) = (Answer (Inr gen), g') \<Longrightarrow> p \<notin> gsPermits s \<Longrightarrow>
    gate_step s (s\<lparr>gsGate := g', gsPermits := insert p (gsPermits s)\<rparr>)"
| turn_released: "p \<in> gsPermits s \<Longrightarrow>
    gate_step s (s\<lparr>gsGate := permit_release (gsGate s), gsPermits := gsPermits s - {p}\<rparr>)"
| exclusive_begun: "gsWork s m = NoWork \<Longrightarrow> beginExclusive (gsGate s) = (None, g') \<Longrightarrow>
    gate_step s (s\<lparr>gsGate := g', gsWork := (gsWork s)(m := InExclusive)\<rparr>)"
| forced_begun: "gsWork s m = NoWork \<Longrightarrow> beginForcedExclusive (gsGate s) = (None, g') \<Longrightarrow>
    gate_step s (s\<lparr>gsGate := g', gsWork := (gsWork s)(m := InForced)\<rparr>)"
| exclusive_finished: "gsWork s m \<in> {InExclusive, InForced} \<Longrightarrow>
    gate_step s (s\<lparr>gsGate := finishExclusive committed available (gsGate s), gsWork := (gsWork s)(m := NoWork)\<rparr>)"
| drain_begun: "gsWork s m = NoWork \<Longrightarrow> beginDrain (gsGate s) = (Answer None, g') \<Longrightarrow>
    gate_step s (s\<lparr>gsGate := g', gsWork := (gsWork s)(m := DrainWaiting)\<rparr>)"
| drain_idle: "gsWork s m = DrainWaiting \<Longrightarrow> waitUntilIdle (gsGate s) = Answer () \<Longrightarrow>
    gate_step s (s\<lparr>gsWork := (gsWork s)(m := DrainIdle)\<rparr>)"
| drain_aborted: "gsWork s m = DrainWaiting \<Longrightarrow>
    gate_step s (s\<lparr>gsGate := abortDrain (gsGate s), gsWork := (gsWork s)(m := NoWork)\<rparr>)"
| restart_begun: "gsWork s m = DrainIdle \<Longrightarrow>
    gate_step s (s\<lparr>gsGate := markRestarting (gsGate s), gsWork := (gsWork s)(m := InRestart)\<rparr>)"
| restart_finished: "gsWork s m = InRestart \<Longrightarrow>
    gate_step s (s\<lparr>gsGate := finishRestart ok (gsGate s), gsWork := (gsWork s)(m := NoWork)\<rparr>)"

inductive_cases gate_stepE: "gate_step s s'"

definition gate_init :: "gate_sys \<Rightarrow> bool" where
  "gate_init s \<longleftrightarrow> gsPermits s = {} \<and> gsWork s = (\<lambda>_. NoWork) \<and>
     (gsGate s = newCodexAppServerGate \<or> (\<exists>cause. gsGate s = fail cause newCodexAppServerGate))"

definition work_state :: "maintenance \<Rightarrow> codexAppServerGateState \<Rightarrow> bool" where
  "work_state w st \<longleftrightarrow> (case w of NoWork \<Rightarrow> True | InRestart \<Rightarrow> st = Restarting | _ \<Rightarrow> st = Draining)"

definition gate_inv :: "gate_sys \<Rightarrow> bool" where
  "gate_inv s \<longleftrightarrow>
     finite (gsPermits s) \<and> gActiveTurns (gsGate s) = int (card (gsPermits s)) \<and>
     (\<forall>m. work_state (gsWork s m) (gState (gsGate s))) \<and>
     (\<forall>m k. gsWork s m \<noteq> NoWork \<and> gsWork s k \<noteq> NoWork \<longrightarrow> m = k) \<and>
     (gState (gsGate s) \<in> {Draining, Restarting} \<longrightarrow> (\<exists>m. gsWork s m \<noteq> NoWork)) \<and>
     (\<forall>m. gsWork s m \<in> {InExclusive, DrainIdle, InRestart} \<longrightarrow> gsPermits s = {})"

lemma gate_inv_init: "gate_init s \<Longrightarrow> gate_inv s"
  by (auto simp: gate_init_def gate_inv_def newCodexAppServerGate_def fail_def notifyLocked_def work_state_def)

lemmas gate_defs = gate_acquire_def permit_release_def beginExclusive_def beginForcedExclusive_def finishExclusive_def
  beginDrain_def waitUntilIdle_def markRestarting_def abortDrain_def finishRestart_def notifyLocked_def

lemma work_stateD:
  "work_state w st \<Longrightarrow> st \<notin> {Draining, Restarting} \<Longrightarrow> w = NoWork"
  by (cases w) (auto simp: work_state_def)

lemma no_work:
  "gate_inv s \<Longrightarrow> gState (gsGate s) \<notin> {Draining, Restarting} \<Longrightarrow> gsWork s m = NoWork"
  unfolding gate_inv_def using work_stateD by blast

lemma only_worker: "gate_inv s \<Longrightarrow> gsWork s m \<noteq> NoWork \<Longrightarrow> k \<noteq> m \<Longrightarrow> gsWork s k = NoWork"
  unfolding gate_inv_def by blast

lemma gate_inv_step: "gate_inv s \<Longrightarrow> gate_step s s' \<Longrightarrow> gate_inv s'"
proof (elim gate_stepE, goal_cases)
  case (1 gen g' p)
  then have st: "gState (gsGate s) = Running" "g' = (gsGate s)\<lparr>gActiveTurns := gActiveTurns (gsGate s) + 1\<rparr>"
    by (auto simp: gate_acquire_def split: if_splits)
  then have "gsWork s m = NoWork" for m using no_work [OF 1(1)] by simp
  then show ?case using 1 st by (simp add: gate_inv_def)
next
  case (2 p)
  then have "card (gsPermits s) > 0" "gsPermits s \<noteq> {}" by (auto simp: gate_inv_def card_gt_0_iff)
  then show ?case using 2 by (auto simp: gate_inv_def permit_release_def notifyLocked_def card_Diff_singleton of_nat_diff)
next
  case (3 m g')
  then have st: "gState (gsGate s) = Running" "gActiveTurns (gsGate s) = 0" "g' = notifyLocked ((gsGate s)\<lparr>gState := Draining\<rparr>)"
    by (auto simp: beginExclusive_def split: if_splits)
  then have "gsWork s k = NoWork" for k using no_work [OF 3(1)] by simp
  then show ?case using 3(1,2) st by (auto simp: gate_inv_def notifyLocked_def work_state_def)
next
  case (4 m g')
  then have st: "gState (gsGate s) \<in> {Running, Failed}" "g' = notifyLocked ((gsGate s)\<lparr>gState := Draining\<rparr>)"
    by (auto simp: beginForcedExclusive_def split: if_splits)
  then have "gsWork s k = NoWork" for k using no_work [OF 4(1)] by auto
  then show ?case using 4(1,2) st by (simp add: gate_inv_def notifyLocked_def work_state_def)
next
  case (5 m committed available)
  then have "gsWork s k = NoWork" if "k \<noteq> m" for k using only_worker [OF 5(1), of m] that by fastforce
  then show ?case using 5 by (auto simp: gate_inv_def finishExclusive_def notifyLocked_def work_state_def)
next
  case (6 m g')
  then have st: "gState (gsGate s) = Running" "g' = notifyLocked ((gsGate s)\<lparr>gState := Draining\<rparr>)"
    by (auto simp: beginDrain_def split: if_splits)
  then have "gsWork s k = NoWork" for k using no_work [OF 6(1)] by auto
  then show ?case using 6(1,2) st by (simp add: gate_inv_def notifyLocked_def work_state_def)
next
  case (7 m)
  then have "gActiveTurns (gsGate s) = 0" by (simp add: waitUntilIdle_def split: if_splits)
  then have "gsPermits s = {}" using 7(1) by (auto simp: gate_inv_def)
  moreover have "work_state (gsWork s m) (gState (gsGate s))" using 7(1) unfolding gate_inv_def by blast
  then have "gState (gsGate s) = Draining" using 7(3) by (simp add: work_state_def)
  moreover have "gsWork s k = NoWork" if "k \<noteq> m" for k using only_worker [OF 7(1), of m] 7(3) that by fastforce
  ultimately show ?case using 7 by (auto simp: gate_inv_def work_state_def)
next
  case (8 m)
  then have "gsWork s k = NoWork" if "k \<noteq> m" for k using only_worker [OF 8(1), of m] that by fastforce
  then show ?case using 8 by (auto simp: gate_inv_def abortDrain_def notifyLocked_def work_state_def)
next
  case (9 m)
  then have "gsWork s k = NoWork" if "k \<noteq> m" for k using only_worker [OF 9(1), of m] that by fastforce
  then show ?case using 9 by (auto simp: gate_inv_def markRestarting_def notifyLocked_def work_state_def)
next
  case (10 m ok)
  then have "gsWork s k = NoWork" if "k \<noteq> m" for k using only_worker [OF 10(1), of m] that by fastforce
  then show ?case using 10 by (auto simp: gate_inv_def finishRestart_def notifyLocked_def work_state_def)
qed

interpretation gate: invariant_system gate_init gate_step gate_inv
  by unfold_locales (auto intro: gate_inv_init gate_inv_step)

subsection \<open>What the gate guarantees\<close>

text \<open>
  C30: maintenance excludes turns and other maintenance. In every interleaving, while an exclusive section
  or a restart is under way no turn holds a permit, none is admitted, and no second
  maintenance operation begins; while a forced section is under way no new turn is admitted and no
  second operation begins; and the counter is the number of the permits that are out.
\<close>

theorem maintenance_excludes_turns:
  assumes "reach gate_init gate_step s" and work: "gsWork s m \<noteq> NoWork"
  shows "(gsWork s m \<in> {InExclusive, DrainIdle, InRestart} \<longrightarrow> gsPermits s = {}) \<and>
    gActiveTurns (gsGate s) = int (card (gsPermits s)) \<and>
    (\<exists>c. gate_acquire (gsGate s) = (WaitOn c, gsGate s)) \<and> (\<exists>c. beginDrain (gsGate s) = (WaitOn c, gsGate s)) \<and>
    beginExclusive (gsGate s) = (Some ErrGateBusy, gsGate s) \<and>
    beginForcedExclusive (gsGate s) = (Some ErrGateBusy, gsGate s) \<and> (\<forall>k. k \<noteq> m \<longrightarrow> gsWork s k = NoWork)"
proof -
  have inv: "gate_inv s" by (rule gate.reach_inv [OF assms(1)])
  have st: "gState (gsGate s) \<in> {Draining, Restarting}" using no_work [OF inv] work by blast
  have closed: "(\<exists>c. gate_acquire (gsGate s) = (WaitOn c, gsGate s))" "(\<exists>c. beginDrain (gsGate s) = (WaitOn c, gsGate s))"
    "beginExclusive (gsGate s) = (Some ErrGateBusy, gsGate s)" "beginForcedExclusive (gsGate s) = (Some ErrGateBusy, gsGate s)"
    using st by (auto simp: gate_acquire_def beginDrain_def beginExclusive_def beginForcedExclusive_def)
  have "gsWork s m \<in> {InExclusive, DrainIdle, InRestart} \<longrightarrow> gsPermits s = {}"
    "gActiveTurns (gsGate s) = int (card (gsPermits s))"
    using inv unfolding gate_inv_def by blast+
  then show ?thesis using closed only_worker [OF inv work] by simp
qed

definition gate_restarting :: gate_sys where
  "gate_restarting = \<lparr>gsGate = markRestarting (snd (beginDrain newCodexAppServerGate)), gsPermits = {},
     gsWork = (\<lambda>_. NoWork)(0 := InRestart)\<rparr>"

lemma gate_restarting_reach: "reach gate_init gate_step gate_restarting"
proof -
  let ?s0 = "\<lparr>gsGate = newCodexAppServerGate, gsPermits = {}, gsWork = (\<lambda>_. NoWork)\<rparr>"
  let ?g1 = "snd (beginDrain newCodexAppServerGate)"
  have "reach gate_init gate_step ?s0" by (rule reach_init) (simp add: gate_init_def)
  moreover have "gate_step ?s0 (?s0\<lparr>gsGate := ?g1, gsWork := (\<lambda>_. NoWork)(0 := DrainWaiting)\<rparr>)"
    using drain_begun [of ?s0 0 ?g1] by (simp add: beginDrain_def newCodexAppServerGate_def)
  ultimately have "reach gate_init gate_step (?s0\<lparr>gsGate := ?g1, gsWork := (\<lambda>_. NoWork)(0 := DrainWaiting)\<rparr>)"
    by (rule reach_step)
  moreover have "gate_step (?s0\<lparr>gsGate := ?g1, gsWork := (\<lambda>_. NoWork)(0 := DrainWaiting)\<rparr>)
      (?s0\<lparr>gsGate := ?g1, gsWork := (\<lambda>_. NoWork)(0 := DrainIdle)\<rparr>)"
    using drain_idle [of "?s0\<lparr>gsGate := ?g1, gsWork := (\<lambda>_. NoWork)(0 := DrainWaiting)\<rparr>" 0]
    by (simp add: beginDrain_def newCodexAppServerGate_def waitUntilIdle_def notifyLocked_def)
  ultimately have "reach gate_init gate_step (?s0\<lparr>gsGate := ?g1, gsWork := (\<lambda>_. NoWork)(0 := DrainIdle)\<rparr>)"
    by (rule reach_step)
  moreover have "gate_step (?s0\<lparr>gsGate := ?g1, gsWork := (\<lambda>_. NoWork)(0 := DrainIdle)\<rparr>) gate_restarting"
    using restart_begun [of "?s0\<lparr>gsGate := ?g1, gsWork := (\<lambda>_. NoWork)(0 := DrainIdle)\<rparr>" 0]
    by (simp add: gate_restarting_def)
  ultimately show ?thesis by (rule reach_step)
qed

theorem maintenance_excludes_turns_witness:
  "gsPermits gate_restarting = {} \<and> (\<exists>c. gate_acquire (gsGate gate_restarting) = (WaitOn c, gsGate gate_restarting))"
proof -
  have "gsWork gate_restarting 0 \<noteq> NoWork" by (simp add: gate_restarting_def)
  from maintenance_excludes_turns [OF gate_restarting_reach this] show ?thesis by (simp add: gate_restarting_def)
qed

text \<open>
  No wake-up is lost. Whoever was told to wait, a turn, a drain that wants to begin or a drain that
  wants an idle gate, was given a channel that is closed by the step that ends the reason to
  wait; and the gate is never left closed without somebody who will open it or mark it failed.
\<close>

theorem gate_wakes_waiters:
  assumes step: "gate_step s s'" and r: "reach gate_init gate_step s"
  shows "(gate_acquire (gsGate s) = (WaitOn c, gsGate s) \<and> gate_acquire (gsGate s') \<noteq> (WaitOn c, gsGate s') \<longrightarrow>
      gChanged (gsGate s') \<noteq> c) \<and>
    (beginDrain (gsGate s) = (WaitOn c, gsGate s) \<and> beginDrain (gsGate s') \<noteq> (WaitOn c, gsGate s') \<longrightarrow>
      gChanged (gsGate s') \<noteq> c) \<and>
    (waitUntilIdle (gsGate s) = WaitOn c \<and> waitUntilIdle (gsGate s') \<noteq> WaitOn c \<longrightarrow> gChanged (gsGate s') \<noteq> c) \<and>
    (gate_acquire (gsGate s) = (WaitOn c, gsGate s) \<longrightarrow> (\<exists>m. gsWork s m \<noteq> NoWork))"
proof -
  have "\<exists>m. gsWork s m \<noteq> NoWork" if "gate_acquire (gsGate s) = (WaitOn c, gsGate s)"
    using gate.reach_inv [OF r] that by (cases "gState (gsGate s)") (auto simp: gate_inv_def gate_acquire_def)
  moreover have "gActiveTurns (gsGate s) \<ge> 0" using gate.reach_inv [OF r] by (simp add: gate_inv_def)
  ultimately show ?thesis
    using step by (elim gate_stepE) (auto simp: gate_defs split: if_splits)
qed

theorem gate_wakes_waiters_witness:
  "\<exists>m. gsWork gate_restarting m \<noteq> NoWork"
proof -
  let ?s' = "gate_restarting\<lparr>gsGate := finishRestart True (gsGate gate_restarting), gsWork := (gsWork gate_restarting)(0 := NoWork)\<rparr>"
  have "gate_step gate_restarting ?s'" by (rule restart_finished) (simp add: gate_restarting_def)
  moreover obtain c where "gate_acquire (gsGate gate_restarting) = (WaitOn c, gsGate gate_restarting)"
    by (simp add: gate_restarting_def gate_acquire_def markRestarting_def notifyLocked_def)
  ultimately show ?thesis using gate_wakes_waiters [OF _ gate_restarting_reach] by blast
qed

text \<open>
  A gate that was closed because a rollback or a restart failed is opened again by a forced
  termination that gives up without commit: only a failure recorded by \<open>fail\<close> survives
  \<open>beginForcedExclusive\<close> followed by \<open>finishExclusive\<close>. Here \<open>g\<close> is any gate without a recorded failure.
\<close>

theorem aborted_force_reopens_failed_gate:
  "let g0 = g\<lparr>gFailure := None\<rparr> in
    gState (finishExclusive committed False g0) = Failed \<and> gState (finishRestart False g0) = Failed \<and>
    gState (finishExclusive False True (snd (beginForcedExclusive (finishExclusive committed False g0)))) = Running \<and>
    gState (finishExclusive False True (snd (beginForcedExclusive (finishRestart False g0)))) = Running \<and>
    gState (finishExclusive False True (snd (beginForcedExclusive (fail cause g0)))) = Failed"
  by (simp add: Let_def finishExclusive_def finishRestart_def beginForcedExclusive_def fail_def notifyLocked_def)

end
