(* ===== verification/Broker.thy ===== *)
theory Broker
  imports Prelude
begin

section \<open>The interaction broker\<close>

text \<open>
  \<open>agent/codex_interaction_broker.go\<close> and the pending interactions of
  \<open>agent/turn_channel_registry.go\<close>: an approval or a question of the provider can be shown in several
  frontends at once, and the broker sees to it that it is answered once. Channels that are
  only ever closed are counters of how often they were closed, since closing one twice is a run
  time panic; the channel of an attempt is a number.
\<close>

subsection \<open>One broker\<close>

datatype codexInteractionBrokerState = BrokerPending | BrokerSubmitting | BrokerResolved | BrokerTerminal

record codexInteractionBroker =
  bkThreadID :: string
  bkTurnID :: string
  bkRequestKey :: string
  bkState :: codexInteractionBrokerState
  bkAttemptDone :: "nat option"
  bkResolvedCloses :: nat

datatype interaction_error =
    ErrResolvedExternally | ErrTurnTerminal | ErrContext | ErrRespond string

definition newCodexInteractionBroker :: "string \<Rightarrow> string \<Rightarrow> string \<Rightarrow> codexInteractionBroker" where
  "newCodexInteractionBroker thread turn key =
     \<lparr>bkThreadID = go_trim thread, bkTurnID = go_trim turn, bkRequestKey = key, bkState = BrokerPending,
      bkAttemptDone = None, bkResolvedCloses = 0\<rparr>"

definition resolutionError :: "codexInteractionBroker \<Rightarrow> interaction_error option" where
  "resolutionError b =
     (case bkState b of
        BrokerResolved \<Rightarrow> Some ErrResolvedExternally
      | BrokerTerminal \<Rightarrow> Some ErrTurnTerminal
      | _ \<Rightarrow> None)"

text \<open>
  \<open>submit\<close> has two critical sections: the one at the head of the loop and the one after the call
  of \<open>respond\<close>. The first returns, waits for the channel of the attempt under way, or starts an
  attempt of its own on a new channel, here \<open>ch\<close>.
\<close>

datatype submit_round = SubmitReturn interaction_error | SubmitWait "nat option" | SubmitRespond nat

definition submit_enter :: "nat \<Rightarrow> codexInteractionBroker \<Rightarrow> submit_round \<times> codexInteractionBroker" where
  "submit_enter ch b =
     (case bkState b of
        BrokerResolved \<Rightarrow> (SubmitReturn ErrResolvedExternally, b)
      | BrokerTerminal \<Rightarrow> (SubmitReturn ErrTurnTerminal, b)
      | BrokerSubmitting \<Rightarrow> (SubmitWait (bkAttemptDone b), b)
      | BrokerPending \<Rightarrow> (SubmitRespond ch, b\<lparr>bkState := BrokerSubmitting, bkAttemptDone := Some ch\<rparr>))"

text \<open>The second section: the result of \<open>submit\<close>, the broker, and whether the channel of the attempt is closed.\<close>

definition submit_leave ::
  "nat \<Rightarrow> interaction_error option \<Rightarrow> codexInteractionBroker \<Rightarrow> interaction_error option \<times> codexInteractionBroker \<times> bool" where
  "submit_leave ch err b =
     (let (result, b1) =
            (case bkState b of
               BrokerSubmitting \<Rightarrow>
                 (err, if err = None then b\<lparr>bkState := BrokerResolved, bkResolvedCloses := Suc (bkResolvedCloses b)\<rparr>
                       else b\<lparr>bkState := BrokerPending\<rparr>)
             | BrokerResolved \<Rightarrow> (Some ErrResolvedExternally, b)
             | BrokerTerminal \<Rightarrow> (Some ErrTurnTerminal, b)
             | BrokerPending \<Rightarrow> (err, b))
      in if bkAttemptDone b1 = Some ch then (result, b1\<lparr>bkAttemptDone := None\<rparr>, True) else (result, b1, False))"

definition resolve :: "bool \<Rightarrow> codexInteractionBroker \<Rightarrow> codexInteractionBroker" where
  "resolve terminal b =
     (if bkState b \<in> {BrokerResolved, BrokerTerminal} then b
      else b\<lparr>bkState := (if terminal then BrokerTerminal else BrokerResolved),
             bkResolvedCloses := Suc (bkResolvedCloses b)\<rparr>)"

subsection \<open>Frontends side by side\<close>

datatype submit_phase =
    SubmitHead
  | SubmitWaiting "nat option"
  | SubmitResponding nat
  | SubmitDone "interaction_error option"

record broker_sys =
  bsBroker :: codexInteractionBroker
  bsNext :: nat
  bsCloses :: "nat \<Rightarrow> nat"
  bsPhase :: "nat \<Rightarrow> submit_phase"

inductive broker_step :: "broker_sys \<Rightarrow> broker_sys \<Rightarrow> bool" where
  submit_returns: "bsPhase s f = SubmitHead \<Longrightarrow> submit_enter (bsNext s) (bsBroker s) = (SubmitReturn err, b) \<Longrightarrow>
    broker_step s (s\<lparr>bsPhase := (bsPhase s)(f := SubmitDone (Some err))\<rparr>)"
| submit_waits: "bsPhase s f = SubmitHead \<Longrightarrow> submit_enter (bsNext s) (bsBroker s) = (SubmitWait c, b) \<Longrightarrow>
    broker_step s (s\<lparr>bsPhase := (bsPhase s)(f := SubmitWaiting c)\<rparr>)"
| submit_starts: "bsPhase s f = SubmitHead \<Longrightarrow> submit_enter (bsNext s) (bsBroker s) = (SubmitRespond c, b) \<Longrightarrow>
    broker_step s (s\<lparr>bsBroker := b, bsNext := Suc (bsNext s), bsPhase := (bsPhase s)(f := SubmitResponding c)\<rparr>)"
| context_ends: "bsPhase s f = SubmitWaiting c \<Longrightarrow>
    broker_step s (s\<lparr>bsPhase := (bsPhase s)(f := SubmitDone (Some ErrContext))\<rparr>)"
| sees_resolution: "bsPhase s f = SubmitWaiting c \<Longrightarrow> bkResolvedCloses (bsBroker s) > 0 \<Longrightarrow>
    broker_step s (s\<lparr>bsPhase := (bsPhase s)(f := SubmitDone (resolutionError (bsBroker s)))\<rparr>)"
| attempt_ended: "bsPhase s f = SubmitWaiting (Some c) \<Longrightarrow> bsCloses s c > 0 \<Longrightarrow>
    broker_step s (s\<lparr>bsPhase := (bsPhase s)(f := SubmitHead)\<rparr>)"
| responded: "bsPhase s f = SubmitResponding c \<Longrightarrow> submit_leave c err (bsBroker s) = (result, b, closed) \<Longrightarrow>
    broker_step s (s\<lparr>bsBroker := b, bsCloses := (if closed then (bsCloses s)(c := Suc (bsCloses s c)) else bsCloses s),
      bsPhase := (bsPhase s)(f := SubmitDone result)\<rparr>)"
| resolved_elsewhere: "broker_step s (s\<lparr>bsBroker := resolve terminal (bsBroker s)\<rparr>)"

inductive_cases broker_stepE: "broker_step s s'"

definition broker_init :: "broker_sys \<Rightarrow> bool" where
  "broker_init s \<longleftrightarrow> (\<exists>thread turn key. s = \<lparr>bsBroker = newCodexInteractionBroker thread turn key, bsNext = 0,
     bsCloses = (\<lambda>_. 0), bsPhase = (\<lambda>_. SubmitHead)\<rparr>)"

definition settled :: "codexInteractionBroker \<Rightarrow> bool" where
  "settled b \<longleftrightarrow> bkState b \<in> {BrokerResolved, BrokerTerminal}"

definition broker_inv :: "broker_sys \<Rightarrow> bool" where
  "broker_inv s \<longleftrightarrow>
     bkResolvedCloses (bsBroker s) = (if settled (bsBroker s) then 1 else 0) \<and>
     (\<forall>c. bsCloses s c \<le> 1) \<and> (\<forall>c. bsCloses s c > 0 \<longrightarrow> c < bsNext s) \<and>
     (\<forall>f c. bsPhase s f = SubmitResponding c \<longrightarrow>
        bkAttemptDone (bsBroker s) = Some c \<and> bsCloses s c = 0 \<and> c < bsNext s \<and> bkState (bsBroker s) \<noteq> BrokerPending \<and>
        (\<forall>g d. bsPhase s g = SubmitResponding d \<longrightarrow> g = f)) \<and>
     (bkState (bsBroker s) = BrokerSubmitting \<longrightarrow> (\<exists>f c. bsPhase s f = SubmitResponding c)) \<and>
     (\<forall>f w. bsPhase s f = SubmitWaiting w \<longrightarrow>
        (\<exists>c. w = Some c \<and> c < bsNext s \<and> (bsCloses s c = 1 \<or> (\<exists>g. bsPhase s g = SubmitResponding c)))) \<and>
     (\<forall>f. bsPhase s f = SubmitDone None \<longrightarrow> bkState (bsBroker s) = BrokerResolved \<and>
        (\<forall>g. bsPhase s g = SubmitDone None \<longrightarrow> g = f))"

lemma broker_inv_init: "broker_init s \<Longrightarrow> broker_inv s"
  by (auto simp: broker_init_def broker_inv_def newCodexInteractionBroker_def settled_def)

lemma broker_invD:
  assumes "broker_inv s"
  shows "bkResolvedCloses (bsBroker s) = (if settled (bsBroker s) then 1 else 0)"
    "bsCloses s c \<le> 1" "bsCloses s c > 0 \<Longrightarrow> c < bsNext s"
    "bsPhase s f = SubmitResponding c \<Longrightarrow> bkAttemptDone (bsBroker s) = Some c \<and> bsCloses s c = 0 \<and> c < bsNext s \<and>
       bkState (bsBroker s) \<noteq> BrokerPending"
    "bsPhase s f = SubmitResponding c \<Longrightarrow> bsPhase s g = SubmitResponding d \<Longrightarrow> g = f"
    "bkState (bsBroker s) = BrokerSubmitting \<Longrightarrow> \<exists>f c. bsPhase s f = SubmitResponding c"
    "bsPhase s f = SubmitWaiting w \<Longrightarrow>
       \<exists>c. w = Some c \<and> c < bsNext s \<and> (bsCloses s c = 1 \<or> (\<exists>g. bsPhase s g = SubmitResponding c))"
    "bsPhase s f = SubmitDone None \<Longrightarrow> bkState (bsBroker s) = BrokerResolved"
    "bsPhase s f = SubmitDone None \<Longrightarrow> bsPhase s g = SubmitDone None \<Longrightarrow> g = f"
  using assms unfolding broker_inv_def by blast+

lemma broker_invI:
  assumes "bkResolvedCloses (bsBroker s) = (if settled (bsBroker s) then 1 else 0)"
    "\<And>c. bsCloses s c \<le> 1" "\<And>c. bsCloses s c > 0 \<Longrightarrow> c < bsNext s"
    "\<And>f c. bsPhase s f = SubmitResponding c \<Longrightarrow> bkAttemptDone (bsBroker s) = Some c \<and> bsCloses s c = 0 \<and> c < bsNext s \<and>
       bkState (bsBroker s) \<noteq> BrokerPending"
    "\<And>f c g d. bsPhase s f = SubmitResponding c \<Longrightarrow> bsPhase s g = SubmitResponding d \<Longrightarrow> g = f"
    "bkState (bsBroker s) = BrokerSubmitting \<Longrightarrow> \<exists>f c. bsPhase s f = SubmitResponding c"
    "\<And>f w. bsPhase s f = SubmitWaiting w \<Longrightarrow>
       \<exists>c. w = Some c \<and> c < bsNext s \<and> (bsCloses s c = 1 \<or> (\<exists>g. bsPhase s g = SubmitResponding c))"
    "\<And>f. bsPhase s f = SubmitDone None \<Longrightarrow> bkState (bsBroker s) = BrokerResolved"
    "\<And>f g. bsPhase s f = SubmitDone None \<Longrightarrow> bsPhase s g = SubmitDone None \<Longrightarrow> g = f"
  shows "broker_inv s"
  using assms unfolding broker_inv_def by blast

lemma inv_frontend:
  assumes inv: "broker_inv s" and f: "\<And>c. bsPhase s f \<noteq> SubmitResponding c" "\<And>c. ph \<noteq> SubmitResponding c"
    and nosuccess: "ph \<noteq> SubmitDone None"
    and wait: "\<And>w. ph = SubmitWaiting w \<Longrightarrow>
      \<exists>c. w = Some c \<and> c < bsNext s \<and> (bsCloses s c = 1 \<or> (\<exists>g. bsPhase s g = SubmitResponding c))"
  shows "broker_inv (s\<lparr>bsPhase := (bsPhase s)(f := ph)\<rparr>)"
proof (rule broker_invI, goal_cases)
  case (4 g c)
  then have "bsPhase s g = SubmitResponding c" using f(2) [of c] by (auto split: if_splits)
  then show ?case using broker_invD(4) [OF inv] by simp
next
  case (5 g c h d)
  then have "bsPhase s g = SubmitResponding c" "bsPhase s h = SubmitResponding d"
    using f(2) [of c] f(2) [of d] by (auto split: if_splits)
  then show ?case using broker_invD(5) [OF inv] by blast
next
  case 6
  then obtain g c where "bsPhase s g = SubmitResponding c" using broker_invD(6) [OF inv] by auto
  moreover from this have "g \<noteq> f" using f(1) by blast
  ultimately show ?case by auto
next
  case (7 g w)
  then obtain c where c: "w = Some c" "c < bsNext s" "bsCloses s c = 1 \<or> (\<exists>h. bsPhase s h = SubmitResponding c)"
    using broker_invD(7) [OF inv, of g w] wait by (auto split: if_splits)
  have "\<exists>h. h \<noteq> f \<and> bsPhase s h = SubmitResponding c" if "\<exists>h. bsPhase s h = SubmitResponding c" using that f(1) by metis
  then show ?case using c by auto
next
  case (8 g)
  then show ?case using broker_invD(8) [OF inv, of g] nosuccess by (simp split: if_splits)
next
  case (9 g h)
  then show ?case using broker_invD(9) [OF inv] nosuccess by (simp split: if_splits)
qed (use broker_invD(1-3) [OF inv] in auto)

lemma inv_starts:
  assumes inv: "broker_inv s" and st: "bkState (bsBroker s) = BrokerPending"
  shows "broker_inv (s\<lparr>bsBroker := (bsBroker s)\<lparr>bkState := BrokerSubmitting, bkAttemptDone := Some (bsNext s)\<rparr>,
    bsNext := Suc (bsNext s), bsPhase := (bsPhase s)(f := SubmitResponding (bsNext s))\<rparr>)"
proof -
  have none: "bsPhase s g \<noteq> SubmitResponding c" for g c using broker_invD(4) [OF inv] st by blast
  have new: "bsCloses s (bsNext s) = 0" using broker_invD(3) [OF inv, of "bsNext s"] by auto
  show ?thesis
  proof (rule broker_invI, goal_cases)
    case (3 c)
    then show ?case using broker_invD(3) [OF inv, of c] by simp
  next
    case (7 g w)
    then show ?case using broker_invD(7) [OF inv, of g w] none by (auto split: if_splits)
  next
    case (8 g)
    then show ?case using broker_invD(8) [OF inv, of g] st by (simp split: if_splits)
  next
    case (9 g h)
    then show ?case using broker_invD(9) [OF inv] by (simp split: if_splits)
  qed (use broker_invD(1,2) [OF inv] none new st in \<open>auto simp: settled_def split: if_splits\<close>)
qed

lemma inv_responded:
  assumes inv: "broker_inv s" and f: "bsPhase s f = SubmitResponding c"
    and l: "submit_leave c err (bsBroker s) = (result, b, closed)"
  shows "broker_inv (s\<lparr>bsBroker := b, bsCloses := (if closed then (bsCloses s)(c := Suc (bsCloses s c)) else bsCloses s),
      bsPhase := (bsPhase s)(f := SubmitDone result)\<rparr>)"
proof -
  note a = broker_invD(4) [OF inv f]
  have only: "g = f \<and> d = c" if "bsPhase s g = SubmitResponding d" for g d
    using broker_invD(5) [OF inv f that] that f by simp
  have closed: closed and b: "bkAttemptDone b = None" "bkState b \<noteq> BrokerSubmitting"
    "bkResolvedCloses b = (if settled b then 1 else 0)" "result = None \<Longrightarrow> bkState b = BrokerResolved \<and> bkState (bsBroker s) = BrokerSubmitting"
    "settled (bsBroker s) \<Longrightarrow> bkState b = bkState (bsBroker s)"
    using l a broker_invD(1) [OF inv]
    by (auto simp: submit_leave_def settled_def split: codexInteractionBrokerState.splits if_splits)
  have succ: "bsPhase s g \<noteq> SubmitDone None" if "result = None" for g
    using broker_invD(8) [OF inv, of g] b(4) that by auto
  show ?thesis
  proof (rule broker_invI, goal_cases)
    case (2 d)
    then show ?case using broker_invD(2) [OF inv, of d] a by simp
  next
    case (3 d)
    then show ?case using broker_invD(3) [OF inv, of d] a by (simp split: if_splits)
  next
    case (7 g w)
    then obtain d where d: "w = Some d" "d < bsNext s" "bsCloses s d = 1 \<or> (\<exists>h. bsPhase s h = SubmitResponding d)"
      using broker_invD(7) [OF inv, of g w] by (auto split: if_splits)
    then have "bsCloses s d = 1 \<or> d = c" using only by blast
    then show ?case using d closed a by (auto intro!: exI [of _ d])
  next
    case (8 g)
    then show ?case using b broker_invD(8) [OF inv, of g] by (auto simp: settled_def split: if_splits)
  next
    case (9 g h)
    then show ?case using broker_invD(9) [OF inv, of g h] succ by (auto split: if_splits)
  qed (use b only in \<open>auto split: if_splits\<close>)
qed

lemma inv_resolved:
  assumes inv: "broker_inv s"
  shows "broker_inv (s\<lparr>bsBroker := resolve terminal (bsBroker s)\<rparr>)"
proof (cases "settled (bsBroker s)")
  case True
  then show ?thesis using inv by (simp add: resolve_def settled_def)
next
  case False
  have "bsPhase s f \<noteq> SubmitDone None" for f using broker_invD(8) [OF inv, of f] False by (auto simp: settled_def)
  then show ?thesis
    by (intro broker_invI) (use broker_invD [OF inv] False in \<open>auto simp: resolve_def settled_def split: if_splits\<close>)
qed

lemma broker_inv_step:
  assumes inv: "broker_inv s" and step: "broker_step s s'"
  shows "broker_inv s'"
  using step
proof cases
  case (submit_waits f c b)
  then have st: "bkState (bsBroker s) = BrokerSubmitting" "c = bkAttemptDone (bsBroker s)"
    by (auto simp: submit_enter_def split: codexInteractionBrokerState.splits)
  then obtain g d where "bsPhase s g = SubmitResponding d" using broker_invD(6) [OF inv] by blast
  then show ?thesis unfolding submit_waits(1)
    by (intro inv_frontend [OF inv]) (use submit_waits(2) st broker_invD(4) [OF inv] in auto)
next
  case (submit_starts f c b)
  then have "bkState (bsBroker s) = BrokerPending" "c = bsNext s"
    "b = (bsBroker s)\<lparr>bkState := BrokerSubmitting, bkAttemptDone := Some (bsNext s)\<rparr>"
    by (auto simp: submit_enter_def split: codexInteractionBrokerState.splits)
  then show ?thesis unfolding submit_starts(1) using inv_starts [OF inv] by simp
next
  case (sees_resolution f c)
  then have "settled (bsBroker s)" using broker_invD(1) [OF inv] by (simp split: if_splits)
  then have "resolutionError (bsBroker s) \<noteq> None" by (auto simp: settled_def resolutionError_def)
  then show ?thesis unfolding sees_resolution(1) by (intro inv_frontend [OF inv]) (use sees_resolution(2) in auto)
next
  case (responded f c err result b closed)
  then show ?thesis using inv_responded [OF inv] by simp
next
  case (resolved_elsewhere terminal)
  then show ?thesis using inv_resolved [OF inv] by simp
qed (use inv in \<open>auto intro!: inv_frontend\<close>)

interpretation broker: invariant_system broker_init broker_step broker_inv
  by unfold_locales (auto intro: broker_inv_init broker_inv_step)

text \<open>
  C36: an interaction is decided once. However many frontends submit answers, and whenever the request is
  resolved elsewhere or its turn ends: at most one answer is being sent at any time, at most one
  submission reports success, and then the interaction is resolved; no channel is closed twice,
  which would crash the program; a frontend that waits for another's attempt is woken by its end,
  and one that sees the resolution gets an error, never a success it did not have.
\<close>

theorem interaction_decided_once:
  assumes r: "reach broker_init broker_step s"
  shows "(\<forall>f g c d. bsPhase s f = SubmitResponding c \<and> bsPhase s g = SubmitResponding d \<longrightarrow> f = g) \<and>
    (\<forall>f g. bsPhase s f = SubmitDone None \<and> bsPhase s g = SubmitDone None \<longrightarrow> f = g) \<and>
    (\<forall>f. bsPhase s f = SubmitDone None \<longrightarrow> bkState (bsBroker s) = BrokerResolved) \<and>
    bkResolvedCloses (bsBroker s) \<le> 1 \<and> (\<forall>c. bsCloses s c \<le> 1) \<and>
    (\<forall>f w. bsPhase s f = SubmitWaiting w \<longrightarrow>
       (\<exists>c. w = Some c \<and> (bsCloses s c = 1 \<or> (\<exists>g. bsPhase s g = SubmitResponding c)))) \<and>
    (bkResolvedCloses (bsBroker s) > 0 \<longrightarrow> resolutionError (bsBroker s) \<noteq> None)"
proof -
  have inv: "broker_inv s" by (rule broker.reach_inv [OF r])
  have "bkResolvedCloses (bsBroker s) \<le> 1" using broker_invD(1) [OF inv] by simp
  moreover have "bkResolvedCloses (bsBroker s) > 0 \<longrightarrow> resolutionError (bsBroker s) \<noteq> None"
    using broker_invD(1) [OF inv] by (auto simp: settled_def resolutionError_def split: if_splits)
  ultimately show ?thesis using broker_invD(2,5,7,8,9) [OF inv] by blast
qed

definition decided_broker :: broker_sys where
  "decided_broker = (let b = newCodexInteractionBroker ''t'' ''u'' ''k'' in
     \<lparr>bsBroker = resolve False b, bsNext = 0, bsCloses = (\<lambda>_. 0), bsPhase = (\<lambda>_. SubmitHead)\<rparr>)"

theorem interaction_decided_once_witness:
  "resolutionError (bsBroker decided_broker) \<noteq> None"
proof -
  let ?i = "\<lparr>bsBroker = newCodexInteractionBroker ''t'' ''u'' ''k'', bsNext = 0, bsCloses = (\<lambda>_. 0), bsPhase = (\<lambda>_. SubmitHead)\<rparr>"
  have "reach broker_init broker_step ?i" by (rule reach_init) (auto simp: broker_init_def)
  moreover have "broker_step ?i decided_broker"
    using resolved_elsewhere [of ?i False] by (simp add: decided_broker_def Let_def)
  ultimately have "reach broker_init broker_step decided_broker" by (rule reach_step)
  from interaction_decided_once [OF this] show ?thesis
    by (simp add: decided_broker_def Let_def resolve_def newCodexInteractionBroker_def)
qed

end
