(* ===== verification/Interactions.thy ===== *)
theory Interactions
  imports Broker
begin

section \<open>Pending interactions of a thread\<close>

text \<open>
  The agent's tables around the brokers: \<open>bindCodexInteractionBrokerLocked\<close> and its companions of
  \<open>agent/codex_interaction_broker.go\<close>, and the pending interactions of
  \<open>agent/turn_channel_registry.go\<close>. They are guarded by one mutex. An event carries the fields the tables
  use: its turn, the request id of its approval or of its question, and its broker, an address in the
  store of brokers. A table per thread that has become empty is deleted in the source; here a
  thread without a table and one with an empty table are the same. Loops over a table take the order of the
  iteration as an argument.
\<close>

record codexTurnEvent =
  evTurnID :: string
  evApproval :: "string option"
  evUserInput :: "string option"
  evBroker :: "nat option"

record interaction_tables =
  itPending :: "string \<Rightarrow> string \<rightharpoonup> codexTurnEvent"
  itBrokers :: "string \<Rightarrow> string \<rightharpoonup> nat"
  itStore :: "nat \<Rightarrow> codexInteractionBroker"
  itNext :: nat
  itAppServer :: bool

definition codexInteractionID :: "codexTurnEvent \<Rightarrow> string" where
  "codexInteractionID e =
     (case evApproval e of
        Some r \<Rightarrow> go_trim r
      | None \<Rightarrow> (case evUserInput e of Some r \<Rightarrow> go_trim r | None \<Rightarrow> []))"

definition codexInteractionBrokerKey :: "codexTurnEvent \<Rightarrow> string" where
  "codexInteractionBrokerKey e =
     (let r = codexInteractionID e in
      if r = [] then []
      else (if evUserInput e \<noteq> None then ''user_input'' else ''approval'') @ [CHR 0x00] @ go_trim (evTurnID e) @ [CHR 0x00] @ r)"

definition bindCodexInteractionBrokerLocked ::
  "string \<Rightarrow> codexTurnEvent \<Rightarrow> interaction_tables \<Rightarrow> codexTurnEvent \<times> interaction_tables" where
  "bindCodexInteractionBrokerLocked thread e a =
     (let t = go_trim thread; key = codexInteractionBrokerKey e in
      if key = [] then (e, a)
      else (case itBrokers a t key of
          Some b \<Rightarrow> (e\<lparr>evBroker := Some b\<rparr>, a)
        | None \<Rightarrow>
            let n = itNext a in
            (e\<lparr>evBroker := Some n\<rparr>,
             a\<lparr>itBrokers := (itBrokers a)(t := (itBrokers a t)(key \<mapsto> n)), itNext := Suc n,
               itStore := (itStore a)(n := newCodexInteractionBroker t (evTurnID e) key)\<rparr>)))"

definition rememberPendingCodexInteractionLocked ::
  "string \<Rightarrow> codexTurnEvent \<Rightarrow> interaction_tables \<Rightarrow> interaction_tables" where
  "rememberPendingCodexInteractionLocked t e a =
     (let key = codexInteractionBrokerKey e in
      if \<not> itAppServer a \<or> t = [] \<or> key = [] then a
      else (case bindCodexInteractionBrokerLocked t e a of
          (e', a') \<Rightarrow> a'\<lparr>itPending := (itPending a')(t := (itPending a' t)(key \<mapsto> e'))\<rparr>))"

definition rememberPendingCodexInteraction ::
  "string \<Rightarrow> codexTurnEvent \<Rightarrow> interaction_tables \<Rightarrow> interaction_tables" where
  "rememberPendingCodexInteraction thread e a =
     (let t = go_trim thread in
      if \<not> itAppServer a \<or> t = [] \<or> codexInteractionBrokerKey e = [] then a
      else rememberPendingCodexInteractionLocked t e a)"

definition pendingCodexInteractionsLocked :: "string list \<Rightarrow> string \<Rightarrow> interaction_tables \<Rightarrow> codexTurnEvent list" where
  "pendingCodexInteractionsLocked order t a =
     List.map_filter (itPending a (go_trim t)) (sort (filter (\<lambda>k. itPending a (go_trim t) k \<noteq> None) order))"

definition forgetCodexInteractionLocked ::
  "string \<Rightarrow> string \<Rightarrow> codexTurnEvent \<Rightarrow> interaction_tables \<Rightarrow> interaction_tables" where
  "forgetCodexInteractionLocked t key e a =
     (let a1 = a\<lparr>itPending := (itPending a)(t := (itPending a t)(key := None))\<rparr> in
      if evBroker e \<noteq> None \<and> itBrokers a1 t key = evBroker e
      then a1\<lparr>itBrokers := (itBrokers a1)(t := (itBrokers a1 t)(key := None))\<rparr> else a1)"

definition forgetPendingCodexInteraction :: "string \<Rightarrow> codexTurnEvent \<Rightarrow> interaction_tables \<Rightarrow> interaction_tables" where
  "forgetPendingCodexInteraction thread e a =
     (let t = go_trim thread; key = codexInteractionBrokerKey e in
      if t = [] \<or> key = [] then a else forgetCodexInteractionLocked t key e a)"

text \<open>
  \<open>resolveCodexInteraction\<close>, and the end of \<open>submitCodexInteraction\<close>: once \<open>submit\<close> has returned
  \<open>nil\<close> the pending event is forgotten.
\<close>

definition resolveCodexInteraction :: "codexTurnEvent \<Rightarrow> bool \<Rightarrow> interaction_tables \<Rightarrow> interaction_tables" where
  "resolveCodexInteraction e terminal a =
     (case evBroker e of
        None \<Rightarrow> a
      | Some b \<Rightarrow>
          forgetPendingCodexInteraction (bkThreadID (itStore a b)) e
            (a\<lparr>itStore := (itStore a)(b := resolve terminal (itStore a b))\<rparr>))"

definition submitCodexInteraction_end ::
  "codexTurnEvent \<Rightarrow> interaction_error option \<Rightarrow> interaction_tables \<Rightarrow> interaction_tables" where
  "submitCodexInteraction_end e result a =
     (case evBroker e of
        None \<Rightarrow> a
      | Some b \<Rightarrow> if result = None then forgetPendingCodexInteraction (bkThreadID (itStore a b)) e a else a)"

definition resolve_brokers :: "bool \<Rightarrow> nat list \<Rightarrow> interaction_tables \<Rightarrow> interaction_tables" where
  "resolve_brokers terminal bs a =
     a\<lparr>itStore := (\<lambda>n. if n \<in> set bs then resolve terminal (itStore a n) else itStore a n)\<rparr>"

text \<open>The two loops over the pending events share their body: forget the events that match and collect their brokers.\<close>

definition take_pending ::
  "(codexTurnEvent \<Rightarrow> bool) \<Rightarrow> string \<Rightarrow> string \<Rightarrow> nat list \<times> nat \<times> interaction_tables \<Rightarrow> nat list \<times> nat \<times> interaction_tables" where
  "take_pending P t key s =
     (case s of (bs, n, a) \<Rightarrow>
        (case itPending a t key of
           None \<Rightarrow> s
         | Some e \<Rightarrow>
             if P e then ((case evBroker e of None \<Rightarrow> bs | Some b \<Rightarrow> b # bs), Suc n, forgetCodexInteractionLocked t key e a)
             else s))"

definition resolveCodexInteractionRequest ::
  "string list \<Rightarrow> string \<Rightarrow> string \<Rightarrow> bool \<Rightarrow> interaction_tables \<Rightarrow> nat \<times> interaction_tables" where
  "resolveCodexInteractionRequest order thread request terminal a =
     (let t = go_trim thread; r = go_trim request in
      if t = [] \<or> r = [] then (0, a)
      else (case fold (take_pending (\<lambda>e. codexInteractionID e = r) t) order ([], 0, a) of
          (bs, n, a') \<Rightarrow> (n, resolve_brokers terminal bs a')))"

definition take_broker ::
  "string \<Rightarrow> string \<Rightarrow> string \<Rightarrow> nat list \<times> interaction_tables \<Rightarrow> nat list \<times> interaction_tables" where
  "take_broker t turn key s =
     (case s of (bs, a) \<Rightarrow>
        (case itBrokers a t key of
           None \<Rightarrow> s
         | Some b \<Rightarrow>
             if turn \<noteq> [] \<and> bkTurnID (itStore a b) \<noteq> turn then s
             else (b # bs, a\<lparr>itBrokers := (itBrokers a)(t := (itBrokers a t)(key := None))\<rparr>)))"

definition settleCodexTurnInteractionsLocked ::
  "string list \<Rightarrow> string list \<Rightarrow> string \<Rightarrow> string \<Rightarrow> interaction_tables \<Rightarrow> interaction_tables" where
  "settleCodexTurnInteractionsLocked order1 order2 thread turn0 a =
     (let t = go_trim thread; turn = go_trim turn0 in
      if t = [] then a
      else (case fold (take_pending (\<lambda>e. turn = [] \<or> go_trim (evTurnID e) = turn) t) order1 ([], 0, a) of
          (bs, _, a1) \<Rightarrow>
            (case fold (take_broker t turn) order2 (bs, a1) of (bs', a2) \<Rightarrow> resolve_brokers True bs' a2)))"

subsection \<open>What the loops do\<close>

lemma forget_fields [simp]:
  "itPending (forgetCodexInteractionLocked t key e a) = (itPending a)(t := (itPending a t)(key := None))"
  "itStore (forgetCodexInteractionLocked t key e a) = itStore a"
  "itNext (forgetCodexInteractionLocked t key e a) = itNext a"
  by (simp_all add: forgetCodexInteractionLocked_def Let_def)

lemma forget_brokers:
  "itBrokers (forgetCodexInteractionLocked t key e a) u k =
     (if u = t \<and> k = key \<and> evBroker e \<noteq> None \<and> itBrokers a t key = evBroker e then None else itBrokers a u k)"
  by (simp add: forgetCodexInteractionLocked_def Let_def)

lemma take_pending_loop_all:
  assumes "fold (take_pending P t) order (bs, n, a) = (bs', n', a')"
  shows "(\<forall>u k. itPending a' u k =
       (if u = t \<and> k \<in> set order \<and> (\<exists>e. itPending a t k = Some e \<and> P e) then None else itPending a u k)) \<and>
    itStore a' = itStore a \<and> set bs \<subseteq> set bs' \<and>
    (\<forall>u k. itBrokers a' u k \<noteq> itBrokers a u k \<longrightarrow>
       u = t \<and> itBrokers a' u k = None \<and> (\<exists>b \<in> set bs'. itBrokers a u k = Some b)) \<and>
    (\<forall>k e b. k \<in> set order \<and> itPending a t k = Some e \<and> P e \<and> evBroker e = Some b \<longrightarrow> b \<in> set bs')"
  using assms
proof (induction order arbitrary: bs n a)
  case (Cons key order)
  obtain bs1 n1 a1 where s1: "take_pending P t key (bs, n, a) = (bs1, n1, a1)" by (cases "take_pending P t key (bs, n, a)")
  then have f: "fold (take_pending P t) order (bs1, n1, a1) = (bs', n', a')" using Cons.prems by simp
  have IH: "\<And>u k. itPending a' u k =
       (if u = t \<and> k \<in> set order \<and> (\<exists>e. itPending a1 t k = Some e \<and> P e) then None else itPending a1 u k)"
    "itStore a' = itStore a1" "set bs1 \<subseteq> set bs'"
    "\<And>u k. itBrokers a' u k \<noteq> itBrokers a1 u k \<Longrightarrow>
       u = t \<and> itBrokers a' u k = None \<and> (\<exists>b \<in> set bs'. itBrokers a1 u k = Some b)"
    "\<And>k e b. k \<in> set order \<and> itPending a1 t k = Some e \<and> P e \<and> evBroker e = Some b \<Longrightarrow> b \<in> set bs'"
    using Cons.IH [OF f] by blast+
  have one: "itPending a1 v j = (if v = t \<and> j = key \<and> (\<exists>e. itPending a t key = Some e \<and> P e) then None else itPending a v j)"
    "itStore a1 = itStore a" "set bs \<subseteq> set bs1"
    "itBrokers a1 v j \<noteq> itBrokers a v j \<Longrightarrow> v = t \<and> itBrokers a1 v j = None \<and> (\<exists>b \<in> set bs1. itBrokers a v j = Some b)"
    "itPending a t key = Some e \<Longrightarrow> P e \<Longrightarrow> evBroker e = Some b \<Longrightarrow> b \<in> set bs1" for v j e b
    using s1 by (auto simp: take_pending_def forget_brokers split: option.splits if_splits)
  have p: "itPending a' u k =
       (if u = t \<and> k \<in> set (key # order) \<and> (\<exists>e. itPending a t k = Some e \<and> P e) then None else itPending a u k)" for u k
    by (cases "u = t"; cases "k = key"; cases "\<exists>e. itPending a t key = Some e \<and> P e") (simp_all add: IH(1) one(1), blast+)
  have b: "u = t \<and> itBrokers a' u k = None \<and> (\<exists>b \<in> set bs'. itBrokers a u k = Some b)"
    if "itBrokers a' u k \<noteq> itBrokers a u k" for u k
  proof (cases "itBrokers a' u k = itBrokers a1 u k")
    case True
    then show ?thesis using that one(4) [of u k] IH(3) by auto
  next
    case False
    then show ?thesis using IH(4) [of u k] one(4) [of u k] by (cases "itBrokers a1 u k = itBrokers a u k") auto
  qed
  have c: "b \<in> set bs'" if "k \<in> set (key # order)" "itPending a t k = Some e" "P e" "evBroker e = Some b" for k e b
  proof (cases "k = key")
    case True
    then show ?thesis using that one(5) IH(3) by blast
  next
    case False
    then show ?thesis using that IH(5) [of k e b] one(1) by simp
  qed
  have "itStore a' = itStore a" using IH(2) one(2) by simp
  moreover have "set bs \<subseteq> set bs'" using IH(3) one(3) by (rule subset_trans [rotated])
  ultimately show ?case by (intro conjI allI impI p b) (use c in blast)+
qed simp

lemma take_pending_loop:
  assumes "fold (take_pending P t) order (bs, n, a) = (bs', n', a')"
  shows "itPending a' u k = (if u = t \<and> k \<in> set order \<and> (\<exists>e. itPending a t k = Some e \<and> P e) then None else itPending a u k)"
    "itStore a' = itStore a" "set bs \<subseteq> set bs'"
    "itBrokers a' u k \<noteq> itBrokers a u k \<Longrightarrow> u = t \<and> itBrokers a' u k = None \<and> (\<exists>b \<in> set bs'. itBrokers a u k = Some b)"
    "k \<in> set order \<Longrightarrow> itPending a t k = Some e \<Longrightarrow> P e \<Longrightarrow> evBroker e = Some b \<Longrightarrow> b \<in> set bs'"
  using take_pending_loop_all [OF assms] by blast+

lemma take_broker_loop_all:
  assumes "fold (take_broker t turn) order (bs, a) = (bs', a')"
  shows "itPending a' = itPending a \<and> itStore a' = itStore a \<and> set bs \<subseteq> set bs' \<and>
    (\<forall>u k. itBrokers a' u k = (if u = t \<and> k \<in> set order \<and>
       (\<exists>b. itBrokers a t k = Some b \<and> (turn = [] \<or> bkTurnID (itStore a b) = turn)) then None else itBrokers a u k)) \<and>
    (\<forall>k b. k \<in> set order \<and> itBrokers a t k = Some b \<and> (turn = [] \<or> bkTurnID (itStore a b) = turn) \<longrightarrow> b \<in> set bs')"
  using assms
proof (induction order arbitrary: bs a)
  case (Cons key order)
  obtain bs1 a1 where s1: "take_broker t turn key (bs, a) = (bs1, a1)" by (cases "take_broker t turn key (bs, a)")
  then have f: "fold (take_broker t turn) order (bs1, a1) = (bs', a')" using Cons.prems by simp
  have IH: "itPending a' = itPending a1" "itStore a' = itStore a1" "set bs1 \<subseteq> set bs'"
    "\<And>u k. itBrokers a' u k = (if u = t \<and> k \<in> set order \<and>
       (\<exists>b. itBrokers a1 t k = Some b \<and> (turn = [] \<or> bkTurnID (itStore a1 b) = turn)) then None else itBrokers a1 u k)"
    "\<And>k b. k \<in> set order \<and> itBrokers a1 t k = Some b \<and> (turn = [] \<or> bkTurnID (itStore a1 b) = turn) \<Longrightarrow> b \<in> set bs'"
    using Cons.IH [OF f] by blast+
  have one: "itPending a1 = itPending a" "itStore a1 = itStore a" "set bs \<subseteq> set bs1"
    "itBrokers a1 v j = (if v = t \<and> j = key \<and>
       (\<exists>b. itBrokers a t key = Some b \<and> (turn = [] \<or> bkTurnID (itStore a b) = turn)) then None else itBrokers a v j)"
    "itBrokers a t key = Some b \<Longrightarrow> turn = [] \<or> bkTurnID (itStore a b) = turn \<Longrightarrow> b \<in> set bs1" for v j b
    using s1 by (auto simp: take_broker_def split: option.splits if_splits)
  have b: "itBrokers a' u k = (if u = t \<and> k \<in> set (key # order) \<and>
       (\<exists>b. itBrokers a t k = Some b \<and> (turn = [] \<or> bkTurnID (itStore a b) = turn)) then None else itBrokers a u k)" for u k
    by (cases "u = t"; cases "k = key"; cases "\<exists>b. itBrokers a t key = Some b \<and> (turn = [] \<or> bkTurnID (itStore a b) = turn)")
      (simp_all add: IH(4) one(2,4), blast+)
  have c: "b \<in> set bs'" if "k \<in> set (key # order)" "itBrokers a t k = Some b" "turn = [] \<or> bkTurnID (itStore a b) = turn" for k b
  proof (cases "k = key")
    case True
    then show ?thesis using that one(5) IH(3) by blast
  next
    case False
    then show ?thesis using that IH(5) [of k b] one(2,4) by simp
  qed
  have "itPending a' = itPending a" "itStore a' = itStore a" using IH(1,2) one(1,2) by simp_all
  moreover have "set bs \<subseteq> set bs'" using IH(3) one(3) by (rule subset_trans [rotated])
  ultimately show ?case by (intro conjI allI impI b) (use c in blast)+
qed simp

lemma take_broker_loop:
  assumes "fold (take_broker t turn) order (bs, a) = (bs', a')"
  shows "itPending a' = itPending a" "itStore a' = itStore a" "set bs \<subseteq> set bs'"
    "itBrokers a' u k = (if u = t \<and> k \<in> set order \<and>
       (\<exists>b. itBrokers a t k = Some b \<and> (turn = [] \<or> bkTurnID (itStore a b) = turn)) then None else itBrokers a u k)"
    "k \<in> set order \<Longrightarrow> itBrokers a t k = Some b \<Longrightarrow> turn = [] \<or> bkTurnID (itStore a b) = turn \<Longrightarrow> b \<in> set bs'"
  using take_broker_loop_all [OF assms] by blast+

lemma resolve_settled: "settled (resolve terminal b)"
  by (auto simp: resolve_def settled_def)

lemma settled_resolve: "settled b \<Longrightarrow> resolve terminal b = b"
  by (simp add: resolve_def settled_def)

text \<open>
  The end of a turn settles its interactions. When a turn has ended, no pending interaction of it and
  no registered broker of it is left, and every frontend that holds one of them is told: each broker
  that was attached to a pending event of the turn or registered for it has its resolution
  channel closed. A terminal event without a turn id settles the whole thread. Other threads keep
  what they have.
\<close>

theorem turn_end_settles_interactions:
  assumes t: "\<not> blank thread"
    and o1: "\<And>k. itPending a (go_trim thread) k \<noteq> None \<Longrightarrow> k \<in> set order1"
    and o2: "\<And>k. itBrokers a (go_trim thread) k \<noteq> None \<Longrightarrow> k \<in> set order2"
  shows "let a' = settleCodexTurnInteractionsLocked order1 order2 thread turn a in
    (\<forall>k e. itPending a' (go_trim thread) k = Some e \<longrightarrow> \<not> blank turn \<and> go_trim (evTurnID e) \<noteq> go_trim turn) \<and>
    (\<forall>k b. itBrokers a' (go_trim thread) k = Some b \<longrightarrow> \<not> blank turn \<and> bkTurnID (itStore a b) \<noteq> go_trim turn) \<and>
    (\<forall>k e b. itPending a (go_trim thread) k = Some e \<and> evBroker e = Some b \<and>
       (blank turn \<or> go_trim (evTurnID e) = go_trim turn) \<longrightarrow> settled (itStore a' b)) \<and>
    (\<forall>k b. itBrokers a (go_trim thread) k = Some b \<and> (blank turn \<or> bkTurnID (itStore a b) = go_trim turn) \<longrightarrow>
       settled (itStore a' b)) \<and>
    (\<forall>u. u \<noteq> go_trim thread \<longrightarrow> itPending a' u = itPending a u \<and> itBrokers a' u = itBrokers a u)"
proof -
  let ?t = "go_trim thread" and ?u = "go_trim turn"
  let ?P = "\<lambda>e. ?u = [] \<or> go_trim (evTurnID e) = ?u"
  obtain bs n a1 where l1: "fold (take_pending ?P ?t) order1 ([], 0, a) = (bs, n, a1)" by (metis prod_cases3)
  obtain bs' a2 where l2: "fold (take_broker ?t ?u) order2 (bs, a1) = (bs', a2)" by (metis surj_pair)
  note A = take_pending_loop [OF l1] and B = take_broker_loop [OF l2]
  let ?a = "settleCodexTurnInteractionsLocked order1 order2 thread turn a"
  have a': "?a = resolve_brokers True bs' a2"
    using t l1 l2 by (simp add: settleCodexTurnInteractionsLocked_def Let_def)
  have sel: "itPending ?a = itPending a1" "itBrokers ?a = itBrokers a2"
    "\<And>b. b \<in> set bs' \<Longrightarrow> settled (itStore ?a b)"
    using B(1) unfolding a' by (simp_all add: resolve_brokers_def resolve_settled)
  have pend: "\<not> blank turn \<and> go_trim (evTurnID e) \<noteq> ?u" if "itPending ?a ?t k = Some e" for k e
  proof -
    have "itPending a ?t k = Some e \<and> \<not> (k \<in> set order1 \<and> ?P e)"
      using that unfolding sel(1) A(1) by (simp split: if_splits)
    then show ?thesis using o1 [of k] by auto
  qed
  have stay: "k \<in> set order2" if "itBrokers a1 ?t k = Some b" for k b
    using A(4) [of ?t k] that o2 [of k] by (cases "itBrokers a1 ?t k = itBrokers a ?t k") auto
  have brok: "\<not> blank turn \<and> bkTurnID (itStore a b) \<noteq> ?u" if "itBrokers ?a ?t k = Some b" for k b
  proof -
    have "itBrokers a1 ?t k = Some b \<and> \<not> (k \<in> set order2 \<and> (?u = [] \<or> bkTurnID (itStore a1 b) = ?u))"
      using that unfolding sel(2) B(4) by (simp split: if_splits)
    then show ?thesis using stay A(2) by auto
  qed
  have ev: "settled (itStore ?a b)" if "itPending a ?t k = Some e" "evBroker e = Some b" "blank turn \<or> go_trim (evTurnID e) = ?u" for k e b
    using A(5) [of k e b] o1 [of k] that B(3) by (intro sel(3)) auto
  have br: "settled (itStore ?a b)" if "itBrokers a ?t k = Some b" "blank turn \<or> bkTurnID (itStore a b) = ?u" for k b
  proof (cases "itBrokers a1 ?t k = Some b")
    case True
    then show ?thesis using B(5) [of k b] stay A(2) that(2) by (intro sel(3)) auto
  next
    case False
    then have "b \<in> set bs" using A(4) [of ?t k] that(1) by auto
    then show ?thesis using B(3) by (intro sel(3)) blast
  qed
  have other: "itPending ?a u = itPending a u" "itBrokers ?a u = itBrokers a u" if "u \<noteq> ?t" for u
  proof -
    show "itPending ?a u = itPending a u" using A(1) that unfolding sel by (auto simp: fun_eq_iff)
    have "itBrokers a1 u k = itBrokers a u k" for k using A(4) [of u k] that by blast
    then show "itBrokers ?a u = itBrokers a u" using B(4) that unfolding sel by (auto simp: fun_eq_iff)
  qed
  show ?thesis unfolding Let_def
    by (intro conjI allI impI) (use pend brok ev br other in blast)+
qed

definition asked_tables :: interaction_tables where
  "asked_tables = rememberPendingCodexInteractionLocked ''t'' \<lparr>evTurnID = ''u'', evApproval = Some ''r'', evUserInput = None, evBroker = None\<rparr>
     \<lparr>itPending = (\<lambda>_. Map.empty), itBrokers = (\<lambda>_. Map.empty),
      itStore = (\<lambda>_. newCodexInteractionBroker [] [] []), itNext = 0, itAppServer = True\<rparr>"

theorem turn_end_settles_interactions_witness:
  "settled (itStore (settleCodexTurnInteractionsLocked [''approval'' @ [CHR 0x00] @ ''u'' @ [CHR 0x00] @ ''r'']
      [''approval'' @ [CHR 0x00] @ ''u'' @ [CHR 0x00] @ ''r''] ''t'' ''u'' asked_tables) 0)"
proof -
  let ?k = "''approval'' @ [CHR 0x00] @ ''u'' @ [CHR 0x00] @ ''r''"
  have trim: "go_trim ''t'' = ''t''" "go_trim ''u'' = ''u''" "go_trim ''r'' = ''r''" "\<not> blank ''t''" by code_simp+
  have a: "itPending asked_tables ''t'' = [?k \<mapsto> \<lparr>evTurnID = ''u'', evApproval = Some ''r'', evUserInput = None, evBroker = Some 0\<rparr>]"
    "itBrokers asked_tables ''t'' = [?k \<mapsto> 0]"
    by (simp_all add: asked_tables_def rememberPendingCodexInteractionLocked_def bindCodexInteractionBrokerLocked_def
        codexInteractionBrokerKey_def codexInteractionID_def Let_def trim)
  have o: "k \<in> set [?k]" if "itPending asked_tables (go_trim ''t'') k \<noteq> None \<or> itBrokers asked_tables (go_trim ''t'') k \<noteq> None" for k
    using that by (simp add: trim a split: if_splits)
  have "itBrokers asked_tables (go_trim ''t'') ?k = Some 0" "bkTurnID (itStore asked_tables 0) = go_trim ''u''"
    by (simp_all add: trim asked_tables_def rememberPendingCodexInteractionLocked_def bindCodexInteractionBrokerLocked_def
        codexInteractionBrokerKey_def codexInteractionID_def Let_def newCodexInteractionBroker_def)
  moreover note turn_end_settles_interactions [OF trim(4), of asked_tables "[?k]" "[?k]" "''u''"]
  ultimately show ?thesis using o unfolding Let_def by blast
qed

end
