(* ===== verification/Dispatch.thy ===== *)
theory Dispatch
  imports Prelude
begin

section \<open>The dispatch sequencer of the Feishu adapter\<close>

text \<open>
  \<open>feishu/dispatch_order.go\<close>: messages of one chat window enter the program in the order in which
  they were received, although each is handled by its own goroutine. A ticket waits for the node of
  the ticket before it; a ticket that gives up redirects its node to the one it was waiting for.
  Nodes are compared by pointer in the source, so they live in a store indexed by their
  address, and addresses grow with every reservation. The loops that follow redirections are
  partial functions here; that they return is a theorem.
\<close>

subsection \<open>Nodes, tickets and the sequencer\<close>

record feishuDispatchNode =
  dnRedirect :: "nat option"
  dnClosed :: bool
  dnOperation :: string

record feishuDispatchSequencer =
  sqTails :: "string \<rightharpoonup> nat"
  sqNodes :: "nat \<Rightarrow> feishuDispatchNode"
  sqNext :: nat

record feishuDispatchTicket =
  tkKey :: string
  tkPrevious :: "nat option"
  tkCurrent :: nat

definition newFeishuDispatchSequencer :: feishuDispatchSequencer where
  "newFeishuDispatchSequencer = \<lparr>sqTails = Map.empty,
     sqNodes = (\<lambda>_. \<lparr>dnRedirect = None, dnClosed = False, dnOperation = []\<rparr>), sqNext = 0\<rparr>"

definition default_operation :: string where
  "default_operation = [CHR 0xE6, CHR 0xB6, CHR 0x88, CHR 0xE6, CHR 0x81, CHR 0xAF,
     CHR 0xE5, CHR 0xA4, CHR 0x84, CHR 0xE7, CHR 0x90, CHR 0x86]"

text \<open>A reservation with a blank key has no place in the order: the source returns the zero ticket, \<open>None\<close> here.\<close>

definition seq_reserve ::
  "string \<Rightarrow> string \<Rightarrow> feishuDispatchSequencer \<Rightarrow> feishuDispatchTicket option \<times> feishuDispatchSequencer" where
  "seq_reserve key0 operation s =
     (let key = go_trim key0; n = sqNext s in
      if key = [] then (None, s)
      else (Some \<lparr>tkKey = key, tkPrevious = sqTails s key, tkCurrent = n\<rparr>,
            s\<lparr>sqTails := (sqTails s)(key \<mapsto> n), sqNext := Suc n,
              sqNodes := (sqNodes s)(n := \<lparr>dnRedirect = None, dnClosed = False,
                dnOperation = (if operation = [] then default_operation else operation)\<rparr>)\<rparr>))"

definition node_complete :: "nat \<Rightarrow> nat option \<Rightarrow> feishuDispatchSequencer \<Rightarrow> feishuDispatchSequencer" where
  "node_complete n redirect s =
     (if dnClosed (sqNodes s n) then s
      else s\<lparr>sqNodes := (sqNodes s)(n := (sqNodes s n)\<lparr>dnRedirect := redirect, dnClosed := True\<rparr>)\<rparr>)"

partial_function (option) pendingFeishuDispatchNode ::
  "(nat \<Rightarrow> feishuDispatchNode) \<Rightarrow> nat option \<Rightarrow> nat option option" where
  [code]: "pendingFeishuDispatchNode nodes node =
     (case node of
        None \<Rightarrow> Some None
      | Some n \<Rightarrow>
          (case dnRedirect (nodes n) of
             Some m \<Rightarrow> pendingFeishuDispatchNode nodes (Some m)
           | None \<Rightarrow> if dnClosed (nodes n) then Some None else Some (Some n)))"

definition feishuDispatchNodeComplete :: "(nat \<Rightarrow> feishuDispatchNode) \<Rightarrow> nat option \<Rightarrow> bool option" where
  "feishuDispatchNodeComplete nodes node = map_option (\<lambda>p. p = None) (pendingFeishuDispatchNode nodes node)"

definition previousOperation :: "feishuDispatchTicket \<Rightarrow> feishuDispatchSequencer \<Rightarrow> string option" where
  "previousOperation t s =
     map_option (\<lambda>p. case p of
          Some n \<Rightarrow> if dnOperation (sqNodes s n) \<noteq> [] then dnOperation (sqNodes s n) else default_operation
        | None \<Rightarrow> default_operation)
       (pendingFeishuDispatchNode (sqNodes s) (tkPrevious t))"

definition ticket_finish :: "feishuDispatchTicket \<Rightarrow> feishuDispatchSequencer \<Rightarrow> feishuDispatchSequencer" where
  "ticket_finish t s =
     (let s' = node_complete (tkCurrent t) None s in
      if sqTails s' (tkKey t) = Some (tkCurrent t) then s'\<lparr>sqTails := (sqTails s')(tkKey t := None)\<rparr> else s')"

definition finishPreservingPrevious ::
  "feishuDispatchTicket \<Rightarrow> feishuDispatchSequencer \<Rightarrow> feishuDispatchSequencer option" where
  "finishPreservingPrevious t s =
     (let s' = node_complete (tkCurrent t) (tkPrevious t) s in
      if sqTails s' (tkKey t) = Some (tkCurrent t)
      then map_option (\<lambda>p. s'\<lparr>sqTails := (sqTails s')(tkKey t := p)\<rparr>)
             (pendingFeishuDispatchNode (sqNodes s') (tkPrevious t))
      else Some s')"

text \<open>
  One round of the loop of \<open>waitForFeishuDispatchNode\<close>: go to the node behind a redirection,
  return, or wait for the node to be closed.
\<close>

datatype wait_round = WaitDone | WaitNext nat | WaitOnNode nat

definition waitForFeishuDispatchNode :: "(nat \<Rightarrow> feishuDispatchNode) \<Rightarrow> nat option \<Rightarrow> wait_round" where
  "waitForFeishuDispatchNode nodes node =
     (case node of
        None \<Rightarrow> WaitDone
      | Some n \<Rightarrow>
          (case dnRedirect (nodes n) of
             Some m \<Rightarrow> WaitNext m
           | None \<Rightarrow> if dnClosed (nodes n) then WaitDone else WaitOnNode n))"

subsection \<open>Tickets side by side\<close>

text \<open>
  Where a ticket is: waiting (at a node of the chain), running its dispatch in its turn, running it
  out of turn (only \<open>runAfterWaitTimeoutWithAdmission\<close>, which lets a stop command pass), or gone. When the
  context of a running dispatch ends, \<open>runAfterOrderedWait\<close> returns but the dispatch goes on in its
  goroutine and the ticket is finished by that goroutine, so there is no step for it.
\<close>

datatype ticket_phase = Waiting "nat option" | Ready | Dispatching | Bypassing | Gone

record dispatch_sys =
  dsSeq :: feishuDispatchSequencer
  dsTicket :: "nat \<rightharpoonup> feishuDispatchTicket"
  dsPhase :: "nat \<Rightarrow> ticket_phase"

definition set_phase :: "nat \<Rightarrow> ticket_phase \<Rightarrow> feishuDispatchSequencer \<Rightarrow> dispatch_sys \<Rightarrow> dispatch_sys" where
  "set_phase q p sq s = s\<lparr>dsSeq := sq, dsPhase := (dsPhase s)(q := p)\<rparr>"

inductive dispatch_step :: "dispatch_sys \<Rightarrow> dispatch_sys \<Rightarrow> bool" where
  reserved: "seq_reserve key operation (dsSeq s) = (Some t, sq) \<Longrightarrow>
    dispatch_step s (s\<lparr>dsSeq := sq, dsTicket := (dsTicket s)(tkCurrent t \<mapsto> t),
      dsPhase := (dsPhase s)(tkCurrent t := Waiting (tkPrevious t))\<rparr>)"
| followed: "dsPhase s q = Waiting n \<Longrightarrow> waitForFeishuDispatchNode (sqNodes (dsSeq s)) n = WaitNext m \<Longrightarrow>
    dispatch_step s (set_phase q (Waiting (Some m)) (dsSeq s) s)"
| wait_over: "dsPhase s q = Waiting n \<Longrightarrow> waitForFeishuDispatchNode (sqNodes (dsSeq s)) n = WaitDone \<Longrightarrow>
    dispatch_step s (set_phase q Ready (dsSeq s) s)"
| wait_canceled: "dsPhase s q = Waiting (Some n) \<Longrightarrow> dsTicket s q = Some t \<Longrightarrow>
    finishPreservingPrevious t (dsSeq s) = Some sq \<Longrightarrow> dispatch_step s (set_phase q Gone sq s)"
| admission_rejected: "dsPhase s q = Ready \<Longrightarrow> dsTicket s q = Some t \<Longrightarrow>
    dispatch_step s (set_phase q Gone (ticket_finish t (dsSeq s)) s)"
| dispatched: "dsPhase s q = Ready \<Longrightarrow> dispatch_step s (set_phase q Dispatching (dsSeq s) s)"
| dispatch_returned: "dsPhase s q = Dispatching \<Longrightarrow> dsTicket s q = Some t \<Longrightarrow>
    dispatch_step s (set_phase q Gone (ticket_finish t (dsSeq s)) s)"
| bypassed: "dsPhase s q = Waiting (Some n) \<Longrightarrow> dispatch_step s (set_phase q Bypassing (dsSeq s) s)"
| bypass_returned: "dsPhase s q = Bypassing \<Longrightarrow> dsTicket s q = Some t \<Longrightarrow>
    finishPreservingPrevious t (dsSeq s) = Some sq \<Longrightarrow> dispatch_step s (set_phase q Gone sq s)"

inductive_cases dispatch_stepE: "dispatch_step s s'"

definition dispatch_init :: "dispatch_sys \<Rightarrow> bool" where
  "dispatch_init s \<longleftrightarrow> s = \<lparr>dsSeq = newFeishuDispatchSequencer, dsTicket = Map.empty, dsPhase = (\<lambda>_. Gone)\<rparr>"

subsection \<open>The invariant\<close>

text \<open>
  A ticket is open until it is gone. \<open>behind s k q n\<close>: every open ticket of window \<open>k\<close> before \<open>q\<close> is at or
  before the node \<open>n\<close>, or there is none when \<open>n\<close> is absent. It is what waiting at \<open>n\<close> is worth.
\<close>

definition open_ticket :: "dispatch_sys \<Rightarrow> string \<Rightarrow> nat \<Rightarrow> bool" where
  "open_ticket s k p \<longleftrightarrow> (\<exists>t. dsTicket s p = Some t \<and> tkKey t = k) \<and> dsPhase s p \<noteq> Gone"

definition behind :: "dispatch_sys \<Rightarrow> string \<Rightarrow> nat \<Rightarrow> nat option \<Rightarrow> bool" where
  "behind s k q n \<longleftrightarrow>
     (case n of
        None \<Rightarrow> \<forall>p < q. \<not> open_ticket s k p
      | Some m \<Rightarrow> m < q \<and> (\<exists>t. dsTicket s m = Some t \<and> tkKey t = k) \<and> (\<forall>p < q. open_ticket s k p \<longrightarrow> p \<le> m))"

definition ticket_inv :: "dispatch_sys \<Rightarrow> nat \<Rightarrow> feishuDispatchTicket \<Rightarrow> bool" where
  "ticket_inv s q t \<longleftrightarrow> tkCurrent t = q \<and> q < sqNext (dsSeq s) \<and> behind s (tkKey t) q (tkPrevious t) \<and>
     (dnClosed (sqNodes (dsSeq s) q) \<longleftrightarrow> dsPhase s q = Gone) \<and>
     (if dsPhase s q = Gone then behind s (tkKey t) q (dnRedirect (sqNodes (dsSeq s) q))
      else dnRedirect (sqNodes (dsSeq s) q) = None) \<and>
     (\<forall>n. dsPhase s q = Waiting n \<longrightarrow> behind s (tkKey t) q n) \<and>
     (dsPhase s q \<in> {Ready, Dispatching} \<longrightarrow> behind s (tkKey t) q None)"

definition tail_inv :: "dispatch_sys \<Rightarrow> string \<Rightarrow> bool" where
  "tail_inv s k \<longleftrightarrow>
     (case sqTails (dsSeq s) k of
        None \<Rightarrow> \<forall>p. \<not> open_ticket s k p
      | Some n \<Rightarrow> open_ticket s k n \<and> (\<forall>p. open_ticket s k p \<longrightarrow> p \<le> n))"

definition dispatch_inv :: "dispatch_sys \<Rightarrow> bool" where
  "dispatch_inv s \<longleftrightarrow> (\<forall>q t. dsTicket s q = Some t \<longrightarrow> ticket_inv s q t) \<and> (\<forall>k. tail_inv s k) \<and>
     (\<forall>q. dsTicket s q = None \<longrightarrow> dsPhase s q = Gone)"

lemma set_phase_sel [simp]:
  "dsSeq (set_phase q ph sq s) = sq" "dsTicket (set_phase q ph sq s) = dsTicket s"
  "dsPhase (set_phase q ph sq s) = (dsPhase s)(q := ph)"
  by (simp_all add: set_phase_def)

lemma behind_mono:
  assumes "behind s k q n" "\<And>p. p < q \<Longrightarrow> open_ticket s' k p \<Longrightarrow> open_ticket s k p"
    "\<And>m t. dsTicket s m = Some t \<Longrightarrow> dsTicket s' m = Some t"
  shows "behind s' k q n"
  using assms unfolding behind_def by (cases n) fastforce+

lemma behind_cong:
  "dsTicket s' = dsTicket s \<Longrightarrow> open_ticket s' = open_ticket s \<Longrightarrow> behind s' = behind s"
  by (simp add: behind_def fun_eq_iff split: option.split)

lemma behind_follow:
  assumes "ticket_inv s n t" "dsTicket s n = Some t" "behind s k q (Some n)" "dsPhase s n = Gone"
  shows "behind s k q (dnRedirect (sqNodes (dsSeq s) n))"
proof -
  have k: "tkKey t = k" and n: "n < q" and le: "\<And>p. p < q \<Longrightarrow> open_ticket s k p \<Longrightarrow> p \<le> n"
    using assms(2,3) by (auto simp: behind_def)
  have r: "behind s k n (dnRedirect (sqNodes (dsSeq s) n))" using assms(1,4) k by (simp add: ticket_inv_def)
  have lt: "p < n" if "p < q" "open_ticket s k p" for p
    using le [OF that] that(2) assms(4) by (auto simp: open_ticket_def order_le_less)
  show ?thesis
  proof (cases "dnRedirect (sqNodes (dsSeq s) n)")
    case None
    then show ?thesis using r lt by (auto simp: behind_def)
  next
    case (Some m)
    then have "m < n" "\<exists>t. dsTicket s m = Some t \<and> tkKey t = k" "\<And>p. p < n \<Longrightarrow> open_ticket s k p \<Longrightarrow> p \<le> m"
      using r by (auto simp: behind_def)
    then show ?thesis using Some lt n by (auto simp: behind_def)
  qed
qed

lemma node_gone_iff:
  "ticket_inv s n t \<Longrightarrow> dnRedirect (sqNodes (dsSeq s) n) \<noteq> None \<or> dnClosed (sqNodes (dsSeq s) n) \<Longrightarrow> dsPhase s n = Gone"
  by (auto simp: ticket_inv_def split: if_splits)

lemma pending_correct:
  assumes "\<And>q t. dsTicket s q = Some t \<Longrightarrow> ticket_inv s q t" "behind s k q n"
  shows "\<exists>p. pendingFeishuDispatchNode (sqNodes (dsSeq s)) n = Some p \<and> behind s k q p \<and>
    (\<forall>m. p = Some m \<longrightarrow> open_ticket s k m)"
  using assms(2)
proof (induction "case n of None \<Rightarrow> 0 | Some m \<Rightarrow> Suc m" arbitrary: n rule: less_induct)
  case less
  show ?case
  proof (cases n)
    case None
    then show ?thesis using less.prems by (subst pendingFeishuDispatchNode.simps) simp
  next
    case (Some m)
    then obtain t where t: "dsTicket s m = Some t" "tkKey t = k" using less.prems by (auto simp: behind_def)
    note inv = assms(1) [OF t(1)]
    show ?thesis
    proof (cases "dsPhase s m = Gone")
      case True
      note next_ = behind_follow [OF inv t(1) less.prems [unfolded Some] True]
      have closed: "dnClosed (sqNodes (dsSeq s) m)" using inv True by (simp add: ticket_inv_def)
      show ?thesis
      proof (cases "dnRedirect (sqNodes (dsSeq s) m)")
        case None
        then show ?thesis using Some closed next_ by (subst pendingFeishuDispatchNode.simps) simp
      next
        case (Some m')
        have "m' < m" using inv True Some by (auto simp: ticket_inv_def behind_def)
        from less.hyps [of "Some m'"] this next_ show ?thesis
          using \<open>n = Some m\<close> Some by (subst pendingFeishuDispatchNode.simps) simp
      qed
    next
      case False
      then have "dnRedirect (sqNodes (dsSeq s) m) = None" "\<not> dnClosed (sqNodes (dsSeq s) m)"
        using inv by (auto simp: ticket_inv_def)
      then show ?thesis
        using Some less.prems t False by (subst pendingFeishuDispatchNode.simps) (simp add: open_ticket_def)
    qed
  qed
qed

lemma inv_phase:
  assumes inv: "dispatch_inv s" and q: "dsTicket s q = Some t" "dsPhase s q \<noteq> Gone" "ph \<noteq> Gone"
    and ph: "\<And>n. ph = Waiting n \<Longrightarrow> behind s (tkKey t) q n" "ph \<in> {Ready, Dispatching} \<Longrightarrow> behind s (tkKey t) q None"
  shows "dispatch_inv (set_phase q ph (dsSeq s) s)"
proof -
  define s' where "s' = set_phase q ph (dsSeq s) s"
  have sel: "dsSeq s' = dsSeq s" "dsTicket s' = dsTicket s" "dsPhase s' = (dsPhase s)(q := ph)" by (simp_all add: s'_def)
  have op: "open_ticket s' = open_ticket s" using q by (auto simp: open_ticket_def sel fun_eq_iff)
  have be: "behind s' = behind s" by (rule behind_cong) (simp_all add: op sel)
  have "ticket_inv s' p u" if "dsTicket s' p = Some u" for p u
  proof -
    have p: "dsTicket s p = Some u" using that by (simp add: sel)
    then have "ticket_inv s p u" using inv by (simp add: dispatch_inv_def)
    then show ?thesis using q ph p by (cases "p = q") (auto simp: ticket_inv_def be sel)
  qed
  moreover have "tail_inv s' k" for k
    using inv unfolding dispatch_inv_def tail_inv_def op sel by blast
  moreover have "dsPhase s' p = Gone" if "dsTicket s' p = None" for p
    using that inv q by (auto simp: dispatch_inv_def sel)
  ultimately show ?thesis unfolding s'_def [symmetric] by (auto simp: dispatch_inv_def)
qed

lemma inv_close:
  assumes inv: "dispatch_inv s" and q: "dsTicket s q = Some t" "dsPhase s q \<noteq> Gone"
    and r: "behind s (tkKey t) q r"
  defines "s1 \<equiv> set_phase q Gone (node_complete q r (dsSeq s)) s"
  shows "\<And>p u. dsTicket s1 p = Some u \<Longrightarrow> ticket_inv s1 p u"
    "\<And>k p. open_ticket s1 k p \<longleftrightarrow> open_ticket s k p \<and> p \<noteq> q"
    "\<And>k n. behind s k q n \<Longrightarrow> behind s1 k q n"
proof -
  have tq: "ticket_inv s q t" using inv q by (simp add: dispatch_inv_def)
  have nodes: "sqNodes (dsSeq s1) = (sqNodes (dsSeq s))(q := (sqNodes (dsSeq s) q)\<lparr>dnRedirect := r, dnClosed := True\<rparr>)"
    "sqNext (dsSeq s1) = sqNext (dsSeq s)" "dsTicket s1 = dsTicket s" "dsPhase s1 = (dsPhase s)(q := Gone)"
    using tq q by (auto simp: s1_def node_complete_def ticket_inv_def)
  show op: "open_ticket s1 k p \<longleftrightarrow> open_ticket s k p \<and> p \<noteq> q" for k p
    by (auto simp: open_ticket_def nodes)
  have be: "behind s k p n \<Longrightarrow> behind s1 k p n" for k p n
    by (erule behind_mono) (auto simp: op nodes)
  then show "behind s k q n \<Longrightarrow> behind s1 k q n" for k n .
  show "ticket_inv s1 p u" if "dsTicket s1 p = Some u" for p u
  proof -
    have p: "dsTicket s p = Some u" using that nodes by simp
    then have "ticket_inv s p u" using inv by (simp add: dispatch_inv_def)
    then show ?thesis using be r p q by (cases "p = q") (auto simp: ticket_inv_def nodes)
  qed
qed

lemma ticket_inv_cong:
  "sqNodes (dsSeq s') = sqNodes (dsSeq s) \<Longrightarrow> sqNext (dsSeq s') = sqNext (dsSeq s) \<Longrightarrow> dsTicket s' = dsTicket s \<Longrightarrow>
   dsPhase s' = dsPhase s \<Longrightarrow> ticket_inv s' q t = ticket_inv s q t"
  using behind_cong [of s' s] by (simp add: ticket_inv_def open_ticket_def fun_eq_iff)

lemma inv_finish:
  assumes inv: "dispatch_inv s" and q: "dsTicket s q = Some t" "dsPhase s q \<in> {Ready, Dispatching}"
  shows "dispatch_inv (set_phase q Gone (ticket_finish t (dsSeq s)) s)"
proof -
  let ?s = "set_phase q Gone (ticket_finish t (dsSeq s)) s"
  let ?s1 = "set_phase q Gone (node_complete q None (dsSeq s)) s"
  have tq: "ticket_inv s q t" using inv q(1) by (simp add: dispatch_inv_def)
  have cur: "tkCurrent t = q" and none: "behind s (tkKey t) q None" and ng: "dsPhase s q \<noteq> Gone"
    using tq q(2) by (auto simp: ticket_inv_def)
  note c = inv_close [OF inv q(1) ng none]
  have same: "sqNodes (dsSeq ?s) = sqNodes (dsSeq ?s1)" "sqNext (dsSeq ?s) = sqNext (dsSeq ?s1)"
    "dsTicket ?s = dsTicket ?s1" "dsPhase ?s = dsPhase ?s1"
    by (auto simp: ticket_finish_def cur Let_def)
  have op: "open_ticket ?s k p \<longleftrightarrow> open_ticket s k p \<and> p \<noteq> q" for k p
    using c(2) [of k p] same by (simp add: open_ticket_def)
  have tails: "sqTails (dsSeq ?s) = (if sqTails (dsSeq s) (tkKey t) = Some q then (sqTails (dsSeq s))(tkKey t := None)
      else sqTails (dsSeq s))"
    by (auto simp: ticket_finish_def node_complete_def cur Let_def)
  have "tail_inv ?s k" for k
  proof -
    have "tail_inv s k" using inv by (simp add: dispatch_inv_def)
    moreover have "open_ticket s (tkKey t) q" using q(1) ng by (auto simp: open_ticket_def)
    moreover have "k \<noteq> tkKey t \<Longrightarrow> \<not> open_ticket s k q" using q(1) by (auto simp: open_ticket_def)
    moreover have "\<not> open_ticket s (tkKey t) p" if "p < q" for p using none that by (simp add: behind_def)
    ultimately show ?thesis unfolding tail_inv_def tails op
      by (cases "k = tkKey t"; cases "sqTails (dsSeq s) k") (auto simp: order_le_less)
  qed
  moreover have "ticket_inv ?s p u" if "dsTicket ?s p = Some u" for p u
    using c(1) that unfolding ticket_inv_cong [OF same] same(3) by blast
  moreover have "dsPhase ?s p = Gone" if "dsTicket ?s p = None" for p
    using that inv q by (auto simp: dispatch_inv_def)
  ultimately show ?thesis by (auto simp: dispatch_inv_def)
qed

lemma inv_finish_preserving:
  assumes inv: "dispatch_inv s" and q: "dsTicket s q = Some t" "dsPhase s q \<noteq> Gone"
  shows "\<exists>sq. finishPreservingPrevious t (dsSeq s) = Some sq \<and> dispatch_inv (set_phase q Gone sq s)"
proof -
  let ?s1 = "set_phase q Gone (node_complete q (tkPrevious t) (dsSeq s)) s"
  have tq: "ticket_inv s q t" using inv q(1) by (simp add: dispatch_inv_def)
  have cur: "tkCurrent t = q" and prev: "behind s (tkKey t) q (tkPrevious t)"
    using tq by (auto simp: ticket_inv_def)
  note c = inv_close [OF inv q prev]
  obtain p where p: "pendingFeishuDispatchNode (sqNodes (dsSeq ?s1)) (tkPrevious t) = Some p" "behind ?s1 (tkKey t) q p"
    "\<And>m. p = Some m \<Longrightarrow> open_ticket ?s1 (tkKey t) m"
    using pending_correct [OF c(1) c(3) [OF prev]] by blast
  define sq where "sq = (let s' = node_complete q (tkPrevious t) (dsSeq s) in
    if sqTails s' (tkKey t) = Some q then s'\<lparr>sqTails := (sqTails s')(tkKey t := p)\<rparr> else s')"
  have fin: "finishPreservingPrevious t (dsSeq s) = Some sq"
    using p(1) by (simp add: finishPreservingPrevious_def sq_def cur Let_def)
  let ?s = "set_phase q Gone sq s"
  have same: "sqNodes (dsSeq ?s) = sqNodes (dsSeq ?s1)" "sqNext (dsSeq ?s) = sqNext (dsSeq ?s1)"
    "dsTicket ?s = dsTicket ?s1" "dsPhase ?s = dsPhase ?s1"
    by (auto simp: sq_def Let_def)
  have op1: "open_ticket ?s k m \<longleftrightarrow> open_ticket ?s1 k m" for k m using same by (simp add: open_ticket_def)
  have op: "open_ticket ?s k m \<longleftrightarrow> open_ticket s k m \<and> m \<noteq> q" for k m using c(2) [of k m] op1 by simp
  have tails: "sqTails (dsSeq ?s) = (if sqTails (dsSeq s) (tkKey t) = Some q then (sqTails (dsSeq s))(tkKey t := p)
      else sqTails (dsSeq s))"
    by (auto simp: sq_def node_complete_def Let_def)
  have "tail_inv ?s k" for k
  proof (cases "k = tkKey t \<and> sqTails (dsSeq s) k = Some q")
    case True
    have le: "m < q" if "open_ticket ?s k m" for m
    proof -
      have "tail_inv s k" using inv by (simp add: dispatch_inv_def)
      then show ?thesis using that True unfolding op tail_inv_def by (auto simp: order_le_less)
    qed
    show ?thesis
    proof (cases p)
      case None
      then show ?thesis using True le p(2) unfolding tail_inv_def tails behind_def by (auto simp: op1)
    next
      case (Some m)
      then show ?thesis using True le p(2) p(3) [OF Some] unfolding tail_inv_def tails behind_def by (auto simp: op1)
    qed
  next
    case False
    have "tail_inv s k" using inv by (simp add: dispatch_inv_def)
    moreover have "open_ticket s (tkKey t) q" using q by (auto simp: open_ticket_def)
    moreover have "k \<noteq> tkKey t \<Longrightarrow> \<not> open_ticket s k q" using q(1) by (auto simp: open_ticket_def)
    ultimately show ?thesis using False unfolding tail_inv_def tails op
      by (cases "k = tkKey t"; cases "sqTails (dsSeq s) k") auto
  qed
  moreover have "ticket_inv ?s m u" if "dsTicket ?s m = Some u" for m u
    using c(1) that unfolding ticket_inv_cong [OF same] same(3) by blast
  moreover have "dsPhase ?s m = Gone" if "dsTicket ?s m = None" for m
    using that inv q by (auto simp: dispatch_inv_def)
  ultimately show ?thesis using fin by (auto simp: dispatch_inv_def)
qed

lemma inv_reserve:
  assumes inv: "dispatch_inv s" and r: "seq_reserve key operation (dsSeq s) = (Some t, sq)"
    and s': "dsSeq s' = sq" "dsTicket s' = (dsTicket s)(tkCurrent t \<mapsto> t)"
      "dsPhase s' = (dsPhase s)(tkCurrent t := Waiting (tkPrevious t))"
  shows "dispatch_inv s'"
proof -
  let ?k = "tkKey t" and ?n = "sqNext (dsSeq s)"
  have t: "tkCurrent t = ?n" "tkPrevious t = sqTails (dsSeq s) ?k" "sqTails sq = (sqTails (dsSeq s))(?k \<mapsto> ?n)"
    "sqNext sq = Suc ?n" "\<And>p. p \<noteq> ?n \<Longrightarrow> sqNodes sq p = sqNodes (dsSeq s) p"
    "\<not> dnClosed (sqNodes sq ?n)" "dnRedirect (sqNodes sq ?n) = None"
    using r by (auto simp: seq_reserve_def Let_def split: if_splits)
  have below: "p < ?n" if "dsTicket s p = Some u" for p u using inv that by (auto simp: dispatch_inv_def ticket_inv_def)
  have fresh: "dsTicket s ?n = None" using below by (cases "dsTicket s ?n") auto
  have op: "open_ticket s' k p \<longleftrightarrow> (if p = ?n then k = ?k else open_ticket s k p)" for k p
    using t(1) by (auto simp: open_ticket_def s')
  have be: "behind s' k p m" if "behind s k p m" "p \<le> ?n" for k p m
    by (rule behind_mono [OF that(1)]) (use that(2) t(1) fresh in \<open>auto simp: op s'\<close>)
  have tails: "tail_inv s k" for k using inv by (simp add: dispatch_inv_def)
  have prev: "behind s ?k ?n (tkPrevious t)"
    using tails [of ?k] below unfolding t(2) tail_inv_def behind_def open_ticket_def by (auto split: option.splits)
  have "ticket_inv s' p u" if "dsTicket s' p = Some u" for p u
  proof (cases "p = ?n")
    case True
    then show ?thesis using that t be [OF prev] by (simp add: ticket_inv_def s')
  next
    case False
    then have u: "dsTicket s p = Some u" using that t(1) by (simp add: s')
    then have "ticket_inv s p u" using inv by (simp add: dispatch_inv_def)
    then show ?thesis using False t(1,4,5) be [of _ p] below [OF u] by (auto simp: ticket_inv_def s')
  qed
  moreover have "tail_inv s' k" for k
  proof (cases "k = ?k")
    case True
    have "open_ticket s k p \<Longrightarrow> p \<le> ?n" for p using below by (auto simp: open_ticket_def less_imp_le)
    then show ?thesis using True t(3) by (auto simp: tail_inv_def op s')
  next
    case False
    moreover have "open_ticket s k p \<Longrightarrow> p \<noteq> ?n" for p using fresh by (auto simp: open_ticket_def)
    ultimately show ?thesis using t(3) tails [of k] by (auto simp: tail_inv_def op s' split: option.splits)
  qed
  moreover have "dsPhase s' p = Gone" if "dsTicket s' p = None" for p
    using that inv by (auto simp: dispatch_inv_def s' split: if_splits)
  ultimately show ?thesis by (auto simp: dispatch_inv_def)
qed

lemma ticket_there: "dispatch_inv s \<Longrightarrow> dsPhase s q \<noteq> Gone \<Longrightarrow> \<exists>t. dsTicket s q = Some t \<and> ticket_inv s q t"
  unfolding dispatch_inv_def by (cases "dsTicket s q") auto

lemma wait_round_behind:
  assumes inv: "dispatch_inv s" and q: "dsPhase s q = Waiting n" "dsTicket s q = Some t"
  shows "waitForFeishuDispatchNode (sqNodes (dsSeq s)) n = WaitNext m \<Longrightarrow> behind s (tkKey t) q (Some m)"
    "waitForFeishuDispatchNode (sqNodes (dsSeq s)) n = WaitDone \<Longrightarrow> behind s (tkKey t) q None"
proof -
  have b: "behind s (tkKey t) q n" using inv q by (auto simp: dispatch_inv_def ticket_inv_def)
  have f: "behind s (tkKey t) q (dnRedirect (sqNodes (dsSeq s) k))"
    if nk: "n = Some k" and gone: "dnRedirect (sqNodes (dsSeq s) k) \<noteq> None \<or> dnClosed (sqNodes (dsSeq s) k)" for k
  proof -
    obtain u where u: "dsTicket s k = Some u" using b nk by (auto simp: behind_def)
    then have "ticket_inv s k u" using inv by (simp add: dispatch_inv_def)
    then show ?thesis using behind_follow u b nk gone node_gone_iff by blast
  qed
  show "waitForFeishuDispatchNode (sqNodes (dsSeq s)) n = WaitNext m \<Longrightarrow> behind s (tkKey t) q (Some m)"
    using f by (fastforce simp: waitForFeishuDispatchNode_def split: option.splits if_splits)
  show "waitForFeishuDispatchNode (sqNodes (dsSeq s)) n = WaitDone \<Longrightarrow> behind s (tkKey t) q None"
    using f b by (fastforce simp: waitForFeishuDispatchNode_def split: option.splits if_splits)
qed

lemma dispatch_inv_step:
  assumes inv: "dispatch_inv s" and step: "dispatch_step s s'"
  shows "dispatch_inv s'"
  using step
proof cases
  case (reserved key operation t sq)
  then show ?thesis using inv_reserve [OF inv reserved(2)] by simp
next
  case (followed q n m)
  then obtain t where t: "dsTicket s q = Some t" using ticket_there [OF inv, of q] by auto
  have "behind s (tkKey t) q (Some m)" by (rule wait_round_behind(1) [OF inv followed(2) t followed(3)])
  then show ?thesis unfolding followed(1) by (intro inv_phase [OF inv t]) (use followed(2) in auto)
next
  case (wait_over q n)
  then obtain t where t: "dsTicket s q = Some t" using ticket_there [OF inv, of q] by auto
  have "behind s (tkKey t) q None" by (rule wait_round_behind(2) [OF inv wait_over(2) t wait_over(3)])
  then show ?thesis unfolding wait_over(1) by (intro inv_phase [OF inv t]) (use wait_over(2) in auto)
next
  case (wait_canceled q n t sq)
  then show ?thesis using inv_finish_preserving [OF inv, of q t] by auto
next
  case (admission_rejected q t)
  then show ?thesis using inv_finish [OF inv, of q t] by simp
next
  case (dispatched q)
  then obtain t where t: "dsTicket s q = Some t" "ticket_inv s q t" using ticket_there [OF inv, of q] by auto
  then have "behind s (tkKey t) q None" using dispatched(2) by (simp add: ticket_inv_def)
  then show ?thesis unfolding dispatched(1) by (intro inv_phase [OF inv t(1)]) (use dispatched(2) in auto)
next
  case (dispatch_returned q t)
  then show ?thesis using inv_finish [OF inv, of q t] by simp
next
  case (bypassed q n)
  then obtain t where t: "dsTicket s q = Some t" using ticket_there [OF inv, of q] by auto
  show ?thesis unfolding bypassed(1) by (intro inv_phase [OF inv t]) (use bypassed(2) in auto)
next
  case (bypass_returned q t sq)
  then show ?thesis using inv_finish_preserving [OF inv, of q t] by auto
qed

lemma dispatch_inv_init: "dispatch_init s \<Longrightarrow> dispatch_inv s"
  by (simp add: dispatch_init_def dispatch_inv_def tail_inv_def open_ticket_def newFeishuDispatchSequencer_def)

interpretation dispatch: invariant_system dispatch_init dispatch_step dispatch_inv
  by unfold_locales (auto intro: dispatch_inv_init dispatch_inv_step)

subsection \<open>Order, progress and no leak\<close>

text \<open>
  C34: messages of one window are dispatched one after the other in the order of their reservation. Whatever the
  goroutines do, a ticket that runs in its turn has no earlier ticket of its window that is
  still there: not one that waits, is about to run, runs, also beyond the end of its context, or
  runs out of turn. So two ordered dispatches of one window never overlap.
\<close>

theorem dispatch_in_order:
  assumes "reach dispatch_init dispatch_step s" and q: "dsTicket s q = Some t" "dsPhase s q \<in> {Ready, Dispatching}"
    and p: "p < q" "dsTicket s p = Some u" "tkKey u = tkKey t"
  shows "dsPhase s p = Gone"
proof -
  have "ticket_inv s q t" using dispatch.reach_inv [OF assms(1)] q(1) by (simp add: dispatch_inv_def)
  then have "behind s (tkKey t) q None" using q(2) unfolding ticket_inv_def by blast
  then show ?thesis using p by (auto simp: behind_def open_ticket_def)
qed

text \<open>
  C35: the waiting loops return and nothing is left behind. In every reachable state the search for the
  pending node terminates, for every ticket: it yields no node exactly when no earlier ticket of the
  window is left, and otherwise an open earlier one of the window, the latest there is; a
  ticket that gives up can always be taken out; and the map of the sequencer has an
  entry for a window exactly as long as a ticket of that window is there.
\<close>

theorem dispatch_queue_clean:
  assumes r: "reach dispatch_init dispatch_step s" and q: "dsTicket s q = Some t"
  shows "(\<exists>p. pendingFeishuDispatchNode (sqNodes (dsSeq s)) (tkPrevious t) = Some p \<and>
      (p = None \<longleftrightarrow> (\<forall>m < q. \<not> open_ticket s (tkKey t) m)) \<and>
      (\<forall>m. p = Some m \<longrightarrow> m < q \<and> open_ticket s (tkKey t) m \<and> (\<forall>k < q. open_ticket s (tkKey t) k \<longrightarrow> k \<le> m))) \<and>
    (dsPhase s q \<noteq> Gone \<longrightarrow> finishPreservingPrevious t (dsSeq s) \<noteq> None) \<and>
    (sqTails (dsSeq s) k = None \<longleftrightarrow> (\<forall>m. \<not> open_ticket s k m))"
proof -
  have inv: "dispatch_inv s" by (rule dispatch.reach_inv [OF r])
  have "behind s (tkKey t) q (tkPrevious t)" using inv q by (auto simp: dispatch_inv_def ticket_inv_def)
  then obtain p where p: "pendingFeishuDispatchNode (sqNodes (dsSeq s)) (tkPrevious t) = Some p" "behind s (tkKey t) q p"
    "\<And>m. p = Some m \<Longrightarrow> open_ticket s (tkKey t) m"
    using pending_correct [of s] inv unfolding dispatch_inv_def by blast
  have "(p = None \<longleftrightarrow> (\<forall>m < q. \<not> open_ticket s (tkKey t) m)) \<and>
      (\<forall>m. p = Some m \<longrightarrow> m < q \<and> open_ticket s (tkKey t) m \<and> (\<forall>k < q. open_ticket s (tkKey t) k \<longrightarrow> k \<le> m))"
    using p(2,3) by (cases p) (auto simp: behind_def)
  moreover have "dsPhase s q \<noteq> Gone \<longrightarrow> finishPreservingPrevious t (dsSeq s) \<noteq> None"
    using inv_finish_preserving [OF inv q] by auto
  moreover have "tail_inv s k" using inv by (simp add: dispatch_inv_def)
  then have "sqTails (dsSeq s) k = None \<longleftrightarrow> (\<forall>m. \<not> open_ticket s k m)" by (auto simp: tail_inv_def split: option.splits)
  ultimately show ?thesis using p(1) by blast
qed

text \<open>A window with two tickets: the first gave up, the second runs in its turn.\<close>

definition first_there :: dispatch_sys where
  "first_there = \<lparr>dsSeq = snd (seq_reserve ''w'' ''op'' newFeishuDispatchSequencer),
     dsTicket = [0 \<mapsto> \<lparr>tkKey = ''w'', tkPrevious = None, tkCurrent = 0\<rparr>], dsPhase = (\<lambda>_. Gone)(0 := Waiting None)\<rparr>"

definition first_gone :: dispatch_sys where
  "first_gone = set_phase 0 Gone (ticket_finish \<lparr>tkKey = ''w'', tkPrevious = None, tkCurrent = 0\<rparr> (dsSeq first_there))
     (set_phase 0 Ready (dsSeq first_there) first_there)"

definition second_ready :: dispatch_sys where
  "second_ready = first_gone\<lparr>dsSeq := snd (seq_reserve ''w'' ''op'' (dsSeq first_gone)),
     dsTicket := (dsTicket first_gone)(1 \<mapsto> \<lparr>tkKey = ''w'', tkPrevious = None, tkCurrent = 1\<rparr>),
     dsPhase := (dsPhase first_gone)(1 := Ready)\<rparr>"

lemma trim_w: "go_trim ''w'' = ''w''" by code_simp

lemma first_there_reach: "reach dispatch_init dispatch_step first_there"
proof -
  let ?i = "\<lparr>dsSeq = newFeishuDispatchSequencer, dsTicket = Map.empty, dsPhase = (\<lambda>_. Gone)\<rparr>"
  have "seq_reserve ''w'' ''op'' (dsSeq ?i) =
      (Some \<lparr>tkKey = ''w'', tkPrevious = None, tkCurrent = 0\<rparr>, snd (seq_reserve ''w'' ''op'' newFeishuDispatchSequencer))"
    by (simp add: seq_reserve_def newFeishuDispatchSequencer_def Let_def trim_w)
  then have "dispatch_step ?i first_there" using reserved by (fastforce simp: first_there_def)
  moreover have "reach dispatch_init dispatch_step ?i" by (rule reach_init) (simp add: dispatch_init_def)
  ultimately show ?thesis by (rule reach_step [rotated])
qed

lemma first_gone_reach: "reach dispatch_init dispatch_step first_gone"
proof -
  let ?r = "set_phase 0 Ready (dsSeq first_there) first_there"
  have "dispatch_step first_there ?r"
    by (rule wait_over [where n = None]) (simp_all add: first_there_def waitForFeishuDispatchNode_def)
  with first_there_reach have "reach dispatch_init dispatch_step ?r" by (rule reach_step)
  moreover have "dispatch_step ?r first_gone"
    using admission_rejected [of ?r 0 "\<lparr>tkKey = ''w'', tkPrevious = None, tkCurrent = 0\<rparr>"]
    by (simp add: first_gone_def) (simp add: first_there_def)
  ultimately show ?thesis by (rule reach_step)
qed

lemma second_ready_reach: "reach dispatch_init dispatch_step second_ready"
proof -
  let ?w = "set_phase 1 (Waiting None) (dsSeq second_ready) second_ready"
  let ?t = "\<lparr>tkKey = ''w'', tkPrevious = None, tkCurrent = 1\<rparr>"
  have "seq_reserve ''w'' ''op'' (dsSeq first_gone) = (Some ?t, snd (seq_reserve ''w'' ''op'' (dsSeq first_gone)))"
    by (simp add: first_gone_def first_there_def ticket_finish_def node_complete_def seq_reserve_def
        newFeishuDispatchSequencer_def Let_def trim_w)
  note st = reserved [OF this]
  have "?w = first_gone\<lparr>dsSeq := snd (seq_reserve ''w'' ''op'' (dsSeq first_gone)), dsTicket := (dsTicket first_gone)(1 \<mapsto> ?t),
      dsPhase := (dsPhase first_gone)(1 := Waiting None)\<rparr>"
    by (rule dispatch_sys.equality) (simp_all add: second_ready_def set_phase_def)
  with st have "dispatch_step first_gone ?w" by simp
  with first_gone_reach have "reach dispatch_init dispatch_step ?w" by (rule reach_step)
  moreover have "set_phase 1 Ready (dsSeq ?w) ?w = second_ready"
    by (rule dispatch_sys.equality) (simp_all add: second_ready_def set_phase_def)
  then have "dispatch_step ?w second_ready"
    using wait_over [of ?w 1 None] by (simp add: waitForFeishuDispatchNode_def)
  ultimately show ?thesis by (rule reach_step)
qed

theorem dispatch_in_order_witness: "dsPhase second_ready 0 = Gone"
  by (rule dispatch_in_order [OF second_ready_reach, of 1 "\<lparr>tkKey = ''w'', tkPrevious = None, tkCurrent = 1\<rparr>"
        0 "\<lparr>tkKey = ''w'', tkPrevious = None, tkCurrent = 0\<rparr>"])
     (simp_all add: second_ready_def first_gone_def first_there_def)

theorem dispatch_queue_clean_witness: "sqTails (dsSeq second_ready) ''w'' \<noteq> None"
proof -
  have "dsTicket second_ready 1 = Some \<lparr>tkKey = ''w'', tkPrevious = None, tkCurrent = 1\<rparr>" by (simp add: second_ready_def)
  moreover from this have "open_ticket second_ready ''w'' 1" by (simp add: open_ticket_def second_ready_def)
  ultimately show ?thesis using dispatch_queue_clean [OF second_ready_reach] by blast
qed

end
