(* ===== verification/Dedup.thy ===== *)
theory Dedup
  imports Prelude
begin

section \<open>Deduplication of platform events\<close>

text \<open>
  \<open>feishu/dedup.go\<close> and \<open>feishu/dedup_lease.go\<close>: the platform delivers events at least once, and the
  deduper lets each of them through once. An event has up to three keys. \<open>reserve\<close> claims them,
  \<open>complete\<close> turns the claim into a record that is written to the state file, \<open>release\<close> gives the claim
  up and \<open>renew\<close> keeps it alive during a long download. An owner is an address, here a number.

  The state file holds the times of the records as text with nanoseconds, which \<open>time.Parse\<close> reads
  back; a record that cannot be parsed is skipped and is absent here. The digest of a message is a
  parameter.
\<close>

subsection \<open>Keys\<close>

record FeishuSessionScope =
  scTenantID :: string
  scChatID :: string
  scThreadID :: string
  scRootID :: string
  scMessageID :: string
  scSenderOpenID :: string
  scChatType :: string

text \<open>The fields of the event the deduper reads; an absent header, message or field is an absent value.\<close>

record feishu_event =
  fvEventID :: "string option"
  fvContent :: "string option"
  fvCreateTime :: "string option"

definition stringValue :: "string option \<Rightarrow> string" where
  "stringValue v = (case v of None \<Rightarrow> [] | Some s \<Rightarrow> go_trim s)"

definition isFeishuGroupChat :: "string \<Rightarrow> bool" where
  "isFeishuGroupChat t \<longleftrightarrow> go_trim t = ''group'' \<or> go_trim t = ''topic_group''"

definition hasThreadFields :: "FeishuSessionScope \<Rightarrow> bool" where
  "hasThreadFields sc \<longleftrightarrow> \<not> blank (scRootID sc) \<or> \<not> blank (scThreadID sc)"

definition ResolveThreadKey :: "FeishuSessionScope \<Rightarrow> string" where
  "ResolveThreadKey sc =
     (if go_trim (scRootID sc) \<noteq> [] then go_trim (scRootID sc)
      else if go_trim (scThreadID sc) \<noteq> [] then go_trim (scThreadID sc)
      else go_trim (scMessageID sc))"

definition feishuEventID :: "feishu_event \<Rightarrow> string" where
  "feishuEventID ev = (case fvEventID ev of None \<Rightarrow> [] | Some i \<Rightarrow> go_trim i)"

definition feishuMessageCreateTime :: "feishu_event \<Rightarrow> string" where
  "feishuMessageCreateTime ev = stringValue (fvCreateTime ev)"

definition rawMessageContent :: "feishu_event \<Rightarrow> string" where
  "rawMessageContent ev = (case fvContent ev of None \<Rightarrow> [] | Some c \<Rightarrow> c)"

fun join_nul :: "string list \<Rightarrow> string" where
  "join_nul [] = []"
| "join_nul [p] = p"
| "join_nul (p # ps) = p @ CHR 0x00 # join_nul ps"

definition feishuContentDedupKey :: "(string \<Rightarrow> string) \<Rightarrow> feishu_event \<Rightarrow> FeishuSessionScope \<Rightarrow> string" where
  "feishuContentDedupKey hashString ev sc =
     (if \<not> isFeishuGroupChat (scChatType sc) \<or> blank (rawMessageContent ev) then []
      else
        let parts = [go_trim (scTenantID sc), go_trim (scChatID sc), ResolveThreadKey sc, go_trim (scSenderOpenID sc),
                     feishuMessageCreateTime ev, hashString (rawMessageContent ev)]
        in if [] \<in> set parts then [] else join_nul parts)"

definition feishuDedupKeys :: "(string \<Rightarrow> string) \<Rightarrow> feishu_event \<Rightarrow> FeishuSessionScope \<Rightarrow> string list" where
  "feishuDedupKeys hashString ev sc =
     (let i = feishuEventID ev; m = go_trim (scMessageID sc); c = feishuContentDedupKey hashString ev sc in
      (if i \<noteq> [] then [''event:'' @ i] else []) @
      (if m \<noteq> [] then [''message:'' @ m] else []) @
      (if c \<noteq> [] then [''content:'' @ c] else []))"

lemma feishuDedupKeys_distinct: "distinct (feishuDedupKeys hashString ev sc)"
  by (simp add: feishuDedupKeys_def Let_def)

subsection \<open>The deduper\<close>

definition feishuEventDedupTTL :: duration where
  "feishuEventDedupTTL = 10 * minute"

record feishuDedupClaim =
  fcOwner :: nat
  fcAt :: instant

record feishuEventDeduper =
  ddSeen :: "string \<rightharpoonup> instant"
  ddProcessing :: "string \<rightharpoonup> feishuDedupClaim"
  ddTtl :: duration
  ddStateFile :: string

record feishuDedupReservation =
  rvKeys :: "string list"
  rvOwner :: nat

definition newFeishuEventDeduper :: "duration \<Rightarrow> feishuEventDeduper" where
  "newFeishuEventDeduper ttl =
     \<lparr>ddSeen = Map.empty, ddProcessing = Map.empty, ddTtl = (if ttl \<le> 0 then feishuEventDedupTTL else ttl), ddStateFile = []\<rparr>"

definition cleanupLocked :: "instant \<Rightarrow> feishuEventDeduper \<Rightarrow> feishuEventDeduper" where
  "cleanupLocked now d =
     (let cutoff = now - ddTtl d in
      d\<lparr>ddSeen := (\<lambda>k. case ddSeen d k of None \<Rightarrow> None | Some t \<Rightarrow> if t < cutoff then None else Some t),
        ddProcessing := (\<lambda>k. case ddProcessing d k of None \<Rightarrow> None | Some c \<Rightarrow> if fcAt c < cutoff then None else Some c)\<rparr>)"

definition duplicate_key :: "instant \<Rightarrow> feishuEventDeduper \<Rightarrow> string \<Rightarrow> bool" where
  "duplicate_key now d k \<longleftrightarrow>
     (case ddSeen d k of None \<Rightarrow> False | Some t \<Rightarrow> now - t \<le> ddTtl d) \<or>
     (case ddProcessing d k of None \<Rightarrow> False | Some c \<Rightarrow> now - fcAt c \<le> ddTtl d)"

text \<open>The result of \<open>reserve\<close>: the reservation, if one was made, and whether the event is a duplicate.\<close>

definition dedup_reserve ::
  "instant \<Rightarrow> nat \<Rightarrow> string list \<Rightarrow> feishuEventDeduper \<Rightarrow> (feishuDedupReservation option \<times> bool) \<times> feishuEventDeduper" where
  "dedup_reserve now owner ks d =
     (if ks = [] then ((None, False), d)
      else
        let d1 = cleanupLocked now d in
        if list_ex (duplicate_key now d1) ks then ((None, True), d1)
        else ((Some \<lparr>rvKeys = ks, rvOwner = owner\<rparr>, False),
              d1\<lparr>ddProcessing := (\<lambda>k. if k \<in> set ks then Some \<lparr>fcOwner = owner, fcAt = now\<rparr> else ddProcessing d1 k)\<rparr>))"

subsection \<open>The state file\<close>

datatype dedup_file = NoFile | Unreadable | DedupState "string \<rightharpoonup> instant"

record dedup_fs =
  dfFile :: dedup_file
  dfTmp :: "(string \<rightharpoonup> instant) option option"

record dedup_write_env =
  dwMkdir :: bool
  dwMarshal :: bool
  dwCreateTemp :: bool
  dwChmod :: bool
  dwWrite :: bool
  dwSync :: bool
  dwClose :: bool
  dwRename :: bool

datatype dedup_error =
    DedupMkdir | DedupMarshal | DedupCreateTemp | DedupChmod | DedupWrite | DedupSync | DedupClose | DedupRename

definition writeFeishuEventDedupState ::
  "dedup_write_env \<Rightarrow> (string \<rightharpoonup> instant) \<Rightarrow> dedup_fs \<Rightarrow> dedup_error option \<times> dedup_fs" where
  "writeFeishuEventDedupState w seen fs =
     (if \<not> dwMkdir w then (Some DedupMkdir, fs)
      else if \<not> dwMarshal w then (Some DedupMarshal, fs)
      else if \<not> dwCreateTemp w then (Some DedupCreateTemp, fs)
      else
        let tmp = fs\<lparr>dfTmp := Some None\<rparr>; cleanup = (\<lambda>f. f\<lparr>dfTmp := None\<rparr>) in
        if \<not> dwChmod w then (Some DedupChmod, cleanup tmp)
        else if \<not> dwWrite w then (Some DedupWrite, cleanup tmp)
        else
          let full = tmp\<lparr>dfTmp := Some (Some seen)\<rparr> in
          if \<not> dwSync w then (Some DedupSync, cleanup full)
          else if \<not> dwClose w then (Some DedupClose, cleanup full)
          else if \<not> dwRename w then (Some DedupRename, cleanup full)
          else (None, full\<lparr>dfFile := DedupState seen, dfTmp := None\<rparr>))"

definition persistStateLocked ::
  "dedup_write_env \<Rightarrow> feishuEventDeduper \<Rightarrow> dedup_fs \<Rightarrow> dedup_error option \<times> dedup_fs" where
  "persistStateLocked w d fs =
     (if ddStateFile d = [] then (None, fs) else writeFeishuEventDedupState w (ddSeen d) fs)"

definition loadStateLocked :: "instant \<Rightarrow> dedup_fs \<Rightarrow> feishuEventDeduper \<Rightarrow> feishuEventDeduper" where
  "loadStateLocked now fs d =
     (if ddStateFile d = [] then d
      else (case dfFile fs of
          DedupState m \<Rightarrow>
            cleanupLocked now (d\<lparr>ddSeen := (\<lambda>k. case m k of
                Some t \<Rightarrow> if now - t \<le> ddTtl d then Some t else ddSeen d k
              | None \<Rightarrow> ddSeen d k)\<rparr>)
        | _ \<Rightarrow> d))"

definition setStateFile :: "string \<Rightarrow> instant \<Rightarrow> dedup_fs \<Rightarrow> feishuEventDeduper \<Rightarrow> feishuEventDeduper" where
  "setStateFile path now fs d = loadStateLocked now fs (d\<lparr>ddStateFile := go_trim path\<rparr>)"

subsection \<open>The end of a reservation\<close>

definition owns :: "feishuDedupReservation \<Rightarrow> feishuEventDeduper \<Rightarrow> string \<Rightarrow> bool" where
  "owns r d k \<longleftrightarrow> (case ddProcessing d k of None \<Rightarrow> False | Some c \<Rightarrow> fcOwner c = rvOwner r)"

text \<open>
  The keys of a reservation are distinct, so the loops of \<open>complete\<close> over them are one update of each map; the
  claims that are put back after a failed write are the ones that were there.
\<close>

definition complete ::
  "instant \<Rightarrow> dedup_write_env \<Rightarrow> feishuDedupReservation \<Rightarrow> feishuEventDeduper \<Rightarrow> dedup_fs
   \<Rightarrow> (dedup_error + bool) \<times> feishuEventDeduper \<times> dedup_fs" where
  "complete now w r d fs =
     (if \<not> list_all (owns r d) (rvKeys r) then (Inr False, d, fs)
      else
        let d1 = d\<lparr>ddProcessing := (\<lambda>k. if k \<in> set (rvKeys r) then None else ddProcessing d k),
                   ddSeen := (\<lambda>k. if k \<in> set (rvKeys r) then Some now else ddSeen d k)\<rparr>
        in case persistStateLocked w d1 fs of
             (None, fs') \<Rightarrow> (Inr True, d1, fs')
           | (Some err, fs') \<Rightarrow>
               (Inl err,
                d1\<lparr>ddSeen := (\<lambda>k. if k \<in> set (rvKeys r) then None else ddSeen d1 k),
                   ddProcessing := (\<lambda>k. if k \<in> set (rvKeys r) then ddProcessing d k else ddProcessing d1 k)\<rparr>,
                fs'))"

definition dedup_release :: "feishuDedupReservation \<Rightarrow> feishuEventDeduper \<Rightarrow> feishuEventDeduper" where
  "dedup_release r d =
     d\<lparr>ddProcessing := (\<lambda>k. if k \<in> set (rvKeys r) \<and> owns r d k then None else ddProcessing d k)\<rparr>"

definition renew :: "instant \<Rightarrow> feishuDedupReservation \<Rightarrow> feishuEventDeduper \<Rightarrow> bool \<times> feishuEventDeduper" where
  "renew now r d =
     (if list_all (\<lambda>k. case ddProcessing d k of
           None \<Rightarrow> False | Some c \<Rightarrow> fcOwner c = rvOwner r \<and> now - fcAt c \<le> ddTtl d) (rvKeys r)
      then (True, d\<lparr>ddProcessing := (\<lambda>k. if k \<in> set (rvKeys r) then map_option (\<lambda>c. c\<lparr>fcAt := now\<rparr>) (ddProcessing d k)
                                       else ddProcessing d k)\<rparr>)
      else (False, d))"

definition isDuplicate ::
  "instant \<Rightarrow> instant \<Rightarrow> nat \<Rightarrow> dedup_write_env \<Rightarrow> string list \<Rightarrow> feishuEventDeduper \<Rightarrow> dedup_fs
   \<Rightarrow> bool \<times> feishuEventDeduper \<times> dedup_fs" where
  "isDuplicate now now' owner w ks d fs =
     (case dedup_reserve now owner ks d of
        ((r, dup), d1) \<Rightarrow>
          (case r of
             None \<Rightarrow> (dup, d1, fs)
           | Some r \<Rightarrow>
               (case complete now' w r d1 fs of
                  (Inl err, d2, fs') \<Rightarrow> (dup, dedup_release r d2, fs')
                | (Inr _, d2, fs') \<Rightarrow> (dup, d2, fs'))))"

subsection \<open>Events side by side\<close>

text \<open>
  The deduper in the program: its operations are atomic (one mutex), but each reads the clock before
  it enters, so it works with an instant \<open>now\<close> that may already be past. Two histories are recorded: when the claims of an
  owner were registered, and the completed events with their keys, the time of their registration and the time stamp of
  their completion. After a crash the reservations are gone and the deduper is loaded from the state file.
\<close>

record completion =
  cpKeys :: "string list"
  cpBorn :: instant
  cpAt :: instant

record dedup_sys =
  dyD :: feishuEventDeduper
  dyFS :: dedup_fs
  dyClock :: instant
  dyNext :: nat
  dyRes :: "nat \<rightharpoonup> feishuDedupReservation"
  dyBorn :: "nat \<Rightarrow> instant"
  dyLog :: "completion list"

inductive dedup_step :: "dedup_sys \<Rightarrow> dedup_sys \<Rightarrow> bool" where
  clock_advances: "dyClock s \<le> c \<Longrightarrow> dedup_step s (s\<lparr>dyClock := c\<rparr>)"
| event_reserved: "now \<le> dyClock s \<Longrightarrow> distinct ks \<Longrightarrow> dedup_reserve now (dyNext s) ks (dyD s) = ((Some r, False), d) \<Longrightarrow>
    dedup_step s (s\<lparr>dyD := d, dyNext := Suc (dyNext s), dyRes := (dyRes s)(dyNext s \<mapsto> r),
      dyBorn := (dyBorn s)(dyNext s := dyClock s)\<rparr>)"
| event_refused: "now \<le> dyClock s \<Longrightarrow> dedup_reserve now (dyNext s) ks (dyD s) = ((None, dup), d) \<Longrightarrow>
    dedup_step s (s\<lparr>dyD := d\<rparr>)"
| event_completed: "now \<le> dyClock s \<Longrightarrow> dyRes s q = Some r \<Longrightarrow> complete now w r (dyD s) (dyFS s) = (Inr True, d, fs) \<Longrightarrow>
    dedup_step s (s\<lparr>dyD := d, dyFS := fs, dyLog := dyLog s @ [\<lparr>cpKeys = rvKeys r, cpBorn = dyBorn s q, cpAt = now\<rparr>]\<rparr>)"
| completion_failed: "now \<le> dyClock s \<Longrightarrow> dyRes s q = Some r \<Longrightarrow> complete now w r (dyD s) (dyFS s) = (res, d, fs) \<Longrightarrow>
    res \<noteq> Inr True \<Longrightarrow> dedup_step s (s\<lparr>dyD := d, dyFS := fs\<rparr>)"
| event_released: "dyRes s q = Some r \<Longrightarrow> dedup_step s (s\<lparr>dyD := dedup_release r (dyD s)\<rparr>)"
| event_renewed: "now \<le> dyClock s \<Longrightarrow> dyRes s q = Some r \<Longrightarrow> dedup_step s (s\<lparr>dyD := snd (renew now r (dyD s))\<rparr>)"
| process_restarted: "now \<le> dyClock s \<Longrightarrow>
    dedup_step s (s\<lparr>dyD := setStateFile (ddStateFile (dyD s)) now (dyFS s) (newFeishuEventDeduper (ddTtl (dyD s))),
      dyRes := Map.empty\<rparr>)"

inductive_cases dedup_stepE: "dedup_step s s'"

text \<open>The program starts with a state file configured, on whatever an earlier run left in it.\<close>

definition dedup_init :: "dedup_sys \<Rightarrow> bool" where
  "dedup_init s \<longleftrightarrow> (\<exists>path now fs ttl. \<not> blank path \<and> dfTmp fs = None \<and> s =
     \<lparr>dyD = setStateFile path now fs (newFeishuEventDeduper ttl), dyFS = fs, dyClock = now, dyNext = 0,
      dyRes = Map.empty, dyBorn = (\<lambda>_. 0), dyLog = []\<rparr>)"

subsection \<open>The invariant\<close>

definition expired :: "dedup_sys \<Rightarrow> instant \<Rightarrow> bool" where
  "expired s t \<longleftrightarrow> t + ddTtl (dyD s) < dyClock s"

definition file_knows :: "dedup_fs \<Rightarrow> string \<Rightarrow> instant \<Rightarrow> bool" where
  "file_knows fs k t \<longleftrightarrow> (case dfFile fs of DedupState m \<Rightarrow> m k = Some t | _ \<Rightarrow> False)"

definition remembers :: "dedup_sys \<Rightarrow> bool" where
  "remembers s \<longleftrightarrow> (\<forall>e \<in> set (dyLog s). \<forall>k \<in> set (cpKeys e).
     expired s (cpAt e) \<or> (\<exists>t. ddSeen (dyD s) k = Some t \<and> cpAt e \<le> t))"

definition claims_fresh :: "dedup_sys \<Rightarrow> bool" where
  "claims_fresh s \<longleftrightarrow> (\<forall>e \<in> set (dyLog s). \<forall>k \<in> set (cpKeys e). \<forall>c. ddProcessing (dyD s) k = Some c \<longrightarrow>
     cpAt e + ddTtl (dyD s) < dyBorn s (fcOwner c))"

definition apart :: "duration \<Rightarrow> completion list \<Rightarrow> bool" where
  "apart ttl = sorted_wrt (\<lambda>e f. \<forall>k \<in> set (cpKeys e) \<inter> set (cpKeys f). cpAt e + ttl < cpBorn f)"

definition dedup_inv :: "dedup_sys \<Rightarrow> bool" where
  "dedup_inv s \<longleftrightarrow>
     go_trim (ddStateFile (dyD s)) = ddStateFile (dyD s) \<and> ddStateFile (dyD s) \<noteq> [] \<and> 0 < ddTtl (dyD s) \<and>
     dfTmp (dyFS s) = None \<and>
     (\<forall>k t. ddSeen (dyD s) k = Some t \<longrightarrow> file_knows (dyFS s) k t) \<and>
     (\<forall>k c. ddProcessing (dyD s) k = Some c \<longrightarrow> ddSeen (dyD s) k = None \<and> fcOwner c < dyNext s \<and> dyBorn s (fcOwner c) \<le> dyClock s) \<and>
     (\<forall>q r. dyRes s q = Some r \<longrightarrow> rvOwner r = q \<and> q < dyNext s) \<and>
     remembers s \<and> claims_fresh s \<and> apart (ddTtl (dyD s)) (dyLog s)"

lemma dedup_invD:
  assumes "dedup_inv s"
  shows "go_trim (ddStateFile (dyD s)) = ddStateFile (dyD s)" "ddStateFile (dyD s) \<noteq> []" "0 < ddTtl (dyD s)" "dfTmp (dyFS s) = None"
    "ddSeen (dyD s) k = Some t \<Longrightarrow> file_knows (dyFS s) k t"
    "ddProcessing (dyD s) k = Some c \<Longrightarrow> ddSeen (dyD s) k = None \<and> fcOwner c < dyNext s \<and> dyBorn s (fcOwner c) \<le> dyClock s"
    "dyRes s q = Some r \<Longrightarrow> rvOwner r = q \<and> q < dyNext s"
    "remembers s" "claims_fresh s" "apart (ddTtl (dyD s)) (dyLog s)"
  using assms unfolding dedup_inv_def by blast+

lemma dedup_invI:
  assumes "go_trim (ddStateFile (dyD s)) = ddStateFile (dyD s)" "ddStateFile (dyD s) \<noteq> []" "0 < ddTtl (dyD s)" "dfTmp (dyFS s) = None"
    "\<And>k t. ddSeen (dyD s) k = Some t \<Longrightarrow> file_knows (dyFS s) k t"
    "\<And>k c. ddProcessing (dyD s) k = Some c \<Longrightarrow> ddSeen (dyD s) k = None \<and> fcOwner c < dyNext s \<and> dyBorn s (fcOwner c) \<le> dyClock s"
    "\<And>q r. dyRes s q = Some r \<Longrightarrow> rvOwner r = q \<and> q < dyNext s"
    "remembers s" "claims_fresh s" "apart (ddTtl (dyD s)) (dyLog s)"
  shows "dedup_inv s"
  using assms unfolding dedup_inv_def by blast

lemma cleanup_simps [simp]:
  "ddSeen (cleanupLocked now d) k = Some t \<longleftrightarrow> ddSeen d k = Some t \<and> now - ddTtl d \<le> t"
  "ddProcessing (cleanupLocked now d) k = Some c \<longleftrightarrow> ddProcessing d k = Some c \<and> now - ddTtl d \<le> fcAt c"
  "ddTtl (cleanupLocked now d) = ddTtl d" "ddStateFile (cleanupLocked now d) = ddStateFile d"
  by (auto simp: cleanupLocked_def Let_def split: option.splits)

text \<open>A new state of the deduper that forgets only what has expired, and only claims of owners that had them, keeps the invariant.\<close>

lemma inv_forget:
  assumes inv: "dedup_inv s" and d: "ddTtl d = ddTtl (dyD s)" "ddStateFile d = ddStateFile (dyD s)"
    and seen: "\<And>k t. ddSeen d k = Some t \<Longrightarrow> file_knows (dyFS s) k t"
    and lost: "\<And>k t. ddSeen (dyD s) k = Some t \<Longrightarrow> ddSeen d k = Some t \<or> t + ddTtl (dyD s) < dyClock s"
    and proc: "\<And>k c. ddProcessing d k = Some c \<Longrightarrow>
      ddSeen d k = None \<and> (\<exists>c'. ddProcessing (dyD s) k = Some c' \<and> fcOwner c' = fcOwner c)"
  shows "dedup_inv (s\<lparr>dyD := d\<rparr>)"
proof (rule dedup_invI, goal_cases)
  case (6 k c)
  then show ?case using proc [of k c] dedup_invD(6) [OF inv, of k] by auto
next
  case 8
  have "expired (s\<lparr>dyD := d\<rparr>) (cpAt e) \<or> (\<exists>t. ddSeen d k = Some t \<and> cpAt e \<le> t)"
    if "e \<in> set (dyLog s)" "k \<in> set (cpKeys e)" for e k
    using dedup_invD(8) [OF inv] that lost [of k] d unfolding remembers_def expired_def by fastforce
  then show ?case by (simp add: remembers_def)
next
  case 9
  have "cpAt e + ddTtl d < dyBorn s (fcOwner c)" if "e \<in> set (dyLog s)" "k \<in> set (cpKeys e)" "ddProcessing d k = Some c" for e k c
    using dedup_invD(9) [OF inv] that proc [of k c] d unfolding claims_fresh_def by force
  then show ?case by (simp add: claims_fresh_def)
qed (use dedup_invD [OF inv] d seen in auto)

lemma inv_cleanup:
  assumes inv: "dedup_inv s" and now: "now \<le> dyClock s"
  shows "dedup_inv (s\<lparr>dyD := cleanupLocked now (dyD s)\<rparr>)"
proof (rule inv_forget [OF inv])
  fix k c assume "ddProcessing (cleanupLocked now (dyD s)) k = Some c"
  then have c: "ddProcessing (dyD s) k = Some c" by simp
  have "ddSeen (cleanupLocked now (dyD s)) k = None" using dedup_invD(6) [OF inv c] by (simp add: cleanupLocked_def Let_def)
  then show "ddSeen (cleanupLocked now (dyD s)) k = None \<and> (\<exists>c'. ddProcessing (dyD s) k = Some c' \<and> fcOwner c' = fcOwner c)"
    using c by auto
next
  fix k t assume "ddSeen (dyD s) k = Some t"
  then show "ddSeen (cleanupLocked now (dyD s)) k = Some t \<or> t + ddTtl (dyD s) < dyClock s" using now by auto
qed (use dedup_invD(5) [OF inv] in auto)

lemma loaded:
  assumes "\<not> blank path"
  shows "ddTtl (setStateFile path now fs (newFeishuEventDeduper ttl)) = (if ttl \<le> 0 then feishuEventDedupTTL else ttl)"
    "ddStateFile (setStateFile path now fs (newFeishuEventDeduper ttl)) = go_trim path"
    "ddProcessing (setStateFile path now fs (newFeishuEventDeduper ttl)) k \<noteq> Some c"
    "ddSeen (setStateFile path now fs (newFeishuEventDeduper ttl)) k = Some t \<longleftrightarrow>
       file_knows fs k t \<and> now - t \<le> (if ttl \<le> 0 then feishuEventDedupTTL else ttl)"
  using assms
  by (auto simp: setStateFile_def loadStateLocked_def newFeishuEventDeduper_def file_knows_def
      split: dedup_file.splits option.splits if_splits)

lemma dedup_inv_restart:
  assumes inv: "dedup_inv s" and now: "now \<le> dyClock s"
  shows "dedup_inv (s\<lparr>dyD := setStateFile (ddStateFile (dyD s)) now (dyFS s) (newFeishuEventDeduper (ddTtl (dyD s))), dyRes := Map.empty\<rparr>)"
proof -
  let ?d = "setStateFile (ddStateFile (dyD s)) now (dyFS s) (newFeishuEventDeduper (ddTtl (dyD s)))"
  note i = dedup_invD(1-3) [OF inv]
  have d: "ddTtl ?d = ddTtl (dyD s)" "ddStateFile ?d = ddStateFile (dyD s)" "ddProcessing ?d k \<noteq> Some c"
    "ddSeen ?d k = Some t \<longleftrightarrow> file_knows (dyFS s) k t \<and> now - t \<le> ddTtl (dyD s)" for k c t
    using i loaded [of "ddStateFile (dyD s)"] by (auto simp: blank_def simp del: trim_eq_Nil_iff)
  have "dedup_inv (s\<lparr>dyD := ?d\<rparr>)"
  proof (rule inv_forget [OF inv])
    fix k t assume "ddSeen (dyD s) k = Some t"
    then show "ddSeen ?d k = Some t \<or> t + ddTtl (dyD s) < dyClock s" using dedup_invD(5) [OF inv] d(4) now by auto
  qed (use d in auto)
  then show ?thesis by (auto simp: dedup_inv_def remembers_def claims_fresh_def expired_def)
qed

lemma dedup_inv_reserve:
  assumes inv: "dedup_inv s" and now: "now \<le> dyClock s"
    and r: "dedup_reserve now (dyNext s) ks (dyD s) = ((Some r, False), d)"
  shows "dedup_inv (s\<lparr>dyD := d, dyNext := Suc (dyNext s), dyRes := (dyRes s)(dyNext s \<mapsto> r), dyBorn := (dyBorn s)(dyNext s := dyClock s)\<rparr>)"
proof -
  let ?c = "cleanupLocked now (dyD s)" and ?new = "\<lparr>fcOwner = dyNext s, fcAt = now\<rparr>"
  have free: "\<not> duplicate_key now ?c k" if "k \<in> set ks" for k
    using r that by (auto simp: dedup_reserve_def Let_def list_ex_iff split: if_splits)
  have r': "r = \<lparr>rvKeys = ks, rvOwner = dyNext s\<rparr>"
    and d: "d = ?c\<lparr>ddProcessing := (\<lambda>k. if k \<in> set ks then Some ?new else ddProcessing ?c k)\<rparr>"
    using r by (auto simp: dedup_reserve_def Let_def split: if_splits)
  have unseen: "ddSeen ?c k = None" if "k \<in> set ks" for k
    using free [OF that] cleanup_simps(1) [of now "dyD s" k]
    by (cases "ddSeen ?c k") (auto simp: duplicate_key_def)
  note i = inv_cleanup [OF inv now]
  note I = dedup_invD [OF i, simplified dedup_sys.simps]
  have old: "fcOwner c \<noteq> dyNext s" if "ddProcessing ?c k = Some c" for k c using I(6) [of k c] that by auto
  show ?thesis
  proof (rule dedup_invI, goal_cases)
    case (5 k t)
    then show ?case using I(5) [of k t] unfolding d by simp
  next
    case (6 k c)
    then show ?case using I(6) [of k c] unseen old [of k c] unfolding d by (auto simp del: cleanup_simps(1,2) split: if_splits)
  next
    case 8
    then show ?case using I(8) unfolding d by (simp add: remembers_def expired_def)
  next
    case 9
    have "cpAt e + ddTtl (dyD s) < dyClock s" if "e \<in> set (dyLog s)" "k \<in> set (cpKeys e)" "k \<in> set ks" for e k
      using I(8) that unseen [OF that(3)] unfolding remembers_def expired_def by (fastforce simp del: cleanup_simps(1,2))
    then show ?case using I(9) old unfolding d by (auto simp: claims_fresh_def simp del: cleanup_simps(1,2) split: if_splits)
  next
    case 7
    then show ?case using dedup_invD(7) [OF inv] r' by (auto split: if_splits intro: less_SucI)
  qed (use I d in auto)
qed

lemma write_error_keeps: "writeFeishuEventDedupState w m fs = (Some err, fs') \<Longrightarrow> dfTmp fs = None \<Longrightarrow> fs' = fs"
  by (auto simp: writeFeishuEventDedupState_def Let_def split: if_splits)

lemma write_ok: "writeFeishuEventDedupState w m fs = (None, fs') \<Longrightarrow> dfFile fs' = DedupState m \<and> dfTmp fs' = None"
  by (auto simp: writeFeishuEventDedupState_def Let_def split: if_splits)

lemma complete_failed_keeps:
  assumes inv: "dedup_inv s" and c: "complete now w r (dyD s) (dyFS s) = (res, d, fs)" "res \<noteq> Inr True"
  shows "d = dyD s \<and> fs = dyFS s"
proof (cases "list_all (owns r (dyD s)) (rvKeys r)")
  case False
  then show ?thesis using c by (simp add: complete_def)
next
  case True
  then have "ddSeen (dyD s) k = None" if "k \<in> set (rvKeys r)" for k
    using that dedup_invD(6) [OF inv, of k] by (auto simp: list_all_iff owns_def split: option.splits)
  then have "(\<lambda>k. if k \<in> set (rvKeys r) then None else ddSeen (dyD s) k) = ddSeen (dyD s)" by (simp add: fun_eq_iff)
  moreover have "(\<lambda>k. if k \<in> set (rvKeys r) then ddProcessing (dyD s) k
       else if k \<in> set (rvKeys r) then None else ddProcessing (dyD s) k) = ddProcessing (dyD s)" by (simp add: fun_eq_iff)
  ultimately show ?thesis
    using c True dedup_invD(2,4) [OF inv] write_error_keeps
    by (auto simp: complete_def Let_def persistStateLocked_def cong: if_cong split: prod.splits option.splits)
qed

lemma inv_complete:
  assumes inv: "dedup_inv s" and now: "now \<le> dyClock s" and q: "dyRes s q = Some r"
    and c: "complete now w r (dyD s) (dyFS s) = (Inr True, d, fs)"
  shows "dedup_inv (s\<lparr>dyD := d, dyFS := fs, dyLog := dyLog s @ [\<lparr>cpKeys = rvKeys r, cpBorn = dyBorn s q, cpAt = now\<rparr>]\<rparr>)"
proof -
  have own: "owns r (dyD s) k" if "k \<in> set (rvKeys r)" for k
    using c that by (auto simp: complete_def list_all_iff split: if_splits)
  have d: "d = (dyD s)\<lparr>ddProcessing := (\<lambda>k. if k \<in> set (rvKeys r) then None else ddProcessing (dyD s) k),
       ddSeen := (\<lambda>k. if k \<in> set (rvKeys r) then Some now else ddSeen (dyD s) k)\<rparr>"
    and fs: "dfFile fs = DedupState (ddSeen d)" "dfTmp fs = None"
    using c dedup_invD(2) [OF inv] write_ok
    by (auto simp: complete_def Let_def persistStateLocked_def split: if_splits prod.splits option.splits)
  have late: "cpAt e + ddTtl (dyD s) < dyBorn s q \<and> dyBorn s q \<le> dyClock s"
    if e: "e \<in> set (dyLog s)" "k \<in> set (cpKeys e)" and k: "k \<in> set (rvKeys r)" for e k
  proof -
    obtain cl where cl: "ddProcessing (dyD s) k = Some cl" "fcOwner cl = q"
      using own [OF k] dedup_invD(7) [OF inv q] by (auto simp: owns_def split: option.splits)
    then show ?thesis using dedup_invD(9) [OF inv] dedup_invD(6) [OF inv cl(1)] e cl(2) unfolding claims_fresh_def by blast
  qed
  show ?thesis
  proof (rule dedup_invI, goal_cases)
    case (6 k c)
    then show ?case using dedup_invD(6) [OF inv, of k c] unfolding d by (simp split: if_splits)
  next
    case 8
    have "expired s (cpAt e) \<or> (\<exists>t. ddSeen d k = Some t \<and> cpAt e \<le> t)" if "e \<in> set (dyLog s)" "k \<in> set (cpKeys e)" for e k
      using dedup_invD(8) [OF inv] late [OF that] that unfolding remembers_def expired_def d
      by (cases "k \<in> set (rvKeys r)") auto
    then have "\<forall>e \<in> set (dyLog s). \<forall>k \<in> set (cpKeys e). expired s (cpAt e) \<or> (\<exists>t. ddSeen d k = Some t \<and> cpAt e \<le> t)" by blast
    then show ?case by (simp add: remembers_def expired_def d)
  next
    case 9
    then show ?case using dedup_invD(9) [OF inv] unfolding d by (auto simp: claims_fresh_def)
  next
    case 10
    then show ?case using dedup_invD(10) [OF inv] late unfolding d by (auto simp: apart_def sorted_wrt_append)
  qed (use dedup_invD [OF inv] d fs in \<open>auto simp: file_knows_def\<close>)
qed

lemma inv_release:
  assumes inv: "dedup_inv s"
  shows "dedup_inv (s\<lparr>dyD := dedup_release r (dyD s)\<rparr>)" "dedup_inv (s\<lparr>dyD := snd (renew now r (dyD s))\<rparr>)"
  using dedup_invD(5,6) [OF inv] inv
  by (auto intro!: inv_forget [OF inv] simp: dedup_release_def renew_def split: if_splits)

lemma inv_refused:
  assumes inv: "dedup_inv s" and now: "now \<le> dyClock s" and r: "dedup_reserve now q ks (dyD s) = ((None, dup), d)"
  shows "dedup_inv (s\<lparr>dyD := d\<rparr>)"
proof -
  have "d = dyD s \<or> d = cleanupLocked now (dyD s)" using r by (auto simp: dedup_reserve_def Let_def split: if_splits)
  then show ?thesis using inv inv_cleanup [OF inv now] by auto
qed

lemma dedup_inv_step: "dedup_inv s \<Longrightarrow> dedup_step s s' \<Longrightarrow> dedup_inv s'"
proof (erule dedup_stepE, goal_cases)
  case (1 c)
  have "expired s t \<Longrightarrow> t + ddTtl (dyD s) < c" for t using 1(3) by (auto simp: expired_def)
  then show ?case unfolding 1(2) using 1(3)
    by (intro dedup_invI) (use dedup_invD [OF 1(1)] in \<open>fastforce simp: remembers_def expired_def claims_fresh_def\<close>)+
next
  case (5 now q r w res d fs)
  then show ?case using complete_failed_keeps [OF 5(1,5,6)] by simp
qed (simp_all add: dedup_inv_reserve inv_refused inv_complete inv_release dedup_inv_restart)

lemma dedup_inv_init:
  assumes "dedup_init s"
  shows "dedup_inv s"
proof -
  obtain path now fs ttl where p: "\<not> blank path" "dfTmp fs = None"
    "s = \<lparr>dyD = setStateFile path now fs (newFeishuEventDeduper ttl), dyFS = fs, dyClock = now, dyNext = 0,
      dyRes = Map.empty, dyBorn = (\<lambda>_. 0), dyLog = []\<rparr>"
    using assms unfolding dedup_init_def by blast
  show ?thesis
    by (rule dedup_invI) (use p(1,2) in \<open>simp_all add: p(3) loaded [OF p(1)] remembers_def claims_fresh_def apart_def
      feishuEventDedupTTL_def minute_def second_def\<close>)
qed

interpretation dedup: invariant_system dedup_init dedup_step dedup_inv
  by unfold_locales (auto intro: dedup_inv_init dedup_inv_step)

text \<open>
  C37: an event is let through once. Whatever the interleaving of deliveries, renewals, failures and restarts of the
  program: if two completed events share a key, the second was registered more than the time to live after
  the time stamp of the first. A completed event stays in the state file, with its time or a later one, until it has expired, so
  that a restart does not forget it. A completion that reports an error or a lost claim leaves the
  deduper and the state file as they were, so that a delivery can be tried again.
\<close>

theorem event_processed_once:
  assumes r: "reach dedup_init dedup_step s"
  shows "(\<forall>i j k. i < j \<and> j < length (dyLog s) \<and> k \<in> set (cpKeys (dyLog s ! i)) \<and> k \<in> set (cpKeys (dyLog s ! j)) \<longrightarrow>
       cpAt (dyLog s ! i) + ddTtl (dyD s) < cpBorn (dyLog s ! j)) \<and>
    (\<forall>e \<in> set (dyLog s). \<forall>k \<in> set (cpKeys e). cpAt e + ddTtl (dyD s) < dyClock s \<or>
       (\<exists>m t. dfFile (dyFS s) = DedupState m \<and> m k = Some t \<and> cpAt e \<le> t)) \<and>
    (\<forall>now w r res d fs. complete now w r (dyD s) (dyFS s) = (res, d, fs) \<and> res \<noteq> Inr True \<longrightarrow> d = dyD s \<and> fs = dyFS s)"
proof -
  have inv: "dedup_inv s" by (rule dedup.reach_inv [OF r])
  have "\<exists>m t. dfFile (dyFS s) = DedupState m \<and> m k = Some t \<and> cpAt e \<le> t"
    if "e \<in> set (dyLog s)" "k \<in> set (cpKeys e)" "\<not> cpAt e + ddTtl (dyD s) < dyClock s" for e k
    using dedup_invD(8) [OF inv] dedup_invD(5) [OF inv, of k] that unfolding remembers_def expired_def file_knows_def
    by (fastforce split: dedup_file.splits)
  moreover have "cpAt (dyLog s ! i) + ddTtl (dyD s) < cpBorn (dyLog s ! j)"
    if "i < j" "j < length (dyLog s)" "k \<in> set (cpKeys (dyLog s ! i))" "k \<in> set (cpKeys (dyLog s ! j))" for i j k
    using dedup_invD(10) [OF inv] that unfolding apart_def sorted_wrt_iff_nth_less by blast
  ultimately show ?thesis using complete_failed_keeps [OF inv] by blast
qed

definition good_dedup_write :: dedup_write_env where
  "good_dedup_write = \<lparr>dwMkdir = True, dwMarshal = True, dwCreateTemp = True, dwChmod = True, dwWrite = True,
     dwSync = True, dwClose = True, dwRename = True\<rparr>"

definition dedup_start :: dedup_sys where
  "dedup_start = \<lparr>dyD = setStateFile ''f'' 0 \<lparr>dfFile = NoFile, dfTmp = None\<rparr> (newFeishuEventDeduper 5),
     dyFS = \<lparr>dfFile = NoFile, dfTmp = None\<rparr>, dyClock = 0, dyNext = 0, dyRes = Map.empty, dyBorn = (\<lambda>_. 0), dyLog = []\<rparr>"

definition dedup_claimed :: dedup_sys where
  "dedup_claimed = dedup_start\<lparr>dyD := snd (dedup_reserve 0 0 [''event:e''] (dyD dedup_start)), dyNext := 1,
     dyRes := [0 \<mapsto> \<lparr>rvKeys = [''event:e''], rvOwner = 0\<rparr>], dyBorn := (dyBorn dedup_start)(0 := 0)\<rparr>"

definition dedup_completed :: dedup_sys where
  "dedup_completed = (case complete 0 good_dedup_write \<lparr>rvKeys = [''event:e''], rvOwner = 0\<rparr> (dyD dedup_claimed) (dyFS dedup_claimed) of
     (_, d, fs) \<Rightarrow> dedup_claimed\<lparr>dyD := d, dyFS := fs, dyLog := [\<lparr>cpKeys = [''event:e''], cpBorn = 0, cpAt = 0\<rparr>]\<rparr>)"

lemma dedup_start_facts: "\<not> blank ''f''" "dyD dedup_start = (newFeishuEventDeduper 5)\<lparr>ddStateFile := ''f''\<rparr>" "dyNext dedup_start = 0"
proof -
  show p: "\<not> blank ''f''" by code_simp
  have "go_trim ''f'' = ''f''" by code_simp
  then show "dyD dedup_start = (newFeishuEventDeduper 5)\<lparr>ddStateFile := ''f''\<rparr>" using p
    by (simp add: dedup_start_def setStateFile_def loadStateLocked_def)
qed (simp add: dedup_start_def)

lemma dedup_claimed_step: "dedup_step dedup_start dedup_claimed" "dyRes dedup_claimed 0 = Some \<lparr>rvKeys = [''event:e''], rvOwner = 0\<rparr>"
proof -
  have "dedup_reserve 0 (dyNext dedup_start) [''event:e''] (dyD dedup_start) =
      ((Some \<lparr>rvKeys = [''event:e''], rvOwner = 0\<rparr>, False), dyD dedup_claimed)"
    by (simp add: dedup_claimed_def dedup_start_facts dedup_reserve_def Let_def duplicate_key_def cleanupLocked_def newFeishuEventDeduper_def)
  from event_reserved [OF _ _ this] show "dedup_step dedup_start dedup_claimed"
    by (simp add: dedup_start_def dedup_claimed_def)
qed (simp add: dedup_claimed_def)

lemma dedup_completed_complete:
  "complete 0 good_dedup_write \<lparr>rvKeys = [''event:e''], rvOwner = 0\<rparr> (dyD dedup_claimed) (dyFS dedup_claimed) =
     (Inr True, dyD dedup_completed, dyFS dedup_completed)"
  by (simp add: dedup_completed_def dedup_claimed_def dedup_start_facts complete_def owns_def dedup_reserve_def Let_def duplicate_key_def
      cleanupLocked_def newFeishuEventDeduper_def persistStateLocked_def writeFeishuEventDedupState_def good_dedup_write_def)

lemma dedup_completed_fields:
  "dedup_completed = dedup_claimed\<lparr>dyD := dyD dedup_completed, dyFS := dyFS dedup_completed,
     dyLog := dyLog dedup_claimed @ [\<lparr>cpKeys = [''event:e''], cpBorn = dyBorn dedup_claimed 0, cpAt = 0\<rparr>]\<rparr>"
  by (simp add: dedup_completed_def dedup_claimed_def dedup_start_def split: prod.splits)

lemma dedup_start_reach: "reach dedup_init dedup_step dedup_start"
  by (rule reach_init) (use dedup_start_facts(1) in \<open>auto simp: dedup_init_def dedup_start_def\<close>)

lemma dedup_completed_reach: "reach dedup_init dedup_step dedup_completed"
proof -
  have "dedup_step dedup_claimed (dedup_claimed\<lparr>dyD := dyD dedup_completed, dyFS := dyFS dedup_completed,
     dyLog := dyLog dedup_claimed @ [\<lparr>cpKeys = rvKeys \<lparr>rvKeys = [''event:e''], rvOwner = 0\<rparr>, cpBorn = dyBorn dedup_claimed 0, cpAt = 0\<rparr>]\<rparr>)"
    by (rule event_completed [OF _ dedup_claimed_step(2) dedup_completed_complete]) (simp add: dedup_claimed_def dedup_start_def)
  then have "dedup_step dedup_claimed dedup_completed" using dedup_completed_fields by simp
  then show ?thesis using reach_step [OF reach_step [OF dedup_start_reach dedup_claimed_step(1)]] by blast
qed

theorem event_processed_once_witness:
  "\<exists>m t. dfFile (dyFS dedup_completed) = DedupState m \<and> m ''event:e'' = Some t"
proof -
  have "dyLog dedup_completed = [\<lparr>cpKeys = [''event:e''], cpBorn = 0, cpAt = 0\<rparr>]" "dyClock dedup_completed = 0"
    "ddTtl (dyD dedup_completed) = 5"
    by code_simp+
  then show ?thesis using event_processed_once [OF dedup_completed_reach] by auto
qed

end
