(* ===== verification/Go_Text.thy ===== *)
theory Go_Text
  imports Prelude
begin

section \<open>Text functions of the Go library\<close>

text \<open>
  The parts of \<open>strconv\<close> and \<open>strings\<close> that several components use, on the bytes of a string.
\<close>

subsection \<open>Numbers\<close>

text \<open>\<open>strconv.ParseInt\<close> with base 10 and 64 bits: an optional sign, at least one digit, a value in range.\<close>

definition digit_value :: "char \<Rightarrow> int option" where
  "digit_value c = (let n = of_char c :: int in if 48 \<le> n \<and> n \<le> 57 then Some (n - 48) else None)"

fun parse_digits :: "int \<Rightarrow> string \<Rightarrow> int option" where
  "parse_digits acc [] = Some acc"
| "parse_digits acc (c # cs) = (case digit_value c of None \<Rightarrow> None | Some d \<Rightarrow> parse_digits (acc * 10 + d) cs)"

definition go_parse_int64 :: "string \<Rightarrow> int option" where
  "go_parse_int64 s =
     (let (neg, ds) = (case s of
            [] \<Rightarrow> (False, [])
          | c # cs \<Rightarrow> if c = CHR ''-'' then (True, cs) else if c = CHR ''+'' then (False, cs) else (False, s))
      in if ds = [] then None
         else (case parse_digits 0 ds of
             None \<Rightarrow> None
           | Some n \<Rightarrow>
               let v = (if neg then - n else n) in if - (2 ^ 63) \<le> v \<and> v < 2 ^ 63 then Some v else None))"

fun nat_digits :: "nat \<Rightarrow> string" where
  "nat_digits n =
     (if n < 10 then [char_of (48 + n)] else nat_digits (n div 10) @ [char_of (48 + n mod 10)])"

declare nat_digits.simps [simp del]

text \<open>\<open>%d\<close> of a signed integer.\<close>

definition go_itoa :: "int \<Rightarrow> string" where
  "go_itoa i = (if i < 0 then CHR ''-'' # nat_digits (nat (- i)) else nat_digits (nat i))"

subsection \<open>Letters\<close>

text \<open>
  \<open>strings.ToLower\<close> where its result is only compared with ASCII text: the letters A to Z, and
  the two other code points whose lower case is an ASCII letter, U+0130 and U+212A. All further
  code points keep a byte outside ASCII. \<open>strings.EqualFold\<close> against ASCII text uses simple
  folding: U+017F folds to s and U+212A to k, while U+0130 has no fold.
\<close>

definition ascii_lower :: "char \<Rightarrow> char" where
  "ascii_lower c =
     (let n = of_char c :: nat in if 65 \<le> n \<and> n \<le> 90 then char_of (n + 32) else c)"

fun go_lower :: "string \<Rightarrow> string" where
  "go_lower [] = []"
| "go_lower (c # cs) =
     (if prefix [CHR 0xC4, CHR 0xB0] (c # cs) then CHR ''i'' # go_lower (drop 1 cs)
      else if prefix [CHR 0xE2, CHR 0x84, CHR 0xAA] (c # cs) then CHR ''k'' # go_lower (drop 2 cs)
      else ascii_lower c # go_lower cs)"

fun go_fold :: "string \<Rightarrow> string" where
  "go_fold [] = []"
| "go_fold (c # cs) =
     (if prefix [CHR 0xC5, CHR 0xBF] (c # cs) then CHR ''s'' # go_fold (drop 1 cs)
      else if prefix [CHR 0xE2, CHR 0x84, CHR 0xAA] (c # cs) then CHR ''k'' # go_fold (drop 2 cs)
      else ascii_lower c # go_fold cs)"

definition equal_fold :: "string \<Rightarrow> string \<Rightarrow> bool" where
  "equal_fold s t \<longleftrightarrow> go_fold s = go_fold t"

subsection \<open>Searching and joining\<close>

text \<open>\<open>strings.Contains\<close>, and \<open>strings.Join\<close> with a separator.\<close>

definition go_contains :: "string \<Rightarrow> string \<Rightarrow> bool" where
  "go_contains s sub \<longleftrightarrow> sublist sub s"

fun go_join :: "string \<Rightarrow> string list \<Rightarrow> string" where
  "go_join sep [] = []"
| "go_join sep [x] = x"
| "go_join sep (x # y # ys) = x @ sep @ go_join sep (y # ys)"

text \<open>\<open>strings.Fields\<close>: the parts between runs of white space, none of them empty.\<close>

function fields_from :: "string \<Rightarrow> string \<Rightarrow> string list" where
  "fields_from word s =
     (case find (\<lambda>p. p \<noteq> [] \<and> prefix p s) space_seqs of
        Some p \<Rightarrow> (if word = [] then [] else [word]) @ fields_from [] (drop (length p) s)
      | None \<Rightarrow> (case s of [] \<Rightarrow> if word = [] then [] else [word] | c # cs \<Rightarrow> fields_from (word @ [c]) cs))"
  by pat_completeness auto
termination
  by (relation "measure (\<lambda>(w, s). length s)") (auto simp: find_Some_iff prefix_def)

declare fields_from.simps [simp del]

definition go_fields :: "string \<Rightarrow> string list" where
  "go_fields s = fields_from [] s"

text \<open>
  \<open>firstNonEmpty\<close> of \<open>src/agent/codex_events.go\<close> returns the first argument that is not blank,
  trimmed.
\<close>

definition firstNonEmptyTrimmed :: "string list \<Rightarrow> string" where
  "firstNonEmptyTrimmed vs =
     (case find (\<lambda>v. v \<noteq> []) (map go_trim vs) of Some v \<Rightarrow> v | None \<Rightarrow> [])"

lemma firstNonEmptyTrimmed_trim [simp]: "go_trim (firstNonEmptyTrimmed vs) = firstNonEmptyTrimmed vs"
  by (auto simp: firstNonEmptyTrimmed_def find_Some_iff split: option.splits)

subsection \<open>Text without white space at its ends\<close>

definition plain_char :: "char \<Rightarrow> bool" where
  "plain_char c \<longleftrightarrow> 32 < (of_char c :: nat) \<and> (of_char c :: nat) < 128"

lemma strip_plain: "s \<noteq> [] \<Longrightarrow> \<forall>p \<in> set ps. p = [] \<or> hd p \<noteq> hd s \<Longrightarrow> strip ps s = s"
  by (rule strip_id) (auto simp: find_None_iff prefix_def neq_Nil_conv)

lemma space_seqs_not_plain:
  "\<forall>p \<in> set space_seqs. \<not> plain_char (hd p)" "\<forall>p \<in> set (map rev space_seqs). \<not> plain_char (hd p)"
  by (simp_all add: space_seqs_def plain_char_def)

lemma go_trim_plain:
  assumes "s \<noteq> []" and "plain_char (hd s)" and "plain_char (last s)"
  shows "go_trim s = s"
proof -
  have "strip space_seqs s = s"
    using assms space_seqs_not_plain(1) by (intro strip_plain) auto
  moreover have "strip (map rev space_seqs) (rev s) = rev s"
    using assms space_seqs_not_plain(2) by (intro strip_plain) (auto simp: hd_rev)
  ultimately show ?thesis by (simp add: go_trim_def)
qed

end
