(* ===== verification/Mirror.thy ===== *)
theory Mirror
  imports Dedup Go_Text
begin

section \<open>Group mirrors of thread messages\<close>

text \<open>
  \<open>feishu/mirror_dedup.go\<close>: a message in a thread that is also sent to the group arrives twice, as a thread message and as a
  group message without thread. A group message that can be such a mirror is held back for a
  moment: if the thread message was seen or arrives, it is consumed, otherwise it is dispatched. The
  tables are guarded by the mutex of the deduper; a pending message is an address, here the number \<open>pmID\<close>.
\<close>

subsection \<open>Fingerprints\<close>

record feishuMirrorFingerprint =
  fpBase :: string
  fpEventAt :: instant

text \<open>\<open>time.UnixMilli\<close>: the Unix epoch is 62135596800 seconds after the zero time.\<close>

definition unix_milli :: "int \<Rightarrow> instant" where
  "unix_milli ms = 62135596800 * second + ms * 1000000"

definition feishuMessageCreateTimeValue :: "feishu_event \<Rightarrow> instant option" where
  "feishuMessageCreateTimeValue ev =
     (let v = feishuMessageCreateTime ev in
      if v = [] then None
      else (case go_parse_int64 v of
          None \<Rightarrow> None
        | Some ms \<Rightarrow> if ms \<le> 0 then None else Some (unix_milli ms)))"

definition feishuMirrorFingerprintFor ::
  "(string \<Rightarrow> string) \<Rightarrow> feishu_event \<Rightarrow> FeishuSessionScope \<Rightarrow> string \<Rightarrow> feishuMirrorFingerprint option" where
  "feishuMirrorFingerprintFor hashString ev sc content =
     (case feishuMessageCreateTimeValue ev of
        None \<Rightarrow> None
      | Some t \<Rightarrow>
          let parts = [go_trim (scTenantID sc), go_trim (scChatID sc), go_trim (scSenderOpenID sc), hashString (go_trim content)]
          in if [] \<in> set parts then None else Some \<lparr>fpBase = join_nul parts, fpEventAt = t\<rparr>)"

definition isPossibleGroupMirror :: "FeishuSessionScope \<Rightarrow> string \<Rightarrow> bool" where
  "isPossibleGroupMirror sc content \<longleftrightarrow>
     isFeishuGroupChat (scChatType sc) \<and> \<not> hasThreadFields sc \<and> \<not> blank (scSenderOpenID sc) \<and> \<not> blank (scChatID sc) \<and> \<not> blank content"

definition feishuMirrorDedupWindow :: duration where
  "feishuMirrorDedupWindow = second"

text \<open>\<open>Sub\<close> saturates at the bounds of a 64 bit duration, and the negation of the least duration is itself.\<close>

definition go_sub :: "instant \<Rightarrow> instant \<Rightarrow> duration" where
  "go_sub l r = max (- (2 ^ 63)) (min (2 ^ 63 - 1) (l - r))"

definition go_neg :: "duration \<Rightarrow> duration" where
  "go_neg d = (if d = - (2 ^ 63) then d else - d)"

definition withinFeishuMirrorWindow :: "instant \<Rightarrow> instant \<Rightarrow> duration \<Rightarrow> bool" where
  "withinFeishuMirrorWindow l r window =
     (let w = (if window \<le> 0 then feishuMirrorDedupWindow else window);
          delta = go_sub l r;
          delta' = (if delta < 0 then go_neg delta else delta)
      in delta' \<le> w)"

subsection \<open>The tables\<close>

record feishuMirrorStamp =
  stEventAt :: instant
  stSeenAt :: instant

record pendingGroupMirror =
  pmID :: nat
  pmBase :: string
  pmEventAt :: instant

record mirror_tables =
  mrThreads :: "string \<Rightarrow> feishuMirrorStamp list"
  mrPending :: "string \<Rightarrow> pendingGroupMirror list"
  mrCanceled :: "nat set"
  mrWindow :: duration
  mrTtl :: duration

definition cleanupMirrorLocked :: "instant \<Rightarrow> mirror_tables \<Rightarrow> mirror_tables" where
  "cleanupMirrorLocked now m =
     m\<lparr>mrThreads := (\<lambda>b. filter (\<lambda>st. \<not> stSeenAt st < now - mrTtl m) (mrThreads m b))\<rparr>"

definition hasMatchingThreadLocked :: "feishuMirrorFingerprint \<Rightarrow> mirror_tables \<Rightarrow> bool" where
  "hasMatchingThreadLocked fp m \<longleftrightarrow>
     list_ex (\<lambda>st. withinFeishuMirrorWindow (fpEventAt fp) (stEventAt st) (mrWindow m)) (mrThreads m (fpBase fp))"

definition cancelMatchingPendingMirrorsLocked ::
  "feishuMirrorFingerprint \<Rightarrow> mirror_tables \<Rightarrow> pendingGroupMirror list \<times> mirror_tables" where
  "cancelMatchingPendingMirrorsLocked fp m =
     (let near = (\<lambda>p. withinFeishuMirrorWindow (fpEventAt fp) (pmEventAt p) (mrWindow m));
          canceled = filter near (mrPending m (fpBase fp))
      in (canceled,
          m\<lparr>mrPending := (mrPending m)(fpBase fp := filter (\<lambda>p. \<not> near p) (mrPending m (fpBase fp))),
            mrCanceled := mrCanceled m \<union> pmID ` set canceled\<rparr>))"

definition releasePendingMirror :: "pendingGroupMirror \<Rightarrow> mirror_tables \<Rightarrow> bool \<times> mirror_tables" where
  "releasePendingMirror p m =
     (if p \<in> set (mrPending m (pmBase p))
      then (pmID p \<notin> mrCanceled m, m\<lparr>mrPending := (mrPending m)(pmBase p := remove1 p (mrPending m (pmBase p)))\<rparr>)
      else (False, m))"

text \<open>
  The critical sections of \<open>recordThreadMirrorFingerprint\<close>, whose result are the messages that are consumed
  after it, and of \<open>deferPossibleGroupMirror\<close>, whose result says whether the message is consumed at once, for a
  message that has a fingerprint.
\<close>

definition recordThreadMirrorFingerprint ::
  "instant \<Rightarrow> feishuMirrorFingerprint \<Rightarrow> mirror_tables \<Rightarrow> pendingGroupMirror list \<times> mirror_tables" where
  "recordThreadMirrorFingerprint now fp m =
     (let m1 = cleanupMirrorLocked now m;
          m2 = m1\<lparr>mrThreads := (mrThreads m1)(fpBase fp := mrThreads m1 (fpBase fp) @ [\<lparr>stEventAt = fpEventAt fp, stSeenAt = now\<rparr>])\<rparr>
      in cancelMatchingPendingMirrorsLocked fp m2)"

definition deferPossibleGroupMirror ::
  "instant \<Rightarrow> nat \<Rightarrow> feishuMirrorFingerprint \<Rightarrow> mirror_tables \<Rightarrow> bool \<times> mirror_tables" where
  "deferPossibleGroupMirror now new fp m =
     (let m1 = cleanupMirrorLocked now m in
      if hasMatchingThreadLocked fp m1 then (True, m1)
      else (False, m1\<lparr>mrPending := (mrPending m1)(fpBase fp :=
              mrPending m1 (fpBase fp) @ [\<lparr>pmID = new, pmBase = fpBase fp, pmEventAt = fpEventAt fp\<rparr>])\<rparr>))"

lemma within_window:
  "0 < w \<Longrightarrow> w < 2 ^ 63 \<Longrightarrow> \<bar>l - r\<bar> < 2 ^ 63 \<Longrightarrow> withinFeishuMirrorWindow l r w \<longleftrightarrow> \<bar>l - r\<bar> \<le> w"
  by (auto simp: withinFeishuMirrorWindow_def Let_def go_sub_def go_neg_def min_def max_def)

subsection \<open>Messages side by side\<close>

text \<open>
  Where a group message with number \<open>q\<close> is, and how often it was dispatched and consumed. Its timer may run at
  any time, also while the thread message is being recorded and after that; a canceled message is consumed some time
  after the critical section that canceled it.
\<close>

datatype mirror_phase = MAbsent | MPending | MCanceled | MConsumed | MDispatched

record mirror_sys =
  msTables :: mirror_tables
  msItem :: "nat \<rightharpoonup> pendingGroupMirror"
  msPhase :: "nat \<Rightarrow> mirror_phase"
  msDispatches :: "nat \<Rightarrow> nat"
  msConsumes :: "nat \<Rightarrow> nat"

inductive mirror_step :: "mirror_sys \<Rightarrow> mirror_sys \<Rightarrow> bool" where
  thread_recorded: "recordThreadMirrorFingerprint now fp (msTables s) = (canceled, m) \<Longrightarrow>
    mirror_step s (s\<lparr>msTables := m, msPhase := (\<lambda>q. if q \<in> pmID ` set canceled then MCanceled else msPhase s q)\<rparr>)"
| canceled_consumed: "msPhase s q = MCanceled \<Longrightarrow>
    mirror_step s (s\<lparr>msPhase := (msPhase s)(q := MConsumed), msConsumes := (msConsumes s)(q := Suc (msConsumes s q))\<rparr>)"
| mirror_dropped: "msItem s q = None \<Longrightarrow> deferPossibleGroupMirror now q fp (msTables s) = (True, m) \<Longrightarrow>
    mirror_step s (s\<lparr>msTables := m, msItem := (msItem s)(q \<mapsto> \<lparr>pmID = q, pmBase = fpBase fp, pmEventAt = fpEventAt fp\<rparr>),
      msPhase := (msPhase s)(q := MConsumed), msConsumes := (msConsumes s)(q := Suc (msConsumes s q))\<rparr>)"
| mirror_deferred: "msItem s q = None \<Longrightarrow> deferPossibleGroupMirror now q fp (msTables s) = (False, m) \<Longrightarrow>
    mirror_step s (s\<lparr>msTables := m, msItem := (msItem s)(q \<mapsto> \<lparr>pmID = q, pmBase = fpBase fp, pmEventAt = fpEventAt fp\<rparr>),
      msPhase := (msPhase s)(q := MPending)\<rparr>)"
| timer_dispatched: "msItem s q = Some p \<Longrightarrow> releasePendingMirror p (msTables s) = (True, m) \<Longrightarrow>
    mirror_step s (s\<lparr>msTables := m, msPhase := (msPhase s)(q := MDispatched), msDispatches := (msDispatches s)(q := Suc (msDispatches s q))\<rparr>)"
| timer_void: "msItem s q = Some p \<Longrightarrow> releasePendingMirror p (msTables s) = (False, m) \<Longrightarrow> mirror_step s (s\<lparr>msTables := m\<rparr>)"

inductive_cases mirror_stepE: "mirror_step s s'"

definition mirror_init :: "mirror_sys \<Rightarrow> bool" where
  "mirror_init s \<longleftrightarrow> (\<exists>w ttl. s =
     \<lparr>msTables = \<lparr>mrThreads = (\<lambda>_. []), mrPending = (\<lambda>_. []), mrCanceled = {}, mrWindow = w, mrTtl = ttl\<rparr>,
      msItem = Map.empty, msPhase = (\<lambda>_. MAbsent), msDispatches = (\<lambda>_. 0), msConsumes = (\<lambda>_. 0)\<rparr>)"

definition mirror_inv :: "mirror_sys \<Rightarrow> bool" where
  "mirror_inv s \<longleftrightarrow>
     (\<forall>q. msDispatches s q = (if msPhase s q = MDispatched then 1 else 0)) \<and>
     (\<forall>q. msConsumes s q = (if msPhase s q = MConsumed then 1 else 0)) \<and>
     (\<forall>b p. p \<in> set (mrPending (msTables s) b) \<longrightarrow> pmBase p = b \<and> msPhase s (pmID p) = MPending \<and> msItem s (pmID p) = Some p) \<and>
     (\<forall>b. distinct (mrPending (msTables s) b)) \<and>
     (\<forall>q p. msItem s q = Some p \<longrightarrow> pmID p = q) \<and>
     (\<forall>q. msPhase s q = MPending \<longrightarrow> (\<exists>p. msItem s q = Some p \<and> p \<in> set (mrPending (msTables s) (pmBase p)))) \<and>
     (\<forall>q. msPhase s q = MAbsent \<longleftrightarrow> msItem s q = None) \<and>
     (\<forall>q \<in> mrCanceled (msTables s). msPhase s q = MCanceled \<or> msPhase s q = MConsumed)"

lemma mirror_invD:
  assumes "mirror_inv s"
  shows "msDispatches s q = (if msPhase s q = MDispatched then 1 else 0)"
    "msConsumes s q = (if msPhase s q = MConsumed then 1 else 0)"
    "p \<in> set (mrPending (msTables s) b) \<Longrightarrow> pmBase p = b \<and> msPhase s (pmID p) = MPending \<and> msItem s (pmID p) = Some p"
    "distinct (mrPending (msTables s) b)"
    "msItem s q = Some p \<Longrightarrow> pmID p = q"
    "msPhase s q = MPending \<Longrightarrow> \<exists>p. msItem s q = Some p \<and> p \<in> set (mrPending (msTables s) (pmBase p))"
    "msPhase s q = MAbsent \<longleftrightarrow> msItem s q = None"
    "q \<in> mrCanceled (msTables s) \<Longrightarrow> msPhase s q = MCanceled \<or> msPhase s q = MConsumed"
  using assms unfolding mirror_inv_def by blast+

lemma mirror_invI:
  assumes "\<And>q. msDispatches s q = (if msPhase s q = MDispatched then 1 else 0)"
    "\<And>q. msConsumes s q = (if msPhase s q = MConsumed then 1 else 0)"
    "\<And>b p. p \<in> set (mrPending (msTables s) b) \<Longrightarrow> pmBase p = b \<and> msPhase s (pmID p) = MPending \<and> msItem s (pmID p) = Some p"
    "\<And>b. distinct (mrPending (msTables s) b)"
    "\<And>q p. msItem s q = Some p \<Longrightarrow> pmID p = q"
    "\<And>q. msPhase s q = MPending \<Longrightarrow> \<exists>p. msItem s q = Some p \<and> p \<in> set (mrPending (msTables s) (pmBase p))"
    "\<And>q. msPhase s q = MAbsent \<longleftrightarrow> msItem s q = None"
    "\<And>q. q \<in> mrCanceled (msTables s) \<Longrightarrow> msPhase s q = MCanceled \<or> msPhase s q = MConsumed"
  shows "mirror_inv s"
  using assms unfolding mirror_inv_def by blast

lemma record_tables:
  assumes "recordThreadMirrorFingerprint now fp t = (canceled, m)"
  shows "canceled = filter (\<lambda>p. withinFeishuMirrorWindow (fpEventAt fp) (pmEventAt p) (mrWindow t)) (mrPending t (fpBase fp))"
    "mrPending m = (mrPending t)(fpBase fp :=
       filter (\<lambda>p. \<not> withinFeishuMirrorWindow (fpEventAt fp) (pmEventAt p) (mrWindow t)) (mrPending t (fpBase fp)))"
    "mrCanceled m = mrCanceled t \<union> pmID ` set canceled"
  using assms by (auto simp: recordThreadMirrorFingerprint_def cancelMatchingPendingMirrorsLocked_def cleanupMirrorLocked_def Let_def)

lemma defer_tables:
  assumes "deferPossibleGroupMirror now q fp t = (dropped, m)"
  shows "mrPending m = (if dropped then mrPending t else (mrPending t)(fpBase fp :=
       mrPending t (fpBase fp) @ [\<lparr>pmID = q, pmBase = fpBase fp, pmEventAt = fpEventAt fp\<rparr>]))"
    "mrCanceled m = mrCanceled t"
  using assms by (auto simp: deferPossibleGroupMirror_def cleanupMirrorLocked_def Let_def split: if_splits)

lemma inv_thread_recorded:
  assumes inv: "mirror_inv s" and r: "recordThreadMirrorFingerprint now fp (msTables s) = (canceled, m)"
  shows "mirror_inv (s\<lparr>msTables := m, msPhase := (\<lambda>q. if q \<in> pmID ` set canceled then MCanceled else msPhase s q)\<rparr>)"
proof -
  note t = record_tables [OF r]
  note I = mirror_invD [OF inv]
  let ?near = "\<lambda>p. withinFeishuMirrorWindow (fpEventAt fp) (pmEventAt p) (mrWindow (msTables s))"
  have c: "p \<in> set (mrPending (msTables s) (fpBase fp)) \<and> ?near p" if "p \<in> set canceled" for p using that t(1) by simp
  have pend: "msPhase s q = MPending" if "q \<in> pmID ` set canceled" for q using that c I(3) by fastforce
  have left: "p \<in> set (mrPending (msTables s) b) \<and> pmID p \<notin> pmID ` set canceled" if "p \<in> set (mrPending m b)" for p b
  proof -
    have p: "p \<in> set (mrPending (msTables s) b)" "b = fpBase fp \<Longrightarrow> \<not> ?near p" using that t(2) by (auto split: if_splits)
    have "p = p' \<and> b = fpBase fp" if p': "p' \<in> set canceled" "pmID p = pmID p'" for p'
    proof -
      have i: "pmBase p = b" "msItem s (pmID p) = Some p" using I(3) [OF p(1)] by blast+
      have i': "pmBase p' = fpBase fp" "msItem s (pmID p') = Some p'" using I(3) [OF conjunct1 [OF c [OF p'(1)]]] by blast+
      have "Some p = Some p'" using i(2) i'(2) unfolding p'(2) by (rule trans [OF sym])
      then show ?thesis using i(1) i'(1) by simp
    qed
    then show ?thesis using p c by blast
  qed
  show ?thesis
  proof (rule mirror_invI, goal_cases)
    case (1 q)
    then show ?case using I(1) [of q] pend [of q] by simp
  next
    case (2 q)
    then show ?case using I(2) [of q] pend [of q] by simp
  next
    case (3 b p)
    then show ?case using left [of p b] I(3) [of p b] by simp
  next
    case (4 b)
    then show ?case using I(4) [of b] t(2) by auto
  next
    case (5 q p)
    then show ?case using I(5) by simp
  next
    case (6 q)
    then obtain p where p: "msItem s q = Some p" "p \<in> set (mrPending (msTables s) (pmBase p))" "q \<notin> pmID ` set canceled"
      using I(6) [of q] by (auto split: if_splits)
    then have "p \<notin> set canceled" using I(5) by blast
    then show ?case using p t(1,2) by (cases "pmBase p = fpBase fp") simp_all
  next
    case (7 q)
    then show ?case using I(7) [of q] pend [of q] by (cases "q \<in> pmID ` set canceled") auto
  next
    case (8 q)
    then show ?case using I(8) [of q] t(3) by auto
  qed
qed

lemma inv_timer:
  assumes inv: "mirror_inv s" and q: "msItem s q = Some p" and r: "releasePendingMirror p (msTables s) = (ok, m)"
  shows "mirror_inv (if ok then s\<lparr>msTables := m, msPhase := (msPhase s)(q := MDispatched), msDispatches := (msDispatches s)(q := Suc (msDispatches s q))\<rparr>
     else s\<lparr>msTables := m\<rparr>)"
proof (cases "p \<in> set (mrPending (msTables s) (pmBase p))")
  case False
  then have "\<not> ok \<and> m = msTables s" using r by (simp add: releasePendingMirror_def)
  then show ?thesis using inv by simp
next
  case True
  note I = mirror_invD [OF inv]
  have id: "pmID p = q" "msPhase s q = MPending" using I(3) [OF True] I(5) [OF q] by auto
  then have ok: ok using I(8) [of q] r True by (auto simp: releasePendingMirror_def)
  have m: "mrPending m = (mrPending (msTables s))(pmBase p := remove1 p (mrPending (msTables s) (pmBase p)))"
    "mrCanceled m = mrCanceled (msTables s)"
    using r True by (auto simp: releasePendingMirror_def)
  have left: "p' \<in> set (mrPending (msTables s) b) \<and> pmID p' \<noteq> q" if "p' \<in> set (mrPending m b)" for p' b
  proof -
    have p': "p' \<in> set (mrPending (msTables s) b)" "b = pmBase p \<Longrightarrow> p' \<noteq> p"
      using that m(1) I(4) [of "pmBase p"] by (auto split: if_splits)
    then show ?thesis using I(3) [OF p'(1)] q by auto
  qed
  have "mirror_inv (s\<lparr>msTables := m, msPhase := (msPhase s)(q := MDispatched), msDispatches := (msDispatches s)(q := Suc (msDispatches s q))\<rparr>)"
  proof (rule mirror_invI, goal_cases)
    case (1 r)
    then show ?case using I(1) [of r] I(1) [of q] id by simp
  next
    case (2 r)
    then show ?case using I(2) [of r] id by simp
  next
    case (3 b p')
    then show ?case using left [of p' b] I(3) [of p' b] by simp
  next
    case (4 b)
    then show ?case using I(4) [of b] m(1) by auto
  next
    case (6 r)
    then obtain p' where p': "r \<noteq> q" "msItem s r = Some p'" "p' \<in> set (mrPending (msTables s) (pmBase p'))"
      using I(6) [of r] by (auto split: if_splits)
    then have "p' \<noteq> p" using q I(5) by auto
    then show ?case using p' m(1) by auto
  next
    case (7 r)
    then show ?case using I(7) [of r] I(7) [of q] id by simp
  next
    case (8 r)
    then show ?case using I(8) [of r] m(2) id by auto
  qed (use I(5) in simp)
  then show ?thesis using ok by simp
qed

lemma inv_arrived:
  assumes inv: "mirror_inv s" and q: "msItem s q = None" and d: "deferPossibleGroupMirror now q fp (msTables s) = (dropped, m)"
  defines "p \<equiv> \<lparr>pmID = q, pmBase = fpBase fp, pmEventAt = fpEventAt fp\<rparr>"
  shows "mirror_inv (if dropped
     then s\<lparr>msTables := m, msItem := (msItem s)(q \<mapsto> p), msPhase := (msPhase s)(q := MConsumed), msConsumes := (msConsumes s)(q := Suc (msConsumes s q))\<rparr>
     else s\<lparr>msTables := m, msItem := (msItem s)(q \<mapsto> p), msPhase := (msPhase s)(q := MPending)\<rparr>)"
proof -
  note I = mirror_invD [OF inv] and t = defer_tables [OF d]
  have new: "msPhase s q = MAbsent" using I(7) [of q] q by simp
  have n: "msDispatches s q = 0" "msConsumes s q = 0" "q \<notin> mrCanceled (msTables s)" using I(1,2,8) [of q] new by auto
  have other: "pmID p' \<noteq> q" if "p' \<in> set (mrPending (msTables s) b)" for p' b using I(3) [OF that] new by auto
  have fresh: "p \<notin> set (mrPending (msTables s) b)" for b using other [of p b] by (auto simp: p_def)
  show ?thesis
  proof (rule mirror_invI, goal_cases)
    case (1 r)
    then show ?case using I(1) [of r] n new by simp
  next
    case (2 r)
    then show ?case using I(2) [of r] n new by simp
  next
    case (3 b p')
    then have "p' \<in> set (mrPending (msTables s) b) \<or> \<not> dropped \<and> b = fpBase fp \<and> p' = p"
      using t(1) by (auto simp: p_def split: if_splits)
    then show ?case using I(3) [of p' b] other [of p' b] by (auto simp: p_def)
  next
    case (4 b)
    then show ?case using I(4) [of b] t(1) fresh [of b] by (auto simp: p_def)
  next
    case (5 r p')
    then show ?case using I(5) [of r p'] by (auto simp: p_def split: if_splits)
  next
    case (6 r)
    have keep: "set (mrPending (msTables s) b) \<subseteq> set (mrPending m b)" for b using t(1) by auto
    show ?case
    proof (cases "r = q")
      case True
      then show ?thesis using 6 t(1) by (cases dropped) (simp_all add: p_def)
    next
      case False
      then have "msPhase s r = MPending" using 6 by (cases dropped) simp_all
      then show ?thesis using I(6) [of r] keep False by (cases dropped) auto
    qed
  next
    case (7 r)
    then show ?case using I(7) [of r] by simp
  next
    case (8 r)
    then have "r \<in> mrCanceled (msTables s)" using t(2) by (cases dropped) simp_all
    then show ?case using I(8) [of r] n(3) by (cases dropped) auto
  qed
qed

lemma mirror_inv_step:
  assumes inv: "mirror_inv s" and step: "mirror_step s s'"
  shows "mirror_inv s'"
  using step
proof cases
  case (thread_recorded now fp canceled m)
  then show ?thesis using inv_thread_recorded [OF inv] by simp
next
  case (canceled_consumed q)
  note I = mirror_invD [OF inv]
  show ?thesis unfolding canceled_consumed(1)
  proof (rule mirror_invI, goal_cases)
    case (3 b p)
    then show ?case using I(3) [of p b] canceled_consumed(2) by auto
  next
    case (7 r)
    then show ?case using I(7) [of r] canceled_consumed(2) by auto
  qed (use I canceled_consumed(2) in \<open>simp_all split: if_splits\<close>)
next
  case (mirror_dropped q now fp m)
  then show ?thesis using inv_arrived [OF inv mirror_dropped(2,3)] by simp
next
  case (mirror_deferred q now fp m)
  then show ?thesis using inv_arrived [OF inv mirror_deferred(2,3)] by simp
next
  case (timer_dispatched q p m)
  then show ?thesis using inv_timer [OF inv timer_dispatched(2,3)] by simp
next
  case (timer_void q p m)
  then show ?thesis using inv_timer [OF inv timer_void(2,3)] by simp
qed

lemma mirror_inv_init: "mirror_init s \<Longrightarrow> mirror_inv s"
  by (auto simp: mirror_init_def mirror_inv_def)

interpretation mirror: invariant_system mirror_init mirror_step mirror_inv
  by unfold_locales (auto intro: mirror_inv_init mirror_inv_step)

text \<open>
  C38: a group message that may be a mirror is handled exactly once. Whatever the order in which thread messages,
  group messages and timers come: a message that has arrived is still pending with its entry in the table, or about to be consumed,
  or was consumed once, or was dispatched once, and never both; a message that a thread message has
  canceled is never dispatched; and when a thread message is recorded, no pending mirror of it within
  the window is left in the table.
\<close>

theorem mirror_handled_once:
  assumes r: "reach mirror_init mirror_step s"
  shows "(\<forall>q. msItem s q \<noteq> None \<longrightarrow>
       (msPhase s q = MPending \<and> (\<exists>p. msItem s q = Some p \<and> p \<in> set (mrPending (msTables s) (pmBase p))) \<or> msPhase s q = MCanceled) \<and>
         msDispatches s q + msConsumes s q = 0 \<or>
       msPhase s q \<in> {MDispatched, MConsumed} \<and> msDispatches s q + msConsumes s q = 1) \<and>
    (\<forall>q \<in> mrCanceled (msTables s). msDispatches s q = 0) \<and>
    (\<forall>now fp canceled m. recordThreadMirrorFingerprint now fp (msTables s) = (canceled, m) \<longrightarrow>
       (\<forall>p \<in> set (mrPending m (fpBase fp)). \<not> withinFeishuMirrorWindow (fpEventAt fp) (pmEventAt p) (mrWindow (msTables s))))"
proof -
  note I = mirror_invD [OF mirror.reach_inv [OF r]]
  have "(msPhase s q = MPending \<and> (\<exists>p. msItem s q = Some p \<and> p \<in> set (mrPending (msTables s) (pmBase p))) \<or> msPhase s q = MCanceled) \<and>
       msDispatches s q + msConsumes s q = 0 \<or> msPhase s q \<in> {MDispatched, MConsumed} \<and> msDispatches s q + msConsumes s q = 1"
    if "msItem s q \<noteq> None" for q
    using that I(7) [of q] I(6) [of q] I(1,2) [of q] by (cases "msPhase s q") simp_all
  moreover have "msDispatches s q = 0" if "q \<in> mrCanceled (msTables s)" for q using I(8) [OF that] I(1) [of q] by auto
  moreover have "\<not> withinFeishuMirrorWindow (fpEventAt fp) (pmEventAt p) (mrWindow (msTables s))"
    if "recordThreadMirrorFingerprint now fp (msTables s) = (canceled, m)" "p \<in> set (mrPending m (fpBase fp))" for now fp canceled m p
    using record_tables(2) [OF that(1)] that(2) by simp
  ultimately show ?thesis by blast
qed

definition mirror_waiting :: mirror_sys where
  "mirror_waiting =
     \<lparr>msTables = snd (deferPossibleGroupMirror 0 0 \<lparr>fpBase = ''b'', fpEventAt = 0\<rparr>
        \<lparr>mrThreads = (\<lambda>_. []), mrPending = (\<lambda>_. []), mrCanceled = {}, mrWindow = second, mrTtl = minute\<rparr>),
      msItem = [0 \<mapsto> \<lparr>pmID = 0, pmBase = ''b'', pmEventAt = 0\<rparr>], msPhase = (\<lambda>_. MAbsent)(0 := MPending),
      msDispatches = (\<lambda>_. 0), msConsumes = (\<lambda>_. 0)\<rparr>"

theorem mirror_handled_once_witness:
  "msDispatches mirror_waiting 0 + msConsumes mirror_waiting 0 = 0 \<and>
   mrPending (snd (recordThreadMirrorFingerprint 0 \<lparr>fpBase = ''b'', fpEventAt = 0\<rparr> (msTables mirror_waiting))) ''b'' = []"
proof -
  let ?i = "\<lparr>msTables = \<lparr>mrThreads = (\<lambda>_. []), mrPending = (\<lambda>_. []), mrCanceled = {}, mrWindow = second, mrTtl = minute\<rparr>,
      msItem = Map.empty, msPhase = (\<lambda>_. MAbsent), msDispatches = (\<lambda>_. 0), msConsumes = (\<lambda>_. 0)\<rparr>"
  let ?fp = "\<lparr>fpBase = ''b'', fpEventAt = 0\<rparr>"
  have "reach mirror_init mirror_step ?i" by (rule reach_init) (simp add: mirror_init_def)
  moreover have "deferPossibleGroupMirror 0 0 ?fp (msTables ?i) = (False, msTables mirror_waiting)"
    by (simp add: mirror_waiting_def deferPossibleGroupMirror_def cleanupMirrorLocked_def hasMatchingThreadLocked_def Let_def)
  then have "mirror_step ?i mirror_waiting"
    using mirror_deferred [of ?i 0 0 ?fp "msTables mirror_waiting"] by (simp add: mirror_waiting_def)
  ultimately have r: "reach mirror_init mirror_step mirror_waiting" by (rule reach_step)
  obtain c m where cm: "recordThreadMirrorFingerprint 0 ?fp (msTables mirror_waiting) = (c, m)" by fastforce
  have one: "set (mrPending m ''b'') \<subseteq> {\<lparr>pmID = 0, pmBase = ''b'', pmEventAt = 0\<rparr>}"
    using record_tables(2) [OF cm]
    by (simp add: mirror_waiting_def deferPossibleGroupMirror_def cleanupMirrorLocked_def hasMatchingThreadLocked_def Let_def)
  have w: "withinFeishuMirrorWindow 0 0 (mrWindow (msTables mirror_waiting))" by code_simp
  note h = mirror_handled_once [OF r]
  have "\<forall>p \<in> set (mrPending m (fpBase ?fp)). \<not> withinFeishuMirrorWindow (fpEventAt ?fp) (pmEventAt p) (mrWindow (msTables mirror_waiting))"
    using h cm by blast
  then have "mrPending m ''b'' = []" using one w by (cases "mrPending m ''b''") auto
  moreover have "msPhase mirror_waiting 0 = MPending" "msItem mirror_waiting 0 \<noteq> None" by (simp_all add: mirror_waiting_def)
  then have "msDispatches mirror_waiting 0 + msConsumes mirror_waiting 0 = 0" using conjunct1 [OF h] by auto
  ultimately show ?thesis using cm by simp
qed

end
