(* ===== verification/Pipeline.thy ===== *)
theory Pipeline
  imports Dispatch Mirror
begin

section \<open>From an event to its dispatch\<close>

text \<open>
  How the adapter composes the deduper and the sequencer: \<open>dispatchReservedIncomingMessage\<close> and its helpers in
  \<open>feishu/adapter_events.go\<close>, with the keys of windows and sessions of \<open>feishu/dispatch_order.go\<close> and
  \<open>feishu/session_scope.go\<close> and the age limit of \<open>feishu/message_freshness.go\<close>. A message takes a ticket of its window, waits for its turn, and is then admitted: its
  reservation is completed, which writes the state file, and only after that the handler is called.
\<close>

subsection \<open>Keys and commands\<close>

text \<open>The fields of an incoming message the adapter reads here; \<open>imChoice\<close> is the choice of a card command.\<close>

record IncomingMessage =
  imAccountID :: string
  imUserID :: string
  imChatID :: string
  imRouteKey :: string
  imSessionMetadata :: string
  imText :: string
  imChoice :: "string option"

definition firstNonEmpty :: "string list \<Rightarrow> string" where
  "firstNonEmpty vs = (case find (\<lambda>v. \<not> blank v) vs of Some v \<Rightarrow> v | None \<Rightarrow> [])"

definition feishuDispatchKey :: "IncomingMessage \<Rightarrow> string" where
  "feishuDispatchKey m =
     (let k1 = go_trim (imRouteKey m);
          k2 = (if k1 = [] then go_trim (imSessionMetadata m) else k1);
          k3 = (if k2 = [] then firstNonEmpty [imChatID m, imUserID m] else k2)
      in go_trim (imAccountID m) @ CHR 0x00 # k3)"

definition isFeishuStopMessage :: "IncomingMessage \<Rightarrow> bool" where
  "isFeishuStopMessage m \<longleftrightarrow> go_trim (imText m) = ''/stop'' \<or> map_option go_trim (imChoice m) = Some ''/stop''"

fun join_colon :: "string list \<Rightarrow> string" where
  "join_colon [] = []"
| "join_colon [p] = p"
| "join_colon (p # ps) = p @ CHR '':'' # join_colon ps"

definition BuildFeishuSessionKey :: "string \<Rightarrow> FeishuSessionScope \<Rightarrow> string" where
  "BuildFeishuSessionKey account sc =
     (let parts = [''feishu''] @ (if blank account then [] else [go_trim account]) @
            (if blank (scTenantID sc) then [] else [go_trim (scTenantID sc)])
      in if isFeishuGroupChat (scChatType sc) then join_colon (parts @ [''group'', go_trim (scChatID sc)])
         else join_colon (parts @ [''dm'', go_trim (scChatID sc), go_trim (scSenderOpenID sc)]))"

text \<open>The age limit: messages from before this run of the connection, and messages that are too old, are not accepted.\<close>

record freshness =
  frMaxAge :: duration
  frAcceptAfter :: instant

definition beginMessageAcceptance :: "instant \<Rightarrow> freshness \<Rightarrow> freshness" where
  "beginMessageAcceptance now a = (if frMaxAge a \<le> 0 then a\<lparr>frAcceptAfter := 0\<rparr> else a\<lparr>frAcceptAfter := now\<rparr>)"

datatype stale_reason = CreatedBeforeRun | MaxAgeExceeded

definition staleMessageReason :: "freshness \<Rightarrow> instant \<Rightarrow> instant \<Rightarrow> stale_reason option" where
  "staleMessageReason a createdAt receivedAt =
     (if createdAt < frAcceptAfter a then Some CreatedBeforeRun
      else if go_sub receivedAt createdAt > frMaxAge a then Some MaxAgeExceeded
      else None)"

definition shouldIgnoreStaleMessage :: "freshness \<Rightarrow> instant \<Rightarrow> feishu_event \<Rightarrow> bool" where
  "shouldIgnoreStaleMessage a receivedAt ev =
     (if frMaxAge a \<le> 0 \<or> frAcceptAfter a = 0 then False
      else (case feishuMessageCreateTimeValue ev of
          None \<Rightarrow> True
        | Some createdAt \<Rightarrow> staleMessageReason a createdAt receivedAt \<noteq> None))"

text \<open>With the limit on, an accepted message was created in this run and is at most the limit old when it is received.\<close>

lemma accepted_is_fresh:
  assumes "0 < frMaxAge a" "frMaxAge a < 2 ^ 63 - 1" "0 < now" "\<not> shouldIgnoreStaleMessage (beginMessageAcceptance now a) receivedAt ev"
  shows "\<exists>t. feishuMessageCreateTimeValue ev = Some t \<and> now \<le> t \<and> receivedAt - t \<le> frMaxAge a"
  using assms
  by (auto simp: shouldIgnoreStaleMessage_def beginMessageAcceptance_def staleMessageReason_def go_sub_def min_def max_def
      split: option.splits if_splits)

subsection \<open>Admission\<close>

datatype dedup_failure = PersistDedup dedup_error | OwnershipChanged

definition completeFeishuDedupReservation ::
  "instant \<Rightarrow> dedup_write_env \<Rightarrow> feishuDedupReservation \<Rightarrow> feishuEventDeduper \<Rightarrow> dedup_fs
   \<Rightarrow> dedup_failure option \<times> feishuEventDeduper \<times> dedup_fs" where
  "completeFeishuDedupReservation now w r d fs =
     (case complete now w r d fs of
        (Inl err, d', fs') \<Rightarrow> (Some (PersistDedup err), d', fs')
      | (Inr owned, d', fs') \<Rightarrow> (if owned then None else Some OwnershipChanged, d', fs'))"

text \<open>
  The state of the adapter: the sequencer with its tickets, the deduper with its reservations, which reservation a
  ticket belongs to, which tickets have called the handler, and the calls of the handler so far, each as the position
  of its completion in the history of the deduper. A ticket calls the handler in its turn, or, for a stop
  message whose wait has ended, out of turn; in both cases the reservation is completed first. A restart
  loses the tickets. The history of calls is kept across restarts.
\<close>

record pipe_sys =
  ppQueue :: dispatch_sys
  ppEvents :: dedup_sys
  ppOwner :: "nat \<rightharpoonup> nat"
  ppStarted :: "nat set"
  ppCalls :: "nat list"

definition running :: "dispatch_sys \<Rightarrow> nat \<Rightarrow> bool" where
  "running d q \<longleftrightarrow> dsPhase d q = Dispatching \<or> dsPhase d q = Bypassing"

inductive pipe_step :: "pipe_sys \<Rightarrow> pipe_sys \<Rightarrow> bool" where
  events_move: "dedup_step (ppEvents s) e \<Longrightarrow> dyRes (ppEvents s) \<subseteq>\<^sub>m dyRes e \<Longrightarrow> pipe_step s (s\<lparr>ppEvents := e\<rparr>)"
| ticket_taken: "dyRes (ppEvents s) r \<noteq> None \<Longrightarrow> r \<notin> ran (ppOwner s) \<Longrightarrow>
    seq_reserve (feishuDispatchKey msg) operation (dsSeq (ppQueue s)) = (Some t, sq) \<Longrightarrow>
    pipe_step s (s\<lparr>ppOwner := (ppOwner s)(tkCurrent t \<mapsto> r),
      ppQueue := (ppQueue s)\<lparr>dsSeq := sq, dsTicket := (dsTicket (ppQueue s))(tkCurrent t \<mapsto> t),
        dsPhase := (dsPhase (ppQueue s))(tkCurrent t := Waiting (tkPrevious t))\<rparr>\<rparr>)"
| queue_moves: "dispatch_step (ppQueue s) d \<Longrightarrow> dsTicket d = dsTicket (ppQueue s) \<Longrightarrow> (\<And>q. running d q \<Longrightarrow> running (ppQueue s) q) \<Longrightarrow>
    pipe_step s (s\<lparr>ppQueue := d\<rparr>)"
| admitted: "ppOwner s q = Some o' \<Longrightarrow> dyRes (ppEvents s) o' = Some r \<Longrightarrow> now \<le> dyClock (ppEvents s) \<Longrightarrow>
    completeFeishuDedupReservation now w r (dyD (ppEvents s)) (dyFS (ppEvents s)) = (None, dd, fs) \<Longrightarrow>
    dsPhase (ppQueue s) q = Ready \<and> ph = Dispatching \<or> (\<exists>n. dsPhase (ppQueue s) q = Waiting (Some n)) \<and> isFeishuStopMessage msg \<and> ph = Bypassing \<Longrightarrow>
    pipe_step s (s\<lparr>ppQueue := set_phase q ph (dsSeq (ppQueue s)) (ppQueue s),
      ppEvents := (ppEvents s)\<lparr>dyD := dd, dyFS := fs,
        dyLog := dyLog (ppEvents s) @ [\<lparr>cpKeys = rvKeys r, cpBorn = dyBorn (ppEvents s) o', cpAt = now\<rparr>]\<rparr>,
      ppStarted := insert q (ppStarted s), ppCalls := ppCalls s @ [length (dyLog (ppEvents s))]\<rparr>)"
| process_ended: "now \<le> dyClock (ppEvents s) \<Longrightarrow>
    pipe_step s (s\<lparr>ppQueue := \<lparr>dsSeq = newFeishuDispatchSequencer, dsTicket = Map.empty, dsPhase = (\<lambda>_. Gone)\<rparr>,
      ppEvents := (ppEvents s)\<lparr>dyD := setStateFile (ddStateFile (dyD (ppEvents s))) now (dyFS (ppEvents s))
          (newFeishuEventDeduper (ddTtl (dyD (ppEvents s)))), dyRes := Map.empty\<rparr>,
      ppOwner := Map.empty, ppStarted := {}\<rparr>)"

definition pipe_init :: "pipe_sys \<Rightarrow> bool" where
  "pipe_init s \<longleftrightarrow> dispatch_init (ppQueue s) \<and> dedup_init (ppEvents s) \<and> ppOwner s = Map.empty \<and> ppStarted s = {} \<and> ppCalls s = []"

definition pipe_inv :: "pipe_sys \<Rightarrow> bool" where
  "pipe_inv s \<longleftrightarrow>
     reach dispatch_init dispatch_step (ppQueue s) \<and> reach dedup_init dedup_step (ppEvents s) \<and>
     sorted_wrt (<) (ppCalls s) \<and> (\<forall>i \<in> set (ppCalls s). i < length (dyLog (ppEvents s))) \<and>
     (\<forall>q. running (ppQueue s) q \<longrightarrow> q \<in> ppStarted s) \<and> inj_on (ppOwner s) (dom (ppOwner s))"

lemma dedup_log_grows: "dedup_step e e' \<Longrightarrow> length (dyLog e) \<le> length (dyLog e')"
  by (erule dedup_stepE) simp_all

lemma completed_step:
  assumes "dyRes e o' = Some r" "now \<le> dyClock e" "completeFeishuDedupReservation now w r (dyD e) (dyFS e) = (None, dd, fs)"
  shows "dedup_step e (e\<lparr>dyD := dd, dyFS := fs, dyLog := dyLog e @ [\<lparr>cpKeys = rvKeys r, cpBorn = dyBorn e o', cpAt = now\<rparr>]\<rparr>)"
proof (rule event_completed [OF assms(2,1)])
  show "complete now w r (dyD e) (dyFS e) = (Inr True, dd, fs)"
    using assms(3) by (auto simp: completeFeishuDedupReservation_def split: prod.splits sum.splits if_splits)
qed

lemma pipe_inv_step:
  assumes inv: "pipe_inv s" and step: "pipe_step s s'"
  shows "pipe_inv s'"
  using step
proof cases
  case (events_move e)
  then show ?thesis using inv dedup_log_grows [OF events_move(2)] unfolding pipe_inv_def
    by (auto intro: reach_step)
next
  case (ticket_taken r msg operation t sq)
  have new: "ppOwner s q \<noteq> Some r" for q using ticket_taken(3) by (auto simp: ran_def)
  have "inj_on (ppOwner s') (dom (ppOwner s'))" unfolding ticket_taken(1)
    using inv new unfolding pipe_inv_def inj_on_def dom_def by (auto split: if_splits)
  moreover have "dispatch_step (ppQueue s) (ppQueue s')" unfolding ticket_taken(1) using reserved [OF ticket_taken(4)] by simp
  then have "reach dispatch_init dispatch_step (ppQueue s')" using inv reach_step unfolding pipe_inv_def by metis
  ultimately show ?thesis using inv unfolding pipe_inv_def ticket_taken(1) by (auto simp: running_def split: if_splits)
next
  case (queue_moves d)
  then show ?thesis using inv unfolding pipe_inv_def by (auto intro: reach_step)
next
  case (admitted q o' r now w dd fs ph msg)
  have "dispatch_step (ppQueue s) (set_phase q ph (dsSeq (ppQueue s)) (ppQueue s))"
    using admitted(6) by (auto intro: dispatched bypassed)
  moreover note completed_step [OF admitted(3-5)]
  ultimately show ?thesis using inv unfolding pipe_inv_def admitted(1)
    by (auto simp: sorted_wrt_append running_def intro: reach_step less_SucI split: if_splits)
next
  case (process_ended now)
  have "reach dispatch_init dispatch_step (ppQueue s')" unfolding process_ended(1)
    by (rule reach_init) (simp add: dispatch_init_def)
  moreover have "dedup_step (ppEvents s) (ppEvents s')" unfolding process_ended(1) using process_restarted [OF process_ended(2)] by simp
  then have "reach dedup_init dedup_step (ppEvents s')" using inv reach_step unfolding pipe_inv_def by metis
  ultimately show ?thesis using inv unfolding pipe_inv_def process_ended(1) by (simp add: running_def)
qed

lemma pipe_inv_init: "pipe_init s \<Longrightarrow> pipe_inv s"
  by (auto simp: pipe_init_def pipe_inv_def dispatch_init_def running_def intro!: reach_init)

interpretation pipe: invariant_system pipe_init pipe_step pipe_inv
  by unfold_locales (auto intro: pipe_inv_init pipe_inv_step)


definition stop_free_message :: IncomingMessage where
  "stop_free_message = \<lparr>imAccountID = ''a'', imUserID = ''u'', imChatID = ''c'', imRouteKey = ''w'', imSessionMetadata = [], imText = ''hi'', imChoice = None\<rparr>"

definition first_ticket :: feishuDispatchTicket where
  "first_ticket = \<lparr>tkKey = CHR ''a'' # CHR 0x00 # ''w'', tkPrevious = None, tkCurrent = 0\<rparr>"

definition taken_queue :: dispatch_sys where
  "taken_queue = \<lparr>dsSeq = snd (seq_reserve (feishuDispatchKey stop_free_message) ''op'' newFeishuDispatchSequencer),
     dsTicket = [0 \<mapsto> first_ticket], dsPhase = (\<lambda>_. Gone)(0 := Waiting None)\<rparr>"

definition pipe_start :: pipe_sys where
  "pipe_start = \<lparr>ppQueue = \<lparr>dsSeq = newFeishuDispatchSequencer, dsTicket = Map.empty, dsPhase = (\<lambda>_. Gone)\<rparr>,
     ppEvents = dedup_start, ppOwner = Map.empty, ppStarted = {}, ppCalls = []\<rparr>"

definition pipe_ready :: pipe_sys where
  "pipe_ready = pipe_start\<lparr>ppEvents := dedup_claimed, ppOwner := [0 \<mapsto> 0], ppQueue := set_phase 0 Ready (dsSeq taken_queue) taken_queue\<rparr>"

definition pipe_called :: pipe_sys where
  "pipe_called = pipe_ready\<lparr>ppQueue := set_phase 0 Dispatching (dsSeq (ppQueue pipe_ready)) (ppQueue pipe_ready),
     ppEvents := dedup_completed, ppStarted := {0}, ppCalls := [0]\<rparr>"

lemma pipe_ready_reach: "reach pipe_init pipe_step pipe_ready"
proof -
  let ?s1 = "pipe_start\<lparr>ppEvents := dedup_claimed\<rparr>" and ?s2 = "pipe_start\<lparr>ppEvents := dedup_claimed, ppOwner := [0 \<mapsto> 0], ppQueue := taken_queue\<rparr>"
  have "dedup_init dedup_start" using dedup_start_facts(1) by (auto simp: dedup_init_def dedup_start_def)
  then have 0: "reach pipe_init pipe_step pipe_start"
    by (intro reach_init) (simp add: pipe_init_def pipe_start_def dispatch_init_def)
  have 1: "pipe_step pipe_start ?s1"
    by (rule events_move) (use dedup_claimed_step in \<open>auto simp: pipe_start_def dedup_start_def\<close>)
  have k: "feishuDispatchKey stop_free_message = CHR ''a'' # CHR 0x00 # ''w''" "go_trim (CHR ''a'' # CHR 0x00 # ''w'') = CHR ''a'' # CHR 0x00 # ''w''"
    by code_simp+
  have "seq_reserve (feishuDispatchKey stop_free_message) ''op'' (dsSeq (ppQueue ?s1)) = (Some first_ticket, dsSeq taken_queue)"
    by (simp add: k seq_reserve_def pipe_start_def first_ticket_def taken_queue_def newFeishuDispatchSequencer_def Let_def)
  from ticket_taken [OF _ _ this, of 0] have 2: "pipe_step ?s1 ?s2"
    using dedup_claimed_step(2) by (simp add: pipe_start_def first_ticket_def taken_queue_def)
  have "dispatch_step taken_queue (set_phase 0 Ready (dsSeq taken_queue) taken_queue)"
    by (rule wait_over [where n = None]) (simp_all add: taken_queue_def waitForFeishuDispatchNode_def)
  then have "pipe_step ?s2 (?s2\<lparr>ppQueue := set_phase 0 Ready (dsSeq taken_queue) taken_queue\<rparr>)"
    by (intro queue_moves) (auto simp: running_def split: if_splits)
  then have 3: "pipe_step ?s2 pipe_ready" by (simp add: pipe_ready_def)
  show ?thesis by (rule reach_step [OF reach_step [OF reach_step [OF 0 1] 2] 3])
qed

lemma pipe_called_reach: "reach pipe_init pipe_step pipe_called"
proof -
  let ?r = "\<lparr>rvKeys = [''event:e''], rvOwner = 0\<rparr> :: feishuDedupReservation"
  have e: "ppEvents pipe_ready = dedup_claimed" "ppOwner pipe_ready 0 = Some 0" "dsPhase (ppQueue pipe_ready) 0 = Ready"
    "ppStarted pipe_ready = {}" "ppCalls pipe_ready = []"
    by (simp_all add: pipe_ready_def pipe_start_def)
  have c: "completeFeishuDedupReservation 0 good_dedup_write ?r (dyD (ppEvents pipe_ready)) (dyFS (ppEvents pipe_ready)) =
      (None, dyD dedup_completed, dyFS dedup_completed)"
    by (simp add: e completeFeishuDedupReservation_def dedup_completed_complete)
  have k: "dyRes (ppEvents pipe_ready) 0 = Some ?r" "0 \<le> dyClock (ppEvents pipe_ready)" "dyLog dedup_claimed = []"
    using dedup_claimed_step(2) by (simp_all add: e dedup_claimed_def dedup_start_def)
  have "dsPhase (ppQueue pipe_ready) 0 = Ready \<and> Dispatching = Dispatching \<or>
      (\<exists>n. dsPhase (ppQueue pipe_ready) 0 = Waiting (Some n)) \<and> isFeishuStopMessage stop_free_message \<and> Dispatching = Bypassing" using e by simp
  from admitted [OF e(2) k(1,2) c this] have "pipe_step pipe_ready pipe_called"
    using dedup_completed_fields by (simp add: pipe_called_def e k(3))
  then show ?thesis by (rule reach_step [OF pipe_ready_reach])
qed


end
