(* ===== verification/Monitor.thy ===== *)
theory Monitor
  imports Prelude
begin

section \<open>The WeChat monitor\<close>

text \<open>
  \<open>ilink/monitor.go\<close> and \<open>ilink/monitor_queue.go\<close>: the long poll loop hands every message to a queue of its user,
  a worker per queue joins messages that arrive together and calls the handler, and the cursor of the loop moves on
  when the messages of an answer have been handed over. First the messages, then the
  recovery of the loop, then the queues with their workers.
\<close>

subsection \<open>Messages\<close>

definition ItemTypeText :: int where
  "ItemTypeText = 1"

definition ItemTypeVoice :: int where
  "ItemTypeVoice = 3"

text \<open>The fields the monitor reads; \<open>miMedia\<close> stands for the image, video and file parts, which it only copies.\<close>

record MessageItem =
  miType :: int
  miTextItem :: "string option"
  miVoiceItem :: "string option"
  miMedia :: "string option"

record WeixinMessage =
  wmSeq :: int
  wmMessageID :: int
  wmFromUserID :: string
  wmToUserID :: string
  wmClientID :: string
  wmItemList :: "MessageItem list"

definition text_of :: "MessageItem \<Rightarrow> string option" where
  "text_of i = (if miType i = ItemTypeText then miTextItem i else None)"

definition voice_of :: "MessageItem \<Rightarrow> string option" where
  "voice_of i = (if miType i = ItemTypeVoice then miVoiceItem i else None)"

definition weixinMessageText :: "WeixinMessage \<Rightarrow> string" where
  "weixinMessageText m =
     (case List.map_filter text_of (wmItemList m) of
        t # _ \<Rightarrow> t
      | [] \<Rightarrow> (case List.map_filter voice_of (wmItemList m) of v # _ \<Rightarrow> v | [] \<Rightarrow> []))"

definition isCommandWeixinMessage :: "WeixinMessage \<Rightarrow> bool" where
  "isCommandWeixinMessage m \<longleftrightarrow> prefix ''/'' (go_trim (weixinMessageText m))"

text \<open>\<open>appendAggregatedMessage\<close> for one item: the texts and items it appends.\<close>

definition aggregated_item :: "MessageItem \<Rightarrow> string list \<times> MessageItem list" where
  "aggregated_item i =
     (case text_of i of
        Some t \<Rightarrow> (if \<not> blank t then [go_trim t] else [], [])
      | None \<Rightarrow>
          (case voice_of i of
             Some v \<Rightarrow> if \<not> blank v then ([go_trim v], [i]) else ([], [i])
           | None \<Rightarrow> ([], [i])))"

definition appendAggregatedMessage ::
  "WeixinMessage \<Rightarrow> string list \<times> MessageItem list \<Rightarrow> string list \<times> MessageItem list" where
  "appendAggregatedMessage m acc =
     (fst acc @ concat (map (fst \<circ> aggregated_item) (wmItemList m)), snd acc @ concat (map (snd \<circ> aggregated_item) (wmItemList m)))"

fun join_lines :: "string list \<Rightarrow> string" where
  "join_lines [] = []"
| "join_lines [t] = t"
| "join_lines (t # ts) = t @ CHR 0x0A # join_lines ts"

definition aggregateWeixinMessages :: "WeixinMessage list \<Rightarrow> WeixinMessage" where
  "aggregateWeixinMessages ms =
     (case ms of
        [] \<Rightarrow> \<lparr>wmSeq = 0, wmMessageID = 0, wmFromUserID = [], wmToUserID = [], wmClientID = [], wmItemList = []\<rparr>
      | [m] \<Rightarrow> m
      | _ \<Rightarrow>
          let (texts, items) = fold appendAggregatedMessage ms ([], []);
              items' = (if texts \<noteq> [] then
                  \<lparr>miType = ItemTypeText, miTextItem = Some (join_lines texts), miVoiceItem = None, miMedia = None\<rparr> # items else items)
          in (last ms)\<lparr>wmItemList := items', wmClientID := []\<rparr>)"

definition firstNonEmptyString :: "string list \<Rightarrow> string" where
  "firstNonEmptyString vs = (case find (\<lambda>v. v \<noteq> []) vs of Some v \<Rightarrow> v | None \<Rightarrow> ''unknown'')"

definition queue_key :: "WeixinMessage \<Rightarrow> string" where
  "queue_key m = firstNonEmptyString [wmFromUserID m, wmToUserID m]"

lemma aggregate_loop:
  "fold appendAggregatedMessage ms acc =
     (fst acc @ concat (map (fst \<circ> aggregated_item) (concat (map wmItemList ms))),
      snd acc @ concat (map (snd \<circ> aggregated_item) (concat (map wmItemList ms))))"
  by (induction ms arbitrary: acc) (simp_all add: appendAggregatedMessage_def)

lemma aggregate_items:
  assumes "2 \<le> length ms"
  shows "wmItemList (aggregateWeixinMessages ms) =
     (let items = concat (map wmItemList ms); texts = concat (map (fst \<circ> aggregated_item) items) in
      (if texts \<noteq> [] then
         [\<lparr>miType = ItemTypeText, miTextItem = Some (join_lines texts), miVoiceItem = None, miMedia = None\<rparr>] else []) @
      concat (map (snd \<circ> aggregated_item) items))"
proof -
  obtain x y zs where ms: "ms = x # y # zs" using assms by (cases ms; cases "tl ms") auto
  show ?thesis unfolding aggregateWeixinMessages_def ms list.case aggregate_loop [of "x # y # zs"] prod.case Let_def
    by (simp del: map_concat)
qed

subsection \<open>Recovery of the loop\<close>

definition steppedBackoffs :: "duration list" where
  "steppedBackoffs = [3 * second, 5 * second, 10 * second, 20 * second, 30 * second]"

record poll_state =
  pollBuf :: string
  pollFailures :: int
  pollSaved :: string

definition calcBackoff :: "poll_state \<Rightarrow> duration" where
  "calcBackoff m =
     (let i = pollFailures m - 1; i0 = (if i < 0 then 0 else i);
          i1 = (if i0 \<ge> int (length steppedBackoffs) then int (length steppedBackoffs) - 1 else i0)
      in steppedBackoffs ! nat i1)"

definition recordFailureBackoff :: "poll_state \<Rightarrow> duration \<times> poll_state" where
  "recordFailureBackoff m = (let m' = m\<lparr>pollFailures := pollFailures m + 1\<rparr> in (calcBackoff m', m'))"

definition recoverExpiredSession :: "poll_state \<Rightarrow> duration \<times> poll_state" where
  "recoverExpiredSession m =
     (if pollBuf m = [] then (60 * second, m) else (5 * second, m\<lparr>pollBuf := [], pollSaved := []\<rparr>))"

lemma backoff_bounds: "3 * second \<le> fst (recordFailureBackoff m) \<and> fst (recordFailureBackoff m) \<le> 30 * second"
proof -
  have "t \<in> set steppedBackoffs \<Longrightarrow> 3 * second \<le> t \<and> t \<le> 30 * second" for t by (auto simp: steppedBackoffs_def second_def)
  moreover have "fst (recordFailureBackoff m) \<in> set steppedBackoffs"
    unfolding recordFailureBackoff_def calcBackoff_def Let_def fst_conv by (rule nth_mem) (auto simp: steppedBackoffs_def nat_less_iff)
  ultimately show ?thesis by blast
qed

subsection \<open>Queues and workers\<close>

text \<open>
  A queue is a buffered channel, here a number with its buffer; \<open>mqSent\<close> and \<open>mqHandled\<close> record what was sent to it
  and the batches its worker handed to the handler. A worker waits for a message, collects a batch, or has
  handed it over and waits for the handler. A caller of \<open>enqueueQueuedMessage\<close> that found the queue full stands in
  \<open>mqSlow\<close>: it has released the lock and is about to send; \<open>mqTookSlow\<close> records all that did. The channel \<open>done\<close> of a message is its number, and \<open>mqAcks\<close>
  counts how often it was closed.
\<close>

definition messageQueueCapacity :: nat where
  "messageQueueCapacity = 64"

record queuedWeixinMessage =
  qmMessage :: WeixinMessage
  qmDone :: nat

datatype queue_worker = NotStarted | Selecting | Collecting "queuedWeixinMessage list" | Handling | Exited

record monitor_sys =
  mqTable :: "string \<rightharpoonup> nat"
  mqNextQueue :: nat
  mqKey :: "nat \<Rightarrow> string"
  mqBuf :: "nat \<Rightarrow> queuedWeixinMessage list"
  mqWorker :: "nat \<Rightarrow> queue_worker"
  mqSlow :: "nat \<rightharpoonup> nat \<times> queuedWeixinMessage"
  mqTookSlow :: "nat set"
  mqNextMessage :: nat
  mqSent :: "nat \<Rightarrow> queuedWeixinMessage list"
  mqHandled :: "nat \<Rightarrow> queuedWeixinMessage list list"
  mqAcks :: "nat \<Rightarrow> nat"
  mqCtxDone :: bool
  mqAggregate :: duration

definition send_queue :: "nat \<Rightarrow> queuedWeixinMessage \<Rightarrow> monitor_sys \<Rightarrow> monitor_sys" where
  "send_queue c q m = m\<lparr>mqBuf := (mqBuf m)(c := mqBuf m c @ [q]), mqSent := (mqSent m)(c := mqSent m c @ [q])\<rparr>"

definition ensure_queue :: "string \<Rightarrow> monitor_sys \<Rightarrow> nat \<times> monitor_sys" where
  "ensure_queue key m =
     (case mqTable m key of
        Some c \<Rightarrow> (c, m)
      | None \<Rightarrow>
          let c = mqNextQueue m in
          (c, m\<lparr>mqTable := (mqTable m)(key \<mapsto> c), mqNextQueue := Suc c, mqKey := (mqKey m)(c := key),
                mqWorker := (mqWorker m)(c := Selecting)\<rparr>))"

text \<open>The critical section of \<open>enqueueQueuedMessage\<close>: sent at once, or the caller goes to the slow path.\<close>

definition enqueueQueuedMessage :: "queuedWeixinMessage \<Rightarrow> monitor_sys \<Rightarrow> monitor_sys" where
  "enqueueQueuedMessage q m =
     (case ensure_queue (queue_key (qmMessage q)) m of
        (c, m') \<Rightarrow>
          if length (mqBuf m' c) < messageQueueCapacity then send_queue c q m'
          else m'\<lparr>mqSlow := (mqSlow m')(qmDone q \<mapsto> (c, q)), mqTookSlow := insert (qmDone q) (mqTookSlow m')\<rparr>)"

definition completeQueuedMessages :: "queuedWeixinMessage list \<Rightarrow> monitor_sys \<Rightarrow> monitor_sys" where
  "completeQueuedMessages batch m = fold (\<lambda>q m. m\<lparr>mqAcks := (mqAcks m)(qmDone q := Suc (mqAcks m (qmDone q)))\<rparr>) batch m"

definition hand_over :: "nat \<Rightarrow> queuedWeixinMessage list \<Rightarrow> monitor_sys \<Rightarrow> monitor_sys" where
  "hand_over c batch m = completeQueuedMessages batch (m\<lparr>mqHandled := (mqHandled m)(c := mqHandled m c @ [batch])\<rparr>)"

definition dispatchQueuedBatch ::
  "nat \<Rightarrow> queuedWeixinMessage list \<Rightarrow> queuedWeixinMessage option \<Rightarrow> monitor_sys \<Rightarrow> monitor_sys" where
  "dispatchQueuedBatch c batch command m =
     (let m1 = hand_over c batch m; m2 = (case command of None \<Rightarrow> m1 | Some q \<Rightarrow> hand_over c [q] m1)
      in m2\<lparr>mqWorker := (mqWorker m2)(c := Handling)\<rparr>)"

text \<open>The worker takes the first message of its queue, which is not empty.\<close>

definition worker_receive :: "nat \<Rightarrow> monitor_sys \<Rightarrow> monitor_sys" where
  "worker_receive c m =
     (let q = hd (mqBuf m c); m1 = m\<lparr>mqBuf := (mqBuf m)(c := tl (mqBuf m c))\<rparr> in
      case mqWorker m c of
        Selecting \<Rightarrow>
          if mqAggregate m \<le> 0 \<or> isCommandWeixinMessage (qmMessage q) then dispatchQueuedBatch c [q] None m1
          else m1\<lparr>mqWorker := (mqWorker m1)(c := Collecting [q])\<rparr>
      | Collecting batch \<Rightarrow>
          if isCommandWeixinMessage (qmMessage q) then dispatchQueuedBatch c batch (Some q) m1
          else m1\<lparr>mqWorker := (mqWorker m1)(c := Collecting (batch @ [q]))\<rparr>
      | _ \<Rightarrow> m)"

definition removeIdleMessageQueue :: "nat \<Rightarrow> monitor_sys \<Rightarrow> bool \<times> monitor_sys" where
  "removeIdleMessageQueue c m =
     (if mqBuf m c \<noteq> [] \<or> mqTable m (mqKey m c) \<noteq> Some c then (False, m)
      else (True, m\<lparr>mqTable := (mqTable m)(mqKey m c := None)\<rparr>))"

definition removeMessageQueue :: "nat \<Rightarrow> monitor_sys \<Rightarrow> monitor_sys" where
  "removeMessageQueue c m =
     (if mqTable m (mqKey m c) = Some c then m\<lparr>mqTable := (mqTable m)(mqKey m c := None)\<rparr> else m)"

definition worker_handled :: "nat \<Rightarrow> monitor_sys \<Rightarrow> monitor_sys" where
  "worker_handled c m =
     (case removeIdleMessageQueue c m of
        (removed, m') \<Rightarrow> m'\<lparr>mqWorker := (mqWorker m')(c := (if removed then Exited else Selecting))\<rparr>)"

inductive monitor_step :: "monitor_sys \<Rightarrow> monitor_sys \<Rightarrow> bool" where
  enqueued: "monitor_step m ((enqueueQueuedMessage \<lparr>qmMessage = msg, qmDone = mqNextMessage m\<rparr> m)\<lparr>mqNextMessage := Suc (mqNextMessage m)\<rparr>)"
| slow_sent: "mqSlow m i = Some (c, q) \<Longrightarrow> length (mqBuf m c) < messageQueueCapacity \<Longrightarrow>
    monitor_step m ((send_queue c q m)\<lparr>mqSlow := (mqSlow m)(i := None)\<rparr>)"
| slow_canceled: "mqSlow m i = Some (c, q) \<Longrightarrow> mqCtxDone m \<Longrightarrow> monitor_step m (m\<lparr>mqSlow := (mqSlow m)(i := None)\<rparr>)"
| received: "mqBuf m c \<noteq> [] \<Longrightarrow> mqWorker m c = Selecting \<or> mqWorker m c = Collecting batch \<Longrightarrow> monitor_step m (worker_receive c m)"
| window_over: "mqWorker m c = Collecting batch \<Longrightarrow> monitor_step m (dispatchQueuedBatch c batch None m)"
| handled: "mqWorker m c = Handling \<Longrightarrow> monitor_step m (worker_handled c m)"
| shutdown: "monitor_step m (m\<lparr>mqCtxDone := True\<rparr>)"
| batch_dropped: "mqWorker m c = Collecting batch \<Longrightarrow> mqCtxDone m \<Longrightarrow> monitor_step m (worker_handled c m)"
| worker_stopped: "mqWorker m c = Selecting \<Longrightarrow> mqCtxDone m \<Longrightarrow>
    monitor_step m ((removeMessageQueue c m)\<lparr>mqWorker := (mqWorker m)(c := Exited)\<rparr>)"

inductive_cases monitor_stepE: "monitor_step m m'"

definition monitor_init :: "monitor_sys \<Rightarrow> bool" where
  "monitor_init m \<longleftrightarrow> (\<exists>w. m = \<lparr>mqTable = Map.empty, mqNextQueue = 0, mqKey = (\<lambda>_. []), mqBuf = (\<lambda>_. []), mqWorker = (\<lambda>_. NotStarted),
     mqSlow = Map.empty, mqTookSlow = {}, mqNextMessage = 0, mqSent = (\<lambda>_. []), mqHandled = (\<lambda>_. []), mqAcks = (\<lambda>_. 0), mqCtxDone = False, mqAggregate = w\<rparr>)"

subsection \<open>The invariant\<close>

definition batch_of :: "queue_worker \<Rightarrow> queuedWeixinMessage list" where
  "batch_of w = (case w of Collecting b \<Rightarrow> b | _ \<Rightarrow> [])"

definition alive :: "queue_worker \<Rightarrow> bool" where
  "alive w \<longleftrightarrow> w \<noteq> NotStarted \<and> w \<noteq> Exited"

definition sent_ids :: "monitor_sys \<Rightarrow> nat \<Rightarrow> nat set" where
  "sent_ids m c = qmDone ` set (mqSent m c)"

definition handled_ids :: "monitor_sys \<Rightarrow> nat \<Rightarrow> nat set" where
  "handled_ids m c = qmDone ` set (concat (mqHandled m c))"

definition flow_inv :: "monitor_sys \<Rightarrow> bool" where
  "flow_inv m \<longleftrightarrow> (\<forall>c. mqSent m c = concat (mqHandled m c) @ batch_of (mqWorker m c) @ mqBuf m c)"

definition ids_inv :: "monitor_sys \<Rightarrow> bool" where
  "ids_inv m \<longleftrightarrow>
     (\<forall>c. distinct (map qmDone (mqSent m c)) \<and> (\<forall>i \<in> sent_ids m c. i < mqNextMessage m)) \<and>
     (\<forall>c c'. c \<noteq> c' \<longrightarrow> sent_ids m c \<inter> sent_ids m c' = {}) \<and>
     (\<forall>i c q. mqSlow m i = Some (c, q) \<longrightarrow> qmDone q = i \<and> i < mqNextMessage m \<and> c < mqNextQueue m \<and> (\<forall>c'. i \<notin> sent_ids m c')) \<and>
     (\<forall>i. mqAcks m i = (if \<exists>c. i \<in> handled_ids m c then 1 else 0))"

definition queues_inv :: "monitor_sys \<Rightarrow> bool" where
  "queues_inv m \<longleftrightarrow>
     (\<forall>key c. mqTable m key = Some c \<longrightarrow> mqKey m c = key \<and> alive (mqWorker m c)) \<and>
     (\<forall>c. alive (mqWorker m c) \<longrightarrow> mqTable m (mqKey m c) = Some c \<and> c < mqNextQueue m) \<and>
     (\<forall>c. mqNextQueue m \<le> c \<longrightarrow> mqSent m c = [] \<and> mqWorker m c = NotStarted)"

definition left_inv :: "monitor_sys \<Rightarrow> bool" where
  "left_inv m \<longleftrightarrow>
     (\<forall>i. mqSlow m i \<noteq> None \<longrightarrow> i \<in> mqTookSlow m) \<and>
     (\<forall>c. mqWorker m c = Exited \<longrightarrow> (\<forall>q \<in> set (mqBuf m c). qmDone q \<in> mqTookSlow m))"

definition monitor_inv :: "monitor_sys \<Rightarrow> bool" where
  "monitor_inv m \<longleftrightarrow> \<not> mqCtxDone m \<longrightarrow> flow_inv m \<and> ids_inv m \<and> queues_inv m \<and> left_inv m"

lemma complete_fields [simp]:
  "mqTable (completeQueuedMessages b m) = mqTable m" "mqNextQueue (completeQueuedMessages b m) = mqNextQueue m"
  "mqKey (completeQueuedMessages b m) = mqKey m" "mqBuf (completeQueuedMessages b m) = mqBuf m"
  "mqWorker (completeQueuedMessages b m) = mqWorker m" "mqSlow (completeQueuedMessages b m) = mqSlow m"
  "mqNextMessage (completeQueuedMessages b m) = mqNextMessage m" "mqSent (completeQueuedMessages b m) = mqSent m"
  "mqHandled (completeQueuedMessages b m) = mqHandled m" "mqCtxDone (completeQueuedMessages b m) = mqCtxDone m"
  by (induction b arbitrary: m) (simp_all add: completeQueuedMessages_def)

lemma complete_acks:
  "distinct (map qmDone b) \<Longrightarrow>
   mqAcks (completeQueuedMessages b m) i = (if i \<in> qmDone ` set b then Suc (mqAcks m i) else mqAcks m i)"
proof (induction b arbitrary: m)
  case (Cons q b)
  let ?m = "m\<lparr>mqAcks := (mqAcks m)(qmDone q := Suc (mqAcks m (qmDone q)))\<rparr>"
  have "completeQueuedMessages (q # b) m = completeQueuedMessages b ?m" by (simp add: completeQueuedMessages_def)
  moreover have "mqAcks (completeQueuedMessages b ?m) i = (if i \<in> qmDone ` set b then Suc (mqAcks ?m i) else mqAcks ?m i)"
    using Cons.IH [of ?m] Cons.prems by simp
  ultimately show ?case using Cons.prems by auto
qed (simp add: completeQueuedMessages_def)

lemma hand_over_fields [simp]:
  "mqTable (hand_over c b m) = mqTable m" "mqNextQueue (hand_over c b m) = mqNextQueue m"
  "mqKey (hand_over c b m) = mqKey m" "mqBuf (hand_over c b m) = mqBuf m"
  "mqWorker (hand_over c b m) = mqWorker m" "mqSlow (hand_over c b m) = mqSlow m"
  "mqNextMessage (hand_over c b m) = mqNextMessage m" "mqSent (hand_over c b m) = mqSent m"
  "mqHandled (hand_over c b m) = (mqHandled m)(c := mqHandled m c @ [b])" "mqCtxDone (hand_over c b m) = mqCtxDone m"
  by (simp_all add: hand_over_def)

text \<open>Handing over a batch that was sent to the queue and not yet handed over acknowledges each of its messages once.\<close>

lemma hand_over_ids:
  assumes ids: "ids_inv m" and h: "\<And>c. handled_ids m c \<subseteq> sent_ids m c" and sub: "mqSent m c = concat (mqHandled m c) @ b @ rest"
  shows "ids_inv (hand_over c b m)" "handled_ids (hand_over c b m) c' \<subseteq> sent_ids (hand_over c b m) c'"
proof -
  have dist: "distinct (map qmDone (concat (mqHandled m c) @ b @ rest))" using ids unfolding ids_inv_def sub [symmetric] by blast
  have ack: "mqAcks m i = (if \<exists>c. i \<in> handled_ids m c then 1 else 0)" for i using ids unfolding ids_inv_def by blast
  have handled: "handled_ids (hand_over c b m) c' = (if c' = c then handled_ids m c \<union> qmDone ` set b else handled_ids m c')" for c'
    by (auto simp: handled_ids_def)
  then have "handled_ids m c' \<subseteq> handled_ids (hand_over c b m) c'" "qmDone ` set b \<subseteq> handled_ids (hand_over c b m) c"
    "handled_ids (hand_over c b m) c' \<subseteq> handled_ids m c' \<union> qmDone ` set b" for c' by auto
  then have ex: "(\<exists>c'. i \<in> handled_ids (hand_over c b m) c') \<longleftrightarrow> i \<in> qmDone ` set b \<or> (\<exists>c'. i \<in> handled_ids m c')" for i by blast
  have bs: "qmDone ` set b \<subseteq> sent_ids m c" unfolding sent_ids_def sub by auto
  have "qmDone ` set b \<inter> handled_ids m c = {}"
    using dist unfolding handled_ids_def map_append distinct_append set_append set_map by blast
  moreover have "qmDone ` set b \<inter> handled_ids m c' = {}" if "c' \<noteq> c" for c'
    using bs h [of c'] that ids unfolding ids_inv_def by blast
  ultimately have fresh: "i \<notin> handled_ids m c'" if "i \<in> qmDone ` set b" for i c' using that by (cases "c' = c") auto
  have "mqAcks (hand_over c b m) i = (if i \<in> qmDone ` set b then Suc (mqAcks m i) else mqAcks m i)" for i
    using dist by (simp add: hand_over_def complete_acks)
  then have "mqAcks (hand_over c b m) i = (if \<exists>c'. i \<in> handled_ids (hand_over c b m) c' then 1 else 0)" for i
    using fresh [of i] ack [of i] ex [of i] by (cases "i \<in> qmDone ` set b") simp_all
  then show "ids_inv (hand_over c b m)" using ids unfolding ids_inv_def sent_ids_def by simp
  show "handled_ids (hand_over c b m) c' \<subseteq> sent_ids (hand_over c b m) c'"
    using h [of c'] bs unfolding handled by (auto simp: sent_ids_def)
qed

lemma flow_handled: "flow_inv m \<Longrightarrow> handled_ids m c \<subseteq> sent_ids m c"
  unfolding flow_inv_def handled_ids_def sent_ids_def by auto

lemma flowD: "flow_inv m \<Longrightarrow> mqSent m c = concat (mqHandled m c) @ batch_of (mqWorker m c) @ mqBuf m c"
  unfolding flow_inv_def by blast

lemma idsD:
  assumes "ids_inv m"
  shows "distinct (map qmDone (mqSent m c))" "i \<in> sent_ids m c \<Longrightarrow> i < mqNextMessage m"
    "c \<noteq> c' \<Longrightarrow> sent_ids m c \<inter> sent_ids m c' = {}"
    "mqSlow m i = Some (c, q) \<Longrightarrow> qmDone q = i \<and> i < mqNextMessage m \<and> c < mqNextQueue m \<and> (\<forall>c'. i \<notin> sent_ids m c')"
    "mqAcks m i = (if \<exists>c. i \<in> handled_ids m c then 1 else 0)"
  using assms unfolding ids_inv_def by blast+

lemma idsI:
  assumes "\<And>c. distinct (map qmDone (mqSent m c))" "\<And>i c. i \<in> sent_ids m c \<Longrightarrow> i < mqNextMessage m"
    "\<And>c c'. c \<noteq> c' \<Longrightarrow> sent_ids m c \<inter> sent_ids m c' = {}"
    "\<And>i c q. mqSlow m i = Some (c, q) \<Longrightarrow> qmDone q = i \<and> i < mqNextMessage m \<and> c < mqNextQueue m \<and> (\<forall>c'. i \<notin> sent_ids m c')"
    "\<And>i. mqAcks m i = (if \<exists>c. i \<in> handled_ids m c then 1 else 0)"
  shows "ids_inv m"
  using assms unfolding ids_inv_def by blast

lemma alive_simps [simp]:
  "alive Selecting" "alive Handling" "alive (Collecting b)" "\<not> alive NotStarted" "\<not> alive Exited"
  "batch_of Selecting = []" "batch_of Handling = []" "batch_of (Collecting b) = b" "batch_of NotStarted = []" "batch_of Exited = []"
  by (simp_all add: alive_def batch_of_def)

lemma queuesD:
  assumes "queues_inv m"
  shows "mqTable m key = Some c \<Longrightarrow> mqKey m c = key \<and> alive (mqWorker m c)"
    "alive (mqWorker m c) \<Longrightarrow> mqTable m (mqKey m c) = Some c \<and> c < mqNextQueue m"
    "mqNextQueue m \<le> c \<Longrightarrow> mqSent m c = [] \<and> mqWorker m c = NotStarted"
  using assms unfolding queues_inv_def by blast+

text \<open>Sending a message that was not sent before.\<close>

lemma send_inv:
  assumes inv: "flow_inv m" "ids_inv m" "queues_inv m" and c: "c < mqNextQueue m"
    and q: "qmDone q < mqNextMessage m" "\<And>c'. qmDone q \<notin> sent_ids m c'" "mqSlow m (qmDone q) = None"
  shows "flow_inv (send_queue c q m) \<and> ids_inv (send_queue c q m) \<and> queues_inv (send_queue c q m)"
proof (intro conjI)
  show "flow_inv (send_queue c q m)" using inv(1) by (simp add: flow_inv_def send_queue_def)
  show "queues_inv (send_queue c q m)" using inv(3) c by (auto simp: queues_inv_def send_queue_def)
  have s: "sent_ids (send_queue c q m) c' = (if c' = c then insert (qmDone q) (sent_ids m c) else sent_ids m c')" for c'
    by (auto simp: sent_ids_def send_queue_def)
  have h: "handled_ids (send_queue c q m) = handled_ids m" by (rule ext) (simp add: handled_ids_def send_queue_def)
  have "distinct (map qmDone (mqSent (send_queue c q m) c'))" for c'
    using idsD(1) [OF inv(2), of c'] q(2) [of c'] by (auto simp: send_queue_def sent_ids_def)
  moreover have "sent_ids (send_queue c q m) c1 \<inter> sent_ids (send_queue c q m) c2 = {}" if "c1 \<noteq> c2" for c1 c2
    using idsD(3) [OF inv(2) that] q(2) that unfolding s by auto
  moreover have "\<forall>i c' p. mqSlow m i = Some (c', p) \<longrightarrow> qmDone p = i \<and> i < mqNextMessage m \<and> c' < mqNextQueue m \<and>
      (\<forall>c''. i \<notin> sent_ids (send_queue c q m) c'')"
    using idsD(4) [OF inv(2)] q(3) unfolding s by (metis insert_iff option.distinct(1))
  moreover have "mqSlow (send_queue c q m) = mqSlow m" "mqNextMessage (send_queue c q m) = mqNextMessage m"
    "mqNextQueue (send_queue c q m) = mqNextQueue m" "mqAcks (send_queue c q m) = mqAcks m"
    by (simp_all add: send_queue_def)
  ultimately show "ids_inv (send_queue c q m)"
    using idsD(2,5) [OF inv(2)] q(1) unfolding ids_inv_def h by (simp add: s)
qed

lemma ensure_inv:
  assumes inv: "flow_inv m" "ids_inv m" "queues_inv m" and e: "ensure_queue key m = (c, m')"
  shows "flow_inv m' \<and> ids_inv m' \<and> queues_inv m' \<and> c < mqNextQueue m' \<and> mqTable m' key = Some c \<and>
    mqSlow m' = mqSlow m \<and> mqNextMessage m' = mqNextMessage m \<and> sent_ids m' = sent_ids m \<and> mqCtxDone m' = mqCtxDone m"
proof (cases "mqTable m key")
  case (Some d)
  then show ?thesis using e inv queuesD(1,2) [OF inv(3)] by (auto simp: ensure_queue_def)
next
  case None
  let ?n = "mqNextQueue m"
  have c: "c = ?n" and m': "m' = m\<lparr>mqTable := (mqTable m)(key \<mapsto> ?n), mqNextQueue := Suc ?n, mqKey := (mqKey m)(?n := key),
      mqWorker := (mqWorker m)(?n := Selecting)\<rparr>"
    using e None by (auto simp: ensure_queue_def Let_def)
  have new: "mqSent m ?n = []" "mqWorker m ?n = NotStarted" using queuesD(3) [OF inv(3), of ?n] by simp_all
  then have "flow_inv m'" using inv(1) unfolding m' flow_inv_def by (auto split: if_splits)
  moreover have ids: "sent_ids m' = sent_ids m" "handled_ids m' = handled_ids m"
    by (rule ext, simp add: m' sent_ids_def handled_ids_def)+
  then have "ids_inv m'" using inv(2) unfolding ids_inv_def by (auto simp: m' less_SucI)
  moreover have "queues_inv m'"
  proof -
    have other: "d \<noteq> ?n" if "mqTable m k = Some d" for k d using queuesD(1) [OF inv(3) that] new(2) by auto
    have own: "mqKey m d \<noteq> key" if "alive (mqWorker m d)" for d using queuesD(2) [OF inv(3) that] None by auto
    show ?thesis unfolding queues_inv_def m'
      using queuesD [OF inv(3)] other own by (auto simp: less_SucI)
  qed
  ultimately show ?thesis using ids by (simp add: m' c)
qed

lemma enqueue_inv:
  fixes msg :: WeixinMessage
  assumes inv: "flow_inv m" "ids_inv m" "queues_inv m"
  defines "q \<equiv> \<lparr>qmMessage = msg, qmDone = mqNextMessage m\<rparr>"
  defines "m' \<equiv> (enqueueQueuedMessage q m)\<lparr>mqNextMessage := Suc (mqNextMessage m)\<rparr>"
  shows "flow_inv m' \<and> ids_inv m' \<and> queues_inv m'"
proof -
  obtain c m1 where e: "ensure_queue (queue_key msg) m = (c, m1)" by fastforce
  note E = ensure_inv [OF inv e]
  let ?m = "m1\<lparr>mqNextMessage := Suc (mqNextMessage m)\<rparr>"
  have f: "flow_inv ?m" using E by (auto simp: flow_inv_def)
  have s: "sent_ids ?m = sent_ids m1" "handled_ids ?m = handled_ids m1" by (rule ext, simp add: sent_ids_def handled_ids_def)+
  have i1: "ids_inv m1" using E by blast
  have i: "ids_inv ?m"
  proof (rule idsI, goal_cases)
    case (3 c c')
    then show ?case using idsD(3) [OF i1] s by simp
  next
    case (4 i c q)
    then show ?case using idsD(4) [OF i1, of i c q] s E by (simp add: less_SucI)
  qed (use idsD(1,2,5) [OF i1] s E in \<open>auto simp: less_SucI\<close>)
  have qu: "queues_inv ?m" using E by (auto simp: queues_inv_def)
  have q: "qmDone q \<notin> sent_ids ?m c'" for c' using idsD(2) [OF inv(2), of "qmDone q" c'] E unfolding s by (auto simp: q_def)
  have slow: "mqSlow ?m (qmDone q) = None" using idsD(4) [OF inv(2), of "qmDone q"] E by (cases "mqSlow m (qmDone q)") (auto simp: q_def)
  have c: "c < mqNextQueue ?m" "qmDone q < mqNextMessage ?m" using E by (simp_all add: q_def)
  show ?thesis
  proof (cases "length (mqBuf m1 c) < messageQueueCapacity")
    case True
    then have "m' = send_queue c q ?m" by (simp add: m'_def enqueueQueuedMessage_def q_def e send_queue_def)
    then show ?thesis using send_inv [OF f i qu c q slow] by simp
  next
    case False
    then have m': "m' = ?m\<lparr>mqSlow := (mqSlow ?m)(qmDone q \<mapsto> (c, q)), mqTookSlow := insert (qmDone q) (mqTookSlow ?m)\<rparr>" by (simp add: m'_def enqueueQueuedMessage_def q_def e)
    have s': "sent_ids m' = sent_ids ?m" "handled_ids m' = handled_ids ?m" by (rule ext, simp add: m' sent_ids_def handled_ids_def)+
    have "ids_inv m'"
    proof (rule idsI, goal_cases)
      case (3 c c')
      then show ?case using idsD(3) [OF i] s' by simp
    next
      case (4 j c' p)
      then show ?case using idsD(4) [OF i, of j c' p] c q unfolding s' by (auto simp: m' split: if_splits)
    qed (use idsD(1,2,5) [OF i] s' in \<open>auto simp: m'\<close>)
    then show ?thesis using f qu by (simp add: flow_inv_def queues_inv_def m')
  qed
qed

lemma slow_inv:
  assumes inv: "flow_inv m" "ids_inv m" "queues_inv m" and i: "mqSlow m i = Some (c, q)"
  shows "flow_inv ((send_queue c q m)\<lparr>mqSlow := (mqSlow m)(i := None)\<rparr>) \<and> ids_inv ((send_queue c q m)\<lparr>mqSlow := (mqSlow m)(i := None)\<rparr>) \<and>
    queues_inv ((send_queue c q m)\<lparr>mqSlow := (mqSlow m)(i := None)\<rparr>)"
proof -
  let ?m = "m\<lparr>mqSlow := (mqSlow m)(i := None)\<rparr>"
  note I = idsD(4) [OF inv(2) i]
  have s: "sent_ids ?m = sent_ids m" "handled_ids ?m = handled_ids m" by (rule ext, simp add: sent_ids_def handled_ids_def)+
  have "flow_inv ?m" using inv(1) by (simp add: flow_inv_def)
  moreover have "queues_inv ?m" using inv(3) by (simp add: queues_inv_def)
  moreover have "ids_inv ?m" using inv(2) unfolding ids_inv_def s by auto
  moreover have "(send_queue c q m)\<lparr>mqSlow := (mqSlow m)(i := None)\<rparr> = send_queue c q ?m" by (simp add: send_queue_def)
  ultimately show ?thesis using send_inv [of ?m c q] I by (simp add: s)
qed

lemma queues_cong:
  assumes "queues_inv m" "mqTable m' = mqTable m" "mqKey m' = mqKey m" "mqSent m' = mqSent m" "mqNextQueue m' = mqNextQueue m"
    "\<And>c. alive (mqWorker m' c) = alive (mqWorker m c)" "\<And>c. mqWorker m c = NotStarted \<Longrightarrow> mqWorker m' c = NotStarted"
  shows "queues_inv m'"
  using assms unfolding queues_inv_def by metis

lemma ids_cong:
  assumes "ids_inv m" "mqSent m' = mqSent m" "mqHandled m' = mqHandled m" "mqNextMessage m' = mqNextMessage m" "mqSlow m' = mqSlow m"
    "mqNextQueue m' = mqNextQueue m" "mqAcks m' = mqAcks m"
  shows "ids_inv m'"
  using assms unfolding ids_inv_def sent_ids_def handled_ids_def by simp

lemma dispatch_inv:
  assumes ids: "ids_inv m" and qu: "queues_inv m" and a: "alive (mqWorker m c)"
    and flow: "\<And>c'. c' \<noteq> c \<Longrightarrow> mqSent m c' = concat (mqHandled m c') @ batch_of (mqWorker m c') @ mqBuf m c'"
    and sent: "mqSent m c = concat (mqHandled m c) @ batch @ (case command of None \<Rightarrow> [] | Some q \<Rightarrow> [q]) @ mqBuf m c"
  shows "flow_inv (dispatchQueuedBatch c batch command m) \<and> ids_inv (dispatchQueuedBatch c batch command m) \<and>
    queues_inv (dispatchQueuedBatch c batch command m)"
proof -
  let ?d = "dispatchQueuedBatch c batch command m"
  have h: "handled_ids m c' \<subseteq> sent_ids m c'" for c'
    using flow [of c'] sent by (cases "c' = c") (auto simp: handled_ids_def sent_ids_def)
  let ?m1 = "hand_over c batch m"
  note one = hand_over_ids [OF ids h sent]
  have "ids_inv (hand_over c [q] ?m1)" if "command = Some q" for q
    by (rule hand_over_ids(1) [OF one, where rest = "mqBuf m c"]) (use sent that in simp)
  then have "ids_inv ?d" using one(1) unfolding dispatchQueuedBatch_def Let_def
    by (cases command) (auto intro: ids_cong)
  moreover have "queues_inv ?d" by (rule queues_cong [OF qu]) (use a in \<open>auto simp: dispatchQueuedBatch_def Let_def split: option.splits\<close>)
  moreover have "flow_inv ?d" unfolding flow_inv_def using flow sent
    by (auto simp: dispatchQueuedBatch_def Let_def split: option.splits)
  ultimately show ?thesis by blast
qed

lemma received_inv:
  assumes inv: "flow_inv m" "ids_inv m" "queues_inv m" and b: "mqBuf m c \<noteq> []"
    and w: "mqWorker m c = Selecting \<or> mqWorker m c = Collecting batch"
  shows "flow_inv (worker_receive c m) \<and> ids_inv (worker_receive c m) \<and> queues_inv (worker_receive c m)"
proof -
  obtain q rest where q: "mqBuf m c = q # rest" using b by (cases "mqBuf m c") auto
  let ?m = "m\<lparr>mqBuf := (mqBuf m)(c := rest)\<rparr>"
  have i: "ids_inv ?m" by (rule ids_cong [OF inv(2)]) simp_all
  have qu: "queues_inv ?m" by (rule queues_cong [OF inv(3)]) simp_all
  have a: "alive (mqWorker ?m c)" using w by auto
  have sent: "mqSent ?m c = concat (mqHandled ?m c) @ batch_of (mqWorker m c) @ [q] @ mqBuf ?m c" using flowD [OF inv(1), of c] q by simp
  have flow: "mqSent ?m c' = concat (mqHandled ?m c') @ batch_of (mqWorker ?m c') @ mqBuf ?m c'" if "c' \<noteq> c" for c'
    using flowD [OF inv(1), of c'] that by simp
  have collect: "flow_inv n \<and> ids_inv n \<and> queues_inv n"
    if "n = ?m\<lparr>mqWorker := (mqWorker ?m)(c := Collecting (batch_of (mqWorker m c) @ [q]))\<rparr>" for n
  proof (intro conjI)
    show "flow_inv n" unfolding flow_inv_def using flow sent that by auto
    show "ids_inv n" by (rule ids_cong [OF i]) (use that in simp_all)
    show "queues_inv n" by (rule queues_cong [OF qu]) (use a that in auto)
  qed
  have d1: "mqSent ?m c = concat (mqHandled ?m c) @ [q] @ (case None of None \<Rightarrow> [] | Some q \<Rightarrow> [q]) @ mqBuf ?m c" if "mqWorker m c = Selecting"
    using sent that by simp
  have d2: "mqSent ?m c = concat (mqHandled ?m c) @ batch @ (case Some q of None \<Rightarrow> [] | Some q \<Rightarrow> [q]) @ mqBuf ?m c"
    if "mqWorker m c = Collecting batch" using sent that by simp
  show ?thesis using w
  proof
    assume s: "mqWorker m c = Selecting"
    then show ?thesis using dispatch_inv [OF i qu a flow d1 [OF s]] collect
      by (simp add: worker_receive_def Let_def q)
  next
    assume s: "mqWorker m c = Collecting batch"
    then show ?thesis using dispatch_inv [OF i qu a flow d2 [OF s]] collect
      by (simp add: worker_receive_def Let_def q)
  qed
qed

lemma handled_inv:
  assumes inv: "flow_inv m" "ids_inv m" "queues_inv m" and w: "mqWorker m c = Handling"
  shows "flow_inv (worker_handled c m) \<and> ids_inv (worker_handled c m) \<and> queues_inv (worker_handled c m)"
proof (cases "mqBuf m c = []")
  case False
  then have m': "worker_handled c m = m\<lparr>mqWorker := (mqWorker m)(c := Selecting)\<rparr>"
    by (simp add: worker_handled_def removeIdleMessageQueue_def)
  have "queues_inv (worker_handled c m)" by (rule queues_cong [OF inv(3)]) (use w m' in auto)
  moreover have "ids_inv (worker_handled c m)" by (rule ids_cong [OF inv(2)]) (simp_all add: m')
  ultimately show ?thesis using flowD [OF inv(1)] w by (auto simp: flow_inv_def m')
next
  case True
  have t: "mqTable m (mqKey m c) = Some c" using queuesD(2) [OF inv(3), of c] w by simp
  then have m': "worker_handled c m = m\<lparr>mqTable := (mqTable m)(mqKey m c := None), mqWorker := (mqWorker m)(c := Exited)\<rparr>"
    using True by (simp add: worker_handled_def removeIdleMessageQueue_def)
  have only: "mqKey m d = mqKey m c \<Longrightarrow> alive (mqWorker m d) \<Longrightarrow> d = c" for d using queuesD(2) [OF inv(3), of d] t by (metis option.inject)
  have "queues_inv (worker_handled c m)" unfolding queues_inv_def m'
  proof (intro conjI allI impI, goal_cases)
    case (1 key d)
    then have "mqTable m key = Some d \<and> key \<noteq> mqKey m c" by (simp split: if_splits)
    then show ?case using queuesD(1) [OF inv(3), of key d] by simp
  next
    case (2 key d)
    then have "mqTable m key = Some d \<and> key \<noteq> mqKey m c" by (simp split: if_splits)
    then show ?case using queuesD(1) [OF inv(3), of key d] by auto
  next
    case (3 d)
    then have "alive (mqWorker m d) \<and> d \<noteq> c" by (auto split: if_splits)
    then show ?case using queuesD(2) [OF inv(3), of d] only by auto
  next
    case (4 d)
    then have "alive (mqWorker m d)" by (auto split: if_splits)
    then show ?case using queuesD(2) [OF inv(3), of d] by simp
  next
    case (5 d)
    then show ?case using queuesD(3) [OF inv(3), of d] by simp
  next
    case (6 d)
    then show ?case using queuesD(3) [OF inv(3), of d] w by auto
  qed
  moreover have "ids_inv (worker_handled c m)" by (rule ids_cong [OF inv(2)]) (simp_all add: m')
  ultimately show ?thesis using flowD [OF inv(1)] w by (auto simp: flow_inv_def m')
qed

lemma ctx_fields [simp]:
  "mqCtxDone (send_queue c q m) = mqCtxDone m" "mqCtxDone (dispatchQueuedBatch c b command m) = mqCtxDone m"
  "mqCtxDone (worker_receive c m) = mqCtxDone m" "mqCtxDone (worker_handled c m) = mqCtxDone m"
  "mqCtxDone (enqueueQueuedMessage q m) = mqCtxDone m" "mqCtxDone (removeMessageQueue c m) = mqCtxDone m"
  by (auto simp: send_queue_def dispatchQueuedBatch_def worker_receive_def worker_handled_def removeIdleMessageQueue_def
      enqueueQueuedMessage_def ensure_queue_def removeMessageQueue_def Let_def split: option.splits queue_worker.splits)

lemma took_fields [simp]:
  "mqTookSlow (completeQueuedMessages b m) = mqTookSlow m" "mqTookSlow (hand_over c b m) = mqTookSlow m"
proof -
  show "mqTookSlow (completeQueuedMessages b m) = mqTookSlow m" for b m
    by (induction b arbitrary: m) (simp_all add: completeQueuedMessages_def)
  then show "mqTookSlow (hand_over c b m) = mqTookSlow m" by (simp add: hand_over_def)
qed

text \<open>A message that stays in a queue without worker took the slow path.\<close>

lemma left_step:
  assumes left: "left_inv m" and i: "ids_inv m" "queues_inv m" and up: "\<not> mqCtxDone m" and step: "monitor_step m m'"
  shows "left_inv m'"
  using step
proof cases
  case (enqueued msg)
  obtain c m1 where e: "ensure_queue (queue_key msg) m = (c, m1)" by fastforce
  have m1: "mqSlow m1 = mqSlow m" "mqTookSlow m1 = mqTookSlow m" "mqBuf m1 = mqBuf m" "alive (mqWorker m1 c)"
    "mqWorker m1 d = Exited \<Longrightarrow> mqWorker m d = Exited" for d
    using e queuesD(1) [OF i(2), of "queue_key msg"] by (auto simp: ensure_queue_def Let_def split: option.splits if_splits)
  have gone: "qmDone q \<in> mqTookSlow m" if "mqWorker m1 d = Exited" "q \<in> set (mqBuf m d)" for d q
    using left m1(5) [OF that(1)] that(2) unfolding left_inv_def by blast
  have slow: "i \<in> mqTookSlow m" if "mqSlow m i \<noteq> None" for i using left that unfolding left_inv_def by blast
  show ?thesis unfolding enqueued(1) left_inv_def using gone slow m1(1-4)
    by (auto simp: enqueueQueuedMessage_def e send_queue_def)
next
  case (slow_sent i c q)
  have "qmDone q = i" using idsD(4) [OF i(1) slow_sent(2)] by simp
  moreover have "i \<in> mqTookSlow m" using left slow_sent(2) by (auto simp: left_inv_def)
  ultimately show ?thesis using left unfolding slow_sent(1) by (auto simp: left_inv_def send_queue_def)
next
  case (received c batch)
  then show ?thesis using left
    by (auto simp: left_inv_def worker_receive_def dispatchQueuedBatch_def Let_def split: option.splits queue_worker.splits)
next
  case (window_over c batch)
  then show ?thesis using left by (auto simp: left_inv_def dispatchQueuedBatch_def Let_def)
next
  case (handled c)
  then show ?thesis using left by (auto simp: left_inv_def worker_handled_def removeIdleMessageQueue_def)
qed (use left up in \<open>auto simp: left_inv_def\<close>)

lemma monitor_inv_step:
  assumes inv: "monitor_inv m" and step: "monitor_step m m'"
  shows "monitor_inv m'"
proof (cases "mqCtxDone m'")
  case False
  have "\<not> mqCtxDone m" using step False
    by cases auto
  then have i: "flow_inv m" "ids_inv m" "queues_inv m" and left: "left_inv m" using inv by (simp_all add: monitor_inv_def)
  have "flow_inv m' \<and> ids_inv m' \<and> queues_inv m'" using step
  proof cases
    case (window_over c batch)
    show ?thesis unfolding window_over(1)
      by (rule dispatch_inv [OF i(2,3)]) (use flowD [OF i(1)] window_over(2) in auto)
  qed (use i False \<open>\<not> mqCtxDone m\<close> enqueue_inv slow_inv received_inv handled_inv in auto)
  then show ?thesis using left_step [OF left i(2,3) \<open>\<not> mqCtxDone m\<close> step] by (simp add: monitor_inv_def)
qed (simp add: monitor_inv_def)

lemma monitor_inv_init: "monitor_init m \<Longrightarrow> monitor_inv m"
  by (auto simp: monitor_init_def monitor_inv_def flow_inv_def ids_inv_def queues_inv_def left_inv_def sent_ids_def handled_ids_def)

interpretation monitor: invariant_system monitor_init monitor_step monitor_inv
  by unfold_locales (auto intro: monitor_inv_init monitor_inv_step)


subsection \<open>The slow path\<close>

text \<open>A run of 65 messages of one user: the first 64 fill the queue, the caller with the last goes to the slow path.\<close>

definition plain_message :: WeixinMessage where
  "plain_message = \<lparr>wmSeq = 0, wmMessageID = 0, wmFromUserID = ''u'', wmToUserID = [], wmClientID = [], wmItemList = []\<rparr>"

definition nth_queued :: "nat \<Rightarrow> queuedWeixinMessage" where
  "nth_queued i = \<lparr>qmMessage = plain_message, qmDone = i\<rparr>"

definition no_queues :: monitor_sys where
  "no_queues = \<lparr>mqTable = Map.empty, mqNextQueue = 0, mqKey = (\<lambda>_. []), mqBuf = (\<lambda>_. []), mqWorker = (\<lambda>_. NotStarted),
     mqSlow = Map.empty, mqTookSlow = {}, mqNextMessage = 0, mqSent = (\<lambda>_. []), mqHandled = (\<lambda>_. []), mqAcks = (\<lambda>_. 0), mqCtxDone = False, mqAggregate = 1\<rparr>"

definition filled :: "nat \<Rightarrow> monitor_sys" where
  "filled n = no_queues\<lparr>mqTable := [''u'' \<mapsto> 0], mqNextQueue := 1, mqKey := (\<lambda>_. [])(0 := ''u''),
     mqBuf := (\<lambda>_. [])(0 := map nth_queued [0..<n]), mqWorker := (\<lambda>_. NotStarted)(0 := Selecting), mqNextMessage := n,
     mqSent := (\<lambda>_. [])(0 := map nth_queued [0..<n])\<rparr>"

definition full_queue :: monitor_sys where
  "full_queue = (filled 64)\<lparr>mqSlow := [64 \<mapsto> (0, nth_queued 64)], mqTookSlow := {64}, mqNextMessage := 65\<rparr>"

definition collecting :: "nat \<Rightarrow> monitor_sys" where
  "collecting k = full_queue\<lparr>mqBuf := (mqBuf full_queue)(0 := map nth_queued [k..<64]),
     mqWorker := (mqWorker full_queue)(0 := Collecting (map nth_queued [0..<k]))\<rparr>"

definition worker_gone :: monitor_sys where
  "worker_gone = worker_handled 0 (dispatchQueuedBatch 0 (map nth_queued [0..<64]) None (collecting 64))"

definition orphaned :: monitor_sys where
  "orphaned = (send_queue 0 (nth_queued 64) worker_gone)\<lparr>mqSlow := (mqSlow worker_gone)(64 := None)\<rparr>"

lemma plain_facts: "queue_key plain_message = ''u''" "\<not> isCommandWeixinMessage plain_message"
  by (simp_all add: queue_key_def firstNonEmptyString_def plain_message_def isCommandWeixinMessage_def weixinMessageText_def List.map_filter_def)

lemma filled_reach: "n < 64 \<Longrightarrow> reach monitor_init monitor_step (filled (Suc n))"
proof (induction n)
  case 0
  have "reach monitor_init monitor_step no_queues" by (rule reach_init) (auto simp: monitor_init_def no_queues_def)
  moreover have "monitor_step no_queues (filled (Suc 0))"
    using enqueued [of no_queues plain_message]
    by (simp add: enqueueQueuedMessage_def ensure_queue_def plain_facts no_queues_def filled_def send_queue_def
        messageQueueCapacity_def nth_queued_def Let_def)
  ultimately show ?case by (rule reach_step)
next
  case (Suc n)
  have "monitor_step (filled (Suc n)) (filled (Suc (Suc n)))"
    using enqueued [of "filled (Suc n)" plain_message] Suc.prems
    by (simp add: enqueueQueuedMessage_def ensure_queue_def plain_facts filled_def no_queues_def send_queue_def
        messageQueueCapacity_def nth_queued_def)
  then show ?case using Suc reach_step by (metis Suc_lessD)
qed

lemma collecting_reach: "k < 64 \<Longrightarrow> reach monitor_init monitor_step (collecting (Suc k))"
proof (induction k)
  case 0
  have r: "reach monitor_init monitor_step (filled 64)" using filled_reach [of 63] by simp
  have "monitor_step (filled 64) full_queue"
    using enqueued [of "filled 64" plain_message]
    by (simp add: full_queue_def enqueueQueuedMessage_def ensure_queue_def plain_facts filled_def no_queues_def
        messageQueueCapacity_def nth_queued_def)
  moreover have "monitor_step full_queue (collecting (Suc 0))"
    using received [of full_queue 0] upt_conv_Cons [of 0 64]
    by (simp add: worker_receive_def Let_def collecting_def full_queue_def filled_def no_queues_def nth_queued_def plain_facts)
  ultimately show ?case using r reach_step by metis
next
  case (Suc k)
  have "monitor_step (collecting (Suc k)) (collecting (Suc (Suc k)))"
    using received [of "collecting (Suc k)" 0 "map nth_queued [0..<Suc k]"] upt_conv_Cons [of "Suc k" 64] Suc.prems
    by (simp add: worker_receive_def Let_def collecting_def full_queue_def filled_def no_queues_def nth_queued_def plain_facts)
  then show ?case using Suc reach_step by (metis Suc_lessD)
qed

lemma worker_gone_fields:
  "mqWorker worker_gone 0 = Exited" "mqBuf worker_gone 0 = []" "mqSlow worker_gone = [64 \<mapsto> (0, nth_queued 64)]"
  "mqNextQueue worker_gone = 1" "mqCtxDone worker_gone = False"
  by (simp_all add: worker_gone_def worker_handled_def removeIdleMessageQueue_def dispatchQueuedBatch_def Let_def collecting_def
      full_queue_def filled_def no_queues_def)

lemma orphaned_reach: "reach monitor_init monitor_step orphaned"
proof -
  have r: "reach monitor_init monitor_step (collecting 64)" using collecting_reach [of 63] by simp
  have w: "mqWorker (collecting 64) 0 = Collecting (map nth_queued [0..<64])" by (simp add: collecting_def)
  let ?d = "dispatchQueuedBatch 0 (map nth_queued [0..<64]) None (collecting 64)"
  have "monitor_step (collecting 64) ?d" by (rule window_over [OF w])
  moreover have "mqWorker ?d 0 = Handling" by (simp add: dispatchQueuedBatch_def Let_def)
  then have "monitor_step ?d worker_gone" unfolding worker_gone_def by (rule handled)
  moreover have "monitor_step worker_gone orphaned" unfolding orphaned_def
    by (rule slow_sent) (simp_all add: worker_gone_fields messageQueueCapacity_def)
  ultimately show ?thesis using r reach_step by metis
qed

text \<open>A queue whose worker has exited keeps its messages.\<close>

lemma stuck_step:
  assumes step: "monitor_step m m'" and w: "mqWorker m c = Exited" "c < mqNextQueue m" "q \<in> set (mqBuf m c)"
  shows "mqWorker m' c = Exited \<and> c < mqNextQueue m' \<and> q \<in> set (mqBuf m' c)"
  using step
proof cases
  case (enqueued msg)
  then show ?thesis using w
    by (auto simp: enqueueQueuedMessage_def ensure_queue_def send_queue_def Let_def split: option.splits)
next
  case (received d batch)
  then have "d \<noteq> c" using w by auto
  then show ?thesis using w unfolding received(1)
    by (auto simp: worker_receive_def dispatchQueuedBatch_def Let_def split: option.splits queue_worker.splits)
next
  case (window_over d batch)
  then have "d \<noteq> c" using w by auto
  then show ?thesis using w unfolding window_over(1) by (simp add: dispatchQueuedBatch_def Let_def)
next
  case (handled d)
  then have "d \<noteq> c" using w by auto
  then show ?thesis using w unfolding handled(1) by (simp add: worker_handled_def removeIdleMessageQueue_def)
next
  case (batch_dropped d batch)
  then have "d \<noteq> c" using w by auto
  then show ?thesis using w unfolding batch_dropped(1) by (simp add: worker_handled_def removeIdleMessageQueue_def)
next
  case (worker_stopped d)
  then have "d \<noteq> c" using w by auto
  then show ?thesis using w unfolding worker_stopped(1) by (simp add: removeMessageQueue_def)
qed (use w in \<open>auto simp: send_queue_def\<close>)

lemma reach_steps: "monitor_step\<^sup>*\<^sup>* m m' \<Longrightarrow> reach monitor_init monitor_step m \<Longrightarrow> reach monitor_init monitor_step m'"
  by (induction rule: rtranclp_induct) (auto intro: reach_step)

lemma stuck_steps:
  "monitor_step\<^sup>*\<^sup>* m m' \<Longrightarrow> mqWorker m c = Exited \<Longrightarrow> c < mqNextQueue m \<Longrightarrow> q \<in> set (mqBuf m c) \<Longrightarrow>
   mqWorker m' c = Exited \<and> c < mqNextQueue m' \<and> q \<in> set (mqBuf m' c)"
  by (induction rule: rtranclp_induct) (use stuck_step in blast)+

lemma buffered_not_acked:
  assumes r: "reach monitor_init monitor_step m" and up: "\<not> mqCtxDone m" and q: "q \<in> set (mqBuf m c)"
  shows "mqAcks m (qmDone q) = 0"
proof -
  have i: "flow_inv m" "ids_inv m" using monitor.reach_inv [OF r] up by (simp_all add: monitor_inv_def)
  have "qmDone q \<notin> handled_ids m d" for d
  proof (cases "d = c")
    case True
    have "distinct (map qmDone (concat (mqHandled m c) @ batch_of (mqWorker m c) @ mqBuf m c))"
      using idsD(1) [OF i(2), of c] flowD [OF i(1), of c] by metis
    then have "qmDone ` set (concat (mqHandled m c)) \<inter> qmDone ` set (mqBuf m c) = {}"
      unfolding map_append distinct_append set_append set_map by blast
    then show ?thesis using q True unfolding handled_ids_def by blast
  next
    case False
    have "qmDone q \<in> sent_ids m c" using flowD [OF i(1), of c] q unfolding sent_ids_def by auto
    then show ?thesis using idsD(3) [OF i(2) False] flow_handled [OF i(1), of d] by blast
  qed
  then show ?thesis using idsD(5) [OF i(2), of "qmDone q"] by simp
qed

text \<open>
  The slow path of \<open>enqueueQueuedMessage\<close> can lose a message. A caller that finds the queue full releases
  the lock before it sends; the worker can hand over everything in the queue, find it idle, remove it and exit before the send, which then
  succeeds on a queue nobody reads. In such a state, which is reachable, the message stays in the queue for ever and is never
  acknowledged, so the poll loop, which waits for the acknowledgement, does not go on until the monitor is shut down.
\<close>

theorem slow_enqueue_can_be_orphaned:
  assumes later: "monitor_step\<^sup>*\<^sup>* orphaned m"
  shows "reach monitor_init monitor_step orphaned \<and> \<not> mqCtxDone orphaned \<and>
    nth_queued 64 \<in> set (mqBuf m 0) \<and> (mqCtxDone m \<or> mqAcks m 64 = 0)"
proof -
  let ?q = "nth_queued 64"
  have o: "mqWorker orphaned 0 = Exited" "0 < mqNextQueue orphaned" "?q \<in> set (mqBuf orphaned 0)" "\<not> mqCtxDone orphaned"
    by (simp_all add: orphaned_def send_queue_def worker_gone_fields)
  have q: "?q \<in> set (mqBuf m 0)" using stuck_steps [OF later o(1-3)] by blast
  have "mqAcks m (qmDone ?q) = 0" if "\<not> mqCtxDone m"
    by (rule buffered_not_acked [OF reach_steps [OF later orphaned_reach] that q])
  moreover have "qmDone ?q = 64" by (simp add: nth_queued_def)
  ultimately show ?thesis using orphaned_reach o(4) q by metis
qed

theorem slow_enqueue_can_be_orphaned_witness:
  "mqAcks orphaned 64 = 0 \<and> nth_queued 64 \<in> set (mqBuf orphaned 0)"
proof -
  have "monitor_step\<^sup>*\<^sup>* orphaned orphaned" by (rule rtranclp.rtrancl_refl)
  from slow_enqueue_can_be_orphaned [OF this] show ?thesis by blast
qed


end
