(* ===== verification/Throttle.thy ===== *)
theory Throttle
  imports Prelude "HOL-Library.AList"
begin

section \<open>The authentication throttle\<close>

text \<open>
  \<open>internal/auththrottle/throttle.go\<close>: failed authentications are counted per source address, and a source with too many
  within a minute is blocked for a minute. The three maps are association lists without repeated keys. Where the source
  takes an arbitrary key of a map, the choice is a parameter \<open>pick\<close> that returns one of the keys.
\<close>

definition DefaultMaxFailures :: nat where
  "DefaultMaxFailures = 10"

definition DefaultMaxSources :: nat where
  "DefaultMaxSources = 4096"

definition DefaultWindow :: duration where
  "DefaultWindow = minute"

definition DefaultBlockFor :: duration where
  "DefaultBlockFor = minute"

record Throttle =
  thFailures :: "(string \<times> instant list) list"
  thBlocked :: "(string \<times> instant) list"
  thLastSeen :: "(string \<times> instant) list"
  thLastCleanup :: instant

definition NewWithClock :: Throttle where
  "NewWithClock = \<lparr>thFailures = [], thBlocked = [], thLastSeen = [], thLastCleanup = 0\<rparr>"

definition recent :: "instant \<Rightarrow> instant list \<Rightarrow> instant list" where
  "recent now fs = filter (\<lambda>t. t > now - DefaultWindow) fs"

definition cleanupExpiredLocked :: "instant \<Rightarrow> Throttle \<Rightarrow> Throttle" where
  "cleanupExpiredLocked now t =
     (if thLastCleanup t \<noteq> 0 \<and> now - thLastCleanup t < DefaultWindow then t
      else t\<lparr>thFailures := filter (\<lambda>(k, fs). fs \<noteq> []) (map (\<lambda>(k, fs). (k, recent now fs)) (thFailures t)),
             thLastSeen := filter (\<lambda>(k, _). map_option (recent now) (map_of (thFailures t) k) \<noteq> Some []) (thLastSeen t),
             thBlocked := filter (\<lambda>(k, until). now < until) (thBlocked t),
             thLastCleanup := now\<rparr>)"

definition drop_source :: "string \<Rightarrow> Throttle \<Rightarrow> Throttle" where
  "drop_source k t =
     t\<lparr>thFailures := AList.delete k (thFailures t), thBlocked := AList.delete k (thBlocked t), thLastSeen := AList.delete k (thLastSeen t)\<rparr>"

definition Reset :: "string \<Rightarrow> Throttle \<Rightarrow> Throttle" where
  "Reset k t = (if k = [] then t else drop_source k t)"

function enforceSourceLimitLocked :: "(string list \<Rightarrow> string) \<Rightarrow> Throttle \<Rightarrow> Throttle" where
  "enforceSourceLimitLocked pick t =
     (let ks = map fst (thLastSeen t); k = pick ks in
      if length ks > DefaultMaxSources \<and> k \<in> set ks then enforceSourceLimitLocked pick (drop_source k t) else t)"
  by pat_completeness auto
termination
proof (relation "measure (\<lambda>(pick, t). length (thLastSeen t))", goal_cases)
  case (2 pick t ks k)
  then obtain v where "(k, v) \<in> set (thLastSeen t)" by auto
  then have "length (AList.delete k (thLastSeen t)) < length (thLastSeen t)"
    by (auto simp: AList.delete_eq intro: length_filter_less)
  then show ?case by (simp add: drop_source_def)
qed simp

declare enforceSourceLimitLocked.simps [simp del]

definition Blocked :: "instant \<Rightarrow> string \<Rightarrow> Throttle \<Rightarrow> bool \<times> Throttle" where
  "Blocked now k t =
     (if k = [] then (False, t)
      else
        let t1 = cleanupExpiredLocked now t in
        case map_of (thBlocked t1) k of
          None \<Rightarrow> (False, t1)
        | Some until \<Rightarrow>
            if \<not> now < until
            then (False, t1\<lparr>thBlocked := AList.delete k (thBlocked t1), thFailures := AList.delete k (thFailures t1)\<rparr>)
            else (True, t1))"

definition Fail :: "(string list \<Rightarrow> string) \<Rightarrow> instant \<Rightarrow> string \<Rightarrow> Throttle \<Rightarrow> Throttle" where
  "Fail pick now k t =
     (if k = [] then t
      else
        let t1 = cleanupExpiredLocked now t;
            kept = recent now (case map_of (thFailures t1) k of None \<Rightarrow> [] | Some fs \<Rightarrow> fs) @ [now];
            t2 = t1\<lparr>thFailures := AList.update k kept (thFailures t1), thLastSeen := AList.update k now (thLastSeen t1)\<rparr>;
            t3 = (if length kept \<ge> DefaultMaxFailures then t2\<lparr>thBlocked := AList.update k (now + DefaultBlockFor) (thBlocked t2)\<rparr> else t2)
        in enforceSourceLimitLocked pick t3)"

subsection \<open>The throttle under load\<close>

definition chooses :: "(string list \<Rightarrow> string) \<Rightarrow> bool" where
  "chooses pick \<longleftrightarrow> (\<forall>ks. ks \<noteq> [] \<longrightarrow> pick ks \<in> set ks)"

inductive throttle_step :: "Throttle \<Rightarrow> Throttle \<Rightarrow> bool" where
  failed: "chooses pick \<Longrightarrow> throttle_step t (Fail pick now k t)"
| asked: "throttle_step t (snd (Blocked now k t))"
| succeeded: "throttle_step t (Reset k t)"

inductive_cases throttle_stepE: "throttle_step t t'"

definition keys_inv :: "Throttle \<Rightarrow> bool" where
  "keys_inv t \<longleftrightarrow>
     distinct (map fst (thFailures t)) \<and> distinct (map fst (thBlocked t)) \<and> distinct (map fst (thLastSeen t)) \<and>
     (\<forall>k fs. map_of (thFailures t) k = Some fs \<longrightarrow> map_of (thLastSeen t) k \<noteq> None) \<and>
     (\<forall>k u. map_of (thBlocked t) k = Some u \<longrightarrow>
        (\<exists>fs f. map_of (thFailures t) k = Some fs \<and> f \<in> set fs \<and> u \<le> f + DefaultWindow))"

definition throttle_inv :: "Throttle \<Rightarrow> bool" where
  "throttle_inv t \<longleftrightarrow> keys_inv t \<and> length (thLastSeen t) \<le> DefaultMaxSources"

lemma map_of_filter_distinct:
  "distinct (map fst al) \<Longrightarrow>
   map_of (filter P al) k = (case map_of al k of None \<Rightarrow> None | Some v \<Rightarrow> if P (k, v) then Some v else None)"
proof (induction al)
  case (Cons a al)
  then show ?case
    by (cases a) (auto split: option.splits simp: map_of_eq_None_iff image_iff dest: map_of_SomeD)
qed simp

lemma distinct_map_filter: "distinct (map fst al) \<Longrightarrow> distinct (map fst (filter P al))"
  by (induction al) auto

lemma keys_invD:
  assumes "keys_inv t"
  shows "distinct (map fst (thFailures t))" "distinct (map fst (thBlocked t))" "distinct (map fst (thLastSeen t))"
    "map_of (thFailures t) k = Some fs \<Longrightarrow> map_of (thLastSeen t) k \<noteq> None"
    "map_of (thBlocked t) k = Some u \<Longrightarrow> \<exists>fs f. map_of (thFailures t) k = Some fs \<and> f \<in> set fs \<and> u \<le> f + DefaultWindow"
  using assms unfolding keys_inv_def by blast+

lemma cleanup_maps:
  assumes inv: "keys_inv t" and run: "\<not> (thLastCleanup t \<noteq> 0 \<and> now - thLastCleanup t < DefaultWindow)"
  shows "map_of (thFailures (cleanupExpiredLocked now t)) k =
       (case map_of (thFailures t) k of None \<Rightarrow> None | Some fs \<Rightarrow> if recent now fs = [] then None else Some (recent now fs))"
    "map_of (thLastSeen (cleanupExpiredLocked now t)) k =
       (if \<exists>fs. map_of (thFailures t) k = Some fs \<and> recent now fs = [] then None else map_of (thLastSeen t) k)"
    "map_of (thBlocked (cleanupExpiredLocked now t)) k =
       (case map_of (thBlocked t) k of None \<Rightarrow> None | Some u \<Rightarrow> if now < u then Some u else None)"
proof -
  have d: "distinct (map fst (map (\<lambda>(k, fs). (k, recent now fs)) (thFailures t)))"
    using keys_invD(1) [OF inv] by (simp add: comp_def case_prod_beta)
  have r: "cleanupExpiredLocked now t = t\<lparr>thFailures := filter (\<lambda>(k, fs). fs \<noteq> []) (map (\<lambda>(k, fs). (k, recent now fs)) (thFailures t)),
      thLastSeen := filter (\<lambda>(k, _). map_option (recent now) (map_of (thFailures t) k) \<noteq> Some []) (thLastSeen t),
      thBlocked := filter (\<lambda>(k, until). now < until) (thBlocked t), thLastCleanup := now\<rparr>"
    unfolding cleanupExpiredLocked_def using run by (simp only: if_False)
  show "map_of (thFailures (cleanupExpiredLocked now t)) k =
       (case map_of (thFailures t) k of None \<Rightarrow> None | Some fs \<Rightarrow> if recent now fs = [] then None else Some (recent now fs))"
    unfolding r by (simp add: map_of_filter_distinct [OF d] map_of_map split: option.splits)
  show "map_of (thLastSeen (cleanupExpiredLocked now t)) k =
       (if \<exists>fs. map_of (thFailures t) k = Some fs \<and> recent now fs = [] then None else map_of (thLastSeen t) k)"
    unfolding r using map_of_filter_distinct [OF keys_invD(3) [OF inv]] by (auto simp: map_option_eq_Some split: option.splits)
  show "map_of (thBlocked (cleanupExpiredLocked now t)) k =
       (case map_of (thBlocked t) k of None \<Rightarrow> None | Some u \<Rightarrow> if now < u then Some u else None)"
    unfolding r using map_of_filter_distinct [OF keys_invD(2) [OF inv]] by (simp split: option.splits)
qed

lemma cleanup_keys:
  assumes inv: "keys_inv t"
  shows "keys_inv (cleanupExpiredLocked now t)" "length (thLastSeen (cleanupExpiredLocked now t)) \<le> length (thLastSeen t)"
proof -
  let ?t = "cleanupExpiredLocked now t"
  have "keys_inv ?t \<and> length (thLastSeen ?t) \<le> length (thLastSeen t)"
  proof (cases "thLastCleanup t \<noteq> 0 \<and> now - thLastCleanup t < DefaultWindow")
    case True
    then show ?thesis using inv by (simp add: cleanupExpiredLocked_def)
  next
    case False
    note m = cleanup_maps [OF inv False]
    have "distinct (map fst (map (\<lambda>(k, fs). (k, recent now fs)) (thFailures t)))"
      using keys_invD(1) [OF inv] by (simp add: comp_def case_prod_beta)
    then have "distinct (map fst (thFailures ?t)) \<and> distinct (map fst (thBlocked ?t)) \<and> distinct (map fst (thLastSeen ?t)) \<and>
        length (thLastSeen ?t) \<le> length (thLastSeen t)"
      using keys_invD(1-3) [OF inv] False unfolding cleanupExpiredLocked_def by (simp add: distinct_map_filter del: map_map)
    moreover have "map_of (thLastSeen ?t) k \<noteq> None" if "map_of (thFailures ?t) k = Some fs" for k fs
      using that keys_invD(4) [OF inv, of k] unfolding m by (auto split: option.splits if_splits)
    moreover have "\<exists>fs f. map_of (thFailures ?t) k = Some fs \<and> f \<in> set fs \<and> u \<le> f + DefaultWindow" if u: "map_of (thBlocked ?t) k = Some u" for k u
    proof -
      obtain fs f where f: "map_of (thFailures t) k = Some fs" "f \<in> set fs" "u \<le> f + DefaultWindow" "now < u"
        using u keys_invD(5) [OF inv, of k u] unfolding m by (auto split: option.splits if_splits)
      then have "f \<in> set (recent now fs)" by (simp add: recent_def)
      then show ?thesis using f by (auto simp: m)
    qed
    ultimately show ?thesis unfolding keys_inv_def by blast
  qed
  then show "keys_inv ?t" "length (thLastSeen ?t) \<le> length (thLastSeen t)" by blast+
qed

lemma keys_invI:
  assumes "distinct (map fst (thFailures t))" "distinct (map fst (thBlocked t))" "distinct (map fst (thLastSeen t))"
    "\<And>k fs. map_of (thFailures t) k = Some fs \<Longrightarrow> map_of (thLastSeen t) k \<noteq> None"
    "\<And>k u. map_of (thBlocked t) k = Some u \<Longrightarrow> \<exists>fs f. map_of (thFailures t) k = Some fs \<and> f \<in> set fs \<and> u \<le> f + DefaultWindow"
  shows "keys_inv t"
  using assms unfolding keys_inv_def by blast

text \<open>Removing a source from the failures and the blocked sources, and possibly from the sources seen.\<close>

lemma delete_keys:
  assumes inv: "keys_inv t" and t': "thFailures t' = AList.delete k (thFailures t)" "thBlocked t' = AList.delete k (thBlocked t)"
    "thLastSeen t' = thLastSeen t \<or> thLastSeen t' = AList.delete k (thLastSeen t)"
  shows "keys_inv t'"
proof (rule keys_invI, goal_cases)
  case 3
  then show ?case using t'(3) keys_invD(3) [OF inv] by (auto simp: AList.distinct_delete)
next
  case (4 j fs)
  then have "j \<noteq> k" "map_of (thFailures t) j = Some fs" by (simp_all add: t' delete_conv' split: if_splits)
  then show ?case using t'(3) keys_invD(4) [OF inv, of j fs] by (auto simp: delete_conv')
next
  case (5 j u)
  then have "j \<noteq> k" "map_of (thBlocked t) j = Some u" by (simp_all add: t' delete_conv' split: if_splits)
  then show ?case using keys_invD(5) [OF inv, of j u] by (simp add: t' delete_conv')
qed (use keys_invD(1,2) [OF inv] t' in \<open>simp_all add: AList.distinct_delete\<close>)

lemma drop_keys: "keys_inv t \<Longrightarrow> keys_inv (drop_source k t)"
  by (rule delete_keys [where k = k and t = t]) (simp_all add: drop_source_def)

lemma drop_length: "length (thLastSeen (drop_source k t)) \<le> length (thLastSeen t)"
  by (simp add: drop_source_def AList.delete_eq)

lemma enforce_inv:
  assumes "keys_inv t" and "chooses pick"
  shows "throttle_inv (enforceSourceLimitLocked pick t)"
  using assms
proof (induction pick t rule: enforceSourceLimitLocked.induct)
  case (1 pick t)
  let ?ks = "map fst (thLastSeen t)"
  show ?case
  proof (cases "length ?ks > DefaultMaxSources")
    case True
    then have k: "pick ?ks \<in> set ?ks" using 1(3) unfolding chooses_def by (metis list.size(3) not_less_zero)
    have "throttle_inv (enforceSourceLimitLocked pick (drop_source (pick ?ks) t))"
      by (rule 1(1) [OF refl refl conjI [OF True k] drop_keys [OF 1(2)] 1(3)])
    then show ?thesis using True k by (simp add: enforceSourceLimitLocked.simps [of pick t] Let_def)
  next
    case False
    then show ?thesis using 1(2) by (simp add: enforceSourceLimitLocked.simps [of pick t] Let_def throttle_inv_def)
  qed
qed

text \<open>Eviction takes whole sources: a source that is still there afterwards has kept what it had.\<close>

lemma enforce_kept:
  assumes "map_of (thLastSeen (enforceSourceLimitLocked pick t)) k \<noteq> None"
  shows "map_of (thBlocked (enforceSourceLimitLocked pick t)) k = map_of (thBlocked t) k"
  using assms
proof (induction pick t rule: enforceSourceLimitLocked.induct)
  case (1 pick t)
  let ?ks = "map fst (thLastSeen t)"
  have gone: "map_of (thLastSeen (enforceSourceLimitLocked pick t)) k = None" if "map_of (thLastSeen t) k = None" for pick t
    using that
  proof (induction pick t rule: enforceSourceLimitLocked.induct)
    case (1 pick t)
    then show ?case by (subst enforceSourceLimitLocked.simps) (auto simp: Let_def drop_source_def delete_conv')
  qed
  show ?case
  proof (cases "length ?ks > DefaultMaxSources \<and> pick ?ks \<in> set ?ks")
    case True
    have e: "enforceSourceLimitLocked pick t = enforceSourceLimitLocked pick (drop_source (pick ?ks) t)"
      by (subst enforceSourceLimitLocked.simps) (use True in \<open>simp add: Let_def\<close>)
    have "pick ?ks \<noteq> k" using 1(2) gone [of "drop_source (pick ?ks) t" pick] unfolding e by (auto simp: drop_source_def delete_conv')
    then show ?thesis using 1(1) [OF refl refl True] 1(2) unfolding e by (simp add: drop_source_def delete_conv')
  next
    case False
    then show ?thesis by (subst enforceSourceLimitLocked.simps) (auto simp: Let_def)
  qed
qed

text \<open>What \<open>Fail\<close> records before the limit on sources is enforced.\<close>

definition record_failure :: "instant \<Rightarrow> string \<Rightarrow> Throttle \<Rightarrow> Throttle" where
  "record_failure now k t =
     (let kept = recent now (case map_of (thFailures t) k of None \<Rightarrow> [] | Some fs \<Rightarrow> fs) @ [now];
          t2 = t\<lparr>thFailures := AList.update k kept (thFailures t), thLastSeen := AList.update k now (thLastSeen t)\<rparr>
      in if length kept \<ge> DefaultMaxFailures then t2\<lparr>thBlocked := AList.update k (now + DefaultBlockFor) (thBlocked t2)\<rparr> else t2)"

lemma Fail_eq: "k \<noteq> [] \<Longrightarrow> Fail pick now k t = enforceSourceLimitLocked pick (record_failure now k (cleanupExpiredLocked now t))"
  by (simp add: Fail_def record_failure_def Let_def)

lemma record_keys:
  assumes inv: "keys_inv t"
  shows "keys_inv (record_failure now k t)"
proof -
  let ?old = "case map_of (thFailures t) k of None \<Rightarrow> [] | Some fs \<Rightarrow> fs"
  let ?kept = "recent now ?old @ [now]" and ?t = "record_failure now k t"
  have maps: "map_of (thFailures ?t) = (map_of (thFailures t))(k \<mapsto> ?kept)" "map_of (thLastSeen ?t) = (map_of (thLastSeen t))(k \<mapsto> now)"
    "map_of (thBlocked ?t) = (if length ?kept \<ge> DefaultMaxFailures then (map_of (thBlocked t))(k \<mapsto> now + DefaultBlockFor) else map_of (thBlocked t))"
    by (simp_all add: record_failure_def Let_def update_conv')
  have d: "distinct (map fst (thFailures ?t)) \<and> distinct (map fst (thBlocked ?t)) \<and> distinct (map fst (thLastSeen ?t))"
    using keys_invD(1-3) [OF inv] by (simp add: record_failure_def Let_def distinct_update)
  have "\<exists>fs f. map_of (thFailures ?t) j = Some fs \<and> f \<in> set fs \<and> u \<le> f + DefaultWindow" if u: "map_of (thBlocked ?t) j = Some u" for j u
  proof (cases "j = k")
    case False
    then show ?thesis using u keys_invD(5) [OF inv, of j u] unfolding maps by (simp split: if_splits)
  next
    case True
    have w: "0 < DefaultWindow" "DefaultBlockFor = DefaultWindow" by (simp_all add: DefaultWindow_def DefaultBlockFor_def minute_def second_def)
    have "u \<le> now + DefaultWindow \<or> (\<exists>f \<in> set (recent now ?old). u \<le> f + DefaultWindow)"
    proof (cases "length ?kept \<ge> DefaultMaxFailures")
      case False
      then obtain fs f where f: "map_of (thFailures t) k = Some fs" "f \<in> set fs" "u \<le> f + DefaultWindow"
        using u True keys_invD(5) [OF inv, of k u] unfolding maps by auto
      then show ?thesis using w(1) by (cases "f > now - DefaultWindow") (auto simp: recent_def)
    qed (use u True w in \<open>simp add: maps\<close>)
    then show ?thesis using True by (auto simp: maps)
  qed
  moreover have "map_of (thLastSeen ?t) j \<noteq> None" if "map_of (thFailures ?t) j = Some fs" for j fs
    using that keys_invD(4) [OF inv, of j] unfolding maps by (auto split: if_splits)
  ultimately show ?thesis using d unfolding keys_inv_def by blast
qed

lemma throttle_inv_step: "throttle_inv t \<Longrightarrow> throttle_step t t' \<Longrightarrow> throttle_inv t'"
proof (erule throttle_stepE, goal_cases)
  case (1 pick now k)
  have "throttle_inv (Fail pick now k t)" if "k \<noteq> []" unfolding Fail_eq [OF that]
    by (rule enforce_inv [OF record_keys [OF cleanup_keys(1)]]) (use 1 in \<open>simp_all add: throttle_inv_def\<close>)
  then show ?case using 1 by (cases "k = []") (simp_all add: Fail_def)
next
  case (2 now k)
  let ?c = "cleanupExpiredLocked now t"
  have c: "throttle_inv ?c" using 2(1) cleanup_keys [of t now] unfolding throttle_inv_def by force
  have "keys_inv (?c\<lparr>thBlocked := AList.delete k (thBlocked ?c), thFailures := AList.delete k (thFailures ?c)\<rparr>)"
    by (rule delete_keys [of ?c]) (use c in \<open>simp_all add: throttle_inv_def\<close>)
  then show ?case using 2 c by (auto simp: Blocked_def Let_def throttle_inv_def split: option.splits)
next
  case (3 k)
  then show ?case using drop_keys [of t k] drop_length [of k t] by (auto simp: Reset_def throttle_inv_def)
qed

lemma throttle_inv_init: "t = NewWithClock \<Longrightarrow> throttle_inv t"
  by (simp add: NewWithClock_def throttle_inv_def keys_inv_def)

interpretation throttle: invariant_system "\<lambda>t. t = NewWithClock" throttle_step throttle_inv
  by unfold_locales (auto intro: throttle_inv_init throttle_inv_step)

lemma cleanup_blocked:
  assumes inv: "keys_inv t" and u: "now \<le> later"
  shows "(\<exists>u. map_of (thBlocked (cleanupExpiredLocked now t)) k = Some u \<and> later < u) \<longleftrightarrow> (\<exists>u. map_of (thBlocked t) k = Some u \<and> later < u)"
proof (cases "thLastCleanup t \<noteq> 0 \<and> now - thLastCleanup t < DefaultWindow")
  case True
  then show ?thesis by (simp add: cleanupExpiredLocked_def)
next
  case False
  show ?thesis unfolding cleanup_maps(3) [OF inv False] using u by (auto split: option.splits)
qed

lemma Blocked_iff:
  assumes inv: "keys_inv t"
  shows "fst (Blocked now k t) \<longleftrightarrow> k \<noteq> [] \<and> (\<exists>u. map_of (thBlocked t) k = Some u \<and> now < u)"
  unfolding cleanup_blocked [OF inv order_refl, symmetric] by (auto simp: Blocked_def Let_def split: option.splits)

lemma cleanup_recent:
  assumes inv: "keys_inv t"
  shows "recent now (case map_of (thFailures (cleanupExpiredLocked now t)) k of None \<Rightarrow> [] | Some fs \<Rightarrow> fs) =
    recent now (case map_of (thFailures t) k of None \<Rightarrow> [] | Some fs \<Rightarrow> fs)"
proof (cases "thLastCleanup t \<noteq> 0 \<and> now - thLastCleanup t < DefaultWindow")
  case True
  then show ?thesis by (simp add: cleanupExpiredLocked_def)
next
  case False
  show ?thesis unfolding cleanup_maps(1) [OF inv False] by (auto simp: recent_def split: option.splits)
qed

lemma Fail_blocked:
  assumes inv: "keys_inv t" and k: "k \<noteq> []" and kept: "map_of (thLastSeen (Fail pick now k t)) k \<noteq> None"
  shows "map_of (thBlocked (Fail pick now k t)) k =
    (if 9 \<le> length (recent now (case map_of (thFailures t) k of None \<Rightarrow> [] | Some fs \<Rightarrow> fs)) then Some (now + minute)
     else map_of (thBlocked (cleanupExpiredLocked now t)) k)"
  using enforce_kept [OF kept [unfolded Fail_eq [OF k]]] unfolding Fail_eq [OF k]
  by (simp add: record_failure_def Let_def cleanup_recent [OF inv] update_conv' DefaultMaxFailures_def DefaultBlockFor_def)

text \<open>
  C40: the throttle blocks and stays bounded. In every reachable state no map holds more than 4096 sources.
  \<open>Blocked\<close> says exactly whether the source has a block that has not ended. A failure that is at least the tenth of a source
  within the last minute blocks it, unless the source is evicted, for exactly one minute from this failure;
  one with fewer recent failures before it leaves the source with the block it had, if any.
\<close>

theorem throttle_limits:
  assumes r: "reach (\<lambda>t. t = NewWithClock) throttle_step t"
  shows "length (thLastSeen t) \<le> 4096 \<and> card (set (map fst (thFailures t)) \<union> set (map fst (thBlocked t))) \<le> 4096 \<and>
    (\<forall>now k. fst (Blocked now k t) \<longleftrightarrow> k \<noteq> [] \<and> (\<exists>u. map_of (thBlocked t) k = Some u \<and> now < u)) \<and>
    (\<forall>pick now k later. chooses pick \<and> k \<noteq> [] \<and> now \<le> later \<and> map_of (thLastSeen (Fail pick now k t)) k \<noteq> None \<longrightarrow>
       fst (Blocked later k (Fail pick now k t)) =
         (if 9 \<le> length (recent now (case map_of (thFailures t) k of None \<Rightarrow> [] | Some fs \<Rightarrow> fs)) then later < now + minute
          else fst (Blocked later k t)))"
proof -
  have inv: "throttle_inv t" by (rule throttle.reach_inv [OF r])
  then have k: "keys_inv t" and len: "length (thLastSeen t) \<le> 4096" by (simp_all add: throttle_inv_def DefaultMaxSources_def)
  have "set (map fst (thFailures t)) \<union> set (map fst (thBlocked t)) \<subseteq> set (map fst (thLastSeen t))"
  proof
    fix j assume "j \<in> set (map fst (thFailures t)) \<union> set (map fst (thBlocked t))"
    then have "map_of (thFailures t) j \<noteq> None \<or> map_of (thBlocked t) j \<noteq> None" by (auto simp: map_of_eq_None_iff)
    then have "map_of (thLastSeen t) j \<noteq> None" using keys_invD(4,5) [OF k, of j] by blast
    then show "j \<in> set (map fst (thLastSeen t))" by (simp add: map_of_eq_None_iff)
  qed
  then have "card (set (map fst (thFailures t)) \<union> set (map fst (thBlocked t))) \<le> card (set (map fst (thLastSeen t)))" by (rule card_mono [rotated]) simp
  also have "\<dots> \<le> 4096" using card_length [of "map fst (thLastSeen t)"] len by simp
  finally have card: "card (set (map fst (thFailures t)) \<union> set (map fst (thBlocked t))) \<le> 4096" .
  have fail: "fst (Blocked later j (Fail pick now j t)) =
       (if 9 \<le> length (recent now (case map_of (thFailures t) j of None \<Rightarrow> [] | Some fs \<Rightarrow> fs)) then later < now + minute
        else fst (Blocked later j t))"
    if p: "chooses pick" "j \<noteq> []" "now \<le> later" "map_of (thLastSeen (Fail pick now j t)) j \<noteq> None" for pick now j later
  proof -
    have "throttle_inv (Fail pick now j t)" by (rule throttle_inv_step [OF inv]) (rule failed [OF p(1)])
    then have k': "keys_inv (Fail pick now j t)" by (simp add: throttle_inv_def)
    show ?thesis unfolding Blocked_iff [OF k'] Blocked_iff [OF k] Fail_blocked [OF k p(2,4)] cleanup_blocked [OF k p(3), symmetric]
      using p(2) by simp
  qed
  show ?thesis by (intro conjI allI impI len card Blocked_iff [OF k]) (use fail in blast)
qed

fun failing :: "nat \<Rightarrow> Throttle" where
  "failing 0 = NewWithClock"
| "failing (Suc n) = Fail hd (int n + 1) ''a'' (failing n)"

theorem throttle_limits_witness:
  "fst (Blocked 11 ''a'' (failing 10)) \<and> \<not> fst (Blocked (10 + minute) ''a'' (failing 10)) \<and> \<not> fst (Blocked 10 ''a'' (failing 9))"
proof -
  have h: "chooses hd" by (simp add: chooses_def)
  have r: "reach (\<lambda>t. t = NewWithClock) throttle_step (failing n)" for n
    by (induction n) (auto intro: reach_init reach_step failed [OF h])
  have f: "map_of (thFailures (failing 9)) ''a'' = Some [1, 2, 3, 4, 5, 6, 7, 8, 9]" "map_of (thLastSeen (failing 10)) ''a'' \<noteq> None"
    "map_of (thBlocked (failing 9)) ''a'' = None"
    by code_simp+
  have ten: "failing 10 = Fail hd 10 ''a'' (failing 9)" by (simp add: eval_nat_numeral)
  have n: "9 \<le> length (recent 10 (case map_of (thFailures (failing 9)) ''a'' of None \<Rightarrow> [] | Some fs \<Rightarrow> fs))"
    unfolding f by (simp add: recent_def DefaultWindow_def minute_def second_def)
  have "fst (Blocked later ''a'' (failing 10)) = (later < 10 + minute)" if "10 \<le> later" for later
    using throttle_limits [OF r [of 9]] h n f(2) that unfolding ten by auto
  moreover have "\<not> fst (Blocked 10 ''a'' (failing 9))" using throttle_limits [OF r [of 9]] f(3) by simp
  ultimately show ?thesis by (simp add: minute_def second_def)
qed

end
