(* ===== verification/Desktop_Frame.thy ===== *)
theory Desktop_Frame
  imports Go_Json
begin

section \<open>The frames of the Codex Desktop connection\<close>

text \<open>
  \<open>src/agent/codex_desktop_frame.go\<close>: a message travels as a little endian 32 bit length and
  that many bytes of JSON. A reader is the list of the bytes it still has to deliver before it
  reports the end of the stream. A writer is a state with a \<open>Write\<close> that answers a number of
  bytes and an error, as \<open>io.Writer\<close> does; it may take fewer bytes than it is offered, so the
  frame is written in a loop. \<open>utf8.Valid\<close> is written out from the table of package
  \<open>unicode/utf8\<close>, \<open>json.Valid\<close> is \<open>json_valid\<close>.
\<close>

datatype io_error = EOF | ErrUnexpectedEOF | ErrShortWrite | ErrWriter string

datatype frame_error =
    FrameHeader io_error
  | FramePayload io_error
  | FrameEmpty
  | FrameTooLong nat
  | FrameNotUtf8
  | FrameNotJson

definition codexDesktopFrameHeaderBytes :: nat where
  "codexDesktopFrameHeaderBytes = 4"

definition codexDesktopMaxFrameBytes :: nat where
  "codexDesktopMaxFrameBytes = 268435456"

subsection \<open>Valid UTF-8\<close>

text \<open>
  The first byte selects the length of the sequence and the range of the second byte; every
  further byte is a continuation byte \<open>80..BF\<close>.
\<close>

definition in_range :: "nat \<Rightarrow> nat \<Rightarrow> char \<Rightarrow> bool" where
  "in_range lo hi c \<longleftrightarrow> lo \<le> of_char c \<and> of_char c \<le> hi"

definition utf8_first :: "char \<Rightarrow> (nat \<times> nat \<times> nat) option" where
  "utf8_first c =
     (if in_range 0x00 0x7F c then Some (0, 0, 0)
      else if in_range 0xC2 0xDF c then Some (1, 0x80, 0xBF)
      else if in_range 0xE0 0xE0 c then Some (2, 0xA0, 0xBF)
      else if in_range 0xE1 0xEC c then Some (2, 0x80, 0xBF)
      else if in_range 0xED 0xED c then Some (2, 0x80, 0x9F)
      else if in_range 0xEE 0xEF c then Some (2, 0x80, 0xBF)
      else if in_range 0xF0 0xF0 c then Some (3, 0x90, 0xBF)
      else if in_range 0xF1 0xF3 c then Some (3, 0x80, 0xBF)
      else if in_range 0xF4 0xF4 c then Some (3, 0x80, 0x8F)
      else None)"

function utf8_valid :: "string \<Rightarrow> bool" where
  "utf8_valid [] = True"
| "utf8_valid (c # cs) =
     (case utf8_first c of
        None \<Rightarrow> False
      | Some (n, lo, hi) \<Rightarrow>
          n \<le> length cs \<and> (n = 0 \<or> in_range lo hi (hd cs)) \<and>
          list_all (in_range 0x80 0xBF) (tl (take n cs)) \<and> utf8_valid (drop n cs))"
  by pat_completeness auto
termination
  by (relation "measure length") auto

subsection \<open>Fixed width integers\<close>

text \<open>\<open>binary.LittleEndian.PutUint32\<close> and \<open>Uint32\<close>.\<close>

definition put_uint32 :: "32 word \<Rightarrow> string" where
  "put_uint32 w = map (\<lambda>i. char_of (unat (drop_bit (8 * i) w))) [0, 1, 2, 3]"

definition uint32_of :: "string \<Rightarrow> 32 word" where
  "uint32_of bs = word_of_nat (foldr (\<lambda>c acc. of_char c + 256 * acc) (take 4 bs) (0::nat))"

subsection \<open>Checks\<close>

definition validateCodexDesktopFrameLength :: "nat \<Rightarrow> frame_error + unit" where
  "validateCodexDesktopFrameLength len =
     (if len = 0 then Inl FrameEmpty
      else if codexDesktopMaxFrameBytes < len then Inl (FrameTooLong len)
      else Inr ())"

definition validateCodexDesktopFramePayload :: "string \<Rightarrow> frame_error + unit" where
  "validateCodexDesktopFramePayload payload =
     (case validateCodexDesktopFrameLength (length payload) of
        Inl e \<Rightarrow> Inl e
      | Inr _ \<Rightarrow>
          if \<not> utf8_valid payload then Inl FrameNotUtf8
          else if \<not> json_valid payload then Inl FrameNotJson
          else Inr ())"

subsection \<open>Reading\<close>

definition read_full :: "nat \<Rightarrow> string \<Rightarrow> (io_error + string) \<times> string" where
  "read_full n s =
     (if n \<le> length s then (Inr (take n s), drop n s)
      else if s = [] then (Inl EOF, [])
      else (Inl ErrUnexpectedEOF, []))"

definition readCodexDesktopFrame :: "string \<Rightarrow> (frame_error + string) \<times> string" where
  "readCodexDesktopFrame reader =
     (case read_full codexDesktopFrameHeaderBytes reader of
        (Inl e, r) \<Rightarrow> (Inl (FrameHeader e), r)
      | (Inr header, r) \<Rightarrow>
          let len = unat (uint32_of header) in
          (case validateCodexDesktopFrameLength len of
             Inl e \<Rightarrow> (Inl e, r)
           | Inr _ \<Rightarrow>
               (case read_full len r of
                  (Inl e, r') \<Rightarrow> (Inl (FramePayload e), r')
                | (Inr payload, r') \<Rightarrow>
                    (case validateCodexDesktopFramePayload payload of
                       Inl e \<Rightarrow> (Inl e, r')
                     | Inr _ \<Rightarrow> (Inr payload, r')))))"

subsection \<open>Writing\<close>

text \<open>
  The writer's \<open>Write\<close> is a parameter. A byte counts as sent when \<open>Write\<close> says so; the second
  component of the result collects what was sent, the third is the state of the writer.
\<close>

type_synonym 'w writer = "'w \<Rightarrow> string \<Rightarrow> (int \<times> io_error option) \<times> 'w"

function writeCodexDesktopFrameBytes ::
    "'w writer \<Rightarrow> string \<Rightarrow> 'w \<Rightarrow> (io_error + unit) \<times> string \<times> 'w" where
  "writeCodexDesktopFrameBytes wr data w =
     (if data = [] then (Inr (), [], w)
      else
        let ((written, err), w') = wr w data in
        if written < 0 \<or> int (length data) < written then (Inl ErrShortWrite, [], w')
        else let sent = take (nat written) data in
        case err of
          Some e \<Rightarrow> (Inl e, sent, w')
        | None \<Rightarrow>
            if written = 0 then (Inl ErrShortWrite, sent, w')
            else
              let (res, more, w'') = writeCodexDesktopFrameBytes wr (drop (nat written) data) w' in
              (res, sent @ more, w''))"
  by pat_completeness auto
termination
  by (relation "measure (\<lambda>(wr, data, w). length data)") auto

declare writeCodexDesktopFrameBytes.simps [simp del]

definition writeCodexDesktopFrame ::
    "'w writer \<Rightarrow> string \<Rightarrow> 'w \<Rightarrow> (frame_error + unit) \<times> string \<times> 'w" where
  "writeCodexDesktopFrame wr payload w =
     (case validateCodexDesktopFramePayload payload of
        Inl e \<Rightarrow> (Inl e, [], w)
      | Inr _ \<Rightarrow>
          (case writeCodexDesktopFrameBytes wr (put_uint32 (word_of_nat (length payload))) w of
             (Inl e, out, w') \<Rightarrow> (Inl (FrameHeader e), out, w')
           | (Inr _, out, w') \<Rightarrow>
               (case writeCodexDesktopFrameBytes wr payload w' of
                  (Inl e, out', w'') \<Rightarrow> (Inl (FramePayload e), out @ out', w'')
                | (Inr _, out', w'') \<Rightarrow> (Inr (), out @ out', w''))))"

subsection \<open>The length prefix\<close>

lemma unat_put_uint32:
  "map of_char (put_uint32 w) =
     [unat w mod 256, unat w div 256 mod 256, unat w div 65536 mod 256, (unat w div 16777216) mod 256]"
  by (simp add: put_uint32_def drop_bit_eq_div unat_div_distrib)

lemma length_put_uint32 [simp]: "length (put_uint32 w) = 4"
  by (simp add: put_uint32_def)

lemma div_bytes:
  "(n::nat) div 65536 = n div 256 div 256" "n div 16777216 = n div 256 div 256 div 256"
  by (simp_all flip: div_mult2_eq)

lemma base256: "(n::nat) < 4294967296 \<Longrightarrow>
    n mod 256 + 256 * (n div 256 mod 256 + 256 * (n div 65536 mod 256 + 256 * (n div 16777216 mod 256))) = n"
proof -
  assume n: "n < 4294967296"
  have "n div 256 div 256 div 256 mod 256 = n div 256 div 256 div 256"
    using n by (simp add: less_mult_imp_div_less flip: div_mult2_eq)
  then show ?thesis by (simp add: div_bytes)
qed

lemma uint32_of_put [simp]: "uint32_of (put_uint32 w @ s) = w"
proof -
  have m: "foldr (\<lambda>c acc. of_char c + 256 * acc) bs 0 = foldr (\<lambda>x acc. x + 256 * acc) (map of_char bs) (0::nat)"
    for bs :: string
    by (induction bs) auto
  have "unat w < 4294967296" by (rule less_le_trans [OF unsigned_less]) simp
  then have "foldr (\<lambda>c acc. of_char c + 256 * acc) (take 4 (put_uint32 w @ s)) 0 = unat w"
    using base256 [of "unat w"] by (simp add: m unat_put_uint32 del: foldr_map)
  then show ?thesis by (simp only: uint32_of_def of_nat_unat ucast_id)
qed

lemma put_uint32_of:
  assumes "length h = 4"
  shows "put_uint32 (uint32_of h) = h"
proof -
  obtain a b c d where h: "h = [a, b, c, d]"
    using assms by (auto simp: eval_nat_numeral length_Suc_conv)
  let ?n = "of_char a + 256 * (of_char b + 256 * (of_char c + 256 * of_char d)) :: nat"
  have b: "(of_char x :: nat) \<le> 255" for x using nat_of_char_less_256 [of x] by linarith
  have step: "of_char x + 256 * m \<le> 256 * k + 255" if "m \<le> k" for x and m k :: nat
    using that b [of x] by linarith
  have "?n \<le> 256 * (256 * (256 * 255 + 255) + 255) + 255" by (intro step b)
  then have "?n < 4294967296" by simp
  then have "unat (word_of_nat ?n :: 32 word) = ?n"
    by (simp only: unat_of_nat) simp
  then have u: "unat (uint32_of h) = ?n"
    by (simp only: uint32_of_def h) simp
  have low: "(of_char x + 256 * m) mod 256 = (of_char x :: nat)"
    and high: "(of_char x + 256 * m) div 256 = (m :: nat)" for x m
    by simp_all
  have "map (of_char :: char \<Rightarrow> nat) (put_uint32 (uint32_of h)) = map of_char h"
    unfolding unat_put_uint32 u div_bytes low high by (simp add: h)
  then show ?thesis
    by (metis char_of_char list.inj_map_strong)
qed

subsection \<open>Reading\<close>

lemma validate_payload_ok:
  "validateCodexDesktopFramePayload p = Inr () \<longleftrightarrow>
     p \<noteq> [] \<and> length p \<le> codexDesktopMaxFrameBytes \<and> utf8_valid p \<and> json_valid p"
  by (auto simp: validateCodexDesktopFramePayload_def validateCodexDesktopFrameLength_def)

lemma unit_sum_Inr: "(x :: 'e + unit) = Inr u \<longleftrightarrow> x = Inr ()"
  by simp

lemma unat_length [simp]:
  "length p \<le> codexDesktopMaxFrameBytes \<Longrightarrow> unat (word_of_nat (length p) :: 32 word) = length p"
  by (simp add: unat_of_nat codexDesktopMaxFrameBytes_def take_bit_eq_mod)

definition frame_of :: "string \<Rightarrow> string" where
  "frame_of p = put_uint32 (word_of_nat (length p)) @ p"

lemma read_frame_of:
  "validateCodexDesktopFramePayload p = Inr () \<Longrightarrow> readCodexDesktopFrame (frame_of p @ rest) = (Inr p, rest)"
  by (frule validate_payload_ok [THEN iffD1])
     (simp add: readCodexDesktopFrame_def read_full_def frame_of_def codexDesktopFrameHeaderBytes_def
      validateCodexDesktopFrameLength_def uint32_of_put [of _ "[]", simplified])

lemma read_frame_inv:
  assumes "readCodexDesktopFrame s = (Inr p, rest)"
  shows "s = frame_of p @ rest \<and> validateCodexDesktopFramePayload p = Inr ()"
proof -
  let ?h = "take 4 s" and ?r = "drop 4 s"
  let ?n = "unat (uint32_of ?h)"
  have h: "4 \<le> length s" and n: "?n \<le> length ?r" and p: "p = take ?n ?r" and r: "rest = drop ?n ?r"
    and v: "validateCodexDesktopFramePayload p = Inr ()"
    using assms
    by (auto simp: readCodexDesktopFrame_def read_full_def codexDesktopFrameHeaderBytes_def Let_def
        split: if_splits sum.splits)
  have "put_uint32 (word_of_nat (length p)) = ?h"
    using put_uint32_of [of ?h] h n p by simp
  then have "s = frame_of p @ rest"
    using h n p r by (metis append.assoc append_take_drop_id frame_of_def)
  with v show ?thesis by simp
qed

lemma read_frame_prefix:
  assumes "strict_prefix s (frame_of q)" and "length q \<le> codexDesktopMaxFrameBytes"
  shows "readCodexDesktopFrame s \<noteq> (Inr p, rest)"
proof
  assume r: "readCodexDesktopFrame s = (Inr p, rest)"
  have s: "s = frame_of p @ rest" and v: "validateCodexDesktopFramePayload p = Inr ()"
    using read_frame_inv [OF r] by auto
  obtain t where t: "t \<noteq> []" "frame_of q = s @ t"
    using assms(1) by (auto simp: strict_prefix_def prefix_def)
  have "put_uint32 (word_of_nat (length q)) = put_uint32 (word_of_nat (length p))"
    using t(2) [unfolded s frame_of_def append.assoc] length_put_uint32 by (metis append_eq_append_conv)
  then have "length q = length p"
    using assms(2) v uint32_of_put [of _ "[]"] unat_length [of p] unat_length [of q]
    by (metis append.right_neutral validate_payload_ok)
  then show False using t unfolding s by (simp add: frame_of_def)
qed

subsection \<open>Writing\<close>

lemma write_bytes_cases:
  assumes "writeCodexDesktopFrameBytes wr data w = (res, out, w')"
  shows "prefix out data \<and> (res = Inr () \<longrightarrow> out = data)"
  using assms
proof (induction wr data w arbitrary: res out w' rule: writeCodexDesktopFrameBytes.induct)
  case (1 wr data w)
  obtain n err v where wr: "wr w data = ((n, err), v)" by (metis prod.collapse)
  show ?case
  proof (cases "data = [] \<or> n < 0 \<or> int (length data) < n \<or> err \<noteq> None \<or> n = 0")
    case True
    then show ?thesis using "1.prems" wr
      by (subst (asm) writeCodexDesktopFrameBytes.simps)
         (auto simp: Let_def take_is_prefix split: if_splits option.splits)
  next
    case False
    obtain r more v' where m: "writeCodexDesktopFrameBytes wr (drop (nat n) data) v = (r, more, v')"
      by (metis prod.collapse)
    have ih: "prefix more (drop (nat n) data) \<and> (r = Inr () \<longrightarrow> more = drop (nat n) data)"
      by (rule "1.IH" [OF _ wr [symmetric] refl refl _ refl _ _ m]) (use False in auto)
    have "res = r" "out = take (nat n) data @ more"
      using "1.prems" False wr m
      by (subst (asm) writeCodexDesktopFrameBytes.simps, auto simp: Let_def)+
    then show ?thesis using ih
      by (metis append_take_drop_id same_prefix_prefix)
  qed
qed

definition progressing :: "'w writer \<Rightarrow> bool" where
  "progressing wr \<longleftrightarrow>
     (\<forall>v d. d \<noteq> [] \<longrightarrow> (\<exists>n v'. wr v d = ((n, None), v') \<and> 1 \<le> n \<and> n \<le> int (length d)))"

lemma write_bytes_progress:
  assumes "progressing wr"
  shows "fst (writeCodexDesktopFrameBytes wr data w) = Inr ()"
  using assms
proof (induction wr data w rule: writeCodexDesktopFrameBytes.induct)
  case (1 wr data w)
  show ?case
  proof (cases "data = []")
    case True
    then show ?thesis by (simp add: writeCodexDesktopFrameBytes.simps)
  next
    case False
    obtain n v where wr: "wr w data = ((n, None), v)" "1 \<le> n" "n \<le> int (length data)"
      using "1.prems" False unfolding progressing_def by blast
    have "fst (writeCodexDesktopFrameBytes wr (drop (nat n) data) v) = Inr ()"
      by (rule "1.IH" [OF False wr(1) [symmetric] refl refl _ refl]) (use wr "1.prems" in auto)
    then show ?thesis using False wr
      by (subst writeCodexDesktopFrameBytes.simps) (auto simp: Let_def split: prod.splits)
  qed
qed

lemma write_bytes_progress':
  assumes "progressing wr"
  shows "\<exists>out w'. writeCodexDesktopFrameBytes wr data w = (Inr (), out, w')"
proof -
  have "fst (writeCodexDesktopFrameBytes wr data w) = Inr ()"
    by (rule write_bytes_progress [OF assms])
  then show ?thesis by (cases "writeCodexDesktopFrameBytes wr data w") simp
qed

lemma write_frame_cases:
  assumes "writeCodexDesktopFrame wr payload w = (res, out, w')"
  shows "out = [] \<and> res \<noteq> Inr () \<or>
     validateCodexDesktopFramePayload payload = Inr () \<and> prefix out (frame_of payload) \<and>
     (res = Inr () \<longrightarrow> out = frame_of payload)"
proof (cases "validateCodexDesktopFramePayload payload")
  case (Inl e)
  then show ?thesis using assms by (auto simp: writeCodexDesktopFrame_def)
next
  case (Inr u)
  let ?h = "put_uint32 (word_of_nat (length payload))"
  obtain r1 o1 w1 where h: "writeCodexDesktopFrameBytes wr ?h w = (r1, o1, w1)" by (metis prod.collapse)
  obtain r2 o2 w2 where b: "writeCodexDesktopFrameBytes wr payload w1 = (r2, o2, w2)" by (metis prod.collapse)
  show ?thesis
    using assms Inr h b write_bytes_cases [OF h] write_bytes_cases [OF b]
    by (cases r1; cases r2) (auto simp: writeCodexDesktopFrame_def frame_of_def intro: prefix_prefix)
qed

subsection \<open>The round trip\<close>

text \<open>Two writers: one takes all it is offered, one a single byte at a time.\<close>

definition greedy_writer :: "unit writer" where
  "greedy_writer w d = ((int (length d), None), w)"

definition byte_writer :: "nat writer" where
  "byte_writer n d = ((1, None), Suc n)"

lemma byte_writer_progress:
  "progressing byte_writer"
  by (auto simp: progressing_def byte_writer_def Suc_le_eq)

lemma greedy_writes_bytes: "writeCodexDesktopFrameBytes greedy_writer d () = (Inr (), d, ())"
proof (cases "d = []")
  case True
  then show ?thesis by (simp add: writeCodexDesktopFrameBytes.simps)
next
  case False
  have nil: "writeCodexDesktopFrameBytes greedy_writer [] () = (Inr (), [], ())"
    by (simp add: writeCodexDesktopFrameBytes.simps)
  show ?thesis using False
    by (subst writeCodexDesktopFrameBytes.simps) (simp add: greedy_writer_def nil)
qed

lemma greedy_writes:
  "validateCodexDesktopFramePayload p = Inr () \<Longrightarrow>
     writeCodexDesktopFrame greedy_writer p () = (Inr (), frame_of p, ())"
  by (simp add: writeCodexDesktopFrame_def greedy_writes_bytes frame_of_def)

text \<open>The loop ends with the whole frame sent when every call of the writer makes progress.\<close>

lemma write_frame_progress:
  assumes "validateCodexDesktopFramePayload payload = Inr ()"
    and "progressing wr"
  shows "\<exists>w'. writeCodexDesktopFrame wr payload w = (Inr (), frame_of payload, w')"
proof -
  let ?h = "put_uint32 (word_of_nat (length payload))"
  obtain o1 w1 where h: "writeCodexDesktopFrameBytes wr ?h w = (Inr (), o1, w1)"
    using write_bytes_progress' [OF assms(2)] by blast
  obtain o2 w2 where b: "writeCodexDesktopFrameBytes wr payload w1 = (Inr (), o2, w2)"
    using write_bytes_progress' [OF assms(2)] by blast
  show ?thesis
    using assms(1) h b write_bytes_cases [OF h] write_bytes_cases [OF b]
    by (simp add: writeCodexDesktopFrame_def frame_of_def)
qed

text \<open>
  C31: the frame codec is a round trip, whatever part of the data each call of the writer takes.
  After a successful write the reader returns exactly the payload and leaves the rest of the
  stream untouched; if the connection ends after a failed write, a reader of what was sent can
  only report an error or, when the whole frame had gone out, the same payload: no truncated
  frame is ever taken for a message. Conversely every message the reader accepts stands in the
  stream as the very bytes the writer produces for it.
\<close>

theorem desktop_frame_roundtrip:
  assumes "writeCodexDesktopFrame wr payload w = (res, out, w')"
  shows "(res = Inr () \<longrightarrow> readCodexDesktopFrame (out @ rest) = (Inr payload, rest)) \<and>
    (\<forall>p r. readCodexDesktopFrame out = (Inr p, r) \<longrightarrow> p = payload \<and> r = []) \<and>
    (\<forall>s p r. readCodexDesktopFrame s = (Inr p, r) \<longrightarrow>
       (\<exists>bytes. writeCodexDesktopFrame greedy_writer p () = (Inr (), bytes, ()) \<and> s = bytes @ r))"
proof (intro conjI impI allI)
  assume "res = Inr ()"
  then show "readCodexDesktopFrame (out @ rest) = (Inr payload, rest)"
    using write_frame_cases [OF assms] by (auto intro: read_frame_of)
next
  fix p r
  assume r: "readCodexDesktopFrame out = (Inr p, r)"
  then have "out \<noteq> []" using read_frame_inv [OF r] by (auto simp: frame_of_def put_uint32_def)
  then have v: "validateCodexDesktopFramePayload payload = Inr ()" and "prefix out (frame_of payload)"
    using write_frame_cases [OF assms] by auto
  then have "out = frame_of payload"
    using r read_frame_prefix by (metis strict_prefix_def validate_payload_ok)
  then show "p = payload" "r = []" using r read_frame_of [OF v, of "[]"] by auto
next
  fix s p r
  assume "readCodexDesktopFrame s = (Inr p, r)"
  then show "\<exists>bytes. writeCodexDesktopFrame greedy_writer p () = (Inr (), bytes, ()) \<and> s = bytes @ r"
    using read_frame_inv greedy_writes by blast
qed

theorem desktop_frame_roundtrip_witness:
  "readCodexDesktopFrame (fst (snd (writeCodexDesktopFrame byte_writer ''{}'' 0)) @ ''xyz'') =
     (Inr ''{}'', ''xyz'')"
proof -
  have v: "validateCodexDesktopFramePayload ''{}'' = Inr ()"
    by (simp add: validate_payload_ok codexDesktopMaxFrameBytes_def utf8_first_def in_range_def)
  obtain w' where w: "writeCodexDesktopFrame byte_writer ''{}'' 0 = (Inr (), frame_of ''{}'', w')"
    using write_frame_progress [OF v byte_writer_progress] by blast
  show ?thesis
    using desktop_frame_roundtrip [OF w, of "''xyz''"] by (simp add: w)
qed

end
