(* ===== verification/Desktop_Patch.thy ===== *)
theory Desktop_Patch
  imports Go_Text "HOL-Library.AList"
begin

section \<open>Patches of the Desktop state\<close>

text \<open>
  \<open>src/agent/codex_desktop_patch.go\<close>: the Desktop publishes changes of a conversation as patches
  in the style of Immer, applied to a decoded JSON value. A value of Go's \<open>any\<close> is a
  \<open>jval\<close>: besides the results of \<open>json.Unmarshal\<close> it covers the further types the code
  distinguishes, \<open>int\<close>, \<open>json.Number\<close> and \<open>json.RawMessage\<close>. An object is a list of fields, a
  \<open>map[string]any\<close> when the keys are distinct; a \<open>float64\<close> is its shortest decimal, sign,
  mantissa and exponent of ten, the form in which \<open>strconv\<close> prints it.
\<close>

datatype jval =
    JNull
  | JBool bool
  | JFloat bool nat int
  | JInt int
  | JNumber string
  | JRaw string
  | JStr string
  | JArr "jval list"
  | JObj "(string \<times> jval) list"

type_synonym jobject = "(string \<times> jval) list"

record codexDesktopPatch =
  dpOp :: string
  dpPath :: "jval list"
  dpValue :: jval

datatype patch_error =
    RootOpUnsupported string
  | RootValueNotObject
  | ResultNotObject
  | PathEmpty
  | PathMissing jval
  | KeyNotString
  | NotContainer
  | IndexOutOfRange jval
  | ReplaceMissing string
  | RemoveMissing string
  | OpUnsupported string
  | PatchAt nat patch_error

subsection \<open>Copies\<close>

text \<open>
  The code applies patches to a private deep copy, so that a group that fails in the middle
  leaves the cached value alone. In a model of values every value is its own copy, and the
  recursion is the identity.
\<close>

fun cloneCodexDesktopJSON :: "jval \<Rightarrow> jval" where
  "cloneCodexDesktopJSON (JObj fs) = JObj (map (\<lambda>(k, v). (k, cloneCodexDesktopJSON v)) fs)"
| "cloneCodexDesktopJSON (JArr vs) = JArr (map cloneCodexDesktopJSON vs)"
| "cloneCodexDesktopJSON v = v"

definition cloneCodexDesktopPatches :: "codexDesktopPatch list \<Rightarrow> codexDesktopPatch list" where
  "cloneCodexDesktopPatches ps =
     map (\<lambda>p. \<lparr>dpOp = dpOp p, dpPath = dpPath p, dpValue = cloneCodexDesktopJSON (dpValue p)\<rparr>) ps"

subsection \<open>Indices\<close>

text \<open>
  The integer value of a number. A finite \<open>float64\<close> with shortest decimal \<open>m * 10 ^ e\<close>, where
  10 does not divide \<open>m\<close>, is integral exactly when \<open>e\<close> is not negative. The comparison with
  \<open>math.MaxInt\<close> is made in \<open>float64\<close>, where that constant is \<open>2 ^ 63\<close>, whose shortest decimal
  is 9223372036854776000; the conversion of \<open>2 ^ 63\<close> itself overflows and gives the least
  integer. Beyond \<open>2 ^ 53\<close> the decimal may differ from the exact value; no slice is that long.
\<close>

definition float_int :: "bool \<Rightarrow> nat \<Rightarrow> int \<Rightarrow> int" where
  "float_int neg m e =
     (let v = (if e < 0 then int m div 10 ^ nat (- e) else int m * 10 ^ nat e)
      in if neg then - v else if 2 ^ 63 \<le> v then - (2 ^ 63) else v)"

definition float_index :: "bool \<Rightarrow> nat \<Rightarrow> int \<Rightarrow> bool" where
  "float_index neg m e \<longleftrightarrow>
     (m = 0 \<or> \<not> neg \<and> 0 \<le> e \<and> e \<le> 18 \<and> int m * 10 ^ nat e \<le> 9223372036854776000)"

fun codexDesktopInteger :: "jval \<Rightarrow> int \<times> bool" where
  "codexDesktopInteger (JInt i) = (i, True)"
| "codexDesktopInteger (JFloat neg m e) = (float_int neg m e, float_index neg m e)"
| "codexDesktopInteger (JNumber s) =
     (case go_parse_int64 s of Some i \<Rightarrow> (i, True) | None \<Rightarrow> (0, False))"
| "codexDesktopInteger _ = (0, False)"

definition codexDesktopPatchIndex :: "jval \<Rightarrow> nat \<Rightarrow> bool \<Rightarrow> patch_error + nat" where
  "codexDesktopPatchIndex part len allowEnd =
     (let (index, ok) = codexDesktopInteger part;
          limit = (if allowEnd then int len else int len - 1)
      in if \<not> ok \<or> index < 0 \<or> limit < index then Inl (IndexOutOfRange part)
         else Inr (nat index))"

subsection \<open>Leaves\<close>

fun codexDesktopKey :: "jval \<Rightarrow> string option" where
  "codexDesktopKey (JStr k) = Some k"
| "codexDesktopKey _ = None"

definition applyCodexDesktopObjectPatch ::
    "jobject \<Rightarrow> jval \<Rightarrow> codexDesktopPatch \<Rightarrow> patch_error + jval" where
  "applyCodexDesktopObjectPatch node part patch =
     (case codexDesktopKey part of
        None \<Rightarrow> Inl KeyNotString
      | Some key \<Rightarrow>
          let exists = map_of node key \<noteq> None;
              value = cloneCodexDesktopJSON (dpValue patch) in
          if dpOp patch = ''add'' then Inr (JObj (AList.update key value node))
          else if dpOp patch = ''replace'' then
            if \<not> exists then Inl (ReplaceMissing key) else Inr (JObj (AList.update key value node))
          else if dpOp patch = ''remove'' then
            if \<not> exists then Inl (RemoveMissing key) else Inr (JObj (AList.delete key node))
          else Inl (OpUnsupported (dpOp patch)))"

definition applyCodexDesktopArrayPatch ::
    "jval list \<Rightarrow> jval \<Rightarrow> codexDesktopPatch \<Rightarrow> patch_error + jval" where
  "applyCodexDesktopArrayPatch node part patch =
     (case codexDesktopPatchIndex part (length node) (dpOp patch = ''add'') of
        Inl e \<Rightarrow> Inl e
      | Inr i \<Rightarrow>
          let value = cloneCodexDesktopJSON (dpValue patch) in
          if dpOp patch = ''add'' then Inr (JArr (insert_nth i value node))
          else if dpOp patch = ''replace'' then Inr (JArr (node[i := value]))
          else if dpOp patch = ''remove'' then Inr (JArr (remove_nth i node))
          else Inl (OpUnsupported (dpOp patch)))"

fun applyCodexDesktopPatchLeaf ::
    "jval \<Rightarrow> jval \<Rightarrow> codexDesktopPatch \<Rightarrow> patch_error + jval" where
  "applyCodexDesktopPatchLeaf (JObj node) part patch = applyCodexDesktopObjectPatch node part patch"
| "applyCodexDesktopPatchLeaf (JArr node) part patch = applyCodexDesktopArrayPatch node part patch"
| "applyCodexDesktopPatchLeaf _ part patch = Inl NotContainer"

subsection \<open>Paths\<close>

fun codexDesktopPatchChild :: "jval \<Rightarrow> jval \<Rightarrow> patch_error + jval" where
  "codexDesktopPatchChild (JObj node) part =
     (case codexDesktopKey part of
        None \<Rightarrow> Inl (PathMissing part)
      | Some key \<Rightarrow> (case map_of node key of None \<Rightarrow> Inl (PathMissing part) | Some v \<Rightarrow> Inr v))"
| "codexDesktopPatchChild (JArr node) part =
     (case codexDesktopPatchIndex part (length node) False of
        Inl e \<Rightarrow> Inl e
      | Inr i \<Rightarrow> Inr (node ! i))"
| "codexDesktopPatchChild _ part = Inl NotContainer"

fun replaceCodexDesktopPatchChild :: "jval \<Rightarrow> jval \<Rightarrow> jval \<Rightarrow> patch_error + jval" where
  "replaceCodexDesktopPatchChild (JObj node) part child =
     (case codexDesktopKey part of
        None \<Rightarrow> Inl KeyNotString
      | Some key \<Rightarrow> Inr (JObj (AList.update key child node)))"
| "replaceCodexDesktopPatchChild (JArr node) part child =
     (case codexDesktopPatchIndex part (length node) False of
        Inl e \<Rightarrow> Inl e
      | Inr i \<Rightarrow> Inr (JArr (node[i := child])))"
| "replaceCodexDesktopPatchChild _ part child = Inl NotContainer"

text \<open>The empty path never reaches this function; Go would panic on it.\<close>

fun applyCodexDesktopPatchAt ::
    "jval \<Rightarrow> jval list \<Rightarrow> codexDesktopPatch \<Rightarrow> patch_error + jval" where
  "applyCodexDesktopPatchAt node [] patch = Inl PathEmpty"
| "applyCodexDesktopPatchAt node [part] patch = applyCodexDesktopPatchLeaf node part patch"
| "applyCodexDesktopPatchAt node (part # p # ps) patch =
     (case codexDesktopPatchChild node part of
        Inl e \<Rightarrow> Inl e
      | Inr child \<Rightarrow>
          (case applyCodexDesktopPatchAt child (p # ps) patch of
             Inl e \<Rightarrow> Inl e
           | Inr next \<Rightarrow> replaceCodexDesktopPatchChild node part next))"

fun is_object :: "jval \<Rightarrow> bool" where
  "is_object (JObj _) = True"
| "is_object _ = False"

definition applyCodexDesktopPatch :: "jval \<Rightarrow> codexDesktopPatch \<Rightarrow> patch_error + jval" where
  "applyCodexDesktopPatch root patch =
     (if dpPath patch = [] then
        if dpOp patch \<noteq> ''add'' \<and> dpOp patch \<noteq> ''replace'' then Inl (RootOpUnsupported (dpOp patch))
        else if \<not> is_object (dpValue patch) then Inl RootValueNotObject
        else Inr (cloneCodexDesktopJSON (dpValue patch))
      else applyCodexDesktopPatchAt root (dpPath patch) patch)"

fun applyPatchesFrom ::
    "nat \<Rightarrow> jval \<Rightarrow> codexDesktopPatch list \<Rightarrow> patch_error + jval" where
  "applyPatchesFrom index root [] = Inr root"
| "applyPatchesFrom index root (p # ps) =
     (case applyCodexDesktopPatch root p of
        Inl e \<Rightarrow> Inl (PatchAt index e)
      | Inr next \<Rightarrow> applyPatchesFrom (Suc index) next ps)"

definition applyCodexDesktopPatches ::
    "jobject \<Rightarrow> codexDesktopPatch list \<Rightarrow> patch_error + jobject" where
  "applyCodexDesktopPatches baseline patches =
     (case applyPatchesFrom 0 (cloneCodexDesktopJSON (JObj baseline)) patches of
        Inl e \<Rightarrow> Inl e
      | Inr (JObj fs) \<Rightarrow> Inr fs
      | Inr _ \<Rightarrow> Inl ResultNotObject)"

subsection \<open>Well formed values\<close>

text \<open>
  A list of fields stands for a \<open>map[string]any\<close> exactly when its keys are distinct, at every
  level of the value.
\<close>

fun wf_json :: "jval \<Rightarrow> bool" where
  "wf_json (JObj fs) \<longleftrightarrow> distinct (map fst fs) \<and> (\<forall>(k, v) \<in> set fs. wf_json v)"
| "wf_json (JArr vs) \<longleftrightarrow> (\<forall>v \<in> set vs. wf_json v)"
| "wf_json _ \<longleftrightarrow> True"

lemma clone_id [simp]: "cloneCodexDesktopJSON v = v"
proof (induction v rule: cloneCodexDesktopJSON.induct)
  case (1 fs)
  then have "map (\<lambda>(k, v). (k, cloneCodexDesktopJSON v)) fs = map id fs"
    by (intro map_cong) auto
  then show ?case by simp
next
  case (2 vs)
  then show ?case by (simp add: map_idI)
qed simp_all

lemma clone_patches_id [simp]: "cloneCodexDesktopPatches ps = ps"
  by (simp add: cloneCodexDesktopPatches_def map_idI)

lemma wf_update:
  "wf_json (JObj fs) \<Longrightarrow> wf_json v \<Longrightarrow> wf_json (JObj (AList.update k v fs))"
  by (induction fs) (auto simp: dom_update)

lemma wf_delete: "wf_json (JObj fs) \<Longrightarrow> wf_json (JObj (AList.delete k fs))"
  using AList.distinct_delete [of fs k] by (auto simp: AList.delete_eq)

lemma wf_map_of: "wf_json (JObj fs) \<Longrightarrow> map_of fs k = Some v \<Longrightarrow> wf_json v"
  by (auto dest: map_of_SomeD)

lemma wf_arr_edit:
  "wf_json (JArr vs) \<Longrightarrow> wf_json y \<Longrightarrow> wf_json (JArr (insert_nth i y vs))"
  "wf_json (JArr vs) \<Longrightarrow> wf_json y \<Longrightarrow> wf_json (JArr (vs[i := y]))"
  "wf_json (JArr vs) \<Longrightarrow> wf_json (JArr (remove_nth i vs))"
  using set_update_subset_insert [of vs i y]
  by (auto simp: insert_nth_def remove_nth_def dest: in_set_takeD in_set_dropD)

lemma patch_index_less: "codexDesktopPatchIndex part n False = Inr i \<Longrightarrow> i < n"
  by (auto simp: codexDesktopPatchIndex_def split: prod.splits if_splits)

lemma patch_index_le: "codexDesktopPatchIndex part n b = Inr i \<Longrightarrow> i \<le> n"
  by (auto simp: codexDesktopPatchIndex_def split: prod.splits if_splits)

lemma wf_child: "codexDesktopPatchChild node part = Inr v \<Longrightarrow> wf_json node \<Longrightarrow> wf_json v"
  by (cases node)
     (auto simp: patch_index_less dest: map_of_SomeD patch_index_less split: option.splits sum.splits)

lemma wf_replace:
  "replaceCodexDesktopPatchChild node part v = Inr node' \<Longrightarrow> wf_json node \<Longrightarrow> wf_json v \<Longrightarrow> wf_json node'"
  by (cases node)
     (auto simp del: wf_json.simps(1,2) intro: wf_update wf_arr_edit split: option.splits sum.splits)

lemma wf_object_patch:
  "applyCodexDesktopObjectPatch fs part patch = Inr node' \<Longrightarrow> wf_json (JObj fs) \<Longrightarrow>
     wf_json (dpValue patch) \<Longrightarrow> wf_json node'"
  by (auto simp: applyCodexDesktopObjectPatch_def Let_def simp del: wf_json.simps(1)
      intro: wf_update wf_delete split: option.splits if_splits)

lemma wf_array_patch:
  "applyCodexDesktopArrayPatch vs part patch = Inr node' \<Longrightarrow> wf_json (JArr vs) \<Longrightarrow>
     wf_json (dpValue patch) \<Longrightarrow> wf_json node'"
  by (auto simp: applyCodexDesktopArrayPatch_def Let_def simp del: wf_json.simps(2)
      intro: wf_arr_edit split: sum.splits if_splits)

lemma wf_leaf:
  "applyCodexDesktopPatchLeaf node part patch = Inr node' \<Longrightarrow> wf_json node \<Longrightarrow>
     wf_json (dpValue patch) \<Longrightarrow> wf_json node'"
  by (cases node) (auto simp del: wf_json.simps(1,2) intro: wf_object_patch wf_array_patch)

lemma wf_at:
  "applyCodexDesktopPatchAt node path patch = Inr node' \<Longrightarrow> wf_json node \<Longrightarrow>
     wf_json (dpValue patch) \<Longrightarrow> wf_json node'"
  by (induction node path patch arbitrary: node' rule: applyCodexDesktopPatchAt.induct)
     (auto intro: wf_leaf split: sum.splits, metis wf_child wf_replace)

lemma wf_patch:
  "applyCodexDesktopPatch node patch = Inr node' \<Longrightarrow> wf_json node \<Longrightarrow>
     wf_json (dpValue patch) \<Longrightarrow> wf_json node'"
  by (auto simp: applyCodexDesktopPatch_def intro: wf_at split: if_splits)

lemma wf_patches_from:
  "applyPatchesFrom i node ps = Inr node' \<Longrightarrow> wf_json node \<Longrightarrow>
     \<forall>p \<in> set ps. wf_json (dpValue p) \<Longrightarrow> wf_json node'"
  by (induction i node ps arbitrary: node' rule: applyPatchesFrom.induct)
     (auto dest: wf_patch split: sum.splits)

text \<open>A patch never turns a container into another kind of value: the root stays an object.\<close>

lemma object_leaf:
  "applyCodexDesktopPatchLeaf node part patch = Inr node' \<Longrightarrow> is_object node' = is_object node"
  by (cases node) (auto simp: applyCodexDesktopObjectPatch_def applyCodexDesktopArrayPatch_def Let_def
      split: option.splits sum.splits if_splits)

lemma object_replace:
  "replaceCodexDesktopPatchChild node part v = Inr node' \<Longrightarrow> is_object node' = is_object node"
  by (cases node) (auto split: option.splits sum.splits)

lemma object_patch:
  "applyCodexDesktopPatch node patch = Inr node' \<Longrightarrow> is_object node \<Longrightarrow> is_object node'"
  by (cases "(node, dpPath patch, patch)" rule: applyCodexDesktopPatchAt.cases)
     (auto simp: applyCodexDesktopPatch_def object_leaf object_replace split: if_splits sum.splits)

lemma object_patches_from:
  "applyPatchesFrom i node ps = Inr node' \<Longrightarrow> is_object node \<Longrightarrow> is_object node'"
  by (induction i node ps arbitrary: node' rule: applyPatchesFrom.induct)
     (auto dest: object_patch split: sum.splits)

lemma is_object_iff: "is_object v \<longleftrightarrow> (\<exists>fs. v = JObj fs)"
  by (cases v) auto

lemma apply_patches_iff:
  "applyCodexDesktopPatches fs ps = Inr gs \<longleftrightarrow> applyPatchesFrom 0 (JObj fs) ps = Inr (JObj gs)"
  using object_patches_from [of 0 "JObj fs" ps]
  by (auto simp: applyCodexDesktopPatches_def is_object_iff split: sum.splits jval.splits)

subsection \<open>Reading a path\<close>

text \<open>
  What stands at a path, if the path exists. Two parts of a path are apart when no container
  can hold the same child under both.
\<close>

fun jget :: "jval \<Rightarrow> jval list \<Rightarrow> jval option" where
  "jget v [] = Some v"
| "jget v (part # ps) = (case codexDesktopPatchChild v part of Inl _ \<Rightarrow> None | Inr c \<Rightarrow> jget c ps)"

definition parts_apart :: "jval \<Rightarrow> jval \<Rightarrow> bool" where
  "parts_apart a b \<longleftrightarrow>
     (case (codexDesktopKey a, codexDesktopKey b) of
        (Some k, Some l) \<Rightarrow> k \<noteq> l
      | (None, None) \<Rightarrow> fst (codexDesktopInteger a) \<noteq> fst (codexDesktopInteger b)
      | _ \<Rightarrow> True)"

lemma key_cases: "codexDesktopKey a = Some k \<longleftrightarrow> a = JStr k"
  by (cases a) auto

lemma patch_index_apart:
  assumes "codexDesktopPatchIndex a n c = Inr i" and "codexDesktopPatchIndex b m d = Inr j" and "parts_apart a b"
  shows "i \<noteq> j"
proof -
  have k: "codexDesktopKey a = None" "codexDesktopKey b = None"
    using assms by (cases a; cases b; simp add: codexDesktopPatchIndex_def)+
  have "i = nat (fst (codexDesktopInteger a))" "0 \<le> fst (codexDesktopInteger a)"
    "j = nat (fst (codexDesktopInteger b))" "0 \<le> fst (codexDesktopInteger b)"
    using assms(1,2) by (auto simp: codexDesktopPatchIndex_def split: prod.splits if_splits)
  with assms(3) k show ?thesis by (simp add: parts_apart_def nat_eq_iff)
qed

lemma child_replace_same:
  "replaceCodexDesktopPatchChild node a c = Inr node' \<Longrightarrow> codexDesktopPatchChild node' a = Inr c"
  by (cases node) (auto simp: update_conv' patch_index_less split: option.splits sum.splits)

lemma child_replace_other:
  "replaceCodexDesktopPatchChild node a c = Inr node' \<Longrightarrow> parts_apart a b \<Longrightarrow>
     codexDesktopPatchChild node' b = codexDesktopPatchChild node b"
  by (cases node)
     (auto simp: update_conv' key_cases parts_apart_def dest: patch_index_apart
       split: option.splits sum.splits)

lemma replace_child_ok:
  "codexDesktopPatchChild node a = Inr c \<Longrightarrow> \<exists>node'. replaceCodexDesktopPatchChild node a v = Inr node'"
  by (cases node) (auto split: option.splits sum.splits)

lemma replace_child_undo:
  assumes "codexDesktopPatchChild node a = Inr c" and "replaceCodexDesktopPatchChild node a v = Inr node'"
  shows "replaceCodexDesktopPatchChild node' a c = Inr node"
  using assms
  by (cases node) (auto simp: update_triv list_update_same_conv patch_index_less split: option.splits sum.splits)

lemma leaf_written:
  "applyCodexDesktopPatchLeaf node a patch = Inr node' \<Longrightarrow> dpOp patch \<in> {''add'', ''replace''} \<Longrightarrow>
     codexDesktopPatchChild node' a = Inr (dpValue patch)"
  by (cases node)
     (auto simp: applyCodexDesktopObjectPatch_def applyCodexDesktopArrayPatch_def Let_def update_conv'
       insert_nth_def codexDesktopPatchIndex_def nth_append split: option.splits sum.splits if_splits prod.splits)

lemma leaf_removed:
  "applyCodexDesktopPatchLeaf (JObj fs) a patch = Inr node' \<Longrightarrow> dpOp patch = ''remove'' \<Longrightarrow>
     codexDesktopPatchChild node' a = Inl (PathMissing a)"
  by (auto simp: applyCodexDesktopObjectPatch_def Let_def delete_conv' split: option.splits if_splits)

lemma leaf_other:
  "applyCodexDesktopPatchLeaf node a patch = Inr node' \<Longrightarrow> parts_apart a b \<Longrightarrow>
     is_object node \<or> dpOp patch = ''replace'' \<Longrightarrow>
     codexDesktopPatchChild node' b = codexDesktopPatchChild node b"
  by (cases node)
     (auto simp: applyCodexDesktopObjectPatch_def applyCodexDesktopArrayPatch_def Let_def update_conv'
       delete_conv' key_cases parts_apart_def dest: patch_index_apart
       split: option.splits sum.splits if_splits)

subsection \<open>One patch\<close>

lemma at_deepE:
  assumes "applyCodexDesktopPatchAt node (a # p # ps) patch = Inr node'"
  obtains ch nx where "codexDesktopPatchChild node a = Inr ch"
    and "applyCodexDesktopPatchAt ch (p # ps) patch = Inr nx"
    and "replaceCodexDesktopPatchChild node a nx = Inr node'"
    and "codexDesktopPatchChild node' a = Inr nx"
  using assms child_replace_same by (auto split: sum.splits)

lemma at_written:
  assumes "applyCodexDesktopPatchAt node path patch = Inr node'" and "dpOp patch \<in> {''add'', ''replace''}"
  shows "jget node' path = Some (dpValue patch)"
  using assms
proof (induction path arbitrary: node node' rule: induct_list012)
  case (2 a)
  then show ?case using leaf_written [of node a patch node'] by simp
next
  case (3 a p ps)
  from "3.prems"(1) show ?case by (rule at_deepE) (use "3.IH"(2) "3.prems"(2) in simp)
qed simp

lemma at_removed:
  assumes "applyCodexDesktopPatchAt node path patch = Inr node'" and "dpOp patch = ''remove''"
    and "jget node (butlast path) = Some (JObj fs)"
  shows "jget node' path = None"
  using assms
proof (induction path arbitrary: node node' rule: induct_list012)
  case (2 a)
  then show ?case using leaf_removed [of fs a patch node'] by simp
next
  case (3 a p ps)
  from "3.prems"(1) show ?case by (rule at_deepE) (use "3.IH"(2) "3.prems" in simp)
qed simp

lemma at_other:
  assumes "applyCodexDesktopPatchAt node (c @ a # x) patch = Inr node'" and "parts_apart a b"
    and "x \<noteq> [] \<or> dpOp patch = ''replace'' \<or> (\<exists>fs. jget node c = Some (JObj fs))"
  shows "jget node' (c @ b # y) = jget node (c @ b # y)"
  using assms
proof (induction c arbitrary: node node')
  case Nil
  then show ?case
    using leaf_other [of node a patch node' b]
    by (cases x) (auto simp del: codexDesktopPatchChild.simps applyCodexDesktopPatchLeaf.simps
        applyCodexDesktopPatchAt.simps(3) simp: child_replace_other is_object_iff elim!: at_deepE)
next
  case (Cons d c)
  obtain p ps where t: "c @ a # x = p # ps" by (cases "c @ a # x") auto
  obtain ch nx where ch: "codexDesktopPatchChild node d = Inr ch"
    and nx: "applyCodexDesktopPatchAt ch (c @ a # x) patch = Inr nx"
    and r: "replaceCodexDesktopPatchChild node d nx = Inr node'"
    using Cons.prems(1) unfolding append_Cons t by (rule at_deepE)
  have "jget nx (c @ b # y) = jget ch (c @ b # y)"
    by (rule Cons.IH [OF nx]) (use Cons.prems ch in auto)
  then show ?case using ch child_replace_same [OF r] by simp
qed

lemma leaf_undo:
  assumes "applyCodexDesktopPatchLeaf node a p = Inr node'" and "dpOp p = ''add''" and "dpOp q = ''remove''"
    and "\<And>fs. node = JObj fs \<Longrightarrow> jget node [a] = None"
  shows "applyCodexDesktopPatchLeaf node' a q = Inr node"
proof (cases node)
  case (JObj fs)
  then show ?thesis using assms
    by (auto simp: applyCodexDesktopObjectPatch_def Let_def update_conv' AList.delete_update_same
        delete_id dom_map_of_conv_image_fst [symmetric] domIff split: option.splits)
next
  case (JArr vs)
  then show ?thesis using assms
    by (auto simp: applyCodexDesktopArrayPatch_def Let_def insert_nth_def remove_nth_def
        codexDesktopPatchIndex_def split: sum.splits prod.splits if_splits)
qed (use assms in auto)

lemma at_undo:
  assumes "applyCodexDesktopPatchAt node path p = Inr node'"
    and "dpOp p = ''add''" and "dpOp q = ''remove''"
    and "\<And>fs. jget node (butlast path) = Some (JObj fs) \<Longrightarrow> jget node path = None"
  shows "applyCodexDesktopPatchAt node' path q = Inr node"
  using assms
proof (induction node path p arbitrary: node' rule: applyCodexDesktopPatchAt.induct)
  case (2 node part patch)
  then show ?case by (auto intro: leaf_undo)
next
  case (3 node part p ps patch)
  obtain ch nx where ch: "codexDesktopPatchChild node part = Inr ch"
    and nx: "applyCodexDesktopPatchAt ch (p # ps) patch = Inr nx"
    and r: "replaceCodexDesktopPatchChild node part nx = Inr node'"
    using "3.prems"(1) by (rule at_deepE)
  have "applyCodexDesktopPatchAt nx (p # ps) q = Inr ch"
    by (rule "3.IH" [OF ch nx]) (use "3.prems" ch in auto)
  then show ?case using child_replace_same [OF r] replace_child_undo [OF ch r] by simp
qed simp

subsection \<open>Groups of patches\<close>

lemma patches_from_error:
  "applyPatchesFrom i node ps = Inl e \<Longrightarrow>
     \<exists>n e' mid. n < length ps \<and> e = PatchAt (i + n) e' \<and>
       applyPatchesFrom i node (take n ps) = Inr mid \<and> applyCodexDesktopPatch mid (ps ! n) = Inl e'"
proof (induction i node ps rule: applyPatchesFrom.induct)
  case (2 i node p ps)
  show ?case
  proof (cases "applyCodexDesktopPatch node p")
    case (Inl e')
    then show ?thesis using "2.prems" by (intro exI [of _ 0]) auto
  next
    case (Inr nx)
    then obtain n e' mid where "n < length ps" "e = PatchAt (Suc i + n) e'"
      "applyPatchesFrom (Suc i) nx (take n ps) = Inr mid" "applyCodexDesktopPatch mid (ps ! n) = Inl e'"
      using "2.IH" [OF Inr] "2.prems" by auto
    then show ?thesis using Inr by (intro exI [of _ "Suc n"]) auto
  qed
qed simp

text \<open>A failure of the group stays a failure under any index, and the index does not matter to a success.\<close>

lemma patches_from_shift:
  "applyPatchesFrom i node ps = Inr r \<longleftrightarrow> applyPatchesFrom j node ps = Inr r"
  by (induction ps arbitrary: i j node) (auto split: sum.splits)

text \<open>
  C32: a group of patches maps JSON objects to JSON objects. When it succeeds on a well formed
  object with well formed values, the result is again a well formed object, with distinct keys
  at every level, so every later lookup is a map lookup; the check of the source that the root
  is still an object never fails. When it fails, the error names the first patch that failed,
  after all before it were applied, and the error is that patch's own.
\<close>

theorem desktop_patches_type:
  assumes "wf_json (JObj baseline)" and "\<forall>p \<in> set patches. wf_json (dpValue p)"
  shows "case applyCodexDesktopPatches baseline patches of
      Inr fs \<Rightarrow> wf_json (JObj fs)
    | Inl e \<Rightarrow> \<exists>n e' mid. n < length patches \<and> e = PatchAt n e' \<and>
        applyCodexDesktopPatches baseline (take n patches) = Inr mid \<and> wf_json (JObj mid) \<and>
        applyCodexDesktopPatch (JObj mid) (patches ! n) = Inl e'"
proof (cases "applyPatchesFrom 0 (JObj baseline) patches")
  case (Inr v)
  then obtain fs where "v = JObj fs" using object_patches_from by (metis is_object.simps(1) is_object_iff)
  then show ?thesis using Inr wf_patches_from [OF Inr] assms by (simp add: applyCodexDesktopPatches_def)
next
  case (Inl e)
  then obtain n e' mid where n: "n < length patches" "e = PatchAt n e'"
    and m: "applyPatchesFrom 0 (JObj baseline) (take n patches) = Inr mid"
    and b: "applyCodexDesktopPatch mid (patches ! n) = Inl e'"
    using patches_from_error [OF Inl] by auto
  obtain fs where fs: "mid = JObj fs"
    using object_patches_from [OF m] by (metis is_object.simps(1) is_object_iff)
  have "wf_json (JObj fs)"
    using wf_patches_from [OF m] assms by (auto simp: fs dest: in_set_takeD)
  then show ?thesis using Inl n m b by (auto simp: applyCodexDesktopPatches_def fs)
qed

definition demo_object :: jobject where
  "demo_object = [(''id'', JStr ''t1''), (''turns'', JArr [JObj [(''id'', JStr ''a'')]])]"

definition demo_patch :: "string \<Rightarrow> jval list \<Rightarrow> jval \<Rightarrow> codexDesktopPatch" where
  "demo_patch op path v = \<lparr>dpOp = op, dpPath = path, dpValue = v\<rparr>"

theorem desktop_patches_type_witness:
  "\<exists>fs. applyCodexDesktopPatches demo_object
      [demo_patch ''add'' [JStr ''turns'', JFloat False 1 0] (JObj [(''id'', JStr ''b'')])] = Inr fs \<and>
    wf_json (JObj fs) \<and> jget (JObj fs) [JStr ''turns'', JInt 1, JStr ''id''] = Some (JStr ''b'')"
  using desktop_patches_type [of demo_object
      "[demo_patch ''add'' [JStr ''turns'', JFloat False 1 0] (JObj [(''id'', JStr ''b'')])]"]
  by (simp add: demo_object_def demo_patch_def applyCodexDesktopPatches_def applyCodexDesktopPatch_def
      applyCodexDesktopArrayPatch_def codexDesktopPatchIndex_def float_int_def float_index_def insert_nth_def)

text \<open>
  C33: what one patch does to the paths of the value. After an \<open>add\<close> or a \<open>replace\<close> the path
  reads the value that was written; after a \<open>remove\<close> of an object's field it reads nothing.
  Every path that leaves the path of the patch at another key or index reads what it read
  before, unless the patch inserted into or removed from the very array where the paths part.
  And a \<open>remove\<close> undoes an \<open>add\<close> that did not overwrite a field: it restores the value exactly.
\<close>

theorem desktop_patch_effect:
  assumes "applyCodexDesktopPatchAt node (c @ a # x) patch = Inr node'"
  shows "(dpOp patch \<in> {''add'', ''replace''} \<longrightarrow> jget node' (c @ a # x) = Some (dpValue patch)) \<and>
    (dpOp patch = ''remove'' \<and> x = [] \<and> (\<exists>fs. jget node c = Some (JObj fs)) \<longrightarrow> jget node' (c @ [a]) = None) \<and>
    (parts_apart a b \<and> (x \<noteq> [] \<or> dpOp patch = ''replace'' \<or> (\<exists>fs. jget node c = Some (JObj fs))) \<longrightarrow>
       jget node' (c @ b # y) = jget node (c @ b # y)) \<and>
    (dpOp patch = ''add'' \<and> dpOp undo = ''remove'' \<and> (jget node (c @ a # x) = None \<or>
         (\<exists>vs. jget node (butlast (c @ a # x)) = Some (JArr vs))) \<longrightarrow>
       applyCodexDesktopPatchAt node' (c @ a # x) undo = Inr node)"
  using at_written [OF assms] at_removed [OF assms] at_other [OF assms] at_undo [OF assms]
  by (auto simp: butlast_append)

theorem desktop_patch_effect_witness:
  "\<exists>node'. applyCodexDesktopPatchAt (JObj demo_object) [JStr ''turns'', JInt 0]
      (demo_patch ''add'' [] JNull) = Inr node' \<and>
    jget node' [JStr ''turns'', JInt 0] = Some JNull \<and> jget node' [JStr ''id''] = Some (JStr ''t1'') \<and>
    applyCodexDesktopPatchAt node' [JStr ''turns'', JInt 0] (demo_patch ''remove'' [] JNull) = Inr (JObj demo_object)"
proof -
  have e: "applyCodexDesktopPatchAt (JObj demo_object) ([] @ JStr ''turns'' # [JInt 0])
      (demo_patch ''add'' [] JNull) =
    Inr (JObj [(''id'', JStr ''t1''), (''turns'', JArr [JNull, JObj [(''id'', JStr ''a'')]])])" (is "_ = Inr ?n")
    by (simp add: demo_object_def demo_patch_def applyCodexDesktopArrayPatch_def codexDesktopPatchIndex_def insert_nth_def)
  show ?thesis
    using desktop_patch_effect [OF e, of "JStr ''id''" "[]" "demo_patch ''remove'' [] JNull"] e
    by (simp add: demo_patch_def parts_apart_def) (simp add: demo_object_def codexDesktopPatchIndex_def)
qed

end
