(* ===== verification/Desktop_Projection.thy ===== *)
theory Desktop_Projection
  imports Desktop_Patch Owner_Registry
begin

section \<open>The projection of a Desktop conversation\<close>

text \<open>
  \<open>src/agent/codex_desktop_projection.go\<close> and \<open>codex_desktop_projection_values.go\<close>: from every
  revision of the raw JSON state of a conversation the code computes a fingerprint of its turns
  and items, the events that lead from the previous fingerprint to this one, the requests still
  open and the thread state the messaging side shows. A failed type assertion of Go leaves the
  zero value: a nil map or slice, which reads as an empty one.
\<close>

subsection \<open>Reading raw values\<close>

definition jfield :: "jobject \<Rightarrow> string \<Rightarrow> jval" where
  "jfield obj key = (case map_of obj key of Some v \<Rightarrow> v | None \<Rightarrow> JNull)"

fun as_object :: "jval \<Rightarrow> jobject" where
  "as_object (JObj fs) = fs"
| "as_object _ = []"

fun as_array :: "jval \<Rightarrow> jval list" where
  "as_array (JArr vs) = vs"
| "as_array _ = []"

fun codexDesktopString :: "jval \<Rightarrow> string" where
  "codexDesktopString (JStr s) = go_trim s"
| "codexDesktopString _ = []"

text \<open>
  \<open>%g\<close> of a \<open>float64\<close>: the digits of its shortest decimal, in scientific notation when the
  decimal exponent is less than -4 or at least 6.
\<close>

definition exp_digits :: "int \<Rightarrow> string" where
  "exp_digits x =
     (if x < 0 then ''-'' else ''+'') @
     (let ds = nat_digits (nat \<bar>x\<bar>) in if length ds < 2 then CHR ''0'' # ds else ds)"

definition go_fmt_g :: "bool \<Rightarrow> nat \<Rightarrow> int \<Rightarrow> string" where
  "go_fmt_g neg m e =
     (let ds = (if m = 0 then [] else nat_digits m);
          dp = (if m = 0 then 0 else int (length ds) + e);
          body =
            (if dp - 1 < -4 \<or> 6 \<le> dp - 1 then
               take 1 ds @ (if length ds \<le> 1 then [] else CHR ''.'' # drop 1 ds) @
               CHR ''e'' # exp_digits (dp - 1)
             else
               (if dp \<le> 0 then ''0''
                else take (nat dp) ds @ replicate (nat dp - length ds) (CHR ''0'')) @
               (if int (length ds) \<le> dp then []
                else CHR ''.'' # replicate (nat (- dp)) (CHR ''0'') @ drop (nat dp) ds))
      in if neg then CHR ''-'' # body else body)"

fun codexDesktopID :: "jval \<Rightarrow> string" where
  "codexDesktopID (JStr s) = go_trim s"
| "codexDesktopID (JNumber s) = s"
| "codexDesktopID (JFloat neg m e) = go_fmt_g neg m e"
| "codexDesktopID (JInt i) = go_itoa i"
| "codexDesktopID _ = []"

definition codexDesktopErrorText :: "jval \<Rightarrow> string" where
  "codexDesktopErrorText v =
     (let text = codexDesktopString v in
      if text \<noteq> [] then text else codexDesktopString (jfield (as_object v) ''message''))"

definition codexDesktopItemText :: "jobject \<Rightarrow> string" where
  "codexDesktopItemText item =
     (let text = codexDesktopString (jfield item ''text'') in
      if text \<noteq> [] then text
      else
        let parts = map as_object (as_array (jfield item ''content''));
            texts = filter (\<lambda>p. go_lower (codexDesktopString (jfield p ''type'')) = ''text'') parts
        in go_trim (go_join [CHR 0x0A] (map (\<lambda>p. codexDesktopString (jfield p ''text'')) texts)))"

definition isCodexDesktopActiveStatus :: "string \<Rightarrow> bool" where
  "isCodexDesktopActiveStatus s \<longleftrightarrow> s \<in> {''inProgress'', ''running'', ''active'', ''processing''}"

definition isCodexDesktopTerminalStatus :: "string \<Rightarrow> bool" where
  "isCodexDesktopTerminalStatus s \<longleftrightarrow>
     s \<in> {''completed'', ''failed'', ''interrupted'', ''cancelled'', ''canceled''}"

subsection \<open>Fingerprints\<close>

record codexDesktopProjectedItem =
  piID :: string
  piType :: string
  piStatus :: string
  piPhase :: string
  piText :: string

record codexDesktopProjectedTurn =
  ptID :: string
  ptStatus :: string
  ptItems :: "string \<rightharpoonup> codexDesktopProjectedItem"
  ptOrder :: "string list"
  ptErrorText :: string

record codexDesktopProjectionState =
  pjTurns :: "string \<rightharpoonup> codexDesktopProjectedTurn"
  pjOrder :: "string list"
  pjTerminal :: "string set"
  pjTerminalCandidates :: "string set"
  pjActiveTombstones :: "string \<rightharpoonup> codexDesktopProjectedTurn"

definition codexDesktopMaxProjectedTurns :: nat where
  "codexDesktopMaxProjectedTurns = 200"

definition buildCodexDesktopProjectedItem :: "jobject \<Rightarrow> codexDesktopProjectedItem" where
  "buildCodexDesktopProjectedItem item =
     \<lparr>piID = codexDesktopID (jfield item ''id''), piType = codexDesktopString (jfield item ''type''),
      piStatus = codexDesktopString (jfield item ''status''),
      piPhase = codexDesktopString (jfield item ''phase''), piText = codexDesktopItemText item\<rparr>"

definition turn_id :: "jobject \<Rightarrow> string" where
  "turn_id turn =
     firstNonEmptyTrimmed
       [codexDesktopString (jfield turn ''turnId''), codexDesktopString (jfield turn ''id'')]"

definition add_item :: "codexDesktopProjectedTurn \<Rightarrow> jval \<Rightarrow> codexDesktopProjectedTurn" where
  "add_item t v =
     (let item = buildCodexDesktopProjectedItem (as_object v) in
      if piID item = [] then t
      else t\<lparr>ptItems := (ptItems t)(piID item \<mapsto> item), ptOrder := ptOrder t @ [piID item]\<rparr>)"

definition buildCodexDesktopProjectedTurn :: "jobject \<Rightarrow> codexDesktopProjectedTurn" where
  "buildCodexDesktopProjectedTurn turn =
     foldl add_item
       \<lparr>ptID = turn_id turn, ptStatus = codexDesktopString (jfield turn ''status''), ptItems = Map.empty,
        ptOrder = [], ptErrorText = codexDesktopErrorText (jfield turn ''error'')\<rparr>
       (as_array (jfield turn ''items''))"

text \<open>
  A short conversation lists its turns in \<open>turns\<close>; a long one keeps them as entities, ordered by
  the entries of its islands. A turn that both name is taken from \<open>turns\<close>; entities no island
  names follow in the order of their keys.
\<close>

definition codexDesktopHistory :: "jobject \<Rightarrow> jobject \<times> jobject" where
  "codexDesktopHistory raw =
     (let turnHistory = as_object (jfield raw ''turnHistory'');
          history = as_object (jfield turnHistory ''history'');
          entities = as_object (jfield history ''entitiesByKey'')
      in (history, entities))"

definition codexDesktopTurnIDs :: "jval list \<Rightarrow> string set" where
  "codexDesktopTurnIDs vs = set (filter (\<lambda>i. i \<noteq> []) (map (\<lambda>v. turn_id (as_object v)) vs))"

definition appendCodexDesktopHistoryTurn ::
    "jval list \<times> string set \<Rightarrow> jval \<Rightarrow> jval list \<times> string set" where
  "appendCodexDesktopHistoryTurn rs v =
     (let (result, seen) = rs; i = turn_id (as_object v) in
      if i = [] \<or> i \<in> seen then (result, seen) else (result @ [v], insert i seen))"

definition codexDesktopTurnValues :: "jobject \<Rightarrow> jval list" where
  "codexDesktopTurnValues raw =
     (let turns = as_array (jfield raw ''turns'');
          (history, entities) = codexDesktopHistory raw;
          entries = concat (map (\<lambda>island. as_array (jfield (as_object island) ''entries''))
                      (as_array (jfield history ''islands'')));
          named = map (\<lambda>entry. jfield entities (codexDesktopString (jfield (as_object entry) ''value'')))
                    entries;
          rest = map (jfield entities) (sort (map fst entities))
      in fst (foldl appendCodexDesktopHistoryTurn
                (foldl appendCodexDesktopHistoryTurn (turns, codexDesktopTurnIDs turns) named) rest))"

subsection \<open>The window of turns\<close>

fun keep_recent :: "string list \<Rightarrow> string list \<Rightarrow> string list" where
  "keep_recent [] keep = keep"
| "keep_recent (i # is) keep =
     (if length keep < codexDesktopMaxProjectedTurns then keep_recent is (List.insert i keep) else keep)"

definition turn_active :: "codexDesktopProjectionState \<Rightarrow> string \<Rightarrow> bool" where
  "turn_active pj i \<longleftrightarrow>
     (case pjTurns pj i of Some t \<Rightarrow> isCodexDesktopActiveStatus (ptStatus t) | None \<Rightarrow> False)"

definition filterCodexDesktopTurns ::
    "codexDesktopProjectionState \<Rightarrow> string list \<Rightarrow> codexDesktopProjectionState" where
  "filterCodexDesktopTurns pj keep =
     (let gone = set (filter (\<lambda>i. i \<notin> set keep) (pjOrder pj)) in
      pj\<lparr>pjTurns := pjTurns pj |` (- gone), pjTerminal := pjTerminal pj - gone,
         pjTerminalCandidates := pjTerminalCandidates pj - gone,
         pjOrder := filter (\<lambda>i. i \<in> set keep) (pjOrder pj)\<rparr>)"

definition trimCodexDesktopProjection :: "codexDesktopProjectionState \<Rightarrow> codexDesktopProjectionState" where
  "trimCodexDesktopProjection pj =
     (if length (pjOrder pj) \<le> codexDesktopMaxProjectedTurns then pj
      else filterCodexDesktopTurns pj
             (keep_recent (rev (pjOrder pj)) (remdups (filter (turn_active pj) (pjOrder pj)))))"

definition add_turn :: "codexDesktopProjectionState \<Rightarrow> jval \<Rightarrow> codexDesktopProjectionState" where
  "add_turn pj v =
     (let t = buildCodexDesktopProjectedTurn (as_object v) in
      if ptID t = [] then pj
      else pj\<lparr>pjTurns := (pjTurns pj)(ptID t \<mapsto> t), pjOrder := pjOrder pj @ [ptID t]\<rparr>)"

definition buildCodexDesktopProjection :: "jobject \<Rightarrow> codexDesktopProjectionState" where
  "buildCodexDesktopProjection raw =
     trimCodexDesktopProjection
       (foldl add_turn
          \<lparr>pjTurns = Map.empty, pjOrder = [], pjTerminal = {}, pjTerminalCandidates = {},
           pjActiveTombstones = Map.empty\<rparr>
          (codexDesktopTurnValues raw))"

subsection \<open>What is carried over from the previous revision\<close>

text \<open>
  A previous fingerprint is only used within one connection; \<open>None\<close> is the first revision of a
  connection. A turn that was active and has vanished is kept as a tombstone until it is seen
  active again or has ended.
\<close>

definition carryCodexDesktopActiveTombstones ::
    "codexDesktopProjectionState option \<Rightarrow> (string \<rightharpoonup> codexDesktopProjectedTurn) \<Rightarrow>
     (string \<rightharpoonup> codexDesktopProjectedTurn)" where
  "carryCodexDesktopActiveTombstones previous current =
     (case previous of
        None \<Rightarrow> Map.empty
      | Some prev \<Rightarrow>
          (\<lambda>i. case current i of
              Some t \<Rightarrow> if isCodexDesktopActiveStatus (ptStatus t) then None else pjActiveTombstones prev i
            | None \<Rightarrow>
                (case pjTurns prev i of
                   Some t \<Rightarrow> if isCodexDesktopActiveStatus (ptStatus t) then Some t else pjActiveTombstones prev i
                 | None \<Rightarrow> pjActiveTombstones prev i)))"

definition copyCodexDesktopTerminals :: "codexDesktopProjectionState option \<Rightarrow> string set" where
  "copyCodexDesktopTerminals previous = (case previous of None \<Rightarrow> {} | Some prev \<Rightarrow> pjTerminal prev)"

definition copyCodexDesktopTerminalCandidates :: "codexDesktopProjectionState option \<Rightarrow> string set" where
  "copyCodexDesktopTerminalCandidates previous =
     (case previous of None \<Rightarrow> {} | Some prev \<Rightarrow> pjTerminalCandidates prev)"

definition codexDesktopPreviousTurn ::
    "codexDesktopProjectionState option \<Rightarrow> string \<Rightarrow> codexDesktopProjectedTurn option" where
  "codexDesktopPreviousTurn previous i =
     (case previous of
        None \<Rightarrow> None
      | Some prev \<Rightarrow> (case pjTurns prev i of Some t \<Rightarrow> Some t | None \<Rightarrow> pjActiveTombstones prev i))"

subsection \<open>Events\<close>

text \<open>
  The fields of \<open>codexTurnEvent\<close> that the Desktop path sets. A request of the Desktop becomes
  an event that carries its identifier and a responder; here the responder is its kind.
\<close>

datatype desktopResponder = NoResponder | ApprovalResponder string | UserInputResponder string

record codexDesktopEvent =
  deKind :: string
  deTurnID :: string
  deItemID :: string
  deMessagePhase :: string
  deDelta :: string
  deText :: string
  deEpoch :: uint64
  deRevision :: uint64
  deResponder :: desktopResponder

definition plain_event :: "string \<Rightarrow> string \<Rightarrow> codexDesktopEvent" where
  "plain_event kind turn =
     \<lparr>deKind = kind, deTurnID = turn, deItemID = [], deMessagePhase = [], deDelta = [], deText = [],
      deEpoch = 0, deRevision = 0, deResponder = NoResponder\<rparr>"

definition isCodexDesktopCompletedMessage :: "codexDesktopProjectedItem \<Rightarrow> bool" where
  "isCodexDesktopCompletedMessage item =
     (let status = go_lower (go_trim (piStatus item)) in
      if status = ''completed'' then True
      else if status \<noteq> [] then False
      else go_lower (go_trim (piPhase item)) \<in> {''commentary'', ''final_answer''})"

definition codexDesktopTextEvent ::
    "string \<Rightarrow> codexDesktopProjectedItem option \<Rightarrow> codexDesktopProjectedItem \<Rightarrow>
     codexDesktopEvent option" where
  "codexDesktopTextEvent turn previous current =
     (let old = (case previous of Some p \<Rightarrow> piText p | None \<Rightarrow> []);
          base = (plain_event [] turn)\<lparr>deItemID := piID current, deMessagePhase := piPhase current\<rparr>
      in
      if piText current = [] then None
      else if isCodexDesktopCompletedMessage current \<and>
          (case previous of
             None \<Rightarrow> True
           | Some p \<Rightarrow> \<not> isCodexDesktopCompletedMessage p \<or> piText p \<noteq> piText current \<or>
               piPhase p \<noteq> piPhase current)
        then Some (base\<lparr>deKind := ''item_completed'', deText := piText current\<rparr>)
      else if previous \<noteq> None \<and> old = piText current then None
      else if prefix old (piText current)
        then Some (base\<lparr>deDelta := drop (length old) (piText current)\<rparr>)
      else Some (base\<lparr>deText := piText current\<rparr>))"

definition codexDesktopActivityEvent ::
    "string \<Rightarrow> codexDesktopProjectedItem option \<Rightarrow> codexDesktopProjectedItem \<Rightarrow>
     codexDesktopEvent option" where
  "codexDesktopActivityEvent turn previous current =
     (if (case previous of Some p \<Rightarrow> piStatus p = piStatus current | None \<Rightarrow> False) then None
      else Some ((plain_event ''activity'' turn)\<lparr>deItemID := piID current\<rparr>))"

definition item_event ::
    "string \<Rightarrow> codexDesktopProjectedTurn option \<Rightarrow> codexDesktopProjectedItem \<Rightarrow>
     codexDesktopEvent option" where
  "item_event turn previous item =
     (let old = (case previous of None \<Rightarrow> None | Some p \<Rightarrow> ptItems p (piID item)) in
      if go_lower (piType item) = ''agentmessage'' then codexDesktopTextEvent turn old item
      else if go_lower (piType item) = ''commandexecution'' then codexDesktopActivityEvent turn old item
      else None)"

definition ordered_items :: "codexDesktopProjectedTurn \<Rightarrow> codexDesktopProjectedItem list" where
  "ordered_items t = List.map_filter (ptItems t) (ptOrder t)"

definition projectCodexDesktopItems ::
    "string \<Rightarrow> codexDesktopProjectedTurn option \<Rightarrow> codexDesktopProjectedTurn \<Rightarrow>
     codexDesktopEvent list" where
  "projectCodexDesktopItems turn previous current =
     List.map_filter (item_event turn previous) (ordered_items current)"

definition codexDesktopTurnHasFinalAnswer :: "codexDesktopProjectedTurn \<Rightarrow> bool" where
  "codexDesktopTurnHasFinalAnswer t \<longleftrightarrow>
     list_ex (\<lambda>item.
        equal_fold (piType item) ''agentMessage'' \<and> \<not> blank (piText item) \<and>
        go_lower (go_trim (piPhase item)) \<in> {''final_answer'', []}) (ordered_items t)"

text \<open>The words for ``has ended'' that follow ``Codex turn'' in the source, in UTF-8.\<close>

definition turn_ended_prefix :: string where
  "turn_ended_prefix = ''Codex turn '' @ [CHR 0xE5, CHR 0xB7, CHR 0xB2]"

definition codexDesktopTerminalEvent :: "codexDesktopProjectedTurn \<Rightarrow> codexDesktopEvent" where
  "codexDesktopTerminalEvent t =
     (if ptStatus t = ''completed'' then plain_event ''completed'' (ptID t)
      else (plain_event ''error'' (ptID t))
        \<lparr>deText := firstNonEmptyTrimmed [ptErrorText t, turn_ended_prefix @ ptStatus t]\<rparr>)"

text \<open>
  One turn of the loop of \<open>projectCodexDesktopEvents\<close>. \<open>cur\<close> is the fingerprint under
  construction; only its three memories change.
\<close>

definition started_events ::
    "codexDesktopProjectedTurn option \<Rightarrow> string \<Rightarrow> codexDesktopProjectedTurn \<Rightarrow> codexDesktopEvent list" where
  "started_events old i t =
     (if isCodexDesktopActiveStatus (ptStatus t) \<and>
         \<not> (case old of Some p \<Rightarrow> isCodexDesktopActiveStatus (ptStatus p) | None \<Rightarrow> False)
      then [plain_event ''started'' i] else [])"

definition settle_turn ::
    "bool \<Rightarrow> codexDesktopProjectedTurn option \<Rightarrow> string \<Rightarrow> codexDesktopProjectedTurn \<Rightarrow>
     codexDesktopProjectionState \<Rightarrow> codexDesktopProjectionState \<times> codexDesktopEvent list" where
  "settle_turn baseline old i t cur =
     (let terminal = isCodexDesktopTerminalStatus (ptStatus t);
          transitioned = (case old of Some p \<Rightarrow> isCodexDesktopActiveStatus (ptStatus p) | None \<Rightarrow> False);
          ready = (ptStatus t \<noteq> ''completed'' \<or> codexDesktopTurnHasFinalAnswer t);
          finished = cur\<lparr>pjTerminal := insert i (pjTerminal cur),
                         pjTerminalCandidates := pjTerminalCandidates cur - {i}\<rparr>
      in
      if baseline \<and> terminal then (finished, [])
      else
        let (cur', evs) =
              (if terminal \<and> i \<notin> pjTerminal cur then
                 if transitioned \<and> \<not> ready
                   then (cur\<lparr>pjTerminalCandidates := insert i (pjTerminalCandidates cur)\<rparr>, [])
                 else if ready \<and> (transitioned \<or> i \<in> pjTerminalCandidates cur)
                   then (finished, [codexDesktopTerminalEvent t])
                 else (cur, [])
               else (cur, []))
        in if terminal then (cur'\<lparr>pjActiveTombstones := (pjActiveTombstones cur')(i := None)\<rparr>, evs)
           else (cur'\<lparr>pjTerminalCandidates := pjTerminalCandidates cur' - {i}\<rparr>, evs))"

definition project_turn ::
    "codexDesktopProjectionState option \<Rightarrow> string \<Rightarrow> codexDesktopProjectionState \<Rightarrow>
     codexDesktopProjectionState \<times> codexDesktopEvent list" where
  "project_turn previous i cur =
     (case pjTurns cur i of
        None \<Rightarrow> (cur\<lparr>pjTerminalCandidates := pjTerminalCandidates cur - {i}\<rparr>, [])
      | Some t \<Rightarrow>
          let baseline = (previous = None);
              old = codexDesktopPreviousTurn previous i;
              items = (if \<not> baseline \<or> isCodexDesktopActiveStatus (ptStatus t)
                       then projectCodexDesktopItems i old t else []);
              (cur', settled) = settle_turn baseline old i t cur
          in (cur', started_events old i t @ items @ settled))"

fun project_turns ::
    "codexDesktopProjectionState option \<Rightarrow> string list \<Rightarrow> codexDesktopProjectionState \<Rightarrow>
     codexDesktopProjectionState \<times> codexDesktopEvent list" where
  "project_turns previous [] cur = (cur, [])"
| "project_turns previous (i # is) cur =
     (let (cur', evs) = project_turn previous i cur; (cur'', evs') = project_turns previous is cur'
      in (cur'', evs @ evs'))"

definition projectCodexDesktopEvents ::
    "codexDesktopProjectionState option \<Rightarrow> codexDesktopProjectionState \<Rightarrow>
     codexDesktopProjectionState \<times> codexDesktopEvent list" where
  "projectCodexDesktopEvents previous current = project_turns previous (pjOrder current) current"

subsection \<open>Open requests and the thread state\<close>

record codexDesktopPendingAction =
  paID :: string
  paMethod :: string
  paParams :: jobject

definition isCodexDesktopResolvedRequest :: "jobject \<Rightarrow> bool" where
  "isCodexDesktopResolvedRequest request \<longleftrightarrow>
     jfield request ''completed'' = JBool True \<or>
     go_lower (codexDesktopString (jfield request ''status''))
       \<in> {''completed'', ''resolved'', ''cancelled'', ''canceled''}"

definition add_request ::
    "(string \<times> codexDesktopPendingAction) list \<Rightarrow> jval \<Rightarrow> (string \<times> codexDesktopPendingAction) list" where
  "add_request acc v =
     (let request = as_object v; i = codexDesktopID (jfield request ''id'') in
      if i = [] \<or> isCodexDesktopResolvedRequest request then acc
      else AList.update i
        \<lparr>paID = i, paMethod = codexDesktopString (jfield request ''method''),
         paParams = as_object (jfield request ''params'')\<rparr> acc)"

definition projectCodexDesktopRequests :: "jobject \<Rightarrow> (string \<times> codexDesktopPendingAction) list" where
  "projectCodexDesktopRequests raw = foldl add_request [] (as_array (jfield raw ''requests''))"

definition show_item :: "codexThreadState \<times> string \<Rightarrow> codexDesktopProjectedItem \<Rightarrow> codexThreadState \<times> string" where
  "show_item acc item =
     (let (state, fallback) = acc; phase = go_lower (go_trim (piPhase item)) in
      if go_lower (piType item) = ''usermessage'' then (state\<lparr>tsPreview := piText item\<rparr>, fallback)
      else if go_lower (piType item) = ''agentmessage'' then
        if phase = ''final_answer'' then (state\<lparr>tsLastAgentMessageText := piText item\<rparr>, fallback)
        else if phase = [] then (state, piText item) else (state, fallback)
      else (state, fallback))"

definition projectCodexDesktopItemText ::
    "codexThreadState \<Rightarrow> codexDesktopProjectedTurn \<Rightarrow> codexThreadState" where
  "projectCodexDesktopItemText state turn =
     (let (state', fallback) = foldl show_item (state, []) (ordered_items turn) in
      if tsLastAgentMessageText state' = [] then state'\<lparr>tsLastAgentMessageText := fallback\<rparr> else state')"

definition empty_thread_state :: codexThreadState where
  "empty_thread_state =
     \<lparr>tsThreadID = [], tsThreadStatus = [], tsModel = [], tsEffort = [], tsActive = False,
      tsActiveTurnID = [], tsLastTurnID = [], tsLastTurnStatus = [], tsLastTurnError = [],
      tsWaitingOnApproval = False, tsWaitingOnUserInput = False, tsPreview = [],
      tsLastAgentMessageText = [], tsLastTurnBodyLoaded = False\<rparr>"

definition show_turn :: "codexDesktopProjectionState \<Rightarrow> codexThreadState \<Rightarrow> string \<Rightarrow> codexThreadState" where
  "show_turn pj state i =
     (case pjTurns pj i of
        None \<Rightarrow> state\<lparr>tsLastTurnID := i, tsLastTurnStatus := [], tsLastTurnError := []\<rparr>
      | Some t \<Rightarrow>
          let state' = state\<lparr>tsLastTurnID := i, tsLastTurnStatus := ptStatus t, tsLastTurnError := ptErrorText t\<rparr>
          in if isCodexDesktopActiveStatus (ptStatus t)
             then state'\<lparr>tsActive := True, tsActiveTurnID := i\<rparr> else state')"

definition buildCodexDesktopThreadState ::
    "string \<Rightarrow> jobject \<Rightarrow> codexDesktopProjectionState \<Rightarrow> (string \<times> codexDesktopPendingAction) list \<Rightarrow>
     codexThreadState" where
  "buildCodexDesktopThreadState threadID raw pj requests =
     (let state = empty_thread_state\<lparr>tsThreadID := threadID,
            tsModel := codexDesktopString (jfield raw ''latestModel''),
            tsEffort := codexDesktopString (jfield raw ''latestReasoningEffort'')\<rparr>;
          state = foldl (show_turn pj) state (pjOrder pj);
          state = (if pjOrder pj = [] then state
                   else (case pjTurns pj (last (pjOrder pj)) of
                           None \<Rightarrow> state | Some t \<Rightarrow> projectCodexDesktopItemText state t))
      in state\<lparr>
        tsWaitingOnUserInput := list_ex (\<lambda>(_, r). paMethod r = ''item/tool/requestUserInput'') requests,
        tsWaitingOnApproval := list_ex (\<lambda>(_, r). go_contains (paMethod r) ''requestApproval'') requests\<rparr>)"

definition projectCodexDesktopSnapshot ::
    "string \<Rightarrow> jobject \<Rightarrow> codexDesktopProjectionState option \<Rightarrow>
     codexThreadState \<times> (string \<times> codexDesktopPendingAction) list \<times> codexDesktopProjectionState \<times>
     codexDesktopEvent list" where
  "projectCodexDesktopSnapshot threadID raw previous =
     (let pj = buildCodexDesktopProjection raw;
          pj = pj\<lparr>pjTerminal := copyCodexDesktopTerminals previous,
                  pjTerminalCandidates := copyCodexDesktopTerminalCandidates previous,
                  pjActiveTombstones := carryCodexDesktopActiveTombstones previous (pjTurns pj)\<rparr>;
          (pj', events) = projectCodexDesktopEvents previous pj;
          requests = projectCodexDesktopRequests raw
      in (buildCodexDesktopThreadState threadID raw pj' requests, requests, pj', events))"

subsection \<open>Every turn ends once\<close>

definition pj_keyed :: "codexDesktopProjectionState \<Rightarrow> bool" where
  "pj_keyed pj \<longleftrightarrow> (\<forall>i t. pjTurns pj i = Some t \<longrightarrow> ptID t = i)"

definition ends :: "string \<Rightarrow> codexDesktopEvent list \<Rightarrow> codexDesktopEvent list" where
  "ends i evs = filter (\<lambda>e. deTurnID e = i \<and> deKind e \<in> {''completed'', ''error''}) evs"

lemma ends_append [simp]: "ends i (xs @ ys) = ends i xs @ ends i ys"
  by (simp add: ends_def)

lemma ends_Nil [simp]: "ends i [] = []"
  by (simp add: ends_def)

lemma item_event_kind:
  "item_event i old item = Some e \<Longrightarrow> deKind e \<in> {[], ''item_completed'', ''activity''}"
  by (auto simp: item_event_def codexDesktopTextEvent_def codexDesktopActivityEvent_def plain_event_def Let_def
      split: if_splits option.splits)

lemma ends_items [simp]: "ends j (projectCodexDesktopItems i old t) = []"
  using item_event_kind by (fastforce simp: ends_def projectCodexDesktopItems_def map_filter_def filter_empty_conv)

lemma ends_started [simp]: "ends j (started_events old i t) = []"
  by (simp add: ends_def started_events_def plain_event_def)

lemma ends_terminal: "ends j [codexDesktopTerminalEvent t] = (if ptID t = j then [codexDesktopTerminalEvent t] else [])"
  by (simp add: ends_def codexDesktopTerminalEvent_def plain_event_def)

lemma settle_turn_ends:
  assumes "settle_turn b old i t cur = (cur', evs)" and "ptID t = i"
  shows "length (ends j evs) + of_bool (j \<in> pjTerminal cur) \<le> of_bool (j \<in> pjTerminal cur')"
  using assms
  by (auto simp: settle_turn_def Let_def ends_terminal split: if_splits prod.splits)

lemma settle_turn_frame:
  assumes "settle_turn b old i t cur = (cur', evs)"
  shows "pjTurns cur' = pjTurns cur \<and> pjOrder cur' = pjOrder cur \<and>
    (j \<noteq> i \<longrightarrow> (j \<in> pjTerminal cur' \<longleftrightarrow> j \<in> pjTerminal cur) \<and>
       (j \<in> pjTerminalCandidates cur' \<longleftrightarrow> j \<in> pjTerminalCandidates cur))"
  using assms by (auto simp: settle_turn_def Let_def split: if_splits prod.splits)

lemma project_turn_frame:
  assumes "project_turn previous i cur = (cur', evs)"
  shows "pjTurns cur' = pjTurns cur \<and> pjOrder cur' = pjOrder cur \<and>
    (j \<noteq> i \<longrightarrow> (j \<in> pjTerminal cur' \<longleftrightarrow> j \<in> pjTerminal cur) \<and>
       (j \<in> pjTerminalCandidates cur' \<longleftrightarrow> j \<in> pjTerminalCandidates cur))"
  using assms by (auto simp: project_turn_def Let_def dest: settle_turn_frame split: option.splits prod.splits)

lemma project_turn_ends:
  assumes "project_turn previous i cur = (cur', evs)" and "pj_keyed cur"
  shows "length (ends j evs) + of_bool (j \<in> pjTerminal cur) \<le> of_bool (j \<in> pjTerminal cur')"
proof (cases "pjTurns cur i")
  case None
  then show ?thesis using assms(1) by (auto simp: project_turn_def)
next
  case (Some t)
  obtain c es where s: "settle_turn (previous = None) (codexDesktopPreviousTurn previous i) i t cur = (c, es)"
    by (metis prod.collapse)
  have "ptID t = i" using assms(2) Some by (simp add: pj_keyed_def)
  from settle_turn_ends [OF s this, of j]
  have "length (ends j es) + of_bool (j \<in> pjTerminal cur) \<le> of_bool (j \<in> pjTerminal c)" .
  moreover have "cur' = c" "ends j evs = ends j es"
    using assms(1) Some s by (auto simp: project_turn_def Let_def)
  ultimately show ?thesis by (simp only:)
qed

lemma project_turns_frame:
  assumes "project_turns previous is cur = (cur', evs)"
  shows "pjTurns cur' = pjTurns cur \<and> pjOrder cur' = pjOrder cur \<and>
    (j \<notin> set is \<longrightarrow> (j \<in> pjTerminal cur' \<longleftrightarrow> j \<in> pjTerminal cur) \<and>
       (j \<in> pjTerminalCandidates cur' \<longleftrightarrow> j \<in> pjTerminalCandidates cur))"
  using assms
proof (induction "is" arbitrary: cur cur' evs)
  case (Cons i "is")
  obtain c1 e1 e2 where "project_turn previous i cur = (c1, e1)" "project_turns previous is c1 = (cur', e2)"
    using Cons.prems by (auto split: prod.splits)
  then show ?case using Cons.IH project_turn_frame [of previous i cur c1 e1 j] by auto
qed simp

lemma pj_keyed_cong: "pjTurns pj' = pjTurns pj \<Longrightarrow> pj_keyed pj' = pj_keyed pj"
  by (simp add: pj_keyed_def)

lemma project_turns_ends:
  assumes "project_turns previous is cur = (cur', evs)" and "pj_keyed cur"
  shows "length (ends j evs) + of_bool (j \<in> pjTerminal cur) \<le> of_bool (j \<in> pjTerminal cur')"
  using assms
proof (induction "is" arbitrary: cur cur' evs)
  case (Cons i "is")
  obtain c1 e1 e2 where 1: "project_turn previous i cur = (c1, e1)"
    and 2: "project_turns previous is c1 = (cur', e2)" and "evs = e1 @ e2"
    using Cons.prems by (auto split: prod.splits)
  moreover have "pj_keyed c1" using Cons.prems(2) project_turn_frame [OF 1] pj_keyed_cong by metis
  ultimately show ?case
    using Cons.IH [OF 2] project_turn_ends [OF 1 Cons.prems(2), of j] by simp
qed simp

lemma add_turn_keyed: "pj_keyed pj \<Longrightarrow> pj_keyed (add_turn pj v)"
  by (simp add: add_turn_def Let_def pj_keyed_def)

lemma add_turns_keyed: "pj_keyed pj \<Longrightarrow> pj_keyed (foldl add_turn pj vs)"
  by (induction vs arbitrary: pj) (simp_all add: add_turn_keyed)

lemma trim_keyed: "pj_keyed pj \<Longrightarrow> pj_keyed (trimCodexDesktopProjection pj)"
  by (simp add: trimCodexDesktopProjection_def filterCodexDesktopTurns_def pj_keyed_def Let_def restrict_map_def)

lemma build_projection_keyed: "pj_keyed (buildCodexDesktopProjection raw)"
  unfolding buildCodexDesktopProjection_def
  by (rule trim_keyed, rule add_turns_keyed) (simp add: pj_keyed_def)

definition carried_projection ::
    "jobject \<Rightarrow> codexDesktopProjectionState option \<Rightarrow> codexDesktopProjectionState" where
  "carried_projection raw previous =
     (let pj = buildCodexDesktopProjection raw in
      pj\<lparr>pjTerminal := copyCodexDesktopTerminals previous,
         pjTerminalCandidates := copyCodexDesktopTerminalCandidates previous,
         pjActiveTombstones := carryCodexDesktopActiveTombstones previous (pjTurns pj)\<rparr>)"

lemma carried_simps [simp]:
  "pjTurns (carried_projection raw previous) = pjTurns (buildCodexDesktopProjection raw)"
  "pjOrder (carried_projection raw previous) = pjOrder (buildCodexDesktopProjection raw)"
  "pjTerminal (carried_projection raw previous) = copyCodexDesktopTerminals previous"
  "pjTerminalCandidates (carried_projection raw previous) = copyCodexDesktopTerminalCandidates previous"
  "pj_keyed (carried_projection raw previous)"
  using build_projection_keyed [of raw] by (simp_all add: carried_projection_def Let_def pj_keyed_def)

lemma snapshot_cases:
  assumes "projectCodexDesktopSnapshot threadID raw previous = (state, requests, pj, evs)"
  shows "project_turns previous (pjOrder (carried_projection raw previous)) (carried_projection raw previous) = (pj, evs)"
    and "requests = projectCodexDesktopRequests raw"
    and "state = buildCodexDesktopThreadState threadID raw pj requests"
  using assms
  by (auto simp: projectCodexDesktopSnapshot_def projectCodexDesktopEvents_def carried_projection_def Let_def
      split: prod.splits)

lemma snapshot_ends:
  assumes "projectCodexDesktopSnapshot threadID raw previous = (state, requests, pj, evs)"
  shows "length (ends j evs) + of_bool (j \<in> copyCodexDesktopTerminals previous) \<le> of_bool (j \<in> pjTerminal pj)"
  using project_turns_ends [OF snapshot_cases(1) [OF assms] carried_simps(5), of j] by simp

subsection \<open>An observed end is reported\<close>

definition turn_ready :: "codexDesktopProjectedTurn \<Rightarrow> bool" where
  "turn_ready t \<longleftrightarrow> isCodexDesktopTerminalStatus (ptStatus t) \<and>
     (ptStatus t \<noteq> ''completed'' \<or> codexDesktopTurnHasFinalAnswer t)"

definition was_active :: "codexDesktopProjectionState option \<Rightarrow> string \<Rightarrow> bool" where
  "was_active previous i \<longleftrightarrow>
     (case codexDesktopPreviousTurn previous i of
        Some p \<Rightarrow> isCodexDesktopActiveStatus (ptStatus p) | None \<Rightarrow> False)"

lemma was_active_previous: "was_active previous i \<Longrightarrow> previous \<noteq> None"
  by (cases previous) (simp_all add: was_active_def codexDesktopPreviousTurn_def)

lemma project_turn_reports:
  assumes "project_turn previous i cur = (cur', evs)" and "pjTurns cur i = Some t" and "ptID t = i"
    and "turn_ready t" and "was_active previous i \<or> previous \<noteq> None \<and> i \<in> pjTerminalCandidates cur"
    and "i \<notin> pjTerminal cur"
  shows "ends i evs = [codexDesktopTerminalEvent t]"
proof -
  have "previous \<noteq> None" using assms(5) was_active_previous by blast
  moreover obtain c es where s: "settle_turn False (codexDesktopPreviousTurn previous i) i t cur = (c, es)"
    by (metis prod.collapse)
  moreover have "es = [codexDesktopTerminalEvent t]"
    using s assms(4-6) by (auto simp: settle_turn_def turn_ready_def was_active_def Let_def split: if_splits)
  ultimately show ?thesis
    using assms(1-3) by (auto simp: project_turn_def Let_def ends_terminal split: if_splits)
qed

lemma project_turns_reports:
  assumes "project_turns previous is cur = (cur', evs)" and "pjTurns cur i = Some t" and "ptID t = i"
    and "turn_ready t" and "was_active previous i \<or> previous \<noteq> None \<and> i \<in> pjTerminalCandidates cur"
    and "i \<notin> pjTerminal cur" and "i \<in> set is"
  shows "codexDesktopTerminalEvent t \<in> set (ends i evs)"
  using assms
proof (induction "is" arbitrary: cur cur' evs)
  case (Cons j "is")
  obtain c1 e1 e2 where 1: "project_turn previous j cur = (c1, e1)"
    and 2: "project_turns previous is c1 = (cur', e2)" and e: "evs = e1 @ e2"
    using Cons.prems(1) by (auto split: prod.splits)
  show ?case
  proof (cases "j = i")
    case True
    then show ?thesis using project_turn_reports [of previous i cur c1 e1 t] 1 e Cons.prems by simp
  next
    case False
    then have "codexDesktopTerminalEvent t \<in> set (ends i e2)"
      by (intro Cons.IH [OF 2]) (use Cons.prems project_turn_frame [OF 1, of i] in auto)
    then show ?thesis using e by simp
  qed
qed simp

subsection \<open>The window of turns is bounded\<close>

lemma keep_recent_set: "set keep \<subseteq> set (keep_recent is keep) \<and> set (keep_recent is keep) \<subseteq> set keep \<union> set is"
  by (induction "is" keep rule: keep_recent.induct) (auto simp: List.insert_def)

lemma keep_recent_length:
  "length (keep_recent is keep) \<le> max codexDesktopMaxProjectedTurns (length keep)"
  by (induction "is" keep rule: keep_recent.induct) (auto simp: List.insert_def)

lemma trim_window:
  "card (set (pjOrder (trimCodexDesktopProjection pj)))
     \<le> max codexDesktopMaxProjectedTurns (card {i \<in> set (pjOrder pj). turn_active pj i}) \<and>
   {i \<in> set (pjOrder pj). turn_active pj i} \<subseteq> set (pjOrder (trimCodexDesktopProjection pj))"
proof (cases "length (pjOrder pj) \<le> codexDesktopMaxProjectedTurns")
  case True
  then show ?thesis
    using card_length [of "pjOrder pj"] by (auto simp: trimCodexDesktopProjection_def)
next
  case False
  let ?a = "remdups (filter (turn_active pj) (pjOrder pj))"
  let ?k = "keep_recent (rev (pjOrder pj)) ?a"
  have o: "pjOrder (trimCodexDesktopProjection pj) = filter (\<lambda>i. i \<in> set ?k) (pjOrder pj)"
    using False by (simp add: trimCodexDesktopProjection_def filterCodexDesktopTurns_def Let_def)
  have "card (set (filter (\<lambda>i. i \<in> set ?k) (pjOrder pj))) \<le> card (set ?k)"
    by (rule card_mono) auto
  also have "\<dots> \<le> length ?k" by (rule card_length)
  also have "\<dots> \<le> max codexDesktopMaxProjectedTurns (length ?a)" by (rule keep_recent_length)
  also have "length ?a = card {i \<in> set (pjOrder pj). turn_active pj i}"
    by (simp add: length_remdups_card_conv)
  finally show ?thesis
    unfolding o using keep_recent_set [of ?a "rev (pjOrder pj)"] by auto
qed

subsection \<open>The thread state\<close>

lemma show_turn_active:
  "tsActive (show_turn pj state i) \<longleftrightarrow> tsActive state \<or> turn_active pj i"
  "tsActiveTurnID (show_turn pj state i) = (if turn_active pj i then i else tsActiveTurnID state)"
  by (auto simp: show_turn_def turn_active_def Let_def split: option.splits)

lemma show_turns_active:
  "tsActive (foldl (show_turn pj) state is) \<longleftrightarrow> tsActive state \<or> (\<exists>i \<in> set is. turn_active pj i)"
  by (induction "is" arbitrary: state) (auto simp: show_turn_active)

lemma show_turns_active_id:
  "(\<exists>i \<in> set is. turn_active pj i) \<Longrightarrow>
     tsActiveTurnID (foldl (show_turn pj) state is) \<in> set is \<and>
     turn_active pj (tsActiveTurnID (foldl (show_turn pj) state is))"
proof (induction "is" arbitrary: state rule: rev_induct)
  case (snoc i "is")
  then show ?case by (cases "turn_active pj i") (auto simp: show_turn_active)
qed simp

lemma show_items_active:
  "tsActive (fst (foldl show_item acc items)) = tsActive (fst acc) \<and>
   tsActiveTurnID (fst (foldl show_item acc items)) = tsActiveTurnID (fst acc) \<and>
   tsThreadID (fst (foldl show_item acc items)) = tsThreadID (fst acc)"
  by (induction items arbitrary: acc) (auto simp: show_item_def Let_def split: prod.splits)

lemma item_text_active:
  "tsActive (projectCodexDesktopItemText state t) = tsActive state"
  "tsActiveTurnID (projectCodexDesktopItemText state t) = tsActiveTurnID state"
  using show_items_active [of "(state, [])" "ordered_items t"]
  by (auto simp: projectCodexDesktopItemText_def Let_def split: prod.splits)

lemma thread_state_active:
  "tsActive (buildCodexDesktopThreadState threadID raw pj requests) \<longleftrightarrow> (\<exists>i \<in> set (pjOrder pj). turn_active pj i)"
  by (auto simp: buildCodexDesktopThreadState_def Let_def show_turns_active item_text_active empty_thread_state_def
      split: option.splits)

lemma thread_state_active_id:
  assumes "tsActive (buildCodexDesktopThreadState threadID raw pj requests)"
  shows "turn_active pj (tsActiveTurnID (buildCodexDesktopThreadState threadID raw pj requests))"
proof -
  have ex: "\<exists>i \<in> set (pjOrder pj). turn_active pj i" using assms by (simp add: thread_state_active)
  then have "pjOrder pj \<noteq> []" by auto
  with show_turns_active_id [OF ex] show ?thesis
    by (simp add: buildCodexDesktopThreadState_def Let_def item_text_active split: option.split)
qed

subsection \<open>The events replay the text\<close>

text \<open>
  A follower that keeps the text of one message: a delta is appended, a text replaces what it
  has. This is what the events without a kind and the events \<open>item_completed\<close> mean to the
  messaging side.
\<close>

definition follow_event :: "string \<Rightarrow> codexDesktopEvent \<Rightarrow> string" where
  "follow_event text e = (if deText e \<noteq> [] then deText e else text @ deDelta e)"

definition item_events :: "string \<Rightarrow> string \<Rightarrow> codexDesktopEvent list \<Rightarrow> codexDesktopEvent list" where
  "item_events i x evs = filter (\<lambda>e. deTurnID e = i \<and> deItemID e = x) evs"

definition previous_text :: "codexDesktopProjectedTurn option \<Rightarrow> string \<Rightarrow> string" where
  "previous_text old x =
     (case old of None \<Rightarrow> [] | Some p \<Rightarrow> (case ptItems p x of None \<Rightarrow> [] | Some it \<Rightarrow> piText it))"

lemma item_events_append [simp]: "item_events i x (as @ bs) = item_events i x as @ item_events i x bs"
  by (simp add: item_events_def)

lemma text_event_replay:
  "piText current \<noteq> [] \<Longrightarrow>
     foldl follow_event (case previous of None \<Rightarrow> [] | Some p \<Rightarrow> piText p)
       (case codexDesktopTextEvent turn previous current of None \<Rightarrow> [] | Some e \<Rightarrow> [e]) = piText current"
  by (auto simp: codexDesktopTextEvent_def follow_event_def plain_event_def Let_def prefix_def
      split: option.splits if_splits)

lemma item_event_ids:
  "item_event i old item = Some e \<Longrightarrow> deTurnID e = i \<and> deItemID e = piID item"
  by (auto simp: item_event_def codexDesktopTextEvent_def codexDesktopActivityEvent_def plain_event_def Let_def
      split: if_splits)

definition items_keyed :: "codexDesktopProjectedTurn \<Rightarrow> bool" where
  "items_keyed t \<longleftrightarrow> (\<forall>x it. ptItems t x = Some it \<longrightarrow> piID it = x)"

lemma items_events_other:
  assumes "items_keyed t" and "j \<noteq> i \<or> x \<notin> set xs"
  shows "item_events i x (List.map_filter (item_event j old) (List.map_filter (ptItems t) xs)) = []"
  using assms(2)
proof (induction xs)
  case (Cons y ys)
  then show ?case using assms(1) item_event_ids
    by (fastforce simp: item_events_def items_keyed_def map_filter_simps split: option.splits)
qed (simp add: item_events_def map_filter_simps)

lemma items_events_once:
  assumes "items_keyed t" and "ptItems t x = Some item" and "x \<in> set xs" and "distinct xs"
  shows "item_events i x (List.map_filter (item_event i old) (List.map_filter (ptItems t) xs)) =
    (case item_event i old item of None \<Rightarrow> [] | Some e \<Rightarrow> [e])"
  using assms(3,4)
proof (induction xs)
  case (Cons y ys)
  have k: "deTurnID e = i \<and> deItemID e = z"
    if "ptItems t z = Some it" "item_event i old it = Some e" for z it e
    using item_event_ids [OF that(2)] that(1) assms(1) by (auto simp: items_keyed_def)
  show ?case
  proof (cases "y = x")
    case True
    then show ?thesis
      using Cons.prems assms(2) items_events_other [OF assms(1), of i i x ys old] k [OF assms(2)]
      by (auto simp: map_filter_simps item_events_def split: option.splits)
  next
    case False
    then have ih: "item_events i x (List.map_filter (item_event i old) (List.map_filter (ptItems t) ys)) =
      (case item_event i old item of None \<Rightarrow> [] | Some e \<Rightarrow> [e])"
      using Cons by simp
    show ?thesis
      using ih False
      by (auto dest: k simp: map_filter_simps item_events_def split: option.splits)
  qed
qed simp

lemma settle_item_events: "settle_turn b old j t cur = (cur', evs) \<Longrightarrow> x \<noteq> [] \<Longrightarrow> item_events i x evs = []"
  by (auto simp: settle_turn_def item_events_def codexDesktopTerminalEvent_def plain_event_def Let_def
      split: if_splits)

lemma started_item_events: "x \<noteq> [] \<Longrightarrow> item_events i x (started_events old j t) = []"
  by (auto simp: item_events_def started_events_def plain_event_def)

lemma item_events_Nil [simp]: "item_events i x [] = []"
  by (simp add: item_events_def)

definition keyed_items :: "codexDesktopProjectionState \<Rightarrow> bool" where
  "keyed_items pj \<longleftrightarrow> (\<forall>i t. pjTurns pj i = Some t \<longrightarrow> items_keyed t)"

lemma project_turn_item_events:
  assumes "project_turn (Some prev) j cur = (cur', evs)" and "keyed_items cur" and "x \<noteq> []"
    and "pjTurns cur i = Some t" and "ptItems t x = Some item" and "x \<in> set (ptOrder t)" and "distinct (ptOrder t)"
  shows "item_events i x evs =
      (if j = i then
         (case item_event i (codexDesktopPreviousTurn (Some prev) i) item of None \<Rightarrow> [] | Some e \<Rightarrow> [e])
       else [])"
proof (cases "pjTurns cur j")
  case None
  then show ?thesis using assms by (auto simp: project_turn_def)
next
  case (Some u)
  let ?old = "codexDesktopPreviousTurn (Some prev) j"
  obtain c es where s: "settle_turn False ?old j u cur = (c, es)" by (metis prod.collapse)
  have e: "evs = started_events ?old j u @ projectCodexDesktopItems j ?old u @ es"
    using assms(1) Some s by (simp add: project_turn_def Let_def)
  have k: "items_keyed u" using assms(2) Some by (simp add: keyed_items_def)
  show ?thesis
    unfolding e using k assms(3-7) Some s items_events_other [OF k] items_events_once
    by (cases "j = i")
       (simp_all add: started_item_events settle_item_events projectCodexDesktopItems_def ordered_items_def)
qed

lemma project_turns_item_events:
  assumes "project_turns (Some prev) is cur = (cur', evs)" and "distinct is" and "keyed_items cur" and "x \<noteq> []"
    and "pjTurns cur i = Some t" and "ptItems t x = Some item" and "x \<in> set (ptOrder t)" and "distinct (ptOrder t)"
  shows "item_events i x evs =
      (if i \<in> set is then
         (case item_event i (codexDesktopPreviousTurn (Some prev) i) item of None \<Rightarrow> [] | Some e \<Rightarrow> [e])
       else [])"
  using assms
proof (induction "is" arbitrary: cur cur' evs)
  case (Cons j "is")
  obtain c1 e1 e2 where 1: "project_turn (Some prev) j cur = (c1, e1)"
    and 2: "project_turns (Some prev) is c1 = (cur', e2)" and e: "evs = e1 @ e2"
    using Cons.prems by (auto split: prod.splits)
  have t: "pjTurns c1 = pjTurns cur" using project_turn_frame [OF 1] by simp
  have k: "keyed_items c1" using Cons.prems(3) t by (simp add: keyed_items_def)
  show ?case
    using Cons.IH [OF 2 _ k] project_turn_item_events [OF 1] Cons.prems t e by auto
qed simp

lemma build_projection_keyed_items: "keyed_items (buildCodexDesktopProjection raw)"
proof -
  have a0: "items_keyed (add_item t v)" if "items_keyed t" for t v
    using that by (simp add: add_item_def items_keyed_def Let_def)
  have a1: "items_keyed (foldl add_item t vs)" if "items_keyed t" for t vs
    using that by (induction vs arbitrary: t) (simp_all add: a0)
  have a: "items_keyed (buildCodexDesktopProjectedTurn turn)" for turn
    unfolding buildCodexDesktopProjectedTurn_def by (rule a1) (simp add: items_keyed_def)
  have b: "keyed_items (add_turn pj v)" if "keyed_items pj" for pj v
    using that a by (simp add: add_turn_def keyed_items_def Let_def)
  have c: "keyed_items (foldl add_turn pj vs)" if "keyed_items pj" for pj vs
    using that by (induction vs arbitrary: pj) (simp_all add: b)
  have d: "keyed_items (trimCodexDesktopProjection pj)" if "keyed_items pj" for pj
    using that by (simp add: trimCodexDesktopProjection_def filterCodexDesktopTurns_def keyed_items_def Let_def
        restrict_map_def)
  show ?thesis
    unfolding buildCodexDesktopProjection_def by (rule d, rule c) (simp add: keyed_items_def)
qed


subsection \<open>A conversation of one turn\<close>

definition demo_raw :: "string \<Rightarrow> string \<Rightarrow> jobject" where
  "demo_raw status text =
     [(''id'', JStr ''t1''),
      (''turns'', JArr [JObj [(''turnId'', JStr ''a''), (''status'', JStr status),
         (''items'', JArr [JObj [(''id'', JStr ''m''), (''type'', JStr ''agentMessage''),
            (''text'', JStr text)]])]])]"

definition demo_turn :: "string \<Rightarrow> string \<Rightarrow> codexDesktopProjectedTurn" where
  "demo_turn status text =
     \<lparr>ptID = ''a'', ptStatus = status,
      ptItems = [''m'' \<mapsto> \<lparr>piID = ''m'', piType = ''agentMessage'', piStatus = [], piPhase = [], piText = text\<rparr>],
      ptOrder = [''m''], ptErrorText = []\<rparr>"

definition demo_projection :: "string \<Rightarrow> string \<Rightarrow> codexDesktopProjectionState" where
  "demo_projection status text =
     \<lparr>pjTurns = [''a'' \<mapsto> demo_turn status text], pjOrder = [''a''], pjTerminal = {},
      pjTerminalCandidates = {}, pjActiveTombstones = Map.empty\<rparr>"

lemma demo_turn_values:
  "codexDesktopTurnValues (demo_raw status text) = as_array (jfield (demo_raw status text) ''turns'')"
  by (simp add: codexDesktopTurnValues_def demo_raw_def jfield_def codexDesktopHistory_def)

lemma demo_build:
  "go_trim status = status \<Longrightarrow> go_trim text = text \<Longrightarrow> text \<noteq> [] \<Longrightarrow>
     buildCodexDesktopProjection (demo_raw status text) = demo_projection status text"
  unfolding buildCodexDesktopProjection_def demo_turn_values
  by (simp add: demo_raw_def jfield_def add_turn_def buildCodexDesktopProjectedTurn_def turn_id_def
      firstNonEmptyTrimmed_def codexDesktopErrorText_def add_item_def buildCodexDesktopProjectedItem_def
      codexDesktopItemText_def demo_projection_def demo_turn_def trimCodexDesktopProjection_def
      codexDesktopMaxProjectedTurns_def go_trim_plain plain_char_def)


end
