(* ===== verification/Approval_Types.thy ===== *)
theory Approval_Types
  imports Main
begin

section \<open>What is known of a request for an approval\<close>

text \<open>
  The answers of a probe of a pending request (\<open>agent/approval.go\<close>). The Codex Desktop gives them, and the table of approvals acts on them.
\<close>

datatype ApprovalRequestState =
    ApprovalRequestStateUnknown
  | ApprovalRequestStatePending
  | ApprovalRequestStateResolvedExternally
  | ApprovalRequestStateTurnTerminal

end
