(* ===== verification/Desktop_State.thy ===== *)
theory Desktop_State
  imports Desktop_Projection Approval_Types
begin

section \<open>The cache of Desktop conversations\<close>

text \<open>
  \<open>src/agent/codex_desktop_state.go\<close>, \<open>codex_desktop_state_queue.go\<close>, \<open>codex_desktop_state_wire.go\<close>,
  \<open>codex_desktop_state_actions.go\<close> and \<open>codex_desktop_state_wait.go\<close>: the cache keeps for every
  thread the last revision of the Desktop's state, of the newest connection it has heard of. A
  revision arrives as a full snapshot or as patches against the previous revision; patches that
  do not fit wait in a bounded queue while a snapshot is requested.

  Every operation runs under the mutex of the cache and is one function on its state. The
  readings of the clock within one operation are one instant \<open>now\<close>. A Go map that the code only
  reads and writes by key is a map; the two it walks, the threads and the follow-ups, are lists
  of pairs with distinct keys, in the order of the walk.
\<close>

subsection \<open>State\<close>

record codexDesktopThreadSnapshot =
  dtThreadID :: string
  dtConnectionEpoch :: uint64
  dtRevision :: uint64
  dtRaw :: jobject
  dtState :: codexThreadState
  dtRequests :: "(string \<times> codexDesktopPendingAction) list"
  dtQueuedFollowUps :: "string list"
  dtUpdatedAt :: instant
  dtProjection :: codexDesktopProjectionState

record codexDesktopQueuedPatchSet =
  qpEpoch :: uint64
  qpBaseRevision :: uint64
  qpRevision :: uint64
  qpPatches :: "codexDesktopPatch list"

record codexDesktopQueuedFollowUps =
  qfEpoch :: uint64
  qfMessages :: "string list"
  qfUpdatedAt :: instant

record codexDesktopStateStore =
  dsThreads :: "(string \<times> codexDesktopThreadSnapshot) list"
  dsRevisionWake :: "string set"
  dsQueued :: "string \<rightharpoonup> codexDesktopQueuedPatchSet list"
  dsFollowUps :: "(string \<times> codexDesktopQueuedFollowUps) list"
  dsNeedsSnapshot :: "string \<rightharpoonup> uint64"
  dsActionSeen :: "string \<rightharpoonup> string set"

definition newCodexDesktopStateStore :: codexDesktopStateStore where
  "newCodexDesktopStateStore =
     \<lparr>dsThreads = [], dsRevisionWake = {}, dsQueued = Map.empty, dsFollowUps = [],
      dsNeedsSnapshot = Map.empty, dsActionSeen = Map.empty\<rparr>"

definition codexDesktopMaxThreads :: nat where
  "codexDesktopMaxThreads = 512"

definition codexDesktopMaxQueuedPatches :: nat where
  "codexDesktopMaxQueuedPatches = 300"

datatype desktop_state_error =
    SnapshotIncomplete
  | PatchesWithoutThread
  | FollowUpsWithoutThread
  | ThreadIDMismatch string string
  | PatchFailed patch_error
  | ActionUndecodable string
  | ChangeTypeInvalid string

record codexDesktopStateUpdate =
  upSnapshot :: "codexDesktopThreadSnapshot option"
  upEvents :: "codexDesktopEvent list"
  upApplied :: bool
  upNeedsSnapshot :: bool

definition no_update :: "codexDesktopThreadSnapshot option \<Rightarrow> codexDesktopStateUpdate" where
  "no_update snap = \<lparr>upSnapshot = snap, upEvents = [], upApplied = False, upNeedsSnapshot = False\<rparr>"

definition thread_of :: "codexDesktopStateStore \<Rightarrow> string \<Rightarrow> codexDesktopThreadSnapshot option" where
  "thread_of s i = map_of (dsThreads s) i"

definition put_thread :: "string \<Rightarrow> codexDesktopThreadSnapshot \<Rightarrow> codexDesktopStateStore \<Rightarrow> codexDesktopStateStore" where
  "put_thread i snap s = s\<lparr>dsThreads := AList.update i snap (dsThreads s)\<rparr>"

subsection \<open>Requests of the Desktop\<close>

text \<open>
  An approval or a question is delivered once: \<open>actionSeen\<close> remembers it, and a failed answer
  forgets it again. The parameters of a request are decoded by \<open>encoding/json\<close> into structs;
  the two decoders are parameters of the model.
\<close>

record codexDesktopUserInputWireQuestion =
  wqID :: string
  wqHeader :: string
  wqQuestion :: string
  wqPrompt :: string

record desktop_decoders =
  ddPermission :: "jobject \<Rightarrow> bool"
  ddQuestions :: "jval \<Rightarrow> codexDesktopUserInputWireQuestion list option"

definition codexDesktopApprovalMethods :: "string \<rightharpoonup> string" where
  "codexDesktopApprovalMethods =
     [''item/commandExecution/requestApproval'' \<mapsto> ''thread-follower-command-approval-decision'',
      ''item/fileChange/requestApproval'' \<mapsto> ''thread-follower-file-approval-decision'',
      ''item/fileRead/requestApproval'' \<mapsto> ''thread-follower-file-approval-decision'',
      ''item/permissions/requestApproval'' \<mapsto> ''thread-follower-file-approval-decision'']"

definition validateCodexDesktopQuestions :: "(string \<times> string) list \<Rightarrow> bool" where
  "validateCodexDesktopQuestions qs \<longleftrightarrow> qs \<noteq> [] \<and> list_all (\<lambda>(i, prompt). i \<noteq> [] \<and> prompt \<noteq> []) qs"

definition decodeCodexDesktopUserInput ::
    "desktop_decoders \<Rightarrow> codexDesktopPendingAction \<Rightarrow> (string \<times> string) list option" where
  "decodeCodexDesktopUserInput dec action =
     (case ddQuestions dec (jfield (paParams action) ''questions'') of
        None \<Rightarrow> None
      | Some ws \<Rightarrow>
          let qs = map (\<lambda>w. (go_trim (wqID w), firstNonEmptyTrimmed [wqQuestion w, wqPrompt w])) ws
          in if validateCodexDesktopQuestions qs then Some qs else None)"

text \<open>\<open>None\<close> is an error; \<open>Some None\<close> a method without a projection.\<close>

definition projectPendingAction ::
    "desktop_decoders \<Rightarrow> codexDesktopPendingAction \<Rightarrow> codexDesktopEvent option option" where
  "projectPendingAction dec action =
     (if codexDesktopApprovalMethods (paMethod action) \<noteq> None then
        if ddPermission dec (paParams action)
        then Some (Some ((plain_event ''approval_request'' [])\<lparr>deResponder := ApprovalResponder (paID action)\<rparr>))
        else None
      else if paMethod action = ''item/tool/requestUserInput'' then
        case decodeCodexDesktopUserInput dec action of
          None \<Rightarrow> None
        | Some _ \<Rightarrow> Some (Some ((plain_event ''user_input_request'' [])\<lparr>deResponder := UserInputResponder (paID action)\<rparr>))
      else Some None)"

definition sortedCodexDesktopRequestIDs :: "(string \<times> codexDesktopPendingAction) list \<Rightarrow> string list" where
  "sortedCodexDesktopRequestIDs rs = sort (map fst rs)"

fun project_actions ::
    "desktop_decoders \<Rightarrow> codexDesktopThreadSnapshot \<Rightarrow> string list \<Rightarrow> string set \<Rightarrow>
     string set \<times> codexDesktopEvent list \<times> desktop_state_error option" where
  "project_actions dec snap [] seen = (seen, [], None)"
| "project_actions dec snap (i # is) seen =
     (if i \<in> seen then project_actions dec snap is seen
      else (case map_of (dtRequests snap) i of
          None \<Rightarrow> project_actions dec snap is seen
        | Some action \<Rightarrow>
            (case projectPendingAction dec action of
               None \<Rightarrow> (seen, [], Some (ActionUndecodable i))
             | Some None \<Rightarrow> project_actions dec snap is seen
             | Some (Some e) \<Rightarrow>
                 let e' = e\<lparr>deTurnID := firstNonEmptyTrimmed
                        [deTurnID e, tsActiveTurnID (dtState snap), tsLastTurnID (dtState snap)]\<rparr>;
                     (seen', es, err) = project_actions dec snap is (insert i seen)
                 in (seen', e' # es, err))))"

text \<open>\<open>None\<close> for the decoders is a cache without an action client.\<close>

definition projectPendingActionEventsLocked ::
    "desktop_decoders option \<Rightarrow> codexDesktopThreadSnapshot \<Rightarrow> codexDesktopStateStore \<Rightarrow>
     codexDesktopStateStore \<times> codexDesktopEvent list \<times> desktop_state_error option" where
  "projectPendingActionEventsLocked actions snap s =
     (case actions of
        None \<Rightarrow> (s, [], None)
      | Some dec \<Rightarrow>
          if dtRequests snap = [] then (s, [], None)
          else
            let seen = (case dsActionSeen s (dtThreadID snap) of None \<Rightarrow> {} | Some x \<Rightarrow> x);
                (seen', es, err) =
                  project_actions dec snap (sortedCodexDesktopRequestIDs (dtRequests snap)) seen
            in (s\<lparr>dsActionSeen := (dsActionSeen s)(dtThreadID snap \<mapsto> seen')\<rparr>, es, err))"

definition resetPendingActionOnError ::
    "string \<Rightarrow> string \<Rightarrow> bool \<Rightarrow> codexDesktopStateStore \<Rightarrow> codexDesktopStateStore" where
  "resetPendingActionOnError threadID requestID failed s =
     (if \<not> failed then s
      else s\<lparr>dsActionSeen :=
        (dsActionSeen s)(threadID := map_option (\<lambda>x. x - {requestID}) (dsActionSeen s threadID))\<rparr>)"

definition codexDesktopApprovalRequestState ::
    "codexDesktopThreadSnapshot \<Rightarrow> string \<Rightarrow> string \<Rightarrow> ApprovalRequestState" where
  "codexDesktopApprovalRequestState snap turnID requestID =
     (let turnID = go_trim turnID; requestID = go_trim requestID;
          active = go_trim (tsActiveTurnID (dtState snap));
          exists = (map_of (dtRequests snap) requestID \<noteq> None) in
      if turnID = [] \<or> requestID = [] then ApprovalRequestStateUnknown
      else if tsActive (dtState snap) then
        if active = [] then ApprovalRequestStateUnknown
        else if active \<noteq> turnID then ApprovalRequestStateTurnTerminal
        else if exists then ApprovalRequestStatePending
        else ApprovalRequestStateResolvedExternally
      else if exists \<or> blank (tsLastTurnID (dtState snap)) then ApprovalRequestStateUnknown
      else ApprovalRequestStateTurnTerminal)"

subsection \<open>Follow-ups\<close>

definition attachQueuedFollowUpsLocked ::
    "codexDesktopThreadSnapshot \<Rightarrow> codexDesktopStateStore \<Rightarrow>
     codexDesktopThreadSnapshot \<times> codexDesktopStateStore" where
  "attachQueuedFollowUpsLocked snap s =
     (case map_of (dsFollowUps s) (dtThreadID snap) of
        None \<Rightarrow> (snap, s)
      | Some q \<Rightarrow>
          if qfEpoch q < dtConnectionEpoch snap
            then (snap, s\<lparr>dsFollowUps := AList.delete (dtThreadID snap) (dsFollowUps s)\<rparr>)
          else if qfEpoch q = dtConnectionEpoch snap
            then (snap\<lparr>dtQueuedFollowUps := qfMessages q\<rparr>, s)
          else (snap, s))"

subsection \<open>Eviction\<close>

definition evictable :: "string \<Rightarrow> string \<times> codexDesktopThreadSnapshot \<Rightarrow> bool" where
  "evictable current p \<longleftrightarrow>
     fst p \<noteq> current \<and> \<not> tsActive (dtState (snd p)) \<and> dtRequests (snd p) = []"

text \<open>The first of the oldest: a later candidate only replaces an earlier one if it is older.\<close>

fun oldest :: "('a \<Rightarrow> instant) \<Rightarrow> 'a list \<Rightarrow> 'a option" where
  "oldest f [] = None"
| "oldest f (x # xs) = (case oldest f xs of None \<Rightarrow> Some x | Some y \<Rightarrow> if f y < f x then Some y else Some x)"

definition forget_thread :: "string \<Rightarrow> codexDesktopStateStore \<Rightarrow> codexDesktopStateStore" where
  "forget_thread i s =
     s\<lparr>dsThreads := AList.delete i (dsThreads s), dsQueued := (dsQueued s)(i := None),
       dsFollowUps := AList.delete i (dsFollowUps s), dsNeedsSnapshot := (dsNeedsSnapshot s)(i := None),
       dsActionSeen := (dsActionSeen s)(i := None)\<rparr>"

lemma oldest_mem: "oldest f xs = Some x \<Longrightarrow> x \<in> set xs"
  by (induction xs arbitrary: x) (auto split: option.splits if_splits)

function evictIdleLocked :: "string \<Rightarrow> codexDesktopStateStore \<Rightarrow> codexDesktopStateStore" where
  "evictIdleLocked current s =
     (if length (dsThreads s) \<le> codexDesktopMaxThreads then s
      else (case oldest (\<lambda>p. dtUpdatedAt (snd p)) (filter (evictable current) (dsThreads s)) of
          None \<Rightarrow> s
        | Some p \<Rightarrow> evictIdleLocked current (forget_thread (fst p) s)))"
  by pat_completeness auto
termination
proof (relation "measure (\<lambda>(c, s). length (dsThreads s))")
  fix current and s :: codexDesktopStateStore and p
  assume "oldest (\<lambda>p. dtUpdatedAt (snd p)) (filter (evictable current) (dsThreads s)) = Some p"
  then have "p \<in> set (dsThreads s)" using oldest_mem by fastforce
  then have "length (filter (\<lambda>q. fst p \<noteq> fst q) (dsThreads s)) < length (dsThreads s)"
    by (intro length_filter_less) auto
  then show "((current, forget_thread (fst p) s), (current, s)) \<in> measure (\<lambda>(c, s). length (dsThreads s))"
    by (simp add: forget_thread_def AList.delete_eq case_prod_beta')
qed simp

declare evictIdleLocked.simps [simp del]

definition orphans :: "codexDesktopStateStore \<Rightarrow> (string \<times> codexDesktopQueuedFollowUps) list" where
  "orphans s = filter (\<lambda>p. thread_of s (fst p) = None) (dsFollowUps s)"

definition older_orphan ::
    "string \<times> codexDesktopQueuedFollowUps \<Rightarrow> string \<times> codexDesktopQueuedFollowUps \<Rightarrow> bool" where
  "older_orphan p q \<longleftrightarrow>
     qfUpdatedAt (snd p) < qfUpdatedAt (snd q) \<or>
     qfUpdatedAt (snd p) = qfUpdatedAt (snd q) \<and> fst p < fst q"

definition oldest_orphan ::
    "(string \<times> codexDesktopQueuedFollowUps) list \<Rightarrow> (string \<times> codexDesktopQueuedFollowUps) option" where
  "oldest_orphan ps =
     foldl (\<lambda>c p. case c of None \<Rightarrow> Some p | Some q \<Rightarrow> if older_orphan p q then Some p else c) None ps"

lemma oldest_orphan_mem: "oldest_orphan ps = Some p \<Longrightarrow> p \<in> set ps"
proof -
  have "foldl (\<lambda>c p. case c of None \<Rightarrow> Some p | Some q \<Rightarrow> if older_orphan p q then Some p else c) c ps = Some p \<Longrightarrow>
      p \<in> set ps \<or> c = Some p" for c
    by (induction ps arbitrary: c) (fastforce split: option.splits if_splits)+
  then show "oldest_orphan ps = Some p \<Longrightarrow> p \<in> set ps" by (force simp: oldest_orphan_def)
qed

function evictOrphanFollowUpsLocked :: "string \<Rightarrow> codexDesktopStateStore \<Rightarrow> codexDesktopStateStore" where
  "evictOrphanFollowUpsLocked current s =
     (if length (orphans s) \<le> codexDesktopMaxThreads then s
      else (case oldest_orphan (filter (\<lambda>p. fst p \<noteq> current) (orphans s)) of
          None \<Rightarrow> s
        | Some p \<Rightarrow> evictOrphanFollowUpsLocked current (s\<lparr>dsFollowUps := AList.delete (fst p) (dsFollowUps s)\<rparr>)))"
  by pat_completeness auto
termination
proof (relation "measure (\<lambda>(c, s). length (dsFollowUps s))")
  fix current and s :: codexDesktopStateStore and p
  assume "oldest_orphan (filter (\<lambda>p. fst p \<noteq> current) (orphans s)) = Some p"
  then have "p \<in> set (dsFollowUps s)" using oldest_orphan_mem by (fastforce simp: orphans_def)
  then have "length (filter (\<lambda>q. fst p \<noteq> fst q) (dsFollowUps s)) < length (dsFollowUps s)"
    by (intro length_filter_less) auto
  then show "((current, s\<lparr>dsFollowUps := AList.delete (fst p) (dsFollowUps s)\<rparr>), (current, s))
      \<in> measure (\<lambda>(c, s). length (dsFollowUps s))"
    by (simp add: AList.delete_eq case_prod_beta')
qed simp

declare evictOrphanFollowUpsLocked.simps [simp del]

subsection \<open>Snapshots and patches\<close>

definition validateCodexDesktopRawThreadID :: "string \<Rightarrow> jobject \<Rightarrow> desktop_state_error option" where
  "validateCodexDesktopRawThreadID threadID raw =
     (let rawID = codexDesktopString (jfield raw ''id'') in
      if rawID = [] \<or> rawID \<noteq> threadID then Some (ThreadIDMismatch threadID rawID) else None)"

definition codexDesktopProjectionPointer ::
    "codexDesktopThreadSnapshot option \<Rightarrow> uint64 \<Rightarrow> codexDesktopProjectionState option" where
  "codexDesktopProjectionPointer current epoch =
     (case current of
        Some c \<Rightarrow> if dtConnectionEpoch c = epoch then Some (dtProjection c) else None
      | None \<Rightarrow> None)"

definition buildCodexDesktopSnapshot ::
    "string \<Rightarrow> uint64 \<Rightarrow> uint64 \<Rightarrow> jobject \<Rightarrow> instant \<Rightarrow> codexDesktopProjectionState option \<Rightarrow>
     codexDesktopThreadSnapshot \<times> codexDesktopEvent list" where
  "buildCodexDesktopSnapshot threadID epoch revision raw updatedAt previous =
     (let (state, requests, pj, events) = projectCodexDesktopSnapshot threadID raw previous
      in (\<lparr>dtThreadID = threadID, dtConnectionEpoch = epoch, dtRevision = revision, dtRaw = raw,
           dtState = state, dtRequests = requests, dtQueuedFollowUps = [], dtUpdatedAt = updatedAt,
           dtProjection = pj\<rparr>, events))"

definition stampCodexDesktopWatermark ::
    "codexDesktopThreadSnapshot \<Rightarrow> codexDesktopEvent list \<Rightarrow> codexDesktopEvent list" where
  "stampCodexDesktopWatermark snap evs =
     map (\<lambda>e. e\<lparr>deEpoch := dtConnectionEpoch snap, deRevision := dtRevision snap\<rparr>) evs"

definition signalRevisionLocked :: "string \<Rightarrow> codexDesktopStateStore \<Rightarrow> codexDesktopStateStore" where
  "signalRevisionLocked i s = s\<lparr>dsRevisionWake := dsRevisionWake s - {i}\<rparr>"

definition countCodexDesktopQueuedPatches :: "codexDesktopQueuedPatchSet list \<Rightarrow> nat" where
  "countCodexDesktopQueuedPatches q = sum_list (map (\<lambda>p. length (qpPatches p)) q)"

definition queue_of :: "codexDesktopStateStore \<Rightarrow> string \<Rightarrow> codexDesktopQueuedPatchSet list" where
  "queue_of s i = (case dsQueued s i of None \<Rightarrow> [] | Some q \<Rightarrow> q)"

definition target_of :: "codexDesktopStateStore \<Rightarrow> string \<Rightarrow> uint64" where
  "target_of s i = (case dsNeedsSnapshot s i of None \<Rightarrow> 0 | Some r \<Rightarrow> r)"

text \<open>The third component says whether this call is the one that asks the Desktop for a snapshot.\<close>

definition queuePatchSetLocked ::
    "string \<Rightarrow> codexDesktopQueuedPatchSet \<Rightarrow> codexDesktopStateStore \<Rightarrow>
     codexDesktopStateStore \<times> codexDesktopStateUpdate \<times> bool" where
  "queuePatchSetLocked threadID ps s =
     (let queue = queue_of s threadID;
          fits = countCodexDesktopQueuedPatches queue + length (qpPatches ps) \<le> codexDesktopMaxQueuedPatches \<and>
                 length queue < codexDesktopMaxQueuedPatches;
          s1 = (if fits
                then s\<lparr>dsQueued := (dsQueued s)(threadID \<mapsto>
                       queue @ [ps\<lparr>qpPatches := cloneCodexDesktopPatches (qpPatches ps)\<rparr>])\<rparr>
                else s);
          requested = (dsNeedsSnapshot s threadID \<noteq> None);
          s2 = (if target_of s threadID < qpRevision ps
                then s1\<lparr>dsNeedsSnapshot := (dsNeedsSnapshot s1)(threadID \<mapsto> qpRevision ps)\<rparr> else s1)
      in (s2, \<lparr>upSnapshot = thread_of s threadID, upEvents = [], upApplied = False, upNeedsSnapshot = True\<rparr>,
          \<not> requested))"

definition storeRemainingPatches ::
    "string \<Rightarrow> codexDesktopQueuedPatchSet list \<Rightarrow> codexDesktopStateStore \<Rightarrow> codexDesktopStateStore" where
  "storeRemainingPatches i remaining s =
     s\<lparr>dsQueued := (dsQueued s)(i := (if remaining = [] then None else Some remaining))\<rparr>"

text \<open>
  The loop of \<open>replayQueuedLocked\<close> over the queue. An error keeps the entries passed over so far
  and the one that failed; the entries behind it are dropped.
\<close>

fun replay_queue ::
    "string \<Rightarrow> instant \<Rightarrow> codexDesktopThreadSnapshot \<Rightarrow> codexDesktopQueuedPatchSet list \<Rightarrow>
     codexDesktopEvent list \<Rightarrow> codexDesktopQueuedPatchSet list \<Rightarrow> codexDesktopStateStore \<Rightarrow>
     codexDesktopStateStore \<times> codexDesktopEvent list \<times> desktop_state_error option" where
  "replay_queue i now current remaining events [] s =
     (evictIdleLocked i (storeRemainingPatches i remaining s), events, None)"
| "replay_queue i now current remaining events (q # qs) s =
     (if qpEpoch q \<noteq> dtConnectionEpoch current \<or> qpRevision q \<le> dtRevision current
        then replay_queue i now current remaining events qs s
      else if qpBaseRevision q \<noteq> dtRevision current
        then replay_queue i now current (remaining @ [q]) events qs s
      else (case applyCodexDesktopPatches (dtRaw current) (qpPatches q) of
          Inl e \<Rightarrow> (s\<lparr>dsQueued := (dsQueued s)(i \<mapsto> remaining @ [q])\<rparr>, events, Some (PatchFailed e))
        | Inr next \<Rightarrow>
            (case validateCodexDesktopRawThreadID i next of
               Some e \<Rightarrow> (s\<lparr>dsQueued := (dsQueued s)(i \<mapsto> remaining @ [q])\<rparr>, events, Some e)
             | None \<Rightarrow>
                 let (snap, projected) = buildCodexDesktopSnapshot i (qpEpoch q) (qpRevision q) next now
                       (Some (dtProjection current));
                     (snap', s') = attachQueuedFollowUpsLocked snap s
                 in replay_queue i now snap' remaining (events @ projected) qs (put_thread i snap' s'))))"

definition replayQueuedLocked ::
    "string \<Rightarrow> instant \<Rightarrow> codexDesktopThreadSnapshot \<Rightarrow> codexDesktopStateStore \<Rightarrow>
     codexDesktopStateStore \<times> codexDesktopEvent list \<times> desktop_state_error option" where
  "replayQueuedLocked i now current s = replay_queue i now current [] [] (queue_of s i) s"

type_synonym store_result = "codexDesktopStateStore \<times> codexDesktopStateUpdate \<times> desktop_state_error list"

definition option_list :: "'a option \<Rightarrow> 'a list" where
  "option_list x = (case x of None \<Rightarrow> [] | Some y \<Rightarrow> [y])"

text \<open>What both paths do after the new revision is stored.\<close>

definition publish_revision ::
    "desktop_decoders option \<Rightarrow> codexDesktopThreadSnapshot \<Rightarrow> codexDesktopEvent list \<Rightarrow> codexDesktopStateStore \<Rightarrow>
     codexDesktopStateStore \<times> codexDesktopEvent list \<times> desktop_state_error option" where
  "publish_revision actions snap events s =
     (let s1 = signalRevisionLocked (dtThreadID snap) s;
          (s2, es, err) = projectPendingActionEventsLocked actions snap s1
      in (s2, stampCodexDesktopWatermark snap (events @ es), err))"

definition applySnapshot ::
    "desktop_decoders option \<Rightarrow> instant \<Rightarrow> string \<Rightarrow> uint64 \<Rightarrow> uint64 \<Rightarrow> jobject option \<Rightarrow>
     codexDesktopStateStore \<Rightarrow> store_result" where
  "applySnapshot actions now tid epoch revision rawOpt s =
     (let threadID = go_trim tid in
      case rawOpt of
        None \<Rightarrow> (s, no_update None, [SnapshotIncomplete])
      | Some raw \<Rightarrow>
          if threadID = [] then (s, no_update None, [SnapshotIncomplete])
          else (case validateCodexDesktopRawThreadID threadID raw of
              Some e \<Rightarrow> (s, no_update None, [e])
            | None \<Rightarrow>
                let current = thread_of s threadID in
                if (case current of
                      Some c \<Rightarrow> epoch < dtConnectionEpoch c \<or>
                        dtConnectionEpoch c = epoch \<and> revision \<le> dtRevision c
                    | None \<Rightarrow> False)
                  then (s, no_update current, [])
                else
                  let (snap0, events) = buildCodexDesktopSnapshot threadID epoch revision raw now
                        (codexDesktopProjectionPointer current epoch);
                      (snap1, s1) = attachQueuedFollowUpsLocked snap0 s;
                      (s2, replayed, rerr) = replayQueuedLocked threadID now snap1 (put_thread threadID snap1 s1);
                      snap = (case thread_of s2 threadID of Some x \<Rightarrow> x | None \<Rightarrow> snap1);
                      (s3, evs, aerr) = publish_revision actions snap (events @ replayed) s2;
                      needs = dtRevision snap < target_of s3 threadID;
                      s4 = (if needs then s3 else s3\<lparr>dsNeedsSnapshot := (dsNeedsSnapshot s3)(threadID := None)\<rparr>)
                  in (s4, \<lparr>upSnapshot = Some snap, upEvents = evs, upApplied = True, upNeedsSnapshot = needs\<rparr>,
                      option_list rerr @ option_list aerr)))"

text \<open>The last component says whether the Desktop is asked for a snapshot.\<close>

definition applyPatchSet ::
    "desktop_decoders option \<Rightarrow> instant \<Rightarrow> string \<Rightarrow> codexDesktopQueuedPatchSet \<Rightarrow> codexDesktopStateStore \<Rightarrow>
     store_result \<times> bool" where
  "applyPatchSet actions now tid ps s =
     (let threadID = go_trim tid; current = thread_of s threadID in
      if threadID = [] then ((s, no_update None, [PatchesWithoutThread]), False)
      else if (case current of
                 Some c \<Rightarrow> qpEpoch ps < dtConnectionEpoch c \<or>
                   dtConnectionEpoch c = qpEpoch ps \<and> qpRevision ps \<le> dtRevision c
               | None \<Rightarrow> False)
        then ((s, no_update current, []), False)
      else
        (case current of
           None \<Rightarrow>
             (let (s', up, ask) = queuePatchSetLocked threadID ps s in ((s', up, []), ask))
         | Some c \<Rightarrow>
             if dtConnectionEpoch c \<noteq> qpEpoch ps \<or> qpBaseRevision ps \<noteq> dtRevision c
               then (let (s', up, ask) = queuePatchSetLocked threadID ps s in ((s', up, []), ask))
             else (case applyCodexDesktopPatches (dtRaw c) (qpPatches ps) of
                 Inl e \<Rightarrow> ((s, no_update None, [PatchFailed e]), False)
               | Inr next \<Rightarrow>
                   (case validateCodexDesktopRawThreadID threadID next of
                      Some e \<Rightarrow> ((s, no_update None, [e]), False)
                    | None \<Rightarrow>
                        let (snap0, events) = buildCodexDesktopSnapshot threadID (qpEpoch ps) (qpRevision ps) next
                              now (Some (dtProjection c));
                            (snap, s1) = attachQueuedFollowUpsLocked snap0 s;
                            (s2, evs, aerr) = publish_revision actions snap events (put_thread threadID snap s1);
                            s3 = evictIdleLocked threadID s2
                        in ((s3, \<lparr>upSnapshot = Some snap, upEvents = evs, upApplied = True, upNeedsSnapshot = False\<rparr>,
                             option_list aerr), False)))))"

definition applyQueuedFollowUps ::
    "instant \<Rightarrow> uint64 \<Rightarrow> string \<Rightarrow> string list \<Rightarrow> codexDesktopStateStore \<Rightarrow> store_result" where
  "applyQueuedFollowUps now epoch tid messages s =
     (let threadID = go_trim tid; current = thread_of s threadID in
      if threadID = [] then (s, no_update None, [FollowUpsWithoutThread])
      else if (case current of Some c \<Rightarrow> epoch < dtConnectionEpoch c | None \<Rightarrow> False) \<or>
          (case map_of (dsFollowUps s) threadID of Some q \<Rightarrow> epoch < qfEpoch q | None \<Rightarrow> False)
        then (s, no_update current, [])
      else
        let s1 = s\<lparr>dsFollowUps := AList.update threadID
                     \<lparr>qfEpoch = epoch, qfMessages = messages, qfUpdatedAt = now\<rparr> (dsFollowUps s)\<rparr>;
            s2 = evictOrphanFollowUpsLocked threadID s1
        in (case current of
              None \<Rightarrow> (s2, no_update None, [])
            | Some c \<Rightarrow>
                if dtConnectionEpoch c \<noteq> epoch then (s2, no_update current, [])
                else
                  let c' = c\<lparr>dtQueuedFollowUps := messages, dtUpdatedAt := now\<rparr>
                  in (put_thread threadID c' s2, (no_update (Some c'))\<lparr>upApplied := True\<rparr>, [])))"

text \<open>A decoded change of \<open>thread-stream-state-changed\<close>, and its dispatch.\<close>

record codexDesktopStateChange =
  scType :: string
  scBaseRevision :: uint64
  scRevision :: uint64
  scConversationState :: "jobject option"
  scPatches :: "codexDesktopPatch list"

definition applyStateChange ::
    "desktop_decoders option \<Rightarrow> instant \<Rightarrow> uint64 \<Rightarrow> string \<Rightarrow> codexDesktopStateChange \<Rightarrow>
     codexDesktopStateStore \<Rightarrow> store_result \<times> bool" where
  "applyStateChange actions now epoch tid ch s =
     (if scType ch = ''snapshot''
        then (applySnapshot actions now tid epoch (scRevision ch) (scConversationState ch) s, False)
      else if scType ch = ''patches''
        then applyPatchSet actions now tid
               \<lparr>qpEpoch = epoch, qpBaseRevision = scBaseRevision ch, qpRevision = scRevision ch,
                qpPatches = scPatches ch\<rparr> s
      else ((s, no_update None, [ChangeTypeInvalid (scType ch)]), False))"

subsection \<open>Readers\<close>

definition replay_events :: "codexDesktopThreadSnapshot \<Rightarrow> codexDesktopEvent list" where
  "replay_events snap =
     (case pjTurns (dtProjection snap) (tsActiveTurnID (dtState snap)) of
        None \<Rightarrow> [] | Some t \<Rightarrow> projectCodexDesktopItems (ptID t) None t)"

definition add_action_events ::
    "codexDesktopThreadSnapshot \<Rightarrow> codexDesktopEvent list \<Rightarrow>
     codexDesktopStateStore \<times> codexDesktopEvent list \<times> desktop_state_error option \<Rightarrow>
     codexDesktopStateStore \<times> codexDesktopEvent list" where
  "add_action_events snap events r =
     (let (s, es, err) = r in
      (s, stampCodexDesktopWatermark snap (if err = None then events @ es else events)))"

text \<open>The batch is the epoch, the revision and the events.\<close>

definition replayActiveTurnBatch ::
    "desktop_decoders option \<Rightarrow> string \<Rightarrow> codexDesktopStateStore \<Rightarrow>
     codexDesktopStateStore \<times> (uint64 \<times> uint64 \<times> codexDesktopEvent list)" where
  "replayActiveTurnBatch actions threadID s =
     (case thread_of s threadID of
        None \<Rightarrow> (s, (0, 0, []))
      | Some snap \<Rightarrow>
          if \<not> tsActive (dtState snap) \<or> blank (tsActiveTurnID (dtState snap)) then (s, (0, 0, []))
          else
            let (s', evs) = add_action_events snap (replay_events snap)
                  (projectPendingActionEventsLocked actions snap s)
            in (s', (dtConnectionEpoch snap, dtRevision snap, evs)))"

definition activeWatchSnapshot ::
    "desktop_decoders option \<Rightarrow> string \<Rightarrow> codexDesktopStateStore \<Rightarrow>
     codexDesktopStateStore \<times> (codexThreadState \<times> uint64 \<times> uint64 \<times> codexDesktopEvent list) option" where
  "activeWatchSnapshot actions threadID s =
     (case thread_of s threadID of
        None \<Rightarrow> (s, None)
      | Some snap \<Rightarrow>
          if \<not> tsActive (dtState snap) \<or> blank (tsActiveTurnID (dtState snap))
            then (s, Some (dtState snap, dtConnectionEpoch snap, dtRevision snap, []))
          else
            let (s', evs) = add_action_events snap (replay_events snap)
                  (projectPendingActionEventsLocked actions snap s)
            in (s', Some (dtState snap, dtConnectionEpoch snap, dtRevision snap, evs)))"

definition targetTurnState ::
    "string \<Rightarrow> string \<Rightarrow> codexDesktopStateStore \<Rightarrow> codexThreadState option" where
  "targetTurnState threadID turnID s =
     (case thread_of s (go_trim threadID) of
        None \<Rightarrow> None
      | Some snap \<Rightarrow>
          let turnID = go_trim turnID in
          (case pjTurns (dtProjection snap) turnID of
             None \<Rightarrow> None
           | Some t \<Rightarrow>
               let state = empty_thread_state
                     \<lparr>tsThreadID := dtThreadID snap, tsLastTurnID := turnID, tsLastTurnStatus := ptStatus t,
                      tsLastTurnError := ptErrorText t, tsModel := tsModel (dtState snap),
                      tsEffort := tsEffort (dtState snap)\<rparr>;
                   state = (if isCodexDesktopActiveStatus (ptStatus t)
                            then state\<lparr>tsActive := True, tsActiveTurnID := turnID\<rparr> else state)
               in Some (projectCodexDesktopItemText state t)))"

definition awaitingFinalAnswer :: "string \<Rightarrow> string \<Rightarrow> codexDesktopStateStore \<Rightarrow> bool" where
  "awaitingFinalAnswer threadID turnID s =
     (case thread_of s (go_trim threadID) of
        None \<Rightarrow> False
      | Some snap \<Rightarrow>
          let i = firstNonEmptyTrimmed [turnID, tsLastTurnID (dtState snap)]
          in i \<noteq> [] \<and> i \<in> pjTerminalCandidates (dtProjection snap))"

text \<open>
  One round of \<open>waitForRevision\<close>: \<open>True\<close> returns, otherwise the caller waits on the thread's
  wake-up channel, which is created if need be.
\<close>

definition waitForRevision ::
    "string \<Rightarrow> uint64 \<Rightarrow> uint64 \<Rightarrow> codexDesktopStateStore \<Rightarrow> codexDesktopStateStore \<times> bool" where
  "waitForRevision threadID epoch revision s =
     (if (case thread_of s threadID of
            Some c \<Rightarrow> dtConnectionEpoch c = epoch \<and> revision \<le> dtRevision c
          | None \<Rightarrow> False)
      then (s, True)
      else (s\<lparr>dsRevisionWake := insert threadID (dsRevisionWake s)\<rparr>, False))"

end
