(* ===== verification/Desktop_Mirror.thy ===== *)
theory Desktop_Mirror
  imports Desktop_State
begin

section \<open>The cache mirrors its publisher\<close>

text \<open>
  What the cache of \<^theory_text>\<open>Desktop_State\<close> promises: whatever order the Desktop's messages arrive in,
  whichever are lost or repeated, a cached conversation is the state the Desktop had at the
  revision the cache names. The Desktop is not part of the repository; its history is an
  argument, and a message it sends is one that is true of that history.
\<close>

subsection \<open>Objects as maps\<close>

text \<open>
  Two values are the same JSON value when they differ at most in the order in which the fields
  of objects are listed.
\<close>

inductive jsim :: "jval \<Rightarrow> jval \<Rightarrow> bool" where
  jsim_same: "\<not> is_object v \<Longrightarrow> (\<forall>vs. v \<noteq> JArr vs) \<Longrightarrow> jsim v v"
| jsim_arr: "list_all2 jsim vs ws \<Longrightarrow> jsim (JArr vs) (JArr ws)"
| jsim_obj: "rel_fun (=) (rel_option jsim) (map_of fs) (map_of gs) \<Longrightarrow> jsim (JObj fs) (JObj gs)"
monos list.rel_mono option.rel_mono

lemma jsim_ObjI: "(\<And>k. rel_option jsim (map_of fs k) (map_of gs k)) \<Longrightarrow> jsim (JObj fs) (JObj gs)"
  by (auto intro: jsim_obj simp: rel_fun_def)

inductive_cases jsim_objE: "jsim (JObj fs) w"
inductive_cases jsim_arrE: "jsim (JArr vs) w"
inductive_simps jsim_obj_iff: "jsim (JObj fs) (JObj gs)"
inductive_simps jsim_arr_iff: "jsim (JArr vs) (JArr ws)"

lemma jsim_refl [simp]: "jsim v v"
proof (induction v)
  case (JArr vs)
  then show ?case by (auto intro!: jsim_arr simp: list.rel_refl_strong)
next
  case (JObj fs)
  show ?case
  proof (rule jsim_ObjI)
    fix k
    show "rel_option jsim (map_of fs k) (map_of fs k)"
      by (cases "map_of fs k") (use JObj in \<open>force dest: map_of_SomeD\<close>)+
  qed
qed (auto intro: jsim_same)

lemma jsim_trans: "jsim u v \<Longrightarrow> jsim v w \<Longrightarrow> jsim u w"
proof (induction u v arbitrary: w rule: jsim.induct)
  case (jsim_arr us vs)
  then obtain ws where "w = JArr ws" "list_all2 jsim vs ws" by (auto elim: jsim_arrE)
  moreover have "list_all2 jsim us ws"
    using jsim_arr.IH calculation(2) by (auto simp: list_all2_conv_all_nth)
  ultimately show ?case by (auto intro: jsim.jsim_arr)
next
  case (jsim_obj fs gs)
  then obtain hs where w: "w = JObj hs" and r: "\<And>k. rel_option jsim (map_of gs k) (map_of hs k)"
    by (auto elim!: jsim_objE simp: rel_fun_def)
  have "rel_option jsim (map_of fs k) (map_of hs k)" for k
    using jsim_obj.IH [unfolded rel_fun_def, rule_format, of k k] r [of k]
    by (auto simp: option_rel_Some1 rel_option_iff split: option.splits)
  then show ?case unfolding w by (rule jsim_ObjI)
qed

lemma rel_sum_Inr: "rel_sum (=) R x (Inr b) \<Longrightarrow> \<exists>a. x = Inr a \<and> R a b"
  by (cases x) auto

lemma jsim_child: "jsim v w \<Longrightarrow> rel_sum (=) jsim (codexDesktopPatchChild v a) (codexDesktopPatchChild w a)"
proof (induction v w rule: jsim.induct)
  case (jsim_same v)
  then show ?case by (cases v) auto
next
  case (jsim_arr vs ws)
  have l: "length vs = length ws" using jsim_arr.IH by (rule list_all2_lengthD)
  show ?case
  proof (cases "codexDesktopPatchIndex a (length ws) False")
    case (Inr i)
    have "jsim (vs ! i) (ws ! i)"
      using list_all2_nthD2 [OF jsim_arr.IH patch_index_less [OF Inr]] by simp
    then show ?thesis by (simp add: l Inr)
  qed (simp add: l)
next
  case (jsim_obj fs gs)
  have r: "rel_option jsim (map_of fs k) (map_of gs k)" for k
    by (rule option.rel_mono_strong [OF rel_funD [OF jsim_obj.IH refl]]) simp
  show ?case
  proof (cases "codexDesktopKey a")
    case (Some k)
    then show ?thesis using r [of k] by (cases "map_of fs k"; cases "map_of gs k") auto
  qed simp
qed

lemma jsim_update:
  "jsim (JObj fs) (JObj gs) \<Longrightarrow> jsim c d \<Longrightarrow> jsim (JObj (AList.update k c fs)) (JObj (AList.update k d gs))"
  by (auto simp: jsim_obj_iff rel_fun_def update_conv')

lemma jsim_delete: "jsim (JObj fs) (JObj gs) \<Longrightarrow> jsim (JObj (AList.delete k fs)) (JObj (AList.delete k gs))"
  by (auto simp: jsim_obj_iff rel_fun_def delete_conv')

lemma jsim_dom: "jsim (JObj fs) (JObj gs) \<Longrightarrow> map_of fs k = None \<longleftrightarrow> map_of gs k = None"
  by (auto simp: jsim_obj_iff rel_fun_def) (metis option.rel_sel)+

lemma jsim_length: "jsim (JArr vs) (JArr ws) \<Longrightarrow> length vs = length ws"
  by (auto simp: jsim_arr_iff list_all2_lengthD)

lemma jsim_arr_edit:
  assumes "jsim (JArr vs) (JArr ws)" and "jsim c d"
  shows "jsim (JArr (vs[i := c])) (JArr (ws[i := d]))"
    and "jsim (JArr (insert_nth i c vs)) (JArr (insert_nth i d ws))"
    and "jsim (JArr (remove_nth i vs)) (JArr (remove_nth i ws))"
  using assms
  by (auto simp: jsim_arr_iff insert_nth_def remove_nth_def list_all2_update_cong
      intro!: list_all2_appendI list_all2_takeI list_all2_dropI)

lemma jsim_replace:
  assumes "jsim v w" and "jsim c d"
  shows "rel_sum (=) jsim (replaceCodexDesktopPatchChild v a c) (replaceCodexDesktopPatchChild w a d)"
  using assms(1)
proof cases
  case jsim_same
  then show ?thesis by (cases v) auto
next
  case (jsim_arr vs ws)
  then show ?thesis
    using jsim_length [of vs ws] jsim_arr_edit(1) [OF _ assms(2), of vs ws] assms(1) by (auto split: sum.splits)
next
  case (jsim_obj fs gs)
  then show ?thesis using jsim_update [OF _ assms(2), of fs gs] assms(1) by (auto split: option.splits)
qed

lemma jsim_leaf:
  assumes "jsim v w"
  shows "rel_sum (=) jsim (applyCodexDesktopPatchLeaf v a p) (applyCodexDesktopPatchLeaf w a p)"
  using assms
proof cases
  case jsim_same
  then show ?thesis by (cases v) auto
next
  case (jsim_arr vs ws)
  then show ?thesis
    using jsim_length [of vs ws] jsim_arr_edit [OF _ jsim_refl, of vs ws] assms
    by (auto simp: applyCodexDesktopArrayPatch_def Let_def split: sum.split)
next
  case (jsim_obj fs gs)
  then show ?thesis
    using jsim_update [OF _ jsim_refl, of fs gs] jsim_delete [of fs gs] jsim_dom [of fs gs] assms
    by (auto simp: applyCodexDesktopObjectPatch_def Let_def split: option.split)
qed

lemma jsim_at:
  assumes "jsim v w"
  shows "rel_sum (=) jsim (applyCodexDesktopPatchAt v path p) (applyCodexDesktopPatchAt w path p)"
  using assms
proof (induction path arbitrary: v w rule: induct_list012)
  case (2 a)
  then show ?case by (simp add: jsim_leaf)
next
  case (3 a b ps)
  have c: "rel_sum (=) jsim (codexDesktopPatchChild v a) (codexDesktopPatchChild w a)"
    using "3.prems" by (rule jsim_child)
  show ?case
  proof (cases "codexDesktopPatchChild w a")
    case (Inl e)
    then show ?thesis using c by (cases "codexDesktopPatchChild v a") auto
  next
    case (Inr y)
    then obtain x where x: "codexDesktopPatchChild v a = Inr x" "jsim x y" using c rel_sum_Inr by metis
    have r: "rel_sum (=) jsim (applyCodexDesktopPatchAt x (b # ps) p) (applyCodexDesktopPatchAt y (b # ps) p)"
      by (rule "3.IH"(2) [OF x(2)])
    show ?thesis
      using Inr x r jsim_replace [OF "3.prems"]
      by (cases "applyCodexDesktopPatchAt x (b # ps) p"; cases "applyCodexDesktopPatchAt y (b # ps) p") auto
  qed
qed simp

lemma jsim_patches_from:
  assumes "jsim v w"
  shows "rel_sum (=) jsim (applyPatchesFrom i v ps) (applyPatchesFrom i w ps)"
  using assms
proof (induction ps arbitrary: i v w)
  case (Cons p ps)
  have "rel_sum (=) jsim (applyCodexDesktopPatch v p) (applyCodexDesktopPatch w p)"
    using jsim_at [OF Cons.prems] by (auto simp: applyCodexDesktopPatch_def)
  then show ?case using Cons.IH
    by (cases "applyCodexDesktopPatch v p"; cases "applyCodexDesktopPatch w p") auto
qed simp

lemma jsim_patches:
  assumes "jsim (JObj fs) (JObj gs)" and "applyCodexDesktopPatches gs ps = Inr gs'"
  shows "\<exists>fs'. applyCodexDesktopPatches fs ps = Inr fs' \<and> jsim (JObj fs') (JObj gs')"
proof -
  obtain r where r: "applyPatchesFrom 0 (JObj fs) ps = Inr r" "jsim r (JObj gs')"
    using jsim_patches_from [OF assms(1), of 0 ps] assms(2) rel_sum_Inr unfolding apply_patches_iff by metis
  moreover obtain fs' where "r = JObj fs'"
    using object_patches_from [OF r(1)] by (metis is_object.simps(1) is_object_iff)
  ultimately show ?thesis by (auto simp: apply_patches_iff)
qed

subsection \<open>What every operation does to the cached threads\<close>

definition newer :: "codexDesktopThreadSnapshot \<Rightarrow> codexDesktopThreadSnapshot \<Rightarrow> bool" where
  "newer c d \<longleftrightarrow>
     dtConnectionEpoch c < dtConnectionEpoch d \<or>
     dtConnectionEpoch c = dtConnectionEpoch d \<and> dtRevision c \<le> dtRevision d"

text \<open>Turn \<open>j\<close> of a thread cannot be reported as ended any more on connection \<open>e\<close>.\<close>

definition settled :: "codexDesktopStateStore \<Rightarrow> string \<Rightarrow> uint64 \<Rightarrow> string \<Rightarrow> bool" where
  "settled s i e j \<longleftrightarrow>
     (\<exists>c. thread_of s i = Some c \<and>
        (e < dtConnectionEpoch c \<or> dtConnectionEpoch c = e \<and> j \<in> pjTerminal (dtProjection c)))"

definition ends_at :: "uint64 \<Rightarrow> string \<Rightarrow> codexDesktopEvent list \<Rightarrow> codexDesktopEvent list" where
  "ends_at e j evs = filter (\<lambda>v. deEpoch v = e) (ends j evs)"

definition op_effect ::
    "codexDesktopStateStore \<Rightarrow> string \<Rightarrow> codexDesktopStateStore \<Rightarrow> codexDesktopEvent list \<Rightarrow> bool" where
  "op_effect s i s' evs \<longleftrightarrow>
     (\<forall>k c. k \<noteq> i \<longrightarrow> thread_of s' k = Some c \<longrightarrow> thread_of s k = Some c) \<and>
     (\<forall>c. thread_of s i = Some c \<longrightarrow> (\<exists>d. thread_of s' i = Some d \<and> newer c d)) \<and>
     (\<forall>e j. length (ends_at e j evs) + of_bool (settled s i e j) \<le> of_bool (settled s' i e j))"

lemma newer_refl [simp]: "newer c c"
  by (simp add: newer_def)

lemma newer_trans: "newer a b \<Longrightarrow> newer b c \<Longrightarrow> newer a c"
  by (auto simp: newer_def)

lemma settled_cong: "thread_of s' i = thread_of s i \<Longrightarrow> settled s' i = settled s i"
  by (simp add: settled_def fun_eq_iff)

lemma op_effect_threads:
  "(\<And>k. thread_of s' k = thread_of s k) \<Longrightarrow> (\<And>j. ends j evs = []) \<Longrightarrow> op_effect s i s' evs"
  by (simp add: op_effect_def ends_at_def settled_def)

lemma op_effect_refl [simp]: "op_effect s i s []"
  by (rule op_effect_threads) simp_all

subsection \<open>Lemmas on the parts of the operations\<close>

lemma thread_of_put [simp]: "thread_of (put_thread i c s) k = (if k = i then Some c else thread_of s k)"
  by (simp add: thread_of_def put_thread_def update_conv')

lemma queue_of_put [simp]: "queue_of (put_thread i c s) = queue_of s"
  by (simp add: queue_of_def put_thread_def fun_eq_iff)

lemma thread_of_forget [simp]: "thread_of (forget_thread i s) k = (if k = i then None else thread_of s k)"
  by (simp add: thread_of_def forget_thread_def delete_conv')

lemma queue_of_forget [simp]: "queue_of (forget_thread i s) k = (if k = i then [] else queue_of s k)"
  by (simp add: queue_of_def forget_thread_def)

lemma evict_threads:
  "thread_of (evictIdleLocked c s) c = thread_of s c \<and>
   (thread_of (evictIdleLocked c s) k = Some x \<longrightarrow> thread_of s k = Some x) \<and>
   (queue_of (evictIdleLocked c s) k = queue_of s k \<or> queue_of (evictIdleLocked c s) k = [])"
proof (induction c s rule: evictIdleLocked.induct)
  case (1 c s)
  show ?case
  proof (cases "length (dsThreads s) \<le> codexDesktopMaxThreads")
    case True
    then show ?thesis by (simp add: evictIdleLocked.simps)
  next
    case False
    show ?thesis
    proof (cases "oldest (\<lambda>p. dtUpdatedAt (snd p)) (filter (evictable c) (dsThreads s))")
      case None
      then show ?thesis by (simp add: evictIdleLocked.simps [of c s])
    next
      case (Some p)
      then have "fst p \<noteq> c" using oldest_mem by (fastforce simp: evictable_def)
      then show ?thesis using "1.IH" [OF False Some] False Some
        by (auto simp: evictIdleLocked.simps [of c s] split: if_splits)
    qed
  qed
qed

lemma evict_self [simp]: "thread_of (evictIdleLocked c s) c = thread_of s c"
  using evict_threads by blast

lemma evict_old: "thread_of (evictIdleLocked c s) k = Some x \<Longrightarrow> thread_of s k = Some x"
  using evict_threads by blast

lemma evict_queue: "queue_of (evictIdleLocked c s) k = queue_of s k \<or> queue_of (evictIdleLocked c s) k = []"
  using evict_threads by blast

lemma attach_threads:
  "attachQueuedFollowUpsLocked snap s = (snap', s') \<Longrightarrow>
     thread_of s' = thread_of s \<and> queue_of s' = queue_of s \<and> dtThreadID snap' = dtThreadID snap \<and>
     dtConnectionEpoch snap' = dtConnectionEpoch snap \<and> dtRevision snap' = dtRevision snap \<and>
     dtRaw snap' = dtRaw snap \<and> dtProjection snap' = dtProjection snap \<and> dsThreads s' = dsThreads s"
  by (auto simp: attachQueuedFollowUpsLocked_def thread_of_def queue_of_def fun_eq_iff split: option.splits if_splits)

text \<open>The events end no turn of \<open>A\<close>, end each turn at most once, and the turns they end are in \<open>B\<close>.\<close>

definition ends_within :: "string set \<Rightarrow> codexDesktopEvent list \<Rightarrow> string set \<Rightarrow> bool" where
  "ends_within A evs B \<longleftrightarrow> (\<forall>j. length (ends j evs) + of_bool (j \<in> A) \<le> of_bool (j \<in> B))"

lemma ends_withinD: "ends_within A evs B \<Longrightarrow> length (ends j evs) + of_bool (j \<in> A) \<le> of_bool (j \<in> B)"
  by (simp add: ends_within_def)

lemma ends_within_append: "ends_within A es B \<Longrightarrow> ends_within B fs C \<Longrightarrow> ends_within A (es @ fs) C"
  unfolding ends_within_def ends_append length_append
proof
  fix j
  assume "\<forall>j. length (ends j es) + of_bool (j \<in> A) \<le> of_bool (j \<in> B)"
    and "\<forall>j. length (ends j fs) + of_bool (j \<in> B) \<le> of_bool (j \<in> C)"
  from this(1) [THEN spec, of j] this(2) [THEN spec, of j]
  show "length (ends j es) + length (ends j fs) + of_bool (j \<in> A) \<le> of_bool (j \<in> C)"
    by linarith
qed

lemma ends_within_quiet: "(\<And>j. ends j fs = []) \<Longrightarrow> ends_within A (es @ fs) B = ends_within A es B"
  by (simp add: ends_within_def)

lemma ends_within_Nil [simp]: "ends_within A [] A"
  by (simp add: ends_within_def)

lemma snapshot_ends_within:
  "projectCodexDesktopSnapshot i raw previous = (state, requests, pj, evs) \<Longrightarrow>
     ends_within (copyCodexDesktopTerminals previous) evs (pjTerminal pj)"
  unfolding ends_within_def by (blast intro: snapshot_ends)

lemma build_snapshot_fields:
  assumes "buildCodexDesktopSnapshot i e r raw now previous = (snap, evs)"
  shows "dtThreadID snap = i" "dtConnectionEpoch snap = e" "dtRevision snap = r" "dtRaw snap = raw"
    and "ends_within (copyCodexDesktopTerminals previous) evs (pjTerminal (dtProjection snap))"
  using assms snapshot_ends_within [of i raw previous]
  by (auto simp: buildCodexDesktopSnapshot_def split: prod.splits)

lemma project_actions_ends: "project_actions dec snap is seen = (seen', es, err) \<Longrightarrow> ends j es = []"
proof (induction "is" arbitrary: seen seen' es err)
  case (Cons i "is")
  then show ?case
    by (fastforce simp: projectPendingAction_def ends_def plain_event_def Let_def split: if_splits option.splits prod.splits)
qed simp

lemma project_actions_error:
  "project_actions dec snap is seen = (seen', es, Some err) \<Longrightarrow> \<exists>i. err = ActionUndecodable i"
  by (induction "is" arbitrary: seen seen' es) (auto simp: Let_def split: if_splits option.splits prod.splits)

lemma actions_effect:
  assumes "projectPendingActionEventsLocked actions snap s = (s', es, err)"
  shows "thread_of s' = thread_of s" "queue_of s' = queue_of s" "dsThreads s' = dsThreads s" "ends j es = []"
  using assms project_actions_ends
  by (auto simp: projectPendingActionEventsLocked_def thread_of_def queue_of_def fun_eq_iff Let_def
      split: option.splits if_splits prod.splits)

lemma ends_stamp: "length (ends_at e j (stampCodexDesktopWatermark snap evs)) =
    (if dtConnectionEpoch snap = e then length (ends j evs) else 0)"
  by (auto simp: ends_at_def ends_def stampCodexDesktopWatermark_def filter_map comp_def filter_False)

text \<open>Storing a newer revision whose events end its turns properly is a proper effect.\<close>

lemma op_effect_store:
  assumes "thread_of s' i = Some d" and "\<And>k c. k \<noteq> i \<Longrightarrow> thread_of s' k = Some c \<Longrightarrow> thread_of s k = Some c"
    and "\<And>c. thread_of s i = Some c \<Longrightarrow> newer c d"
    and "ends_within A evs (pjTerminal (dtProjection d))"
    and "\<And>c. thread_of s i = Some c \<Longrightarrow> dtConnectionEpoch c = dtConnectionEpoch d \<Longrightarrow> pjTerminal (dtProjection c) \<subseteq> A"
    and "stamped = stampCodexDesktopWatermark d evs"
  shows "op_effect s i s' stamped"
proof -
  have "length (ends_at e j stamped) + of_bool (settled s i e j) \<le> of_bool (settled s' i e j)" for e j
  proof (cases "settled s i e j")
    case True
    then obtain c where c: "thread_of s i = Some c"
      "e < dtConnectionEpoch c \<or> dtConnectionEpoch c = e \<and> j \<in> pjTerminal (dtProjection c)"
      by (auto simp: settled_def)
    show ?thesis
    proof (cases "dtConnectionEpoch d = e")
      case True
      then have "j \<in> A" using c assms(3,5) [OF c(1)] by (auto simp: newer_def)
      then show ?thesis using ends_withinD [OF assms(4), of j] True assms(1)
        by (auto simp: assms(6) ends_stamp settled_def split: if_splits)
    next
      case False
      then have "e < dtConnectionEpoch d" using c assms(3) [OF c(1)] by (auto simp: newer_def)
      then show ?thesis using assms(1) by (auto simp: assms(6) ends_stamp settled_def)
    qed
  next
    case False
    then show ?thesis using ends_withinD [OF assms(4), of j] assms(1)
      by (auto simp: assms(6) ends_stamp settled_def split: if_splits)
  qed
  then show ?thesis using assms(1-3) by (auto simp: op_effect_def)
qed

subsection \<open>True messages\<close>

text \<open>
  \<open>H i e r\<close> is the state of thread \<open>i\<close> at revision \<open>r\<close> as the Desktop published it on connection
  \<open>e\<close>. A snapshot is true of it when it is that state; a set of patches when it leads from the
  state at its base revision to the one at its revision.
\<close>

type_synonym desktop_history = "string \<Rightarrow> uint64 \<Rightarrow> uint64 \<Rightarrow> jobject"

definition published :: "desktop_history \<Rightarrow> string \<Rightarrow> codexDesktopQueuedPatchSet \<Rightarrow> bool" where
  "published H i q \<longleftrightarrow>
     (\<exists>r. applyCodexDesktopPatches (H i (qpEpoch q) (qpBaseRevision q)) (qpPatches q) = Inr r \<and>
        jsim (JObj r) (JObj (H i (qpEpoch q) (qpRevision q))))"

definition mirrors :: "desktop_history \<Rightarrow> string \<Rightarrow> codexDesktopThreadSnapshot \<Rightarrow> bool" where
  "mirrors H i c \<longleftrightarrow>
     dtThreadID c = i \<and> jsim (JObj (dtRaw c)) (JObj (H i (dtConnectionEpoch c) (dtRevision c)))"

definition queue_ok :: "desktop_history \<Rightarrow> string \<Rightarrow> codexDesktopQueuedPatchSet list \<Rightarrow> bool" where
  "queue_ok H i qs \<longleftrightarrow>
     (\<forall>q \<in> set qs. published H i q) \<and> length qs \<le> codexDesktopMaxQueuedPatches \<and>
     countCodexDesktopQueuedPatches qs \<le> codexDesktopMaxQueuedPatches"

definition mirror_inv :: "desktop_history \<Rightarrow> codexDesktopStateStore \<Rightarrow> bool" where
  "mirror_inv H s \<longleftrightarrow>
     (\<forall>i c. thread_of s i = Some c \<longrightarrow> mirrors H i c) \<and> (\<forall>i. queue_ok H i (queue_of s i))"

lemma mirror_partsD:
  "mirror_inv H s \<Longrightarrow> thread_of s i = Some c \<Longrightarrow> mirrors H i c"
  "mirror_inv H s \<Longrightarrow> queue_ok H i (queue_of s i)"
  by (auto simp: mirror_inv_def)

lemma mirror_inv_cong:
  "thread_of s' = thread_of s \<Longrightarrow> queue_of s' = queue_of s \<Longrightarrow> mirror_inv H s' = mirror_inv H s"
  by (simp add: mirror_inv_def)

lemma queue_ok_Nil [simp]: "queue_ok H i []"
  by (simp add: queue_ok_def countCodexDesktopQueuedPatches_def)

lemma queue_ok_drop: "queue_ok H i (qs @ q # rs) \<Longrightarrow> queue_ok H i (qs @ rs)"
  by (auto simp: queue_ok_def countCodexDesktopQueuedPatches_def)

lemma queue_ok_prefix: "queue_ok H i (qs @ rs) \<Longrightarrow> queue_ok H i qs"
  by (auto simp: queue_ok_def countCodexDesktopQueuedPatches_def)

lemma mirror_patches:
  assumes "mirrors H i c" and "published H i q" and "qpEpoch q = dtConnectionEpoch c" and "qpBaseRevision q = dtRevision c"
  shows "\<exists>raw. applyCodexDesktopPatches (dtRaw c) (qpPatches q) = Inr raw \<and>
    jsim (JObj raw) (JObj (H i (qpEpoch q) (qpRevision q)))"
proof -
  obtain r where r: "applyCodexDesktopPatches (H i (qpEpoch q) (qpBaseRevision q)) (qpPatches q) = Inr r"
    "jsim (JObj r) (JObj (H i (qpEpoch q) (qpRevision q)))"
    using assms(2) by (auto simp: published_def)
  moreover have "jsim (JObj (dtRaw c)) (JObj (H i (qpEpoch q) (qpBaseRevision q)))"
    using assms(1,3,4) by (simp add: mirrors_def)
  ultimately show ?thesis using jsim_patches jsim_trans by metis
qed

definition replay_result ::
    "desktop_history \<Rightarrow> string \<Rightarrow> codexDesktopThreadSnapshot \<Rightarrow> codexDesktopStateStore \<Rightarrow>
     codexDesktopStateStore \<Rightarrow> codexDesktopEvent list \<Rightarrow> codexDesktopThreadSnapshot \<Rightarrow> bool" where
  "replay_result H i cur s s' new d \<longleftrightarrow>
     thread_of s' i = Some d \<and> mirrors H i d \<and> newer cur d \<and> dtConnectionEpoch d = dtConnectionEpoch cur \<and>
     ends_within (pjTerminal (dtProjection cur)) new (pjTerminal (dtProjection d)) \<and>
     (\<forall>k c. k \<noteq> i \<longrightarrow> thread_of s' k = Some c \<longrightarrow> thread_of s k = Some c) \<and>
     (\<forall>k. k \<noteq> i \<longrightarrow> queue_of s' k = queue_of s k \<or> queue_of s' k = []) \<and> queue_ok H i (queue_of s' i)"

lemma replay_queue_spec:
  assumes "replay_queue i now cur rem evs0 qs s = (s', evs, err)" and "thread_of s i = Some cur"
    and "mirrors H i cur" and "queue_ok H i (rem @ qs)"
  shows "\<exists>new d. evs = evs0 @ new \<and> replay_result H i cur s s' new d \<and> (\<forall>e. err \<noteq> Some (PatchFailed e))"
  using assms
proof (induction qs arbitrary: cur rem evs0 s)
  case Nil
  let ?s = "storeRemainingPatches i rem s"
  have t: "thread_of ?s = thread_of s" "queue_of ?s = (\<lambda>k. if k = i then rem else queue_of s k)"
    by (auto simp: storeRemainingPatches_def thread_of_def queue_of_def fun_eq_iff)
  have q: "queue_ok H i (queue_of (evictIdleLocked i ?s) i)"
    using evict_queue [of i ?s i] Nil.prems(4) by (auto simp: t)
  have "replay_result H i cur s s' [] cur"
    using Nil q evict_queue [of i ?s] unfolding replay_result_def
    by (auto simp: t dest: evict_old) (metis t(2))
  then show ?case using Nil.prems(1) by auto
next
  case (Cons q qs)
  show ?case
  proof (cases "qpEpoch q \<noteq> dtConnectionEpoch cur \<or> qpRevision q \<le> dtRevision cur")
    case True
    then show ?thesis
      using Cons.prems by (intro Cons.IH) (auto dest: queue_ok_drop)
  next
    case fits: False
    show ?thesis
    proof (cases "qpBaseRevision q = dtRevision cur")
      case False
      then show ?thesis using Cons.prems fits by (intro Cons.IH [of cur "rem @ [q]"]) auto
    next
      case True
      obtain raw where raw: "applyCodexDesktopPatches (dtRaw cur) (qpPatches q) = Inr raw"
        "jsim (JObj raw) (JObj (H i (qpEpoch q) (qpRevision q)))"
        using mirror_patches [of H i cur q] Cons.prems fits True by (auto simp: queue_ok_def)
      show ?thesis
      proof (cases "validateCodexDesktopRawThreadID i raw")
        case (Some e)
        have "queue_ok H i (rem @ [q])" using Cons.prems(4) queue_ok_prefix [of H i "rem @ [q]" qs] by simp
        then have "replay_result H i cur s (s\<lparr>dsQueued := (dsQueued s)(i \<mapsto> rem @ [q])\<rparr>) [] cur"
          using Cons.prems by (auto simp: replay_result_def thread_of_def queue_of_def)
        then show ?thesis
          using Cons.prems(1) fits True raw Some
          by (auto simp: validateCodexDesktopRawThreadID_def Let_def split: if_splits)
      next
        case None
        obtain snap projected where b: "buildCodexDesktopSnapshot i (qpEpoch q) (qpRevision q) raw now
            (Some (dtProjection cur)) = (snap, projected)" by (metis prod.collapse)
        obtain snap' s1 where a: "attachQueuedFollowUpsLocked snap s = (snap', s1)" by (metis prod.collapse)
        note bf = build_snapshot_fields [OF b] and af = attach_threads [OF a]
        have r: "replay_queue i now snap' rem (evs0 @ projected) qs (put_thread i snap' s1) = (s', evs, err)"
          using Cons.prems(1) fits True raw None b a by simp
        have m: "mirrors H i snap'" using bf af raw by (simp add: mirrors_def)
        have "\<exists>new d. evs = (evs0 @ projected) @ new \<and> replay_result H i snap' (put_thread i snap' s1) s' new d \<and>
            (\<forall>e. err \<noteq> Some (PatchFailed e))"
          by (rule Cons.IH [OF r _ m]) (use Cons.prems(4) in \<open>auto dest: queue_ok_drop\<close>)
        then obtain new d where d: "evs = (evs0 @ projected) @ new" "replay_result H i snap' (put_thread i snap' s1) s' new d"
          "\<forall>e. err \<noteq> Some (PatchFailed e)" by blast
        have n: "newer cur snap'" "dtConnectionEpoch snap' = dtConnectionEpoch cur"
          using fits bf af by (auto simp: newer_def)
        have e: "ends_within (pjTerminal (dtProjection cur)) projected (pjTerminal (dtProjection snap'))"
          using bf(5) af by (simp add: copyCodexDesktopTerminals_def)
        have "replay_result H i cur s s' (projected @ new) d"
          using d(2) n newer_trans [OF n(1)] ends_within_append [OF e] af
          unfolding replay_result_def by auto
        then show ?thesis using d by auto
      qed
    qed
  qed
qed

subsection \<open>The operations keep the mirror\<close>

lemma signal_threads [simp]:
  "thread_of (signalRevisionLocked i s) = thread_of s" "queue_of (signalRevisionLocked i s) = queue_of s"
  by (simp_all add: signalRevisionLocked_def thread_of_def queue_of_def fun_eq_iff)

lemma publish_revision_cases:
  assumes "publish_revision actions snap events s = (s', evs, err)"
  shows "thread_of s' = thread_of s" "queue_of s' = queue_of s"
    and "\<exists>es. (\<forall>j. ends j es = []) \<and> evs = stampCodexDesktopWatermark snap (events @ es)"
    and "err \<noteq> Some (PatchFailed x)"
proof -
  let ?s1 = "signalRevisionLocked (dtThreadID snap) s"
  obtain t es er where p: "projectPendingActionEventsLocked actions snap ?s1 = (t, es, er)"
    by (metis prod.collapse)
  have e: "t = s'" "evs = stampCodexDesktopWatermark snap (events @ es)" "er = err"
    using assms p by (auto simp: publish_revision_def Let_def)
  show "thread_of s' = thread_of s" "queue_of s' = queue_of s"
    using actions_effect(1,2) [OF p] e by simp_all
  show "\<exists>es. (\<forall>j. ends j es = []) \<and> evs = stampCodexDesktopWatermark snap (events @ es)"
    using actions_effect(4) [OF p] e(2) by blast
  show "err \<noteq> Some (PatchFailed x)"
    using p e(3) project_actions_error
    by (fastforce simp: projectPendingActionEventsLocked_def Let_def split: option.splits if_splits prod.splits)
qed

lemma pointer_terminals:
  "thread_of s i = Some c \<Longrightarrow> dtConnectionEpoch c = e \<Longrightarrow>
     pjTerminal (dtProjection c) \<subseteq> copyCodexDesktopTerminals (codexDesktopProjectionPointer (thread_of s i) e)"
  by (simp add: codexDesktopProjectionPointer_def copyCodexDesktopTerminals_def)

lemma thread_of_needs [simp]:
  "thread_of (s\<lparr>dsNeedsSnapshot := x\<rparr>) = thread_of s" "queue_of (s\<lparr>dsNeedsSnapshot := x\<rparr>) = queue_of s"
  by (simp_all add: thread_of_def queue_of_def fun_eq_iff)

text \<open>The path of an accepted snapshot, up to the events.\<close>

lemma store_snapshot:
  assumes "mirror_inv H s" and "jsim (JObj raw) (JObj (H i e r))"
    and "\<And>c. thread_of s i = Some c \<Longrightarrow> newer c snap0"
    and b: "buildCodexDesktopSnapshot i e r raw now (codexDesktopProjectionPointer (thread_of s i) e) = (snap0, events)"
    and a: "attachQueuedFollowUpsLocked snap0 s = (snap1, s1)"
    and r: "replayQueuedLocked i now snap1 (put_thread i snap1 s1) = (s2, replayed, rerr)"
  shows "\<exists>d. thread_of s2 i = Some d \<and> mirror_inv H s2 \<and> (\<forall>x. rerr \<noteq> Some (PatchFailed x)) \<and>
    (\<forall>es s3. (\<forall>j. ends j es = []) \<longrightarrow> thread_of s3 = thread_of s2 \<longrightarrow>
      op_effect s i s3 (stampCodexDesktopWatermark d ((events @ replayed) @ es)))"
proof -
  note bf = build_snapshot_fields [OF b] and af = attach_threads [OF a]
  have m: "mirrors H i snap1" using bf af assms(2) by (simp add: mirrors_def)
  have q: "queue_ok H i (queue_of (put_thread i snap1 s1) i)"
    using mirror_partsD(2) [OF assms(1)] af by simp
  obtain new d where "replayed = [] @ new" and d: "replay_result H i snap1 (put_thread i snap1 s1) s2 new d"
    and re: "\<forall>x. rerr \<noteq> Some (PatchFailed x)"
    using replay_queue_spec [OF r [unfolded replayQueuedLocked_def], of H] m q by auto
  then have new: "replayed = new" by simp
  have inv: "mirror_inv H s2"
    unfolding mirror_inv_def
  proof (intro conjI allI impI)
    fix k c
    assume "thread_of s2 k = Some c"
    then show "mirrors H k c"
      using d af mirror_partsD(1) [OF assms(1)] by (cases "k = i") (auto simp: replay_result_def)
  next
    fix k
    have "k \<noteq> i \<Longrightarrow> queue_of s2 k = queue_of s k \<or> queue_of s2 k = []"
      using d af by (auto simp: replay_result_def)
    then show "queue_ok H k (queue_of s2 k)"
      using d mirror_partsD(2) [OF assms(1)] by (cases "k = i") (auto simp: replay_result_def)
  qed
  have "op_effect s i s3 (stampCodexDesktopWatermark d ((events @ replayed) @ es))"
    if es: "\<forall>j. ends j es = []" and t: "thread_of s3 = thread_of s2" for es s3
  proof (rule op_effect_store [OF _ _ _ _ _ refl])
    show "thread_of s3 i = Some d" using d t by (simp add: replay_result_def)
    show "thread_of s k = Some c" if "k \<noteq> i" "thread_of s3 k = Some c" for k c
      using that d af t by (auto simp: replay_result_def)
    show "newer c d" if "thread_of s i = Some c" for c
    proof -
      have "newer c snap1" using assms(3) [OF that] af by (simp add: newer_def)
      then show ?thesis using d newer_trans by (auto simp: replay_result_def)
    qed
    show "ends_within (copyCodexDesktopTerminals (codexDesktopProjectionPointer (thread_of s i) e))
        ((events @ replayed) @ es) (pjTerminal (dtProjection d))"
      using bf(5) af d ends_within_append es
      by (auto simp: replay_result_def new ends_within_quiet)
    show "pjTerminal (dtProjection c) \<subseteq> copyCodexDesktopTerminals (codexDesktopProjectionPointer (thread_of s i) e)"
      if "thread_of s i = Some c" "dtConnectionEpoch c = dtConnectionEpoch d" for c
      using that pointer_terminals [OF that(1)] bf af d by (auto simp: replay_result_def)
  qed
  then show ?thesis using d inv re by (auto simp: replay_result_def)
qed

lemma apply_snapshot_spec:
  assumes "mirror_inv H s"
    and "\<And>raw. rawOpt = Some raw \<Longrightarrow> jsim (JObj raw) (JObj (H (go_trim tid) e r))"
    and "applySnapshot actions now tid e r rawOpt s = (s', up, errs)"
  shows "mirror_inv H s' \<and> op_effect s (go_trim tid) s' (upEvents up) \<and> (\<forall>x. PatchFailed x \<notin> set errs)"
proof -
  let ?i = "go_trim tid"
  let ?stale = "case thread_of s ?i of Some c \<Rightarrow> e < dtConnectionEpoch c \<or>
      dtConnectionEpoch c = e \<and> r \<le> dtRevision c | None \<Rightarrow> False"
  show ?thesis
  proof (cases "\<exists>raw. rawOpt = Some raw \<and> ?i \<noteq> [] \<and> validateCodexDesktopRawThreadID ?i raw = None \<and> \<not> ?stale")
    case False
    then have "s' = s" "upEvents up = []" "\<forall>x. PatchFailed x \<notin> set errs"
      using assms(3)
      by (auto simp: applySnapshot_def no_update_def validateCodexDesktopRawThreadID_def Let_def
          split: option.splits if_splits)
    then show ?thesis using assms(1) by simp
  next
    case True
    then obtain raw where raw: "rawOpt = Some raw" "?i \<noteq> []" "validateCodexDesktopRawThreadID ?i raw = None" "\<not> ?stale"
      by blast
    obtain snap0 events where b: "buildCodexDesktopSnapshot ?i e r raw now
        (codexDesktopProjectionPointer (thread_of s ?i) e) = (snap0, events)" by (metis prod.collapse)
    obtain snap1 s1 where a: "attachQueuedFollowUpsLocked snap0 s = (snap1, s1)" by (metis prod.collapse)
    obtain s2 rep rerr where q: "replayQueuedLocked ?i now snap1 (put_thread ?i snap1 s1) = (s2, rep, rerr)"
      by (metis prod.collapse)
    have n: "newer c snap0" if "thread_of s ?i = Some c" for c
      using raw(4) that build_snapshot_fields [OF b] by (auto simp: newer_def)
    obtain d where d: "thread_of s2 ?i = Some d" "mirror_inv H s2" "\<forall>x. rerr \<noteq> Some (PatchFailed x)"
      and eff: "\<And>es s3. (\<forall>j. ends j es = []) \<Longrightarrow> thread_of s3 = thread_of s2 \<Longrightarrow>
        op_effect s ?i s3 (stampCodexDesktopWatermark d ((events @ rep) @ es))"
      using store_snapshot [OF assms(1) assms(2) [OF raw(1)] n b a q] by auto
    obtain s3 evs aerr where p: "publish_revision actions d (events @ rep) s2 = (s3, evs, aerr)"
      by (metis prod.collapse)
    note pf = publish_revision_cases [OF p]
    obtain es where es: "\<forall>j. ends j es = []" "evs = stampCodexDesktopWatermark d ((events @ rep) @ es)"
      using pf(3) by auto
    have aerr: "\<forall>x. aerr \<noteq> Some (PatchFailed x)" using pf(4) by blast
    have s': "thread_of s' = thread_of s2" "queue_of s' = queue_of s2" "upEvents up = evs"
      "errs = option_list rerr @ option_list aerr"
      using assms(3) raw b a q d(1) p pf by (auto simp: applySnapshot_def Let_def)
    show ?thesis
      using s' d eff [OF es(1)] es aerr mirror_inv_cong [of s' s2 H]
      by (auto simp: option_list_def split: option.splits)
  qed
qed

lemma queue_patch_set_spec:
  assumes "mirror_inv H s" and "published H i ps" and "queuePatchSetLocked i ps s = (s', up, ask)"
  shows "mirror_inv H s' \<and> thread_of s' = thread_of s \<and> upEvents up = []"
proof -
  have "thread_of s' = thread_of s" "upEvents up = []"
    using assms(3) by (auto simp: queuePatchSetLocked_def thread_of_def fun_eq_iff Let_def split: if_splits)
  moreover have "queue_of s' k = queue_of s k \<or> k = i \<and> queue_of s' k = queue_of s i @ [ps] \<and>
      queue_ok H i (queue_of s i @ [ps])" for k
    using assms(3) mirror_partsD(2) [OF assms(1), of i] assms(2)
    by (auto simp: queuePatchSetLocked_def queue_of_def queue_ok_def countCodexDesktopQueuedPatches_def Let_def
        split: if_splits)
  then have "queue_ok H k (queue_of s' k)" for k
    using mirror_partsD(2) [OF assms(1)] by metis
  ultimately show ?thesis using assms(1) by (auto simp: mirror_inv_def)
qed

lemma apply_patch_set_spec:
  assumes "mirror_inv H s" and "published H (go_trim tid) ps"
    and "applyPatchSet actions now tid ps s = ((s', up, errs), ask)"
  shows "mirror_inv H s' \<and> op_effect s (go_trim tid) s' (upEvents up) \<and> (\<forall>x. PatchFailed x \<notin> set errs)"
proof -
  let ?i = "go_trim tid"
  have idle: "?thesis" if "s' = s" "upEvents up = []" "\<forall>x. PatchFailed x \<notin> set errs"
    using that assms(1) by simp
  have queued: "?thesis" if "queuePatchSetLocked ?i ps s = (s', up, ask)" "errs = []"
    using queue_patch_set_spec [OF assms(1,2) that(1)] that(2) by (auto intro: op_effect_threads)
  show ?thesis
  proof (cases "?i \<noteq> [] \<and> (\<exists>c. thread_of s ?i = Some c \<and> dtConnectionEpoch c = qpEpoch ps \<and>
      qpBaseRevision ps = dtRevision c \<and> dtRevision c < qpRevision ps)")
    case False
    then show ?thesis
      using assms(3) idle queued
      by (auto simp: applyPatchSet_def no_update_def Let_def split: if_splits option.splits prod.splits)
  next
    case True
    then obtain c where c: "thread_of s ?i = Some c" "dtConnectionEpoch c = qpEpoch ps"
      "qpBaseRevision ps = dtRevision c" "dtRevision c < qpRevision ps" "?i \<noteq> []" by blast
    obtain raw where raw: "applyCodexDesktopPatches (dtRaw c) (qpPatches ps) = Inr raw"
      "jsim (JObj raw) (JObj (H ?i (qpEpoch ps) (qpRevision ps)))"
      using mirror_patches [OF mirror_partsD(1) [OF assms(1) c(1)] assms(2)] c by auto
    show ?thesis
    proof (cases "validateCodexDesktopRawThreadID ?i raw")
      case (Some e)
      then have "s' = s \<and> upEvents up = [] \<and> errs = [e]"
        using assms(3) c raw by (auto simp: applyPatchSet_def no_update_def Let_def split: if_splits)
      then show ?thesis
        using Some idle by (auto simp: validateCodexDesktopRawThreadID_def Let_def split: if_splits)
    next
      case None
      obtain snap0 events where b: "buildCodexDesktopSnapshot ?i (qpEpoch ps) (qpRevision ps) raw now
          (Some (dtProjection c)) = (snap0, events)" by (metis prod.collapse)
      obtain snap s1 where a: "attachQueuedFollowUpsLocked snap0 s = (snap, s1)" by (metis prod.collapse)
      obtain s2 evs aerr where p: "publish_revision actions snap events (put_thread ?i snap s1) = (s2, evs, aerr)"
        by (metis prod.collapse)
      note bf = build_snapshot_fields [OF b] and af = attach_threads [OF a] and pf = publish_revision_cases [OF p]
      have s': "s' = evictIdleLocked ?i s2" "upEvents up = evs" "errs = option_list aerr"
        using assms(3) c raw None b a p by (auto simp: applyPatchSet_def Let_def split: if_splits)
      have t2: "thread_of s2 = (\<lambda>k. if k = ?i then Some snap else thread_of s k)" "queue_of s2 = queue_of s"
        using pf(1,2) af by (auto simp: fun_eq_iff)
      have m: "mirrors H ?i snap" using bf af raw by (simp add: mirrors_def)
      have inv: "mirror_inv H s'"
        unfolding mirror_inv_def
      proof (intro conjI allI impI)
        fix k d
        assume "thread_of s' k = Some d"
        then have "thread_of s2 k = Some d" unfolding s' by (rule evict_old)
        then show "mirrors H k d" using m mirror_partsD(1) [OF assms(1)] by (auto simp: t2 split: if_splits)
      next
        fix k
        show "queue_ok H k (queue_of s' k)"
          using evict_queue [of ?i s2 k] mirror_partsD(2) [OF assms(1)] by (auto simp: s' t2)
      qed
      obtain es where es: "\<forall>j. ends j es = []" "evs = stampCodexDesktopWatermark snap (events @ es)"
        using pf(3) by auto
      have "op_effect s ?i s' evs"
      proof (rule op_effect_store [OF _ _ _ _ _ es(2)])
        show "thread_of s' ?i = Some snap" by (simp add: s' t2)
        show "thread_of s k = Some d" if "k \<noteq> ?i" "thread_of s' k = Some d" for k d
          using that evict_old [of ?i s2 k d] by (simp add: s' t2)
        show "newer d snap" if "thread_of s ?i = Some d" for d
          using that c bf af by (auto simp: newer_def)
        show "ends_within (pjTerminal (dtProjection c)) (events @ es) (pjTerminal (dtProjection snap))"
          using bf(5) af es by (simp add: ends_within_quiet copyCodexDesktopTerminals_def)
        show "pjTerminal (dtProjection d) \<subseteq> pjTerminal (dtProjection c)" if "thread_of s ?i = Some d" for d
          using that c by simp
      qed
      then show ?thesis using inv s' pf(4) by (auto simp: option_list_def split: option.splits)
    qed
  qed
qed

lemma thread_of_cong:
  "dsThreads s' = dsThreads s \<Longrightarrow> thread_of s' = thread_of s"
  "dsQueued s' = dsQueued s \<Longrightarrow> queue_of s' = queue_of s"
  by (simp_all add: thread_of_def queue_of_def fun_eq_iff)

lemma evict_orphans_threads:
  "dsThreads (evictOrphanFollowUpsLocked i s) = dsThreads s \<and> dsQueued (evictOrphanFollowUpsLocked i s) = dsQueued s"
proof (induction i s rule: evictOrphanFollowUpsLocked.induct)
  case (1 i s)
  then show ?case
    by (simp add: evictOrphanFollowUpsLocked.simps [of i s] split: option.split)
qed

lemma apply_follow_ups_spec:
  assumes "mirror_inv H s" and "applyQueuedFollowUps now e tid messages s = (s', up, errs)"
  shows "mirror_inv H s' \<and> op_effect s (go_trim tid) s' (upEvents up) \<and> (\<forall>x. PatchFailed x \<notin> set errs)"
proof -
  let ?i = "go_trim tid"
  let ?s2 = "evictOrphanFollowUpsLocked ?i (s\<lparr>dsFollowUps := AList.update ?i
      \<lparr>qfEpoch = e, qfMessages = messages, qfUpdatedAt = now\<rparr> (dsFollowUps s)\<rparr>)"
  have t2: "thread_of ?s2 = thread_of s" "queue_of ?s2 = queue_of s"
    using evict_orphans_threads by (auto intro: thread_of_cong)
  have up: "upEvents up = []" "\<forall>x. PatchFailed x \<notin> set errs"
    using assms(2) by (auto simp: applyQueuedFollowUps_def no_update_def Let_def split: if_splits option.splits)
  have "s' = s \<or> s' = ?s2 \<or>
      (\<exists>c. thread_of s ?i = Some c \<and> s' = put_thread ?i (c\<lparr>dtQueuedFollowUps := messages, dtUpdatedAt := now\<rparr>) ?s2)"
    using assms(2) unfolding applyQueuedFollowUps_def Let_def by (simp split: if_split_asm option.split_asm)
  then consider "thread_of s' = thread_of s" "queue_of s' = queue_of s"
    | c where "thread_of s ?i = Some c" "s' = put_thread ?i (c\<lparr>dtQueuedFollowUps := messages, dtUpdatedAt := now\<rparr>) ?s2"
    using t2 by metis
  then show ?thesis
  proof cases
    case 1
    then show ?thesis using up assms(1) mirror_inv_cong [of s' s H] op_effect_threads [of s' s "[]" ?i] by simp
  next
    case (2 c)
    have "mirror_inv H s'"
      using assms(1) mirror_partsD(1) [OF assms(1) 2(1)] by (auto simp: 2(2) t2 mirror_inv_def mirrors_def)
    moreover have "op_effect s ?i s' []"
      using 2(1) by (auto simp: 2(2) t2 op_effect_def newer_def settled_def ends_at_def)
    ultimately show ?thesis using up by simp
  qed
qed

subsection \<open>Runs\<close>

text \<open>
  Every operation of the cache that changes it or emits events. An event of a reader replays
  the progress of the active turn to a new watcher.
\<close>

datatype desktop_op =
    OpSnapshot instant string uint64 uint64 "jobject option"
  | OpPatches instant string codexDesktopQueuedPatchSet
  | OpFollowUps instant uint64 string "string list"
  | OpReset string string bool
  | OpReplay string
  | OpWatch string
  | OpWait string uint64 uint64

fun run_op ::
    "desktop_decoders option \<Rightarrow> desktop_op \<Rightarrow> codexDesktopStateStore \<Rightarrow>
     codexDesktopStateStore \<times> string \<times> codexDesktopEvent list \<times> desktop_state_error list" where
  "run_op actions (OpSnapshot now tid e r raw) s =
     (let (s', up, errs) = applySnapshot actions now tid e r raw s in (s', go_trim tid, upEvents up, errs))"
| "run_op actions (OpPatches now tid ps) s =
     (let ((s', up, errs), ask) = applyPatchSet actions now tid ps s in (s', go_trim tid, upEvents up, errs))"
| "run_op actions (OpFollowUps now e tid messages) s =
     (let (s', up, errs) = applyQueuedFollowUps now e tid messages s in (s', go_trim tid, upEvents up, errs))"
| "run_op actions (OpReset tid request failed) s = (resetPendingActionOnError tid request failed s, tid, [], [])"
| "run_op actions (OpReplay tid) s =
     (let (s', e, r, evs) = replayActiveTurnBatch actions tid s in (s', tid, evs, []))"
| "run_op actions (OpWatch tid) s =
     (let (s', batch) = activeWatchSnapshot actions tid s in
      (s', tid, (case batch of None \<Rightarrow> [] | Some (state, e, r, evs) \<Rightarrow> evs), []))"
| "run_op actions (OpWait tid e r) s = (fst (waitForRevision tid e r s), tid, [], [])"

fun true_message :: "desktop_history \<Rightarrow> desktop_op \<Rightarrow> bool" where
  "true_message H (OpSnapshot now tid e r raw) \<longleftrightarrow>
     (case raw of None \<Rightarrow> True | Some fs \<Rightarrow> jsim (JObj fs) (JObj (H (go_trim tid) e r)))"
| "true_message H (OpPatches now tid ps) \<longleftrightarrow> published H (go_trim tid) ps"
| "true_message H _ \<longleftrightarrow> True"

lemma ends_replay_events [simp]: "ends j (replay_events snap) = []"
  by (simp add: replay_events_def split: option.split)

lemma add_action_events_effect:
  assumes "add_action_events snap (replay_events snap) (projectPendingActionEventsLocked actions snap s) = (s', evs)"
  shows "thread_of s' = thread_of s" "queue_of s' = queue_of s" "ends j evs = []"
proof -
  obtain t es err where p: "projectPendingActionEventsLocked actions snap s = (t, es, err)"
    by (metis prod.collapse)
  note ae = actions_effect [OF p]
  show "thread_of s' = thread_of s" "queue_of s' = queue_of s"
    using assms p ae by (auto simp: add_action_events_def)
  have "length (ends j (stampCodexDesktopWatermark snap es')) = length (ends j es')" for es'
    by (simp add: ends_def stampCodexDesktopWatermark_def filter_map comp_def)
  then show "ends j evs = []"
    using assms p ae(4) by (auto simp: add_action_events_def simp flip: length_0_conv split: if_splits)
qed

lemma reader_effect:
  assumes "replayActiveTurnBatch actions tid s = (s', e, r, evs) \<or> activeWatchSnapshot actions tid s = (s', Some (st, e, r, evs))"
  shows "thread_of s' = thread_of s \<and> queue_of s' = queue_of s \<and> ends j evs = []"
  using assms add_action_events_effect
  by (fastforce simp: replayActiveTurnBatch_def activeWatchSnapshot_def split: option.splits if_splits prod.splits)

lemma watch_none: "activeWatchSnapshot actions tid s = (s', None) \<Longrightarrow> s' = s"
  by (auto simp: activeWatchSnapshot_def split: option.splits if_splits prod.splits)

lemma quiet_op:
  assumes "mirror_inv H s" and "thread_of s' = thread_of s" and "queue_of s' = queue_of s" and "\<And>j. ends j evs = []"
  shows "mirror_inv H s' \<and> op_effect s i s' evs"
  using assms mirror_inv_cong [of s' s H] by (auto intro: op_effect_threads)

lemma run_op_spec:
  assumes "mirror_inv H s" and "true_message H op" and "run_op actions op s = (s', i, evs, errs)"
  shows "mirror_inv H s' \<and> op_effect s i s' evs \<and> (\<forall>x. PatchFailed x \<notin> set errs)"
proof (cases op)
  case (OpSnapshot now tid e r raw)
  obtain t up es where a: "applySnapshot actions now tid e r raw s = (t, up, es)" by (metis prod.collapse)
  have "s' = t" "i = go_trim tid" "evs = upEvents up" "errs = es" using assms(3) OpSnapshot a by auto
  moreover have "jsim (JObj fs) (JObj (H (go_trim tid) e r))" if "raw = Some fs" for fs
    using assms(2) OpSnapshot that by simp
  ultimately show ?thesis using apply_snapshot_spec [OF assms(1) _ a] by blast
next
  case (OpPatches now tid ps)
  obtain t up es ask where a: "applyPatchSet actions now tid ps s = ((t, up, es), ask)" by (metis prod.collapse)
  have "s' = t" "i = go_trim tid" "evs = upEvents up" "errs = es" "published H (go_trim tid) ps"
    using assms(2,3) OpPatches a by auto
  then show ?thesis using apply_patch_set_spec [OF assms(1) _ a] by blast
next
  case (OpFollowUps now e tid messages)
  obtain t up es where a: "applyQueuedFollowUps now e tid messages s = (t, up, es)" by (metis prod.collapse)
  have "s' = t" "i = go_trim tid" "evs = upEvents up" "errs = es" using assms(3) OpFollowUps a by auto
  then show ?thesis using apply_follow_ups_spec [OF assms(1) a] by blast
next
  case (OpReset tid request failed)
  then have "thread_of s' = thread_of s" "queue_of s' = queue_of s" "evs = []" "errs = []"
    using assms(3) by (auto simp: resetPendingActionOnError_def intro!: thread_of_cong)
  then show ?thesis using quiet_op [OF assms(1), of s' evs i] by simp
next
  case (OpReplay tid)
  obtain t e r es where a: "replayActiveTurnBatch actions tid s = (t, e, r, es)" by (metis prod.collapse)
  have "s' = t" "evs = es" "errs = []" using assms(3) OpReplay a by auto
  then show ?thesis using quiet_op [OF assms(1), of s' evs i] reader_effect [OF disjI1 [OF a]] by simp
next
  case (OpWatch tid)
  obtain t batch where a: "activeWatchSnapshot actions tid s = (t, batch)" by (metis prod.collapse)
  show ?thesis
  proof (cases batch)
    case None
    then have "s' = s" "evs = []" "errs = []" using assms(3) OpWatch a watch_none [of actions tid s t] by auto
    then show ?thesis using assms(1) by simp
  next
    case (Some b)
    obtain st e r es where "b = (st, e, r, es)" by (metis prod.collapse)
    then have b: "activeWatchSnapshot actions tid s = (t, Some (st, e, r, es))" using Some a by simp
    then have "s' = t" "evs = es" "errs = []" using assms(3) OpWatch by auto
    then show ?thesis using quiet_op [OF assms(1), of s' evs i] reader_effect [OF disjI2 [OF b]] by simp
  qed
next
  case (OpWait tid e r)
  then have "thread_of s' = thread_of s" "queue_of s' = queue_of s" "evs = []" "errs = []"
    using assms(3) by (auto simp: waitForRevision_def intro!: thread_of_cong)
  then show ?thesis using quiet_op [OF assms(1), of s' evs i] by simp
qed

inductive desktop_step ::
    "desktop_history \<Rightarrow> desktop_decoders option \<Rightarrow> codexDesktopStateStore \<Rightarrow> codexDesktopStateStore \<Rightarrow> bool"
  for H :: desktop_history and actions :: "desktop_decoders option" where
  desktop_step: "true_message H op \<Longrightarrow> run_op actions op s = (s', i, evs, errs) \<Longrightarrow> desktop_step H actions s s'"

definition desktop_init :: "codexDesktopStateStore \<Rightarrow> bool" where
  "desktop_init s \<longleftrightarrow> s = newCodexDesktopStateStore"

interpretation desktop_cache: invariant_system desktop_init "desktop_step H actions" "mirror_inv H" for H actions
proof
  fix s
  assume "desktop_init s"
  then show "mirror_inv H s"
    by (simp add: desktop_init_def mirror_inv_def thread_of_def queue_of_def newCodexDesktopStateStore_def)
next
  fix s t
  assume "mirror_inv H s" "desktop_step H actions s t"
  then show "mirror_inv H t" by (auto elim!: desktop_step.cases dest: run_op_spec)
qed

text \<open>The events of thread \<open>i\<close> along a run in which the thread is not evicted.\<close>

inductive desktop_run ::
    "desktop_history \<Rightarrow> desktop_decoders option \<Rightarrow> string \<Rightarrow> codexDesktopStateStore \<Rightarrow>
     codexDesktopEvent list \<Rightarrow> bool"
  for H :: desktop_history and actions :: "desktop_decoders option" and i :: string where
  run_init: "desktop_run H actions i newCodexDesktopStateStore []"
| run_step: "desktop_run H actions i s log \<Longrightarrow> true_message H op \<Longrightarrow>
    run_op actions op s = (s', k, evs, errs) \<Longrightarrow> (thread_of s i \<noteq> None \<Longrightarrow> thread_of s' i \<noteq> None) \<Longrightarrow>
    desktop_run H actions i s' (log @ (if k = i then evs else []))"

lemma ends_at_append [simp]: "ends_at e j (xs @ ys) = ends_at e j xs @ ends_at e j ys"
  by (simp add: ends_at_def)

lemma desktop_run_settled:
  "desktop_run H actions i s log \<Longrightarrow>
     mirror_inv H s \<and> length (ends_at e j log) \<le> of_bool (settled s i e j)"
proof (induction rule: desktop_run.induct)
  case run_init
  then show ?case using desktop_cache.inv_init by (simp add: desktop_init_def ends_at_def)
next
  case (run_step s log op s' k evs errs)
  note r = run_op_spec [OF run_step.IH [THEN conjunct1] run_step.hyps(2,3)]
  show ?case
  proof (cases "k = i")
    case True
    have "length (ends_at e j evs) + of_bool (settled s i e j) \<le> of_bool (settled s' i e j)"
      using r True by (simp add: op_effect_def)
    with run_step.IH r True show ?thesis by simp
  next
    case False
    have "settled s i e j \<longrightarrow> settled s' i e j"
      using r False run_step.hyps(4) by (force simp: op_effect_def settled_def)
    moreover have "length (ends_at e j log) \<le> of_bool (settled s i e j)" using run_step.IH by simp
    ultimately have "length (ends_at e j log) \<le> of_bool (settled s' i e j)" by (cases "settled s i e j") auto
    with r False show ?thesis by simp
  qed
qed

end
