(* ===== verification/Desktop_Runs.thy ===== *)
theory Desktop_Runs
  imports Desktop_Mirror
begin

section \<open>Runs of the Desktop cache\<close>

text \<open>
  A conversation of one turn, first running and then failed, fed to the cache as two snapshots
  of one connection, and the two properties of \<^theory_text>\<open>Desktop_Mirror\<close> with this run as their witness.
\<close>

lemma demo_trims:
  "go_trim ''t1'' = ''t1''" "go_trim ''running'' = ''running''" "go_trim ''failed'' = ''failed''"
  "go_trim ''Hel'' = ''Hel''"
  by (simp_all add: go_trim_plain plain_char_def)

lemma demo_valid: "validateCodexDesktopRawThreadID ''t1'' (demo_raw status text) = None"
  by (simp add: validateCodexDesktopRawThreadID_def demo_raw_def jfield_def demo_trims)

lemma demo_no_requests: "projectCodexDesktopRequests (demo_raw status text) = []"
  by (simp add: projectCodexDesktopRequests_def demo_raw_def jfield_def)

lemma demo_carried:
  "carried_projection (demo_raw ''running'' ''Hel'') None = demo_projection ''running'' ''Hel''"
  "carried_projection (demo_raw ''failed'' ''Hel'') (Some (demo_projection ''running'' ''Hel'')) =
     demo_projection ''failed'' ''Hel''"
  by (simp_all add: carried_projection_def demo_build demo_trims copyCodexDesktopTerminals_def
      copyCodexDesktopTerminalCandidates_def carryCodexDesktopActiveTombstones_def Let_def)
    (auto simp: demo_projection_def fun_eq_iff)

lemmas demo_simps = demo_turn_def project_turn_def settle_turn_def isCodexDesktopActiveStatus_def
  isCodexDesktopTerminalStatus_def codexDesktopPreviousTurn_def Let_def

lemma demo_first:
  obtains st evs where "projectCodexDesktopSnapshot ''t1'' (demo_raw ''running'' ''Hel'') None =
      (st, [], demo_projection ''running'' ''Hel'', evs)"
proof -
  obtain st req pj evs where r: "projectCodexDesktopSnapshot ''t1'' (demo_raw ''running'' ''Hel'') None = (st, req, pj, evs)"
    by (metis prod.collapse)
  have "pj = demo_projection ''running'' ''Hel''"
    using snapshot_cases(1) [OF r] unfolding demo_carried
    by (simp add: demo_projection_def demo_simps)
  then show ?thesis using that r snapshot_cases(2) [OF r] by (simp add: demo_no_requests)
qed

lemma demo_second:
  obtains st pj evs where "projectCodexDesktopSnapshot ''t1'' (demo_raw ''failed'' ''Hel'')
      (Some (demo_projection ''running'' ''Hel'')) = (st, [], pj, evs)"
    and "length (ends ''a'' evs) = 1"
proof -
  let ?prev = "Some (demo_projection ''running'' ''Hel'')"
  obtain st req pj evs where r: "projectCodexDesktopSnapshot ''t1'' (demo_raw ''failed'' ''Hel'') ?prev = (st, req, pj, evs)"
    by (metis prod.collapse)
  have "length (ends ''a'' evs) = 1"
    using snapshot_cases(1) [OF r] unfolding demo_carried
    by (auto simp: demo_projection_def demo_simps ends_terminal)
  then show ?thesis using that r snapshot_cases(2) [OF r] by (simp add: demo_no_requests)
qed

lemma length_update_any: "length (AList.update k x xs) = length (AList.update k y xs)"
  by (induction xs) auto

lemma snapshot_accepted:
  assumes "go_trim i = i" "i \<noteq> []" "validateCodexDesktopRawThreadID i raw = None" "queue_of s i = []"
    and "dsFollowUps s = []" "\<And>c. thread_of s i = Some c \<Longrightarrow> dtConnectionEpoch c = e \<and> dtRevision c < r"
    and p: "projectCodexDesktopSnapshot i raw (codexDesktopProjectionPointer (thread_of s i) e) = (st, [], pj, evs)"
    and "length (dsThreads (put_thread i x s)) \<le> codexDesktopMaxThreads"
  obtains s' up snap where "applySnapshot None now i e r (Some raw) s = (s', up, [])"
    and "thread_of s' i = Some snap" and "dtProjection snap = pj" and "dtConnectionEpoch snap = e"
    and "dtRevision snap = r" and "dtRaw snap = raw" and "queue_of s' i = []" and "dsFollowUps s' = []"
    and "upEvents up = stampCodexDesktopWatermark snap evs"
    and "dsThreads s' = AList.update i snap (dsThreads s)"
proof -
  define snap where "snap = fst (buildCodexDesktopSnapshot i e r raw now (codexDesktopProjectionPointer (thread_of s i) e))"
  have b: "buildCodexDesktopSnapshot i e r raw now (codexDesktopProjectionPointer (thread_of s i) e) = (snap, evs)"
    and f: "dtThreadID snap = i" "dtConnectionEpoch snap = e" "dtRevision snap = r" "dtRaw snap = raw"
      "dtProjection snap = pj" "dtRequests snap = []"
    by (simp_all add: snap_def buildCodexDesktopSnapshot_def p)
  have a: "attachQueuedFollowUpsLocked snap s = (snap, s)"
    by (simp add: attachQueuedFollowUpsLocked_def assms(5))
  let ?s2 = "storeRemainingPatches i [] (put_thread i snap s)"
  have len: "length (dsThreads ?s2) \<le> codexDesktopMaxThreads"
    using assms(8) by (simp add: storeRemainingPatches_def put_thread_def length_update_any [of i snap _ x])
  have q: "replayQueuedLocked i now snap (put_thread i snap s) = (?s2, [], None)"
    using len by (simp add: replayQueuedLocked_def assms(4) evictIdleLocked.simps [of i ?s2])
  have t: "thread_of ?s2 i = Some snap"
    by (simp add: storeRemainingPatches_def thread_of_def put_thread_def update_conv')
  let ?s3 = "(signalRevisionLocked i ?s2)\<lparr>dsNeedsSnapshot := (dsNeedsSnapshot (signalRevisionLocked i ?s2))
      (i := (if r < target_of (signalRevisionLocked i ?s2) i then dsNeedsSnapshot (signalRevisionLocked i ?s2) i else None))\<rparr>"
  obtain up where u: "applySnapshot None now i e r (Some raw) s = (?s3, up, [])"
    "upEvents up = stampCodexDesktopWatermark snap evs"
  proof
    let ?n = "r < target_of (signalRevisionLocked i ?s2) i"
    let ?u = "\<lparr>upSnapshot = Some snap, upEvents = stampCodexDesktopWatermark snap evs, upApplied = True, upNeedsSnapshot = ?n\<rparr>"
    have stale: "\<not> (case thread_of s i of Some c \<Rightarrow> e < dtConnectionEpoch c \<or>
        dtConnectionEpoch c = e \<and> r \<le> dtRevision c | None \<Rightarrow> False)"
      using assms(6) by (auto split: option.splits)
    show "applySnapshot None now i e r (Some raw) s = (?s3, ?u, [])"
      using assms(1-3) stale
      by (simp add: applySnapshot_def b a q t publish_revision_def projectPendingActionEventsLocked_def f option_list_def)
    show "upEvents ?u = stampCodexDesktopWatermark snap evs" by simp
  qed
  show ?thesis
  proof (rule that [OF u(1)])
    show "thread_of ?s3 i = Some snap" using t by simp
  qed (use f u(2) assms(4,5) in \<open>simp_all add: storeRemainingPatches_def put_thread_def signalRevisionLocked_def queue_of_def\<close>)
qed

subsection \<open>The run\<close>

definition demo_history :: desktop_history where
  "demo_history i e r = (if r = 1 then demo_raw ''running'' ''Hel'' else demo_raw ''failed'' ''Hel'')"

lemma demo_run:
  obtains s1 evs1 s2 evs2 c where
    "run_op None (OpSnapshot 5 ''t1'' 7 1 (Some (demo_raw ''running'' ''Hel''))) newCodexDesktopStateStore
       = (s1, ''t1'', evs1, [])"
    and "run_op None (OpSnapshot 6 ''t1'' 7 2 (Some (demo_raw ''failed'' ''Hel''))) s1 = (s2, ''t1'', evs2, [])"
    and "thread_of s2 ''t1'' = Some c" and "dtConnectionEpoch c = 7" and "dtRevision c = 2"
    and "length (ends_at 7 ''a'' evs2) = 1"
proof -
  obtain st pj1 evs where p1: "projectCodexDesktopSnapshot ''t1'' (demo_raw ''running'' ''Hel'') None = (st, [], pj1, evs)"
    and pj1: "pj1 = demo_projection ''running'' ''Hel''"
    by (rule demo_first) auto
  let ?s0 = newCodexDesktopStateStore
  have e: "codexDesktopProjectionPointer (thread_of ?s0 ''t1'') 7 = None"
    by (simp add: thread_of_def newCodexDesktopStateStore_def codexDesktopProjectionPointer_def)
  obtain s1 up1 c1 where s1: "applySnapshot None 5 ''t1'' 7 1 (Some (demo_raw ''running'' ''Hel'')) ?s0 = (s1, up1, [])"
    and c1: "thread_of s1 ''t1'' = Some c1" "dtProjection c1 = pj1" "dtConnectionEpoch c1 = 7" "dtRevision c1 = 1"
      "queue_of s1 ''t1'' = []" "dsFollowUps s1 = []" "dsThreads s1 = AList.update ''t1'' c1 (dsThreads ?s0)"
    by (rule snapshot_accepted [of "''t1''" "demo_raw ''running'' ''Hel''" ?s0 7 1 st pj1 evs undefined 5])
       (simp_all add: demo_trims demo_valid e p1 queue_of_def newCodexDesktopStateStore_def thread_of_def
        put_thread_def codexDesktopMaxThreads_def codexDesktopProjectionPointer_def)
  obtain st2 pj2 evs2 where p2: "projectCodexDesktopSnapshot ''t1'' (demo_raw ''failed'' ''Hel'')
      (Some (demo_projection ''running'' ''Hel'')) = (st2, [], pj2, evs2)" and l: "length (ends ''a'' evs2) = 1"
    by (rule demo_second)
  obtain s2 up2 c2 where s2: "applySnapshot None 6 ''t1'' 7 2 (Some (demo_raw ''failed'' ''Hel'')) s1 = (s2, up2, [])"
    and c2: "thread_of s2 ''t1'' = Some c2" "dtConnectionEpoch c2 = 7" "dtRevision c2 = 2"
      "upEvents up2 = stampCodexDesktopWatermark c2 evs2"
    by (rule snapshot_accepted [of "''t1''" "demo_raw ''failed'' ''Hel''" s1 7 2 st2 pj2 evs2 undefined 6])
       (auto simp: demo_trims demo_valid c1 p2 pj1 put_thread_def codexDesktopMaxThreads_def
        codexDesktopProjectionPointer_def newCodexDesktopStateStore_def)
  have "length (ends_at 7 ''a'' (upEvents up2)) = 1" by (simp add: c2 ends_stamp l)
  then show ?thesis using that s1 s2 c2 by (simp add: demo_trims)
qed

subsection \<open>Properties\<close>

text \<open>
  C14: the cache is a mirror of its publisher. Whatever true messages have arrived, in
  whatever order, with whatever repeated or missing, the cached state of a thread is, as a JSON
  value, the state that the Desktop published at the cached revision of the cached connection. The next true
  message never fails to apply, and it never takes a thread back to an older connection or
  revision, nor touches another thread other than by evicting it.
\<close>

theorem desktop_cache_mirrors:
  assumes "reach desktop_init (desktop_step H actions) s" and "true_message H op"
    and "run_op actions op s = (s', i, evs, errs)"
  shows "(\<forall>k c. thread_of s' k = Some c \<longrightarrow>
      jsim (JObj (dtRaw c)) (JObj (H k (dtConnectionEpoch c) (dtRevision c)))) \<and>
    (\<forall>e. PatchFailed e \<notin> set errs) \<and>
    (\<forall>c. thread_of s i = Some c \<longrightarrow> (\<exists>d. thread_of s' i = Some d \<and>
       (dtConnectionEpoch c < dtConnectionEpoch d \<or>
        dtConnectionEpoch c = dtConnectionEpoch d \<and> dtRevision c \<le> dtRevision d))) \<and>
    (\<forall>k c. k \<noteq> i \<and> thread_of s' k = Some c \<longrightarrow> thread_of s k = Some c) \<and>
    (\<forall>k. countCodexDesktopQueuedPatches (queue_of s' k) \<le> codexDesktopMaxQueuedPatches)"
proof -
  have r: "mirror_inv H s' \<and> op_effect s i s' evs \<and> (\<forall>x. PatchFailed x \<notin> set errs)"
    by (rule run_op_spec [OF desktop_cache.reach_inv [OF assms(1)] assms(2,3)])
  then have "mirrors H k c" if "thread_of s' k = Some c" for k c using that mirror_partsD(1) by blast
  moreover have "countCodexDesktopQueuedPatches (queue_of s' k) \<le> codexDesktopMaxQueuedPatches" for k
    using mirror_partsD(2) [of H s' k] r by (simp add: queue_ok_def)
  ultimately show ?thesis using r by (auto simp: op_effect_def newer_def mirrors_def)
qed

theorem desktop_cache_mirrors_witness:
  "\<exists>s s' evs c. reach desktop_init (desktop_step demo_history None) s \<and>
     run_op None (OpSnapshot 6 ''t1'' 7 2 (Some (demo_raw ''failed'' ''Hel''))) s = (s', ''t1'', evs, []) \<and>
     thread_of s' ''t1'' = Some c \<and> dtRevision c = 2 \<and>
     jsim (JObj (dtRaw c)) (JObj (demo_history ''t1'' 7 2))"
proof (rule demo_run)
  fix s1 evs1 s2 evs2 c
  assume r1: "run_op None (OpSnapshot 5 ''t1'' 7 1 (Some (demo_raw ''running'' ''Hel''))) newCodexDesktopStateStore
       = (s1, ''t1'', evs1, [])"
    and r2: "run_op None (OpSnapshot 6 ''t1'' 7 2 (Some (demo_raw ''failed'' ''Hel''))) s1 = (s2, ''t1'', evs2, [])"
    and c: "thread_of s2 ''t1'' = Some c" "dtConnectionEpoch c = 7" "dtRevision c = 2"
  have "desktop_step demo_history None newCodexDesktopStateStore s1"
    by (rule desktop_step [OF _ r1]) (simp add: demo_history_def)
  then have reach: "reach desktop_init (desktop_step demo_history None) s1"
    by (rule reach_step [rotated]) (simp add: reach_init desktop_init_def)
  have "true_message demo_history (OpSnapshot 6 ''t1'' 7 2 (Some (demo_raw ''failed'' ''Hel'')))"
    by (simp add: demo_history_def)
  from desktop_cache_mirrors [OF reach this r2, THEN conjunct1, rule_format, OF c(1)]
  have "jsim (JObj (dtRaw c)) (JObj (demo_history ''t1'' 7 2))" by (simp only: c(2,3))
  with reach r2 c(1,3) show ?thesis by (intro exI conjI)
qed

text \<open>
  C15: every turn ends once. As long as a thread is not evicted from the cache, each of its
  turns is reported as ended, by a completion or an error, at most once on each connection, over
  any run of true messages, replays for late watchers included.
\<close>

theorem desktop_turn_ends_once:
  assumes "desktop_run H actions i s log"
  shows "length (filter (\<lambda>v. deTurnID v = j \<and> deKind v \<in> {''completed'', ''error''} \<and> deEpoch v = e) log) \<le> 1"
proof -
  have "length (ends_at e j log) \<le> 1"
    using desktop_run_settled [OF assms, of e j] by (cases "settled s i e j") auto
  then show ?thesis by (simp add: ends_at_def ends_def filter_filter conj_ac)
qed

theorem desktop_turn_ends_once_witness:
  "\<exists>s log. desktop_run demo_history None ''t1'' s log \<and>
     length (filter (\<lambda>v. deTurnID v = ''a'' \<and> deKind v \<in> {''completed'', ''error''} \<and> deEpoch v = 7) log) = 1"
proof (rule demo_run)
  fix s1 evs1 s2 evs2 c
  assume r1: "run_op None (OpSnapshot 5 ''t1'' 7 1 (Some (demo_raw ''running'' ''Hel''))) newCodexDesktopStateStore
       = (s1, ''t1'', evs1, [])"
    and r2: "run_op None (OpSnapshot 6 ''t1'' 7 2 (Some (demo_raw ''failed'' ''Hel''))) s1 = (s2, ''t1'', evs2, [])"
    and c: "thread_of s2 ''t1'' = Some c" and one: "length (ends_at 7 ''a'' evs2) = 1"
  have "desktop_run demo_history None ''t1'' s1 ([] @ (if ''t1'' = ''t1'' then evs1 else []))"
    by (rule run_step [OF run_init _ r1])
      (simp_all add: demo_history_def thread_of_def newCodexDesktopStateStore_def)
  then have run: "desktop_run demo_history None ''t1'' s2 (evs1 @ evs2)"
    using run_step [OF _ _ r2, of demo_history "''t1''" evs1] c by (simp add: demo_history_def)
  let ?P = "\<lambda>v. deTurnID v = ''a'' \<and> deKind v \<in> {''completed'', ''error''} \<and> deEpoch v = 7"
  have "length (filter ?P evs2) = 1"
    using one by (simp add: ends_at_def ends_def filter_filter conj_ac)
  moreover have "length (filter ?P (evs1 @ evs2)) \<le> 1"
    by (rule desktop_turn_ends_once [OF run, of "''a''" 7])
  ultimately have "length (filter ?P (evs1 @ evs2)) = 1"
    unfolding filter_append length_append by linarith
  with run show ?thesis by (intro exI conjI)
qed

end
