(* ===== verification/Desktop_Client.thy ===== *)
theory Desktop_Client
  imports Go_Json Go_Text
begin

section \<open>The connection to Codex Desktop\<close>

text \<open>
  \<open>src/agent/codex_desktop_protocol.go\<close>, \<open>codex_desktop_client.go\<close> and its companions
  \<open>_state\<close>, \<open>_send\<close>, \<open>_read\<close> and \<open>_broadcast\<close>: the validity of envelopes, the life of a connection,
  the callers that wait for a response and the bounded queue of broadcasts.

  The client's critical sections under its mutex are functions on its state. A pointer that the
  code compares, a connection, a connection state or a waiting caller, is a number; what a
  channel of capacity one has received is the list of results of its caller.
\<close>

subsection \<open>Envelopes\<close>

record codexDesktopEnvelope =
  evType :: string
  evRequestID :: string
  evSourceClientID :: string
  evTargetClientIDs :: "string list"
  evVersion :: int
  evMethod :: string
  evParams :: string
  evResultType :: string
  evResult :: string
  evError :: string
  evRequest :: string
  evResponse :: string

datatype envelope_error =
    TypeMissing | TypeUnsupported string | RequestIDMissing | MethodMissing | VersionMissing
  | Incompatible string int int | ParamsMissing | ParamsNotObject | ResultMissing | ErrorMissing
  | ResultTypeInvalid string | NestedMissing | NestedNotObject | NestedUndecodable | NestedType string
  | ResponseMissing | ResponseNotObject | CanHandleInvalid

text \<open>
  Two decoders of \<open>encoding/json\<close> are parameters: the member \<open>type\<close> of a nested request (\<open>None\<close> when
  decoding fails) and the member \<open>canHandle\<close> of a discovery response, whose inner \<open>None\<close> is absence.
\<close>

record envelope_decoders =
  edNestedType :: "string \<Rightarrow> string option"
  edCanHandle :: "string \<Rightarrow> bool option option"

definition codexDesktopMethodVersions :: "string \<rightharpoonup> int" where
  "codexDesktopMethodVersions =
     [''initialize'' \<mapsto> 1, ''thread-stream-state-changed'' \<mapsto> 11, ''thread-stream-following-changed'' \<mapsto> 1,
      ''thread-stream-following-status-requested'' \<mapsto> 1, ''thread-read-state-changed'' \<mapsto> 2,
      ''thread-queued-followups-changed'' \<mapsto> 1, ''thread-follower-load-complete-history'' \<mapsto> 1,
      ''thread-follower-start-turn'' \<mapsto> 1, ''thread-follower-steer-turn'' \<mapsto> 1,
      ''thread-follower-interrupt-turn'' \<mapsto> 4, ''thread-follower-update-thread-settings'' \<mapsto> 1,
      ''thread-follower-command-approval-decision'' \<mapsto> 1, ''thread-follower-file-approval-decision'' \<mapsto> 1,
      ''thread-follower-submit-user-input'' \<mapsto> 1,
      ''thread-follower-permissions-request-approval-response'' \<mapsto> 1]"

definition codexDesktopCompatibleLegacy :: "string \<Rightarrow> int \<Rightarrow> bool" where
  "codexDesktopCompatibleLegacy method version \<longleftrightarrow> method = ''thread-read-state-changed'' \<and> version = 1"

definition codexDesktopVersionlessBroadcasts :: "string set" where
  "codexDesktopVersionlessBroadcasts = {''client-status-changed'', ''query-cache-invalidate''}"

text \<open>\<open>None\<close> is success.\<close>

definition validateCodexDesktopMethodVersion :: "string \<Rightarrow> int \<Rightarrow> envelope_error option" where
  "validateCodexDesktopMethodVersion method version =
     (case codexDesktopMethodVersions method of
        None \<Rightarrow> None
      | Some expected \<Rightarrow>
          if version = expected \<or> codexDesktopCompatibleLegacy method version then None
          else Some (Incompatible method version expected))"

definition requireCodexDesktopRequestID :: "codexDesktopEnvelope \<Rightarrow> envelope_error option" where
  "requireCodexDesktopRequestID env = (if evRequestID env = [] then Some RequestIDMissing else None)"

definition validateCodexDesktopMethodEnvelope ::
    "codexDesktopEnvelope \<Rightarrow> bool \<Rightarrow> bool \<Rightarrow> envelope_error option" where
  "validateCodexDesktopMethodEnvelope env requestIDRequired allowVersionless =
     (if requestIDRequired \<and> evRequestID env = [] then Some RequestIDMissing
      else if evMethod env = [] then Some MethodMissing
      else if evVersion env \<le> 0 then
        if evVersion env = 0 \<and> allowVersionless then None else Some VersionMissing
      else validateCodexDesktopMethodVersion (evMethod env) (evVersion env))"

definition isMissingOrNullCodexDesktopJSON :: "string \<Rightarrow> bool" where
  "isMissingOrNullCodexDesktopJSON v \<longleftrightarrow> go_trim v = [] \<or> go_trim v = ''null''"

definition starts_object :: "string \<Rightarrow> bool" where
  "starts_object v \<longleftrightarrow> (case go_trim v of [] \<Rightarrow> False | c # _ \<Rightarrow> c = CHR ''{'')"

definition validateCodexDesktopRequest :: "codexDesktopEnvelope \<Rightarrow> envelope_error option" where
  "validateCodexDesktopRequest env =
     (case validateCodexDesktopMethodEnvelope env True False of
        Some e \<Rightarrow> Some e
      | None \<Rightarrow>
          if isMissingOrNullCodexDesktopJSON (evParams env) then Some ParamsMissing
          else if \<not> starts_object (evParams env) \<or> \<not> json_valid (go_trim (evParams env)) then Some ParamsNotObject
          else None)"

definition validateCodexDesktopBroadcast :: "codexDesktopEnvelope \<Rightarrow> envelope_error option" where
  "validateCodexDesktopBroadcast env =
     (case validateCodexDesktopMethodEnvelope env False (evMethod env \<in> codexDesktopVersionlessBroadcasts) of
        Some e \<Rightarrow> Some e
      | None \<Rightarrow> if isMissingOrNullCodexDesktopJSON (evParams env) then Some ParamsMissing else None)"

definition validateCodexDesktopResponse :: "codexDesktopEnvelope \<Rightarrow> envelope_error option" where
  "validateCodexDesktopResponse env =
     (case requireCodexDesktopRequestID env of
        Some e \<Rightarrow> Some e
      | None \<Rightarrow>
          if evResultType env = ''success'' then (if evResult env = [] then Some ResultMissing else None)
          else if evResultType env = ''error'' then (if blank (evError env) then Some ErrorMissing else None)
          else Some (ResultTypeInvalid (evResultType env)))"

definition validateCodexDesktopDiscoveryRequest ::
    "envelope_decoders \<Rightarrow> codexDesktopEnvelope \<Rightarrow> envelope_error option" where
  "validateCodexDesktopDiscoveryRequest dec env =
     (case requireCodexDesktopRequestID env of
        Some e \<Rightarrow> Some e
      | None \<Rightarrow>
          let trimmed = go_trim (evRequest env) in
          if evRequest env = [] then Some NestedMissing
          else if \<not> starts_object (evRequest env) \<or> \<not> json_valid trimmed then Some NestedNotObject
          else (case edNestedType dec trimmed of
              None \<Rightarrow> Some NestedUndecodable
            | Some t \<Rightarrow> if t \<noteq> ''request'' then Some (NestedType t) else None))"

definition validateCodexDesktopDiscoveryResponse ::
    "envelope_decoders \<Rightarrow> codexDesktopEnvelope \<Rightarrow> envelope_error option" where
  "validateCodexDesktopDiscoveryResponse dec env =
     (case requireCodexDesktopRequestID env of
        Some e \<Rightarrow> Some e
      | None \<Rightarrow>
          if isMissingOrNullCodexDesktopJSON (evResponse env) then Some ResponseMissing
          else if \<not> starts_object (evResponse env) then Some ResponseNotObject
          else (case edCanHandle dec (evResponse env) of
              Some (Some _) \<Rightarrow> None
            | _ \<Rightarrow> Some CanHandleInvalid))"

definition validateCodexDesktopEnvelope ::
    "envelope_decoders \<Rightarrow> codexDesktopEnvelope \<Rightarrow> envelope_error option" where
  "validateCodexDesktopEnvelope dec env =
     (if evType env = [] then Some TypeMissing
      else if evType env = ''request'' then validateCodexDesktopRequest env
      else if evType env = ''broadcast'' then validateCodexDesktopBroadcast env
      else if evType env = ''response'' then validateCodexDesktopResponse env
      else if evType env = ''client-discovery-request'' then validateCodexDesktopDiscoveryRequest dec env
      else if evType env = ''client-discovery-response'' then validateCodexDesktopDiscoveryResponse dec env
      else Some (TypeUnsupported (evType env)))"

definition empty_envelope :: codexDesktopEnvelope where
  "empty_envelope =
     \<lparr>evType = [], evRequestID = [], evSourceClientID = [], evTargetClientIDs = [], evVersion = 0, evMethod = [],
      evParams = [], evResultType = [], evResult = [], evError = [], evRequest = [], evResponse = []\<rparr>"

definition method_version :: "string \<Rightarrow> int" where
  "method_version m = (case codexDesktopMethodVersions m of None \<Rightarrow> 0 | Some v \<Rightarrow> v)"

text \<open>The parameters come encoded by \<open>json.Marshal\<close>.\<close>

definition newCodexDesktopRequest ::
    "envelope_decoders \<Rightarrow> string \<Rightarrow> string \<Rightarrow> string \<Rightarrow> string \<Rightarrow> envelope_error + codexDesktopEnvelope" where
  "newCodexDesktopRequest dec requestID source method params =
     (let env = empty_envelope\<lparr>evType := ''request'', evRequestID := requestID, evSourceClientID := source,
            evVersion := method_version method, evMethod := method, evParams := params\<rparr>
      in case validateCodexDesktopEnvelope dec env of None \<Rightarrow> Inr env | Some e \<Rightarrow> Inl e)"

definition newCodexDesktopDiscoveryRequest ::
    "envelope_decoders \<Rightarrow> (codexDesktopEnvelope \<Rightarrow> string) \<Rightarrow> string \<Rightarrow> string \<Rightarrow> string \<Rightarrow> string \<Rightarrow>
     envelope_error + codexDesktopEnvelope" where
  "newCodexDesktopDiscoveryRequest dec marshal requestID source method params =
     (case newCodexDesktopRequest dec requestID source method params of
        Inl e \<Rightarrow> Inl e
      | Inr nested \<Rightarrow>
          let env = empty_envelope\<lparr>evType := ''client-discovery-request'', evRequestID := requestID,
                evSourceClientID := source, evRequest := marshal nested\<rparr>
          in case validateCodexDesktopEnvelope dec env of None \<Rightarrow> Inr env | Some e \<Rightarrow> Inl e)"

definition newCodexDesktopBroadcast ::
    "envelope_decoders \<Rightarrow> string \<Rightarrow> string list \<Rightarrow> string \<Rightarrow> string \<Rightarrow> envelope_error + codexDesktopEnvelope" where
  "newCodexDesktopBroadcast dec source targets method params =
     (let env = empty_envelope\<lparr>evType := ''broadcast'', evSourceClientID := go_trim source,
            evTargetClientIDs := targets, evVersion := method_version method, evMethod := method, evParams := params\<rparr>
      in case validateCodexDesktopEnvelope dec env of None \<Rightarrow> Inr env | Some e \<Rightarrow> Inl e)"

subsection \<open>State of the client\<close>

datatype desktop_result =
    CallOk string
  | CallNoClient string
  | CallNotFound string
  | CallRemote string
  | CanHandle bool
  | Disconnected
  | DeliveryUnknown

text \<open>A waiting caller: its channel, and whether its request has been written completely.\<close>

record codexDesktopPendingCall =
  pcWaiter :: nat
  pcWritten :: bool

record codexDesktopConnectionRef =
  crConn :: nat
  crEpoch :: uint64
  crConnecting :: bool
  crState :: "nat option"

record codexDesktopBroadcast =
  dbConnection :: codexDesktopConnectionRef
  dbEnvelope :: codexDesktopEnvelope

text \<open>
  \<open>dcStates\<close> maps a connection state to whether \<open>ready\<close> is closed and whether it is
  \<open>initialized\<close>. \<open>dcResults\<close> is what the channel of each caller has received.
\<close>

record codexDesktopClient =
  dcConn :: "nat option"
  dcConnectionState :: "nat option"
  dcClientID :: string
  dcEpoch :: uint64
  dcClosed :: bool
  dcConnecting :: bool
  dcEverConnected :: bool
  dcPending :: "string \<rightharpoonup> codexDesktopPendingCall"
  dcDiscovery :: "string \<rightharpoonup> codexDesktopPendingCall"
  dcReplySlots :: nat
  dcBroadcasts :: "codexDesktopBroadcast list"
  dcStates :: "nat \<Rightarrow> bool \<times> bool"
  dcResults :: "nat \<Rightarrow> desktop_result list"

datatype client_error =
    ErrUnavailable | ErrDisconnected | ErrConnecting | ErrDuplicateRequest | ErrReplyQueueFull

definition codexDesktopBroadcastQueueLimit :: nat where
  "codexDesktopBroadcastQueueLimit = 256"

definition codexDesktopDiscoveryReplyLimit :: nat where
  "codexDesktopDiscoveryReplyLimit = 4"

definition newCodexDesktopClient :: codexDesktopClient where
  "newCodexDesktopClient =
     \<lparr>dcConn = None, dcConnectionState = None, dcClientID = [], dcEpoch = 0, dcClosed = False,
      dcConnecting = False, dcEverConnected = False, dcPending = Map.empty, dcDiscovery = Map.empty,
      dcReplySlots = 0, dcBroadcasts = [], dcStates = (\<lambda>_. (False, False)), dcResults = (\<lambda>_. [])\<rparr>"

subsection \<open>Connection states\<close>

definition isConnectedLocked :: "codexDesktopClient \<Rightarrow> bool" where
  "isConnectedLocked c \<longleftrightarrow> \<not> dcClosed c \<and> \<not> dcConnecting c \<and> dcConn c \<noteq> None \<and> dcClientID c \<noteq> []"

definition stateErrorLocked :: "codexDesktopClient \<Rightarrow> client_error" where
  "stateErrorLocked c = (if dcEverConnected c then ErrDisconnected else ErrUnavailable)"

definition connectionMatchesLocked :: "codexDesktopConnectionRef \<Rightarrow> codexDesktopClient \<Rightarrow> bool" where
  "connectionMatchesLocked ref c \<longleftrightarrow>
     \<not> dcClosed c \<and> dcConn c = Some (crConn ref) \<and> dcEpoch c = crEpoch ref \<and>
     (if crConnecting ref then dcConnecting c \<or> isConnectedLocked c else isConnectedLocked c)"

definition markReady :: "nat option \<Rightarrow> bool \<Rightarrow> codexDesktopClient \<Rightarrow> codexDesktopClient" where
  "markReady st initialized c =
     (case st of
        None \<Rightarrow> c
      | Some n \<Rightarrow> c\<lparr>dcStates := (dcStates c)(n := (True, snd (dcStates c n) \<or> initialized))\<rparr>)"

definition beginConnect :: "codexDesktopClient \<Rightarrow> codexDesktopClient \<times> (client_error + bool)" where
  "beginConnect c =
     (if dcClosed c then (c, Inl ErrDisconnected)
      else if isConnectedLocked c then (c, Inr False)
      else if dcConnecting c then (c, Inl ErrConnecting)
      else (c\<lparr>dcConnecting := True\<rparr>, Inr True))"

definition finishDialFailure :: "codexDesktopClient \<Rightarrow> codexDesktopClient" where
  "finishDialFailure c = c\<lparr>dcConnecting := False\<rparr>"

text \<open>The new connection state \<open>n\<close> is neither ready nor initialized.\<close>

definition installConnection ::
    "nat \<Rightarrow> nat \<Rightarrow> codexDesktopClient \<Rightarrow> codexDesktopClient \<times> (client_error + codexDesktopConnectionRef)" where
  "installConnection conn n c =
     (if dcClosed c then (c\<lparr>dcConnecting := False\<rparr>, Inl ErrDisconnected)
      else
        (c\<lparr>dcEpoch := dcEpoch c + 1, dcConn := Some conn, dcConnectionState := Some n, dcClientID := [],
           dcStates := (dcStates c)(n := (False, False))\<rparr>,
         Inr \<lparr>crConn = conn, crEpoch = dcEpoch c + 1, crConnecting = True, crState = Some n\<rparr>))"

definition finishInitialize ::
    "codexDesktopConnectionRef \<Rightarrow> string \<Rightarrow> codexDesktopClient \<Rightarrow> codexDesktopClient \<times> client_error option" where
  "finishInitialize ref clientID c =
     (if dcConn c \<noteq> Some (crConn ref) \<or> dcEpoch c \<noteq> crEpoch ref
        then (markReady (crState ref) False c, Some ErrDisconnected)
      else
        (markReady (crState ref) True
           (c\<lparr>dcClientID := clientID, dcConnecting := False, dcEverConnected := True\<rparr>), None))"

definition connectionForWrite ::
    "bool \<Rightarrow> codexDesktopClient \<Rightarrow> client_error + codexDesktopConnectionRef" where
  "connectionForWrite connecting c =
     (case dcConn c of
        None \<Rightarrow> Inl (stateErrorLocked c)
      | Some n \<Rightarrow>
          let ref = \<lparr>crConn = n, crEpoch = dcEpoch c, crConnecting = connecting, crState = dcConnectionState c\<rparr>
          in if connectionMatchesLocked ref c then Inr ref else Inl (stateErrorLocked c))"

definition connectionForEpoch ::
    "uint64 \<Rightarrow> codexDesktopClient \<Rightarrow> (codexDesktopConnectionRef \<times> string) option" where
  "connectionForEpoch epoch c =
     (case dcConn c of
        None \<Rightarrow> None
      | Some n \<Rightarrow>
          let ref = \<lparr>crConn = n, crEpoch = dcEpoch c, crConnecting = False, crState = dcConnectionState c\<rparr>
          in if epoch = 0 \<or> dcEpoch c \<noteq> epoch \<or> \<not> connectionMatchesLocked ref c then None
             else Some (ref, dcClientID c))"

text \<open>\<open>publishForEpoch\<close> runs its argument under the mutex, or reports that the epoch is over.\<close>

definition publishForEpoch :: "uint64 \<Rightarrow> codexDesktopClient \<Rightarrow> bool" where
  "publishForEpoch epoch c \<longleftrightarrow> \<not> dcClosed c \<and> dcConn c \<noteq> None \<and> dcEpoch c = epoch"

subsection \<open>Callers\<close>

definition send_result :: "nat \<Rightarrow> desktop_result \<Rightarrow> codexDesktopClient \<Rightarrow> codexDesktopClient" where
  "send_result w r c = c\<lparr>dcResults := (dcResults c)(w := dcResults c w @ [r])\<rparr>"

definition registerCall ::
    "string \<Rightarrow> nat \<Rightarrow> codexDesktopConnectionRef \<Rightarrow> codexDesktopClient \<Rightarrow> codexDesktopClient \<times> client_error option" where
  "registerCall requestID w ref c =
     (if \<not> connectionMatchesLocked ref c then (c, Some (stateErrorLocked c))
      else if dcPending c requestID \<noteq> None then (c, Some ErrDuplicateRequest)
      else (c\<lparr>dcPending := (dcPending c)(requestID \<mapsto> \<lparr>pcWaiter = w, pcWritten = False\<rparr>)\<rparr>, None))"

definition registerDiscovery ::
    "string \<Rightarrow> nat \<Rightarrow> codexDesktopConnectionRef \<Rightarrow> codexDesktopClient \<Rightarrow> codexDesktopClient \<times> client_error option" where
  "registerDiscovery requestID w ref c =
     (if \<not> connectionMatchesLocked ref c then (c, Some (stateErrorLocked c))
      else if dcDiscovery c requestID \<noteq> None then (c, Some ErrDuplicateRequest)
      else (c\<lparr>dcDiscovery := (dcDiscovery c)(requestID \<mapsto> \<lparr>pcWaiter = w, pcWritten = False\<rparr>)\<rparr>, None))"

definition held_by :: "nat \<Rightarrow> codexDesktopPendingCall option \<Rightarrow> bool" where
  "held_by w p \<longleftrightarrow> (case p of None \<Rightarrow> False | Some q \<Rightarrow> pcWaiter q = w)"

definition removeCall :: "string \<Rightarrow> nat \<Rightarrow> codexDesktopClient \<Rightarrow> codexDesktopClient" where
  "removeCall requestID w c =
     (if held_by w (dcPending c requestID) then c\<lparr>dcPending := (dcPending c)(requestID := None)\<rparr> else c)"

definition removeDiscovery :: "string \<Rightarrow> nat \<Rightarrow> codexDesktopClient \<Rightarrow> codexDesktopClient" where
  "removeDiscovery requestID w c =
     (if held_by w (dcDiscovery c requestID) then c\<lparr>dcDiscovery := (dcDiscovery c)(requestID := None)\<rparr> else c)"

definition written_call :: "codexDesktopPendingCall \<Rightarrow> codexDesktopPendingCall" where
  "written_call p = p\<lparr>pcWritten := True\<rparr>"

definition markRequestWritten :: "string \<Rightarrow> codexDesktopClient \<Rightarrow> codexDesktopClient" where
  "markRequestWritten requestID c =
     c\<lparr>dcPending := (dcPending c)(requestID := map_option written_call (dcPending c requestID)),
       dcDiscovery := (dcDiscovery c)(requestID := map_option written_call (dcDiscovery c requestID))\<rparr>"

definition isCodexDesktopNoClientError :: "string \<Rightarrow> bool" where
  "isCodexDesktopNoClientError message \<longleftrightarrow>
     go_contains (go_lower message) ''no-client-found'' \<or>
     go_contains (go_lower message) ''no codex ipc client can handle''"

definition classifyCodexDesktopRemoteError :: "string \<Rightarrow> desktop_result" where
  "classifyCodexDesktopRemoteError message =
     (if isCodexDesktopNoClientError message then CallNoClient message
      else if go_contains (go_lower message) ''request not found'' then CallNotFound message
      else CallRemote message)"

definition dispatchResponse :: "codexDesktopEnvelope \<Rightarrow> codexDesktopClient \<Rightarrow> codexDesktopClient" where
  "dispatchResponse env c =
     (let c' = c\<lparr>dcPending := (dcPending c)(evRequestID env := None)\<rparr> in
      case dcPending c (evRequestID env) of
        None \<Rightarrow> c'
      | Some p \<Rightarrow>
          send_result (pcWaiter p)
            (if evResultType env = ''error'' then classifyCodexDesktopRemoteError (evError env)
             else CallOk (evResult env)) c')"

definition dispatchDiscoveryResponse ::
    "envelope_decoders \<Rightarrow> codexDesktopEnvelope \<Rightarrow> codexDesktopClient \<Rightarrow> codexDesktopClient" where
  "dispatchDiscoveryResponse dec env c =
     (let c' = c\<lparr>dcDiscovery := (dcDiscovery c)(evRequestID env := None)\<rparr> in
      case dcDiscovery c (evRequestID env) of
        None \<Rightarrow> c'
      | Some p \<Rightarrow> send_result (pcWaiter p) (CanHandle (edCanHandle dec (evResponse env) = Some (Some True))) c')"

subsection \<open>Disconnection\<close>

definition codexDesktopPendingDisconnectError :: "bool \<Rightarrow> desktop_result" where
  "codexDesktopPendingDisconnectError written = (if written then DeliveryUnknown else Disconnected)"

text \<open>
  The callers of the connection are taken out of the client's maps first and answered after the
  disconnection callback; the answer to each goes to its own channel, so the order is immaterial.
\<close>

definition failPending ::
    "(string \<rightharpoonup> codexDesktopPendingCall) \<Rightarrow> (nat \<Rightarrow> desktop_result list) \<Rightarrow> nat \<Rightarrow> desktop_result list" where
  "failPending m results w =
     (if \<exists>p \<in> ran m. pcWaiter p = w \<and> pcWritten p then results w @ [DeliveryUnknown]
      else if \<exists>p \<in> ran m. pcWaiter p = w then results w @ [Disconnected]
      else results w)"

definition disconnectEpoch ::
    "nat \<Rightarrow> uint64 \<Rightarrow> codexDesktopClient \<Rightarrow> codexDesktopClient \<times> bool" where
  "disconnectEpoch conn epoch c =
     (if dcConn c \<noteq> Some conn \<or> dcEpoch c \<noteq> epoch then (c, False)
      else
        let st = dcConnectionState c;
            c1 = c\<lparr>dcConn := None, dcConnectionState := None, dcClientID := [], dcConnecting := False,
                   dcPending := Map.empty, dcDiscovery := Map.empty\<rparr>;
            c2 = markReady st False c1
        in (c2\<lparr>dcResults := failPending (dcDiscovery c) (failPending (dcPending c) (dcResults c))\<rparr>, True))"

definition Close :: "codexDesktopClient \<Rightarrow> codexDesktopClient" where
  "Close c =
     (if dcClosed c then c
      else let c' = c\<lparr>dcClosed := True\<rparr> in
        (case dcConn c of None \<Rightarrow> c' | Some n \<Rightarrow> fst (disconnectEpoch n (dcEpoch c) c')))"

definition Disconnect :: "codexDesktopClient \<Rightarrow> codexDesktopClient" where
  "Disconnect c = (case dcConn c of None \<Rightarrow> c | Some n \<Rightarrow> fst (disconnectEpoch n (dcEpoch c) c))"

subsection \<open>Discovery replies and broadcasts\<close>

definition enqueueDiscoveryReply :: "codexDesktopClient \<Rightarrow> codexDesktopClient \<times> client_error option" where
  "enqueueDiscoveryReply c =
     (if dcReplySlots c < codexDesktopDiscoveryReplyLimit then (c\<lparr>dcReplySlots := dcReplySlots c + 1\<rparr>, None)
      else (c, Some ErrReplyQueueFull))"

definition releaseReplySlot :: "codexDesktopClient \<Rightarrow> codexDesktopClient" where
  "releaseReplySlot c = c\<lparr>dcReplySlots := dcReplySlots c - 1\<rparr>"

text \<open>\<open>thread\<close> stands for \<open>codexDesktopBroadcastThreadID\<close>, which decodes one member of the parameters.\<close>

definition same_stream ::
    "(codexDesktopEnvelope \<Rightarrow> string) \<Rightarrow> codexDesktopBroadcast \<Rightarrow> codexDesktopBroadcast \<Rightarrow> bool" where
  "same_stream thread a b \<longleftrightarrow>
     crEpoch (dbConnection a) = crEpoch (dbConnection b) \<and>
     evMethod (dbEnvelope a) = evMethod (dbEnvelope b) \<and> thread (dbEnvelope a) = thread (dbEnvelope b)"

fun last_index :: "('a \<Rightarrow> bool) \<Rightarrow> 'a list \<Rightarrow> nat option" where
  "last_index P [] = None"
| "last_index P (x # xs) =
     (case last_index P xs of Some i \<Rightarrow> Some (Suc i) | None \<Rightarrow> if P x then Some 0 else None)"

definition coalescibleBroadcastIndexLocked ::
    "(codexDesktopEnvelope \<Rightarrow> string) \<Rightarrow> codexDesktopBroadcast \<Rightarrow> codexDesktopBroadcast list \<Rightarrow> nat option" where
  "coalescibleBroadcastIndexLocked thread pending q = last_index (\<lambda>b. same_stream thread b pending) q"

definition enqueueBroadcast ::
    "(codexDesktopEnvelope \<Rightarrow> string) \<Rightarrow> codexDesktopBroadcast \<Rightarrow> codexDesktopClient \<Rightarrow> codexDesktopClient" where
  "enqueueBroadcast thread pending c =
     (let q = dcBroadcasts c in
      c\<lparr>dcBroadcasts :=
          (if length q < codexDesktopBroadcastQueueLimit then q @ [pending]
           else (case coalescibleBroadcastIndexLocked thread pending q of
               Some i \<Rightarrow> q[i := pending]
             | None \<Rightarrow> tl q @ [pending]))\<rparr>)"

text \<open>
  One round of \<open>drainBroadcasts\<close>. It is enabled when the head's connection is ready; the head is
  delivered only if its handshake succeeded and its connection is still the current one.
\<close>

definition broadcast_ready :: "codexDesktopClient \<Rightarrow> bool" where
  "broadcast_ready c \<longleftrightarrow>
     (case dcBroadcasts c of
        [] \<Rightarrow> False
      | b # _ \<Rightarrow> (case crState (dbConnection b) of None \<Rightarrow> True | Some n \<Rightarrow> fst (dcStates c n)))"

definition drainBroadcast :: "codexDesktopClient \<Rightarrow> codexDesktopClient \<times> (uint64 \<times> codexDesktopEnvelope) option" where
  "drainBroadcast c =
     (case dcBroadcasts c of
        [] \<Rightarrow> (c, None)
      | b # bs \<Rightarrow>
          let c' = c\<lparr>dcBroadcasts := bs\<rparr>; ref = dbConnection b in
          (c', (case crState ref of
                  None \<Rightarrow> None
                | Some n \<Rightarrow>
                    if snd (dcStates c n) \<and> connectionMatchesLocked ref c
                    then Some (crEpoch ref, dbEnvelope b) else None)))"

end
