(* ===== verification/Desktop_Calls.thy ===== *)
theory Desktop_Calls
  imports Desktop_Client
begin

section \<open>Callers of the Desktop connection\<close>

text \<open>
  The client of \<^theory_text>\<open>Desktop_Client\<close> as a system of interleaved steps: goroutines that dial,
  shake hands, call, write, wait and give up, the reader, and disconnection from any side. A
  caller is a fresh number. Writing the whole frame and marking the request as written happen
  under the write lock that disconnection takes as well, so they are one step.
\<close>

record desktop_client_system =
  csClient :: codexDesktopClient
  csDialing :: bool
  csNext :: nat
  csWritten :: "nat set"

definition waiters :: "(string \<rightharpoonup> codexDesktopPendingCall) \<Rightarrow> nat set" where
  "waiters m = pcWaiter ` ran m"

definition marked_waiters :: "string \<Rightarrow> codexDesktopClient \<Rightarrow> nat set" where
  "marked_waiters requestID c =
     {w. held_by w (dcPending c requestID) \<or> held_by w (dcDiscovery c requestID)}"

inductive client_step :: "desktop_client_system \<Rightarrow> desktop_client_system \<Rightarrow> bool" where
  begin_connect: "beginConnect (csClient s) = (c, Inr True) \<Longrightarrow>
    client_step s (s\<lparr>csClient := c, csDialing := True\<rparr>)"
| dial_failed: "csDialing s \<Longrightarrow>
    client_step s (s\<lparr>csClient := finishDialFailure (csClient s), csDialing := False\<rparr>)"
| install: "csDialing s \<Longrightarrow> installConnection conn n (csClient s) = (c, r) \<Longrightarrow>
    client_step s (s\<lparr>csClient := c, csDialing := False\<rparr>)"
| handshake: "clientID \<noteq> [] \<Longrightarrow> finishInitialize ref clientID (csClient s) = (c, r) \<Longrightarrow>
    client_step s (s\<lparr>csClient := c\<rparr>)"
| call: "registerCall requestID (csNext s) ref (csClient s) = (c, r) \<Longrightarrow>
    client_step s (s\<lparr>csClient := c, csNext := Suc (csNext s)\<rparr>)"
| discover: "registerDiscovery requestID (csNext s) ref (csClient s) = (c, r) \<Longrightarrow>
    client_step s (s\<lparr>csClient := c, csNext := Suc (csNext s)\<rparr>)"
| written: "connectionMatchesLocked ref (csClient s) \<Longrightarrow>
    client_step s (s\<lparr>csClient := markRequestWritten requestID (csClient s),
                     csWritten := csWritten s \<union> marked_waiters requestID (csClient s)\<rparr>)"
| give_up_call: "client_step s (s\<lparr>csClient := removeCall requestID w (csClient s)\<rparr>)"
| give_up_discovery: "client_step s (s\<lparr>csClient := removeDiscovery requestID w (csClient s)\<rparr>)"
| response: "client_step s (s\<lparr>csClient := dispatchResponse env (csClient s)\<rparr>)"
| discovery_response: "client_step s (s\<lparr>csClient := dispatchDiscoveryResponse dec env (csClient s)\<rparr>)"
| disconnect: "disconnectEpoch conn epoch (csClient s) = (c, r) \<Longrightarrow> client_step s (s\<lparr>csClient := c\<rparr>)"
| close: "client_step s (s\<lparr>csClient := Close (csClient s)\<rparr>)"
| reply: "enqueueDiscoveryReply (csClient s) = (c, r) \<Longrightarrow> client_step s (s\<lparr>csClient := c\<rparr>)"
| reply_done: "client_step s (s\<lparr>csClient := releaseReplySlot (csClient s)\<rparr>)"
| broadcast: "client_step s (s\<lparr>csClient := enqueueBroadcast thread b (csClient s)\<rparr>)"
| drain: "drainBroadcast (csClient s) = (c, r) \<Longrightarrow> client_step s (s\<lparr>csClient := c\<rparr>)"

definition client_init :: "desktop_client_system \<Rightarrow> bool" where
  "client_init s \<longleftrightarrow> s = \<lparr>csClient = newCodexDesktopClient, csDialing = False, csNext = 0, csWritten = {}\<rparr>"

text \<open>
  The waiting calls of one kind: every caller waits under one key, is known, has received
  nothing yet, and is marked as written exactly when its frame has gone out.
\<close>

definition waiting_ok ::
    "(string \<rightharpoonup> codexDesktopPendingCall) \<Rightarrow> nat \<Rightarrow> nat set \<Rightarrow> (nat \<Rightarrow> desktop_result list) \<Rightarrow> bool" where
  "waiting_ok m next written results \<longleftrightarrow>
     (\<forall>k l p q. m k = Some p \<longrightarrow> m l = Some q \<longrightarrow> pcWaiter p = pcWaiter q \<longrightarrow> k = l) \<and>
     (\<forall>k p. m k = Some p \<longrightarrow> pcWaiter p < next \<and> results (pcWaiter p) = [] \<and>
        (pcWritten p \<longleftrightarrow> pcWaiter p \<in> written))"

definition results_ok :: "nat set \<Rightarrow> (nat \<Rightarrow> desktop_result list) \<Rightarrow> bool" where
  "results_ok written results \<longleftrightarrow>
     (\<forall>w. length (results w) \<le> 1 \<and> (results w = [DeliveryUnknown] \<longrightarrow> w \<in> written) \<and>
        (results w = [Disconnected] \<longrightarrow> w \<notin> written))"

definition callers_ok ::
    "(string \<rightharpoonup> codexDesktopPendingCall) \<Rightarrow> (string \<rightharpoonup> codexDesktopPendingCall) \<Rightarrow> nat \<Rightarrow> nat set \<Rightarrow>
     (nat \<Rightarrow> desktop_result list) \<Rightarrow> bool" where
  "callers_ok calls discoveries next written results \<longleftrightarrow>
     waiting_ok calls next written results \<and> waiting_ok discoveries next written results \<and>
     (\<forall>k l p q. calls k = Some p \<longrightarrow> discoveries l = Some q \<longrightarrow> pcWaiter p \<noteq> pcWaiter q) \<and>
     results_ok written results \<and> (\<forall>w. next \<le> w \<longrightarrow> results w = [] \<and> w \<notin> written)"

definition connection_ok :: "codexDesktopClient \<Rightarrow> bool \<Rightarrow> bool" where
  "connection_ok c dialing \<longleftrightarrow>
     (dcConn c = None \<longrightarrow> dcPending c = Map.empty \<and> dcDiscovery c = Map.empty) \<and>
     (dialing \<longrightarrow> dcConnecting c \<and> dcConn c = None) \<and>
     (dcConn c \<noteq> None \<and> \<not> dcConnecting c \<longrightarrow> dcClientID c \<noteq> [])"

definition queues_ok :: "codexDesktopClient \<Rightarrow> bool" where
  "queues_ok c \<longleftrightarrow>
     length (dcBroadcasts c) \<le> codexDesktopBroadcastQueueLimit \<and> dcReplySlots c \<le> codexDesktopDiscoveryReplyLimit"

definition client_inv :: "desktop_client_system \<Rightarrow> bool" where
  "client_inv s \<longleftrightarrow>
     callers_ok (dcPending (csClient s)) (dcDiscovery (csClient s)) (csNext s) (csWritten s)
       (dcResults (csClient s)) \<and>
     connection_ok (csClient s) (csDialing s) \<and> queues_ok (csClient s)"

subsection \<open>Tables of callers\<close>

lemma callers_swap: "callers_ok P D n W R = callers_ok D P n W R"
  unfolding callers_ok_def by (intro iffI; elim conjE; intro conjI; (assumption | metis))

lemma callers_register:
  "callers_ok P D n W R \<Longrightarrow> P k = None \<Longrightarrow>
     callers_ok (P(k \<mapsto> \<lparr>pcWaiter = n, pcWritten = False\<rparr>)) D (Suc n) W R"
  unfolding callers_ok_def waiting_ok_def
  by (auto simp: less_Suc_eq split: if_splits)

lemma waiting_calls: "callers_ok P D n W R \<Longrightarrow> waiting_ok P n W R"
  by (simp add: callers_ok_def)

lemma callers_skip: "callers_ok P D n W R \<Longrightarrow> callers_ok P D (Suc n) W R"
  by (auto simp: callers_ok_def waiting_ok_def less_Suc_eq)

lemma callers_remove: "callers_ok P D n W R \<Longrightarrow> callers_ok (P(k := None)) D n W R"
  by (auto simp: callers_ok_def waiting_ok_def)

lemma callers_answer:
  assumes "callers_ok P D n W R" and "P k = Some p" and "r \<noteq> DeliveryUnknown" and "r \<noteq> Disconnected"
  shows "callers_ok (P(k := None)) D n W (R(pcWaiter p := R (pcWaiter p) @ [r]))"
proof -
  have p: "pcWaiter p < n" "R (pcWaiter p) = []" using assms(1,2) by (auto simp: callers_ok_def waiting_ok_def)
  have "waiting_ok (P(k := None)) n W (R(pcWaiter p := R (pcWaiter p) @ [r]))"
    using assms(1,2) unfolding callers_ok_def waiting_ok_def by auto
  moreover have "waiting_ok D n W (R(pcWaiter p := R (pcWaiter p) @ [r]))"
    using assms(1,2) unfolding callers_ok_def waiting_ok_def by auto metis
  moreover have "results_ok W (R(pcWaiter p := R (pcWaiter p) @ [r]))"
    using assms p by (auto simp: callers_ok_def results_ok_def)
  ultimately show ?thesis using assms(1) p unfolding callers_ok_def by auto
qed

lemma held_by_iff: "held_by w x \<longleftrightarrow> (\<exists>p. x = Some p \<and> pcWaiter p = w)"
  by (simp add: held_by_def split: option.split)

lemma written_someD:
  "(m(k := map_option written_call (m k))) l = Some p \<Longrightarrow> \<exists>q. m l = Some q \<and> pcWaiter p = pcWaiter q"
  by (auto simp: written_call_def split: if_splits)

lemma waiting_written:
  assumes "waiting_ok P n W R" and "\<And>l p q. P l = Some p \<Longrightarrow> D k = Some q \<Longrightarrow> pcWaiter p \<noteq> pcWaiter q"
  shows "waiting_ok (P(k := map_option written_call (P k))) n (W \<union> {w. held_by w (P k) \<or> held_by w (D k)}) R"
proof -
  let ?P = "P(k := map_option written_call (P k))"
  have e: "\<exists>q. P l = Some q \<and> pcWaiter p = pcWaiter q \<and> (pcWritten p \<longleftrightarrow> pcWritten q \<or> l = k)"
    if "?P l = Some p" for l p
    using that by (auto simp: written_call_def split: if_splits)
  have m: "held_by (pcWaiter q) (P k) \<or> held_by (pcWaiter q) (D k) \<longleftrightarrow> l = k" if "P l = Some q" for l q
    using that assms unfolding held_by_iff waiting_ok_def by metis
  show ?thesis
    unfolding waiting_ok_def
  proof (intro conjI allI impI)
    fix l1 l2 p1 p2
    assume "?P l1 = Some p1" "?P l2 = Some p2" "pcWaiter p1 = pcWaiter p2"
    then show "l1 = l2" using e assms(1) unfolding waiting_ok_def by metis
  next
    fix l p
    assume "?P l = Some p"
    then obtain q where q: "P l = Some q" "pcWaiter p = pcWaiter q" "pcWritten p \<longleftrightarrow> pcWritten q \<or> l = k"
      using e by blast
    then show "pcWaiter p < n" "R (pcWaiter p) = []" using assms(1) by (auto simp: waiting_ok_def)
    show "pcWritten p = (pcWaiter p \<in> W \<union> {w. held_by w (P k) \<or> held_by w (D k)})"
      using q m [OF q(1)] assms(1) by (auto simp: waiting_ok_def)
  qed
qed

lemma callers_written:
  assumes "callers_ok P D n W R"
  shows "callers_ok (P(k := map_option written_call (P k))) (D(k := map_option written_call (D k))) n
    (W \<union> {w. held_by w (P k) \<or> held_by w (D k)}) R"
proof -
  let ?M = "{w. held_by w (P k) \<or> held_by w (D k)}"
  have 1: "waiting_ok (P(k := map_option written_call (P k))) n (W \<union> ?M) R"
    using assms by (intro waiting_written) (auto simp: callers_ok_def)
  have 2: "waiting_ok (D(k := map_option written_call (D k))) n (W \<union> {w. held_by w (D k) \<or> held_by w (P k)}) R"
    using assms by (intro waiting_written) (auto simp: callers_ok_def, metis)
  have m: "w < n \<and> R w = []" if "w \<in> ?M" for w
    using that assms by (auto simp: callers_ok_def waiting_ok_def held_by_iff)
  have res: "results_ok (W \<union> ?M) R"
    unfolding results_ok_def
  proof
    fix w
    show "length (R w) \<le> 1 \<and> (R w = [DeliveryUnknown] \<longrightarrow> w \<in> W \<union> ?M) \<and> (R w = [Disconnected] \<longrightarrow> w \<notin> W \<union> ?M)"
      using m [of w] assms by (cases "w \<in> ?M") (simp_all add: callers_ok_def results_ok_def)
  qed
  have fresh: "\<forall>w. n \<le> w \<longrightarrow> R w = [] \<and> w \<notin> W \<union> ?M"
    using m assms unfolding callers_ok_def by (meson UnE leD)
  have apart: "\<forall>i l p q. (P(k := map_option written_call (P k))) i = Some p \<longrightarrow>
      (D(k := map_option written_call (D k))) l = Some q \<longrightarrow> pcWaiter p \<noteq> pcWaiter q"
    using assms written_someD unfolding callers_ok_def by metis
  have "{w. held_by w (D k) \<or> held_by w (P k)} = ?M" by auto
  with 2 have 2: "waiting_ok (D(k := map_option written_call (D k))) n (W \<union> ?M) R" by simp
  show ?thesis unfolding callers_ok_def by (intro conjI 1 2 res fresh apart)
qed

lemma failPending_cases:
  assumes "waiting_ok m n W R" and "m k = Some p"
  shows "failPending m R (pcWaiter p) = R (pcWaiter p) @ [codexDesktopPendingDisconnectError (pcWritten p)]"
proof -
  have "q = p" if "m l = Some q" "pcWaiter q = pcWaiter p" for l q
    using assms that unfolding waiting_ok_def by (metis option.inject)
  then have "\<And>q. q \<in> ran m \<and> pcWaiter q = pcWaiter p \<longleftrightarrow> q = p"
    using assms(2) by (auto simp: ran_def)
  then have "(\<exists>q \<in> ran m. pcWaiter q = pcWaiter p \<and> pcWritten q) \<longleftrightarrow> pcWritten p"
    "\<exists>q \<in> ran m. pcWaiter q = pcWaiter p" by metis+
  then show ?thesis by (simp add: failPending_def codexDesktopPendingDisconnectError_def)
qed

lemma failPending_other: "(\<And>k p. m k = Some p \<Longrightarrow> pcWaiter p \<noteq> w) \<Longrightarrow> failPending m R w = R w"
  by (auto simp: failPending_def ran_def)

lemma callers_fail_one:
  assumes "callers_ok P D n W R"
  shows "callers_ok Map.empty D n W (failPending P R)"
proof -
  have p: "waiting_ok P n W R" using assms by (simp add: callers_ok_def)
  have c: "failPending P R w = R w \<or> (\<exists>k q. P k = Some q \<and> pcWaiter q = w)" for w
    using failPending_other by metis
  have d: "waiting_ok D n W (failPending P R)"
    using assms failPending_other [of P _ R] by (auto simp: callers_ok_def waiting_ok_def)
  have r: "results_ok W (failPending P R)"
    unfolding results_ok_def
  proof
    fix w
    show "length (failPending P R w) \<le> 1 \<and> (failPending P R w = [DeliveryUnknown] \<longrightarrow> w \<in> W) \<and>
        (failPending P R w = [Disconnected] \<longrightarrow> w \<notin> W)"
    proof (cases "\<exists>k q. P k = Some q \<and> pcWaiter q = w")
      case True
      then obtain k q where q: "P k = Some q" "pcWaiter q = w" by blast
      then show ?thesis using failPending_cases [OF p q(1)] p
        by (auto simp: waiting_ok_def codexDesktopPendingDisconnectError_def)
    next
      case False
      then show ?thesis using c [of w] assms by (auto simp: callers_ok_def results_ok_def)
    qed
  qed
  have f: "\<forall>w. n \<le> w \<longrightarrow> failPending P R w = [] \<and> w \<notin> W"
  proof (intro allI impI)
    fix w
    assume "n \<le> w"
    then have "\<And>k q. P k = Some q \<Longrightarrow> pcWaiter q \<noteq> w" using p by (fastforce simp: waiting_ok_def)
    with \<open>n \<le> w\<close> assms show "failPending P R w = [] \<and> w \<notin> W"
      using failPending_other [of P w R] by (auto simp: callers_ok_def)
  qed
  show ?thesis using d r f unfolding callers_ok_def by (simp add: waiting_ok_def)
qed

lemma callers_fail:
  "callers_ok P D n W R \<Longrightarrow> callers_ok Map.empty Map.empty n W (failPending D (failPending P R))"
  using callers_fail_one callers_swap by metis

subsection \<open>The invariant\<close>

abbreviation callers_of :: "desktop_client_system \<Rightarrow> bool" where
  "callers_of s \<equiv> callers_ok (dcPending (csClient s)) (dcDiscovery (csClient s)) (csNext s) (csWritten s)
     (dcResults (csClient s))"

lemma client_invD:
  "client_inv s \<Longrightarrow> callers_of s" "client_inv s \<Longrightarrow> connection_ok (csClient s) (csDialing s)"
  "client_inv s \<Longrightarrow> queues_ok (csClient s)"
  by (simp_all add: client_inv_def)

lemma client_invI:
  "callers_of s \<Longrightarrow> connection_ok (csClient s) (csDialing s) \<Longrightarrow> queues_ok (csClient s) \<Longrightarrow> client_inv s"
  by (simp add: client_inv_def)

lemma markReady_fields [simp]:
  "dcConn (markReady st b c) = dcConn c" "dcConnecting (markReady st b c) = dcConnecting c"
  "dcClientID (markReady st b c) = dcClientID c" "dcEpoch (markReady st b c) = dcEpoch c"
  "dcClosed (markReady st b c) = dcClosed c"
  "dcPending (markReady st b c) = dcPending c" "dcDiscovery (markReady st b c) = dcDiscovery c"
  "dcResults (markReady st b c) = dcResults c" "dcBroadcasts (markReady st b c) = dcBroadcasts c"
  "dcReplySlots (markReady st b c) = dcReplySlots c"
  by (simp_all add: markReady_def split: option.split)

text \<open>A step that leaves callers and queues alone.\<close>

lemma client_inv_same:
  assumes "client_inv s" and "dcPending c = dcPending (csClient s)" and "dcDiscovery c = dcDiscovery (csClient s)"
    and "dcResults c = dcResults (csClient s)" and "queues_ok c" and "connection_ok c d"
  shows "client_inv (s\<lparr>csClient := c, csDialing := d\<rparr>)"
  using assms by (simp add: client_inv_def)

lemma queues_ok_cong:
  "dcBroadcasts c = dcBroadcasts c' \<Longrightarrow> dcReplySlots c = dcReplySlots c' \<Longrightarrow> queues_ok c = queues_ok c'"
  by (simp add: queues_ok_def)

lemma connection_matches_conn: "connectionMatchesLocked ref c \<Longrightarrow> dcConn c \<noteq> None"
  by (auto simp: connectionMatchesLocked_def)

lemma enqueue_broadcast_length:
  assumes "length (dcBroadcasts c) \<le> codexDesktopBroadcastQueueLimit"
  shows "length (dcBroadcasts (enqueueBroadcast thread b c)) \<le> codexDesktopBroadcastQueueLimit"
  using assms
  by (auto simp: enqueueBroadcast_def codexDesktopBroadcastQueueLimit_def Let_def split: option.split)

lemma callers_disconnect:
  assumes "client_inv s" and "disconnectEpoch conn epoch (csClient s) = (c, r)"
  shows "client_inv (s\<lparr>csClient := c\<rparr>)"
proof (cases "dcConn (csClient s) \<noteq> Some conn \<or> dcEpoch (csClient s) \<noteq> epoch")
  case True
  then have "c = csClient s" using assms(2) by (auto simp: disconnectEpoch_def)
  then show ?thesis using assms(1) by simp
next
  case False
  then have c: "dcConn c = None" "dcPending c = Map.empty" "dcDiscovery c = Map.empty"
    "dcBroadcasts c = dcBroadcasts (csClient s)" "dcReplySlots c = dcReplySlots (csClient s)"
    "dcResults c = failPending (dcDiscovery (csClient s))
      (failPending (dcPending (csClient s)) (dcResults (csClient s)))"
    using assms(2) by (auto simp: disconnectEpoch_def Let_def)
  show ?thesis
    using False c callers_fail [OF client_invD(1) [OF assms(1)]] client_invD(2,3) [OF assms(1)]
    by (intro client_invI) (auto simp: connection_ok_def queues_ok_def)
qed

lemma close_eq:
  "Close c = (if dcClosed c then c else case dcConn c of None \<Rightarrow> c\<lparr>dcClosed := True\<rparr>
     | Some n \<Rightarrow> fst (disconnectEpoch n (dcEpoch c) (c\<lparr>dcClosed := True\<rparr>)))"
  by (simp add: Close_def Let_def)

lemma client_inv_close: "client_inv s \<Longrightarrow> client_inv (s\<lparr>csClient := Close (csClient s)\<rparr>)"
proof -
  assume i: "client_inv s"
  let ?c = "(csClient s)\<lparr>dcClosed := True\<rparr>"
  have c: "client_inv (s\<lparr>csClient := ?c\<rparr>)"
    using i by (auto simp: client_inv_def connection_ok_def queues_ok_def)
  show ?thesis
  proof (cases "dcConn (csClient s)")
    case None
    then show ?thesis using i c by (simp add: close_eq)
  next
    case (Some n)
    obtain c' r where d: "disconnectEpoch n (dcEpoch (csClient s)) ?c = (c', r)" by (metis prod.collapse)
    have "client_inv (s\<lparr>csClient := c'\<rparr>)"
      using callers_disconnect [OF c, of n "dcEpoch (csClient s)" c' r] d by simp
    then show ?thesis using i d Some by (simp add: close_eq)
  qed
qed

lemma client_inv_step: "client_inv s \<Longrightarrow> client_step s t \<Longrightarrow> client_inv t"
proof -
  assume i: "client_inv s" and "client_step s t"
  note cal = client_invD(1) [OF i] and con = client_invD(2) [OF i] and que = client_invD(3) [OF i]
  show "client_inv t" using \<open>client_step s t\<close>
  proof cases
    case (begin_connect c)
    then show ?thesis using con que
      by (auto simp: beginConnect_def connection_ok_def isConnectedLocked_def queues_ok_def
          intro!: client_inv_same [OF i] split: if_splits)
  next
    case dial_failed
    then show ?thesis using con que
      by (auto simp: finishDialFailure_def connection_ok_def queues_ok_def intro!: client_inv_same [OF i])
  next
    case (install conn n c r)
    then show ?thesis using con que
      by (auto simp: installConnection_def connection_ok_def queues_ok_def
          intro!: client_inv_same [OF i] split: if_splits)
  next
    case (handshake clientID ref c r)
    then have "client_inv (s\<lparr>csClient := c, csDialing := csDialing s\<rparr>)" using con que
      by (intro client_inv_same [OF i])
        (auto simp: finishInitialize_def connection_ok_def queues_ok_def split: if_splits)
    then show ?thesis using handshake by simp
  next
    case (call requestID ref c r)
    then show ?thesis using con que cal connection_matches_conn [of ref "csClient s"]
      by (intro client_invI) (auto simp: registerCall_def connection_ok_def queues_ok_def
          intro: callers_register callers_skip split: if_splits)
  next
    case (discover requestID ref c r)
    then show ?thesis using con que cal connection_matches_conn [of ref "csClient s"]
      by (intro client_invI) (auto simp: registerDiscovery_def connection_ok_def queues_ok_def
          intro: callers_register [THEN callers_swap [THEN iffD1], OF callers_swap [THEN iffD1]] callers_skip
          split: if_splits)
  next
    case (written ref requestID)
    have "marked_waiters requestID (csClient s) =
        {w. held_by w (dcPending (csClient s) requestID) \<or> held_by w (dcDiscovery (csClient s) requestID)}"
      by (simp add: marked_waiters_def)
    then show ?thesis using con que callers_written [OF cal, of requestID] written(1)
      by (intro client_invI) (auto simp: written markRequestWritten_def connection_ok_def queues_ok_def)
  next
    case (give_up_call requestID w)
    then show ?thesis using con que cal
      by (intro client_invI) (auto simp: removeCall_def connection_ok_def queues_ok_def intro: callers_remove)
  next
    case (give_up_discovery requestID w)
    then show ?thesis using con que cal
      by (intro client_invI) (auto simp: removeDiscovery_def connection_ok_def queues_ok_def
          intro: callers_remove [THEN callers_swap [THEN iffD1], OF callers_swap [THEN iffD1]])
  next
    case (response env)
    show ?thesis
    proof (cases "dcPending (csClient s) (evRequestID env)")
      case None
      then show ?thesis using con que cal response
        by (intro client_invI) (auto simp: dispatchResponse_def Let_def connection_ok_def queues_ok_def fun_upd_idem)
    next
      case (Some p)
      let ?r = "if evResultType env = ''error'' then classifyCodexDesktopRemoteError (evError env) else CallOk (evResult env)"
      have "?r \<noteq> DeliveryUnknown" "?r \<noteq> Disconnected" by (auto simp: classifyCodexDesktopRemoteError_def)
      then show ?thesis using con que callers_answer [OF cal Some, of ?r] response Some
        by (intro client_invI) (auto simp: dispatchResponse_def send_result_def Let_def connection_ok_def queues_ok_def)
    qed
  next
    case (discovery_response dec env)
    show ?thesis
    proof (cases "dcDiscovery (csClient s) (evRequestID env)")
      case None
      then show ?thesis using con que cal discovery_response
        by (intro client_invI)
          (auto simp: dispatchDiscoveryResponse_def Let_def connection_ok_def queues_ok_def fun_upd_idem)
    next
      case (Some p)
      show ?thesis
        using con que callers_answer [OF cal [THEN callers_swap [THEN iffD1]] Some, of "CanHandle x" for x]
          discovery_response Some callers_swap
        by (intro client_invI)
          (auto simp: dispatchDiscoveryResponse_def send_result_def Let_def connection_ok_def queues_ok_def)
    qed
  next
    case (disconnect conn epoch c r)
    then show ?thesis using callers_disconnect [OF i] by simp
  next
    case close
    then show ?thesis using client_inv_close [OF i] by simp
  next
    case (reply c r)
    then show ?thesis using con que cal
      by (intro client_invI) (auto simp: enqueueDiscoveryReply_def connection_ok_def queues_ok_def split: if_splits)
  next
    case reply_done
    then show ?thesis using con que cal
      by (intro client_invI) (auto simp: releaseReplySlot_def connection_ok_def queues_ok_def)
  next
    case (broadcast thread b)
    then show ?thesis using con que cal enqueue_broadcast_length [of "csClient s" thread b]
      by (intro client_invI) (auto simp: enqueueBroadcast_def connection_ok_def queues_ok_def Let_def)
  next
    case (drain c r)
    then show ?thesis using con que cal
      by (intro client_invI) (auto simp: drainBroadcast_def connection_ok_def queues_ok_def Let_def split: list.splits)
  qed
qed

interpretation desktop_client: invariant_system client_init client_step client_inv
proof
  fix s
  assume "client_init s"
  then show "client_inv s"
    by (simp add: client_init_def client_inv_def newCodexDesktopClient_def callers_ok_def waiting_ok_def results_ok_def
        connection_ok_def queues_ok_def)
qed (rule client_inv_step)

subsection \<open>Every caller is answered once\<close>

lemma disconnect_answers:
  assumes "client_inv s" and "disconnectEpoch conn epoch (csClient s) = (c, True)"
    and "dcPending (csClient s) k = Some p \<or> dcDiscovery (csClient s) k = Some p"
  shows "dcResults c (pcWaiter p) = [codexDesktopPendingDisconnectError (pcWritten p)]"
proof -
  let ?P = "dcPending (csClient s)" and ?D = "dcDiscovery (csClient s)" and ?R = "dcResults (csClient s)"
  have c: "dcResults c = failPending ?D (failPending ?P ?R)"
    using assms(2) by (auto simp: disconnectEpoch_def Let_def split: if_splits)
  note cal = client_invD(1) [OF assms(1)]
  have one: "failPending D (failPending P R) (pcWaiter p) = [codexDesktopPendingDisconnectError (pcWritten p)]"
    if "callers_ok P D n W R" "D k = Some p" for P D n W R
  proof -
    have "failPending P R (pcWaiter p) = R (pcWaiter p)"
      by (rule failPending_other) (use that in \<open>auto simp: callers_ok_def\<close>)
    moreover have "R (pcWaiter p) = []" using that by (auto simp: callers_ok_def waiting_ok_def)
    moreover have w: "waiting_ok D n W (failPending P R)"
      using callers_fail_one [OF that(1)] by (simp add: callers_ok_def)
    have "failPending D (failPending P R) (pcWaiter p) =
        failPending P R (pcWaiter p) @ [codexDesktopPendingDisconnectError (pcWritten p)]"
      by (rule failPending_cases [OF w that(2)])
    ultimately show ?thesis by simp
  qed
  from assms(3) show ?thesis
  proof
    assume p: "?P k = Some p"
    have "failPending ?D (failPending ?P ?R) (pcWaiter p) = failPending ?P ?R (pcWaiter p)"
      by (rule failPending_other) (use cal p in \<open>fastforce simp: callers_ok_def\<close>)
    moreover have "failPending ?P ?R (pcWaiter p) = ?R (pcWaiter p) @ [codexDesktopPendingDisconnectError (pcWritten p)]"
      by (rule failPending_cases [OF waiting_calls [OF cal] p])
    ultimately show ?thesis using cal p by (auto simp: c callers_ok_def waiting_ok_def)
  next
    assume "?D k = Some p"
    with one [OF cal] show ?thesis by (simp add: c)
  qed
qed


definition demo_ref :: codexDesktopConnectionRef where
  "demo_ref = \<lparr>crConn = 4, crEpoch = 1, crConnecting = True, crState = Some 9\<rparr>"

text \<open>A connection is dialled and installed; its first call is written and then the connection breaks.\<close>

definition demo_installed :: codexDesktopClient where
  "demo_installed = fst (installConnection 4 9 (fst (beginConnect newCodexDesktopClient)))"

definition demo_called :: desktop_client_system where
  "demo_called =
     \<lparr>csClient = markRequestWritten ''q'' (fst (registerCall ''q'' 0 demo_ref demo_installed)),
      csDialing = False, csNext = 1, csWritten = {0}\<rparr>"

lemma demo_called_reach: "reach client_init client_step demo_called"
proof -
  let ?s0 = "\<lparr>csClient = newCodexDesktopClient, csDialing = False, csNext = 0, csWritten = {}\<rparr>"
  let ?s1 = "?s0\<lparr>csClient := fst (beginConnect newCodexDesktopClient), csDialing := True\<rparr>"
  let ?s2 = "?s1\<lparr>csClient := demo_installed, csDialing := False\<rparr>"
  let ?s3 = "?s2\<lparr>csClient := fst (registerCall ''q'' 0 demo_ref demo_installed), csNext := 1\<rparr>"
  have "client_step ?s0 ?s1"
    by (rule begin_connect) (simp add: beginConnect_def newCodexDesktopClient_def isConnectedLocked_def)
  moreover have "client_step ?s1 ?s2"
    using install [of ?s1 4 9 demo_installed "snd (installConnection 4 9 (csClient ?s1))"] by (simp add: demo_installed_def)
  moreover have "client_step ?s2 ?s3"
    using call [of "''q''" ?s2 demo_ref "csClient ?s3" "snd (registerCall ''q'' 0 demo_ref demo_installed)"] by simp
  moreover have "client_step ?s3 demo_called"
  proof -
    have "connectionMatchesLocked demo_ref (csClient ?s3)" "marked_waiters ''q'' (csClient ?s3) = {0}"
      by (auto simp: registerCall_def demo_installed_def installConnection_def beginConnect_def newCodexDesktopClient_def
          isConnectedLocked_def connectionMatchesLocked_def demo_ref_def marked_waiters_def held_by_def)
    then show ?thesis using written [of demo_ref ?s3 "''q''"] by (simp add: demo_called_def)
  qed
  ultimately show ?thesis by (meson client_init_def reach_init reach_step)
qed


end
