(* ===== verification/Task_View.thy ===== *)
theory Task_View
  imports Prelude
begin

section \<open>What a task shows\<close>

text \<open>
  The snapshot behind a task card and behind \<open>/ps\<close>: \<open>messaging/task_view_reducer.go\<close>, its
  timeline in \<open>task_progress_timeline.go\<close> and the progress events of \<open>agent/progress.go\<close>. The reducer
  refuses what is late (a sequence number that is not new) and everything behind the end of the task. The
  rendering of the card is text for users and is left out.
\<close>

subsection \<open>Progress events\<close>

text \<open>Kinds and states are strings in the source, so an unknown one is a value as well.\<close>

record ProgressEvent =
  peID :: string
  peKind :: string
  peState :: string
  peSummary :: string
  peDetail :: string
  pePath :: string
  peSequence :: uint64
  peText :: string

definition middle_dot :: string where
  "middle_dot = [CHR '' '', CHR 0xC2, CHR 0xB7, CHR '' '']"

definition DisplayText :: "ProgressEvent \<Rightarrow> string" where
  "DisplayText e =
     (let text = go_trim (peText e); summary = go_trim (peSummary e); detail = go_trim (peDetail e) in
      if text \<noteq> [] then text
      else if summary = [] then detail
      else if detail = [] \<or> detail = summary then summary
      else summary @ middle_dot @ detail)"

definition TextProgressEvent :: "string \<Rightarrow> ProgressEvent" where
  "TextProgressEvent text =
     \<lparr>peID = [], peKind = ''status'', peState = ''unknown'', peSummary = [], peDetail = [], pePath = [],
      peSequence = 0, peText = text\<rparr>"

definition isStructuredTaskProgress :: "ProgressEvent \<Rightarrow> bool" where
  "isStructuredTaskProgress e \<longleftrightarrow>
     peKind e \<noteq> ''message'' \<and>
     (0 < peSequence e \<or> go_trim (peID e) \<noteq> [] \<or> peKind e \<noteq> [] \<and> peKind e \<noteq> ''status'')"

subsection \<open>The timeline\<close>

definition same_progress_entry :: "ProgressEvent \<Rightarrow> ProgressEvent \<Rightarrow> bool" where
  "same_progress_entry incoming entry \<longleftrightarrow>
     go_trim (peID incoming) \<noteq> [] \<and> go_trim (peID entry) = go_trim (peID incoming) \<and> peKind entry = peKind incoming \<and>
       (peKind incoming \<noteq> ''plan'' \<or> go_trim (DisplayText entry) = go_trim (DisplayText incoming)) \<or>
     go_trim (peID incoming) = [] \<and> go_trim (peID entry) = [] \<and> peKind entry = peKind incoming \<and>
       go_trim (DisplayText entry) = go_trim (DisplayText incoming)"

text \<open>The loops of the source run from the last entry backwards.\<close>

fun last_match :: "('a \<Rightarrow> bool) \<Rightarrow> 'a list \<Rightarrow> nat option" where
  "last_match P [] = None"
| "last_match P (x # xs) =
     (case last_match P xs of Some i \<Rightarrow> Some (Suc i) | None \<Rightarrow> if P x then Some 0 else None)"

definition matchingTaskProgressEntry :: "ProgressEvent list \<Rightarrow> ProgressEvent \<Rightarrow> nat option" where
  "matchingTaskProgressEntry entries incoming = last_match (same_progress_entry incoming) entries"

definition completePreviousRunningPlan :: "ProgressEvent list \<Rightarrow> ProgressEvent list" where
  "completePreviousRunningPlan entries =
     (case last_match (\<lambda>e. peKind e = ''plan'') entries of
        None \<Rightarrow> entries
      | Some i \<Rightarrow>
          if peState (entries ! i) \<in> {''running'', ''pending'', ''unknown''}
          then entries[i := (entries ! i)\<lparr>peState := ''completed''\<rparr>] else entries)"

definition keep_last :: "int \<Rightarrow> 'a list \<Rightarrow> 'a list" where
  "keep_last limit xs = (if 0 < limit \<and> limit < int (length xs) then drop (length xs - nat limit) xs else xs)"

definition appendTaskProgressTimeline ::
    "ProgressEvent list \<Rightarrow> ProgressEvent \<Rightarrow> int \<Rightarrow> ProgressEvent list" where
  "appendTaskProgressTimeline current incoming limit =
     (if peKind incoming = ''message'' then current
      else (case matchingTaskProgressEntry current incoming of
          Some i \<Rightarrow> current[i := incoming]
        | None \<Rightarrow>
            let next = (if peKind incoming = ''plan'' then completePreviousRunningPlan current else current)
            in keep_last limit (next @ [incoming])))"

definition effective_entry :: "ProgressEvent \<Rightarrow> bool" where
  "effective_entry e \<longleftrightarrow>
     go_trim (DisplayText e) \<noteq> [] \<and>
     (peKind e \<in> {''commentary'', ''plan'', ''file'', ''tool''} \<or> peKind e = ''status'' \<and> peState e = ''failed'')"

subsection \<open>The reducer\<close>

record taskViewState =
  tvLastProgress :: string
  tvLastProgressAt :: instant
  tvLastProgressSourceSeq :: uint64
  tvCurrentExplanation :: string
  tvCurrentExplanationAt :: instant
  tvProgressTimeline :: "ProgressEvent list"
  tvProgressTimelineLimit :: "int option"
  tvProgressTimelineEnabled :: bool
  tvRevision :: uint64
  tvClosed :: bool
  tvTerminalState :: string
  tvTerminalAt :: instant

definition empty_view :: taskViewState where
  "empty_view =
     \<lparr>tvLastProgress = [], tvLastProgressAt = 0, tvLastProgressSourceSeq = 0, tvCurrentExplanation = [],
      tvCurrentExplanationAt = 0, tvProgressTimeline = [], tvProgressTimelineLimit = None,
      tvProgressTimelineEnabled = False, tvRevision = 0, tvClosed = False, tvTerminalState = [], tvTerminalAt = 0\<rparr>"

definition defaultTaskProgressTimelineLimit :: int where
  "defaultTaskProgressTimelineLimit = 0"

datatype taskViewEvent =
    TaskViewProgress instant ProgressEvent bool
  | TaskViewClosed
  | TaskViewTerminal instant string

definition view_limit :: "taskViewState \<Rightarrow> int" where
  "view_limit v = (case tvProgressTimelineLimit v of None \<Rightarrow> defaultTaskProgressTimelineLimit | Some l \<Rightarrow> l)"

definition late_progress :: "taskViewState \<Rightarrow> ProgressEvent \<Rightarrow> bool \<Rightarrow> bool" where
  "late_progress v e allowLocal \<longleftrightarrow>
     peSequence e = 0 \<and> 0 < tvLastProgressSourceSeq v \<and> \<not> allowLocal \<or>
     0 < peSequence e \<and> 0 < tvLastProgressSourceSeq v \<and> peSequence e \<le> tvLastProgressSourceSeq v"

definition show_progress :: "instant \<Rightarrow> ProgressEvent \<Rightarrow> taskViewState \<Rightarrow> taskViewState" where
  "show_progress at e v =
     (let display = go_trim (DisplayText e); event = e\<lparr>peText := display\<rparr> in
      v\<lparr>tvRevision := tvRevision v + 1, tvLastProgress := display, tvLastProgressAt := at,
        tvProgressTimeline := appendTaskProgressTimeline (tvProgressTimeline v) event (view_limit v),
        tvProgressTimelineEnabled := (tvProgressTimelineEnabled v \<or> isStructuredTaskProgress event)\<rparr>)"

fun reduceTaskView :: "taskViewState \<Rightarrow> taskViewEvent \<Rightarrow> taskViewState \<times> bool" where
  "reduceTaskView current (TaskViewProgress at e allowLocal) =
     (if go_trim (DisplayText e) = [] \<or> tvClosed current then (current, False)
      else if late_progress current e allowLocal then (current, False)
      else
        let next = (if 0 < peSequence e then current\<lparr>tvLastProgressSourceSeq := peSequence e\<rparr> else current) in
        if peKind e = ''message'' then
          if peSequence e = 0 then (current, False)
          else (next\<lparr>tvCurrentExplanation := go_trim (DisplayText e), tvCurrentExplanationAt := at,
                     tvRevision := tvRevision next + 1\<rparr>, True)
        else (show_progress at e next, True))"
| "reduceTaskView current TaskViewClosed =
     (if tvClosed current then (current, False) else (current\<lparr>tvClosed := True\<rparr>, True))"
| "reduceTaskView current (TaskViewTerminal at st) =
     (if tvClosed current \<and> go_trim (tvTerminalState current) \<noteq> [] then (current, False)
      else
        let next = current\<lparr>tvClosed := True, tvTerminalState := go_trim st, tvTerminalAt := at\<rparr> in
        (next, tvClosed next \<noteq> tvClosed current \<or> tvTerminalState next \<noteq> tvTerminalState current \<or>
               tvTerminalAt next \<noteq> tvTerminalAt current))"

definition setProgressTimelineLimit :: "int \<Rightarrow> taskViewState \<Rightarrow> taskViewState" where
  "setProgressTimelineLimit limit v =
     v\<lparr>tvProgressTimelineLimit := Some limit, tvProgressTimeline := keep_last limit (tvProgressTimeline v)\<rparr>"

subsection \<open>Lemmas\<close>

lemma keep_last_length: "0 < limit \<Longrightarrow> int (length (keep_last limit xs)) \<le> limit"
  by (auto simp: keep_last_def)

lemma complete_plan_length [simp]: "length (completePreviousRunningPlan xs) = length xs"
  by (auto simp: completePreviousRunningPlan_def Let_def split: option.splits)

lemma append_timeline_length:
  "0 < limit \<Longrightarrow> int (length xs) \<le> limit \<Longrightarrow> int (length (appendTaskProgressTimeline xs e limit)) \<le> limit"
  by (auto simp: appendTaskProgressTimeline_def Let_def keep_last_length split: option.splits)

lemma last_match_Some: "last_match P xs = Some i \<Longrightarrow> i < length xs \<and> P (xs ! i)"
  by (induction xs arbitrary: i) (auto split: option.splits if_splits)

text \<open>What an accepted event, a refused event and the end of a task do to the snapshot.\<close>

lemma reduce_refused: "reduceTaskView v ev = (w, False) \<Longrightarrow> w = v"
  by (cases ev) (auto simp: Let_def split: if_splits)

lemma show_progress_fields [simp]:
  "tvLastProgressSourceSeq (show_progress at e v) = tvLastProgressSourceSeq v"
  "tvClosed (show_progress at e v) = tvClosed v"
  "tvTerminalState (show_progress at e v) = tvTerminalState v"
  "tvTerminalAt (show_progress at e v) = tvTerminalAt v"
  "tvProgressTimelineLimit (show_progress at e v) = tvProgressTimelineLimit v"
  "tvRevision (show_progress at e v) = tvRevision v + 1"
  "tvProgressTimeline (show_progress at e v) =
     appendTaskProgressTimeline (tvProgressTimeline v) (e\<lparr>peText := go_trim (DisplayText e)\<rparr>) (view_limit v)"
  by (simp_all add: show_progress_def Let_def)

definition trimmed :: "string \<Rightarrow> bool" where
  "trimmed s \<longleftrightarrow> go_trim s = s"

lemma trimmed_trim [simp]: "trimmed (go_trim s)"
  by (simp add: trimmed_def go_trim_idem)

lemma trimmed_Nil [simp]: "trimmed []"
  by (simp add: trimmed_def)

definition view_ok :: "taskViewState \<Rightarrow> bool" where
  "view_ok v \<longleftrightarrow>
     (0 < view_limit v \<longrightarrow> int (length (tvProgressTimeline v)) \<le> view_limit v) \<and>
     (tvTerminalState v \<noteq> [] \<longrightarrow> tvClosed v) \<and> trimmed (tvTerminalState v)"

lemma view_ok_init: "view_ok (setProgressTimelineLimit limit empty_view)"
  by (simp add: view_ok_def setProgressTimelineLimit_def empty_view_def keep_last_def)

lemma view_ok_step:
  assumes "view_ok v"
  shows "view_ok (fst (reduceTaskView v ev))"
proof (cases ev)
  case (TaskViewProgress at e allowLocal)
  have "view_ok (show_progress at e w)" if "view_ok w" for w
    using that append_timeline_length [of "view_limit w"] by (simp add: view_ok_def view_limit_def)
  moreover have "view_ok (v\<lparr>tvLastProgressSourceSeq := q\<rparr>)" "view_ok (w\<lparr>tvCurrentExplanation := x, tvCurrentExplanationAt := a, tvRevision := n\<rparr>) = view_ok w"
    for q x a n w using assms by (simp_all add: view_ok_def view_limit_def)
  ultimately show ?thesis using TaskViewProgress assms by (simp add: Let_def)
next
  case TaskViewClosed
  then show ?thesis using assms by (simp add: view_ok_def view_limit_def)
next
  case (TaskViewTerminal at st)
  then show ?thesis using assms by (simp add: view_ok_def view_limit_def Let_def)
qed

definition view_run :: "taskViewState \<Rightarrow> taskViewEvent list \<Rightarrow> taskViewState" where
  "view_run = foldl (\<lambda>v ev. fst (reduceTaskView v ev))"

lemma view_run_simps [simp]:
  "view_run v [] = v"
  "view_run v (ev # evs) = view_run (fst (reduceTaskView v ev)) evs"
  "view_run v (evs @ [ev]) = fst (reduceTaskView (view_run v evs) ev)"
  by (simp_all add: view_run_def)

lemma view_run_ok: "view_ok v \<Longrightarrow> view_ok (view_run v evs)"
  by (induction evs arbitrary: v) (simp_all add: view_ok_step)

text \<open>The watermark never falls, and an ended task stays as it ended.\<close>

definition view_le :: "taskViewState \<Rightarrow> taskViewState \<Rightarrow> bool" where
  "view_le v w \<longleftrightarrow>
     tvLastProgressSourceSeq v \<le> tvLastProgressSourceSeq w \<and>
     (tvClosed v \<longrightarrow> tvClosed w \<and> tvProgressTimeline w = tvProgressTimeline v \<and> tvLastProgress w = tvLastProgress v \<and>
        tvCurrentExplanation w = tvCurrentExplanation v \<and> tvRevision w = tvRevision v) \<and>
     (tvTerminalState v \<noteq> [] \<longrightarrow> tvTerminalState w = tvTerminalState v \<and> tvTerminalAt w = tvTerminalAt v)"

lemma view_le_step:
  assumes "view_ok v"
  shows "view_le v (fst (reduceTaskView v ev))"
proof (cases ev)
  case (TaskViewProgress at e allowLocal)
  then show ?thesis by (auto simp: view_le_def late_progress_def Let_def)
next
  case TaskViewClosed
  then show ?thesis by (simp add: view_le_def)
next
  case (TaskViewTerminal at st)
  have "tvTerminalState v \<noteq> [] \<Longrightarrow> tvClosed v \<and> go_trim (tvTerminalState v) \<noteq> []"
    using assms by (simp add: view_ok_def trimmed_def)
  with TaskViewTerminal show ?thesis by (simp add: view_le_def Let_def)
qed

lemma view_le_trans: "view_le u v \<Longrightarrow> view_le v w \<Longrightarrow> view_le u w"
  by (auto simp: view_le_def)

lemma view_le_run: "view_ok v \<Longrightarrow> view_le v (view_run v evs)"
proof (induction evs arbitrary: v)
  case (Cons ev evs)
  from view_le_trans [OF view_le_step [OF Cons.prems] Cons.IH [OF view_ok_step [OF Cons.prems]]] show ?case by simp
qed (simp add: view_le_def)

end
