(* ===== verification/Task_State.thy ===== *)
theory Task_State
  imports Task_View Go_Text Owner_Registry "HOL-Library.AList"
begin

section \<open>Active tasks of the message handler\<close>

text \<open>
  The table of running tasks: \<open>messaging/task_service.go\<close>, \<open>task_state.go\<close>, \<open>task_admission.go\<close>,
  \<open>codex_task_state.go\<close>, \<open>task_stop_transition.go\<close>, \<open>codex_frontend_detach.go\<close>, \<open>shutdown.go\<close>, the
  reservations of \<open>codex_external_task_reservation.go\<close> and the lease of \<open>agent_interactions.go\<close>. A key (the
  execution channel of a conversation) holds one task; one further message may wait on it.

  A task is an object that several goroutines hold, so a pointer is an index into the list of
  all tasks ever made, and a table maps keys to pointers. Every function below is one critical
  section under \<open>h.tasks.mu\<close> and \<open>task.mu\<close>. The continuation of a waiting message is a closure; it is
  modelled by the number of its submission. The trace, the delivery guards and the texts of a
  task are left out; a fresh UUID is an argument, and so is whether the progress card of a task, which is not part of this component, lets a
  frontend go.
\<close>

subsection \<open>Interactions of a task\<close>

text \<open>The signal is closed when the lease is detached; it is made when somebody first waits for it.\<close>

record agentInteractionLease =
  alDetached :: bool
  alInFlight :: nat
  alSignal :: "nat option"

definition idle_lease :: agentInteractionLease where
  "idle_lease = \<lparr>alDetached = False, alInFlight = 0, alSignal = None\<rparr>"

definition lease_begin :: "agentInteractionLease \<Rightarrow> bool \<times> agentInteractionLease" where
  "lease_begin l = (if alDetached l then (False, l) else (True, l\<lparr>alInFlight := alInFlight l + 1\<rparr>))"

definition lease_end :: "agentInteractionLease \<Rightarrow> agentInteractionLease" where
  "lease_end l = (if 0 < alInFlight l then l\<lparr>alInFlight := alInFlight l - 1\<rparr> else l)"

definition claimDetach :: "agentInteractionLease option \<Rightarrow> bool" where
  "claimDetach lease = (case lease of None \<Rightarrow> True | Some l \<Rightarrow> alDetached l \<or> alInFlight l = 0)"

definition detachLocked :: "agentInteractionLease \<Rightarrow> agentInteractionLease" where
  "detachLocked l =
     (if alDetached l then l else l\<lparr>alDetached := True, alSignal := map_option Suc (alSignal l)\<rparr>)"

definition forceDetach :: "agentInteractionLease option \<Rightarrow> agentInteractionLease option" where
  "forceDetach lease = map_option detachLocked lease"

definition lease_done :: "agentInteractionLease \<Rightarrow> agentInteractionLease" where
  "lease_done l =
     (if alSignal l = None then l\<lparr>alSignal := Some (if alDetached l then 1 else 0)\<rparr> else l)"

subsection \<open>Tasks\<close>

datatype codexTaskPhase = TaskReserved | TaskRunning | TaskStopping | TaskDisconnected | TaskTerminal

datatype externalCodexTaskReservationStatus = ReservationReserved | ReservationActivated | ReservationCanceled

record externalCodexTaskReservationControl =
  ecStatus :: externalCodexTaskReservationStatus
  ecWatcherDone :: bool

record pendingAgentTask =
  pgMessage :: string
  pgRun :: "nat option"
  pgControlRevision :: string

definition no_pending :: pendingAgentTask where
  "no_pending = \<lparr>pgMessage = [], pgRun = None, pgControlRevision = []\<rparr>"

record activeAgentTask =
  atDone :: nat
  atCanceled :: bool
  atDetached :: bool
  atStopRequested :: bool
  atPending :: pendingAgentTask
  atPendingSteering :: bool
  atOwner :: string
  atRouteUserID :: string
  atAgentName :: string
  atMessageFingerprint :: string
  atView :: taskViewState
  atRuntimeOwner :: codexRuntimeHolder
  atOwnerRevision :: uint64
  atPhase :: codexTaskPhase
  atCodexThreadID :: string
  atCodexTurnID :: string
  atReservation :: "externalCodexTaskReservationControl option"
  atInProcessCodexLifecycle :: bool
  atPreserveRecoveryOnDrain :: bool
  atInteractionLease :: "agentInteractionLease option"
  atObserver :: bool
  atObserverDetached :: bool
  atTaskID :: string
  atProgress :: bool

record activeTaskMeta =
  mtOwner :: string
  mtRouteUserID :: string
  mtAgentName :: string
  mtMessage :: string
  mtRuntimeOwner :: codexRuntimeHolder
  mtOwnerRevision :: uint64
  mtCodexThreadID :: string
  mtCodexTurnID :: string
  mtInProcessCodexLifecycle :: bool
  mtInteractionLease :: "agentInteractionLease option"
  mtObserver :: bool

record taskService =
  skActive :: "(string \<times> nat) list"
  skTasks :: "activeAgentTask list"
  skDraining :: bool

definition task_at :: "taskService \<Rightarrow> string \<Rightarrow> nat option" where
  "task_at s key = map_of (skActive s) key"

definition set_task :: "nat \<Rightarrow> activeAgentTask \<Rightarrow> taskService \<Rightarrow> taskService" where
  "set_task t x s = s\<lparr>skTasks := (skTasks s)[t := x]\<rparr>"

definition drop_key :: "string \<Rightarrow> taskService \<Rightarrow> taskService" where
  "drop_key key s = s\<lparr>skActive := AList.delete key (skActive s)\<rparr>"

text \<open>\<open>normalizedTextFingerprint\<close> hashes the words of a text; the digest is a parameter.\<close>

definition normalizedTextFingerprint :: "(string \<Rightarrow> string) \<Rightarrow> string \<Rightarrow> string" where
  "normalizedTextFingerprint sha text =
     (let normalized = go_join '' '' (go_fields text) in if normalized = [] then [] else sha normalized)"

definition ensurePendingTaskControlRevision :: "string \<Rightarrow> pendingAgentTask \<Rightarrow> pendingAgentTask" where
  "ensurePendingTaskControlRevision uuid p =
     (if go_trim (pgMessage p) \<noteq> [] \<and> go_trim (pgControlRevision p) = []
      then p\<lparr>pgControlRevision := uuid\<rparr> else p)"

definition newActiveAgentTask :: "(string \<Rightarrow> string) \<Rightarrow> string \<Rightarrow> activeTaskMeta \<Rightarrow> activeAgentTask" where
  "newActiveAgentTask sha uuid m =
     \<lparr>atDone = 0, atCanceled = False, atDetached = False, atStopRequested = False, atPending = no_pending,
      atPendingSteering = False, atOwner = go_trim (mtOwner m), atRouteUserID = go_trim (mtRouteUserID m),
      atAgentName = go_trim (mtAgentName m), atMessageFingerprint = normalizedTextFingerprint sha (mtMessage m),
      atView = empty_view, atRuntimeOwner = mtRuntimeOwner m, atOwnerRevision = mtOwnerRevision m,
      atPhase = TaskRunning, atCodexThreadID = go_trim (mtCodexThreadID m),
      atCodexTurnID = go_trim (mtCodexTurnID m), atReservation = None,
      atInProcessCodexLifecycle = mtInProcessCodexLifecycle m, atPreserveRecoveryOnDrain = False,
      atInteractionLease = mtInteractionLease m, atObserver = mtObserver m, atObserverDetached = False,
      atTaskID = uuid, atProgress = False\<rparr>"

subsection \<open>Phases\<close>

definition claimTerminalLocked :: "activeAgentTask \<Rightarrow> bool \<times> activeAgentTask" where
  "claimTerminalLocked x =
     (if atPhase x = TaskTerminal then (False, x)
      else (True, x\<lparr>atStopRequested := False, atPhase := TaskTerminal\<rparr>))"

definition isExternalCodexLocked :: "activeAgentTask \<Rightarrow> bool" where
  "isExternalCodexLocked x \<longleftrightarrow> atCodexThreadID x \<noteq> [] \<and> atCodexTurnID x \<noteq> []"

definition canControlExternalCodexLocked :: "activeAgentTask \<Rightarrow> bool" where
  "canControlExternalCodexLocked x \<longleftrightarrow>
     isExternalCodexLocked x \<and> atPhase x = TaskRunning \<and> atRuntimeOwner x = codexRuntimeWeClaw"

definition canResolveExternalCodexControlLocked :: "activeAgentTask \<Rightarrow> bool" where
  "canResolveExternalCodexControlLocked x \<longleftrightarrow>
     canControlExternalCodexLocked x \<or>
     atInProcessCodexLifecycle x \<and> isExternalCodexLocked x \<and> atPhase x = TaskRunning \<and>
       atRuntimeOwner x = codexRuntimeUnknown"

definition markCodexDisconnected :: "activeAgentTask \<Rightarrow> activeAgentTask" where
  "markCodexDisconnected x =
     (if atPhase x \<in> {TaskTerminal, TaskStopping} then x
      else x\<lparr>atPhase := TaskDisconnected, atRuntimeOwner := codexRuntimeUnknown\<rparr>)"

definition markCodexObservationInterrupted :: "string \<Rightarrow> string \<Rightarrow> activeAgentTask \<Rightarrow> activeAgentTask" where
  "markCodexObservationInterrupted thread turn x =
     (if atPhase x \<in> {TaskTerminal, TaskStopping} then x
      else x\<lparr>atPhase := TaskDisconnected, atRuntimeOwner := codexRuntimeUnknown,
             atCodexThreadID := thread, atCodexTurnID := turn\<rparr>)"

definition replaceCodexThread :: "string \<Rightarrow> string \<Rightarrow> activeAgentTask \<Rightarrow> activeAgentTask" where
  "replaceCodexThread previous current x =
     (if atCodexThreadID x = previous then x\<lparr>atCodexThreadID := current\<rparr> else x)"

definition markCodexRunning :: "codexRuntimeHolder \<Rightarrow> uint64 \<Rightarrow> activeAgentTask \<Rightarrow> activeAgentTask" where
  "markCodexRunning runtime revision x =
     (if atPhase x \<notin> {TaskTerminal, TaskStopping}
      then x\<lparr>atPhase := TaskRunning, atRuntimeOwner := runtime, atOwnerRevision := revision\<rparr> else x)"

definition refreshExternalCodexTurn ::
    "codexRuntimeHolder \<Rightarrow> uint64 \<Rightarrow> string \<Rightarrow> activeAgentTask \<Rightarrow> activeAgentTask" where
  "refreshExternalCodexTurn runtime revision turn x =
     (if atPhase x \<noteq> TaskRunning then x
      else x\<lparr>atRuntimeOwner := runtime, atOwnerRevision := revision, atCodexTurnID := turn\<rparr>)"

subsection \<open>Stopping\<close>

datatype taskStopStatus = StopAccepted | StopDenied | StopTerminal | StopAlreadyRequested
datatype taskStopMode = StopLocal | StopRemote

text \<open>The last component says whether the caller gets the function that cancels the task.\<close>

definition beginStopRequest ::
    "string \<Rightarrow> bool \<Rightarrow> taskStopMode \<Rightarrow> activeAgentTask \<Rightarrow> taskStopStatus \<times> activeAgentTask \<times> bool" where
  "beginStopRequest actor detach mode x =
     (if atOwner x \<noteq> actor then (StopDenied, x, False)
      else if atPhase x = TaskTerminal then (StopTerminal, x, False)
      else if atStopRequested x \<or> atPhase x = TaskStopping then (StopAlreadyRequested, x, False)
      else if mode = StopRemote then (StopAccepted, x\<lparr>atStopRequested := True\<rparr>, False)
      else (StopAccepted, x\<lparr>atDetached := detach, atPhase := TaskStopping\<rparr>, True))"

definition commitRemoteStop :: "activeAgentTask \<Rightarrow> taskStopStatus \<times> activeAgentTask" where
  "commitRemoteStop x =
     (let y = x\<lparr>atStopRequested := False\<rparr> in
      if atPhase y = TaskTerminal then (StopTerminal, y)
      else if atPhase y = TaskStopping then (StopAlreadyRequested, y)
      else (StopAccepted, y\<lparr>atPhase := TaskStopping\<rparr>))"

definition rollbackRemoteStop :: "activeAgentTask \<Rightarrow> activeAgentTask" where
  "rollbackRemoteStop x = x\<lparr>atStopRequested := False\<rparr>"

subsection \<open>Admission\<close>

datatype activeTaskAdmissionStatus =
    TaskStarted | TaskQueued | TaskMissing | TaskPendingOccupied | TaskForeignWriter | TaskDraining

definition queuePendingOnTask ::
    "string \<Rightarrow> pendingAgentTask \<Rightarrow> activeAgentTask \<Rightarrow> activeTaskAdmissionStatus \<times> activeAgentTask" where
  "queuePendingOnTask uuid p x =
     (if pgMessage (atPending x) \<noteq> [] \<or> atPendingSteering x then (TaskPendingOccupied, x)
      else (TaskQueued, x\<lparr>atPending := ensurePendingTaskControlRevision uuid p\<rparr>))"

definition add_task :: "string \<Rightarrow> activeAgentTask \<Rightarrow> taskService \<Rightarrow> nat \<times> taskService" where
  "add_task key x s =
     (let t = length (skTasks s) in
      (t, s\<lparr>skTasks := skTasks s @ [x], skActive := AList.update key t (skActive s)\<rparr>))"

text \<open>The task is the one that was started or the one that runs; the last component says whether it was started.\<close>

definition beginActiveTask ::
    "string \<Rightarrow> activeAgentTask \<Rightarrow> taskService \<Rightarrow> taskService \<times> nat option \<times> bool" where
  "beginActiveTask key x s =
     (if skDraining s then (s, None, False)
      else (case task_at s key of
          Some t \<Rightarrow> (s, Some t, False)
        | None \<Rightarrow> (let (t, s') = add_task key x s in (s', Some t, True))))"

definition queue_on :: "string \<Rightarrow> pendingAgentTask \<Rightarrow> nat \<Rightarrow> taskService \<Rightarrow> activeTaskAdmissionStatus \<times> taskService" where
  "queue_on uuid p t s =
     (let (st, y) = queuePendingOnTask uuid p (skTasks s ! t) in (st, set_task t y s))"

definition beginOrQueueActiveTask ::
    "string \<Rightarrow> string \<Rightarrow> activeAgentTask \<Rightarrow> pendingAgentTask \<Rightarrow> taskService \<Rightarrow>
     activeTaskAdmissionStatus \<times> nat option \<times> taskService" where
  "beginOrQueueActiveTask uuid key x p s =
     (if skDraining s then (TaskDraining, None, s)
      else (case task_at s key of
          Some t \<Rightarrow> (let (st, s') = queue_on uuid p t s in (st, Some t, s'))
        | None \<Rightarrow> (let (t, s') = add_task key x s in (TaskStarted, Some t, s'))))"

definition beginOrQueueClaudeTask ::
    "string \<Rightarrow> string \<Rightarrow> string \<Rightarrow> activeAgentTask \<Rightarrow> pendingAgentTask \<Rightarrow> taskService \<Rightarrow>
     activeTaskAdmissionStatus \<times> nat option \<times> taskService" where
  "beginOrQueueClaudeTask uuid key route x p s =
     (if skDraining s then (TaskDraining, None, s)
      else (case task_at s key of
          Some t \<Rightarrow>
            if atRouteUserID (skTasks s ! t) \<noteq> go_trim route then (TaskForeignWriter, Some t, s)
            else (let (st, s') = queue_on uuid p t s in (st, Some t, s'))
        | None \<Rightarrow> (let (t, s') = add_task key x s in (TaskStarted, Some t, s'))))"

definition queuePendingActiveTask ::
    "string \<Rightarrow> string \<Rightarrow> pendingAgentTask \<Rightarrow> taskService \<Rightarrow> activeTaskAdmissionStatus \<times> taskService" where
  "queuePendingActiveTask uuid key p s =
     (if skDraining s then (TaskDraining, s)
      else (case task_at s key of None \<Rightarrow> (TaskMissing, s) | Some t \<Rightarrow> queue_on uuid p t s))"

text \<open>An older entry to the waiting slot, which does not look at a guide in flight; nothing calls it any more.\<close>

definition storePendingGuide :: "string \<Rightarrow> string \<Rightarrow> pendingAgentTask \<Rightarrow> taskService \<Rightarrow> bool \<times> taskService" where
  "storePendingGuide uuid key p s =
     (case task_at s key of
        None \<Rightarrow> (False, s)
      | Some t \<Rightarrow>
          let x = skTasks s ! t in
          if pgMessage (atPending x) \<noteq> [] then (False, s)
          else (True, set_task t (x\<lparr>atPending := ensurePendingTaskControlRevision uuid p\<rparr>) s))"

end
