(* ===== verification/Task_Ops.thy ===== *)
theory Task_Ops
  imports Task_State
begin

section \<open>Guides, ends and drains of tasks\<close>

text \<open>
  The operations of \<open>messaging/task_state.go\<close>, \<open>pending_task_controls.go\<close>,
  \<open>codex_frontend_detach.go\<close>, \<open>shutdown.go\<close> and \<open>codex_external_task_reservation.go\<close> that take a
  waiting message away, end a task, or stop the handler.
\<close>

subsection \<open>The waiting message\<close>

record pendingTaskControlExpectation =
  pxTaskID :: string
  pxPendingRevision :: string
  pxPendingFingerprint :: string

definition expectation_empty :: "pendingTaskControlExpectation \<Rightarrow> bool" where
  "expectation_empty e \<longleftrightarrow>
     go_trim (pxTaskID e) = [] \<and> go_trim (pxPendingRevision e) = [] \<and> go_trim (pxPendingFingerprint e) = []"

definition matchesPendingTaskControlLocked ::
    "(string \<Rightarrow> string) \<Rightarrow> pendingTaskControlExpectation \<Rightarrow> activeAgentTask \<Rightarrow> bool" where
  "matchesPendingTaskControlLocked sha e x \<longleftrightarrow>
     expectation_empty e \<or>
     go_trim (atTaskID x) = go_trim (pxTaskID e) \<and> pgMessage (atPending x) \<noteq> [] \<and>
       go_trim (pgControlRevision (atPending x)) = go_trim (pxPendingRevision e) \<and>
       normalizedTextFingerprint sha (pgMessage (atPending x)) = go_trim (pxPendingFingerprint e)"

text \<open>
  \<open>detachPendingGuideExpected\<close> takes the message and cancels the task, so that the message can be sent in its place. The result is the message
  with its task, and whether the actor is not the owner.
\<close>

definition detachPendingGuideExpected ::
    "(string \<Rightarrow> string) \<Rightarrow> string \<Rightarrow> string \<Rightarrow> pendingTaskControlExpectation \<Rightarrow> taskService \<Rightarrow>
     taskService \<times> (nat \<times> pendingAgentTask) option \<times> bool" where
  "detachPendingGuideExpected sha key actor e s =
     (case task_at s key of
        None \<Rightarrow> (s, None, False)
      | Some t \<Rightarrow>
          let x = skTasks s ! t in
          if atOwner x \<noteq> go_trim actor then (s, None, True)
          else if \<not> matchesPendingTaskControlLocked sha e x then (s, None, False)
          else if pgMessage (atPending x) = [] then (s, None, False)
          else (set_task t (x\<lparr>atPending := no_pending, atDetached := True, atCanceled := True\<rparr>) s,
                Some (t, atPending x), False))"

text \<open>The results: whether a message was withdrawn, and whether the actor is not the owner.\<close>

definition clearPendingGuideExpected ::
    "(string \<Rightarrow> string) \<Rightarrow> string \<Rightarrow> string \<Rightarrow> pendingTaskControlExpectation \<Rightarrow> taskService \<Rightarrow>
     taskService \<times> bool \<times> bool" where
  "clearPendingGuideExpected sha key actor e s =
     (case task_at s key of
        None \<Rightarrow> (s, False, False)
      | Some t \<Rightarrow>
          let x = skTasks s ! t in
          if atOwner x \<noteq> go_trim actor then (s, False, True)
          else if \<not> matchesPendingTaskControlLocked sha e x then (s, False, False)
          else if pgMessage (atPending x) = [] then (s, False, False)
          else (set_task t (x\<lparr>atPending := no_pending\<rparr>) s, True, False))"

text \<open>A guide that is being sent keeps its slot; the thread and the turn it goes to are read with it.\<close>

definition takeExternalCodexGuideExpected ::
    "(string \<Rightarrow> string) \<Rightarrow> string \<Rightarrow> string \<Rightarrow> pendingTaskControlExpectation \<Rightarrow> taskService \<Rightarrow>
     taskService \<times> (nat \<times> pendingAgentTask \<times> string \<times> string) option \<times> bool" where
  "takeExternalCodexGuideExpected sha key actor e s =
     (case task_at s key of
        None \<Rightarrow> (s, None, False)
      | Some t \<Rightarrow>
          let x = skTasks s ! t in
          if atOwner x \<noteq> go_trim actor then (s, None, True)
          else if \<not> matchesPendingTaskControlLocked sha e x then (s, None, False)
          else if \<not> canControlExternalCodexLocked x \<or> pgMessage (atPending x) = [] \<or> atPendingSteering x
            then (s, None, False)
          else (set_task t (x\<lparr>atPendingSteering := True\<rparr>) s,
                Some (t, atPending x, atCodexThreadID x, atCodexTurnID x), False))"

text \<open>The result is the message that runs because its guide was not delivered and its task is gone.\<close>

definition finishExternalCodexGuide ::
    "string \<Rightarrow> nat \<Rightarrow> bool \<Rightarrow> taskService \<Rightarrow> taskService \<times> pendingAgentTask" where
  "finishExternalCodexGuide key t delivered s =
     (let x = skTasks s ! t; active = (task_at s key = Some t) in
      if \<not> atPendingSteering x then (s, no_pending)
      else if delivered then
        (set_task t (x\<lparr>atPendingSteering := False, atPending := no_pending\<rparr>) s, no_pending)
      else if \<not> active then
        (set_task t (x\<lparr>atPendingSteering := False, atPending := no_pending\<rparr>) s, atPending x)
      else (set_task t (x\<lparr>atPendingSteering := False\<rparr>) s, no_pending))"

subsection \<open>The end of a task\<close>

definition close_done :: "activeAgentTask \<Rightarrow> activeAgentTask" where
  "close_done x = x\<lparr>atDone := atDone x + 1\<rparr>"

definition finishActiveTask :: "string \<Rightarrow> nat \<Rightarrow> taskService \<Rightarrow> taskService" where
  "finishActiveTask key t s =
     (if task_at s key = Some t \<and> atPhase (skTasks s ! t) \<noteq> TaskTerminal
      then set_task t (close_done (skTasks s ! t)) (drop_key key s) else s)"

text \<open>What both completions do once the task is terminal: take the waiting message unless a guide has it, and remove the task.\<close>

definition remove_completed :: "string \<Rightarrow> nat \<Rightarrow> activeAgentTask \<Rightarrow> taskService \<Rightarrow> taskService \<times> pendingAgentTask option" where
  "remove_completed key t x s =
     (let take = (atPhase x = TaskTerminal \<and> \<not> atPendingSteering x);
          p = (if take then atPending x else no_pending);
          y = (if take then x\<lparr>atPending := no_pending\<rparr> else x)
      in (set_task t (close_done y) (drop_key key s),
          if pgMessage p = [] \<or> pgRun p = None then None else Some p))"

text \<open>The results: the message to run, and whether the end was claimed.\<close>

definition claimAndCompleteActiveTask ::
    "string \<Rightarrow> nat \<Rightarrow> taskService \<Rightarrow> taskService \<times> pendingAgentTask option \<times> bool" where
  "claimAndCompleteActiveTask key t s =
     (if task_at s key \<noteq> Some t then (s, None, False)
      else (let (claimed, x) = claimTerminalLocked (skTasks s ! t) in
        if \<not> claimed then (s, None, False)
        else (let (s', p) = remove_completed key t x s in (s', p, True))))"

definition completeActiveTask :: "string \<Rightarrow> nat \<Rightarrow> taskService \<Rightarrow> taskService \<times> pendingAgentTask option" where
  "completeActiveTask key t s = (let (s', p, c) = claimAndCompleteActiveTask key t s in (s', if c then p else None))"

definition claimActiveTaskTerminal :: "string \<Rightarrow> nat \<Rightarrow> taskService \<Rightarrow> taskService \<times> bool" where
  "claimActiveTaskTerminal key t s =
     (if task_at s key \<noteq> Some t \<or> atDetached (skTasks s ! t) then (s, False)
      else (let (claimed, x) = claimTerminalLocked (skTasks s ! t) in (set_task t x s, claimed)))"

definition finishClaimedActiveTask :: "string \<Rightarrow> nat \<Rightarrow> taskService \<Rightarrow> taskService \<times> pendingAgentTask option" where
  "finishClaimedActiveTask key t s =
     (if task_at s key \<noteq> Some t \<or> atPhase (skTasks s ! t) \<noteq> TaskTerminal then (s, None)
      else remove_completed key t (skTasks s ! t) s)"

text \<open>\<open>completeAgentTaskLifecycle\<close>: one of the two completions applies, and its message runs.\<close>

definition completeAgentTaskLifecycle :: "string \<Rightarrow> nat \<Rightarrow> taskService \<Rightarrow> taskService \<times> pendingAgentTask option" where
  "completeAgentTaskLifecycle key t s =
     (let (s', p) = finishClaimedActiveTask key t s in
      case p of Some q \<Rightarrow> (s', Some q) | None \<Rightarrow> completeActiveTask key t s')"

definition cancelActiveTaskExpected ::
    "(string \<Rightarrow> string) \<Rightarrow> string \<Rightarrow> string \<Rightarrow> pendingTaskControlExpectation \<Rightarrow> taskService \<Rightarrow>
     taskService \<times> bool \<times> bool" where
  "cancelActiveTaskExpected sha key actor e s =
     (case task_at s key of
        None \<Rightarrow> (s, False, False)
      | Some t \<Rightarrow>
          if \<not> matchesPendingTaskControlLocked sha e (skTasks s ! t) then (s, False, False)
          else (case beginStopRequest (go_trim actor) False StopLocal (skTasks s ! t) of
              (StopDenied, x, c) \<Rightarrow> (s, False, True)
            | (StopTerminal, x, c) \<Rightarrow> (s, False, False)
            | (StopAlreadyRequested, x, c) \<Rightarrow> (s, True, False)
            | (StopAccepted, x, c) \<Rightarrow> (set_task t (x\<lparr>atCanceled := True\<rparr>) s, True, False)))"

subsection \<open>Reservations of shared turns\<close>

text \<open>
  What was read of the turn before: whether it runs at all, and its progress, which the new task shows. The watch, the state
  of the owner and the preview are in the argument that is the new task.
\<close>

record preparedExternalCodexTask =
  ppActive :: bool
  ppProgressEvents :: "ProgressEvent list"
  ppProgress :: string

definition shown_progress :: "instant \<Rightarrow> preparedExternalCodexTask \<Rightarrow> taskViewEvent list" where
  "shown_progress now p =
     map (\<lambda>e. TaskViewProgress now e False) (ppProgressEvents p) @
     (if ppProgress p = [] then [] else [TaskViewProgress now (TextProgressEvent (ppProgress p)) False])"

definition createExternalCodexTaskReservationLocked ::
    "string \<Rightarrow> instant \<Rightarrow> preparedExternalCodexTask \<Rightarrow> activeAgentTask \<Rightarrow> taskService \<Rightarrow> nat \<times> taskService" where
  "createExternalCodexTaskReservationLocked key now p x s =
     add_task key (x\<lparr>atPhase := TaskReserved,
       atReservation := Some \<lparr>ecStatus = ReservationReserved, ecWatcherDone = False\<rparr>,
       atView := view_run (atView x) (shown_progress now p)\<rparr>) s"

definition sameExternalCodexTaskIdentityLocked ::
    "activeAgentTask \<Rightarrow> string \<Rightarrow> string \<Rightarrow> string \<Rightarrow> string \<Rightarrow> string \<Rightarrow> bool" where
  "sameExternalCodexTaskIdentityLocked x actor route agent thread turn \<longleftrightarrow>
     atOwner x = go_trim actor \<and> atRouteUserID x = go_trim route \<and> atAgentName x = go_trim agent \<and>
     atCodexThreadID x = go_trim thread \<and> atCodexTurnID x = go_trim turn \<and> atPhase x \<noteq> TaskTerminal"

definition sameInProcessCodexTaskIdentityLocked ::
    "activeAgentTask \<Rightarrow> string \<Rightarrow> string \<Rightarrow> string \<Rightarrow> string \<Rightarrow> string \<Rightarrow> bool" where
  "sameInProcessCodexTaskIdentityLocked x actor route agent thread turn \<longleftrightarrow>
     atInProcessCodexLifecycle x \<and> atPhase x = TaskRunning \<and> atOwner x = go_trim actor \<and>
     atRouteUserID x = go_trim route \<and> atAgentName x = go_trim agent \<and> atCodexThreadID x = go_trim thread \<and>
     (atCodexTurnID x = [] \<or> atCodexTurnID x = go_trim turn)"

definition reusableExternalCodexTaskStatus :: "externalCodexTaskReservationStatus \<Rightarrow> bool" where
  "reusableExternalCodexTaskStatus st \<longleftrightarrow> st \<in> {ReservationReserved, ReservationActivated}"

text \<open>The handle of a reservation: the task, whether it was there before, and whether it carries the control of the task.\<close>

datatype task_error = ErrHandlerDraining | ErrReservationConflict | ErrActiveTasksRunning

definition reserveExternalCodexTask ::
    "string \<Rightarrow> instant \<Rightarrow> preparedExternalCodexTask \<Rightarrow> activeAgentTask \<Rightarrow> string \<times> string \<times> string \<times> string \<times> string \<Rightarrow>
     taskService \<Rightarrow> taskService \<times> (task_error + (nat \<times> bool \<times> bool) option)" where
  "reserveExternalCodexTask key now p x who s =
     (let (actor, route, agent, thread, turn) = who in
      if \<not> ppActive p then (s, Inr None)
      else if skDraining s then (s, Inl ErrHandlerDraining)
      else (case task_at s key of
          None \<Rightarrow>
            (let (t, s') = createExternalCodexTaskReservationLocked key now p x s in (s', Inr (Some (t, False, True))))
        | Some t \<Rightarrow>
            let y = skTasks s ! t in
            (s, case atReservation y of
                  None \<Rightarrow>
                    if sameInProcessCodexTaskIdentityLocked y actor route agent thread turn
                    then Inr (Some (t, True, False)) else Inl ErrReservationConflict
                | Some c \<Rightarrow>
                    if reusableExternalCodexTaskStatus (ecStatus c) \<and>
                       sameExternalCodexTaskIdentityLocked y actor route agent thread turn
                    then Inr (Some (t, True, True)) else Inl ErrReservationConflict)))"

definition reserved_still :: "string \<Rightarrow> nat \<Rightarrow> taskService \<Rightarrow> bool" where
  "reserved_still key t s \<longleftrightarrow>
     task_at s key = Some t \<and> atPhase (skTasks s ! t) = TaskReserved \<and>
     (\<exists>c. atReservation (skTasks s ! t) = Some c \<and> ecStatus c = ReservationReserved)"

definition claimExternalCodexTaskReservationActivation :: "string \<Rightarrow> nat \<Rightarrow> taskService \<Rightarrow> taskService \<times> bool" where
  "claimExternalCodexTaskReservationActivation key t s =
     (if \<not> reserved_still key t s then (s, False)
      else (let x = skTasks s ! t in
        (set_task t (x\<lparr>atPhase := TaskRunning,
           atReservation := map_option (\<lambda>c. c\<lparr>ecStatus := ReservationActivated\<rparr>) (atReservation x)\<rparr>) s, True)))"

definition cancelReservedExternalCodexTask :: "string \<Rightarrow> nat \<Rightarrow> taskService \<Rightarrow> taskService" where
  "cancelReservedExternalCodexTask key t s =
     (if \<not> reserved_still key t s then s
      else
        let x = snd (claimTerminalLocked (skTasks s ! t));
            y = x\<lparr>atReservation := map_option (\<lambda>c. c\<lparr>ecStatus := ReservationCanceled, ecWatcherDone := True\<rparr>)
                     (atReservation x), atCanceled := True\<rparr>
        in set_task t (close_done y) (drop_key key s))"

definition externalCodexTaskReservationActive :: "string \<Rightarrow> nat \<Rightarrow> bool \<Rightarrow> bool \<Rightarrow> taskService \<Rightarrow> bool" where
  "externalCodexTaskReservationActive key t reused control s \<longleftrightarrow>
     task_at s key = Some t \<and> atPhase (skTasks s ! t) = TaskRunning \<and>
     (if \<not> control then reused
      else (case atReservation (skTasks s ! t) of None \<Rightarrow> False | Some c \<Rightarrow> ecStatus c = ReservationActivated))"

subsection \<open>Frontends that leave\<close>

text \<open>
  The arguments behind the route and the thread: whether a waiting interaction is detached by force, whether the progress card
  can be left, and whether what the caller prepares succeeds. The order of the checks is the
  order of the source; a lock it holds meanwhile keeps the steps together.
\<close>

datatype detach_result = DetachNothing | DetachTerminal | DetachInteraction | DetachPrepareFailed | Detached

definition detached_task :: "taskViewState \<Rightarrow> activeAgentTask \<Rightarrow> activeAgentTask" where
  "detached_task view x =
     (let y = x\<lparr>atDetached := True, atPending := no_pending, atPendingSteering := False, atView := view,
               atProgress := False,
               atReservation := map_option (\<lambda>c. c\<lparr>ecStatus := ReservationCanceled,
                  ecWatcherDone := (ecWatcherDone c \<or> ecStatus c = ReservationReserved)\<rparr>) (atReservation x),
               atInteractionLease := forceDetach (atInteractionLease x)\<rparr>
      in y\<lparr>atCanceled := (atCanceled x \<or> atReservation x \<noteq> None \<and> \<not> atInProcessCodexLifecycle x),
           atObserverDetached := (atObserverDetached x \<or> atInProcessCodexLifecycle x \<and> atObserver x)\<rparr>)"

definition detachCodexFrontendTaskWithOptions ::
    "string \<Rightarrow> string \<Rightarrow> string \<Rightarrow> bool \<Rightarrow> bool \<Rightarrow> bool \<Rightarrow> taskService \<Rightarrow> taskService \<times> detach_result" where
  "detachCodexFrontendTaskWithOptions key0 route0 thread0 force progress_free prepared s =
     (let key = go_trim key0; route = go_trim route0; thread = go_trim thread0 in
      if key = [] \<or> route = [] \<or> thread = [] then (s, DetachNothing)
      else (case task_at s key of
          None \<Rightarrow> (s, DetachNothing)
        | Some t \<Rightarrow>
            let x = skTasks s ! t in
            if atRouteUserID x \<noteq> route \<or> atCodexThreadID x \<noteq> thread then (s, DetachNothing)
            else if atPhase x = TaskTerminal then (s, DetachTerminal)
            else if \<not> force \<and> \<not> claimDetach (atInteractionLease x) then (s, DetachInteraction)
            else if atProgress x \<and> \<not> progress_free then (s, DetachTerminal)
            else if \<not> prepared then (s, DetachPrepareFailed)
            else
              let y = detached_task (fst (reduceTaskView (atView x) TaskViewClosed)) x
              in (set_task t (close_done y) (drop_key key s), Detached)))"

subsection \<open>Draining\<close>

definition taskIsRunningForStatusLocked :: "activeAgentTask \<Rightarrow> bool" where
  "taskIsRunningForStatusLocked x \<longleftrightarrow> \<not> atDetached x \<and> atPhase x \<noteq> TaskTerminal"

definition running_tasks :: "taskService \<Rightarrow> nat list" where
  "running_tasks s = filter (\<lambda>t. taskIsRunningForStatusLocked (skTasks s ! t)) (map snd (skActive s))"

definition drain_task :: "activeAgentTask \<Rightarrow> activeAgentTask" where
  "drain_task x =
     (if atPhase x \<noteq> TaskTerminal \<and>
         (atReservation x \<noteq> None \<and> \<not> atInProcessCodexLifecycle x \<or> atInProcessCodexLifecycle x \<and> atObserver x)
      then x\<lparr>atPreserveRecoveryOnDrain := True, atPending := no_pending\<rparr>
      else if atPhase x \<noteq> TaskTerminal
      then x\<lparr>atPhase := TaskStopping, atStopRequested := True, atPending := no_pending\<rparr> else x)"

text \<open>The first critical section of \<open>Drain\<close>; the result is the tasks to end, or the error.\<close>

definition Drain_enter :: "bool \<Rightarrow> taskService \<Rightarrow> taskService \<times> (task_error + nat list)" where
  "Drain_enter force s =
     (let ts = running_tasks s in
      if ts \<noteq> [] \<and> \<not> force then (s\<lparr>skDraining := False\<rparr>, Inl ErrActiveTasksRunning)
      else if force
      then (foldl (\<lambda>s t. set_task t (drain_task (skTasks s ! t)) s) (s\<lparr>skDraining := True\<rparr>) ts, Inr ts)
      else (s\<lparr>skDraining := True\<rparr>, Inr []))"

text \<open>Then, task by task, the waiting interactions are detached and the task is canceled or its observer detached.\<close>

definition Drain_signal :: "activeAgentTask \<Rightarrow> activeAgentTask" where
  "Drain_signal x =
     (let y = (if atPreserveRecoveryOnDrain x then x\<lparr>atInteractionLease := forceDetach (atInteractionLease x)\<rparr> else x) in
      if atPreserveRecoveryOnDrain x \<and> atInProcessCodexLifecycle x \<and> atObserver x
      then y\<lparr>atObserverDetached := True\<rparr> else y\<lparr>atCanceled := True\<rparr>)"

definition CancelDrain :: "taskService \<Rightarrow> taskService" where
  "CancelDrain s = s\<lparr>skDraining := False\<rparr>"

subsection \<open>Looking up tasks\<close>

definition hasMatchingActiveTextTask ::
    "(string \<Rightarrow> string) \<Rightarrow> string \<Rightarrow> string \<Rightarrow> string \<Rightarrow> taskService \<Rightarrow> bool" where
  "hasMatchingActiveTextTask sha user route text s \<longleftrightarrow>
     list_ex (\<lambda>t. let x = skTasks s ! t in
        atOwner x = go_trim user \<and> atRouteUserID x = go_trim route \<and>
        atMessageFingerprint x = normalizedTextFingerprint sha text \<and> atPhase x \<noteq> TaskTerminal)
       (map snd (skActive s))"

definition stoppable :: "activeAgentTask \<Rightarrow> bool" where
  "stoppable x \<longleftrightarrow> \<not> isExternalCodexLocked x \<or> canResolveExternalCodexControlLocked x"

definition runningTasksForOwner :: "string \<Rightarrow> taskService \<Rightarrow> (nat \<times> bool) list" where
  "runningTasksForOwner owner s =
     map (\<lambda>t. (t, stoppable (skTasks s ! t)))
       (filter (\<lambda>t. atOwner (skTasks s ! t) = owner \<and> taskIsRunningForStatusLocked (skTasks s ! t))
          (map snd (skActive s)))"

definition shouldSendFinal :: "activeAgentTask \<Rightarrow> bool" where
  "shouldSendFinal x \<longleftrightarrow> \<not> atDetached x"

text \<open>The argument says whether the error is one that a stop request leads to.\<close>

definition stoppedByRequest :: "bool \<Rightarrow> activeAgentTask \<Rightarrow> bool" where
  "stoppedByRequest interrupted x \<longleftrightarrow> atPhase x = TaskStopping \<and> interrupted"

subsection \<open>Changes of one task\<close>

definition setTraceThreadTurn :: "string \<Rightarrow> string \<Rightarrow> activeAgentTask \<Rightarrow> activeAgentTask" where
  "setTraceThreadTurn thread turn x =
     x\<lparr>atCodexThreadID := (if go_trim thread \<noteq> [] then go_trim thread else atCodexThreadID x),
       atCodexTurnID := (if go_trim turn \<noteq> [] then go_trim turn else atCodexTurnID x)\<rparr>"

definition attachProgressSession :: "activeAgentTask \<Rightarrow> activeAgentTask" where
  "attachProgressSession x =
     (if atPhase x \<noteq> TaskTerminal \<and> \<not> tvClosed (atView x) then x\<lparr>atProgress := True\<rparr> else x)"

definition detachProgressSession :: "activeAgentTask \<Rightarrow> activeAgentTask" where
  "detachProgressSession x = x\<lparr>atProgress := False\<rparr>"

definition show_event :: "taskViewEvent \<Rightarrow> activeAgentTask \<Rightarrow> activeAgentTask" where
  "show_event ev x = x\<lparr>atView := fst (reduceTaskView (atView x) ev)\<rparr>"

text \<open>What happens to a task without the table of tasks.\<close>

datatype task_op =
    OpDisconnected
  | OpInterrupted string string
  | OpRunning codexRuntimeHolder uint64
  | OpRefresh codexRuntimeHolder uint64 string
  | OpReplaceThread string string
  | OpTrace string string
  | OpStopRemote string
  | OpCommitStop
  | OpRollbackStop
  | OpAttachProgress
  | OpDetachProgress
  | OpShow taskViewEvent
  | OpTimelineLimit int
  | OpInteractionBegin
  | OpInteractionEnd
  | OpInteractionWait
  | OpDrainSignal

fun run_task_op :: "task_op \<Rightarrow> activeAgentTask \<Rightarrow> activeAgentTask" where
  "run_task_op OpDisconnected x = markCodexDisconnected x"
| "run_task_op (OpInterrupted thread turn) x = markCodexObservationInterrupted thread turn x"
| "run_task_op (OpRunning runtime revision) x = markCodexRunning runtime revision x"
| "run_task_op (OpRefresh runtime revision turn) x = refreshExternalCodexTurn runtime revision turn x"
| "run_task_op (OpReplaceThread previous current) x = replaceCodexThread previous current x"
| "run_task_op (OpTrace thread turn) x = setTraceThreadTurn thread turn x"
| "run_task_op (OpStopRemote actor) x = fst (snd (beginStopRequest actor False StopRemote x))"
| "run_task_op OpCommitStop x = snd (commitRemoteStop x)"
| "run_task_op OpRollbackStop x = rollbackRemoteStop x"
| "run_task_op OpAttachProgress x = attachProgressSession x"
| "run_task_op OpDetachProgress x = detachProgressSession x"
| "run_task_op (OpShow ev) x = show_event ev x"
| "run_task_op (OpTimelineLimit limit) x = x\<lparr>atView := setProgressTimelineLimit limit (atView x)\<rparr>"
| "run_task_op OpInteractionBegin x =
     x\<lparr>atInteractionLease := map_option (\<lambda>l. snd (lease_begin l)) (atInteractionLease x)\<rparr>"
| "run_task_op OpInteractionEnd x = x\<lparr>atInteractionLease := map_option lease_end (atInteractionLease x)\<rparr>"
| "run_task_op OpInteractionWait x = x\<lparr>atInteractionLease := map_option lease_done (atInteractionLease x)\<rparr>"
| "run_task_op OpDrainSignal x = Drain_signal x"

end
