(* ===== verification/Task_System.thy ===== *)
theory Task_System
  imports Task_Ops
begin

section \<open>Tasks under interleaving\<close>

text \<open>
  The critical sections of \<open>Task_State\<close> and \<open>Task_Ops\<close> in any order, with any arguments and any task
  pointer that was ever handed out. Beside the state of the handler the system keeps three logs: the
  submissions that were told that they wait, what became of each (it ran after the task, it was sent as a guide, it was taken to be sent
  in place of the task, it was withdrawn, or it was dropped with the task), and the tasks whose end was claimed.
\<close>

datatype fate = FateRun | FateGuided | FateRedirected | FateWithdrawn | FateDropped

record task_system =
  tyState :: taskService
  tyNext :: nat
  tyQueued :: "nat list"
  tyFates :: "(nat \<times> fate) list"
  tyClaims :: "nat list"

definition held :: "activeAgentTask \<Rightarrow> nat option" where
  "held x = (if pgMessage (atPending x) = [] then None else pgRun (atPending x))"

definition fates_of :: "fate \<Rightarrow> nat option \<Rightarrow> (nat \<times> fate) list" where
  "fates_of f n = (case n of None \<Rightarrow> [] | Some i \<Rightarrow> [(i, f)])"

definition submission :: "string \<Rightarrow> nat \<Rightarrow> pendingAgentTask" where
  "submission message n = \<lparr>pgMessage = message, pgRun = Some n, pgControlRevision = []\<rparr>"

text \<open>A submission that waits for an answer of the table.\<close>

definition submitted :: "activeTaskAdmissionStatus \<Rightarrow> taskService \<Rightarrow> task_system \<Rightarrow> task_system" where
  "submitted st s' y =
     y\<lparr>tyState := s', tyNext := Suc (tyNext y),
       tyQueued := tyQueued y @ (if st = TaskQueued then [tyNext y] else [])\<rparr>"

inductive task_step :: "(string \<Rightarrow> string) \<Rightarrow> task_system \<Rightarrow> task_system \<Rightarrow> bool" for sha where
  begin_task: "beginActiveTask key (newActiveAgentTask sha uuid m) (tyState y) = (s', t, started) \<Longrightarrow>
    task_step sha y (y\<lparr>tyState := s'\<rparr>)"
| admit: "message \<noteq> [] \<Longrightarrow>
    beginOrQueueActiveTask uuid key (newActiveAgentTask sha uuid' m) (submission message (tyNext y)) (tyState y) = (st, t, s') \<Longrightarrow>
    task_step sha y (submitted st s' y)"
| admit_claude: "message \<noteq> [] \<Longrightarrow>
    beginOrQueueClaudeTask uuid key route (newActiveAgentTask sha uuid' m) (submission message (tyNext y)) (tyState y) = (st, t, s') \<Longrightarrow>
    task_step sha y (submitted st s' y)"
| queue: "message \<noteq> [] \<Longrightarrow>
    queuePendingActiveTask uuid key (submission message (tyNext y)) (tyState y) = (st, s') \<Longrightarrow>
    task_step sha y (submitted st s' y)"
| redirect: "detachPendingGuideExpected sha key actor e (tyState y) = (s', r, denied) \<Longrightarrow>
    task_step sha y (y\<lparr>tyState := s', tyFates := tyFates y @
      (case r of None \<Rightarrow> [] | Some (t, p) \<Rightarrow> fates_of FateRedirected (pgRun p))\<rparr>)"
| withdraw: "clearPendingGuideExpected sha key actor e (tyState y) = (s', cleared, denied) \<Longrightarrow>
    task_step sha y (y\<lparr>tyState := s', tyFates := tyFates y @
      (case task_at (tyState y) key of None \<Rightarrow> [] | Some t \<Rightarrow>
         if cleared then fates_of FateWithdrawn (held (skTasks (tyState y) ! t)) else [])\<rparr>)"
| guide: "takeExternalCodexGuideExpected sha key actor e (tyState y) = (s', r, denied) \<Longrightarrow>
    task_step sha y (y\<lparr>tyState := s', tyFates := tyFates y @
      (case r of None \<Rightarrow> [] | Some (t, p, thread, turn) \<Rightarrow> fates_of FateGuided (pgRun p))\<rparr>)"
| guide_done: "t < length (skTasks (tyState y)) \<Longrightarrow> finishExternalCodexGuide key t True (tyState y) = (s', p) \<Longrightarrow>
    task_step sha y (y\<lparr>tyState := s'\<rparr>)"
| finish: "t < length (skTasks (tyState y)) \<Longrightarrow> finishActiveTask key t (tyState y) = s' \<Longrightarrow>
    task_step sha y (y\<lparr>tyState := s', tyFates := tyFates y @
      (if s' = tyState y then [] else fates_of FateDropped (held (skTasks (tyState y) ! t)))\<rparr>)"
| claim: "t < length (skTasks (tyState y)) \<Longrightarrow> claimActiveTaskTerminal key t (tyState y) = (s', claimed) \<Longrightarrow>
    task_step sha y (y\<lparr>tyState := s', tyClaims := tyClaims y @ (if claimed then [t] else [])\<rparr>)"
| claim_complete: "t < length (skTasks (tyState y)) \<Longrightarrow> claimAndCompleteActiveTask key t (tyState y) = (s', p, claimed) \<Longrightarrow>
    task_step sha y (y\<lparr>tyState := s', tyClaims := tyClaims y @ (if claimed then [t] else []),
      tyFates := tyFates y @ (case p of None \<Rightarrow> [] | Some q \<Rightarrow> fates_of FateRun (pgRun q))\<rparr>)"
| finish_claimed: "t < length (skTasks (tyState y)) \<Longrightarrow> finishClaimedActiveTask key t (tyState y) = (s', p) \<Longrightarrow>
    task_step sha y (y\<lparr>tyState := s',
      tyFates := tyFates y @ (case p of None \<Rightarrow> [] | Some q \<Rightarrow> fates_of FateRun (pgRun q))\<rparr>)"
| cancel: "cancelActiveTaskExpected sha key actor e (tyState y) = (s', done, denied) \<Longrightarrow>
    task_step sha y (y\<lparr>tyState := s'\<rparr>)"
| change: "t < length (skTasks (tyState y)) \<Longrightarrow>
    task_step sha y (y\<lparr>tyState := set_task t (run_task_op op (skTasks (tyState y) ! t)) (tyState y)\<rparr>)"
| reserve: "reserveExternalCodexTask key now p (newActiveAgentTask sha uuid m) who (tyState y) = (s', r) \<Longrightarrow>
    task_step sha y (y\<lparr>tyState := s'\<rparr>)"
| activate: "t < length (skTasks (tyState y)) \<Longrightarrow>
    claimExternalCodexTaskReservationActivation key t (tyState y) = (s', activated) \<Longrightarrow>
    task_step sha y (y\<lparr>tyState := s'\<rparr>)"
| cancel_reserved: "t < length (skTasks (tyState y)) \<Longrightarrow> cancelReservedExternalCodexTask key t (tyState y) = s' \<Longrightarrow>
    task_step sha y (y\<lparr>tyState := s',
      tyClaims := tyClaims y @ (if s' = tyState y then [] else [t]),
      tyFates := tyFates y @ (if s' = tyState y then [] else fates_of FateDropped (held (skTasks (tyState y) ! t)))\<rparr>)"
| detach: "detachCodexFrontendTaskWithOptions key route thread force progress_free prepared (tyState y) = (s', r) \<Longrightarrow>
    task_step sha y (y\<lparr>tyState := s', tyFates := tyFates y @
      (case task_at (tyState y) (go_trim key) of None \<Rightarrow> [] | Some t \<Rightarrow>
         if r = Detached then fates_of FateDropped (held (skTasks (tyState y) ! t)) else [])\<rparr>)"
| drain: "Drain_enter force (tyState y) = (s', r) \<Longrightarrow>
    task_step sha y (y\<lparr>tyState := s', tyFates := tyFates y @
      (case r of Inl _ \<Rightarrow> [] | Inr ts \<Rightarrow>
         concat (map (\<lambda>t. fates_of FateDropped (held (skTasks (tyState y) ! t))) ts))\<rparr>)"
| cancel_drain: "task_step sha y (y\<lparr>tyState := CancelDrain (tyState y)\<rparr>)"

definition task_init :: "task_system \<Rightarrow> bool" where
  "task_init y \<longleftrightarrow>
     y = \<lparr>tyState = \<lparr>skActive = [], skTasks = [], skDraining = False\<rparr>, tyNext = 0, tyQueued = [], tyFates = [], tyClaims = []\<rparr>"

end
