(* ===== verification/Task_Inv.thy ===== *)
theory Task_Inv
  imports Task_System
begin

section \<open>The invariant of the tasks\<close>

text \<open>
  Three independent parts: the table (a task is in it under one key exactly as long as its \<open>done\<close> channel is
  open), the claims (a task is terminal exactly when its end was claimed, once), and the fates of the submissions. The last
  one sees of the table only its slots: what waits on each task, and whether it is being sent as a guide.
\<close>

subsection \<open>The table\<close>

definition running_at :: "taskService \<Rightarrow> nat set" where
  "running_at s = snd ` set (skActive s)"

definition slots :: "taskService \<Rightarrow> nat \<Rightarrow> (nat option \<times> bool) option" where
  "slots s t =
     (if t \<in> running_at s then Some (held (skTasks s ! t), atPendingSteering (skTasks s ! t)) else None)"

definition terminals :: "taskService \<Rightarrow> nat set" where
  "terminals s = {t. t < length (skTasks s) \<and> atPhase (skTasks s ! t) = TaskTerminal}"

definition table_inv :: "taskService \<Rightarrow> bool" where
  "table_inv s \<longleftrightarrow>
     distinct (map fst (skActive s)) \<and> distinct (map snd (skActive s)) \<and>
     running_at s \<subseteq> {..<length (skTasks s)} \<and>
     (\<forall>t < length (skTasks s). atDone (skTasks s ! t) = (if t \<in> running_at s then 0 else 1))"

lemma task_at_running: "task_at s key = Some t \<Longrightarrow> t \<in> running_at s"
  by (auto simp: task_at_def running_at_def dest: map_of_SomeD intro: rev_image_eqI)

lemma task_at_less: "table_inv s \<Longrightarrow> task_at s key = Some t \<Longrightarrow> t < length (skTasks s)"
  using task_at_running by (auto simp: table_inv_def)

lemma slots_running: "t \<in> running_at s \<Longrightarrow> slots s t = Some (held (skTasks s ! t), atPendingSteering (skTasks s ! t))"
  by (simp add: slots_def)

lemma slots_None: "t \<notin> running_at s \<Longrightarrow> slots s t = None"
  by (simp add: slots_def)

lemma set_task_running [simp]: "running_at (set_task t x s) = running_at s"
  by (simp add: running_at_def set_task_def)

lemma set_task_fields [simp]:
  "length (skTasks (set_task t x s)) = length (skTasks s)"
  "task_at (set_task t x s) key = task_at s key"
  "skDraining (set_task t x s) = skDraining s"
  "skActive (set_task t x s) = skActive s"
  by (simp_all add: set_task_def task_at_def)

lemma set_task_nth: "t < length (skTasks s) \<Longrightarrow> skTasks (set_task t x s) ! u = (if u = t then x else skTasks s ! u)"
  by (simp add: set_task_def nth_list_update)

lemma set_task_same [simp]: "set_task t (skTasks s ! t) s = s"
  by (simp add: set_task_def)

lemma slots_set_task:
  "t < length (skTasks s) \<Longrightarrow> slots (set_task t x s) =
     (if t \<in> running_at s then (slots s)(t \<mapsto> (held x, atPendingSteering x)) else slots s)"
  by (auto simp: slots_def set_task_nth fun_eq_iff)

lemma table_set_task:
  assumes "table_inv s" and "t < length (skTasks s)" and "atDone x = atDone (skTasks s ! t)"
  shows "table_inv (set_task t x s)"
  using assms by (auto simp: table_inv_def set_task_nth)

lemma terminals_set_task:
  "t < length (skTasks s) \<Longrightarrow> terminals (set_task t x s) =
     (if atPhase x = TaskTerminal then insert t (terminals s) else terminals s - {t})"
  by (auto simp: terminals_def set_task_nth)

lemma in_terminals: "t < length (skTasks s) \<Longrightarrow> t \<in> terminals s \<longleftrightarrow> atPhase (skTasks s ! t) = TaskTerminal"
  by (simp add: terminals_def)

lemma terminals_same:
  "t < length (skTasks s) \<Longrightarrow> (atPhase x = TaskTerminal) = (atPhase (skTasks s ! t) = TaskTerminal) \<Longrightarrow>
     terminals (set_task t x s) = terminals s"
  by (auto simp: terminals_def set_task_nth)

lemma draining_parts [simp]:
  "running_at (s\<lparr>skDraining := b\<rparr>) = running_at s" "slots (s\<lparr>skDraining := b\<rparr>) = slots s"
  "terminals (s\<lparr>skDraining := b\<rparr>) = terminals s" "table_inv (s\<lparr>skDraining := b\<rparr>) = table_inv s"
  by (auto simp: running_at_def slots_def fun_eq_iff terminals_def table_inv_def)

text \<open>Removing a task closes its channel.\<close>

definition removed :: "string \<Rightarrow> nat \<Rightarrow> activeAgentTask \<Rightarrow> taskService \<Rightarrow> taskService" where
  "removed key t x s = set_task t (close_done x) (drop_key key s)"

lemma drop_key_fields [simp]:
  "skTasks (drop_key key s) = skTasks s" "skDraining (drop_key key s) = skDraining s"
  by (simp_all add: drop_key_def)

lemma drop_key_running:
  assumes "table_inv s" and "task_at s key = Some t"
  shows "running_at (drop_key key s) = running_at s - {t}"
proof -
  have kt: "(key, t) \<in> set (skActive s)" using assms(2) by (simp add: task_at_def map_of_SomeD)
  have d: "distinct (map fst (skActive s))" "distinct (map snd (skActive s))" using assms(1) by (simp_all add: table_inv_def)
  have "k = key \<longleftrightarrow> u = t" if "(k, u) \<in> set (skActive s)" for k u
    using that kt d by (metis eq_key_imp_eq_value distinct_map fst_conv inj_onD snd_conv)
  then have k: "\<And>k u. (k, u) \<in> set (skActive s) \<Longrightarrow> k = key \<longleftrightarrow> u = t" .
  show ?thesis
  proof (intro set_eqI iffI)
    fix u
    assume "u \<in> running_at (drop_key key s)"
    then show "u \<in> running_at s - {t}"
      using k by (fastforce simp: running_at_def drop_key_def AList.delete_eq)
  next
    fix u
    assume "u \<in> running_at s - {t}"
    then obtain l where "(l, u) \<in> set (skActive s)" "u \<noteq> t" by (auto simp: running_at_def)
    with k show "u \<in> running_at (drop_key key s)"
      by (force simp: running_at_def drop_key_def AList.delete_eq)
  qed
qed

lemma close_done_fields [simp]:
  "atDone (close_done x) = Suc (atDone x)" "atPhase (close_done x) = atPhase x" "held (close_done x) = held x"
  "atPendingSteering (close_done x) = atPendingSteering x"
  by (simp_all add: close_done_def held_def)

lemma removed_table:
  assumes "table_inv s" and "task_at s key = Some t" and "atDone x = atDone (skTasks s ! t)"
  shows "table_inv (removed key t x s)"
proof -
  note t = task_at_less [OF assms(1,2)] and r = drop_key_running [OF assms(1,2)] and a = task_at_running [OF assms(2)]
  have "distinct (map fst (skActive (drop_key key s)))" "distinct (map snd (skActive (drop_key key s)))"
    using assms(1) by (auto simp: drop_key_def AList.delete_eq table_inv_def distinct_map intro: inj_on_subset)
  moreover have "atDone (skTasks (removed key t x s) ! u) = (if u \<in> running_at (drop_key key s) then 0 else 1)"
    if "u < length (skTasks s)" for u
    using that assms(1,3) t a r by (auto simp: removed_def table_inv_def set_task_nth)
  ultimately show ?thesis
    using assms(1) r by (auto simp: removed_def table_inv_def)
qed

lemma removed_slots:
  assumes "table_inv s" and "task_at s key = Some t"
  shows "slots (removed key t x s) = (slots s)(t := None)"
  using task_at_less [OF assms] drop_key_running [OF assms]
  by (auto simp: removed_def slots_def fun_eq_iff set_task_nth)

lemma removed_terminals:
  assumes "t < length (skTasks s)"
  shows "terminals (removed key t x s) = (if atPhase x = TaskTerminal then insert t (terminals s) else terminals s - {t})"
  using assms by (auto simp: removed_def terminals_def set_task_nth)

lemma removed_neq: "task_at s key = Some t \<Longrightarrow> removed key t x s \<noteq> s"
proof
  assume k: "task_at s key = Some t" and e: "removed key t x s = s"
  have "skActive (removed key t x s) = AList.delete key (skActive s)" by (simp add: removed_def drop_key_def)
  with e k show False by (metis task_at_def AList.delete_conv' fun_upd_same option.distinct(1))
qed

lemma update_new: "k \<notin> fst ` set xs \<Longrightarrow> AList.update k v xs = xs @ [(k, v)]"
  by (induction xs) auto

lemma add_task_effect:
  assumes "table_inv s" and "task_at s key = None" and "atDone x = 0" and "add_task key x s = (t, s')"
  shows "table_inv s'" and "t = length (skTasks s)" and "slots s' = (slots s)(t \<mapsto> (held x, atPendingSteering x))"
    and "atPhase x \<noteq> TaskTerminal \<Longrightarrow> terminals s' = terminals s" and "t \<notin> running_at s"
proof -
  have t: "t = length (skTasks s)" and s': "s' = s\<lparr>skTasks := skTasks s @ [x], skActive := AList.update key t (skActive s)\<rparr>"
    using assms(4) by (auto simp: add_task_def Let_def)
  have new: "key \<notin> fst ` set (skActive s)" using assms(2) by (simp add: task_at_def map_of_eq_None_iff)
  have n: "t \<notin> running_at s" using assms(1) t by (auto simp: table_inv_def)
  have up: "AList.update key t (skActive s) = skActive s @ [(key, t)]"
    by (rule update_new [OF new])
  show "t = length (skTasks s)" "t \<notin> running_at s" by (rule t, rule n)
  have r: "running_at s' = insert t (running_at s)" using up s' by (auto simp: running_at_def)
  show "table_inv s'"
    using assms(1,3) new n up s' t r unfolding table_inv_def by (auto simp: nth_append running_at_def)
  show "slots s' = (slots s)(t \<mapsto> (held x, atPendingSteering x))"
    using r s' t assms(1) by (auto simp: slots_def fun_eq_iff nth_append table_inv_def)
  show "atPhase x \<noteq> TaskTerminal \<Longrightarrow> terminals s' = terminals s"
    using s' t by (auto simp: terminals_def nth_append)
qed

subsection \<open>The submissions\<close>

definition gone :: "(nat \<times> fate) list \<Rightarrow> nat list" where
  "gone F = map fst (filter (\<lambda>(n, f). f \<noteq> FateGuided) F)"

definition guided :: "(nat \<times> fate) list \<Rightarrow> nat list" where
  "guided F = map fst (filter (\<lambda>(n, f). f = FateGuided) F)"

text \<open>
  A waiting submission has not gone; it has been sent as a guide exactly if its slot says so; it waits on one task
  only. A submission goes at most once, is sent as a guide at most once, and never runs after that. One that was told that it waits does wait, or it has met a fate.
\<close>

definition fates_inv :: "(nat \<Rightarrow> (nat option \<times> bool) option) \<Rightarrow> (nat \<times> fate) list \<Rightarrow> nat \<Rightarrow> nat list \<Rightarrow> bool" where
  "fates_inv sl F next Q \<longleftrightarrow>
     (\<forall>n f. (n, f) \<in> set F \<longrightarrow> n < next) \<and>
     distinct (gone F) \<and> distinct (guided F) \<and>
     (\<forall>n. (n, FateGuided) \<in> set F \<longrightarrow> (n, FateRun) \<notin> set F) \<and>
     (\<forall>t n b. sl t = Some (Some n, b) \<longrightarrow> n < next \<and> n \<notin> set (gone F) \<and> (n \<in> set (guided F) \<longleftrightarrow> b)) \<and>
     (\<forall>t u n b c. sl t = Some (Some n, b) \<longrightarrow> sl u = Some (Some n, c) \<longrightarrow> t = u) \<and>
     (\<forall>n \<in> set Q. n < next \<and> (n \<in> fst ` set F \<or> (\<exists>t b. sl t = Some (Some n, b))))"

lemma fates_invI:
  assumes "\<And>n f. (n, f) \<in> set F \<Longrightarrow> n < next" and "distinct (gone F)" and "distinct (guided F)"
    and "\<And>n. (n, FateGuided) \<in> set F \<Longrightarrow> (n, FateRun) \<notin> set F"
    and "\<And>t n b. sl t = Some (Some n, b) \<Longrightarrow> n < next \<and> n \<notin> set (gone F) \<and> (n \<in> set (guided F) \<longleftrightarrow> b)"
    and "\<And>t u n b c. sl t = Some (Some n, b) \<Longrightarrow> sl u = Some (Some n, c) \<Longrightarrow> t = u"
    and "\<And>n. n \<in> set Q \<Longrightarrow> n < next"
    and "\<And>n. n \<in> set Q \<Longrightarrow> n \<notin> fst ` set F \<Longrightarrow> \<exists>t b. sl t = Some (Some n, b)"
  shows "fates_inv sl F next Q"
  using assms unfolding fates_inv_def by blast

lemma fates_invD:
  assumes "fates_inv sl F next Q"
  shows "\<And>n f. (n, f) \<in> set F \<Longrightarrow> n < next" and "distinct (gone F)" and "distinct (guided F)"
    and "\<And>n. (n, FateGuided) \<in> set F \<Longrightarrow> (n, FateRun) \<notin> set F"
    and "\<And>t n b. sl t = Some (Some n, b) \<Longrightarrow> n < next \<and> n \<notin> set (gone F) \<and> (n \<in> set (guided F) \<longleftrightarrow> b)"
    and "\<And>t u n b c. sl t = Some (Some n, b) \<Longrightarrow> sl u = Some (Some n, c) \<Longrightarrow> t = u"
    and "\<And>n. n \<in> set Q \<Longrightarrow> n < next"
    and "\<And>n. n \<in> set Q \<Longrightarrow> n \<notin> fst ` set F \<Longrightarrow> \<exists>t b. sl t = Some (Some n, b)"
  using assms unfolding fates_inv_def by blast+

lemma in_gone: "n \<in> set (gone F) \<longleftrightarrow> (\<exists>f. (n, f) \<in> set F \<and> f \<noteq> FateGuided)"
  by (force simp: gone_def)

lemma in_guided: "n \<in> set (guided F) \<longleftrightarrow> (n, FateGuided) \<in> set F"
  by (force simp: guided_def)

lemma gone_append [simp]: "gone (F @ G) = gone F @ gone G"
  by (simp add: gone_def)

lemma guided_append [simp]: "guided (F @ G) = guided F @ guided G"
  by (simp add: guided_def)

lemma fates_of_gone [simp]:
  "f \<noteq> FateGuided \<Longrightarrow> gone (fates_of f (Some n)) = [n]" "f \<noteq> FateGuided \<Longrightarrow> guided (fates_of f (Some n)) = []"
  "gone (fates_of FateGuided (Some n)) = []" "guided (fates_of FateGuided (Some n)) = [n]"
  "set (fates_of f (Some n)) = {(n, f)}" "fates_of f None = []"
  by (simp_all add: gone_def guided_def fates_of_def)

lemma fates_skip: "fates_inv sl F next Q \<Longrightarrow> fates_inv sl F (Suc next) Q"
  unfolding fates_inv_def by (meson less_SucI)

lemma slot_kept:
  assumes "\<exists>u c. sl u = Some (Some m, c)" and "sl t = Some (h, b)" and "h \<noteq> Some m"
  shows "\<exists>u c. (sl(t := x)) u = Some (Some m, c)"
proof -
  from assms(1) obtain u c where "sl u = Some (Some m, c)" by blast
  moreover from this assms(2,3) have "u \<noteq> t" by auto
  ultimately show ?thesis by (intro exI [of _ u] exI [of _ c]) simp
qed

lemma fates_queue:
  assumes i: "fates_inv sl F next Q" and t: "sl t = Some (None, False)"
  shows "fates_inv (sl(t \<mapsto> (Some next, False))) F (Suc next) (Q @ [next])"
proof (rule fates_invI)
  have new: "next \<notin> set (gone F)" "next \<notin> set (guided F)"
    using fates_invD(1) [OF i] by (auto simp: in_gone in_guided)
  have free: "sl u \<noteq> Some (Some next, b)" for u b using fates_invD(5) [OF i, of u "next" b] by blast
  fix u n b
  assume "(sl(t \<mapsto> (Some next, False))) u = Some (Some n, b)"
  then show "n < Suc next \<and> n \<notin> set (gone F) \<and> (n \<in> set (guided F) \<longleftrightarrow> b)"
    using new fates_invD(5) [OF i, of u n b] by (auto split: if_splits)
  fix v c
  assume "(sl(t \<mapsto> (Some next, False))) u = Some (Some n, b)" "(sl(t \<mapsto> (Some next, False))) v = Some (Some n, c)"
  then show "u = v" using free fates_invD(6) [OF i, of u n b v c] by (auto split: if_splits)
next
  fix n assume "n \<in> set (Q @ [next])" "n \<notin> fst ` set F"
  then show "\<exists>u b. (sl(t \<mapsto> (Some next, False))) u = Some (Some n, b)"
    using slot_kept [OF fates_invD(8) [OF i] t, of n] by (cases "n = next") auto
qed (use fates_invD(1-4,7) [OF i] in \<open>auto intro: less_SucI\<close>)

lemma fates_clear:
  assumes i: "fates_inv sl F next Q" and t: "sl t = Some (h, b)"
    and h: "\<And>n. h = Some n \<Longrightarrow> n \<in> fst ` set F" and x: "\<And>n c. x \<noteq> Some (Some n, c)"
  shows "fates_inv (sl(t := x)) F next Q"
proof (rule fates_invI)
  fix u n c assume "(sl(t := x)) u = Some (Some n, c)"
  then show "n < next \<and> n \<notin> set (gone F) \<and> (n \<in> set (guided F) \<longleftrightarrow> c)"
    using x fates_invD(5) [OF i, of u n c] by (auto split: if_splits)
next
  fix u v n c d assume "(sl(t := x)) u = Some (Some n, c)" "(sl(t := x)) v = Some (Some n, d)"
  then show "u = v" using x fates_invD(6) [OF i, of u n c v d] by (auto split: if_splits)
next
  fix n assume "n \<in> set Q" "n \<notin> fst ` set F"
  then show "\<exists>u c. (sl(t := x)) u = Some (Some n, c)"
    using slot_kept [OF fates_invD(8) [OF i] t] h by blast
qed (use fates_invD(1-4,7) [OF i] in auto)

lemma fates_empty:
  assumes i: "fates_inv sl F next Q" and t: "sl t = None"
  shows "fates_inv (sl(t \<mapsto> (None, b))) F next Q"
proof (rule fates_invI)
  fix u n c assume "(sl(t \<mapsto> (None, b))) u = Some (Some n, c)"
  then show "n < next \<and> n \<notin> set (gone F) \<and> (n \<in> set (guided F) \<longleftrightarrow> c)"
    using fates_invD(5) [OF i, of u n c] by (auto split: if_splits)
next
  fix u v n c d assume "(sl(t \<mapsto> (None, b))) u = Some (Some n, c)" "(sl(t \<mapsto> (None, b))) v = Some (Some n, d)"
  then show "u = v" using fates_invD(6) [OF i, of u n c v d] by (auto split: if_splits)
next
  fix n assume "n \<in> set Q" "n \<notin> fst ` set F"
  then obtain u c where "sl u = Some (Some n, c)" using fates_invD(8) [OF i] by blast
  then show "\<exists>u c. (sl(t \<mapsto> (None, b))) u = Some (Some n, c)" using t by (intro exI [of _ u] exI [of _ c]) auto
qed (use fates_invD(1-4,7) [OF i] in auto)

text \<open>A fate is logged for what waited in a slot, and the slot is empty or gone.\<close>

lemma fates_log:
  assumes i: "fates_inv sl F next Q" and t: "sl t = Some (Some m, b)" and f: "f \<noteq> FateGuided" "f = FateRun \<Longrightarrow> \<not> b"
    and x: "\<And>n c. x \<noteq> Some (Some n, c)"
  shows "fates_inv (sl(t := x)) (F @ [(m, f)]) next Q"
proof (rule fates_invI)
  have m: "m < next" "m \<notin> set (gone F)" "m \<in> set (guided F) \<longleftrightarrow> b" using fates_invD(5) [OF i t] by simp_all
  have g: "gone [(m, f)] = [m]" "guided [(m, f)] = []"
    using f(1) by (simp_all add: gone_def guided_def)
  show "distinct (gone (F @ [(m, f)]))" "distinct (guided (F @ [(m, f)]))" using m fates_invD(2,3) [OF i] by (simp_all add: g)
  show "(n, FateRun) \<notin> set (F @ [(m, f)])" if "(n, FateGuided) \<in> set (F @ [(m, f)])" for n
    using that f m fates_invD(4) [OF i, of n] by (auto simp: in_guided)
  show "n < next" if "(n, e) \<in> set (F @ [(m, f)])" for n e
    using that m(1) fates_invD(1) [OF i, of n e] by auto
  fix u n c assume u: "(sl(t := x)) u = Some (Some n, c)"
  then have "u \<noteq> t" "sl u = Some (Some n, c)" using x by (auto split: if_splits)
  moreover from this have "n \<noteq> m" using fates_invD(6) [OF i, of u n c t b] t by blast
  ultimately show "n < next \<and> n \<notin> set (gone (F @ [(m, f)])) \<and> (n \<in> set (guided (F @ [(m, f)])) \<longleftrightarrow> c)"
    using fates_invD(5) [OF i, of u n c] by (simp add: g)
next
  fix u v n c d assume "(sl(t := x)) u = Some (Some n, c)" "(sl(t := x)) v = Some (Some n, d)"
  then show "u = v" using x fates_invD(6) [OF i, of u n c v d] by (auto split: if_splits)
next
  fix n assume "n \<in> set Q" "n \<notin> fst ` set (F @ [(m, f)])"
  then show "\<exists>u c. (sl(t := x)) u = Some (Some n, c)"
    using slot_kept [OF fates_invD(8) [OF i] t] by auto
qed (use fates_invD(7) [OF i] in auto)

lemma fates_go:
  assumes "fates_inv sl F next Q" and "sl t = Some (h, b)" and "f \<noteq> FateGuided" and "f = FateRun \<Longrightarrow> \<not> b"
    and "\<And>n c. x \<noteq> Some (Some n, c)"
  shows "fates_inv (sl(t := x)) (F @ fates_of f h) next Q"
proof (cases h)
  case None
  then show ?thesis using fates_clear [OF assms(1,2) _ assms(5)] by simp
next
  case (Some n)
  then show ?thesis using fates_log [OF assms(1) _ assms(3,4,5)] assms(2) by (simp add: fates_of_def)
qed

lemma fates_guide:
  assumes i: "fates_inv sl F next Q" and t: "sl t = Some (h, False)"
  shows "fates_inv (sl(t \<mapsto> (h, True))) (F @ fates_of FateGuided h) next Q"
proof (cases h)
  case None
  then show ?thesis using fates_clear [OF assms, of "Some (h, True)"] by simp
next
  case (Some m)
  have m: "m < next" "m \<notin> set (gone F)" "m \<notin> set (guided F)" using fates_invD(5) [OF i] t Some by auto
  have g: "gone [(m, FateGuided)] = []" "guided [(m, FateGuided)] = [m]"
    by (simp_all add: gone_def guided_def)
  have "fates_inv (sl(t \<mapsto> (Some m, True))) (F @ [(m, FateGuided)]) next Q"
  proof (rule fates_invI)
    fix u n c assume u: "(sl(t \<mapsto> (Some m, True))) u = Some (Some n, c)"
    show "n < next \<and> n \<notin> set (gone (F @ [(m, FateGuided)])) \<and> (n \<in> set (guided (F @ [(m, FateGuided)])) \<longleftrightarrow> c)"
    proof (cases "u = t")
      case False
      with u have s: "sl u = Some (Some n, c)" by simp
      with False t Some have "n \<noteq> m" using fates_invD(6) [OF i, of u n c t False] by auto
      then show ?thesis using fates_invD(5) [OF i s] by (simp add: g)
    qed (use u m g in auto)
  next
    fix u v n c d
    assume "(sl(t \<mapsto> (Some m, True))) u = Some (Some n, c)" "(sl(t \<mapsto> (Some m, True))) v = Some (Some n, d)"
    then show "u = v"
      using t Some fates_invD(6) [OF i, of u n _ v] by (auto split: if_splits)
  next
    fix n assume "n \<in> set Q" "n \<notin> fst ` set (F @ [(m, FateGuided)])"
    then show "\<exists>u c. (sl(t \<mapsto> (Some m, True))) u = Some (Some n, c)"
      using slot_kept [OF fates_invD(8) [OF i] t] Some by auto
  next
    fix n assume "(n, FateGuided) \<in> set (F @ [(m, FateGuided)])"
    then show "(n, FateRun) \<notin> set (F @ [(m, FateGuided)])"
      using m(2) fates_invD(4) [OF i, of n] by (auto simp: in_gone)
  qed (use m fates_invD(1-3,7) [OF i] in \<open>auto simp: g\<close>)
  then show ?thesis by (simp add: Some fates_of_def)
qed

end
