(* ===== verification/Task_Runs.thy ===== *)
theory Task_Runs
  imports Task_Inv
begin

section \<open>Every critical section keeps the invariant\<close>

definition claims_ok :: "taskService \<Rightarrow> nat list \<Rightarrow> bool" where
  "claims_ok s C \<longleftrightarrow> distinct C \<and> set C = terminals s"

definition task_inv :: "task_system \<Rightarrow> bool" where
  "task_inv y \<longleftrightarrow>
     table_inv (tyState y) \<and> claims_ok (tyState y) (tyClaims y) \<and>
     fates_inv (slots (tyState y)) (tyFates y) (tyNext y) (tyQueued y)"

lemma task_invI:
  "table_inv (tyState y) \<Longrightarrow> claims_ok (tyState y) (tyClaims y) \<Longrightarrow>
     fates_inv (slots (tyState y)) (tyFates y) (tyNext y) (tyQueued y) \<Longrightarrow> task_inv y"
  by (simp add: task_inv_def)

lemma task_invD:
  assumes "task_inv y"
  shows "table_inv (tyState y)" and "claims_ok (tyState y) (tyClaims y)"
    and "fates_inv (slots (tyState y)) (tyFates y) (tyNext y) (tyQueued y)"
  using assms by (simp_all add: task_inv_def)

lemma claims_same: "claims_ok s C \<Longrightarrow> terminals s' = terminals s \<Longrightarrow> claims_ok s' C"
  by (simp add: claims_ok_def)

lemma claims_add: "claims_ok s C \<Longrightarrow> t \<notin> terminals s \<Longrightarrow> terminals s' = insert t (terminals s) \<Longrightarrow> claims_ok s' (C @ [t])"
  by (auto simp: claims_ok_def)

subsection \<open>Changes of one task\<close>

text \<open>What an edit may not touch.\<close>

definition task_frame :: "activeAgentTask \<Rightarrow> activeAgentTask \<Rightarrow> bool" where
  "task_frame x y \<longleftrightarrow>
     atDone y = atDone x \<and> (atPhase y = TaskTerminal) = (atPhase x = TaskTerminal) \<and>
     atPending y = atPending x \<and> atPendingSteering y = atPendingSteering x \<and> atOwner y = atOwner x"

lemma task_frame_refl [simp]: "task_frame x x"
  by (simp add: task_frame_def)

lemma run_task_op_frame: "task_frame x (run_task_op op x)"
  by (cases op)
    (auto simp: task_frame_def markCodexDisconnected_def markCodexObservationInterrupted_def markCodexRunning_def
      refreshExternalCodexTurn_def replaceCodexThread_def setTraceThreadTurn_def beginStopRequest_def commitRemoteStop_def
      rollbackRemoteStop_def attachProgressSession_def detachProgressSession_def show_event_def Drain_signal_def Let_def)

lemma frame_edit:
  assumes "table_inv s" and "t < length (skTasks s)" and "task_frame (skTasks s ! t) x"
  shows "table_inv (set_task t x s)" and "slots (set_task t x s) = slots s" and "terminals (set_task t x s) = terminals s"
proof -
  have h: "held x = held (skTasks s ! t)" using assms(3) by (simp add: task_frame_def held_def)
  show "table_inv (set_task t x s)" using assms by (intro table_set_task) (simp_all add: task_frame_def)
  show "slots (set_task t x s) = slots s"
    using assms h by (auto simp: slots_set_task slots_running task_frame_def fun_eq_iff)
  show "terminals (set_task t x s) = terminals s"
    using assms(2,3) by (simp add: terminals_same task_frame_def)
qed

lemma inv_edit:
  assumes "task_inv y" and "t < length (skTasks (tyState y))" and "task_frame (skTasks (tyState y) ! t) x"
  shows "task_inv (y\<lparr>tyState := set_task t x (tyState y)\<rparr>)"
  using task_invD [OF assms(1)] frame_edit [OF task_invD(1) [OF assms(1)] assms(2,3)]
  by (intro task_invI) (simp_all add: claims_ok_def)

lemma inv_draining: "task_inv y \<Longrightarrow> task_inv (y\<lparr>tyState := (tyState y)\<lparr>skDraining := b\<rparr>\<rparr>)"
  by (simp add: task_inv_def claims_ok_def)

text \<open>Taking the message of a running task, with the fate it meets.\<close>

lemma inv_take:
  assumes i: "task_inv y" and t: "task_at (tyState y) key = Some t" and x: "x = skTasks (tyState y) ! t"
    and z: "atDone z = atDone x" "(atPhase z = TaskTerminal) = (atPhase x = TaskTerminal)" "held z = None"
    and f: "f \<noteq> FateGuided" "f \<noteq> FateRun"
  shows "task_inv (y\<lparr>tyState := set_task t z (tyState y), tyFates := tyFates y @ fates_of f (held x)\<rparr>)"
proof -
  note d = task_invD [OF i] and r = task_at_running [OF t] and l = task_at_less [OF task_invD(1) [OF i] t]
  have "fates_inv ((slots (tyState y))(t := Some (None, atPendingSteering z))) (tyFates y @ fates_of f (held x)) (tyNext y) (tyQueued y)"
    by (rule fates_go [OF d(3) slots_running [OF r, folded x]]) (use f in auto)
  then show ?thesis
    using d r l z table_set_task [OF d(1) l, of z] x
    by (intro task_invI) (auto simp: slots_set_task claims_ok_def terminals_same)
qed

subsection \<open>New tasks and new submissions\<close>

lemma new_task_fields [simp]:
  "atDone (newActiveAgentTask sha uuid m) = 0" "atPhase (newActiveAgentTask sha uuid m) = TaskRunning"
  "held (newActiveAgentTask sha uuid m) = None" "atPendingSteering (newActiveAgentTask sha uuid m) = False"
  by (simp_all add: newActiveAgentTask_def held_def no_pending_def)

lemma inv_add:
  assumes i: "task_inv y" and k: "task_at (tyState y) key = None" and a: "add_task key x (tyState y) = (t, s')"
    and x: "atDone x = 0" "held x = None" "atPhase x \<noteq> TaskTerminal"
  shows "task_inv (y\<lparr>tyState := s'\<rparr>)"
proof -
  note d = task_invD [OF i] and e = add_task_effect [OF task_invD(1) [OF i] k x(1) a]
  have "fates_inv ((slots (tyState y))(t \<mapsto> (None, atPendingSteering x))) (tyFates y) (tyNext y) (tyQueued y)"
    by (rule fates_empty [OF d(3)]) (simp add: slots_None e(5))
  then show ?thesis using d e x by (intro task_invI) (simp_all add: claims_ok_def)
qed

lemma inv_begin:
  assumes i: "task_inv y" and b: "beginActiveTask key x (tyState y) = (s', t, started)"
    and x: "atDone x = 0" "held x = None" "atPhase x \<noteq> TaskTerminal"
  shows "task_inv (y\<lparr>tyState := s'\<rparr>)"
proof (cases "skDraining (tyState y) \<or> task_at (tyState y) key \<noteq> None")
  case True
  then have "s' = tyState y" using b by (auto simp: beginActiveTask_def split: option.splits if_splits)
  then show ?thesis using i by simp
next
  case False
  obtain u s'' where a: "add_task key x (tyState y) = (u, s'')" by (metis prod.collapse)
  with False b have "s'' = s'" by (simp add: beginActiveTask_def)
  with inv_add [OF i _ a x] False show ?thesis by simp
qed

lemma inv_skip: "task_inv y \<Longrightarrow> st \<noteq> TaskQueued \<Longrightarrow> task_inv (submitted st (tyState y) y)"
  unfolding task_inv_def submitted_def using fates_skip by simp

lemma inv_started: "task_inv (y\<lparr>tyState := s'\<rparr>) \<Longrightarrow> st \<noteq> TaskQueued \<Longrightarrow> task_inv (submitted st s' y)"
  using inv_skip [of "y\<lparr>tyState := s'\<rparr>" st] by (simp add: submitted_def)

lemma inv_queue:
  assumes i: "task_inv y" and t: "task_at (tyState y) key = Some t" and m: "message \<noteq> []"
    and q: "queue_on uuid (submission message (tyNext y)) t (tyState y) = (st, s')"
  shows "task_inv (submitted st s' y)"
proof -
  let ?x = "skTasks (tyState y) ! t"
  note d = task_invD [OF i] and r = task_at_running [OF t] and l = task_at_less [OF task_invD(1) [OF i] t]
  show ?thesis
  proof (cases "pgMessage (atPending ?x) \<noteq> [] \<or> atPendingSteering ?x")
    case True
    then have "s' = tyState y" "st = TaskPendingOccupied" using q by (auto simp: queue_on_def queuePendingOnTask_def)
    then show ?thesis using inv_skip [OF i] by simp
  next
    case False
    define z where "z = ?x\<lparr>atPending := ensurePendingTaskControlRevision uuid (submission message (tyNext y))\<rparr>"
    have s': "s' = set_task t z (tyState y)" "st = TaskQueued"
      using False q by (auto simp: queue_on_def queuePendingOnTask_def z_def)
    have z: "held z = Some (tyNext y)" "atPendingSteering z = False" "atDone z = atDone ?x" "atPhase z = atPhase ?x"
      using m False by (auto simp: z_def held_def ensurePendingTaskControlRevision_def submission_def)
    have "slots (tyState y) t = Some (None, False)" using False by (simp add: slots_running [OF r] held_def)
    from fates_queue [OF d(3) this] show ?thesis
      using d r l z s' table_set_task [OF d(1) l, of z]
      by (intro task_invI) (auto simp: submitted_def slots_set_task claims_ok_def terminals_same)
  qed
qed

lemma inv_admit:
  assumes i: "task_inv y" and m: "message \<noteq> []"
    and a: "beginOrQueueActiveTask uuid key (newActiveAgentTask sha uuid' meta) (submission message (tyNext y)) (tyState y) = (st, t, s')"
  shows "task_inv (submitted st s' y)"
proof (cases "skDraining (tyState y)")
  case True
  then show ?thesis using a inv_skip [OF i] by (auto simp: beginOrQueueActiveTask_def)
next
  case False
  show ?thesis
  proof (cases "task_at (tyState y) key")
    case None
    obtain u s'' where b: "add_task key (newActiveAgentTask sha uuid' meta) (tyState y) = (u, s'')" by (metis prod.collapse)
    with a False None have "s' = s''" "st = TaskStarted" by (auto simp: beginOrQueueActiveTask_def)
    with inv_add [OF i None b] show ?thesis by (intro inv_started) simp_all
  next
    case (Some u)
    obtain st' s'' where q: "queue_on uuid (submission message (tyNext y)) u (tyState y) = (st', s'')" by (metis prod.collapse)
    with a False Some have "s' = s''" "st = st'" by (auto simp: beginOrQueueActiveTask_def)
    with inv_queue [OF i Some m q] show ?thesis by simp
  qed
qed

lemma inv_admit_claude:
  assumes i: "task_inv y" and m: "message \<noteq> []"
    and a: "beginOrQueueClaudeTask uuid key route (newActiveAgentTask sha uuid' meta) (submission message (tyNext y)) (tyState y) = (st, t, s')"
  shows "task_inv (submitted st s' y)"
proof (cases "\<exists>u. \<not> skDraining (tyState y) \<and> task_at (tyState y) key = Some u \<and> atRouteUserID (skTasks (tyState y) ! u) \<noteq> go_trim route")
  case True
  then show ?thesis using a inv_skip [OF i] by (auto simp: beginOrQueueClaudeTask_def)
next
  case False
  then have "beginOrQueueActiveTask uuid key (newActiveAgentTask sha uuid' meta) (submission message (tyNext y)) (tyState y) = (st, t, s')"
    using a by (auto simp: beginOrQueueClaudeTask_def beginOrQueueActiveTask_def split: option.splits)
  with inv_admit [OF i m] show ?thesis by blast
qed

lemma inv_queue_pending:
  assumes i: "task_inv y" and m: "message \<noteq> []"
    and a: "queuePendingActiveTask uuid key (submission message (tyNext y)) (tyState y) = (st, s')"
  shows "task_inv (submitted st s' y)"
proof (cases "skDraining (tyState y) \<or> task_at (tyState y) key = None")
  case True
  then have "s' = tyState y" "st \<noteq> TaskQueued" using a by (auto simp: queuePendingActiveTask_def split: if_splits)
  with inv_skip [OF i] show ?thesis by simp
next
  case False
  then obtain u where "task_at (tyState y) key = Some u" by auto
  with inv_queue [OF i _ m] False a show ?thesis by (simp add: queuePendingActiveTask_def)
qed

subsection \<open>Guides\<close>

lemma inv_redirect:
  assumes i: "task_inv y" and a: "detachPendingGuideExpected sha key actor e (tyState y) = (s', r, denied)"
  shows "task_inv (y\<lparr>tyState := s', tyFates := tyFates y @
      (case r of None \<Rightarrow> [] | Some (t, p) \<Rightarrow> fates_of FateRedirected (pgRun p))\<rparr>)"
proof (cases r)
  case None
  then show ?thesis using a i by (auto simp: detachPendingGuideExpected_def Let_def split: option.splits if_splits)
next
  case (Some tp)
  then obtain t p where tp: "r = Some (t, p)" by (cases tp) auto
  let ?x = "skTasks (tyState y) ! t"
  define z where "z = ?x\<lparr>atPending := no_pending, atDetached := True, atCanceled := True\<rparr>"
  have t: "task_at (tyState y) key = Some t" and p: "p = atPending ?x" "pgMessage p \<noteq> []" and s': "s' = set_task t z (tyState y)"
    using a tp by (auto simp: detachPendingGuideExpected_def Let_def z_def split: option.splits if_splits)
  have "pgRun p = held ?x" using p by (simp add: held_def)
  then show ?thesis
    using inv_take [OF i t refl, of z FateRedirected] tp s' by (simp add: z_def held_def no_pending_def)
qed

lemma inv_withdraw:
  assumes i: "task_inv y" and a: "clearPendingGuideExpected sha key actor e (tyState y) = (s', cleared, denied)"
  shows "task_inv (y\<lparr>tyState := s', tyFates := tyFates y @
      (case task_at (tyState y) key of None \<Rightarrow> [] | Some t \<Rightarrow>
         if cleared then fates_of FateWithdrawn (held (skTasks (tyState y) ! t)) else [])\<rparr>)"
proof (cases cleared)
  case False
  then have "s' = tyState y" using a by (auto simp: clearPendingGuideExpected_def Let_def split: option.splits if_splits)
  then show ?thesis using i False by (auto split: option.splits)
next
  case True
  then obtain t where t: "task_at (tyState y) key = Some t"
      "s' = set_task t ((skTasks (tyState y) ! t)\<lparr>atPending := no_pending\<rparr>) (tyState y)"
    using a by (auto simp: clearPendingGuideExpected_def Let_def split: option.splits if_splits)
  then show ?thesis
    using inv_take [OF i t(1) refl, of "(skTasks (tyState y) ! t)\<lparr>atPending := no_pending\<rparr>" FateWithdrawn] True
    by (simp add: held_def no_pending_def)
qed

lemma inv_guide:
  assumes i: "task_inv y" and a: "takeExternalCodexGuideExpected sha key actor e (tyState y) = (s', r, denied)"
  shows "task_inv (y\<lparr>tyState := s', tyFates := tyFates y @
      (case r of None \<Rightarrow> [] | Some (t, p, thread, turn) \<Rightarrow> fates_of FateGuided (pgRun p))\<rparr>)"
proof (cases r)
  case None
  then show ?thesis using a i by (auto simp: takeExternalCodexGuideExpected_def Let_def split: option.splits if_splits)
next
  case (Some q)
  then obtain t p th tu where q: "r = Some (t, p, th, tu)" by (cases q) auto
  let ?x = "skTasks (tyState y) ! t"
  define z where "z = ?x\<lparr>atPendingSteering := True\<rparr>"
  have t: "task_at (tyState y) key = Some t" and p: "p = atPending ?x" "pgMessage p \<noteq> []" "\<not> atPendingSteering ?x"
    and s': "s' = set_task t z (tyState y)"
    using a q by (auto simp: takeExternalCodexGuideExpected_def Let_def z_def split: option.splits if_splits)
  note d = task_invD [OF i] and u = task_at_running [OF t] and l = task_at_less [OF task_invD(1) [OF i] t]
  have h: "held ?x = pgRun p" "held z = pgRun p" using p by (simp_all add: held_def z_def)
  have "slots (tyState y) t = Some (pgRun p, False)" using p h by (simp add: slots_running [OF u])
  from fates_guide [OF d(3) this] show ?thesis
    using d u l s' q h table_set_task [OF d(1) l, of z]
    by (intro task_invI) (auto simp: z_def slots_set_task claims_ok_def terminals_same)
qed

lemma inv_guide_done:
  assumes i: "task_inv y" and l: "t < length (skTasks (tyState y))"
    and a: "finishExternalCodexGuide key t True (tyState y) = (s', p)"
  shows "task_inv (y\<lparr>tyState := s'\<rparr>)"
proof (cases "atPendingSteering (skTasks (tyState y) ! t)")
  case False
  then show ?thesis using a i by (auto simp: finishExternalCodexGuide_def Let_def)
next
  case True
  let ?x = "skTasks (tyState y) ! t"
  define z where "z = ?x\<lparr>atPendingSteering := False, atPending := no_pending\<rparr>"
  note d = task_invD [OF i]
  have s': "s' = set_task t z (tyState y)" using a True by (auto simp: finishExternalCodexGuide_def Let_def z_def)
  have z: "held z = None" "\<not> atPendingSteering z" "atDone z = atDone ?x" "atPhase z = atPhase ?x"
    by (simp_all add: z_def held_def no_pending_def)
  have "fates_inv (slots s') (tyFates y) (tyNext y) (tyQueued y)"
  proof (cases "t \<in> running_at (tyState y)")
    case run: True
    have sl: "slots (tyState y) t = Some (held ?x, True)" using True by (simp add: slots_running [OF run])
    have "n \<in> fst ` set (tyFates y)" if "held ?x = Some n" for n
      using fates_invD(5) [OF d(3)] sl that by (force simp: in_guided)
    from fates_clear [OF d(3) sl this, of "Some (None, False)"] show ?thesis
      using run z s' l by (simp add: slots_set_task)
  qed (use d(3) s' l in \<open>simp add: slots_set_task\<close>)
  then show ?thesis
    using d z s' l table_set_task [OF d(1) l, of z]
    by (intro task_invI) (auto simp: claims_ok_def terminals_same)
qed

subsection \<open>Ends\<close>

text \<open>Removing a task: what waits on it meets a fate, unless a guide has it.\<close>

lemma task_inv_remove:
  assumes i: "task_inv y" and t: "task_at (tyState y) key = Some t" and x: "x = skTasks (tyState y) ! t"
    and z: "atDone z = atDone x"
    and f: "f \<noteq> FateGuided" "f = FateRun \<Longrightarrow> \<not> atPendingSteering x"
    and C: "C = (if atPhase z = TaskTerminal \<and> atPhase x \<noteq> TaskTerminal then [t] else [])"
    and ph: "atPhase x = TaskTerminal \<Longrightarrow> atPhase z = TaskTerminal"
    and F: "F = fates_of f (held x) \<or> F = [] \<and> atPendingSteering x"
  shows "task_inv (y\<lparr>tyState := removed key t z (tyState y), tyClaims := tyClaims y @ C, tyFates := tyFates y @ F\<rparr>)"
proof -
  note d = task_invD [OF i] and r = task_at_running [OF t] and l = task_at_less [OF task_invD(1) [OF i] t]
  note sl = slots_running [OF r, folded x]
  have "fates_inv ((slots (tyState y))(t := None)) (tyFates y @ F) (tyNext y) (tyQueued y)"
  proof (cases "F = fates_of f (held x)")
    case True
    with fates_go [OF d(3) sl f, of None] show ?thesis by simp
  next
    case False
    with F have "F = []" "atPendingSteering x" by auto
    moreover have "n \<in> fst ` set (tyFates y)" if "held x = Some n" for n
      using fates_invD(5) [OF d(3)] sl that calculation(2) by (force simp: in_guided)
    ultimately show ?thesis using fates_clear [OF d(3) sl, of None] by simp
  qed
  moreover have "claims_ok (removed key t z (tyState y)) (tyClaims y @ C)"
    using d(2) C ph in_terminals [OF l] unfolding claims_ok_def removed_terminals [OF l] x by (cases "t \<in> terminals (tyState y)") auto
  ultimately show ?thesis
    using removed_table [OF d(1) t, of z] removed_slots [OF d(1) t, of z] z x by (intro task_invI) simp_all
qed

lemma task_inv_finish:
  assumes i: "task_inv y" and a: "finishActiveTask key t (tyState y) = s'"
  shows "task_inv (y\<lparr>tyState := s', tyFates := tyFates y @
      (if s' = tyState y then [] else fates_of FateDropped (held (skTasks (tyState y) ! t)))\<rparr>)"
proof (cases "task_at (tyState y) key = Some t \<and> atPhase (skTasks (tyState y) ! t) \<noteq> TaskTerminal")
  case False
  then have "s' = tyState y" using a by (auto simp: finishActiveTask_def)
  then show ?thesis using i by simp
next
  case True
  then have s': "s' = removed key t (skTasks (tyState y) ! t) (tyState y)"
    using a by (simp add: finishActiveTask_def removed_def)
  moreover from this have "s' \<noteq> tyState y" using removed_neq True by simp
  ultimately show ?thesis using task_inv_remove [OF i _ refl, of key t "skTasks (tyState y) ! t" FateDropped "[]"] True by simp
qed

lemma claimed_task:
  "claimTerminalLocked x = (c, z) \<Longrightarrow>
     c = (atPhase x \<noteq> TaskTerminal) \<and> atPhase z = TaskTerminal \<and> atDone z = atDone x \<and> held z = held x \<and>
     atPending z = atPending x \<and> atPendingSteering z = atPendingSteering x \<and> atOwner z = atOwner x"
  by (auto simp: claimTerminalLocked_def held_def split: if_splits)

lemma inv_claim:
  assumes i: "task_inv y" and l: "t < length (skTasks (tyState y))" and a: "claimActiveTaskTerminal key t (tyState y) = (s', claimed)"
  shows "task_inv (y\<lparr>tyState := s', tyClaims := tyClaims y @ (if claimed then [t] else [])\<rparr>)"
proof (cases "task_at (tyState y) key = Some t \<and> \<not> atDetached (skTasks (tyState y) ! t)")
  case False
  then show ?thesis using a i by (auto simp: claimActiveTaskTerminal_def)
next
  case True
  let ?x = "skTasks (tyState y) ! t"
  obtain c z where c: "claimTerminalLocked ?x = (c, z)" by (metis prod.collapse)
  note z = claimed_task [OF c] and d = task_invD [OF i]
  have s': "s' = set_task t z (tyState y)" "claimed = c" using a True c by (auto simp: claimActiveTaskTerminal_def)
  have "slots s' = slots (tyState y)"
    using s' z l by (auto simp: slots_set_task slots_running fun_eq_iff)
  moreover have "table_inv s'" using s' z table_set_task [OF d(1) l, of z] by simp
  moreover have "claims_ok s' (tyClaims y @ (if claimed then [t] else []))"
    using d(2) s' z in_terminals [OF l] unfolding claims_ok_def by (cases "t \<in> terminals (tyState y)") (auto simp: terminals_set_task [OF l])
  ultimately show ?thesis using d(3) by (intro task_invI) simp_all
qed

text \<open>Both completions remove a terminal task and hand its message over.\<close>

lemma remove_completed_removed:
  assumes "remove_completed key t x s = (s', p)" and "atPhase x = TaskTerminal"
  obtains z where "s' = removed key t z s" and "atDone z = atDone x" and "atPhase z = TaskTerminal"
    and "(case p of None \<Rightarrow> [] | Some q \<Rightarrow> fates_of FateRun (pgRun q)) = (if atPendingSteering x then [] else fates_of FateRun (held x))"
  using assms
  by (intro that [of "if atPendingSteering x then x else x\<lparr>atPending := no_pending\<rparr>"])
     (auto simp: remove_completed_def removed_def Let_def held_def no_pending_def fates_of_def split: if_splits option.splits)

lemma inv_completed:
  assumes i: "task_inv y" and t: "task_at (tyState y) key = Some t" and x: "x = skTasks (tyState y) ! t"
    and w: "atPhase w = TaskTerminal" "atDone w = atDone x" "held w = held x" "atPendingSteering w = atPendingSteering x"
    and a: "remove_completed key t w (tyState y) = (s', p)"
    and C: "C = (if atPhase x = TaskTerminal then [] else [t])"
  shows "task_inv (y\<lparr>tyState := s', tyClaims := tyClaims y @ C,
      tyFates := tyFates y @ (case p of None \<Rightarrow> [] | Some q \<Rightarrow> fates_of FateRun (pgRun q))\<rparr>)"
proof -
  define F where "F = (case p of None \<Rightarrow> [] | Some q \<Rightarrow> fates_of FateRun (pgRun q))"
  obtain z where z: "s' = removed key t z (tyState y)" "atDone z = atDone w" "atPhase z = TaskTerminal"
      "F = (if atPendingSteering w then [] else fates_of FateRun (held w))"
    using remove_completed_removed [OF a w(1)] unfolding F_def by blast
  have "task_inv (y\<lparr>tyState := removed key t z (tyState y), tyClaims := tyClaims y @ C, tyFates := tyFates y @ F\<rparr>)"
    by (rule task_inv_remove [OF i t x, where f = "if atPendingSteering x then FateDropped else FateRun"])
      (use w C z in auto)
  then show ?thesis by (simp add: z(1) F_def)
qed

lemma inv_claim_complete:
  assumes i: "task_inv y" and a: "claimAndCompleteActiveTask key t (tyState y) = (s', p, claimed)"
  shows "task_inv (y\<lparr>tyState := s', tyClaims := tyClaims y @ (if claimed then [t] else []),
      tyFates := tyFates y @ (case p of None \<Rightarrow> [] | Some q \<Rightarrow> fates_of FateRun (pgRun q))\<rparr>)"
proof (cases "task_at (tyState y) key = Some t \<and> atPhase (skTasks (tyState y) ! t) \<noteq> TaskTerminal")
  case False
  then have "s' = tyState y" "p = None" "\<not> claimed"
    using a by (auto simp: claimAndCompleteActiveTask_def claimTerminalLocked_def split: if_splits)
  then show ?thesis using i by simp
next
  case True
  let ?x = "skTasks (tyState y) ! t"
  obtain c z where c: "claimTerminalLocked ?x = (c, z)" by (metis prod.collapse)
  obtain s'' q where q: "remove_completed key t z (tyState y) = (s'', q)" by (metis prod.collapse)
  note z = claimed_task [OF c]
  have e: "s' = s''" "p = q" "claimed" using a True c z q by (auto simp: claimAndCompleteActiveTask_def)
  show ?thesis
    using inv_completed [OF i _ refl _ _ _ _ q, of "[t]"] True z e by simp
qed

lemma inv_finish_claimed:
  assumes i: "task_inv y" and a: "finishClaimedActiveTask key t (tyState y) = (s', p)"
  shows "task_inv (y\<lparr>tyState := s',
      tyFates := tyFates y @ (case p of None \<Rightarrow> [] | Some q \<Rightarrow> fates_of FateRun (pgRun q))\<rparr>)"
proof (cases "task_at (tyState y) key = Some t \<and> atPhase (skTasks (tyState y) ! t) = TaskTerminal")
  case False
  then have "s' = tyState y" "p = None" using a by (auto simp: finishClaimedActiveTask_def split: if_splits)
  then show ?thesis using i by simp
next
  case True
  then have q: "remove_completed key t (skTasks (tyState y) ! t) (tyState y) = (s', p)"
    using a by (simp add: finishClaimedActiveTask_def)
  show ?thesis
    using inv_completed [OF i _ refl _ _ _ _ q, of "[]"] True by simp
qed

lemma inv_cancel:
  assumes i: "task_inv y" and a: "cancelActiveTaskExpected sha key actor e (tyState y) = (s', done, denied)"
  shows "task_inv (y\<lparr>tyState := s'\<rparr>)"
proof (cases "s' = tyState y")
  case False
  then obtain t x c where t: "task_at (tyState y) key = Some t"
      "beginStopRequest (go_trim actor) False StopLocal (skTasks (tyState y) ! t) = (StopAccepted, x, c)"
      "s' = set_task t (x\<lparr>atCanceled := True\<rparr>) (tyState y)"
    using a by (auto simp: cancelActiveTaskExpected_def split: option.splits if_splits prod.splits taskStopStatus.splits)
  have "task_frame (skTasks (tyState y) ! t) (x\<lparr>atCanceled := True\<rparr>)"
    using t(2) by (auto simp: beginStopRequest_def task_frame_def split: if_splits)
  with inv_edit [OF i task_at_less [OF task_invD(1) [OF i] t(1)]] t(3) show ?thesis by simp
qed (use i in simp)

subsection \<open>Reservations\<close>

lemma task_inv_reserve:
  assumes i: "task_inv y" and a: "reserveExternalCodexTask key now p (newActiveAgentTask sha uuid m) who (tyState y) = (s', r)"
  shows "task_inv (y\<lparr>tyState := s'\<rparr>)"
proof (cases "\<not> ppActive p \<or> skDraining (tyState y) \<or> task_at (tyState y) key \<noteq> None")
  case True
  then have "s' = tyState y"
    using a by (cases who) (auto simp: reserveExternalCodexTask_def Let_def split: option.splits if_splits)
  then show ?thesis using i by simp
next
  case False
  let ?x = "(newActiveAgentTask sha uuid m)\<lparr>atPhase := TaskReserved,
       atReservation := Some \<lparr>ecStatus = ReservationReserved, ecWatcherDone = False\<rparr>,
       atView := view_run (atView (newActiveAgentTask sha uuid m)) (shown_progress now p)\<rparr>"
  obtain u s'' where b: "add_task key ?x (tyState y) = (u, s'')" by (metis prod.collapse)
  with a False have "s'' = s'"
    by (cases who) (auto simp: reserveExternalCodexTask_def createExternalCodexTaskReservationLocked_def)
  moreover have "held ?x = held (newActiveAgentTask sha uuid m)" by (simp add: held_def)
  ultimately show ?thesis using inv_add [OF i _ b] False by simp
qed

lemma inv_activate:
  assumes i: "task_inv y" and a: "claimExternalCodexTaskReservationActivation key t (tyState y) = (s', activated)"
  shows "task_inv (y\<lparr>tyState := s'\<rparr>)"
proof (cases "reserved_still key t (tyState y)")
  case True
  let ?x = "skTasks (tyState y) ! t"
  let ?z = "?x\<lparr>atPhase := TaskRunning, atReservation := map_option (\<lambda>c. c\<lparr>ecStatus := ReservationActivated\<rparr>) (atReservation ?x)\<rparr>"
  have "task_frame ?x ?z" "task_at (tyState y) key = Some t" using True by (auto simp: task_frame_def reserved_still_def)
  with inv_edit [OF i task_at_less [OF task_invD(1) [OF i]], of key t ?z] True a show ?thesis
    by (simp add: claimExternalCodexTaskReservationActivation_def Let_def)
next
  case False
  then have "s' = tyState y" using a by (simp add: claimExternalCodexTaskReservationActivation_def)
  then show ?thesis using i by simp
qed

lemma inv_cancel_reserved:
  assumes i: "task_inv y" and a: "cancelReservedExternalCodexTask key t (tyState y) = s'"
  shows "task_inv (y\<lparr>tyState := s', tyClaims := tyClaims y @ (if s' = tyState y then [] else [t]),
      tyFates := tyFates y @ (if s' = tyState y then [] else fates_of FateDropped (held (skTasks (tyState y) ! t)))\<rparr>)"
proof (cases "reserved_still key t (tyState y)")
  case False
  then have "s' = tyState y" using a by (simp add: cancelReservedExternalCodexTask_def)
  then show ?thesis using i by simp
next
  case True
  let ?x = "skTasks (tyState y) ! t"
  define z where "z = (snd (claimTerminalLocked ?x))\<lparr>atReservation := map_option (\<lambda>c. c\<lparr>ecStatus := ReservationCanceled, ecWatcherDone := True\<rparr>)
                     (atReservation (snd (claimTerminalLocked ?x))), atCanceled := True\<rparr>"
  have k: "task_at (tyState y) key = Some t" "atPhase ?x = TaskReserved" using True by (auto simp: reserved_still_def)
  have s': "s' = removed key t z (tyState y)"
    using a True by (simp add: cancelReservedExternalCodexTask_def removed_def z_def Let_def)
  have z: "atPhase z = TaskTerminal" "atDone z = atDone ?x" using k by (simp_all add: z_def claimTerminalLocked_def)
  have "s' \<noteq> tyState y" using removed_neq [OF k(1)] s' by simp
  then show ?thesis
    using task_inv_remove [OF i k(1) refl, of z FateDropped "[t]"] k z s' by simp
qed

subsection \<open>Leaving and draining\<close>

lemma inv_detach:
  assumes i: "task_inv y" and a: "detachCodexFrontendTaskWithOptions key route thread force progress_free prepared (tyState y) = (s', r)"
  shows "task_inv (y\<lparr>tyState := s', tyFates := tyFates y @
      (case task_at (tyState y) (go_trim key) of None \<Rightarrow> [] | Some t \<Rightarrow>
         if r = Detached then fates_of FateDropped (held (skTasks (tyState y) ! t)) else [])\<rparr>)"
proof (cases "r = Detached")
  case False
  then have "s' = tyState y"
    using a by (auto simp: detachCodexFrontendTaskWithOptions_def Let_def split: option.splits if_splits)
  then show ?thesis using i False by (auto split: option.splits)
next
  case True
  then obtain t where t: "task_at (tyState y) (go_trim key) = Some t" and ph: "atPhase (skTasks (tyState y) ! t) \<noteq> TaskTerminal"
    and s': "s' = removed (go_trim key) t (detached_task (fst (reduceTaskView (atView (skTasks (tyState y) ! t)) TaskViewClosed)) (skTasks (tyState y) ! t)) (tyState y)"
    using a by (auto simp: detachCodexFrontendTaskWithOptions_def Let_def removed_def split: option.splits if_splits)
  show ?thesis
    using task_inv_remove [OF i t refl, of _ FateDropped "[]"] t ph s' True by (simp add: detached_task_def Let_def)
qed

lemma drain_task_fields:
  "atDone (drain_task x) = atDone x" "(atPhase (drain_task x) = TaskTerminal) = (atPhase x = TaskTerminal)"
  "atPhase x \<noteq> TaskTerminal \<Longrightarrow> held (drain_task x) = None"
  by (simp_all add: drain_task_def held_def no_pending_def)

lemma inv_drain_tasks:
  assumes "task_inv y" and "distinct ts"
    and "\<And>t. t \<in> set ts \<Longrightarrow> t \<in> running_at (tyState y) \<and> atPhase (skTasks (tyState y) ! t) \<noteq> TaskTerminal"
  shows "task_inv (y\<lparr>tyState := foldl (\<lambda>s t. set_task t (drain_task (skTasks s ! t)) s) (tyState y) ts,
      tyFates := tyFates y @ concat (map (\<lambda>t. fates_of FateDropped (held (skTasks (tyState y) ! t))) ts)\<rparr>)"
  using assms
proof (induction ts arbitrary: y)
  case (Cons t ts)
  let ?s = "tyState y" and ?x = "skTasks (tyState y) ! t"
  define y' where "y' = y\<lparr>tyState := set_task t (drain_task ?x) ?s, tyFates := tyFates y @ fates_of FateDropped (held ?x)\<rparr>"
  have t: "t \<in> running_at ?s" "atPhase ?x \<noteq> TaskTerminal" using Cons.prems(3) by auto
  note tab = task_invD(1) [OF Cons.prems(1)]
  obtain key where "(key, t) \<in> set (skActive ?s)" using t(1) by (auto simp: running_at_def)
  then have k: "task_at ?s key = Some t" using tab by (simp add: task_at_def table_inv_def)
  have "task_inv y'"
    unfolding y'_def using t(2) by (intro inv_take [OF Cons.prems(1) k refl]) (simp_all add: drain_task_fields)
  moreover have other: "skTasks (tyState y') ! u = skTasks ?s ! u" if "u \<in> set ts" for u
    using that Cons.prems(2) task_at_less [OF tab k] by (auto simp: y'_def set_task_nth)
  ultimately have rest: "task_inv (y'\<lparr>tyState := foldl (\<lambda>s t. set_task t (drain_task (skTasks s ! t)) s) (tyState y') ts,
      tyFates := tyFates y' @ concat (map (\<lambda>t. fates_of FateDropped (held (skTasks (tyState y') ! t))) ts)\<rparr>)"
    using Cons.prems(2,3) by (intro Cons.IH) (auto simp: other y'_def)
  have same: "map (\<lambda>t. fates_of FateDropped (held (skTasks (tyState y') ! t))) ts = map (\<lambda>t. fates_of FateDropped (held (skTasks ?s ! t))) ts"
    using other by simp
  from rest [unfolded same] show ?case by (simp add: y'_def)
qed simp

lemma running_tasks_props:
  assumes "table_inv s"
  shows "distinct (running_tasks s)" and "t \<in> set (running_tasks s) \<Longrightarrow> t \<in> running_at s \<and> atPhase (skTasks s ! t) \<noteq> TaskTerminal"
  using assms by (auto simp: running_tasks_def table_inv_def running_at_def taskIsRunningForStatusLocked_def)

lemma inv_drain:
  assumes i: "task_inv y" and a: "Drain_enter force (tyState y) = (s', r)"
  shows "task_inv (y\<lparr>tyState := s', tyFates := tyFates y @
      (case r of Inl _ \<Rightarrow> [] | Inr ts \<Rightarrow> concat (map (\<lambda>t. fates_of FateDropped (held (skTasks (tyState y) ! t))) ts))\<rparr>)"
proof (cases "force")
  case False
  then show ?thesis using a inv_draining [OF i] by (auto simp: Drain_enter_def Let_def split: if_splits)
next
  case True
  let ?y = "y\<lparr>tyState := (tyState y)\<lparr>skDraining := True\<rparr>\<rparr>"
  note p = running_tasks_props [OF task_invD(1) [OF i]]
  have "task_inv (?y\<lparr>tyState := foldl (\<lambda>s t. set_task t (drain_task (skTasks s ! t)) s) (tyState ?y) (running_tasks (tyState y)),
      tyFates := tyFates ?y @ concat (map (\<lambda>t. fates_of FateDropped (held (skTasks (tyState ?y) ! t))) (running_tasks (tyState y)))\<rparr>)"
    using p by (intro inv_drain_tasks [OF inv_draining [OF i]]) simp_all
  then show ?thesis using a True by (auto simp: Drain_enter_def Let_def)
qed

lemma task_inv_step: "task_inv y \<Longrightarrow> task_step sha y z \<Longrightarrow> task_inv z"
proof -
  assume i: "task_inv y" and "task_step sha y z"
  from this(2) show "task_inv z"
  proof cases
    case (begin_task key uuid m s' t started)
    with inv_begin [OF i begin_task(2)] show ?thesis by simp
  next
    case (admit message uuid key uuid' m st t s')
    with inv_admit [OF i] show ?thesis by blast
  next
    case (admit_claude message uuid key route uuid' m st t s')
    with inv_admit_claude [OF i] show ?thesis by blast
  next
    case (queue message uuid key st s')
    with inv_queue_pending [OF i] show ?thesis by blast
  next
    case (redirect key actor e s' r denied)
    with inv_redirect [OF i] show ?thesis by blast
  next
    case (withdraw key actor e s' cleared denied)
    with inv_withdraw [OF i] show ?thesis by blast
  next
    case (guide key actor e s' r denied)
    with inv_guide [OF i] show ?thesis by blast
  next
    case (guide_done t key s' p)
    with inv_guide_done [OF i] show ?thesis by blast
  next
    case (finish t key s')
    with task_inv_finish [OF i] show ?thesis by blast
  next
    case (claim t key s' claimed)
    with inv_claim [OF i] show ?thesis by blast
  next
    case (claim_complete t key s' p claimed)
    with inv_claim_complete [OF i] show ?thesis by blast
  next
    case (finish_claimed t key s' p)
    with inv_finish_claimed [OF i] show ?thesis by blast
  next
    case (cancel key actor e s' ok denied)
    with inv_cancel [OF i] show ?thesis by blast
  next
    case (change t op)
    with inv_edit [OF i _ run_task_op_frame] show ?thesis by blast
  next
    case (reserve key now p uuid m who s' r)
    with task_inv_reserve [OF i] show ?thesis by blast
  next
    case (activate t key s' activated)
    with inv_activate [OF i] show ?thesis by blast
  next
    case (cancel_reserved t key s')
    with inv_cancel_reserved [OF i] show ?thesis by blast
  next
    case (detach key route thread force progress_free prepared s' r)
    with inv_detach [OF i] show ?thesis by blast
  next
    case (drain force s' r)
    with inv_drain [OF i] show ?thesis by blast
  next
    case cancel_drain
    with inv_draining [OF i] show ?thesis by (simp add: CancelDrain_def)
  qed
qed

lemma task_inv_init: "task_init y \<Longrightarrow> task_inv y"
  by (simp add: task_init_def task_inv_def table_inv_def claims_ok_def fates_inv_def running_at_def terminals_def
      slots_def gone_def guided_def)

interpretation tasks: invariant_system task_init "task_step sha" task_inv for sha
  by unfold_locales (auto intro: task_inv_init task_inv_step)

end
