(* ===== verification/Task_Contract.thy ===== *)
theory Task_Contract
  imports Task_Runs
begin

section \<open>What the table of tasks promises\<close>

subsection \<open>Slots and ends\<close>

lemma running_iff: "table_inv s \<Longrightarrow> t \<in> running_at s \<longleftrightarrow> (\<exists>k. task_at s k = Some t)"
proof
  assume i: "table_inv s" and "t \<in> running_at s"
  then obtain k where "(k, t) \<in> set (skActive s)" by (auto simp: running_at_def)
  then have "task_at s k = Some t" using i by (simp add: task_at_def table_inv_def)
  then show "\<exists>k. task_at s k = Some t" ..
qed (auto intro: task_at_running)

lemma one_key: "table_inv s \<Longrightarrow> task_at s k = Some t \<Longrightarrow> task_at s l = Some t \<Longrightarrow> k = l"
  unfolding table_inv_def task_at_def
  by (metis distinct_map fst_conv inj_onD map_of_SomeD snd_conv)

lemma drained_step:
  assumes "task_step sha y z" and "skDraining (tyState y)"
  shows "length (skTasks (tyState z)) = length (skTasks (tyState y)) \<and> tyQueued z = tyQueued y"
proof -
  have fold: "length (skTasks (foldl (\<lambda>s t. set_task t (f (skTasks s ! t)) s) s ts)) = length (skTasks s)" for f s ts
    by (induction ts arbitrary: s) simp_all
  have rem: "length (skTasks (fst (remove_completed key t x s))) = length (skTasks s)" for key t x s
    by (simp add: remove_completed_def Let_def)
  from assms(1) show ?thesis
  proof cases
    case (claim_complete t key s' p claimed)
    then show ?thesis using rem [of key t _ "tyState y"]
      by (auto simp: claimAndCompleteActiveTask_def split: if_splits prod.splits) (metis fst_conv)
  next
    case (finish_claimed t key s' p)
    then show ?thesis using rem [of key t _ "tyState y"]
      by (auto simp: finishClaimedActiveTask_def split: if_splits) (metis fst_conv)
  next
    case (drain force s' r)
    then show ?thesis by (auto simp: Drain_enter_def Let_def fold split: if_splits)
  next
    case (reserve key now p uuid m who s' r)
    then show ?thesis using assms(2) by (cases who) (auto simp: reserveExternalCodexTask_def split: if_splits)
  qed (use assms(2) in \<open>auto simp: beginActiveTask_def beginOrQueueActiveTask_def beginOrQueueClaudeTask_def
      queuePendingActiveTask_def submitted_def detachPendingGuideExpected_def clearPendingGuideExpected_def
      takeExternalCodexGuideExpected_def finishExternalCodexGuide_def finishActiveTask_def claimActiveTaskTerminal_def
      cancelActiveTaskExpected_def claimExternalCodexTaskReservationActivation_def cancelReservedExternalCodexTask_def
      detachCodexFrontendTaskWithOptions_def CancelDrain_def Let_def split: option.splits if_splits prod.splits taskStopStatus.splits\<close>)
qed

text \<open>
  C20: the table of tasks holds a task under one key at most, exactly as long as the task's \<open>done\<close> channel is open;
  the channel is closed at most once, so no close panics and no waiter is left behind a task that is gone. The
  end of a task is claimed at most once, and a task is terminal exactly when its end was claimed. And
  while the handler drains no task begins and no message is told that it waits.
\<close>

theorem task_slots_exclusive:
  assumes "reach task_init (task_step sha) y"
  shows "(task_at (tyState y) k = Some t \<and> task_at (tyState y) l = Some t \<longrightarrow> k = l) \<and>
    (t < length (skTasks (tyState y)) \<longrightarrow>
       atDone (skTasks (tyState y) ! t) \<le> 1 \<and>
       (atDone (skTasks (tyState y) ! t) = 0 \<longleftrightarrow> (\<exists>k. task_at (tyState y) k = Some t)) \<and>
       (t \<in> set (tyClaims y) \<longleftrightarrow> atPhase (skTasks (tyState y) ! t) = TaskTerminal)) \<and>
    (task_at (tyState y) k = Some t \<longrightarrow> t < length (skTasks (tyState y))) \<and>
    distinct (tyClaims y) \<and>
    (skDraining (tyState y) \<and> task_step sha y z \<longrightarrow>
       length (skTasks (tyState z)) = length (skTasks (tyState y)) \<and> tyQueued z = tyQueued y)"
proof -
  note i = tasks.reach_inv [OF assms] and d = task_invD [OF tasks.reach_inv [OF assms]]
  have "k = l" if "task_at (tyState y) k = Some t" "task_at (tyState y) l = Some t"
    using one_key [OF d(1) that] .
  moreover have "atDone (skTasks (tyState y) ! t) = (if \<exists>k. task_at (tyState y) k = Some t then 0 else 1)"
    if "t < length (skTasks (tyState y))"
    using that d(1) running_iff [OF d(1)] by (simp add: table_inv_def)
  moreover have "t \<in> set (tyClaims y) \<longleftrightarrow> atPhase (skTasks (tyState y) ! t) = TaskTerminal" if "t < length (skTasks (tyState y))"
    using d(2) in_terminals [OF that] by (simp add: claims_ok_def)
  moreover have "distinct (tyClaims y)" using d(2) by (simp add: claims_ok_def)
  ultimately show ?thesis using drained_step task_at_less [OF d(1)] by auto
qed

subsection \<open>Waiting messages\<close>

lemma complete_hands_over:
  assumes "task_at s key = Some t" and "held (skTasks s ! t) = Some n" and "\<not> atPendingSteering (skTasks s ! t)"
    and "table_inv s"
  shows "\<exists>s' q. completeAgentTaskLifecycle key t s = (s', Some q) \<and> pgRun q = Some n \<and> task_at s' key = None"
proof -
  have gone: "task_at (set_task t x (drop_key key s)) key = None" for x
    by (simp add: task_at_def drop_key_def AList.delete_conv')
  have "pgMessage (atPending (skTasks s ! t)) \<noteq> [] \<and> pgRun (atPending (skTasks s ! t)) = Some n"
    using assms(2) by (auto simp: held_def split: if_splits)
  then show ?thesis
    using assms(1,3) gone
    by (auto simp: completeAgentTaskLifecycle_def finishClaimedActiveTask_def completeActiveTask_def
        claimAndCompleteActiveTask_def claimTerminalLocked_def remove_completed_def Let_def)
qed

lemma occurs_once: "distinct (map fst xs) \<Longrightarrow> (n, f) \<in> set xs \<Longrightarrow> (n, g) \<in> set xs \<Longrightarrow> f = g"
  by (rule eq_key_imp_eq_value)

lemma count_once: "distinct xs \<Longrightarrow> count_list xs n \<le> 1"
  by (induction xs) (auto simp: count_notin)


subsection \<open>Stopping\<close>

text \<open>What no critical section changes, and the order of the phases.\<close>

definition task_ahead :: "activeAgentTask \<Rightarrow> activeAgentTask \<Rightarrow> bool" where
  "task_ahead x z \<longleftrightarrow>
     atOwner z = atOwner x \<and> atTaskID z = atTaskID x \<and> (atCanceled x \<longrightarrow> atCanceled z) \<and>
     (atPhase x = TaskTerminal \<longrightarrow> atPhase z = TaskTerminal) \<and>
     (atPhase x = TaskStopping \<longrightarrow> atPhase z \<in> {TaskStopping, TaskTerminal})"

lemma ahead_refl [simp]: "task_ahead x x"
  by (simp add: task_ahead_def)

lemma ahead_trans: "task_ahead x z \<Longrightarrow> task_ahead z w \<Longrightarrow> task_ahead x w"
  by (auto simp: task_ahead_def)

lemma ahead_set_task:
  assumes "task_ahead (skTasks s ! u) x"
  shows "task_ahead (skTasks s ! t) (skTasks (set_task u x s) ! t)"
proof (cases "u < length (skTasks s)")
  case True
  then show ?thesis using assms by (simp add: set_task_nth)
next
  case False
  then have "(skTasks s)[u := x] = skTasks s" by (intro list_update_beyond) simp
  then show ?thesis by (simp add: set_task_def)
qed

lemma ahead_op: "task_ahead x (run_task_op op x)"
  by (cases op)
    (auto simp: task_ahead_def markCodexDisconnected_def markCodexObservationInterrupted_def markCodexRunning_def
      refreshExternalCodexTurn_def replaceCodexThread_def setTraceThreadTurn_def beginStopRequest_def commitRemoteStop_def
      rollbackRemoteStop_def attachProgressSession_def detachProgressSession_def show_event_def Drain_signal_def Let_def)

lemma ahead_close [simp]: "task_ahead x (close_done z) = task_ahead x z"
  by (simp add: task_ahead_def close_done_def)

lemma ahead_claim: "claimTerminalLocked x = (c, z) \<Longrightarrow> task_ahead x z"
  by (auto simp: claimTerminalLocked_def task_ahead_def split: if_splits)

lemma ahead_remove_completed:
  assumes "remove_completed key u x s = (s', p)" and "task_ahead (skTasks s ! u) x"
  shows "task_ahead (skTasks s ! t) (skTasks s' ! t)"
proof -
  have "s' = set_task u (close_done (if atPhase x = TaskTerminal \<and> \<not> atPendingSteering x then x\<lparr>atPending := no_pending\<rparr> else x)) (drop_key key s)"
    using assms(1) by (simp add: remove_completed_def Let_def)
  moreover have "task_ahead (skTasks s ! u) (x\<lparr>atPending := no_pending\<rparr>)" using assms(2) by (simp add: task_ahead_def)
  ultimately show ?thesis using ahead_set_task [of "drop_key key s" u _ t] assms(2) by simp
qed

lemma ahead_added: "add_task key x s = (u, s') \<Longrightarrow> t < length (skTasks s) \<Longrightarrow> skTasks s' ! t = skTasks s ! t"
  by (auto simp: add_task_def Let_def nth_append)

lemma task_at_fields [simp]: "task_ahead x (x\<lparr>atPending := p\<rparr>)" "task_ahead x (x\<lparr>atPendingSteering := b\<rparr>)"
    "task_ahead x (x\<lparr>atPending := p, atDetached := b, atCanceled := True\<rparr>)"
    "task_ahead x (x\<lparr>atPendingSteering := b, atPending := p\<rparr>)"
    "task_ahead x z \<Longrightarrow> task_ahead x (z\<lparr>atCanceled := True\<rparr>)"
  by (simp_all add: task_ahead_def)

lemma ahead_live:
  "atPhase x \<notin> {TaskTerminal, TaskStopping} \<Longrightarrow> atOwner z = atOwner x \<Longrightarrow> atTaskID z = atTaskID x \<Longrightarrow>
    atCanceled z = (atCanceled x \<or> b) \<Longrightarrow> task_ahead x z"
  by (auto simp: task_ahead_def)

lemma ahead_queue_on: "queue_on uuid p u s = (st, s') \<Longrightarrow> task_ahead (skTasks s ! t) (skTasks s' ! t)"
  by (auto simp: queue_on_def queuePendingOnTask_def intro!: ahead_set_task split: if_splits)

lemma ahead_drain: "task_ahead x (drain_task x)"
  by (auto simp: drain_task_def task_ahead_def)

lemma ahead_drain_fold:
  "task_ahead (skTasks s ! t) (skTasks (foldl (\<lambda>s u. set_task u (drain_task (skTasks s ! u)) s) s ts) ! t)"
proof (induction ts arbitrary: s)
  case (Cons u ts)
  show ?case using ahead_trans [OF ahead_set_task [OF ahead_drain] Cons.IH] by simp
qed simp

lemma ahead_detached: "task_ahead x (detached_task v x)"
  by (simp add: task_ahead_def detached_task_def Let_def)

lemma step_ahead:
  assumes "task_step sha y z" and "t < length (skTasks (tyState y))"
  shows "task_ahead (skTasks (tyState y) ! t) (skTasks (tyState z) ! t)"
  using assms(1)
proof cases
  case (begin_task key uuid m s' u started)
  then show ?thesis using assms(2) ahead_added
    by (auto simp: beginActiveTask_def split: option.splits if_splits prod.splits)
next
  case (admit message uuid key uuid' m st u s')
  then show ?thesis using assms(2) ahead_added ahead_queue_on
    by (auto simp: beginOrQueueActiveTask_def submitted_def split: option.splits if_splits prod.splits)
next
  case (admit_claude message uuid key route uuid' m st u s')
  then show ?thesis using assms(2) ahead_added ahead_queue_on
    by (auto simp: beginOrQueueClaudeTask_def submitted_def Let_def split: option.splits if_splits prod.splits)
next
  case (queue message uuid key st s')
  then show ?thesis using ahead_queue_on
    by (auto simp: queuePendingActiveTask_def submitted_def split: option.splits if_splits)
next
  case (redirect key actor e s' r denied)
  then show ?thesis
    by (auto simp: detachPendingGuideExpected_def Let_def intro!: ahead_set_task split: option.splits if_splits)
next
  case (withdraw key actor e s' cleared denied)
  then show ?thesis
    by (auto simp: clearPendingGuideExpected_def Let_def intro!: ahead_set_task split: option.splits if_splits)
next
  case (guide key actor e s' r denied)
  then show ?thesis
    by (auto simp: takeExternalCodexGuideExpected_def Let_def intro!: ahead_set_task split: option.splits if_splits)
next
  case (guide_done u key s' p)
  then show ?thesis
    by (auto simp: finishExternalCodexGuide_def Let_def intro!: ahead_set_task split: if_splits)
next
  case (finish u key s')
  then show ?thesis using ahead_set_task [of "drop_key key (tyState y)" u "close_done (skTasks (tyState y) ! u)" t]
    by (auto simp: finishActiveTask_def split: if_splits)
next
  case (claim u key s' claimed)
  then show ?thesis using ahead_claim
    by (auto simp: claimActiveTaskTerminal_def intro!: ahead_set_task split: if_splits prod.splits)
next
  case (claim_complete u key s' p claimed)
  then show ?thesis using ahead_claim ahead_remove_completed
    by (auto simp: claimAndCompleteActiveTask_def split: if_splits prod.splits)
next
  case (finish_claimed u key s' p)
  then show ?thesis using ahead_remove_completed [OF _ ahead_refl]
    by (auto simp: finishClaimedActiveTask_def split: if_splits)
next
  case (cancel key actor e s' ok denied)
  then show ?thesis
    by (auto simp: cancelActiveTaskExpected_def beginStopRequest_def
        intro!: ahead_set_task ahead_live split: option.splits if_splits)
next
  case (change u op)
  then show ?thesis using ahead_op by (auto intro!: ahead_set_task)
next
  case (reserve key now p uuid m who s' r)
  then show ?thesis using assms(2) ahead_added
    by (cases who) (auto simp: reserveExternalCodexTask_def createExternalCodexTaskReservationLocked_def Let_def
        split: option.splits if_splits prod.splits)
next
  case (activate u key s' activated)
  then show ?thesis
    by (auto simp: claimExternalCodexTaskReservationActivation_def reserved_still_def Let_def
        intro!: ahead_set_task ahead_live [where b = False] split: if_splits)
next
  case (cancel_reserved u key s')
  then show ?thesis using ahead_set_task [of "drop_key key (tyState y)" u _ t]
    by (auto simp: cancelReservedExternalCodexTask_def reserved_still_def claimTerminalLocked_def Let_def ahead_live [where b = True])
next
  case (detach key route thread force progress_free prepared s' r)
  then show ?thesis using ahead_set_task [of "drop_key (go_trim key) (tyState y)" _ _ t]
    by (auto simp: detachCodexFrontendTaskWithOptions_def ahead_detached Let_def split: option.splits if_splits)
next
  case (drain force s' r)
  then show ?thesis using ahead_drain_fold [of "(tyState y)\<lparr>skDraining := True\<rparr>" t]
    by (auto simp: Drain_enter_def Let_def split: if_splits)
next
  case cancel_drain
  then show ?thesis by (simp add: CancelDrain_def)
qed

lemma step_length:
  assumes "task_step sha y z"
  shows "length (skTasks (tyState y)) \<le> length (skTasks (tyState z))"
proof -
  have fold: "length (skTasks (foldl (\<lambda>s t. set_task t (f (skTasks s ! t)) s) s ts)) = length (skTasks s)" for f s ts
    by (induction ts arbitrary: s) simp_all
  have rem: "length (skTasks (fst (remove_completed key t x s))) = length (skTasks s)" for key t x s
    by (simp add: remove_completed_def Let_def)
  from assms show ?thesis
  proof cases
    case (claim_complete t key s' p claimed)
    then show ?thesis using rem [of key t _ "tyState y"]
      by (auto simp: claimAndCompleteActiveTask_def split: if_splits prod.splits) (metis fst_conv order_refl)
  next
    case (finish_claimed t key s' p)
    then show ?thesis using rem [of key t _ "tyState y"]
      by (auto simp: finishClaimedActiveTask_def split: if_splits) (metis fst_conv order_refl)
  next
    case (drain force s' r)
    then show ?thesis by (auto simp: Drain_enter_def Let_def fold split: if_splits)
  next
    case (reserve key now p uuid m who s' r)
    then show ?thesis
      by (cases who) (auto simp: reserveExternalCodexTask_def createExternalCodexTaskReservationLocked_def add_task_def Let_def
        split: option.splits if_splits)
  qed (auto simp: beginActiveTask_def beginOrQueueActiveTask_def beginOrQueueClaudeTask_def queue_on_def add_task_def
      queuePendingActiveTask_def submitted_def detachPendingGuideExpected_def clearPendingGuideExpected_def
      takeExternalCodexGuideExpected_def finishExternalCodexGuide_def finishActiveTask_def claimActiveTaskTerminal_def
      cancelActiveTaskExpected_def claimExternalCodexTaskReservationActivation_def cancelReservedExternalCodexTask_def
      detachCodexFrontendTaskWithOptions_def CancelDrain_def Let_def split: option.splits if_splits prod.splits taskStopStatus.splits)
qed

lemma steps_ahead:
  assumes "(task_step sha)\<^sup>*\<^sup>* y z" and "t < length (skTasks (tyState y))"
  shows "t < length (skTasks (tyState z)) \<and> task_ahead (skTasks (tyState y) ! t) (skTasks (tyState z) ! t)"
  using assms
proof (induction rule: rtranclp_induct)
  case (step u z)
  then show ?case using step_ahead [OF step.hyps(2)] step_length [OF step.hyps(2)] ahead_trans by fastforce
qed simp

text \<open>
  C22: only the owner of a task stops it, and an accepted stop holds. A request of anybody else changes nothing. After
  the owner's request (no remote stop being under way) the context of the task is canceled and the task stays stopping
  until its end, whatever the goroutines do next: no report of the agent, no reconnection and no
  reservation makes it run again. An ended task stays ended, and the answer of a remote stop finds it ended or makes it stop.
\<close>

theorem accepted_stop_holds:
  assumes "reach task_init (task_step sha) y" and "task_at (tyState y) key = Some t"
    and "cancelActiveTaskExpected sha key actor e (tyState y) = (s', ok, denied)"
    and "(task_step sha)\<^sup>*\<^sup>* (y\<lparr>tyState := s'\<rparr>) z"
  shows "(denied \<longrightarrow> atOwner (skTasks (tyState y) ! t) \<noteq> go_trim actor) \<and>
    (atOwner (skTasks (tyState y) ! t) \<noteq> go_trim actor \<longrightarrow> \<not> ok \<and> s' = tyState y) \<and>
    (ok \<and> \<not> atStopRequested (skTasks (tyState y) ! t) \<longrightarrow> atPhase (skTasks (tyState z) ! t) \<in> {TaskStopping, TaskTerminal}) \<and>
    (ok \<and> atPhase (skTasks (tyState y) ! t) \<noteq> TaskStopping \<and> \<not> atStopRequested (skTasks (tyState y) ! t) \<longrightarrow>
       atCanceled (skTasks (tyState z) ! t)) \<and>
    (atPhase (skTasks (tyState y) ! t) = TaskTerminal \<longrightarrow> \<not> ok \<and> atPhase (skTasks (tyState z) ! t) = TaskTerminal) \<and>
    atPhase (snd (commitRemoteStop (skTasks (tyState z) ! t))) \<in> {TaskStopping, TaskTerminal} \<and>
    (fst (commitRemoteStop (skTasks (tyState z) ! t)) = StopTerminal \<longleftrightarrow> atPhase (skTasks (tyState z) ! t) = TaskTerminal)"
proof -
  let ?x = "skTasks (tyState y) ! t"
  have t: "t < length (skTasks (tyState y))"
    using task_at_less [OF task_invD(1) [OF tasks.reach_inv [OF assms(1)]] assms(2)] .
  have s': "length (skTasks s') = length (skTasks (tyState y))" "denied \<longrightarrow> atOwner ?x \<noteq> go_trim actor"
    "atOwner ?x \<noteq> go_trim actor \<longrightarrow> \<not> ok \<and> s' = tyState y"
    "ok \<and> \<not> atStopRequested ?x \<longrightarrow> atPhase (skTasks s' ! t) = TaskStopping"
    "ok \<and> atPhase ?x \<noteq> TaskStopping \<and> \<not> atStopRequested ?x \<longrightarrow> atCanceled (skTasks s' ! t)"
    "atPhase ?x = TaskTerminal \<longrightarrow> \<not> ok \<and> s' = tyState y"
    using assms(2,3) t by (auto simp: cancelActiveTaskExpected_def beginStopRequest_def set_task_nth split: if_splits)
  have "task_ahead (skTasks s' ! t) (skTasks (tyState z) ! t)"
    using steps_ahead [OF assms(4), of t] t s'(1) by simp
  then show ?thesis using s' by (auto simp: task_ahead_def commitRemoteStop_def Let_def)
qed

subsection \<open>Draining\<close>

lemma drain_fold_nth:
  "distinct ts \<Longrightarrow> set ts \<subseteq> {..<length (skTasks s)} \<Longrightarrow>
   skTasks (foldl (\<lambda>s t. set_task t (drain_task (skTasks s ! t)) s) s ts) ! u =
     (if u \<in> set ts then drain_task (skTasks s ! u) else skTasks s ! u)"
proof (induction ts arbitrary: s)
  case (Cons t ts)
  then show ?case by (auto simp: set_task_nth)
qed simp

lemma drain_fold_fields:
  "skActive (foldl (\<lambda>s t. set_task t (f (skTasks s ! t)) s) s ts) = skActive s \<and>
   skDraining (foldl (\<lambda>s t. set_task t (f (skTasks s ! t)) s) s ts) = skDraining s"
  by (induction ts arbitrary: s) simp_all

lemma running_tasks_set:
  assumes "table_inv s"
  shows "distinct (running_tasks s)"
    and "t \<in> set (running_tasks s) \<longleftrightarrow> (\<exists>key. task_at s key = Some t) \<and> taskIsRunningForStatusLocked (skTasks s ! t)"
  using assms running_iff [OF assms, of t] by (auto simp: running_tasks_def table_inv_def running_at_def)

text \<open>
  C23: a drain without force succeeds exactly if no task runs, and one that fails leaves the handler open, even if it was
  closed before. A drain that succeeds closes the handler. With force every running task is either told to stop or keeps what
  a restart recovers it from, and its waiting message does not run; a task that has ended or
  that its frontend has left is not touched, and no task leaves the table.
\<close>

theorem drain_outcome:
  assumes "reach task_init (task_step sha) y" and "Drain_enter force (tyState y) = (s', r)"
  shows "(r = Inl ErrActiveTasksRunning \<longleftrightarrow>
       \<not> force \<and> (\<exists>key t. task_at (tyState y) key = Some t \<and> taskIsRunningForStatusLocked (skTasks (tyState y) ! t))) \<and>
    (r = Inl e \<longrightarrow> e = ErrActiveTasksRunning \<and> s' = (tyState y)\<lparr>skDraining := False\<rparr>) \<and>
    (r = Inr ts \<longrightarrow> skDraining s' \<and> skActive s' = skActive (tyState y) \<and>
       (task_at s' key = Some t \<longrightarrow>
          (if t \<in> set ts then held (skTasks s' ! t) = None \<and>
             (atPhase (skTasks s' ! t) = TaskStopping \<or> atPreserveRecoveryOnDrain (skTasks s' ! t))
           else skTasks s' ! t = skTasks (tyState y) ! t)) \<and>
       (task_at s' key = Some t \<and> force \<longrightarrow>
          (t \<in> set ts \<longleftrightarrow> taskIsRunningForStatusLocked (skTasks (tyState y) ! t))))"
proof -
  let ?s = "tyState y"
  note i = task_invD(1) [OF tasks.reach_inv [OF assms(1)]]
  note run = running_tasks_set [OF i]
  have lt: "set (running_tasks ?s) \<subseteq> {..<length (skTasks ?s)}" using run(2) task_at_less [OF i] by auto
  have some: "running_tasks ?s \<noteq> [] \<longleftrightarrow>
      (\<exists>key t. task_at ?s key = Some t \<and> taskIsRunningForStatusLocked (skTasks ?s ! t))"
    using run(2) by (metis list.set_intros(1) list.exhaust empty_iff empty_set)
  have drained: "held (drain_task x) = None \<and> (atPhase (drain_task x) = TaskStopping \<or> atPreserveRecoveryOnDrain (drain_task x))"
    if "taskIsRunningForStatusLocked x" for x
    using that by (simp add: drain_task_def held_def no_pending_def taskIsRunningForStatusLocked_def)
  have at: "task_at s'' key = task_at ?s key" if "skActive s'' = skActive ?s" for s'' key
    using that by (simp add: task_at_def)
  show ?thesis
  proof (cases force)
    case True
    then have r: "r = Inr (running_tasks ?s)"
      "s' = foldl (\<lambda>s t. set_task t (drain_task (skTasks s ! t)) s) (?s\<lparr>skDraining := True\<rparr>) (running_tasks ?s)"
      using assms(2) by (auto simp: Drain_enter_def Let_def)
    have s': "skActive s' = skActive ?s" "skDraining s'"
      "skTasks s' ! u = (if u \<in> set (running_tasks ?s) then drain_task (skTasks ?s ! u) else skTasks ?s ! u)" for u
      using drain_fold_fields [of drain_task "?s\<lparr>skDraining := True\<rparr>" "running_tasks ?s"]
        drain_fold_nth [OF run(1), of "?s\<lparr>skDraining := True\<rparr>" u] lt unfolding r(2) by simp_all
    show ?thesis using r(1) True s' at [OF s'(1)] run(2) drained by auto
  next
    case False
    then show ?thesis using assms(2) some by (auto simp: Drain_enter_def Let_def split: if_splits)
  qed
qed

subsection \<open>What a task shows\<close>

lemma empty_view_ok [simp]: "view_ok (setProgressTimelineLimit limit empty_view)"
  by (rule view_ok_init)

lemma view_limit_kept: "tvProgressTimelineLimit (fst (reduceTaskView v ev)) = tvProgressTimelineLimit v"
  by (cases ev) (auto simp: Let_def)

lemma view_limit_run: "tvProgressTimelineLimit (view_run v evs) = tvProgressTimelineLimit v"
  by (induction evs arbitrary: v) (simp_all add: view_limit_kept)

text \<open>
  C24: what a task shows only goes forward. The timeline keeps within its limit; the sequence number never falls, so an event
  whose number is not new changes nothing; once the view is closed, no event changes the timeline, the last
  progress, the explanation or the revision; and the state a task ended in is set once.
\<close>

theorem progress_view_forward:
  "let v = view_run (setProgressTimelineLimit limit empty_view) evs; w = view_run v evs' in
    \<not> (0 < limit \<and> limit < int (length (tvProgressTimeline w))) \<and>
    tvLastProgressSourceSeq v \<le> tvLastProgressSourceSeq w \<and>
    \<not> (0 < peSequence e \<and> peSequence e \<le> tvLastProgressSourceSeq v \<and>
       reduceTaskView w (TaskViewProgress at e allow) \<noteq> (w, False)) \<and>
    \<not> (tvClosed v \<and> \<not> (tvClosed w \<and> tvProgressTimeline w = tvProgressTimeline v \<and>
       tvLastProgress w = tvLastProgress v \<and> tvCurrentExplanation w = tvCurrentExplanation v \<and>
       tvRevision w = tvRevision v)) \<and>
    \<not> (tvTerminalState v \<noteq> [] \<and> \<not> (tvTerminalState w = tvTerminalState v \<and> tvTerminalAt w = tvTerminalAt v))"
proof -
  define v where "v = view_run (setProgressTimelineLimit limit empty_view) evs"
  define w where "w = view_run v evs'"
  have ok: "view_ok v" "view_ok w" by (simp_all add: v_def w_def view_run_ok)
  have le: "view_le v w" using view_le_run [OF ok(1)] by (simp add: w_def)
  have "tvProgressTimelineLimit w = Some limit"
    by (simp add: v_def w_def view_limit_run) (simp add: setProgressTimelineLimit_def)
  then have lim: "0 < limit \<Longrightarrow> int (length (tvProgressTimeline w)) \<le> limit"
    using ok(2) by (simp add: view_ok_def view_limit_def)
  have late: "reduceTaskView w (TaskViewProgress at e allow) = (w, False)"
    if "0 < peSequence e" "peSequence e \<le> tvLastProgressSourceSeq v"
  proof -
    have "peSequence e \<le> tvLastProgressSourceSeq w" using that(2) le by (auto simp: view_le_def)
    then show ?thesis using that(1) by (auto simp: late_progress_def)
  qed
  show ?thesis unfolding Let_def v_def [symmetric] w_def [symmetric] using lim late le by (auto simp: view_le_def)
qed

subsection \<open>A run\<close>

text \<open>A task of the user \<open>u\<close> starts, one message waits on it, the user stops it, and the handler drains by force.\<close>

definition demo_meta :: activeTaskMeta where
  "demo_meta =
     \<lparr>mtOwner = ''u'', mtRouteUserID = ''r'', mtAgentName = ''codex'', mtMessage = [], mtRuntimeOwner = codexRuntimeWeClaw,
      mtOwnerRevision = 1, mtCodexThreadID = ''t'', mtCodexTurnID = [], mtInProcessCodexLifecycle = False,
      mtInteractionLease = Some idle_lease, mtObserver = False\<rparr>"

definition demo_empty :: task_system where
  "demo_empty = \<lparr>tyState = \<lparr>skActive = [], skTasks = [], skDraining = False\<rparr>, tyNext = 0, tyQueued = [], tyFates = [], tyClaims = []\<rparr>"

definition demo_started :: task_system where
  "demo_started = demo_empty\<lparr>tyState := fst (beginActiveTask ''k'' (newActiveAgentTask (\<lambda>s. s) ''id'' demo_meta) (tyState demo_empty))\<rparr>"

definition demo_queued :: task_system where
  "demo_queued =
     (let r = beginOrQueueActiveTask ''c'' ''k'' (newActiveAgentTask (\<lambda>s. s) ''id2'' demo_meta) (submission ''more'' 0) (tyState demo_started)
      in submitted (fst r) (snd (snd r)) demo_started)"

definition demo_expectation :: pendingTaskControlExpectation where
  "demo_expectation = \<lparr>pxTaskID = [], pxPendingRevision = [], pxPendingFingerprint = []\<rparr>"

definition demo_stopped :: task_system where
  "demo_stopped =
     demo_queued\<lparr>tyState := fst (cancelActiveTaskExpected (\<lambda>s. s) ''k'' ''u'' demo_expectation (tyState demo_queued))\<rparr>"

lemma demo_queued_reach: "reach task_init (task_step (\<lambda>s. s)) demo_queued"
proof -
  have "reach task_init (task_step (\<lambda>s. s)) demo_empty"
    by (rule reach_init) (simp add: task_init_def demo_empty_def)
  moreover have "task_step (\<lambda>s. s) demo_empty demo_started"
    unfolding demo_started_def by (rule begin_task) (rule prod.collapse [symmetric, THEN trans, OF arg_cong2 [where f = Pair, OF refl prod.collapse [symmetric]]])
  moreover have "task_step (\<lambda>s. s) demo_started demo_queued"
  proof -
    obtain st t s' where r: "beginOrQueueActiveTask ''c'' ''k'' (newActiveAgentTask (\<lambda>s. s) ''id2'' demo_meta)
        (submission ''more'' (tyNext demo_started)) (tyState demo_started) = (st, t, s')" by (cases rule: prod_cases3)
    have "tyNext demo_started = 0" by (simp add: demo_started_def demo_empty_def)
    with admit [OF _ r] r show ?thesis by (simp add: demo_queued_def)
  qed
  ultimately show ?thesis by (blast intro: reach_step)
qed

lemma demo_queued_state:
  "task_at (tyState demo_queued) ''k'' = Some 0" "held (skTasks (tyState demo_queued) ! 0) = Some 0"
  "tyQueued demo_queued = [0]" "tyFates demo_queued = []" "length (skTasks (tyState demo_queued)) = 1"
  "atOwner (skTasks (tyState demo_queued) ! 0) = ''u''" "atStopRequested (skTasks (tyState demo_queued) ! 0) = False"
  "atPhase (skTasks (tyState demo_queued) ! 0) = TaskRunning"
  by code_simp+

theorem task_slots_exclusive_witness:
  "distinct (tyClaims demo_queued) \<and> atDone (skTasks (tyState demo_queued) ! 0) = 0"
  using task_slots_exclusive [OF demo_queued_reach, of "''k''" 0] demo_queued_state by auto


theorem accepted_stop_holds_witness:
  "atPhase (skTasks (tyState demo_stopped) ! 0) \<in> {TaskStopping, TaskTerminal} \<and> atCanceled (skTasks (tyState demo_stopped) ! 0)"
proof -
  have "cancelActiveTaskExpected (\<lambda>s. s) ''k'' ''u'' demo_expectation (tyState demo_queued) = (tyState demo_stopped, True, False)"
    by (simp add: demo_stopped_def) code_simp
  from accepted_stop_holds [OF demo_queued_reach demo_queued_state(1) this, of demo_stopped]
  show ?thesis using demo_queued_state by (simp add: demo_stopped_def)
qed

theorem drain_outcome_witness:
  "snd (Drain_enter False (tyState demo_queued)) = Inl ErrActiveTasksRunning \<and>
   held (skTasks (fst (Drain_enter True (tyState demo_queued))) ! 0) = None"
proof -
  have a: "Drain_enter True (tyState demo_queued) = (fst (Drain_enter True (tyState demo_queued)), Inr [0])"
    "task_at (fst (Drain_enter True (tyState demo_queued))) ''k'' = Some 0" by code_simp+
  have b: "Drain_enter False (tyState demo_queued) = (tyState demo_queued, Inl ErrActiveTasksRunning)" by code_simp
  show ?thesis using drain_outcome [OF demo_queued_reach a(1), where key = "''k''" and t = 0] a(2)
      drain_outcome [OF demo_queued_reach b] b by simp
qed

end
