(* ===== verification/Approval_Options.thy ===== *)
theory Approval_Options
  imports Go_Text
begin

section \<open>Options and keys of approvals\<close>

text \<open>
  The pure part of \<open>messaging/approvals.go\<close>, \<open>approval_options.go\<close> and \<open>approval_mode.go\<close>: how the options of a
  request are classified, which of them a word means, which one is chosen without a user, and the
  keys under which a request and the mode of a user are filed. The lower case of a whole word
  (\<open>strings.ToLower\<close> on any text) is the parameter \<open>lower\<close>; where a lower case text is only searched for ASCII
  words, \<open>go_lower\<close> is used. The prompts and labels of a card are text for users.
\<close>

subsection \<open>Options\<close>

record ApprovalOption =
  aoID :: string
  aoName :: string
  aoKind :: string

definition approvalOptionKind :: "ApprovalOption \<Rightarrow> string" where
  "approvalOptionKind option =
     (let lower = go_lower (go_trim (firstNonBlank [aoKind option, aoID option, aoName option])) in
      if go_contains lower ''accept'' \<or> go_contains lower ''allow'' \<or> go_contains lower ''approve'' then ''allow''
      else if go_contains lower ''cancel'' \<or> go_contains lower ''deny'' \<or> go_contains lower ''reject'' then ''deny''
      else lower)"

definition approvalOptionSet :: "ApprovalOption list \<Rightarrow> string list" where
  "approvalOptionSet options = filter (\<lambda>i. i \<noteq> []) (map (\<lambda>x. go_trim (aoID x)) options)"

text \<open>The map of words is a list of pairs; an option never takes the general word of an option before it.\<close>

definition lookup_alias :: "(string \<times> string) list \<Rightarrow> string \<Rightarrow> string" where
  "lookup_alias aliases word = (case map_of aliases word of Some i \<Rightarrow> i | None \<Rightarrow> [])"

definition add_alias :: "string \<Rightarrow> string \<Rightarrow> (string \<times> string) list \<Rightarrow> (string \<times> string) list" where
  "add_alias i word aliases = (if lookup_alias aliases word = [] then (word, i) # aliases else aliases)"

definition option_aliases :: "(string \<Rightarrow> string) \<Rightarrow> ApprovalOption \<Rightarrow> (string \<times> string) list \<Rightarrow> (string \<times> string) list" where
  "option_aliases lower option aliases =
     (let i = go_trim (aoID option) in
      if i = [] then aliases
      else
        let own = (lower i, i) # aliases in
        if approvalOptionKind option = ''allow''
        then fold (add_alias i) [''accept'', ''accepted'', ''approve'', ''approved'', ''allow''] own
        else if approvalOptionKind option = ''deny''
        then fold (add_alias i) [''cancel'', ''cancelled'', ''deny'', ''denied'', ''reject'', ''rejected''] own
        else own)"

definition approvalOptionAliases :: "(string \<Rightarrow> string) \<Rightarrow> ApprovalOption list \<Rightarrow> (string \<times> string) list" where
  "approvalOptionAliases lower options = fold (option_aliases lower) options []"

text \<open>The choice if nobody answers; without an option that denies it is the refusal of the protocol.\<close>

fun defaultDenyApprovalOption :: "ApprovalOption list \<Rightarrow> string" where
  "defaultDenyApprovalOption [] = ''decline''"
| "defaultDenyApprovalOption (x # xs) =
     (if approvalOptionKind x = ''deny'' \<and> go_trim (aoID x) \<noteq> [] then go_trim (aoID x) else defaultDenyApprovalOption xs)"

text \<open>The choice without asking: only an option whose kind is exactly \<open>allow\<close>.\<close>

fun autoApproveApprovalOption :: "ApprovalOption list \<Rightarrow> string" where
  "autoApproveApprovalOption [] = []"
| "autoApproveApprovalOption (x # xs) =
     (if aoKind x = ''allow'' \<and> go_trim (aoID x) \<noteq> [] then aoID x else autoApproveApprovalOption xs)"

declare defaultDenyApprovalOption.simps [simp del] autoApproveApprovalOption.simps [simp del]

subsection \<open>Keys\<close>

definition nul :: char where
  "nul = CHR 0x00"

definition pendingApprovalMapKey :: "string \<Rightarrow> string \<Rightarrow> string \<Rightarrow> string \<Rightarrow> string" where
  "pendingApprovalMapKey user route kind approval =
     (if go_trim user = [] \<or> go_trim approval = [] then []
      else go_join [nul] [go_trim user, go_trim route, go_trim kind, go_trim approval])"

definition approvalModeKey :: "string \<Rightarrow> string \<Rightarrow> string" where
  "approvalModeKey actor0 route0 =
     (let actor = go_trim actor0; route = go_trim route0 in
      if route = [] then actor
      else if actor = [] \<or> actor = route then route
      else route @ [nul] @ ''actor:'' @ actor)"

subsection \<open>Codes\<close>

text \<open>
  A code is typed by the user, so case and white space do not matter. In \<open>strings.ToUpper\<close> the dotless i and the long s
  become ASCII letters; every further code point keeps a byte that no code has.
\<close>

definition ascii_upper :: "char \<Rightarrow> char" where
  "ascii_upper c = (let n = of_char c :: nat in if 97 \<le> n \<and> n \<le> 122 then char_of (n - 32) else c)"

fun go_upper :: "string \<Rightarrow> string" where
  "go_upper [] = []"
| "go_upper (c # cs) =
     (if prefix [CHR 0xC4, CHR 0xB1] (c # cs) then CHR ''I'' # go_upper (drop 1 cs)
      else if prefix [CHR 0xC5, CHR 0xBF] (c # cs) then CHR ''S'' # go_upper (drop 1 cs)
      else ascii_upper c # go_upper cs)"

definition approvalCodeEncoding :: string where
  "approvalCodeEncoding = ''ABCDEFGHJKLMNPQRSTUVWXYZ23456789''"

definition normalizeApprovalCode :: "string \<Rightarrow> string" where
  "normalizeApprovalCode code0 =
     (let code = go_upper (go_trim code0) in
      if length code \<noteq> 8 \<or> \<not> list_all (\<lambda>c. c \<in> set approvalCodeEncoding) code then [] else code)"

text \<open>Base 32 of five random bytes: eight groups of five bits, the highest first.\<close>

fun encode_groups :: "nat \<Rightarrow> nat \<Rightarrow> string" where
  "encode_groups 0 raw = []"
| "encode_groups (Suc n) raw = encode_groups n (raw div 32) @ [approvalCodeEncoding ! (raw mod 32)]"

definition encode_code :: "nat \<Rightarrow> string" where
  "encode_code raw = encode_groups 8 raw"

definition approvalCodeMapKey :: "string \<Rightarrow> string \<Rightarrow> string \<Rightarrow> string" where
  "approvalCodeMapKey user route code =
     go_join [nul] [go_trim user, go_trim route, normalizeApprovalCode code]"

subsection \<open>Lemmas\<close>

lemma alphabet_length: "length approvalCodeEncoding = 32"
  by (simp add: approvalCodeEncoding_def)

lemma encode_groups: "length (encode_groups n raw) = n \<and> set (encode_groups n raw) \<subseteq> set approvalCodeEncoding"
  by (induction n raw rule: encode_groups.induct) (simp_all add: alphabet_length)

lemma encode_code_length [simp]: "length (encode_code raw) = 8"
  by (simp only: encode_code_def encode_groups)

lemma encode_code_chars: "set (encode_code raw) \<subseteq> set approvalCodeEncoding"
  by (simp only: encode_code_def encode_groups)

lemma find_SomeD: "find P xs = Some x \<Longrightarrow> x \<in> set xs \<and> P x"
  by (auto simp: find_Some_iff)

text \<open>Without an answer the choice is never one that allows, and the choice of the mode without questions is one that says so.\<close>

lemma default_deny_cases:
  "(\<exists>x \<in> set options. approvalOptionKind x = ''deny'' \<and> go_trim (aoID x) = defaultDenyApprovalOption options) \<or>
   defaultDenyApprovalOption options = ''decline'' \<and>
     (\<forall>x \<in> set options. \<not> (approvalOptionKind x = ''deny'' \<and> go_trim (aoID x) \<noteq> []))"
  by (induction options) (auto simp: defaultDenyApprovalOption.simps)

lemma auto_approve_cases:
  "autoApproveApprovalOption options = [] \<or>
   (\<exists>x \<in> set options. aoKind x = ''allow'' \<and> go_trim (aoID x) \<noteq> [] \<and> autoApproveApprovalOption options = aoID x)"
  by (induction options) (auto simp: autoApproveApprovalOption.simps)

text \<open>Parts without the separator are read off a joined key.\<close>

lemma split_at_nul:
  "nul \<notin> set u \<Longrightarrow> nul \<notin> set v \<Longrightarrow> u @ nul # r = v @ nul # s \<Longrightarrow> u = v \<and> r = s"
proof (induction u arbitrary: v)
  case Nil
  then show ?case by (cases v) auto
next
  case (Cons a u)
  then show ?case by (cases v) auto
qed

lemma map_key_inj:
  assumes "pendingApprovalMapKey u r k a = pendingApprovalMapKey u' r' k' a'" and "pendingApprovalMapKey u r k a \<noteq> []"
    and "nul \<notin> set (go_trim u)" "nul \<notin> set (go_trim u')" "nul \<notin> set (go_trim r)" "nul \<notin> set (go_trim r')"
  shows "go_trim u = go_trim u' \<and> go_trim r = go_trim r'"
proof -
  have "go_trim u @ nul # (go_trim r @ nul # (go_trim k @ nul # go_trim a)) =
      go_trim u' @ nul # (go_trim r' @ nul # (go_trim k' @ nul # go_trim a'))"
    using assms(1,2) by (auto simp: pendingApprovalMapKey_def split: if_splits)
  from split_at_nul [OF assms(3,4) this] split_at_nul [OF assms(5,6)] show ?thesis by blast
qed

end
