(* ===== verification/Approval_State.thy ===== *)
theory Approval_State
  imports Approval_Types Approval_Options Task_State
begin

section \<open>Pending approvals\<close>

text \<open>
  The table of pending approvals and questions of \<open>messaging/approvals.go\<close>. A pending item is shared between the
  goroutine that waits for it and those that answer it, so it is an object and a pointer to it is its number; its
  two channels hold one value. The table and the codes are lists of pairs in the
  order of insertion; Go visits a map in any order, and the lookups below that matter find at most one item. Every
  function is one critical section, or the one atomic operation on \<open>resolved\<close> or a channel that its text says.
\<close>

record pendingApproval =
  paChoices :: "string option"
  paStateChanges :: "ApprovalRequestState option"
  paAllowed :: "string list"
  paAliases :: "(string \<times> string) list"
  paKey :: string
  paUserID :: string
  paRoute :: string
  paKind :: string
  paYolo :: string
  paDeny :: string
  paCode :: string
  paExpiresAt :: instant
  paStateProbe :: bool
  paDisplayReady :: "nat option"
  paResolved :: bool

record approval_table =
  apPending :: "(string \<times> nat) list"
  apItems :: "pendingApproval list"
  apCodes :: "(string \<times> instant) list"
  apYolo :: "string list"

definition choiceInteractionApproval :: string where
  "choiceInteractionApproval = ''approval''"

definition choiceInteractionUserInput :: string where
  "choiceInteractionUserInput = ''user_input''"

definition pendingApprovalTimeout :: duration where
  "pendingApprovalTimeout = 300 * 1000000000"

definition set_item :: "nat \<Rightarrow> pendingApproval \<Rightarrow> approval_table \<Rightarrow> approval_table" where
  "set_item p x s = s\<lparr>apItems := (apItems s)[p := x]\<rparr>"

subsection \<open>Modes\<close>

definition setYoloMode :: "string \<Rightarrow> bool \<Rightarrow> approval_table \<Rightarrow> approval_table" where
  "setYoloMode key0 on s =
     (let key = go_trim key0 in
      if key = [] then s
      else if on then s\<lparr>apYolo := List.insert key (apYolo s)\<rparr>
      else s\<lparr>apYolo := removeAll key (apYolo s)\<rparr>)"

definition isYoloMode :: "string \<Rightarrow> approval_table \<Rightarrow> bool" where
  "isYoloMode key s \<longleftrightarrow> go_trim key \<in> set (apYolo s)"

subsection \<open>Registration\<close>

definition cleanupResolvedApprovalCodesLocked :: "instant \<Rightarrow> approval_table \<Rightarrow> approval_table" where
  "cleanupResolvedApprovalCodesLocked now s = s\<lparr>apCodes := filter (\<lambda>(k, e). now < e) (apCodes s)\<rparr>"

definition approvalCodeInUseLocked :: "string \<Rightarrow> string \<Rightarrow> string \<Rightarrow> approval_table \<Rightarrow> bool" where
  "approvalCodeInUseLocked user route code0 s =
     (let code = normalizeApprovalCode code0 in
      list_ex (\<lambda>(k, p). let x = apItems s ! p in paUserID x = user \<and> paRoute x = route \<and> paCode x = code) (apPending s) \<or>
      map_of (apCodes s) (approvalCodeMapKey user route code) \<noteq> None)"

datatype approval_error =
    ErrNoOptions | ErrRandom | ErrNoUniqueCode | ErrKeyCollision | ErrInvalidRoute | ErrObserverDetached
  | ErrAsk | ErrResolvedExternally | ErrTurnTerminal | ErrResolution | ErrContext | ErrTimeout

text \<open>The argument is what the random source gives at each attempt, or its failure.\<close>

fun newApprovalCodeLocked :: "nat option list \<Rightarrow> string \<Rightarrow> string \<Rightarrow> approval_table \<Rightarrow> approval_error + string" where
  "newApprovalCodeLocked [] user route s = Inl ErrNoUniqueCode"
| "newApprovalCodeLocked (None # raws) user route s = Inl ErrRandom"
| "newApprovalCodeLocked (Some raw # raws) user route s =
     (if approvalCodeInUseLocked user route (encode_code raw) s then newApprovalCodeLocked raws user route s
      else Inr (encode_code raw))"

text \<open>What a caller gives beside the time and the random source; the last says whether the item has a card that is corrected later.\<close>

record approval_request =
  arUserID :: string
  arRouteUserID :: string
  arKey :: string
  arOptions :: "ApprovalOption list"
  arYolo :: string
  arKind :: string
  arDisplay :: bool

definition new_pending :: "(string \<Rightarrow> string) \<Rightarrow> instant \<Rightarrow> approval_request \<Rightarrow> pendingApproval" where
  "new_pending lower now r =
     \<lparr>paChoices = None, paStateChanges = None, paAllowed = approvalOptionSet (arOptions r),
      paAliases = approvalOptionAliases lower (arOptions r),
      paKey = pendingApprovalMapKey (arUserID r) (arRouteUserID r) (arKind r) (arKey r),
      paUserID = go_trim (arUserID r), paRoute = go_trim (arRouteUserID r), paKind = go_trim (arKind r),
      paYolo = go_trim (arYolo r), paDeny = defaultDenyApprovalOption (arOptions r), paCode = [],
      paExpiresAt = now + pendingApprovalTimeout, paStateProbe = False,
      paDisplayReady = (if arDisplay r then Some 0 else None), paResolved = False\<rparr>"

definition registerPendingApprovalForRouteWithDisplay ::
    "(string \<Rightarrow> string) \<Rightarrow> instant \<Rightarrow> nat option list \<Rightarrow> approval_request \<Rightarrow> approval_table \<Rightarrow>
     approval_table \<times> (approval_error + nat)" where
  "registerPendingApprovalForRouteWithDisplay lower now raws r s0 =
     (let x = new_pending lower now r;
          s = cleanupResolvedApprovalCodesLocked now s0;
          code = (if paKind x = choiceInteractionApproval
                  then newApprovalCodeLocked (take 16 raws) (paUserID x) (paRoute x) s else Inr [])
      in case code of
           Inl e \<Rightarrow> (s, Inl e)
         | Inr c \<Rightarrow>
             if map_of (apPending s) (paKey x) \<noteq> None then (s, Inl ErrKeyCollision)
             else (s\<lparr>apItems := apItems s @ [x\<lparr>paCode := c\<rparr>],
                     apPending := apPending s @ [(paKey x, length (apItems s))]\<rparr>, Inr (length (apItems s))))"

definition clearPendingApproval :: "instant \<Rightarrow> nat \<Rightarrow> approval_table \<Rightarrow> approval_table" where
  "clearPendingApproval now p s =
     (let x = apItems s ! p;
          s1 = (if map_of (apPending s) (paKey x) = Some p then s\<lparr>apPending := AList.delete (paKey x) (apPending s)\<rparr> else s);
          s2 = (if paResolved x \<and> paCode x \<noteq> []
                then s1\<lparr>apCodes := AList.update (approvalCodeMapKey (paUserID x) (paRoute x) (paCode x))
                                      (now + pendingApprovalTimeout) (apCodes s1)\<rparr>
                else s1)
      in cleanupResolvedApprovalCodesLocked now s2)"

subsection \<open>Decisions\<close>

text \<open>The compare and swap of \<open>resolved\<close>, and the sends that never block.\<close>

definition claim_resolved :: "pendingApproval \<Rightarrow> bool \<times> pendingApproval" where
  "claim_resolved x = (if paResolved x then (False, x) else (True, x\<lparr>paResolved := True\<rparr>))"

definition put_choice :: "string \<Rightarrow> pendingApproval \<Rightarrow> bool \<times> pendingApproval" where
  "put_choice c x = (if paChoices x = None then (True, x\<lparr>paChoices := Some c\<rparr>) else (False, x))"

definition put_state :: "ApprovalRequestState \<Rightarrow> pendingApproval \<Rightarrow> bool \<times> pendingApproval" where
  "put_state st x = (if paStateChanges x = None then (True, x\<lparr>paStateChanges := Some st\<rparr>) else (False, x))"

definition deliverPendingApprovalChoice :: "string \<Rightarrow> pendingApproval \<Rightarrow> bool \<times> pendingApproval" where
  "deliverPendingApprovalChoice c x =
     (if go_trim c = [] then (False, x)
      else (case claim_resolved x of (False, y) \<Rightarrow> (False, y) | (True, y) \<Rightarrow> put_choice c y))"

definition deliverPendingApprovalState :: "ApprovalRequestState \<Rightarrow> pendingApproval \<Rightarrow> bool \<times> pendingApproval" where
  "deliverPendingApprovalState st x =
     (case claim_resolved x of (False, y) \<Rightarrow> (False, y) | (True, y) \<Rightarrow> put_state st y)"

definition renewDeadline :: "instant \<Rightarrow> pendingApproval \<Rightarrow> pendingApproval" where
  "renewDeadline now x = x\<lparr>paExpiresAt := now + pendingApprovalTimeout\<rparr>"

definition markDisplayReady :: "pendingApproval \<Rightarrow> pendingApproval" where
  "markDisplayReady x = x\<lparr>paDisplayReady := map_option Suc (paDisplayReady x)\<rparr>"

definition resolveChoice :: "(string \<Rightarrow> string) \<Rightarrow> string \<Rightarrow> pendingApproval \<Rightarrow> string" where
  "resolveChoice lower choice0 x =
     (let choice = go_trim choice0 in
      if choice \<in> set (paAllowed x) then choice
      else if lookup_alias (paAliases x) (lower choice) \<noteq> [] then lookup_alias (paAliases x) (lower choice)
      else if paKind x = choiceInteractionUserInput \<and> paAllowed x = [] then choice else [])"

subsection \<open>Finding what an answer is for\<close>

definition open_for :: "instant \<Rightarrow> string \<Rightarrow> string \<Rightarrow> pendingApproval \<Rightarrow> bool" where
  "open_for now user route x \<longleftrightarrow>
     paUserID x = go_trim user \<and> paRoute x = go_trim route \<and> \<not> paResolved x \<and> now < paExpiresAt x"

definition hasPendingInteractionForRoute :: "instant \<Rightarrow> string \<Rightarrow> string \<Rightarrow> approval_table \<Rightarrow> bool" where
  "hasPendingInteractionForRoute now user route s \<longleftrightarrow>
     list_ex (\<lambda>(k, p). open_for now user route (apItems s ! p)) (apPending s)"

datatype text_match = TextNone | TextAmbiguous | TextFound nat string

definition findPendingApprovalTextLocked ::
    "(string \<Rightarrow> string) \<Rightarrow> instant \<Rightarrow> string \<Rightarrow> string \<Rightarrow> string \<Rightarrow> approval_table \<Rightarrow> text_match" where
  "findPendingApprovalTextLocked lower now user route choice s =
     (case filter (\<lambda>p. open_for now user route (apItems s ! p) \<and> resolveChoice lower choice (apItems s ! p) \<noteq> [])
             (map snd (apPending s)) of
        [] \<Rightarrow> TextNone
      | [p] \<Rightarrow> TextFound p (resolveChoice lower choice (apItems s ! p))
      | _ \<Rightarrow> TextAmbiguous)"

definition find_text :: "(string \<Rightarrow> string) \<Rightarrow> instant \<Rightarrow> string \<Rightarrow> string \<Rightarrow> string \<Rightarrow> approval_table \<Rightarrow> text_match" where
  "find_text lower now user route choice s =
     (if go_trim choice = [] then TextNone else findPendingApprovalTextLocked lower now user route (go_trim choice) s)"

definition findPendingApprovalLocked :: "string \<Rightarrow> string \<Rightarrow> string \<Rightarrow> string \<Rightarrow> approval_table \<Rightarrow> nat option" where
  "findPendingApprovalLocked user route kind0 approval s =
     (let kind = go_trim kind0; key = pendingApprovalMapKey user route kind approval in
      if kind \<noteq> [] \<and> key \<noteq> [] then map_of (apPending s) key
      else (case filter (\<lambda>p. let x = apItems s ! p in paUserID x = go_trim user \<and> paRoute x = go_trim route \<and>
                               (kind = [] \<or> paKind x = kind)) (map snd (apPending s)) of
          [p] \<Rightarrow> Some p | _ \<Rightarrow> None))"

text \<open>The item and the choice of an answer on a card, before it is delivered.\<close>

definition find_for_key ::
    "(string \<Rightarrow> string) \<Rightarrow> string \<Rightarrow> string \<Rightarrow> string \<Rightarrow> string \<Rightarrow> string \<Rightarrow> approval_table \<Rightarrow> (nat \<times> string) option" where
  "find_for_key lower user route kind approval choice s =
     (if go_trim choice = [] then None
      else (case findPendingApprovalLocked user route kind approval s of
          None \<Rightarrow> None
        | Some p \<Rightarrow>
            let c = resolveChoice lower choice (apItems s ! p) in if c = [] then None else Some (p, c)))"

datatype code_match = CodeNotFound | CodeAlreadyResolved | CodeDecisionUnavailable | CodeFound nat string

text \<open>The item and the decision a code stands for; the result is the answer where no item is found.\<close>

definition find_code :: "instant \<Rightarrow> string \<Rightarrow> string \<Rightarrow> string \<Rightarrow> bool \<Rightarrow> approval_table \<Rightarrow> approval_table \<times> code_match" where
  "find_code now user0 route0 code0 approve s0 =
     (let user = go_trim user0; route = go_trim route0; code = normalizeApprovalCode code0 in
      if user = [] \<or> code = [] then (s0, CodeNotFound)
      else
        let s = cleanupResolvedApprovalCodesLocked now s0 in
        (s, if map_of (apCodes s) (approvalCodeMapKey user route code) \<noteq> None then CodeAlreadyResolved
            else (case find (\<lambda>p. let x = apItems s ! p in paUserID x = user \<and> paRoute x = route \<and>
                                   paKind x = choiceInteractionApproval \<and> paCode x = code) (map snd (apPending s)) of
                None \<Rightarrow> CodeNotFound
              | Some p \<Rightarrow>
                  let x = apItems s ! p; choice = (if approve then paYolo x else paDeny x) in
                  if \<not> now < paExpiresAt x then CodeNotFound
                  else if go_trim choice = [] then CodeDecisionUnavailable else CodeFound p choice)))"

text \<open>What the command that ends the questions resolves.\<close>

definition yolo_items :: "string \<Rightarrow> string \<Rightarrow> approval_table \<Rightarrow> nat list" where
  "yolo_items actor0 route0 s =
     (let actor = go_trim actor0; route = go_trim route0 in
      if actor = [] \<or> route = [] then []
      else filter (\<lambda>p. let x = apItems s ! p in paUserID x = actor \<and> paRoute x = route \<and> paYolo x \<noteq> [])
             (map snd (apPending s)))"

text \<open>What is asked again before an answer counts: the open approvals of the window that can be probed.\<close>

definition review_items :: "string \<Rightarrow> string \<Rightarrow> approval_table \<Rightarrow> nat list" where
  "review_items user route s =
     filter (\<lambda>p. let x = apItems s ! p in paUserID x = go_trim user \<and> paRoute x = go_trim route \<and>
                   paKind x = choiceInteractionApproval \<and> \<not> paResolved x \<and> paStateProbe x) (map snd (apPending s))"

datatype pendingApprovalRouteState = RouteNone | RouteWaiting | RouteResolvedExternally | RouteTerminal | RouteUnavailable

text \<open>The argument is what each probe reports (\<open>None\<close> is an error); the result of the review, which ends at the first probe that fails.\<close>

fun review_result :: "ApprovalRequestState option list \<Rightarrow> pendingApprovalRouteState \<Rightarrow> pendingApprovalRouteState" where
  "review_result [] r = r"
| "review_result (None # probes) r = RouteUnavailable"
| "review_result (Some ApprovalRequestStateUnknown # probes) r = RouteUnavailable"
| "review_result (Some ApprovalRequestStatePending # probes) r =
     review_result probes (if r \<noteq> RouteTerminal then RouteWaiting else r)"
| "review_result (Some ApprovalRequestStateResolvedExternally # probes) r =
     review_result probes (if r = RouteNone then RouteResolvedExternally else r)"
| "review_result (Some ApprovalRequestStateTurnTerminal # probes) r = review_result probes RouteTerminal"

text \<open>What a review does to one item, and the whole of it.\<close>

definition review_item :: "instant \<Rightarrow> ApprovalRequestState option \<Rightarrow> pendingApproval \<Rightarrow> pendingApproval" where
  "review_item now probe x =
     (case probe of
        Some ApprovalRequestStatePending \<Rightarrow> renewDeadline now x
      | Some ApprovalRequestStateResolvedExternally \<Rightarrow> snd (deliverPendingApprovalState ApprovalRequestStateResolvedExternally x)
      | Some ApprovalRequestStateTurnTerminal \<Rightarrow> snd (deliverPendingApprovalState ApprovalRequestStateTurnTerminal x)
      | _ \<Rightarrow> x)"

fun review_loop :: "instant \<Rightarrow> (nat \<times> ApprovalRequestState option) list \<Rightarrow> approval_table \<Rightarrow> approval_table" where
  "review_loop now [] s = s"
| "review_loop now ((p, probe) # ps) s =
     (if probe = None \<or> probe = Some ApprovalRequestStateUnknown then s
      else review_loop now ps (set_item p (review_item now probe (apItems s ! p)) s))"

definition reviewPendingApprovalForRoute ::
    "instant \<Rightarrow> (nat \<Rightarrow> ApprovalRequestState option) \<Rightarrow> string \<Rightarrow> string \<Rightarrow> approval_table \<Rightarrow>
     approval_table \<times> pendingApprovalRouteState" where
  "reviewPendingApprovalForRoute now probe user route s =
     (let ps = review_items user route s in
      (review_loop now (map (\<lambda>p. (p, probe p)) ps) s, review_result (map probe ps) RouteNone))"

subsection \<open>Answers as one call\<close>

text \<open>The whole answer, if nothing happens in between; the interleaved form is in \<open>Approval_System\<close>.\<close>

datatype approvalTextConsumeResult = TextUnmatched | TextConsumed | TextIsAmbiguous
datatype approvalCodeConsumeResult = CodeIsNotFound | CodeConsumed | CodeIsResolved | CodeNoDecision

definition deliver_to :: "nat \<Rightarrow> string \<Rightarrow> approval_table \<Rightarrow> approval_table \<times> bool" where
  "deliver_to p d s = (case deliverPendingApprovalChoice d (apItems s ! p) of (ok, x) \<Rightarrow> (set_item p x s, ok))"

definition consumePendingApprovalText ::
    "(string \<Rightarrow> string) \<Rightarrow> instant \<Rightarrow> string \<Rightarrow> string \<Rightarrow> string \<Rightarrow> approval_table \<Rightarrow> approval_table \<times> approvalTextConsumeResult" where
  "consumePendingApprovalText lower now user route choice s =
     (case find_text lower now user route choice s of
        TextNone \<Rightarrow> (s, TextUnmatched)
      | TextAmbiguous \<Rightarrow> (s, TextIsAmbiguous)
      | TextFound p d \<Rightarrow> (case deliver_to p d s of (s', ok) \<Rightarrow> (s', if ok then TextConsumed else TextUnmatched)))"

definition consumePendingInteractionForKey ::
    "(string \<Rightarrow> string) \<Rightarrow> string \<Rightarrow> string \<Rightarrow> string \<Rightarrow> string \<Rightarrow> string \<Rightarrow> approval_table \<Rightarrow> approval_table \<times> bool" where
  "consumePendingInteractionForKey lower user route kind approval choice s =
     (case find_for_key lower user route kind approval choice s of
        None \<Rightarrow> (s, False) | Some (p, d) \<Rightarrow> deliver_to p d s)"

definition consumePendingApprovalCode ::
    "instant \<Rightarrow> string \<Rightarrow> string \<Rightarrow> string \<Rightarrow> bool \<Rightarrow> approval_table \<Rightarrow> approval_table \<times> approvalCodeConsumeResult" where
  "consumePendingApprovalCode now user route code approve s0 =
     (case find_code now user route code approve s0 of
        (s, CodeNotFound) \<Rightarrow> (s, CodeIsNotFound)
      | (s, CodeAlreadyResolved) \<Rightarrow> (s, CodeIsResolved)
      | (s, CodeDecisionUnavailable) \<Rightarrow> (s, CodeNoDecision)
      | (s, CodeFound p d) \<Rightarrow>
          (case deliver_to p d s of (s', ok) \<Rightarrow>
             (s', if ok then CodeConsumed else if paResolved (apItems s' ! p) then CodeIsResolved else CodeIsNotFound)))"

fun resolve_all :: "nat list \<Rightarrow> approval_table \<Rightarrow> approval_table \<times> nat" where
  "resolve_all [] s = (s, 0)"
| "resolve_all (p # ps) s =
     (case deliver_to p (paYolo (apItems s ! p)) s of (s', ok) \<Rightarrow>
        (case resolve_all ps s' of (s'', n) \<Rightarrow> (s'', (if ok then Suc n else n))))"

text \<open>The result is the number of decisions; what is shown on the cards afterwards is left out.\<close>

definition resolvePendingApprovalsForYolo :: "string \<Rightarrow> string \<Rightarrow> approval_table \<Rightarrow> approval_table \<times> nat" where
  "resolvePendingApprovalsForYolo actor route s = resolve_all (yolo_items actor route s) s"

text \<open>The state behind the command \<open>/mode\<close>: the word after it, if there is one.\<close>

definition handleModeCommandForActorContext :: "string \<Rightarrow> string \<Rightarrow> string list \<Rightarrow> approval_table \<Rightarrow> approval_table" where
  "handleModeCommandForActorContext route actor ws s =
     (case ws of
        _ # word # _ \<Rightarrow>
          let w = go_lower (go_trim word); key = approvalModeKey actor route in
          if w = ''yolo'' then fst (resolvePendingApprovalsForYolo actor route (setYoloMode key True s))
          else if w = ''default'' then setYoloMode key False s else s
      | _ \<Rightarrow> s)"

end
