(* ===== verification/Approval_System.thy ===== *)
theory Approval_System
  imports Approval_State
begin

section \<open>Approvals under interleaving\<close>

text \<open>
  The goroutine that asks for an approval (\<open>approvalHandlerForRoute\<close>, \<open>waitForPendingApproval\<close>) or for the answers to
  questions (\<open>userInputHandlerForRoute\<close>, \<open>askUserInputQuestion\<close>, \<open>waitForUserInputChoice\<close>), step by step, against messages,
  cards, codes, the mode without questions, reviews of the state, and frontends that leave.
\<close>

subsection \<open>Requests\<close>

datatype call_outcome = Decision string | DecisionAndError string approval_error | Failed approval_error

datatype call_stage =
    CallNext | CallRegistered | CallPrepared | CallAsk | CallWaiting
  | CallLeaving call_outcome | CallEnding call_outcome | CallDone call_outcome

record approval_call =
  acActor :: string
  acRoute :: string
  acLease :: "nat option"
  acOptions :: "ApprovalOption list"
  acProbe :: bool
  acApproval :: bool
  acNext :: "(approval_error + approval_request) list"
  acPending :: nat
  acAnswers :: "(nat \<times> string) list"
  acStage :: call_stage

definition validateAgentInteractionRoute :: "string \<Rightarrow> string \<Rightarrow> bool \<Rightarrow> bool" where
  "validateAgentInteractionRoute actor0 route0 reply \<longleftrightarrow>
     (let actor = go_trim actor0; route = go_trim route0 in
      actor \<noteq> [] \<and> route \<noteq> [] \<and> reply \<and> (route = actor \<or> prefix ''feishu:'' route))"

text \<open>The choices of a card are the identifiers of the options; the choice that stands for a decision.\<close>

definition approvalChoiceForDecision :: "string list \<Rightarrow> string \<Rightarrow> string option" where
  "approvalChoiceForDecision choices decision0 =
     (let decision = go_trim decision0 in find (\<lambda>c. go_trim c = decision \<and> decision \<noteq> []) choices)"

definition new_call :: "string \<Rightarrow> string \<Rightarrow> nat option \<Rightarrow> ApprovalOption list \<Rightarrow> bool \<Rightarrow> bool \<Rightarrow> approval_call" where
  "new_call actor route lease options probe approval =
     \<lparr>acActor = actor, acRoute = route, acLease = lease, acOptions = options, acProbe = probe, acApproval = approval,
      acNext = [], acPending = 0, acAnswers = [], acStage = CallEnding (Failed ErrInvalidRoute)\<rparr>"

text \<open>The first part of a request for an approval, up to its registration; \<open>recorder\<close> says whether the platform can correct a card.\<close>

definition approval_enter :: "string \<Rightarrow> bool \<Rightarrow> bool \<Rightarrow> approval_table \<Rightarrow> approval_call \<Rightarrow> approval_call" where
  "approval_enter key reply recorder s c =
     (let ids = approvalOptionSet (acOptions c); yolo = autoApproveApprovalOption (acOptions c) in
      if \<not> validateAgentInteractionRoute (acActor c) (acRoute c) reply then c\<lparr>acStage := CallEnding (Failed ErrInvalidRoute)\<rparr>
      else if ids = [] then c\<lparr>acStage := CallEnding (Failed ErrNoOptions)\<rparr>
      else if isYoloMode (approvalModeKey (acActor c) (acRoute c)) s then c\<lparr>acStage := CallEnding (Decision yolo)\<rparr>
      else c\<lparr>acStage := CallNext,
             acNext := [Inr \<lparr>arUserID = acActor c, arRouteUserID = acRoute c, arKey = key, arOptions = acOptions c,
               arYolo = yolo, arKind = choiceInteractionApproval,
               arDisplay = (recorder \<and> approvalChoiceForDecision ids yolo \<noteq> None)\<rparr>]\<rparr>)"

text \<open>A question is its identifier and its options, each with label and description.\<close>

record UserInputQuestion =
  uqID :: string
  uqOptions :: "(string \<times> string) list"

definition userInputOptionLabel :: "string \<times> string \<Rightarrow> string" where
  "userInputOptionLabel option =
     (let label = go_trim (fst option); description = go_trim (snd option) in
      if description = [] then label else label @ '' - '' @ description)"

fun question_options :: "string list \<Rightarrow> (string \<times> string) list \<Rightarrow> ApprovalOption list option" where
  "question_options seen [] = Some []"
| "question_options seen (option # rest) =
     (let label = go_trim (fst option) in
      if label = [] \<or> label \<in> set seen then None
      else map_option (\<lambda>xs. \<lparr>aoID = label, aoName = userInputOptionLabel option, aoKind = []\<rparr> # xs)
             (question_options (label # seen) rest))"

definition buildUserInputOptions ::
    "string \<Rightarrow> UserInputQuestion \<Rightarrow> approval_error + string \<times> ApprovalOption list" where
  "buildUserInputOptions request q =
     (let question = go_trim (uqID q) in
      if question = [] then Inl ErrNoOptions
      else (case question_options [] (uqOptions q) of
          None \<Rightarrow> Inl ErrNoOptions
        | Some options \<Rightarrow> Inr (go_trim request @ '':'' @ question, options)))"

definition questions_enter :: "string \<Rightarrow> UserInputQuestion list \<Rightarrow> bool \<Rightarrow> approval_call \<Rightarrow> approval_call" where
  "questions_enter request questions reply c =
     (if \<not> validateAgentInteractionRoute (acActor c) (acRoute c) reply then c\<lparr>acStage := CallEnding (Failed ErrInvalidRoute)\<rparr>
      else if go_trim request = [] \<or> questions = [] then c\<lparr>acStage := CallEnding (Failed ErrNoOptions)\<rparr>
      else c\<lparr>acStage := CallNext,
             acNext := map (\<lambda>q. case buildUserInputOptions request q of
                 Inl e \<Rightarrow> Inl e
               | Inr (key, options) \<Rightarrow>
                   Inr \<lparr>arUserID = acActor c, arRouteUserID = acRoute c, arKey = key, arOptions = options,
                     arYolo = [], arKind = choiceInteractionUserInput, arDisplay = False\<rparr>) questions\<rparr>)"

definition register_next ::
    "(string \<Rightarrow> string) \<Rightarrow> instant \<Rightarrow> nat option list \<Rightarrow> approval_table \<Rightarrow> approval_call \<Rightarrow> approval_table \<times> approval_call" where
  "register_next lower now raws s c =
     (case acNext c of
        [] \<Rightarrow> (s, c\<lparr>acStage := CallEnding (Decision [])\<rparr>)
      | Inl e # rest \<Rightarrow> (s, c\<lparr>acStage := CallEnding (Failed e)\<rparr>)
      | Inr r # rest \<Rightarrow>
          (case registerPendingApprovalForRouteWithDisplay lower now raws r s of
             (s', Inl e) \<Rightarrow> (s', c\<lparr>acStage := CallEnding (Failed e)\<rparr>)
           | (s', Inr p) \<Rightarrow>
               (s', c\<lparr>acNext := rest, acPending := p, acStage := (if acApproval c then CallRegistered else CallAsk)\<rparr>)))"

definition prepare_item :: "approval_call \<Rightarrow> pendingApproval \<Rightarrow> pendingApproval" where
  "prepare_item c x = x\<lparr>paStateProbe := acProbe c\<rparr>"

text \<open>The second look at the mode, after the registration and before the card. The last component: whether it decided the item.\<close>

definition second_check :: "approval_table \<Rightarrow> approval_call \<Rightarrow> pendingApproval \<Rightarrow> pendingApproval \<times> approval_call \<times> bool" where
  "second_check s c x =
     (if isYoloMode (approvalModeKey (acActor c) (acRoute c)) s
      then (let yolo = autoApproveApprovalOption (acOptions c);
                won = (go_trim yolo \<noteq> [] \<and> \<not> paResolved x);
                y = snd (deliverPendingApprovalChoice yolo x)
            in (markDisplayReady y, c\<lparr>acStage := CallLeaving (Decision yolo)\<rparr>, won))
      else (x, c\<lparr>acStage := CallAsk\<rparr>, False))"

text \<open>After the card was sent, or was not; \<open>detached\<close> says whether the frontend has left.\<close>

definition asked :: "bool \<Rightarrow> bool \<Rightarrow> approval_call \<Rightarrow> pendingApproval \<Rightarrow> pendingApproval \<times> approval_call" where
  "asked ok detached c x =
     (let y = markDisplayReady x in
      if ok then (y, c\<lparr>acStage := CallWaiting\<rparr>)
      else if detached then (y, c\<lparr>acStage := CallLeaving (Failed ErrObserverDetached)\<rparr>)
      else (case (acApproval c, paChoices y) of
          (True, Some d) \<Rightarrow> (y\<lparr>paChoices := None\<rparr>, c\<lparr>acStage := CallLeaving (Decision (go_trim d))\<rparr>)
        | _ \<Rightarrow> (y, c\<lparr>acStage := CallLeaving (Failed ErrAsk)\<rparr>)))"

subsection \<open>Waiting\<close>

text \<open>The cases of the \<open>select\<close>; a probe that fails is \<open>None\<close>.\<close>

datatype wait_event =
    EvChoice | EvState | EvResolution | EvProbe "ApprovalRequestState option" | EvTimer "ApprovalRequestState option"
  | EvDetached | EvCanceled bool

text \<open>The results: the item, the outcome if the wait is over, and whether the waiter itself decided the item.\<close>

definition review_state ::
    "instant \<Rightarrow> ApprovalRequestState option \<Rightarrow> pendingApproval \<Rightarrow> pendingApproval \<times> call_outcome option \<times> bool" where
  "review_state now probe x =
     (case probe of
        Some ApprovalRequestStateResolvedExternally \<Rightarrow>
          (snd (claim_resolved x), Some (Failed ErrResolvedExternally), \<not> paResolved x)
      | Some ApprovalRequestStateTurnTerminal \<Rightarrow> (snd (claim_resolved x), Some (Failed ErrTurnTerminal), \<not> paResolved x)
      | _ \<Rightarrow> (renewDeadline now x, None, False))"

fun wait_approval ::
    "instant \<Rightarrow> ApprovalOption list \<Rightarrow> wait_event \<Rightarrow> pendingApproval \<Rightarrow> pendingApproval \<times> call_outcome option \<times> bool" where
  "wait_approval now options EvChoice x =
     (case paChoices x of None \<Rightarrow> (x, None, False) | Some d \<Rightarrow> (x\<lparr>paChoices := None\<rparr>, Some (Decision (go_trim d)), False))"
| "wait_approval now options EvState x =
     (case paStateChanges x of
        None \<Rightarrow> (x, None, False)
      | Some ApprovalRequestStateResolvedExternally \<Rightarrow> (x\<lparr>paStateChanges := None\<rparr>, Some (Failed ErrResolvedExternally), False)
      | Some ApprovalRequestStateTurnTerminal \<Rightarrow> (x\<lparr>paStateChanges := None\<rparr>, Some (Failed ErrTurnTerminal), False)
      | Some _ \<Rightarrow> (renewDeadline now (x\<lparr>paStateChanges := None\<rparr>), None, False))"
| "wait_approval now options EvResolution x = (x, Some (Failed ErrResolution), False)"
| "wait_approval now options (EvProbe probe) x = (if paStateProbe x then review_state now probe x else (x, None, False))"
| "wait_approval now options (EvTimer probe) x =
     (if paStateProbe x then review_state now probe x
      else if \<not> paExpiresAt x \<le> now then (x, None, False)
      else if paResolved x then (renewDeadline now x, None, False)
      else (snd (claim_resolved x), Some (Decision (defaultDenyApprovalOption options)), True))"
| "wait_approval now options EvDetached x = (x, Some (Failed ErrObserverDetached), False)"
| "wait_approval now options (EvCanceled detached) x =
     (x, Some (if detached then Failed ErrObserverDetached
               else if paStateProbe x then Failed ErrContext
               else DecisionAndError (defaultDenyApprovalOption options) ErrContext), False)"

text \<open>A question has no state to probe; its timer is not the deadline of the item.\<close>

fun waitForUserInputChoice :: "wait_event \<Rightarrow> pendingApproval \<Rightarrow> pendingApproval \<times> call_outcome option" where
  "waitForUserInputChoice EvChoice x =
     (case paChoices x of None \<Rightarrow> (x, None) | Some d \<Rightarrow> (x\<lparr>paChoices := None\<rparr>, Some (Decision (go_trim d))))"
| "waitForUserInputChoice EvResolution x = (x, Some (Failed ErrResolution))"
| "waitForUserInputChoice (EvTimer probe) x = (x, Some (Failed ErrTimeout))"
| "waitForUserInputChoice EvDetached x = (x, Some (Failed ErrObserverDetached))"
| "waitForUserInputChoice (EvCanceled detached) x =
     (x, Some (if detached then Failed ErrObserverDetached else Failed ErrContext))"
| "waitForUserInputChoice _ x = (x, None)"

definition wait_step ::
    "instant \<Rightarrow> wait_event \<Rightarrow> approval_call \<Rightarrow> pendingApproval \<Rightarrow> pendingApproval \<times> approval_call \<times> bool" where
  "wait_step now ev c x =
     (let (y, r, won) = (if acApproval c then wait_approval now (acOptions c) ev x
                         else (case waitForUserInputChoice ev x of (y, r) \<Rightarrow> (y, r, False)))
      in (y, (case r of None \<Rightarrow> c | Some out \<Rightarrow> c\<lparr>acStage := CallLeaving out\<rparr>), won))"

text \<open>After the item is cleared an approval ends; a question is followed by the next one if it was answered.\<close>

definition after_item :: "call_outcome \<Rightarrow> approval_call \<Rightarrow> approval_call" where
  "after_item out c =
     (case (acApproval c, out) of
        (False, Decision d) \<Rightarrow> c\<lparr>acAnswers := acAnswers c @ [(acPending c, d)], acStage := CallNext\<rparr>
      | _ \<Rightarrow> c\<lparr>acStage := CallEnding out\<rparr>)"

subsection \<open>Answers\<close>

datatype submitted_value = SubChoice string | SubState ApprovalRequestState
datatype sub_stage = SubFound | SubClaimed | SubDone bool

record approval_sub =
  sbPending :: nat
  sbWhat :: submitted_value
  sbActor :: string
  sbRoute :: string
  sbStage :: sub_stage

text \<open>What an answer of \<open>actor\<close> in the window \<open>route\<close> is for: a text, a button of a card, or a code.\<close>

datatype answer = AnswerText string | AnswerKey string string string | AnswerCode string bool

definition find_answer ::
    "(string \<Rightarrow> string) \<Rightarrow> instant \<Rightarrow> string \<Rightarrow> string \<Rightarrow> answer \<Rightarrow> approval_table \<Rightarrow> (nat \<times> string) option" where
  "find_answer lower now actor route a s =
     (case a of
        AnswerText text \<Rightarrow>
          (case find_text lower now actor route text s of TextFound p d \<Rightarrow> Some (p, d) | _ \<Rightarrow> None)
      | AnswerKey kind key choice \<Rightarrow> find_for_key lower actor route kind key choice s
      | AnswerCode code approve \<Rightarrow>
          (case snd (find_code now actor route code approve s) of CodeFound p d \<Rightarrow> Some (p, d) | _ \<Rightarrow> None))"

definition claim_sub :: "approval_sub \<Rightarrow> pendingApproval \<Rightarrow> pendingApproval \<times> approval_sub" where
  "claim_sub b x = (case claim_resolved x of (won, y) \<Rightarrow> (y, b\<lparr>sbStage := (if won then SubClaimed else SubDone False)\<rparr>))"

definition put_sub :: "approval_sub \<Rightarrow> pendingApproval \<Rightarrow> pendingApproval \<times> approval_sub" where
  "put_sub b x =
     (case (case sbWhat b of SubChoice d \<Rightarrow> put_choice d x | SubState st \<Rightarrow> put_state st x) of
        (ok, y) \<Rightarrow> (y, b\<lparr>sbStage := SubDone ok\<rparr>))"

subsection \<open>The system\<close>

text \<open>
  Beside the state there are two logs: who decided each item, and every key whose mode was ever switched to no questions.
\<close>

datatype decider = BySub nat | ByCall nat

record approval_system =
  asTable :: approval_table
  asLeases :: "agentInteractionLease list"
  asCalls :: "approval_call list"
  asSubs :: "approval_sub list"
  asClaims :: "(nat \<times> decider) list"
  asEver :: "string list"

definition begin_lease :: "nat option \<Rightarrow> agentInteractionLease list \<Rightarrow> bool \<times> agentInteractionLease list" where
  "begin_lease l ls =
     (case l of None \<Rightarrow> (True, ls) | Some i \<Rightarrow> (case lease_begin (ls ! i) of (ok, x) \<Rightarrow> (ok, ls[i := x])))"

definition end_lease :: "nat option \<Rightarrow> agentInteractionLease list \<Rightarrow> agentInteractionLease list" where
  "end_lease l ls = (case l of None \<Rightarrow> ls | Some i \<Rightarrow> ls[i := lease_end (ls ! i)])"

definition is_detached :: "nat option \<Rightarrow> agentInteractionLease list \<Rightarrow> bool" where
  "is_detached l ls = (case l of None \<Rightarrow> False | Some i \<Rightarrow> alDetached (ls ! i))"

definition lease_exists :: "nat option \<Rightarrow> agentInteractionLease list \<Rightarrow> bool" where
  "lease_exists l ls \<longleftrightarrow> (case l of None \<Rightarrow> True | Some i \<Rightarrow> i < length ls)"

definition start_call :: "approval_call \<Rightarrow> (approval_call \<Rightarrow> approval_call) \<Rightarrow> approval_system \<Rightarrow> approval_system" where
  "start_call c enter y =
     (case begin_lease (acLease c) (asLeases y) of
        (False, ls) \<Rightarrow> y\<lparr>asCalls := asCalls y @ [c\<lparr>acStage := CallDone (Failed ErrObserverDetached)\<rparr>]\<rparr>
      | (True, ls) \<Rightarrow> y\<lparr>asLeases := ls, asCalls := asCalls y @ [enter c]\<rparr>)"

definition nul_free :: "string \<Rightarrow> bool" where
  "nul_free s \<longleftrightarrow> nul \<notin> set (go_trim s)"

definition claim_log :: "nat \<Rightarrow> decider \<Rightarrow> bool \<Rightarrow> (nat \<times> decider) list \<Rightarrow> (nat \<times> decider) list" where
  "claim_log p d won claims = (if won then claims @ [(p, d)] else claims)"

text \<open>A step of the goroutine \<open>i\<close>, and of the answer \<open>i\<close>, on its item.\<close>

definition call_item ::
    "nat \<Rightarrow> (approval_call \<Rightarrow> pendingApproval \<Rightarrow> pendingApproval \<times> approval_call \<times> bool) \<Rightarrow> approval_system \<Rightarrow> approval_system" where
  "call_item i f y =
     (let c = asCalls y ! i; p = acPending c in
      case f c (apItems (asTable y) ! p) of (x, c', won) \<Rightarrow>
        y\<lparr>asTable := set_item p x (asTable y), asCalls := (asCalls y)[i := c'],
          asClaims := claim_log p (ByCall i) won (asClaims y)\<rparr>)"

definition sub_item ::
    "nat \<Rightarrow> (approval_sub \<Rightarrow> pendingApproval \<Rightarrow> pendingApproval \<times> approval_sub) \<Rightarrow> approval_system \<Rightarrow> approval_system" where
  "sub_item i f y =
     (let b = asSubs y ! i; p = sbPending b in
      case f b (apItems (asTable y) ! p) of (x, b') \<Rightarrow>
        y\<lparr>asTable := set_item p x (asTable y), asSubs := (asSubs y)[i := b'],
          asClaims := claim_log p (BySub i) (sbStage b' = SubClaimed) (asClaims y)\<rparr>)"

definition new_sub :: "nat \<Rightarrow> submitted_value \<Rightarrow> string \<Rightarrow> string \<Rightarrow> approval_sub" where
  "new_sub p what actor route =
     \<lparr>sbPending = p, sbWhat = what, sbActor = actor, sbRoute = route, sbStage = SubFound\<rparr>"

definition waiting_event_ok :: "wait_event \<Rightarrow> bool \<Rightarrow> bool" where
  "waiting_event_ok ev detached \<longleftrightarrow>
     (ev = EvDetached \<longrightarrow> detached) \<and> (\<forall>d. ev = EvCanceled d \<longrightarrow> d = detached)"

inductive approval_step :: "(string \<Rightarrow> string) \<Rightarrow> approval_system \<Rightarrow> approval_system \<Rightarrow> bool" for lower where
  ask_approval: "nul_free actor \<Longrightarrow> nul_free route \<Longrightarrow> lease_exists lease (asLeases y) \<Longrightarrow>
    approval_step lower y (start_call (new_call actor route lease options probe True) (approval_enter key reply recorder (asTable y)) y)"
| ask_questions: "nul_free actor \<Longrightarrow> nul_free route \<Longrightarrow> lease_exists lease (asLeases y) \<Longrightarrow>
    approval_step lower y (start_call (new_call actor route lease [] False False) (questions_enter request questions reply) y)"
| register: "i < length (asCalls y) \<Longrightarrow> acStage (asCalls y ! i) = CallNext \<Longrightarrow>
    register_next lower now raws (asTable y) (asCalls y ! i) = (s', c') \<Longrightarrow>
    approval_step lower y (y\<lparr>asTable := s', asCalls := (asCalls y)[i := c']\<rparr>)"
| prepare: "i < length (asCalls y) \<Longrightarrow> acStage (asCalls y ! i) = CallRegistered \<Longrightarrow>
    approval_step lower y (call_item i (\<lambda>c x. (prepare_item c x, c\<lparr>acStage := CallPrepared\<rparr>, False)) y)"
| recheck: "i < length (asCalls y) \<Longrightarrow> acStage (asCalls y ! i) = CallPrepared \<Longrightarrow>
    approval_step lower y (call_item i (second_check (asTable y)) y)"
| ask: "i < length (asCalls y) \<Longrightarrow> acStage (asCalls y ! i) = CallAsk \<Longrightarrow>
    approval_step lower y (call_item i (\<lambda>c x. case asked ok (is_detached (acLease c) (asLeases y)) c x of (x', c') \<Rightarrow> (x', c', False)) y)"
| wait_for: "i < length (asCalls y) \<Longrightarrow> acStage (asCalls y ! i) = CallWaiting \<Longrightarrow>
    waiting_event_ok ev (is_detached (acLease (asCalls y ! i)) (asLeases y)) \<Longrightarrow>
    approval_step lower y (call_item i (wait_step now ev) y)"
| leave: "i < length (asCalls y) \<Longrightarrow> acStage (asCalls y ! i) = CallLeaving out \<Longrightarrow>
    approval_step lower y (y\<lparr>asTable := clearPendingApproval now (acPending (asCalls y ! i)) (asTable y),
      asCalls := (asCalls y)[i := after_item out (asCalls y ! i)]\<rparr>)"
| finish: "i < length (asCalls y) \<Longrightarrow> acStage (asCalls y ! i) = CallEnding out \<Longrightarrow>
    approval_step lower y (y\<lparr>asLeases := end_lease (acLease (asCalls y ! i)) (asLeases y),
      asCalls := (asCalls y)[i := (asCalls y ! i)\<lparr>acStage := CallDone out\<rparr>]\<rparr>)"
| answer: "nul_free actor \<Longrightarrow> nul_free route \<Longrightarrow> find_answer lower now actor route a (asTable y) = Some (p, d) \<Longrightarrow>
    approval_step lower y (y\<lparr>asSubs := asSubs y @ [new_sub p (SubChoice d) actor route]\<rparr>)"
| forget_codes: "approval_step lower y (y\<lparr>asTable := cleanupResolvedApprovalCodesLocked now (asTable y)\<rparr>)"
| claim: "i < length (asSubs y) \<Longrightarrow> sbStage (asSubs y ! i) = SubFound \<Longrightarrow> approval_step lower y (sub_item i claim_sub y)"
| put: "i < length (asSubs y) \<Longrightarrow> sbStage (asSubs y ! i) = SubClaimed \<Longrightarrow> approval_step lower y (sub_item i put_sub y)"
| review: "p \<in> set (review_items actor route (asTable y)) \<Longrightarrow> st \<in> {ApprovalRequestStateResolvedExternally, ApprovalRequestStateTurnTerminal} \<Longrightarrow>
    approval_step lower y (y\<lparr>asSubs := asSubs y @ [new_sub p (SubState st) actor route]\<rparr>)"
| renew: "p \<in> set (review_items actor route (asTable y)) \<Longrightarrow>
    approval_step lower y (y\<lparr>asTable := set_item p (renewDeadline now (apItems (asTable y) ! p)) (asTable y)\<rparr>)"
| mode: "approval_step lower y (y\<lparr>asTable := setYoloMode (approvalModeKey actor route) on (asTable y),
      asEver := (if on then go_trim (approvalModeKey actor route) # asEver y else asEver y)\<rparr>)"
| resolve_for_mode: "go_trim (approvalModeKey actor route) \<in> set (asEver y) \<Longrightarrow> p \<in> set (yolo_items actor route (asTable y)) \<Longrightarrow>
    approval_step lower y (y\<lparr>asSubs := asSubs y @ [new_sub p (SubChoice (paYolo (apItems (asTable y) ! p))) actor route]\<rparr>)"
| new_frontend: "approval_step lower y (y\<lparr>asLeases := asLeases y @ [idle_lease]\<rparr>)"
| frontend_leaves: "l < length (asLeases y) \<Longrightarrow> force \<or> claimDetach (Some (asLeases y ! l)) \<Longrightarrow>
    approval_step lower y (y\<lparr>asLeases := (asLeases y)[l := detachLocked (asLeases y ! l)]\<rparr>)"

definition approval_init :: "approval_system \<Rightarrow> bool" where
  "approval_init y \<longleftrightarrow>
     y = \<lparr>asTable = \<lparr>apPending = [], apItems = [], apCodes = [], apYolo = []\<rparr>, asLeases = [], asCalls = [], asSubs = [],
         asClaims = [], asEver = []\<rparr>"

end
