(* ===== verification/Approval_Inv.thy ===== *)
theory Approval_Inv
  imports Approval_System
begin

section \<open>The invariant of approvals\<close>

subsection \<open>What never changes, and what only grows\<close>

definition frame :: "pendingApproval \<Rightarrow> (string \<times> string \<times> string \<times> string \<times> string \<times> string \<times> string) \<times> string list \<times> (string \<times> string) list" where
  "frame x = ((paKey x, paUserID x, paRoute x, paKind x, paYolo x, paDeny x, paCode x), paAllowed x, paAliases x)"

text \<open>One atomic change of an item; the last argument says whether it decides the item.\<close>

definition item_move :: "pendingApproval \<Rightarrow> pendingApproval \<Rightarrow> bool \<Rightarrow> bool" where
  "item_move x x' won \<longleftrightarrow> frame x' = frame x \<and> (won \<longrightarrow> \<not> paResolved x) \<and> paResolved x' = (won \<or> paResolved x)"

lemma frame_eqD:
  assumes "frame x' = frame x"
  shows "paKey x' = paKey x" "paUserID x' = paUserID x" "paRoute x' = paRoute x" "paKind x' = paKind x" "paYolo x' = paYolo x"
    "paDeny x' = paDeny x" "paCode x' = paCode x" "paAllowed x' = paAllowed x" "paAliases x' = paAliases x"
  using assms by (simp_all add: frame_def)

lemma frame_updates [simp]:
  "frame (x\<lparr>paChoices := a\<rparr>) = frame x" "frame (x\<lparr>paStateChanges := b\<rparr>) = frame x" "frame (x\<lparr>paStateProbe := c\<rparr>) = frame x"
  "frame (x\<lparr>paExpiresAt := d\<rparr>) = frame x" "frame (x\<lparr>paDisplayReady := e\<rparr>) = frame x" "frame (x\<lparr>paResolved := f\<rparr>) = frame x"
  by (simp_all add: frame_def)

lemmas item_ops = claim_resolved_def put_choice_def put_state_def deliverPendingApprovalChoice_def
  deliverPendingApprovalState_def renewDeadline_def markDisplayReady_def prepare_item_def

definition same_sub :: "approval_sub \<Rightarrow> approval_sub \<Rightarrow> bool" where
  "same_sub b b' \<longleftrightarrow> sbPending b' = sbPending b \<and> sbWhat b' = sbWhat b \<and> sbActor b' = sbActor b \<and> sbRoute b' = sbRoute b"

definition sys_le :: "approval_system \<Rightarrow> approval_system \<Rightarrow> bool" where
  "sys_le y z \<longleftrightarrow>
     length (apItems (asTable y)) \<le> length (apItems (asTable z)) \<and>
     (\<forall>p < length (apItems (asTable y)). frame (apItems (asTable z) ! p) = frame (apItems (asTable y) ! p)) \<and>
     length (asSubs y) \<le> length (asSubs z) \<and>
     (\<forall>i < length (asSubs y). same_sub (asSubs y ! i) (asSubs z ! i)) \<and>
     set (asClaims y) \<subseteq> set (asClaims z) \<and> set (asEver y) \<subseteq> set (asEver z)"

subsection \<open>Where a decision comes from\<close>

definition mode_key :: "approval_call \<Rightarrow> string" where
  "mode_key c = go_trim (approvalModeKey (acActor c) (acRoute c))"

text \<open>An answer of the user that the call asked, in its window, that means one of the options of the item.\<close>

definition choice_of :: "(string \<Rightarrow> string) \<Rightarrow> pendingApproval \<Rightarrow> string \<Rightarrow> bool" where
  "choice_of lower x d \<longleftrightarrow> (\<exists>word. resolveChoice lower word x = d \<and> d \<noteq> []) \<or> d = paYolo x \<or> d = paDeny x"

definition answered :: "(string \<Rightarrow> string) \<Rightarrow> approval_system \<Rightarrow> approval_call \<Rightarrow> nat \<Rightarrow> string \<Rightarrow> bool" where
  "answered lower y c p d \<longleftrightarrow>
     p < length (apItems (asTable y)) \<and>
     (\<exists>i e. i < length (asSubs y) \<and> (p, BySub i) \<in> set (asClaims y) \<and> sbWhat (asSubs y ! i) = SubChoice e \<and> d = go_trim e \<and>
        go_trim (sbActor (asSubs y ! i)) = go_trim (acActor c) \<and> go_trim (sbRoute (asSubs y ! i)) = go_trim (acRoute c) \<and>
        choice_of lower (apItems (asTable y) ! p) e)"

definition call_decision :: "(string \<Rightarrow> string) \<Rightarrow> approval_system \<Rightarrow> approval_call \<Rightarrow> string \<Rightarrow> bool" where
  "call_decision lower y c d \<longleftrightarrow>
     answered lower y c (acPending c) d \<or>
     mode_key c \<in> set (asEver y) \<and> go_trim d = go_trim (autoApproveApprovalOption (acOptions c)) \<or>
     (\<exists>i. (acPending c, ByCall i) \<in> set (asClaims y)) \<and> d = defaultDenyApprovalOption (acOptions c)"

lemma sys_le_refl [simp]: "sys_le y y"
  by (simp add: sys_le_def same_sub_def)

lemma choice_of_frame:
  assumes "frame x' = frame x"
  shows "choice_of lower x' d = choice_of lower x d"
proof -
  note f = frame_eqD [OF assms]
  have "resolveChoice lower word x' = resolveChoice lower word x" for word unfolding resolveChoice_def f ..
  then show ?thesis by (simp add: choice_of_def f)
qed

lemma answered_le:
  assumes le: "sys_le y z" and "answered lower y c p d"
  shows "answered lower z c p d"
proof -
  from assms(2) obtain i e where p: "p < length (apItems (asTable y))" and i: "i < length (asSubs y)"
    and b: "(p, BySub i) \<in> set (asClaims y)" "sbWhat (asSubs y ! i) = SubChoice e" "d = go_trim e"
      "go_trim (sbActor (asSubs y ! i)) = go_trim (acActor c)" "go_trim (sbRoute (asSubs y ! i)) = go_trim (acRoute c)"
    and e: "choice_of lower (apItems (asTable y) ! p) e"
    unfolding answered_def by blast
  have f: "frame (apItems (asTable z) ! p) = frame (apItems (asTable y) ! p)" "p < length (apItems (asTable z))"
    "i < length (asSubs z)" "same_sub (asSubs y ! i) (asSubs z ! i)" "set (asClaims y) \<subseteq> set (asClaims z)"
    using le p i by (simp_all add: sys_le_def)
  then show ?thesis using b e unfolding answered_def same_sub_def
    by (intro conjI exI [of _ i] exI [of _ e]) (auto simp: choice_of_frame [OF f(1)])
qed

lemma call_decision_le:
  assumes le: "sys_le y z" and "call_decision lower y c d"
  shows "call_decision lower z c d"
proof -
  have "set (asClaims y) \<subseteq> set (asClaims z)" "set (asEver y) \<subseteq> set (asEver z)" using le by (simp_all add: sys_le_def)
  with assms(2) answered_le [OF le, of lower c "acPending c" d] show ?thesis
    unfolding call_decision_def by (elim disjE conjE exE) auto
qed

subsection \<open>The parts of the invariant\<close>

definition item_ok :: "pendingApproval \<Rightarrow> bool" where
  "item_ok x \<longleftrightarrow>
     (\<exists>u r k a. paKey x = pendingApprovalMapKey u r k a \<and> paUserID x = go_trim u \<and> paRoute x = go_trim r \<and>
        nul_free u \<and> nul_free r)"

definition approvals_ok :: "approval_table \<Rightarrow> bool" where
  "approvals_ok s \<longleftrightarrow>
     distinct (map fst (apPending s)) \<and>
     (\<forall>(k, p) \<in> set (apPending s). p < length (apItems s) \<and> paKey (apItems s ! p) = k) \<and>
     (\<forall>p < length (apItems s). item_ok (apItems s ! p))"

definition sub_ok :: "(string \<Rightarrow> string) \<Rightarrow> pendingApproval list \<Rightarrow> approval_sub \<Rightarrow> bool" where
  "sub_ok lower xs b \<longleftrightarrow>
     sbPending b < length xs \<and>
     (\<forall>d. sbWhat b = SubChoice d \<longrightarrow>
        paUserID (xs ! sbPending b) = go_trim (sbActor b) \<and> paRoute (xs ! sbPending b) = go_trim (sbRoute b) \<and>
        choice_of lower (xs ! sbPending b) d)"

definition decided_by :: "sub_stage \<Rightarrow> bool" where
  "decided_by st \<longleftrightarrow> st \<in> {SubClaimed, SubDone True}"

definition deciders_ok :: "pendingApproval list \<Rightarrow> approval_sub list \<Rightarrow> (nat \<times> decider) list \<Rightarrow> bool" where
  "deciders_ok xs bs claims \<longleftrightarrow>
     distinct (map fst claims) \<and>
     (\<forall>p. p \<in> fst ` set claims \<longleftrightarrow> p < length xs \<and> paResolved (xs ! p)) \<and>
     (\<forall>i < length bs. decided_by (sbStage (bs ! i)) \<longleftrightarrow> (sbPending (bs ! i), BySub i) \<in> set claims) \<and>
     (\<forall>p i. (p, BySub i) \<in> set claims \<longrightarrow> i < length bs \<and> sbPending (bs ! i) = p)"

text \<open>What stands in the channel of choices was put there by the one who decided.\<close>

definition chosen_by :: "approval_system \<Rightarrow> nat \<Rightarrow> string \<Rightarrow> bool" where
  "chosen_by y p d \<longleftrightarrow>
     (\<exists>i. i < length (asSubs y) \<and> (p, BySub i) \<in> set (asClaims y) \<and> sbWhat (asSubs y ! i) = SubChoice d \<and>
        sbStage (asSubs y ! i) = SubDone True) \<or>
     (\<exists>i. (p, ByCall i) \<in> set (asClaims y)) \<and> go_trim d \<noteq> [] \<and> go_trim d = paYolo (apItems (asTable y) ! p) \<and>
        go_trim (approvalModeKey (paUserID (apItems (asTable y) ! p)) (paRoute (apItems (asTable y) ! p))) \<in> set (asEver y)"

definition state_by :: "approval_system \<Rightarrow> nat \<Rightarrow> bool" where
  "state_by y p \<longleftrightarrow>
     (\<exists>i st. i < length (asSubs y) \<and> (p, BySub i) \<in> set (asClaims y) \<and> sbWhat (asSubs y ! i) = SubState st \<and>
        sbStage (asSubs y ! i) = SubDone True)"

definition channels_ok :: "approval_system \<Rightarrow> bool" where
  "channels_ok y \<longleftrightarrow>
     (\<forall>p < length (apItems (asTable y)).
        (\<forall>d. paChoices (apItems (asTable y) ! p) = Some d \<longrightarrow> chosen_by y p d) \<and>
        (paStateChanges (apItems (asTable y) ! p) \<noteq> None \<longrightarrow> state_by y p))"

definition item_link :: "pendingApproval list \<Rightarrow> approval_call \<Rightarrow> bool" where
  "item_link xs c \<longleftrightarrow>
     acPending c < length xs \<and>
     (let x = xs ! acPending c in
      paUserID x = go_trim (acActor c) \<and> paRoute x = go_trim (acRoute c) \<and>
      paYolo x = (if acApproval c then go_trim (autoApproveApprovalOption (acOptions c)) else []))"

definition outcome_ok :: "(string \<Rightarrow> string) \<Rightarrow> approval_system \<Rightarrow> approval_call \<Rightarrow> call_outcome \<Rightarrow> bool" where
  "outcome_ok lower y c out \<longleftrightarrow>
     (\<forall>d. out = Decision d \<and> acApproval c \<longrightarrow> call_decision lower y c d)"

definition stage_ok :: "(string \<Rightarrow> string) \<Rightarrow> approval_system \<Rightarrow> approval_call \<Rightarrow> bool" where
  "stage_ok lower y c \<longleftrightarrow>
     (case acStage c of
        CallNext \<Rightarrow> acApproval c \<longrightarrow> acNext c \<noteq> []
      | CallRegistered \<Rightarrow> acApproval c \<and> item_link (apItems (asTable y)) c
      | CallPrepared \<Rightarrow> acApproval c \<and> item_link (apItems (asTable y)) c
      | CallLeaving out \<Rightarrow>
          item_link (apItems (asTable y)) c \<and> outcome_ok lower y c out \<and>
          (\<forall>d. out = Decision d \<and> \<not> acApproval c \<longrightarrow> answered lower y c (acPending c) d)
      | CallEnding out \<Rightarrow> outcome_ok lower y c out
      | CallDone out \<Rightarrow> outcome_ok lower y c out
      | _ \<Rightarrow> item_link (apItems (asTable y)) c)"

text \<open>What a call will register is in the name of its user and its window.\<close>

definition request_ok :: "approval_call \<Rightarrow> approval_request \<Rightarrow> bool" where
  "request_ok c r \<longleftrightarrow>
     arUserID r = acActor c \<and> arRouteUserID r = acRoute c \<and>
     go_trim (arYolo r) = (if acApproval c then go_trim (autoApproveApprovalOption (acOptions c)) else [])"

definition call_ok :: "(string \<Rightarrow> string) \<Rightarrow> approval_system \<Rightarrow> approval_call \<Rightarrow> bool" where
  "call_ok lower y c \<longleftrightarrow>
     nul_free (acActor c) \<and> nul_free (acRoute c) \<and> stage_ok lower y c \<and>
     (\<forall>r. Inr r \<in> set (acNext c) \<longrightarrow> request_ok c r) \<and>
     (\<forall>(p, d) \<in> set (acAnswers c). answered lower y c p d) \<and>
     (acApproval c \<longrightarrow> acAnswers c = [])"

definition approval_inv :: "(string \<Rightarrow> string) \<Rightarrow> approval_system \<Rightarrow> bool" where
  "approval_inv lower y \<longleftrightarrow>
     approvals_ok (asTable y) \<and> (\<forall>b \<in> set (asSubs y). sub_ok lower (apItems (asTable y)) b) \<and>
     deciders_ok (apItems (asTable y)) (asSubs y) (asClaims y) \<and> channels_ok y \<and>
     (\<forall>c \<in> set (asCalls y). call_ok lower y c) \<and> set (apYolo (asTable y)) \<subseteq> set (asEver y)"

lemma approval_invD:
  assumes "approval_inv lower y"
  shows "approvals_ok (asTable y)" "\<And>b. b \<in> set (asSubs y) \<Longrightarrow> sub_ok lower (apItems (asTable y)) b"
    "deciders_ok (apItems (asTable y)) (asSubs y) (asClaims y)" "channels_ok y" "\<And>c. c \<in> set (asCalls y) \<Longrightarrow> call_ok lower y c"
    "set (apYolo (asTable y)) \<subseteq> set (asEver y)"
  using assms by (auto simp: approval_inv_def)

subsection \<open>Growth keeps what was established\<close>

lemma item_link_le: "sys_le y z \<Longrightarrow> item_link (apItems (asTable y)) c \<Longrightarrow> item_link (apItems (asTable z)) c"
  using frame_eqD [of "apItems (asTable z) ! acPending c" "apItems (asTable y) ! acPending c"]
  by (auto simp: sys_le_def item_link_def Let_def)

lemma call_ok_le:
  assumes "sys_le y z" and "call_ok lower y c"
  shows "call_ok lower z c"
  using assms item_link_le [OF assms(1), of c] answered_le [OF assms(1)] call_decision_le [OF assms(1)]
  by (auto simp: call_ok_def stage_ok_def outcome_ok_def split: call_stage.splits)

lemma sub_ok_le:
  assumes "sys_le y z" and "sub_ok lower (apItems (asTable y)) b"
  shows "sub_ok lower (apItems (asTable z)) b"
proof -
  let ?p = "sbPending b"
  have f: "?p < length (apItems (asTable z))" "frame (apItems (asTable z) ! ?p) = frame (apItems (asTable y) ! ?p)"
    using assms by (auto simp: sys_le_def sub_ok_def)
  show ?thesis using assms(2) f(1) frame_eqD(2,3) [OF f(2)] choice_of_frame [OF f(2)] by (simp add: sub_ok_def)
qed

lemma set_item_fields [simp]:
  "apPending (set_item p x s) = apPending s" "apCodes (set_item p x s) = apCodes s" "apYolo (set_item p x s) = apYolo s"
  "apItems (set_item p x s) = (apItems s)[p := x]"
  by (simp_all add: set_item_def)

lemma approvals_ok_set:
  assumes "approvals_ok s" and "frame x = frame (apItems s ! p)"
  shows "approvals_ok (set_item p x s)"
proof (cases "p < length (apItems s)")
  case True
  have "item_ok x"
    using assms True frame_eqD [OF assms(2)] by (simp add: approvals_ok_def item_ok_def)
  then show ?thesis using assms(1) frame_eqD(1) [OF assms(2)] True
    by (auto simp: approvals_ok_def nth_list_update)
next
  case False
  then have "set_item p x s = s" by (simp add: set_item_def list_update_beyond)
  then show ?thesis using assms(1) by simp
qed

end
