(* ===== verification/Approval_Runs.thy ===== *)
theory Approval_Runs
  imports Approval_Inv
begin

section \<open>Every step keeps the invariant of approvals\<close>

definition sys_grow :: "approval_system \<Rightarrow> approval_system \<Rightarrow> bool" where
  "sys_grow y z \<longleftrightarrow> sys_le y z \<and> (\<forall>i < length (asSubs y). sbStage (asSubs y ! i) = SubDone True \<longrightarrow> sbStage (asSubs z ! i) = SubDone True)"

lemma chosen_by_grow:
  assumes g: "sys_grow y z" and p: "p < length (apItems (asTable y))" and "chosen_by y p d"
  shows "chosen_by z p d"
proof -
  have f: "frame (apItems (asTable z) ! p) = frame (apItems (asTable y) ! p)"
    "set (asClaims y) \<subseteq> set (asClaims z)" "set (asEver y) \<subseteq> set (asEver z)" "length (asSubs y) \<le> length (asSubs z)"
    using g p by (simp_all add: sys_grow_def sys_le_def)
  have s: "sbWhat (asSubs z ! i) = sbWhat (asSubs y ! i)" "sbStage (asSubs y ! i) = SubDone True \<Longrightarrow> sbStage (asSubs z ! i) = SubDone True"
    if "i < length (asSubs y)" for i
    using g that by (simp_all add: sys_grow_def sys_le_def same_sub_def)
  from assms(3) [unfolded chosen_by_def] show ?thesis
  proof (elim disjE exE conjE)
    fix i
    assume "i < length (asSubs y)" "(p, BySub i) \<in> set (asClaims y)" "sbWhat (asSubs y ! i) = SubChoice d"
      "sbStage (asSubs y ! i) = SubDone True"
    then show ?thesis using s [of i] f unfolding chosen_by_def by auto
  next
    fix i
    assume "(p, ByCall i) \<in> set (asClaims y)" "go_trim d \<noteq> []" "go_trim d = paYolo (apItems (asTable y) ! p)"
      "go_trim (approvalModeKey (paUserID (apItems (asTable y) ! p)) (paRoute (apItems (asTable y) ! p))) \<in> set (asEver y)"
    then show ?thesis using f frame_eqD [OF f(1)] unfolding chosen_by_def by auto
  qed
qed

lemma state_by_grow:
  assumes g: "sys_grow y z" and "state_by y p"
  shows "state_by z p"
proof -
  from assms(2) obtain i st where i: "i < length (asSubs y)" "(p, BySub i) \<in> set (asClaims y)" "sbWhat (asSubs y ! i) = SubState st"
      "sbStage (asSubs y ! i) = SubDone True" unfolding state_by_def by blast
  then show ?thesis using g unfolding state_by_def sys_grow_def sys_le_def same_sub_def
    by (intro exI [of _ i] exI [of _ st]) auto
qed

text \<open>A step that only grows keeps what the calls and the answers rest on; what is left is the part that changes.\<close>

lemma approval_inv_grow:
  assumes i: "approval_inv lower y" and g: "sys_grow y z"
    and t: "approvals_ok (asTable z)" and d: "deciders_ok (apItems (asTable z)) (asSubs z) (asClaims z)"
    and ch: "\<And>p e. p < length (apItems (asTable z)) \<Longrightarrow> paChoices (apItems (asTable z) ! p) = Some e \<Longrightarrow>
       p < length (apItems (asTable y)) \<and> paChoices (apItems (asTable y) ! p) = Some e \<or> chosen_by z p e"
    and st: "\<And>p. p < length (apItems (asTable z)) \<Longrightarrow> paStateChanges (apItems (asTable z) ! p) \<noteq> None \<Longrightarrow>
       p < length (apItems (asTable y)) \<and> paStateChanges (apItems (asTable y) ! p) \<noteq> None \<or> state_by z p"
    and b: "\<And>b. b \<in> set (asSubs z) \<Longrightarrow> (\<exists>b' \<in> set (asSubs y). same_sub b' b) \<or> sub_ok lower (apItems (asTable z)) b"
    and c: "\<And>c. c \<in> set (asCalls z) \<Longrightarrow> c \<in> set (asCalls y) \<or> call_ok lower z c"
    and e: "set (apYolo (asTable z)) \<subseteq> set (asEver z)"
  shows "approval_inv lower z"
proof -
  note iD = approval_invD [OF i]
  have le: "sys_le y z" using g by (simp add: sys_grow_def)
  have "sub_ok lower (apItems (asTable z)) b'" if "same_sub b b'" "b \<in> set (asSubs y)" for b b'
    using sub_ok_le [OF le iD(2) [OF that(2)]] that(1) by (simp add: same_sub_def sub_ok_def)
  moreover have "channels_ok z"
    unfolding channels_ok_def
    using ch st iD(4) chosen_by_grow [OF g] state_by_grow [OF g] unfolding channels_ok_def by blast
  ultimately show ?thesis using t d b c e call_ok_le [OF le iD(5)] unfolding approval_inv_def by blast
qed

subsection \<open>Changes of one item\<close>

lemma deciders_own:
  assumes "deciders_ok xs bs claims" and "p < length xs" and m: "item_move (xs ! p) x won" and "\<And>k. who \<noteq> BySub k"
  shows "deciders_ok (xs[p := x]) bs (claim_log p who won claims)"
proof (cases won)
  case True
  then have "p \<notin> fst ` set claims" using assms by (auto simp: deciders_ok_def item_move_def)
  moreover have "(a, BySub k) = (p, who) \<longleftrightarrow> False" for a k using assms(4) by blast
  ultimately show ?thesis using assms True
    by (auto simp: deciders_ok_def item_move_def claim_log_def nth_list_update split: if_splits)
next
  case False
  then have "paResolved ((xs[p := x]) ! q) = paResolved (xs ! q)" for q
    using m assms(2) by (cases "q = p") (simp_all add: item_move_def)
  then show ?thesis using assms(1) False by (simp add: deciders_ok_def claim_log_def)
qed

lemma call_item_eq:
  assumes "f (asCalls y ! i) (apItems (asTable y) ! acPending (asCalls y ! i)) = (x, c', won)"
  shows "call_item i f y = y\<lparr>asTable := set_item (acPending (asCalls y ! i)) x (asTable y), asCalls := (asCalls y)[i := c'],
    asClaims := claim_log (acPending (asCalls y ! i)) (ByCall i) won (asClaims y)\<rparr>"
  using assms by (simp add: call_item_def Let_def)

definition same_call :: "approval_call \<Rightarrow> approval_call \<Rightarrow> bool" where
  "same_call c c' \<longleftrightarrow> acActor c' = acActor c \<and> acRoute c' = acRoute c \<and> acOptions c' = acOptions c \<and>
     acApproval c' = acApproval c \<and> acNext c' = acNext c \<and> acAnswers c' = acAnswers c \<and> acPending c' = acPending c"

lemma inv_call_item:
  assumes i: "approval_inv lower y" and l: "i < length (asCalls y)"
  defines "c \<equiv> asCalls y ! i"
  defines "p \<equiv> acPending c" and "x \<equiv> apItems (asTable y) ! acPending c"
  assumes p: "p < length (apItems (asTable y))" and f: "f c x = (x', c', won)" and m: "item_move x x' won"
    and ch: "\<And>d. paChoices x' = Some d \<Longrightarrow> paChoices x = Some d \<or> won \<and> go_trim d \<noteq> [] \<and> go_trim d = paYolo x \<and>
       go_trim (approvalModeKey (paUserID x) (paRoute x)) \<in> set (asEver y)"
    and st: "paStateChanges x' \<noteq> None \<Longrightarrow> paStateChanges x \<noteq> None"
    and c': "same_call c c'" and s: "\<And>z. sys_le y z \<Longrightarrow> won \<longrightarrow> (p, ByCall i) \<in> set (asClaims z) \<Longrightarrow> stage_ok lower z c'"
  shows "approval_inv lower (call_item i f y)"
proof -
  define z where "z = y\<lparr>asTable := set_item p x' (asTable y), asCalls := (asCalls y)[i := c'],
    asClaims := claim_log p (ByCall i) won (asClaims y)\<rparr>"
  have z: "call_item i f y = z" using call_item_eq [of f y i x' c' won] f unfolding z_def c_def p_def x_def by simp
  note iD = approval_invD [OF i]
  have fr: "frame x' = frame x" using m by (simp add: item_move_def)
  have g: "sys_grow y z" using p fr
    by (auto simp: sys_grow_def sys_le_def z_def same_sub_def claim_log_def x_def p_def nth_list_update)
  have le: "sys_le y z" using g by (simp add: sys_grow_def)
  have "call_ok lower z c"
    using call_ok_le [OF le iD(5)] l by (simp add: c_def)
  moreover have "stage_ok lower z c'" by (rule s [OF le]) (simp add: z_def claim_log_def)
  ultimately have ok: "call_ok lower z c'"
    using c' by (simp add: call_ok_def same_call_def request_ok_def answered_def)
  show ?thesis unfolding z
  proof (rule approval_inv_grow [OF i g])
    show "approvals_ok (asTable z)"
      using approvals_ok_set [OF iD(1)] fr by (simp add: z_def x_def p_def)
    show "deciders_ok (apItems (asTable z)) (asSubs z) (asClaims z)"
      using deciders_own [OF iD(3) p, of x' won "ByCall i"] m by (simp add: z_def x_def p_def)
    show "set (apYolo (asTable z)) \<subseteq> set (asEver z)" using iD(6) by (simp add: z_def)
    show "b \<in> set (asSubs z) \<Longrightarrow> (\<exists>b' \<in> set (asSubs y). same_sub b' b) \<or> sub_ok lower (apItems (asTable z)) b" for b
      by (auto simp: z_def same_sub_def)
    show "d \<in> set (asCalls z) \<Longrightarrow> d \<in> set (asCalls y) \<or> call_ok lower z d" for d
      using ok set_update_subset_insert [of "asCalls y" i c'] by (auto simp: z_def)
  next
    fix q e
    assume q: "q < length (apItems (asTable z))" and e: "paChoices (apItems (asTable z) ! q) = Some e"
    show "q < length (apItems (asTable y)) \<and> paChoices (apItems (asTable y) ! q) = Some e \<or> chosen_by z q e"
    proof (cases "q = p")
      case True
      then have "paChoices x' = Some e" using e p by (simp add: z_def)
      from ch [OF this] show ?thesis using True p frame_eqD [OF fr]
        by (auto simp: z_def x_def p_def chosen_by_def claim_log_def)
    next
      case False
      then show ?thesis using q e by (simp add: z_def)
    qed
  next
    fix q
    assume "q < length (apItems (asTable z))" and "paStateChanges (apItems (asTable z) ! q) \<noteq> None"
    then show "q < length (apItems (asTable y)) \<and> paStateChanges (apItems (asTable y) ! q) \<noteq> None \<or> state_by z q"
      using st p by (cases "q = p") (auto simp: z_def x_def p_def)
  qed
qed

subsection \<open>Answers on their way\<close>

lemma one_decider: "deciders_ok xs bs claims \<Longrightarrow> (p, a) \<in> set claims \<Longrightarrow> (p, b) \<in> set claims \<Longrightarrow> a = b"
  by (auto simp: deciders_ok_def dest: eq_key_imp_eq_value)

lemma deciders_okD:
  assumes "deciders_ok xs bs claims"
  shows "distinct (map fst claims)" "\<And>p. p \<in> fst ` set claims \<longleftrightarrow> p < length xs \<and> paResolved (xs ! p)"
    "\<And>i. i < length bs \<Longrightarrow> decided_by (sbStage (bs ! i)) \<longleftrightarrow> (sbPending (bs ! i), BySub i) \<in> set claims"
    "\<And>p i. (p, BySub i) \<in> set claims \<Longrightarrow> i < length bs \<and> sbPending (bs ! i) = p"
  using assms unfolding deciders_ok_def by blast+

lemma deciders_same:
  assumes d: "deciders_ok xs bs claims" and r: "\<And>q. paResolved (xs' ! q) = paResolved (xs ! q)" and "length xs' = length xs"
    and b: "same_sub (bs ! i) b" "decided_by (sbStage b) = decided_by (sbStage (bs ! i))"
  shows "deciders_ok xs' (bs[i := b]) claims"
proof -
  have "sbPending (bs[i := b] ! k) = sbPending (bs ! k) \<and> decided_by (sbStage (bs[i := b] ! k)) = decided_by (sbStage (bs ! k))" for k
    using b by (cases "k = i \<and> i < length bs") (auto simp: same_sub_def nth_list_update list_update_beyond)
  then show ?thesis using d r assms(3) by (simp add: deciders_ok_def)
qed

lemma deciders_claim:
  assumes d: "deciders_ok xs bs claims" and i: "i < length bs" and f: "sbStage (bs ! i) = SubFound" and p: "p = sbPending (bs ! i)"
    and l: "p < length xs" and c: "claim_sub (bs ! i) (xs ! p) = (x, b)"
  shows "deciders_ok (xs[p := x]) (bs[i := b]) (claim_log p (BySub i) (sbStage b = SubClaimed) claims)"
proof (cases "paResolved (xs ! p)")
  case True
  then have "x = xs ! p" "b = (bs ! i)\<lparr>sbStage := SubDone False\<rparr>" using c by (auto simp: claim_sub_def claim_resolved_def)
  then show ?thesis using deciders_same [OF d, of "xs[p := x]" i b] f
    by (simp add: claim_log_def decided_by_def same_sub_def)
next
  case False
  then have x: "x = (xs ! p)\<lparr>paResolved := True\<rparr>" and b: "b = (bs ! i)\<lparr>sbStage := SubClaimed\<rparr>"
    using c by (auto simp: claim_sub_def claim_resolved_def)
  have new: "p \<notin> fst ` set claims" using False d by (auto simp: deciders_ok_def)
  have stage: "decided_by (sbStage (bs[i := b] ! k)) \<longleftrightarrow> (sbPending (bs[i := b] ! k), BySub k) \<in> set (claims @ [(p, BySub i)])"
    if "k < length bs" for k
    using deciders_okD(3) [OF d that] i p f by (cases "k = i") (auto simp: b decided_by_def)
  have own: "k < length bs \<and> sbPending (bs[i := b] ! k) = q" if "(q, BySub k) \<in> set (claims @ [(p, BySub i)])" for q k
    using deciders_okD(4) [OF d, of q k] i that p by (cases "k = i") (auto simp: b)
  have res: "q \<in> fst ` set (claims @ [(p, BySub i)]) \<longleftrightarrow> q < length xs \<and> paResolved (xs[p := x] ! q)" for q
    using deciders_okD(2) [OF d, of q] l by (cases "q = p") (simp_all add: x)
  have "distinct (map fst (claims @ [(p, BySub i)]))" using new d by (auto simp: deciders_ok_def)
  moreover have "claim_log p (BySub i) (sbStage b = SubClaimed) claims = claims @ [(p, BySub i)]" by (simp add: b claim_log_def)
  ultimately show ?thesis unfolding deciders_ok_def using res stage own by (simp only: length_list_update) blast
qed

lemma put_succeeds:
  assumes i: "approval_inv lower y" and l: "i < length (asSubs y)" and st: "sbStage (asSubs y ! i) = SubClaimed"
  defines "b \<equiv> asSubs y ! i" and "x \<equiv> apItems (asTable y) ! sbPending (asSubs y ! i)"
  shows "put_sub b x = ((case sbWhat b of SubChoice d \<Rightarrow> x\<lparr>paChoices := Some d\<rparr> | SubState s \<Rightarrow> x\<lparr>paStateChanges := Some s\<rparr>),
    b\<lparr>sbStage := SubDone True\<rparr>)"
proof -
  note iD = approval_invD [OF i]
  let ?p = "sbPending b"
  have mine: "(?p, BySub i) \<in> set (asClaims y)" using deciders_okD(3) [OF iD(3) l] st by (simp add: decided_by_def b_def)
  have lt: "?p < length (apItems (asTable y))" using iD(2) [of b] l by (simp add: b_def sub_ok_def)
  have other: "\<not> ((?p, BySub j) \<in> set (asClaims y) \<and> sbStage (asSubs y ! j) = SubDone True)" for j
    using one_decider [OF iD(3) mine] st by (metis decider.inject(1) sub_stage.distinct(5))
  have call: "(?p, ByCall j) \<notin> set (asClaims y)" for j using one_decider [OF iD(3) mine] by blast
  have "\<not> chosen_by y ?p d" for d using other call unfolding chosen_by_def by blast
  moreover have "\<not> state_by y ?p" using other unfolding state_by_def by blast
  ultimately have "paChoices x = None" "paStateChanges x = None"
    using iD(4) lt unfolding channels_ok_def x_def b_def by auto
  then show ?thesis by (auto simp: put_sub_def put_choice_def put_state_def split: submitted_value.splits)
qed

lemma sub_item_eq:
  assumes "f (asSubs y ! i) (apItems (asTable y) ! sbPending (asSubs y ! i)) = (x, b)"
  shows "sub_item i f y = y\<lparr>asTable := set_item (sbPending (asSubs y ! i)) x (asTable y), asSubs := (asSubs y)[i := b],
    asClaims := claim_log (sbPending (asSubs y ! i)) (BySub i) (sbStage b = SubClaimed) (asClaims y)\<rparr>"
  using assms by (simp add: sub_item_def Let_def)

lemma inv_sub_item:
  assumes i: "approval_inv lower y" and l: "i < length (asSubs y)" and nd: "sbStage (asSubs y ! i) \<noteq> SubDone True"
  defines "p \<equiv> sbPending (asSubs y ! i)"
  assumes f: "f (asSubs y ! i) (apItems (asTable y) ! p) = (x, b)" and fr: "frame x = frame (apItems (asTable y) ! p)"
    and b: "same_sub (asSubs y ! i) b"
    and d: "deciders_ok ((apItems (asTable y))[p := x]) ((asSubs y)[i := b]) (claim_log p (BySub i) (sbStage b = SubClaimed) (asClaims y))"
    and ch: "\<And>e. paChoices x = Some e \<Longrightarrow> paChoices (apItems (asTable y) ! p) = Some e \<or> chosen_by (sub_item i f y) p e"
    and st: "paStateChanges x \<noteq> None \<Longrightarrow> paStateChanges (apItems (asTable y) ! p) \<noteq> None \<or> state_by (sub_item i f y) p"
  shows "approval_inv lower (sub_item i f y)"
proof -
  have z: "sub_item i f y = y\<lparr>asTable := set_item p x (asTable y), asSubs := (asSubs y)[i := b],
    asClaims := claim_log p (BySub i) (sbStage b = SubClaimed) (asClaims y)\<rparr>" (is "_ = ?z")
    using sub_item_eq [of f y i x b] f unfolding p_def by simp
  note iD = approval_invD [OF i]
  have lt: "p < length (apItems (asTable y))" using iD(2) [of "asSubs y ! i"] l by (simp add: p_def sub_ok_def)
  have refl: "same_sub u u" for u by (simp add: same_sub_def)
  have g: "sys_grow y ?z" using fr b nd lt l by (auto simp: sys_grow_def sys_le_def refl claim_log_def nth_list_update)
  show ?thesis unfolding z
  proof (rule approval_inv_grow [OF i g])
    show "approvals_ok (asTable ?z)" using approvals_ok_set [OF iD(1) fr] by simp
    show "deciders_ok (apItems (asTable ?z)) (asSubs ?z) (asClaims ?z)" using d by simp
    show "set (apYolo (asTable ?z)) \<subseteq> set (asEver ?z)" using iD(6) by simp
    show "u \<in> set (asSubs ?z) \<Longrightarrow> (\<exists>b' \<in> set (asSubs y). same_sub b' u) \<or> sub_ok lower (apItems (asTable ?z)) u" for u
      using b l refl set_update_subset_insert [of "asSubs y" i b] by (auto dest!: subsetD)
    show "u \<in> set (asCalls ?z) \<Longrightarrow> u \<in> set (asCalls y) \<or> call_ok lower ?z u" for u by simp
  next
    fix q e
    assume q: "q < length (apItems (asTable ?z))" and e: "paChoices (apItems (asTable ?z) ! q) = Some e"
    show "q < length (apItems (asTable y)) \<and> paChoices (apItems (asTable y) ! q) = Some e \<or> chosen_by ?z q e"
      using ch [of e] q e lt unfolding z by (cases "q = p") auto
  next
    fix q
    assume q: "q < length (apItems (asTable ?z))" and e: "paStateChanges (apItems (asTable ?z) ! q) \<noteq> None"
    show "q < length (apItems (asTable y)) \<and> paStateChanges (apItems (asTable y) ! q) \<noteq> None \<or> state_by ?z q"
      using st q e lt unfolding z by (cases "q = p") auto
  qed
qed

lemma approval_inv_claim:
  assumes i: "approval_inv lower y" and l: "i < length (asSubs y)" and st: "sbStage (asSubs y ! i) = SubFound"
  shows "approval_inv lower (sub_item i claim_sub y)"
proof -
  let ?p = "sbPending (asSubs y ! i)"
  let ?x = "apItems (asTable y) ! ?p"
  obtain x b where f: "claim_sub (asSubs y ! i) ?x = (x, b)" by fastforce
  have x: "frame x = frame ?x" "same_sub (asSubs y ! i) b" "paChoices x = paChoices ?x" "paStateChanges x = paStateChanges ?x"
    using f by (auto simp: claim_sub_def claim_resolved_def same_sub_def split: if_splits)
  have lt: "?p < length (apItems (asTable y))" using approval_invD(2) [OF i, of "asSubs y ! i"] l by (simp add: sub_ok_def)
  show ?thesis
    using inv_sub_item [where f = claim_sub, OF i l _ f x(1,2) deciders_claim [OF approval_invD(3) [OF i] l st refl lt f]] x(3,4) st by simp
qed

lemma approval_inv_put:
  assumes i: "approval_inv lower y" and l: "i < length (asSubs y)" and st: "sbStage (asSubs y ! i) = SubClaimed"
  shows "approval_inv lower (sub_item i put_sub y)"
proof -
  let ?b = "asSubs y ! i"
  let ?p = "sbPending ?b"
  let ?x = "apItems (asTable y) ! ?p"
  define x where "x = (case sbWhat ?b of SubChoice d \<Rightarrow> ?x\<lparr>paChoices := Some d\<rparr> | SubState s \<Rightarrow> ?x\<lparr>paStateChanges := Some s\<rparr>)"
  have f: "put_sub ?b ?x = (x, ?b\<lparr>sbStage := SubDone True\<rparr>)" using put_succeeds [OF i l st] by (simp add: x_def)
  have x: "frame x = frame ?x" "paResolved x = paResolved ?x" by (auto simp: x_def split: submitted_value.splits)
  have lt: "?p < length (apItems (asTable y))" using approval_invD(2) [OF i, of ?b] l by (simp add: sub_ok_def)
  have mine: "(?p, BySub i) \<in> set (asClaims y)" using deciders_okD(3) [OF approval_invD(3) [OF i] l] st by (simp add: decided_by_def)
  have "paResolved ((apItems (asTable y))[?p := x] ! q) = paResolved (apItems (asTable y) ! q)" for q
    using x(2) lt by (cases "q = ?p") simp_all
  then have d: "deciders_ok ((apItems (asTable y))[?p := x]) ((asSubs y)[i := ?b\<lparr>sbStage := SubDone True\<rparr>])
      (claim_log ?p (BySub i) (sbStage (?b\<lparr>sbStage := SubDone True\<rparr>) = SubClaimed) (asClaims y))"
    using deciders_same [OF approval_invD(3) [OF i], of "(apItems (asTable y))[?p := x]" i "?b\<lparr>sbStage := SubDone True\<rparr>"] st
    by (simp add: claim_log_def decided_by_def same_sub_def)
  show ?thesis
  proof (rule inv_sub_item [where f = put_sub, OF i l _ f x(1) _ d])
    show "sbStage ?b \<noteq> SubDone True" using st by simp
    show "same_sub ?b (?b\<lparr>sbStage := SubDone True\<rparr>)" by (simp add: same_sub_def)
    show "paChoices ?x = Some e \<or> chosen_by (sub_item i put_sub y) ?p e" if "paChoices x = Some e" for e
      using that l mine unfolding sub_item_eq [where f = put_sub, OF f] chosen_by_def
      by (cases "sbWhat ?b") (auto simp: x_def claim_log_def intro!: exI [of _ i])
    show "paStateChanges ?x \<noteq> None \<or> state_by (sub_item i put_sub y) ?p" if "paStateChanges x \<noteq> None"
      using that l mine unfolding sub_item_eq [where f = put_sub, OF f] state_by_def
      by (cases "sbWhat ?b") (auto simp: x_def claim_log_def intro!: exI [of _ i])
  qed
qed

subsection \<open>Steps that leave the items alone\<close>

lemma inv_around:
  assumes i: "approval_inv lower y" and x: "apItems (asTable z) = apItems (asTable y)" "asClaims z = asClaims y"
    and b: "asSubs z = asSubs y @ bs" and bs: "\<And>b. b \<in> set bs \<Longrightarrow> sbStage b = SubFound \<and> sub_ok lower (apItems (asTable y)) b"
    and t: "approvals_ok (asTable z)" and e: "set (asEver y) \<subseteq> set (asEver z)" "set (apYolo (asTable z)) \<subseteq> set (asEver z)"
    and c: "\<And>c. sys_le y z \<Longrightarrow> c \<in> set (asCalls z) \<Longrightarrow> c \<in> set (asCalls y) \<or> call_ok lower z c"
  shows "approval_inv lower z"
proof -
  note iD = approval_invD [OF i]
  have g: "sys_grow y z" using x b e by (auto simp: sys_grow_def sys_le_def same_sub_def nth_append)
  then have le: "sys_le y z" by (simp add: sys_grow_def)
  show ?thesis
  proof (rule approval_inv_grow [OF i g t])
    have new: "i < length (asSubs y @ bs) \<Longrightarrow> \<not> i < length (asSubs y) \<Longrightarrow> sbStage ((asSubs y @ bs) ! i) = SubFound" for i
      using bs nth_mem [of "i - length (asSubs y)" bs] by (simp add: nth_append)
    have "decided_by (sbStage ((asSubs y @ bs) ! i)) \<longleftrightarrow> (sbPending ((asSubs y @ bs) ! i), BySub i) \<in> set (asClaims y)"
      if "i < length (asSubs y @ bs)" for i
    proof (cases "i < length (asSubs y)")
      case True
      then show ?thesis using deciders_okD(3) [OF iD(3) True] by (simp add: nth_append)
    next
      case False
      then show ?thesis using deciders_okD(4) [OF iD(3), of _ i] new [OF that False] by (auto simp: decided_by_def)
    qed
    moreover have "i < length (asSubs y @ bs) \<and> sbPending ((asSubs y @ bs) ! i) = p" if "(p, BySub i) \<in> set (asClaims y)" for p i
      using deciders_okD(4) [OF iD(3) that] by (simp add: nth_append)
    ultimately show "deciders_ok (apItems (asTable z)) (asSubs z) (asClaims z)"
      using deciders_okD(1,2) [OF iD(3)] unfolding x b deciders_ok_def by blast
    show "b \<in> set (asSubs z) \<Longrightarrow> (\<exists>b' \<in> set (asSubs y). same_sub b' b) \<or> sub_ok lower (apItems (asTable z)) b" for b
      using bs unfolding b x by (auto simp: same_sub_def)
  qed (use x e c [OF le] in auto)
qed

lemma approvals_ok_less:
  assumes "approvals_ok s" and "apItems s' = apItems s" and "set (apPending s') \<subseteq> set (apPending s)" and "distinct (map fst (apPending s'))"
  shows "approvals_ok s'"
  using assms by (auto simp: approvals_ok_def)

lemma cleanup_fields [simp]:
  "apItems (cleanupResolvedApprovalCodesLocked now s) = apItems s" "apPending (cleanupResolvedApprovalCodesLocked now s) = apPending s"
  "apYolo (cleanupResolvedApprovalCodesLocked now s) = apYolo s"
  by (simp_all add: cleanupResolvedApprovalCodesLocked_def)

lemma cleanup_ok [simp]: "approvals_ok (cleanupResolvedApprovalCodesLocked now s) = approvals_ok s"
  by (simp add: approvals_ok_def)

lemma clear_fields [simp]:
  "apItems (clearPendingApproval now p s) = apItems s" "apYolo (clearPendingApproval now p s) = apYolo s"
  by (simp_all add: clearPendingApproval_def Let_def)

lemma clear_ok:
  assumes "approvals_ok s"
  shows "approvals_ok (clearPendingApproval now p s)"
proof (rule approvals_ok_less [OF assms])
  show "set (apPending (clearPendingApproval now p s)) \<subseteq> set (apPending s)"
    using delete_notin_dom by (auto simp: clearPendingApproval_def Let_def AList.delete_eq)
  show "distinct (map fst (apPending (clearPendingApproval now p s)))"
    using assms by (auto simp: clearPendingApproval_def Let_def approvals_ok_def AList.distinct_delete)
qed simp

lemma mode_fields [simp]:
  "apItems (setYoloMode k on s) = apItems s" "apPending (setYoloMode k on s) = apPending s"
  by (simp_all add: setYoloMode_def Let_def)

subsection \<open>Answers find items of their own user and window\<close>

lemma pending_item:
  assumes "approvals_ok s" and "p \<in> set (map snd (apPending s))"
  shows "p < length (apItems s)"
  using assms by (auto simp: approvals_ok_def)

definition found_ok :: "(string \<Rightarrow> string) \<Rightarrow> approval_table \<Rightarrow> string \<Rightarrow> string \<Rightarrow> nat \<Rightarrow> string \<Rightarrow> bool" where
  "found_ok lower s actor route p d \<longleftrightarrow>
     p < length (apItems s) \<and> paUserID (apItems s ! p) = go_trim actor \<and> paRoute (apItems s ! p) = go_trim route \<and>
     choice_of lower (apItems s ! p) d"

lemma filter_one: "filter P xs = [p] \<Longrightarrow> p \<in> set xs \<and> P p"
  by (drule arg_cong [where f = set]) auto

lemma find_text_ok:
  assumes "approvals_ok s" and "find_text lower now actor route text s = TextFound p d"
  shows "found_ok lower s actor route p d"
  using assms(2) pending_item [OF assms(1), of p]
  by (auto simp: find_text_def findPendingApprovalTextLocked_def found_ok_def open_for_def choice_of_def
      split: if_splits list.splits dest!: filter_one)

lemma find_for_key_ok:
  assumes t: "approvals_ok s" and n: "nul_free actor" "nul_free route"
    and f: "find_for_key lower actor route kind key choice s = Some (p, d)"
  shows "found_ok lower s actor route p d"
proof -
  from f have p: "findPendingApprovalLocked actor route kind key s = Some p" and d: "resolveChoice lower choice (apItems s ! p) = d" "d \<noteq> []"
    by (auto simp: find_for_key_def Let_def split: if_splits option.splits)
  have "p < length (apItems s) \<and> paUserID (apItems s ! p) = go_trim actor \<and> paRoute (apItems s ! p) = go_trim route"
  proof (cases "go_trim kind \<noteq> [] \<and> pendingApprovalMapKey actor route (go_trim kind) key \<noteq> []")
    case True
    let ?k = "pendingApprovalMapKey actor route (go_trim kind) key"
    have "map_of (apPending s) ?k = Some p" using p True by (simp add: findPendingApprovalLocked_def Let_def)
    then have "(?k, p) \<in> set (apPending s)" by (rule map_of_SomeD)
    then have pl: "p < length (apItems s)" "paKey (apItems s ! p) = ?k" "item_ok (apItems s ! p)"
      using t by (auto simp: approvals_ok_def)
    then obtain u r k a where w: "paKey (apItems s ! p) = pendingApprovalMapKey u r k a" "paUserID (apItems s ! p) = go_trim u"
        "paRoute (apItems s ! p) = go_trim r" "nul_free u" "nul_free r" by (auto simp: item_ok_def)
    have "pendingApprovalMapKey actor route (go_trim kind) key = pendingApprovalMapKey u r k a" using w(1) pl(2) by simp
    from map_key_inj [OF this] show ?thesis using True w n pl(1) by (simp add: nul_free_def)
  next
    case False
    then have "p \<in> set (map snd (apPending s)) \<and> paUserID (apItems s ! p) = go_trim actor \<and> paRoute (apItems s ! p) = go_trim route"
      using p by (auto simp: findPendingApprovalLocked_def Let_def split: if_splits list.splits dest!: filter_one)
    then show ?thesis using pending_item [OF t] by blast
  qed
  then show ?thesis using d by (auto simp: found_ok_def choice_of_def)
qed

lemma find_code_ok:
  assumes "approvals_ok s" and "snd (find_code now actor route code approve s) = CodeFound p d"
  shows "found_ok lower s actor route p d"
  using assms(2) pending_item [OF assms(1), of p]
  by (auto simp: find_code_def found_ok_def choice_of_def Let_def split: if_splits option.splits dest!: find_SomeD)

lemma find_answer_ok:
  assumes "approvals_ok s" and "nul_free actor" "nul_free route" and "find_answer lower now actor route a s = Some (p, d)"
  shows "found_ok lower s actor route p d"
proof (cases a)
  case (AnswerText word)
  then show ?thesis using assms(4) find_text_ok [OF assms(1)] by (simp add: find_answer_def split: text_match.splits)
next
  case (AnswerKey kind key choice)
  then show ?thesis using assms(4) find_for_key_ok [OF assms(1-3)] by (auto simp: find_answer_def)
next
  case (AnswerCode code approve)
  then show ?thesis using assms(4) find_code_ok [OF assms(1)] by (auto simp: find_answer_def split: code_match.splits)
qed

lemma inv_new_sub:
  assumes i: "approval_inv lower y" and b: "sub_ok lower (apItems (asTable y)) (new_sub p what actor route)"
  shows "approval_inv lower (y\<lparr>asSubs := asSubs y @ [new_sub p what actor route]\<rparr>)"
  using approval_invD [OF i] b by (intro inv_around [OF i, where bs = "[new_sub p what actor route]"]) (auto simp: new_sub_def)

subsection \<open>The goroutine that asks\<close>

lemma mode_key_trim [simp]: "approvalModeKey (go_trim actor) (go_trim route) = approvalModeKey actor route"
  by (simp add: approvalModeKey_def go_trim_idem)

lemma chosen_decision:
  assumes i: "approval_inv lower y" and l: "item_link (apItems (asTable y)) c"
    and d: "paChoices (apItems (asTable y) ! acPending c) = Some d"
  shows "if acApproval c then call_decision lower y c (go_trim d) else answered lower y c (acPending c) (go_trim d)"
proof -
  note iD = approval_invD [OF i]
  let ?x = "apItems (asTable y) ! acPending c"
  have lt: "acPending c < length (apItems (asTable y))" using l by (simp add: item_link_def)
  have x: "paUserID ?x = go_trim (acActor c)" "paRoute ?x = go_trim (acRoute c)"
    "paYolo ?x = (if acApproval c then go_trim (autoApproveApprovalOption (acOptions c)) else [])"
    using l by (simp_all add: item_link_def Let_def)
  have "chosen_by y (acPending c) d" using iD(4) lt d by (simp add: channels_ok_def)
  then show ?thesis unfolding chosen_by_def
  proof (elim disjE exE conjE, goal_cases)
    case (1 k)
    have "sub_ok lower (apItems (asTable y)) (asSubs y ! k)" using iD(2) 1 by simp
    moreover have "sbPending (asSubs y ! k) = acPending c" using deciders_okD(4) [OF iD(3) 1(2)] by simp
    ultimately have "answered lower y c (acPending c) (go_trim d)"
      using 1 lt x by (auto simp: answered_def sub_ok_def)
    then show ?case by (simp add: call_decision_def)
  next
    case (2 k)
    then show ?case using x by (auto simp: call_decision_def mode_key_def go_trim_idem)
  qed
qed

lemma call_stage_ok: "approval_inv lower y \<Longrightarrow> i < length (asCalls y) \<Longrightarrow> stage_ok lower y (asCalls y ! i)"
  using approval_invD(5) [of lower y "asCalls y ! i"] by (simp add: call_ok_def)

lemma link_less: "item_link xs c \<Longrightarrow> acPending c < length xs"
  by (simp add: item_link_def)

lemma link_stage [simp]: "item_link xs (c\<lparr>acStage := st\<rparr>) = item_link xs c"
  by (simp add: item_link_def)

lemma decision_stage [simp]:
  "call_decision lower y (c\<lparr>acStage := st\<rparr>) d = call_decision lower y c d"
  "answered lower y (c\<lparr>acStage := st\<rparr>) p d = answered lower y c p d"
  by (simp_all add: call_decision_def answered_def mode_key_def)

lemma same_call_stage [simp]: "same_call c (c\<lparr>acStage := st\<rparr>)" "same_call c c"
  by (simp_all add: same_call_def)

lemma inv_prepare:
  assumes i: "approval_inv lower y" and l: "i < length (asCalls y)" and st: "acStage (asCalls y ! i) = CallRegistered"
  shows "approval_inv lower (call_item i (\<lambda>c x. (prepare_item c x, c\<lparr>acStage := CallPrepared\<rparr>, False)) y)"
proof -
  have k: "acApproval (asCalls y ! i)" "item_link (apItems (asTable y)) (asCalls y ! i)"
    using call_stage_ok [OF i l] st by (simp_all add: stage_ok_def)
  show ?thesis
    by (rule inv_call_item [OF i l link_less [OF k(2)] refl])
      (use k item_link_le in \<open>auto simp: item_move_def prepare_item_def stage_ok_def\<close>)
qed

lemma inv_recheck:
  assumes i: "approval_inv lower y" and l: "i < length (asCalls y)" and st: "acStage (asCalls y ! i) = CallPrepared"
  shows "approval_inv lower (call_item i (second_check (asTable y)) y)"
proof -
  let ?c = "asCalls y ! i"
  let ?x = "apItems (asTable y) ! acPending ?c"
  have k: "acApproval ?c" "item_link (apItems (asTable y)) ?c"
    using call_stage_ok [OF i l] st by (simp_all add: stage_ok_def)
  obtain x' c' won where f: "second_check (asTable y) ?c ?x = (x', c', won)" by (cases rule: prod_cases3)
  show ?thesis
  proof (cases "isYoloMode (approvalModeKey (acActor ?c) (acRoute ?c)) (asTable y)")
    case False
    then have "x' = ?x" "c' = ?c\<lparr>acStage := CallAsk\<rparr>" "\<not> won" using f by (auto simp: second_check_def)
    then show ?thesis
      by (intro inv_call_item [where f = "second_check (asTable y)", OF i l link_less [OF k(2)] f])
        (use k item_link_le in \<open>auto simp: item_move_def stage_ok_def\<close>)
  next
    case True
    let ?d = "autoApproveApprovalOption (acOptions ?c)"
    have ever: "mode_key ?c \<in> set (asEver y)"
      using True approval_invD(6) [OF i] by (auto simp: isYoloMode_def mode_key_def)
    have c': "c' = ?c\<lparr>acStage := CallLeaving (Decision ?d)\<rparr>" and won: "won \<longleftrightarrow> go_trim ?d \<noteq> [] \<and> \<not> paResolved ?x"
      and x': "x' = markDisplayReady (snd (deliverPendingApprovalChoice ?d ?x))"
      using f True by (auto simp: second_check_def Let_def)
    have x: "paUserID ?x = go_trim (acActor ?c)" "paRoute ?x = go_trim (acRoute ?c)" "paYolo ?x = go_trim ?d"
      using k by (simp_all add: item_link_def Let_def)
    show ?thesis
    proof (rule inv_call_item [where f = "second_check (asTable y)", OF i l link_less [OF k(2)] f])
      show "item_move ?x x' won" unfolding x' won by (auto simp: item_move_def item_ops)
      show "paChoices ?x = Some d \<or> won \<and> go_trim d \<noteq> [] \<and> go_trim d = paYolo ?x \<and>
          go_trim (approvalModeKey (paUserID ?x) (paRoute ?x)) \<in> set (asEver y)" if "paChoices x' = Some d" for d
        using that ever x unfolding x' won by (auto simp: item_ops mode_key_def split: if_splits)
      show "paStateChanges x' \<noteq> None \<Longrightarrow> paStateChanges ?x \<noteq> None" unfolding x' by (auto simp: item_ops split: if_splits)
      show "same_call ?c c'" by (simp add: c')
      show "stage_ok lower z c'" if "sys_le y z" "won \<longrightarrow> (acPending ?c, ByCall i) \<in> set (asClaims z)" for z
        using item_link_le [OF that(1) k(2)] ever that(1) k(1)
        by (auto simp: c' stage_ok_def outcome_ok_def call_decision_def sys_le_def mode_key_def)
    qed
  qed
qed

lemma inv_ask:
  assumes i: "approval_inv lower y" and l: "i < length (asCalls y)" and st: "acStage (asCalls y ! i) = CallAsk"
  shows "approval_inv lower (call_item i (\<lambda>c x. case asked ok (is_detached (acLease c) (asLeases y)) c x of (x', c') \<Rightarrow> (x', c', False)) y)"
    (is "approval_inv lower (call_item i ?f y)")
proof -
  let ?c = "asCalls y ! i"
  let ?x = "apItems (asTable y) ! acPending ?c"
  have k: "item_link (apItems (asTable y)) ?c"
    using call_stage_ok [OF i l] st by (simp_all add: stage_ok_def)
  obtain x' c' where f: "asked ok (is_detached (acLease ?c) (asLeases y)) ?c ?x = (x', c')" by fastforce
  then have f': "?f ?c ?x = (x', c', False)" by simp
  show ?thesis
  proof (rule inv_call_item [where f = ?f, OF i l link_less [OF k] f'])
    show "item_move ?x x' False" "same_call ?c c'"
      "paStateChanges x' \<noteq> None \<Longrightarrow> paStateChanges ?x \<noteq> None"
      using f by (auto simp: asked_def item_move_def item_ops Let_def split: if_splits option.splits bool.splits)
    show "paChoices ?x = Some d \<or> False \<and> go_trim d \<noteq> [] \<and> go_trim d = paYolo ?x \<and>
        go_trim (approvalModeKey (paUserID ?x) (paRoute ?x)) \<in> set (asEver y)" if "paChoices x' = Some d" for d
      using f that by (auto simp: asked_def item_ops Let_def split: if_splits option.splits bool.splits)
    show "stage_ok lower z c'" if "sys_le y z" for z
      using f item_link_le [OF that k] chosen_decision [OF i k] call_decision_le [OF that]
      by (auto simp: asked_def item_ops stage_ok_def outcome_ok_def Let_def split: if_splits option.splits bool.splits)
  qed
qed

lemma review_state_facts:
  assumes "review_state now probe x = (x', r, won)"
  shows "item_move x x' won" "paChoices x' = paChoices x" "paStateChanges x' = paStateChanges x" "\<And>d. r \<noteq> Some (Decision d)"
  using assms by (auto simp: review_state_def item_move_def item_ops split: option.splits ApprovalRequestState.splits if_splits)

lemma wait_step_facts:
  assumes "wait_step now ev c x = (x', c', won)"
  shows "item_move x x' won" "\<And>d. paChoices x' = Some d \<Longrightarrow> paChoices x = Some d"
    "paStateChanges x' \<noteq> None \<Longrightarrow> paStateChanges x \<noteq> None" "same_call c c'"
    "c' = c \<or> (\<exists>out. c' = c\<lparr>acStage := CallLeaving out\<rparr> \<and>
       (\<forall>d. out = Decision d \<longrightarrow> (\<exists>e. paChoices x = Some e \<and> d = go_trim e) \<or>
          acApproval c \<and> won \<and> d = defaultDenyApprovalOption (acOptions c)))"
proof -
  consider (approval) "acApproval c" | (question) "\<not> acApproval c" by blast
  then have "item_move x x' won \<and> (\<forall>d. paChoices x' = Some d \<longrightarrow> paChoices x = Some d) \<and>
      (paStateChanges x' \<noteq> None \<longrightarrow> paStateChanges x \<noteq> None) \<and> same_call c c' \<and>
      (c' = c \<or> (\<exists>out. c' = c\<lparr>acStage := CallLeaving out\<rparr> \<and>
       (\<forall>d. out = Decision d \<longrightarrow> (\<exists>e. paChoices x = Some e \<and> d = go_trim e) \<or>
          acApproval c \<and> won \<and> d = defaultDenyApprovalOption (acOptions c))))"
  proof cases
    case approval
    obtain y r w where f: "wait_approval now (acOptions c) ev x = (y, r, w)" by (cases rule: prod_cases3)
    have eq: "x' = y" "won = w" "c' = (case r of None \<Rightarrow> c | Some out \<Rightarrow> c\<lparr>acStage := CallLeaving out\<rparr>)"
      using assms f approval by (simp_all add: wait_step_def)
    have "item_move x y w \<and> (\<forall>d. paChoices y = Some d \<longrightarrow> paChoices x = Some d) \<and>
      (paStateChanges y \<noteq> None \<longrightarrow> paStateChanges x \<noteq> None) \<and>
      (\<forall>d. r = Some (Decision d) \<longrightarrow> (\<exists>e. paChoices x = Some e \<and> d = go_trim e) \<or> w \<and> d = defaultDenyApprovalOption (acOptions c))"
    proof (cases ev)
      case (EvProbe probe)
      then show ?thesis using f review_state_facts [of now probe x y r w]
        by (auto simp: item_move_def split: if_splits)
    next
      case (EvTimer probe)
      then show ?thesis using f review_state_facts [of now probe x y r w]
        by (auto simp: item_move_def item_ops split: if_splits)
    qed (use f in \<open>auto simp: item_move_def item_ops split: option.splits ApprovalRequestState.splits if_splits\<close>)
    then show ?thesis using approval unfolding eq by (auto split: option.splits)
  next
    case question
    obtain y r where f: "waitForUserInputChoice ev x = (y, r)" by fastforce
    have eq: "x' = y" "won = False" "c' = (case r of None \<Rightarrow> c | Some out \<Rightarrow> c\<lparr>acStage := CallLeaving out\<rparr>)"
      using assms f question by (simp_all add: wait_step_def)
    have "item_move x y False \<and> (\<forall>d. paChoices y = Some d \<longrightarrow> paChoices x = Some d) \<and>
      (paStateChanges y \<noteq> None \<longrightarrow> paStateChanges x \<noteq> None) \<and>
      (\<forall>d. r = Some (Decision d) \<longrightarrow> (\<exists>e. paChoices x = Some e \<and> d = go_trim e))"
      using f by (cases ev) (auto simp: item_move_def split: option.splits if_splits)
    then show ?thesis unfolding eq by (auto split: option.splits)
  qed
  then show "item_move x x' won" "\<And>d. paChoices x' = Some d \<Longrightarrow> paChoices x = Some d"
    "paStateChanges x' \<noteq> None \<Longrightarrow> paStateChanges x \<noteq> None" "same_call c c'"
    "c' = c \<or> (\<exists>out. c' = c\<lparr>acStage := CallLeaving out\<rparr> \<and>
       (\<forall>d. out = Decision d \<longrightarrow> (\<exists>e. paChoices x = Some e \<and> d = go_trim e) \<or>
          acApproval c \<and> won \<and> d = defaultDenyApprovalOption (acOptions c)))"
    by blast+
qed

lemma inv_wait:
  assumes i: "approval_inv lower y" and l: "i < length (asCalls y)" and st: "acStage (asCalls y ! i) = CallWaiting"
  shows "approval_inv lower (call_item i (wait_step now ev) y)"
proof -
  let ?c = "asCalls y ! i"
  let ?x = "apItems (asTable y) ! acPending ?c"
  have k: "item_link (apItems (asTable y)) ?c"
    using call_stage_ok [OF i l] st by (simp_all add: stage_ok_def)
  obtain x' c' won where f: "wait_step now ev ?c ?x = (x', c', won)" by (cases rule: prod_cases3)
  note w = wait_step_facts [OF f]
  show ?thesis
  proof (rule inv_call_item [where f = "wait_step now ev", OF i l link_less [OF k] f w(1) disjI1 [OF w(2)] w(3,4)])
    show "stage_ok lower z c'" if z: "sys_le y z" "won \<longrightarrow> (acPending ?c, ByCall i) \<in> set (asClaims z)" for z
      using w(5)
    proof (elim disjE exE conjE)
      assume "c' = ?c"
      then show ?thesis using st item_link_le [OF z(1) k] by (simp add: stage_ok_def)
    next
      fix out
      assume c': "c' = ?c\<lparr>acStage := CallLeaving out\<rparr>"
        and out: "\<forall>d. out = Decision d \<longrightarrow> (\<exists>e. paChoices ?x = Some e \<and> d = go_trim e) \<or>
          acApproval ?c \<and> won \<and> d = defaultDenyApprovalOption (acOptions ?c)"
      have deny: "call_decision lower z ?c (defaultDenyApprovalOption (acOptions ?c))" if won
        using z(2) that by (auto simp: call_decision_def)
      have "if acApproval ?c then call_decision lower z ?c d else answered lower z ?c (acPending ?c) d" if "out = Decision d" for d
        using out that chosen_decision [OF i k] call_decision_le [OF z(1)] answered_le [OF z(1)] deny
        by (auto split: if_splits)
      then show ?thesis using item_link_le [OF z(1) k] by (auto simp: c' stage_ok_def outcome_ok_def)
    qed
  qed
qed

lemma inv_calls:
  assumes i: "approval_inv lower y" and x: "apItems (asTable z) = apItems (asTable y)" "apYolo (asTable z) = apYolo (asTable y)"
    and z: "asSubs z = asSubs y" "asClaims z = asClaims y" "asEver z = asEver y" "asCalls z = (asCalls y)[i := c]"
    and t: "approvals_ok (asTable z)" and c: "sys_le y z \<Longrightarrow> call_ok lower z c"
  shows "approval_inv lower z"
  using t c x z approval_invD(6) [OF i] set_update_subset_insert [of "asCalls y" i c]
  by (intro inv_around [OF i, where bs = "[]"]) auto

lemma inv_leave:
  assumes i: "approval_inv lower y" and l: "i < length (asCalls y)" and st: "acStage (asCalls y ! i) = CallLeaving out"
  shows "approval_inv lower (y\<lparr>asTable := clearPendingApproval now p (asTable y),
      asCalls := (asCalls y)[i := after_item out (asCalls y ! i)]\<rparr>)"
proof -
  let ?c = "asCalls y ! i"
  have ok: "call_ok lower y ?c" using approval_invD(5) [OF i] l by simp
  have "call_ok lower z (after_item out ?c)" if z: "sys_le y z" for z
    using call_ok_le [OF z ok] st
    by (auto simp: after_item_def call_ok_def stage_ok_def outcome_ok_def request_ok_def answered_def call_decision_def mode_key_def
        split: bool.splits call_outcome.splits)
  then show ?thesis
    using clear_ok [OF approval_invD(1) [OF i]] by (intro inv_calls [OF i, where i = i and c = "after_item out ?c"]) simp_all
qed

lemma inv_finish_call:
  assumes i: "approval_inv lower y" and l: "i < length (asCalls y)" and st: "acStage (asCalls y ! i) = CallEnding out"
  shows "approval_inv lower (y\<lparr>asLeases := ls, asCalls := (asCalls y)[i := (asCalls y ! i)\<lparr>acStage := CallDone out\<rparr>]\<rparr>)"
proof -
  let ?c = "asCalls y ! i"
  have ok: "call_ok lower y ?c" using approval_invD(5) [OF i] l by simp
  have "call_ok lower z (?c\<lparr>acStage := CallDone out\<rparr>)" if z: "sys_le y z" for z
    using call_ok_le [OF z ok] st by (auto simp: call_ok_def stage_ok_def outcome_ok_def request_ok_def)
  then show ?thesis
    using approval_invD(1) [OF i] by (intro inv_calls [OF i, where i = i and c = "?c\<lparr>acStage := CallDone out\<rparr>"]) simp_all
qed

lemma inv_start:
  assumes i: "approval_inv lower y" and c: "\<And>z. asEver z = asEver y \<Longrightarrow> call_ok lower z (enter c)"
    and f: "\<And>z. call_ok lower z (c\<lparr>acStage := CallDone (Failed ErrObserverDetached)\<rparr>)"
  shows "approval_inv lower (start_call c enter y)"
proof -
  obtain b ls where "begin_lease (acLease c) (asLeases y) = (b, ls)" by fastforce
  then show ?thesis using approval_invD [OF i] c f
    by (cases b) (auto simp: start_call_def intro!: inv_around [OF i, where bs = "[]"])
qed

lemma approval_enter_ok:
  assumes "nul_free actor" "nul_free route" and "set (apYolo s) \<subseteq> set (asEver z)"
  shows "call_ok lower z (approval_enter key reply recorder s (new_call actor route lease options probe True))"
proof -
  have "isYoloMode (approvalModeKey actor route) s \<Longrightarrow> go_trim (approvalModeKey actor route) \<in> set (asEver z)"
    using assms(3) by (auto simp: isYoloMode_def)
  then show ?thesis using assms(1,2)
    by (auto simp: approval_enter_def new_call_def call_ok_def stage_ok_def outcome_ok_def call_decision_def mode_key_def request_ok_def Let_def)
qed

lemma questions_enter_ok:
  assumes "nul_free actor" "nul_free route"
  shows "call_ok lower z (questions_enter request questions reply (new_call actor route lease [] False False))"
  using assms
  by (auto simp: questions_enter_def new_call_def call_ok_def stage_ok_def outcome_ok_def request_ok_def split: sum.splits)

text \<open>A registration appends one undecided item in the name of the user and the window, or changes no item.\<close>

lemma register_facts:
  assumes r: "registerPendingApprovalForRouteWithDisplay lower now raws r s = (s', out)" and t: "approvals_ok s"
    and n: "nul_free (arUserID r)" "nul_free (arRouteUserID r)"
  shows "approvals_ok s'" "apYolo s' = apYolo s" "out = Inl e \<Longrightarrow> apItems s' = apItems s"
    "out = Inr p \<Longrightarrow> \<exists>x. apItems s' = apItems s @ [x] \<and> p = length (apItems s) \<and> \<not> paResolved x \<and> paChoices x = None \<and>
       paStateChanges x = None \<and> paUserID x = go_trim (arUserID r) \<and> paRoute x = go_trim (arRouteUserID r) \<and>
       paYolo x = go_trim (arYolo r)"
proof -
  let ?x = "new_pending lower now r"
  let ?s = "cleanupResolvedApprovalCodesLocked now s"
  consider (no) e where "s' = ?s" "out = Inl e"
    | (yes) c where "map_of (apPending s) (paKey ?x) = None" "out = Inr (length (apItems s))"
        "s' = ?s\<lparr>apItems := apItems s @ [?x\<lparr>paCode := c\<rparr>], apPending := apPending s @ [(paKey ?x, length (apItems s))]\<rparr>"
    using r by (auto simp: registerPendingApprovalForRouteWithDisplay_def Let_def split: sum.splits if_splits)
  then have "approvals_ok s' \<and> apYolo s' = apYolo s \<and> (out = Inl e \<longrightarrow> apItems s' = apItems s) \<and>
    (out = Inr p \<longrightarrow> (\<exists>x. apItems s' = apItems s @ [x] \<and> p = length (apItems s) \<and> \<not> paResolved x \<and> paChoices x = None \<and>
       paStateChanges x = None \<and> paUserID x = go_trim (arUserID r) \<and> paRoute x = go_trim (arRouteUserID r) \<and>
       paYolo x = go_trim (arYolo r)))"
  proof cases
    case no
    then show ?thesis using t by simp
  next
    case (yes c)
    have "item_ok (?x\<lparr>paCode := c\<rparr>)" using n by (auto simp: item_ok_def new_pending_def)
    moreover have "paKey ?x \<notin> fst ` set (apPending s)" using yes(1) by (simp add: map_of_eq_None_iff)
    ultimately have "approvals_ok s'" using t yes(3) by (auto simp: approvals_ok_def nth_append less_Suc_eq)
    then show ?thesis using yes(2,3) by (simp add: new_pending_def)
  qed
  then show "approvals_ok s'" "apYolo s' = apYolo s" "out = Inl e \<Longrightarrow> apItems s' = apItems s"
    "out = Inr p \<Longrightarrow> \<exists>x. apItems s' = apItems s @ [x] \<and> p = length (apItems s) \<and> \<not> paResolved x \<and> paChoices x = None \<and>
       paStateChanges x = None \<and> paUserID x = go_trim (arUserID r) \<and> paRoute x = go_trim (arRouteUserID r) \<and>
       paYolo x = go_trim (arYolo r)"
    by blast+
qed

lemma inv_register:
  assumes i: "approval_inv lower y" and l: "i < length (asCalls y)" and st: "acStage (asCalls y ! i) = CallNext"
    and r: "register_next lower now raws (asTable y) (asCalls y ! i) = (s', c')"
  shows "approval_inv lower (y\<lparr>asTable := s', asCalls := (asCalls y)[i := c']\<rparr>)"
proof -
  let ?c = "asCalls y ! i"
  note iD = approval_invD [OF i]
  have ok: "call_ok lower y ?c" using iD(5) l by simp
  have keep: "approval_inv lower (y\<lparr>asTable := s', asCalls := (asCalls y)[i := c']\<rparr>)"
    if "apItems s' = apItems (asTable y)" "apYolo s' = apYolo (asTable y)" "approvals_ok s'"
      "c' = ?c\<lparr>acStage := CallEnding out\<rparr>" "\<And>z. outcome_ok lower z ?c out" for out
  proof -
    have "call_ok lower z c'" if z: "sys_le y z" for z
      using call_ok_le [OF z ok] \<open>c' = _\<close> \<open>\<And>z. outcome_ok lower z ?c out\<close>
      by (auto simp: call_ok_def stage_ok_def outcome_ok_def request_ok_def)
    then show ?thesis using that by (intro inv_calls [OF i, where i = i and c = c']) simp_all
  qed
  consider "acNext ?c = []" | e rest where "acNext ?c = Inl e # rest" | q rest where "acNext ?c = Inr q # rest"
    by (metis list.exhaust sum.exhaust)
  then show ?thesis
  proof cases
    case 1
    then have "\<not> acApproval ?c" using ok st by (auto simp: call_ok_def stage_ok_def)
    then show ?thesis using r 1 iD(1) by (intro keep [of "Decision []"]) (auto simp: register_next_def outcome_ok_def)
  next
    case (2 e rest)
    then show ?thesis using r iD(1) by (intro keep [of "Failed e"]) (auto simp: register_next_def outcome_ok_def)
  next
    case (3 q rest)
    obtain out where f: "registerPendingApprovalForRouteWithDisplay lower now raws q (asTable y) = (s', out)"
      using r 3 by (auto simp: register_next_def split: prod.splits sum.splits)
    have q: "request_ok ?c q" using ok 3 by (auto simp: call_ok_def)
    then have n: "nul_free (arUserID q)" "nul_free (arRouteUserID q)" using ok by (simp_all add: request_ok_def call_ok_def)
    note fx = register_facts [OF f iD(1) n]
    show ?thesis
    proof (cases out)
      case (Inl e)
      then show ?thesis using r 3 f fx(1,2) fx(3) [OF Inl]
        by (intro keep [of "Failed e"]) (auto simp: register_next_def outcome_ok_def)
    next
      case (Inr p)
      let ?z = "y\<lparr>asTable := s', asCalls := (asCalls y)[i := c']\<rparr>"
      obtain x where x: "apItems s' = apItems (asTable y) @ [x]" "p = length (apItems (asTable y))" "\<not> paResolved x" "paChoices x = None"
          "paStateChanges x = None" "paUserID x = go_trim (arUserID q)" "paRoute x = go_trim (arRouteUserID q)" "paYolo x = go_trim (arYolo q)"
        using fx(4) [OF Inr] by blast
      have c': "c' = ?c\<lparr>acNext := rest, acPending := p, acStage := (if acApproval ?c then CallRegistered else CallAsk)\<rparr>"
        using r 3 f Inr by (simp add: register_next_def)
      have g: "sys_grow y ?z" using x(1) by (simp add: sys_grow_def sys_le_def same_sub_def nth_append)
      then have le: "sys_le y ?z" by (simp add: sys_grow_def)
      have "call_ok lower ?z ?c" by (rule call_ok_le [OF le ok])
      then have new: "call_ok lower ?z c'" using q x 3
        by (auto simp: c' call_ok_def stage_ok_def request_ok_def item_link_def answered_def)
      show ?thesis
      proof (rule approval_inv_grow [OF i g])
        show "deciders_ok (apItems (asTable ?z)) (asSubs ?z) (asClaims ?z)"
          using iD(3) x(1,3) by (auto simp: deciders_ok_def nth_append less_Suc_eq)
        show "b \<in> set (asSubs ?z) \<Longrightarrow> (\<exists>b' \<in> set (asSubs y). same_sub b' b) \<or> sub_ok lower (apItems (asTable ?z)) b" for b
          by (auto simp: same_sub_def)
        show "u \<in> set (asCalls ?z) \<Longrightarrow> u \<in> set (asCalls y) \<or> call_ok lower ?z u" for u
          using new set_update_subset_insert [of "asCalls y" i c'] by auto
      qed (use x fx(1,2) iD(6) in \<open>auto simp: nth_append less_Suc_eq split: if_splits\<close>)
    qed
  qed
qed

subsection \<open>The invariant of the system\<close>

lemma inv_renew:
  assumes i: "approval_inv lower y" and l: "p < length (apItems (asTable y))"
  shows "approval_inv lower (y\<lparr>asTable := set_item p (renewDeadline now (apItems (asTable y) ! p)) (asTable y)\<rparr>)"
    (is "approval_inv lower ?z")
proof -
  note iD = approval_invD [OF i]
  let ?x = "apItems (asTable y) ! p"
  have g: "sys_grow y ?z" using l by (auto simp: sys_grow_def sys_le_def same_sub_def item_ops nth_list_update)
  have m: "item_move ?x (renewDeadline now ?x) False" by (simp add: item_move_def item_ops)
  have fr: "frame (renewDeadline now ?x) = frame ?x" by (simp add: item_ops)
  show ?thesis
  proof (rule approval_inv_grow [OF i g])
    show "approvals_ok (asTable ?z)" using approvals_ok_set [OF iD(1) fr] by simp
    show "deciders_ok (apItems (asTable ?z)) (asSubs ?z) (asClaims ?z)"
      using deciders_own [OF iD(3) l m, of "ByCall 0"] by (simp add: claim_log_def)
    show "b \<in> set (asSubs ?z) \<Longrightarrow> (\<exists>b' \<in> set (asSubs y). same_sub b' b) \<or> sub_ok lower (apItems (asTable ?z)) b" for b
      by (auto simp: same_sub_def)
  qed (use l iD(6) in \<open>auto simp: item_ops nth_list_update split: if_splits\<close>)
qed

lemma approval_inv_step:
  assumes i: "approval_inv lower y" and "approval_step lower y z"
  shows "approval_inv lower z"
  using assms(2)
proof cases
  case (ask_approval actor route lease options probe key reply recorder)
  then show ?thesis using approval_enter_ok [of actor route "asTable y" _ lower key reply recorder lease options probe] approval_invD(6) [OF i]
    by (auto intro!: inv_start [OF i] simp: call_ok_def stage_ok_def outcome_ok_def new_call_def)
next
  case (ask_questions actor route lease request questions reply)
  then show ?thesis using questions_enter_ok [of actor route lower _ request questions reply lease]
    by (auto intro!: inv_start [OF i] simp: call_ok_def stage_ok_def outcome_ok_def new_call_def)
next
  case (register i now raws s' c')
  then show ?thesis using inv_register [OF assms(1)] by simp
next
  case (prepare i)
  then show ?thesis using inv_prepare [OF assms(1)] by simp
next
  case (recheck i)
  then show ?thesis using inv_recheck [OF assms(1)] by simp
next
  case (ask i ok)
  then show ?thesis using inv_ask [OF assms(1)] by simp
next
  case (wait_for i ev now)
  then show ?thesis using inv_wait [OF assms(1)] by simp
next
  case (leave i out now)
  then show ?thesis using inv_leave [OF assms(1)] by simp
next
  case (finish i out)
  then show ?thesis using inv_finish_call [OF assms(1)] by simp
next
  case (answer actor route now a p d)
  then have "found_ok lower (asTable y) actor route p d" using find_answer_ok [OF approval_invD(1) [OF i]] by blast
  then show ?thesis using answer inv_new_sub [OF i] by (auto simp: found_ok_def sub_ok_def new_sub_def)
next
  case (forget_codes now)
  then show ?thesis using approval_invD [OF i] by (intro inv_around [OF i, where bs = "[]"]) auto
next
  case (claim i)
  then show ?thesis using approval_inv_claim [OF assms(1)] by simp
next
  case (put i)
  then show ?thesis using approval_inv_put [OF assms(1)] by simp
next
  case (review p actor route st)
  have "p < length (apItems (asTable y))"
    using review(2) pending_item [OF approval_invD(1) [OF i]] by (auto simp: review_items_def)
  then show ?thesis using review inv_new_sub [OF i] by (auto simp: sub_ok_def new_sub_def)
next
  case (renew p actor route now)
  have "p < length (apItems (asTable y))"
    using renew(2) pending_item [OF approval_invD(1) [OF i]] by (auto simp: review_items_def)
  then show ?thesis using renew inv_renew [OF i] by simp
next
  case (mode on actor route)
  have "approvals_ok (setYoloMode k b (asTable y))" for k b using approval_invD(1) [OF i] by (simp add: approvals_ok_def)
  moreover have "set (apYolo (setYoloMode k b (asTable y))) \<subseteq> (if b then insert (go_trim k) (set (asEver y)) else set (asEver y))" for k b
    using approval_invD(6) [OF i] by (auto simp: setYoloMode_def Let_def)
  note yolo = this [of "approvalModeKey actor route" on]
  show ?thesis using mode calculation yolo
    by (intro inv_around [OF i, where bs = "[]"]) (auto dest!: subsetD [OF yolo])
next
  case (resolve_for_mode actor route p)
  have p: "p \<in> set (map snd (apPending (asTable y)))" "paUserID (apItems (asTable y) ! p) = go_trim actor"
    "paRoute (apItems (asTable y) ! p) = go_trim route"
    using resolve_for_mode(3) by (auto simp: yolo_items_def Let_def split: if_splits)
  then show ?thesis using resolve_for_mode inv_new_sub [OF i] pending_item [OF approval_invD(1) [OF i] p(1)]
    by (auto simp: sub_ok_def new_sub_def choice_of_def)
next
  case new_frontend
  then show ?thesis using approval_invD [OF i] by (intro inv_around [OF i, where bs = "[]"]) auto
next
  case (frontend_leaves l force)
  then show ?thesis using approval_invD [OF i] by (intro inv_around [OF i, where bs = "[]"]) auto
qed

interpretation approvals: invariant_system approval_init "approval_step lower" "approval_inv lower" for lower
proof
  show "approval_init s \<Longrightarrow> approval_inv lower s" for s
    by (simp add: approval_init_def approval_inv_def approvals_ok_def deciders_ok_def channels_ok_def)
  show "approval_inv lower s \<Longrightarrow> approval_step lower s t \<Longrightarrow> approval_inv lower t" for s t
    by (rule approval_inv_step)
qed

end
