(* ===== verification/Approval_Demo.thy ===== *)
theory Approval_Demo
  imports Approval_System
begin

section \<open>A run of an approval\<close>

text \<open>
  The user \<open>u\<close> is asked in the own window, answers with the word \<open>yes\<close>, and the request ends with the option that allows.
\<close>

definition demo_options :: "ApprovalOption list" where
  "demo_options = [\<lparr>aoID = ''y'', aoName = ''yes'', aoKind = ''allow''\<rparr>, \<lparr>aoID = ''n'', aoName = ''no'', aoKind = ''deny''\<rparr>]"

definition demo_approval_request :: approval_request where
  "demo_approval_request = \<lparr>arUserID = ''u'', arRouteUserID = ''u'', arKey = ''k'', arOptions = demo_options, arYolo = ''y'',
     arKind = choiceInteractionApproval, arDisplay = False\<rparr>"

definition demo_item :: pendingApproval where
  "demo_item = (new_pending go_lower 0 demo_approval_request)\<lparr>paCode := ''AAAAAAAA''\<rparr>"

definition demo_call :: "call_stage \<Rightarrow> approval_call" where
  "demo_call st = (new_call ''u'' ''u'' (Some 0) demo_options False True)\<lparr>acStage := st\<rparr>"

text \<open>A state in which the item is registered and the call is at the stage \<open>st\<close>.\<close>

definition demo_table :: "pendingApproval \<Rightarrow> approval_table" where
  "demo_table x = \<lparr>apPending = [(paKey demo_item, 0)], apItems = [x], apCodes = [], apYolo = []\<rparr>"

definition demo_at :: "pendingApproval \<Rightarrow> call_stage \<Rightarrow> approval_sub list \<Rightarrow> approval_system" where
  "demo_at x st subs =
     \<lparr>asTable = demo_table x, asLeases = [idle_lease\<lparr>alInFlight := 1\<rparr>], asCalls = [demo_call st],
      asSubs = subs, asClaims = (if paResolved x then [(0, BySub 0)] else []), asEver = []\<rparr>"

definition demo_start :: approval_system where
  "demo_start = \<lparr>asTable = \<lparr>apPending = [], apItems = [], apCodes = [], apYolo = []\<rparr>,
      asLeases = [idle_lease\<lparr>alInFlight := 1\<rparr>], asCalls = [(demo_call CallNext)\<lparr>acNext := [Inr demo_approval_request]\<rparr>], asSubs = [],
      asClaims = [], asEver = []\<rparr>"

definition demo_sub :: "sub_stage \<Rightarrow> approval_sub" where
  "demo_sub st = (new_sub 0 (SubChoice ''y'') ''u'' ''u'')\<lparr>sbStage := st\<rparr>"

definition demo_cleared :: approval_table where
  "demo_cleared = clearPendingApproval 1 0 (demo_table (demo_item\<lparr>paResolved := True\<rparr>))"

definition demo_end :: approval_system where
  "demo_end = (demo_at (demo_item\<lparr>paResolved := True\<rparr>) (CallDone (Decision ''y'')) [demo_sub (SubDone True)])
     \<lparr>asTable := demo_cleared,
      asLeases := [idle_lease]\<rparr>"

lemma demo_values:
  "encode_code 0 = ''AAAAAAAA''" "validateAgentInteractionRoute ''u'' ''u'' True" "autoApproveApprovalOption demo_options = ''y''"
  "approvalOptionSet demo_options = [''y'', ''n'']" "nul_free ''u''" "go_trim ''u'' = ''u''" "go_trim ''y'' = ''y''"
  "normalizeApprovalCode ''AAAAAAAA'' = ''AAAAAAAA''" "go_trim choiceInteractionApproval = choiceInteractionApproval"
  "lookup_alias (approvalOptionAliases go_lower demo_options) (go_lower ''approve'') = ''y''" "go_trim ''approve'' = ''approve''"
  by code_simp+

lemma demo_code_lower: "normalizeApprovalCode ''aaaaaaaa'' = ''AAAAAAAA''"
  by code_simp

lemma demo_not_blank: "\<not> blank ''y''"
  by code_simp

lemma demo_item_fields:
  "paKey demo_item = pendingApprovalMapKey ''u'' ''u'' choiceInteractionApproval ''k''" "paUserID demo_item = ''u''" "paRoute demo_item = ''u''"
  "paKind demo_item = choiceInteractionApproval" "paYolo demo_item = ''y''" "paCode demo_item = ''AAAAAAAA''"
  "paChoices demo_item = None" "paStateProbe demo_item = False" "paDisplayReady demo_item = None" "paResolved demo_item = False"
  "paExpiresAt demo_item = pendingApprovalTimeout"
  by (simp_all add: demo_item_def new_pending_def demo_approval_request_def demo_values)

lemma demo_item_probe: "demo_item\<lparr>paStateProbe := False\<rparr> = demo_item"
  by (simp add: demo_item_def new_pending_def)

lemmas demo_defs = demo_table_def demo_at_def demo_call_def demo_sub_def new_call_def new_sub_def call_item_def sub_item_def set_item_def claim_log_def

lemma demo_reach_start: "reach approval_init (approval_step go_lower) demo_start"
proof -
  let ?empty = "\<lparr>asTable = \<lparr>apPending = [], apItems = [], apCodes = [], apYolo = []\<rparr>, asLeases = [], asCalls = [], asSubs = [],
      asClaims = [], asEver = []\<rparr>"
  let ?y = "?empty\<lparr>asLeases := asLeases ?empty @ [idle_lease]\<rparr>"
  have "reach approval_init (approval_step go_lower) ?empty" by (rule reach_init) (simp add: approval_init_def)
  then have y: "reach approval_init (approval_step go_lower) ?y" by (rule reach_step) (rule new_frontend)
  have "approval_step go_lower ?y
      (start_call (new_call ''u'' ''u'' (Some 0) demo_options False True) (approval_enter ''k'' True False (asTable ?y)) ?y)"
    by (rule ask_approval) (simp_all add: demo_values lease_exists_def)
  also have "start_call (new_call ''u'' ''u'' (Some 0) demo_options False True) (approval_enter ''k'' True False (asTable ?y)) ?y = demo_start"
    by (simp add: start_call_def begin_lease_def lease_begin_def idle_lease_def new_call_def approval_enter_def demo_values isYoloMode_def
        demo_start_def demo_call_def demo_approval_request_def)
  finally show ?thesis by (rule reach_step [OF y])
qed

lemma demo_reach_registered: "reach approval_init (approval_step go_lower) (demo_at demo_item CallRegistered [])"
proof -
  have r: "register_next go_lower 0 [Some 0] (asTable demo_start) (asCalls demo_start ! 0) =
      (asTable (demo_at demo_item CallRegistered []), demo_call CallRegistered)"
    by (simp add: register_next_def demo_start_def demo_call_def new_call_def registerPendingApprovalForRouteWithDisplay_def
        cleanupResolvedApprovalCodesLocked_def approvalCodeInUseLocked_def demo_values demo_at_def demo_table_def demo_item_def new_pending_def
        demo_approval_request_def)
  from register [OF _ _ r] have "approval_step go_lower demo_start
      (demo_start\<lparr>asTable := asTable (demo_at demo_item CallRegistered []), asCalls := (asCalls demo_start)[0 := demo_call CallRegistered]\<rparr>)"
    by (simp add: demo_start_def demo_call_def)
  also have "demo_start\<lparr>asTable := asTable (demo_at demo_item CallRegistered []), asCalls := (asCalls demo_start)[0 := demo_call CallRegistered]\<rparr> =
      demo_at demo_item CallRegistered []"
    by (simp add: demo_start_def demo_at_def demo_table_def demo_item_fields)
  finally show ?thesis by (rule reach_step [OF demo_reach_start])
qed

lemma demo_reach_waiting: "reach approval_init (approval_step go_lower) (demo_at demo_item CallWaiting [])"
proof -
  let ?y = "demo_at demo_item"
  have "approval_step go_lower (?y CallRegistered []) (call_item 0 (\<lambda>c x. (prepare_item c x, c\<lparr>acStage := CallPrepared\<rparr>, False)) (?y CallRegistered []))"
    by (rule prepare) (simp_all add: demo_defs)
  also have "call_item 0 (\<lambda>c x. (prepare_item c x, c\<lparr>acStage := CallPrepared\<rparr>, False)) (?y CallRegistered []) = ?y CallPrepared []"
    by (simp add: demo_defs prepare_item_def demo_item_probe)
  finally have a: "approval_step go_lower (?y CallRegistered []) (?y CallPrepared [])" .
  have "approval_step go_lower (?y CallPrepared []) (call_item 0 (second_check (asTable (?y CallPrepared []))) (?y CallPrepared []))"
    by (rule recheck) (simp_all add: demo_defs)
  also have "call_item 0 (second_check (asTable (?y CallPrepared []))) (?y CallPrepared []) = ?y CallAsk []"
    by (simp add: demo_defs second_check_def isYoloMode_def)
  finally have b: "approval_step go_lower (?y CallPrepared []) (?y CallAsk [])" .
  have "approval_step go_lower (?y CallAsk []) (call_item 0 (\<lambda>c x. case asked True (is_detached (acLease c) (asLeases (?y CallAsk []))) c x of
      (x', c') \<Rightarrow> (x', c', False)) (?y CallAsk []))"
    by (rule ask) (simp_all add: demo_defs)
  also have "call_item 0 (\<lambda>c x. case asked True (is_detached (acLease c) (asLeases (?y CallAsk []))) c x of
      (x', c') \<Rightarrow> (x', c', False)) (?y CallAsk []) = ?y CallWaiting []"
    by (simp add: demo_defs asked_def markDisplayReady_def demo_item_fields)
  finally have c: "approval_step go_lower (?y CallAsk []) (?y CallWaiting [])" .
  show ?thesis by (rule reach_step [OF reach_step [OF reach_step [OF demo_reach_registered a] b] c])
qed

lemma demo_find: "find_answer go_lower 1 ''u'' ''u'' (AnswerText ''approve'') (asTable (demo_at demo_item CallWaiting [])) = Some (0, ''y'')"
proof -
  have a: "paAllowed demo_item = [''y'', ''n'']" "paAliases demo_item = approvalOptionAliases go_lower demo_options"
    by (simp_all add: demo_item_def new_pending_def demo_approval_request_def demo_values)
  have r: "resolveChoice go_lower ''approve'' demo_item = ''y''"
    unfolding resolveChoice_def Let_def a demo_values(10,11) by simp
  show ?thesis
    by (simp add: find_answer_def find_text_def findPendingApprovalTextLocked_def demo_values demo_at_def demo_table_def open_for_def
        demo_item_fields r pendingApprovalTimeout_def)
qed

lemma demo_reach_answered:
  "reach approval_init (approval_step go_lower) (demo_at (demo_item\<lparr>paResolved := True, paChoices := Some ''y''\<rparr>) CallWaiting [demo_sub (SubDone True)])"
proof -
  let ?y = "demo_at demo_item CallWaiting [demo_sub SubFound]"
  let ?z = "demo_at (demo_item\<lparr>paResolved := True\<rparr>) CallWaiting [demo_sub SubClaimed]"
  have "approval_step go_lower (demo_at demo_item CallWaiting []) ((demo_at demo_item CallWaiting [])
      \<lparr>asSubs := asSubs (demo_at demo_item CallWaiting []) @ [new_sub 0 (SubChoice ''y'') ''u'' ''u'']\<rparr>)"
    using demo_find by (intro answer) (simp_all add: demo_values)
  also have "(demo_at demo_item CallWaiting [])
      \<lparr>asSubs := asSubs (demo_at demo_item CallWaiting []) @ [new_sub 0 (SubChoice ''y'') ''u'' ''u'']\<rparr> = ?y"
    by (simp add: demo_defs)
  finally have a: "approval_step go_lower (demo_at demo_item CallWaiting []) ?y" .
  have "approval_step go_lower ?y (sub_item 0 claim_sub ?y)" by (rule claim) (simp_all add: demo_defs)
  also have "sub_item 0 claim_sub ?y = ?z" by (simp add: demo_defs claim_sub_def claim_resolved_def demo_item_fields)
  finally have b: "approval_step go_lower ?y ?z" .
  have "approval_step go_lower ?z (sub_item 0 put_sub ?z)" by (rule put) (simp_all add: demo_defs)
  also have "sub_item 0 put_sub ?z =
      demo_at (demo_item\<lparr>paResolved := True, paChoices := Some ''y''\<rparr>) CallWaiting [demo_sub (SubDone True)]"
    by (simp add: demo_defs put_sub_def put_choice_def demo_item_fields)
  finally have c: "approval_step go_lower ?z
      (demo_at (demo_item\<lparr>paResolved := True, paChoices := Some ''y''\<rparr>) CallWaiting [demo_sub (SubDone True)])" .
  show ?thesis by (rule reach_step [OF reach_step [OF reach_step [OF demo_reach_waiting a] b] c])
qed

lemma demo_lease: "end_lease (Some 0) [idle_lease\<lparr>alInFlight := 1\<rparr>] = [idle_lease]"
  by (simp add: end_lease_def lease_end_def idle_lease_def)

lemma stage_twice: "c\<lparr>acStage := a, acStage := b\<rparr> = c\<lparr>acStage := b\<rparr>"
  by simp

lemma demo_reach_end: "reach approval_init (approval_step go_lower) demo_end"
proof -
  let ?y = "demo_at (demo_item\<lparr>paResolved := True, paChoices := Some ''y''\<rparr>) CallWaiting [demo_sub (SubDone True)]"
  let ?z = "demo_at (demo_item\<lparr>paResolved := True\<rparr>) (CallLeaving (Decision ''y'')) [demo_sub (SubDone True)]"
  let ?w = "?z\<lparr>asTable := demo_cleared, asCalls := [demo_call (CallEnding (Decision ''y''))]\<rparr>"
  have z: "asTable ?z = demo_table (demo_item\<lparr>paResolved := True\<rparr>)" "asCalls ?z = [demo_call (CallLeaving (Decision ''y''))]"
    by (simp_all add: demo_at_def)
  have q: "acPending (demo_call st) = 0" "after_item (Decision ''y'') (demo_call (CallLeaving (Decision ''y''))) = demo_call (CallEnding (Decision ''y''))" for st
    by (simp_all add: demo_call_def new_call_def after_item_def)
  have "approval_step go_lower ?y (call_item 0 (wait_step 1 EvChoice) ?y)"
    by (rule wait_for) (simp_all add: demo_defs waiting_event_ok_def)
  also have "call_item 0 (wait_step 1 EvChoice) ?y = ?z"
    by (simp add: demo_defs wait_step_def demo_item_fields demo_values)
  finally have a: "approval_step go_lower ?y ?z" .
  have "approval_step go_lower ?z (?z\<lparr>asTable := clearPendingApproval 1 (acPending (asCalls ?z ! 0)) (asTable ?z),
      asCalls := (asCalls ?z)[0 := after_item (Decision ''y'') (asCalls ?z ! 0)]\<rparr>)"
    by (rule leave) (simp_all add: demo_defs)
  also have "?z\<lparr>asTable := clearPendingApproval 1 (acPending (asCalls ?z ! 0)) (asTable ?z),
      asCalls := (asCalls ?z)[0 := after_item (Decision ''y'') (asCalls ?z ! 0)]\<rparr> = ?w"
    by (simp only: z q nth_Cons_0 list_update_code demo_cleared_def)
  finally have b: "approval_step go_lower ?z ?w" .
  have w: "asCalls ?w = [demo_call (CallEnding (Decision ''y''))]" "asLeases ?w = [idle_lease\<lparr>alInFlight := 1\<rparr>]"
    by (simp_all add: demo_at_def)
  have e: "acLease (demo_call st) = Some 0" "acStage (demo_call st) = st" for st by (simp_all add: demo_call_def new_call_def)
  have "approval_step go_lower ?w (?w\<lparr>asLeases := end_lease (acLease (asCalls ?w ! 0)) (asLeases ?w),
      asCalls := (asCalls ?w)[0 := (asCalls ?w ! 0)\<lparr>acStage := CallDone (Decision ''y'')\<rparr>]\<rparr>)"
    by (rule finish) (unfold w nth_Cons_0 e, simp_all)
  also have "?w\<lparr>asLeases := end_lease (acLease (asCalls ?w ! 0)) (asLeases ?w),
      asCalls := (asCalls ?w)[0 := (asCalls ?w ! 0)\<lparr>acStage := CallDone (Decision ''y'')\<rparr>]\<rparr> = demo_end"
    unfolding w nth_Cons_0 e demo_lease
    unfolding demo_end_def demo_at_def demo_call_def list_update_code approval_system.simps stage_twice
    by (rule refl)
  finally have c: "approval_step go_lower ?w demo_end" .
  have d: "reach approval_init (approval_step go_lower) ?z" using demo_reach_answered a by (rule reach_step)
  have "reach approval_init (approval_step go_lower) ?w" using d b by (rule reach_step)
  then show ?thesis using c by (rule reach_step)
qed

lemma demo_end_fields:
  "asCalls demo_end = [demo_call (CallDone (Decision ''y''))]" "asSubs demo_end = [demo_sub (SubDone True)]" "asEver demo_end = []"
  by (simp_all add: demo_end_def demo_at_def)

lemma demo_call_fields:
  "acStage (demo_call st) = st" "acApproval (demo_call st) = True" "acPending (demo_call st) = 0" "acOptions (demo_call st) = demo_options"
  "acLease (demo_call st) = Some 0"
  by (simp_all add: demo_call_def new_call_def)

lemma demo_waiting_fields:
  "asCalls (demo_at demo_item st subs) = [demo_call st]" "asLeases (demo_at demo_item st subs) = [idle_lease\<lparr>alInFlight := 1\<rparr>]"
  "apItems (asTable (demo_at demo_item st subs)) = [demo_item]" "snd ` set (apPending (asTable (demo_at demo_item st subs))) = {0}"
  by (simp_all add: demo_at_def demo_table_def)

end
