(* ===== verification/Approval_Contract.thy ===== *)
theory Approval_Contract
  imports Approval_Runs Approval_Demo
begin

section \<open>What approvals promise\<close>

subsection \<open>Decisions\<close>

lemma call_in_state:
  assumes "approval_inv lower y" and "c \<in> set (asCalls y)"
  shows "acStage c \<in> {CallLeaving (Decision d), CallEnding (Decision d), CallDone (Decision d)} \<Longrightarrow> acApproval c \<Longrightarrow> call_decision lower y c d"
    and "(p, d) \<in> set (acAnswers c) \<Longrightarrow> answered lower y c p d"
  using approval_invD(5) [OF assms] by (auto simp: call_ok_def stage_ok_def outcome_ok_def)

text \<open>
  C25: an agent never gets a decision that nobody was entitled to make. When a request for an approval ends with a decision, it is
  the answer of the very user who was asked, given in the very window, and it means one of the options of the request; or the
  user had switched this window to the mode without questions, and it is the option that is marked as allowing; or
  nobody answered and it is the refusal. The answers to questions are answers of the user who was asked, too.
\<close>

theorem approval_decision_authorised:
  assumes "reach approval_init (approval_step lower) y" and "c \<in> set (asCalls y)"
  shows "(acApproval c \<and> acStage c = CallDone (Decision d) \<longrightarrow>
      answered lower y c (acPending c) d \<or>
      mode_key c \<in> set (asEver y) \<and> go_trim d = go_trim (autoApproveApprovalOption (acOptions c)) \<or>
      d = defaultDenyApprovalOption (acOptions c)) \<and>
    ((p, d) \<in> set (acAnswers c) \<longrightarrow> answered lower y c p d)"
  using call_in_state [OF approvals.reach_inv [OF assms(1)] assms(2)] by (auto simp: call_decision_def)

lemma approval_decision_authorised_witness:
  "acStage (demo_call (CallDone (Decision ''y''))) = CallDone (Decision ''y'') \<and>
   (answered go_lower demo_end (demo_call (CallDone (Decision ''y''))) 0 ''y'' \<or> ''y'' = defaultDenyApprovalOption demo_options)"
  using approval_decision_authorised [OF demo_reach_end, of "demo_call (CallDone (Decision ''y''))" "''y''" 0] demo_end_fields demo_call_fields by simp



text \<open>
  What is chosen without an answer is safe. The choice of the mode without questions is an option whose kind is exactly
  \<open>allow\<close>, or nothing; the choice when nobody answers is an option that denies, or the refusal of the protocol when there
  is none. The keys of the mode tell apart two users who share a window.
\<close>

theorem choices_without_answer:
  "(autoApproveApprovalOption options = [] \<or>
     list_ex (\<lambda>x. aoKind x = ''allow'' \<and> go_trim (aoID x) \<noteq> [] \<and> autoApproveApprovalOption options = aoID x) options) \<and>
   (list_ex (\<lambda>x. approvalOptionKind x = ''deny'' \<and> go_trim (aoID x) = defaultDenyApprovalOption options) options \<or>
     defaultDenyApprovalOption options = ''decline'' \<and>
     list_all (\<lambda>x. \<not> (approvalOptionKind x = ''deny'' \<and> go_trim (aoID x) \<noteq> [])) options) \<and>
   \<not> (nul_free actor \<and> nul_free actor' \<and> nul_free route \<and> go_trim actor \<noteq> [] \<and> go_trim actor' \<noteq> [] \<and> go_trim route \<noteq> [] \<and>
      approvalModeKey actor route = approvalModeKey actor' route \<and> go_trim actor \<noteq> go_trim actor')"
proof -
  have "\<not> (nul_free actor \<and> nul_free actor' \<and> nul_free route \<and> go_trim actor \<noteq> [] \<and> go_trim actor' \<noteq> [] \<and> go_trim route \<noteq> [] \<and>
      approvalModeKey actor route = approvalModeKey actor' route \<and> go_trim actor \<noteq> go_trim actor')"
    by (auto simp: approvalModeKey_def nul_free_def Let_def split: if_splits)
  then show ?thesis using default_deny_cases [of options] auto_approve_cases [of options]
    unfolding list_ex_iff list_all_iff by blast
qed

end
