(* ===== verification/Approval_Fences.thy ===== *)
theory Approval_Fences
  imports Approval_Runs Approval_Demo
begin

section \<open>Frontends and codes of approvals\<close>

subsection \<open>Interactions in flight\<close>

definition in_progress :: "approval_call \<Rightarrow> bool" where
  "in_progress c \<longleftrightarrow> (\<forall>out. acStage c \<noteq> CallDone out)"

definition on_lease :: "nat \<Rightarrow> approval_call \<Rightarrow> bool" where
  "on_lease l c \<longleftrightarrow> acLease c = Some l \<and> in_progress c"

definition lease_inv :: "approval_system \<Rightarrow> bool" where
  "lease_inv y \<longleftrightarrow>
     (\<forall>c \<in> set (asCalls y). lease_exists (acLease c) (asLeases y)) \<and>
     (\<forall>l < length (asLeases y). alInFlight (asLeases y ! l) = length (filter (on_lease l) (asCalls y)))"

lemma filter_update:
  assumes "i < length xs"
  shows "length (filter P (xs[i := x])) + (if P (xs ! i) then 1 else 0) = length (filter P xs) + (if P x then 1 else (0::nat))"
proof -
  have "xs = take i xs @ xs ! i # drop (Suc i) xs" using assms by (rule id_take_nth_drop)
  moreover have "xs[i := x] = take i xs @ x # drop (Suc i) xs" using assms by (rule upd_conv_take_nth_drop)
  ultimately show ?thesis by (smt (verit) add.commute add.left_commute filter.simps(2) filter_append length_Cons length_append add_Suc_right plus_1_eq_Suc add_0_right)
qed

lemma lease_same:
  assumes v: "lease_inv y" and l: "i < length (asCalls y)" and z: "asLeases z = asLeases y" "asCalls z = (asCalls y)[i := c]"
    and c: "acLease c = acLease (asCalls y ! i)" "in_progress c" "in_progress (asCalls y ! i)"
  shows "lease_inv z"
proof -
  have "on_lease k c = on_lease k (asCalls y ! i)" for k using c by (simp add: on_lease_def)
  then have "length (filter (on_lease k) (asCalls z)) = length (filter (on_lease k) (asCalls y))" for k
    using filter_update [OF l, of "on_lease k" c] z(2) by (auto split: if_splits)
  moreover have "lease_exists (acLease d) (asLeases y)" if "d \<in> set (asCalls z)" for d
    using that z(2) v c(1) nth_mem [OF l] set_update_subset_insert [of "asCalls y" i c] by (auto simp: lease_inv_def dest!: subsetD)
  ultimately show ?thesis using v z(1) by (simp add: lease_inv_def)
qed

lemma lease_call_item:
  assumes v: "lease_inv y" and l: "i < length (asCalls y)"
    and f: "\<And>x' c' won. f (asCalls y ! i) (apItems (asTable y) ! acPending (asCalls y ! i)) = (x', c', won) \<Longrightarrow>
      acLease c' = acLease (asCalls y ! i) \<and> in_progress c'" and p: "in_progress (asCalls y ! i)"
  shows "lease_inv (call_item i f y)"
proof -
  obtain x' c' won where e: "f (asCalls y ! i) (apItems (asTable y) ! acPending (asCalls y ! i)) = (x', c', won)"
    by (cases rule: prod_cases3)
  show ?thesis unfolding call_item_eq [of f, OF e]
    by (rule lease_same [OF v l, where c = c']) (use f [OF e] p in simp_all)
qed

lemma lease_exists_update [simp]: "lease_exists k (ls[l := x]) = lease_exists k ls"
  by (simp add: lease_exists_def split: option.splits)

lemma lease_start:
  assumes v: "lease_inv y" and c: "lease_exists (acLease c) (asLeases y)"
    and e: "acLease (enter c) = acLease c" "in_progress (enter c)"
  shows "lease_inv (start_call c enter y)"
proof (cases "acLease c")
  case None
  then show ?thesis using v e c by (auto simp: start_call_def begin_lease_def lease_inv_def on_lease_def)
next
  case (Some l)
  have l: "l < length (asLeases y)" using c Some by (simp add: lease_exists_def)
  show ?thesis
  proof (cases "alDetached (asLeases y ! l)")
    case True
    then show ?thesis using v c Some l
      by (auto simp: start_call_def begin_lease_def lease_begin_def lease_inv_def on_lease_def in_progress_def)
  next
    case False
    then show ?thesis using v c Some l e
      by (auto simp: start_call_def begin_lease_def lease_begin_def lease_inv_def on_lease_def nth_list_update)
  qed
qed

lemma entered:
  "acLease (approval_enter key reply recorder s c) = acLease c" "in_progress (approval_enter key reply recorder s c)"
  "acLease (questions_enter request questions reply c) = acLease c" "in_progress (questions_enter request questions reply c)"
  by (auto simp: approval_enter_def questions_enter_def in_progress_def Let_def)

lemma lease_step:
  assumes v: "lease_inv y" and "approval_step lower y z"
  shows "lease_inv z"
  using assms(2)
proof cases
  case (ask_approval actor route lease options probe key reply recorder)
  then show ?thesis using lease_start [OF v] entered by (simp add: new_call_def)
next
  case (ask_questions actor route lease request questions reply)
  then show ?thesis using lease_start [OF v] entered by (simp add: new_call_def)
next
  case (register i now raws s' c')
  then have "acLease c' = acLease (asCalls y ! i) \<and> in_progress c'"
    by (auto simp: register_next_def in_progress_def split: list.splits sum.splits prod.splits if_splits)
  then show ?thesis using register by (intro lease_same [OF v, where i = i and c = c']) (auto simp: in_progress_def)
next
  case (prepare i)
  then show ?thesis by (auto intro!: lease_call_item [OF v] simp: in_progress_def)
next
  case (recheck i)
  then show ?thesis by (auto intro!: lease_call_item [OF v] simp: in_progress_def second_check_def Let_def split: if_splits)
next
  case (ask i ok)
  then show ?thesis
    by (auto intro!: lease_call_item [OF v] simp: in_progress_def asked_def Let_def split: prod.splits if_splits option.splits bool.splits)
next
  case (wait_for i ev now)
  then show ?thesis
    by (auto intro!: lease_call_item [OF v] simp: in_progress_def wait_step_def Let_def split: prod.splits if_splits option.splits)
next
  case (leave i out now)
  then show ?thesis
    by (intro lease_same [OF v, where i = i and c = "after_item out (asCalls y ! i)"])
      (auto simp: in_progress_def after_item_def split: bool.splits call_outcome.splits)
next
  case (finish i out)
  let ?c = "asCalls y ! i"
  let ?d = "?c\<lparr>acStage := CallDone out\<rparr>"
  have d: "\<not> on_lease k ?d" for k by (simp add: on_lease_def in_progress_def)
  have len: "length (filter (on_lease k) (asCalls z)) = length (filter (on_lease k) (asCalls y)) - (if on_lease k ?c then 1 else 0)" for k
    using filter_update [OF finish(2), of "on_lease k" ?d] d finish(1) by (auto split: if_splits)
  have ex: "lease_exists (acLease c) (asLeases y)" if "c \<in> set (asCalls z)" for c
    using that finish v nth_mem [OF finish(2)] set_update_subset_insert [of "asCalls y" i ?d] by (auto simp: lease_inv_def dest!: subsetD)
  have on: "on_lease k ?c \<longleftrightarrow> acLease ?c = Some k" for k using finish(3) by (simp add: on_lease_def in_progress_def)
  show ?thesis
  proof (cases "acLease ?c")
    case None
    then show ?thesis using v ex len on finish(1) by (simp add: lease_inv_def end_lease_def)
  next
    case (Some l)
    have "alInFlight (lease_end x) = alInFlight x - 1" for x by (simp add: lease_end_def)
    then show ?thesis using v ex len on finish(1) Some
      by (auto simp: lease_inv_def end_lease_def nth_list_update)
  qed
next
  case (claim i)
  then show ?thesis using v by (auto simp: sub_item_def lease_inv_def Let_def split: prod.splits)
next
  case (put i)
  then show ?thesis using v by (auto simp: sub_item_def lease_inv_def Let_def split: prod.splits)
next
  case new_frontend
  have "lease_exists k (asLeases y) \<Longrightarrow> lease_exists k (asLeases y @ [idle_lease])" for k
    by (auto simp: lease_exists_def split: option.splits)
  moreover have "filter (on_lease (length (asLeases y))) (asCalls y) = []"
    using v by (auto simp: lease_inv_def on_lease_def lease_exists_def filter_empty_conv)
  ultimately show ?thesis using v new_frontend
    by (auto simp: lease_inv_def nth_append idle_lease_def less_Suc_eq)
next
  case (frontend_leaves l force)
  have "alInFlight (detachLocked x) = alInFlight x" for x by (simp add: detachLocked_def)
  then show ?thesis using v frontend_leaves
    by (auto simp: lease_inv_def lease_exists_def nth_list_update split: option.splits)
qed (use v in \<open>simp_all add: lease_inv_def\<close>)

interpretation leases: invariant_system approval_init "approval_step lower" lease_inv for lower
proof
  show "approval_init s \<Longrightarrow> lease_inv s" for s by (simp add: approval_init_def lease_inv_def)
  show "lease_inv s \<Longrightarrow> approval_step lower s t \<Longrightarrow> lease_inv t" for s t by (rule lease_step)
qed

text \<open>
  C27: a frontend that leaves without force never cuts off a question that waits for its user: as long as a frontend is
  attached, it may leave exactly when no approval and no question of its task is under way. Once it has left, a new
  request ends at once and registers nothing, and one that was waiting can always end.
\<close>

theorem leaving_spares_questions:
  assumes "reach approval_init (approval_step lower) y" and "l < length (asLeases y)"
  shows "(\<not> alDetached (asLeases y ! l) \<longrightarrow>
       (claimDetach (Some (asLeases y ! l)) \<longleftrightarrow> list_all (\<lambda>c. \<not> on_lease l c) (asCalls y))) \<and>
    (alDetached (asLeases y ! l) \<and> acLease c = Some l \<longrightarrow>
       asCalls (start_call c enter y) = asCalls y @ [c\<lparr>acStage := CallDone (Failed ErrObserverDetached)\<rparr>] \<and>
       asTable (start_call c enter y) = asTable y \<and>
       wait_step now EvDetached d x = (x, d\<lparr>acStage := CallLeaving (Failed ErrObserverDetached)\<rparr>, False))"
proof -
  have "lease_inv y" by (rule leases.reach_inv [OF assms(1)])
  then have n: "alInFlight (asLeases y ! l) = length (filter (on_lease l) (asCalls y))" using assms(2) by (simp add: lease_inv_def)
  have "alInFlight (asLeases y ! l) = 0 \<longleftrightarrow> list_all (\<lambda>c. \<not> on_lease l c) (asCalls y)"
    unfolding n by (simp add: filter_empty_conv list_all_iff)
  moreover have "wait_step now EvDetached d x = (x, d\<lparr>acStage := CallLeaving (Failed ErrObserverDetached)\<rparr>, False)"
    by (simp add: wait_step_def)
  ultimately show ?thesis
    by (auto simp: claimDetach_def start_call_def begin_lease_def lease_begin_def)
qed

lemma leaving_spares_questions_witness:
  "\<not> claimDetach (Some (asLeases (demo_at demo_item CallWaiting []) ! 0))"
  using leaving_spares_questions [OF demo_reach_waiting, of 0] demo_waiting_fields demo_call_fields
  by (simp add: on_lease_def in_progress_def idle_lease_def)

end
