(* ===== verification/Approval_Codes.thy ===== *)
theory Approval_Codes
  imports Approval_Fences Approval_Demo
begin

section \<open>Codes of approvals\<close>

subsection \<open>Codes as text\<close>

lemma alphabet_plain: "c \<in> set approvalCodeEncoding \<Longrightarrow> plain_char c \<and> ascii_upper c = c \<and> c \<noteq> CHR 0xC4 \<and> c \<noteq> CHR 0xC5"
  by (auto simp: approvalCodeEncoding_def plain_char_def ascii_upper_def)

lemma upper_alphabet: "set s \<subseteq> set approvalCodeEncoding \<Longrightarrow> go_upper s = s"
  by (induction s) (auto dest: alphabet_plain)

lemma normalize_code [simp]: "normalizeApprovalCode (encode_code raw) = encode_code raw"
proof -
  have s: "set (encode_code raw) \<subseteq> set approvalCodeEncoding" by (rule encode_code_chars)
  have "encode_code raw \<noteq> []" using encode_code_length [of raw] by force
  then have "go_trim (encode_code raw) = encode_code raw"
    using s alphabet_plain by (intro go_trim_plain) (meson hd_in_set last_in_set subsetD)+
  then show ?thesis using s by (auto simp: normalizeApprovalCode_def upper_alphabet list_all_iff Let_def)
qed

lemma normal_no_nul: "nul \<notin> set (normalizeApprovalCode code)"
proof -
  have "nul \<notin> set approvalCodeEncoding" by (simp add: approvalCodeEncoding_def nul_def)
  then show ?thesis by (auto simp: normalizeApprovalCode_def Let_def list_all_iff)
qed

lemma code_key_inj:
  assumes "approvalCodeMapKey u r c = approvalCodeMapKey u' r' c'" and "nul_free u" "nul_free u'" "nul_free r" "nul_free r'"
  shows "go_trim u = go_trim u' \<and> go_trim r = go_trim r' \<and> normalizeApprovalCode c = normalizeApprovalCode c'"
proof -
  have e: "go_trim u @ nul # (go_trim r @ nul # normalizeApprovalCode c) = go_trim u' @ nul # (go_trim r' @ nul # normalizeApprovalCode c')"
    using assms(1) by (simp add: approvalCodeMapKey_def)
  have n: "nul \<notin> set (go_trim u)" "nul \<notin> set (go_trim u')" "nul \<notin> set (go_trim r)" "nul \<notin> set (go_trim r')"
    using assms(2-5) unfolding nul_free_def .
  from split_at_nul [OF n(1,2) e] have a: "go_trim u = go_trim u'"
    and b: "go_trim r @ nul # normalizeApprovalCode c = go_trim r' @ nul # normalizeApprovalCode c'" by blast+
  from a split_at_nul [OF n(3,4) b] show ?thesis by blast
qed

subsection \<open>One item for a code\<close>

definition at_item :: "approval_call \<Rightarrow> bool" where
  "at_item c \<longleftrightarrow>
     (case acStage c of CallRegistered \<Rightarrow> True | CallPrepared \<Rightarrow> True | CallAsk \<Rightarrow> True | CallWaiting \<Rightarrow> True
      | CallLeaving out \<Rightarrow> True | _ \<Rightarrow> False)"

text \<open>A call that is at an item has it in the table, and no other call is at it.\<close>

definition owns_items :: "approval_table \<Rightarrow> approval_call list \<Rightarrow> bool" where
  "owns_items s cs \<longleftrightarrow>
     (\<forall>i < length cs. at_item (cs ! i) \<longrightarrow> acPending (cs ! i) \<in> snd ` set (apPending s)) \<and>
     (\<forall>i < length cs. \<forall>j < length cs. at_item (cs ! i) \<and> at_item (cs ! j) \<and> acPending (cs ! i) = acPending (cs ! j) \<longrightarrow> i = j)"

definition same_window :: "pendingApproval \<Rightarrow> pendingApproval \<Rightarrow> bool" where
  "same_window x x' \<longleftrightarrow> paUserID x = paUserID x' \<and> paRoute x = paRoute x'"

definition codes_ok :: "approval_table \<Rightarrow> bool" where
  "codes_ok s \<longleftrightarrow>
     (\<forall>p < length (apItems s). paCode (apItems s ! p) = [] \<or> normalizeApprovalCode (paCode (apItems s ! p)) = paCode (apItems s ! p)) \<and>
     (\<forall>p < length (apItems s). paKind (apItems s ! p) = choiceInteractionApproval \<longrightarrow> paCode (apItems s ! p) \<noteq> []) \<and>
     (\<forall>p \<in> snd ` set (apPending s). \<forall>q \<in> snd ` set (apPending s).
        same_window (apItems s ! p) (apItems s ! q) \<and> paCode (apItems s ! p) = paCode (apItems s ! q) \<and> paCode (apItems s ! p) \<noteq> [] \<longrightarrow> p = q) \<and>
     (\<forall>p \<in> snd ` set (apPending s). let x = apItems s ! p in
        paCode x \<noteq> [] \<longrightarrow> approvalCodeMapKey (paUserID x) (paRoute x) (paCode x) \<notin> fst ` set (apCodes s))"

definition code_key :: "approval_table \<Rightarrow> nat \<Rightarrow> string" where
  "code_key s p = approvalCodeMapKey (paUserID (apItems s ! p)) (paRoute (apItems s ! p)) (paCode (apItems s ! p))"

lemma codes_okD:
  assumes "codes_ok s"
  shows "\<And>p. p < length (apItems s) \<Longrightarrow> paCode (apItems s ! p) \<noteq> [] \<Longrightarrow> normalizeApprovalCode (paCode (apItems s ! p)) = paCode (apItems s ! p)"
    "\<And>p. p < length (apItems s) \<Longrightarrow> paKind (apItems s ! p) = choiceInteractionApproval \<Longrightarrow> paCode (apItems s ! p) \<noteq> []"
    "\<And>p q. p \<in> snd ` set (apPending s) \<Longrightarrow> q \<in> snd ` set (apPending s) \<Longrightarrow> same_window (apItems s ! p) (apItems s ! q) \<Longrightarrow>
       paCode (apItems s ! p) = paCode (apItems s ! q) \<Longrightarrow> paCode (apItems s ! p) \<noteq> [] \<Longrightarrow> p = q"
    "\<And>p. p \<in> snd ` set (apPending s) \<Longrightarrow> paCode (apItems s ! p) \<noteq> [] \<Longrightarrow> code_key s p \<notin> fst ` set (apCodes s)"
  using assms unfolding codes_ok_def code_key_def Let_def by blast+

lemma codes_okI:
  assumes "\<And>p. p < length (apItems s) \<Longrightarrow> paCode (apItems s ! p) \<noteq> [] \<Longrightarrow> normalizeApprovalCode (paCode (apItems s ! p)) = paCode (apItems s ! p)"
    and "\<And>p. p < length (apItems s) \<Longrightarrow> paKind (apItems s ! p) = choiceInteractionApproval \<Longrightarrow> paCode (apItems s ! p) \<noteq> []"
    and "\<And>p q. p \<in> snd ` set (apPending s) \<Longrightarrow> q \<in> snd ` set (apPending s) \<Longrightarrow> same_window (apItems s ! p) (apItems s ! q) \<Longrightarrow>
       paCode (apItems s ! p) = paCode (apItems s ! q) \<Longrightarrow> paCode (apItems s ! p) \<noteq> [] \<Longrightarrow> p = q"
    and "\<And>p. p \<in> snd ` set (apPending s) \<Longrightarrow> paCode (apItems s ! p) \<noteq> [] \<Longrightarrow> code_key s p \<notin> fst ` set (apCodes s)"
  shows "codes_ok s"
  using assms unfolding codes_ok_def code_key_def Let_def by blast

lemma codes_ok_mono:
  assumes "codes_ok s" and "apItems s' = apItems s" and "set (apPending s') \<subseteq> set (apPending s)" and "fst ` set (apCodes s') \<subseteq> fst ` set (apCodes s)"
  shows "codes_ok s'"
  using assms unfolding codes_ok_def Let_def by (smt (verit, best) image_mono in_mono)

lemma codes_cleanup: "codes_ok s \<Longrightarrow> codes_ok (cleanupResolvedApprovalCodesLocked now s)"
  by (rule codes_ok_mono) (auto simp: cleanupResolvedApprovalCodesLocked_def)

lemma codes_mode: "codes_ok s \<Longrightarrow> codes_ok (setYoloMode k b s)"
  by (erule codes_ok_mono) (auto simp: setYoloMode_def Let_def)

lemma codes_ok_set:
  assumes "codes_ok s" and f: "frame x = frame (apItems s ! p)"
  shows "codes_ok (set_item p x s)"
proof -
  have e: "paCode ((apItems s)[p := x] ! q) = paCode (apItems s ! q)" "paKind ((apItems s)[p := x] ! q) = paKind (apItems s ! q)"
    "paUserID ((apItems s)[p := x] ! q) = paUserID (apItems s ! q)" "paRoute ((apItems s)[p := x] ! q) = paRoute (apItems s ! q)" for q
    using frame_eqD [OF f] by (cases "p < length (apItems s) \<and> q = p"; auto simp: nth_list_update list_update_beyond)+
  show ?thesis using assms(1) unfolding codes_ok_def Let_def same_window_def set_item_fields length_list_update e .
qed

lemma code_fresh:
  "newApprovalCodeLocked raws user route s = Inr c \<Longrightarrow>
   \<not> approvalCodeInUseLocked user route c s \<and> normalizeApprovalCode c = c \<and> c \<noteq> []"
  by (induction raws user route s rule: newApprovalCodeLocked.induct)
    (auto split: if_splits dest: arg_cong [where f = length])

lemma codes_register:
  assumes r: "registerPendingApprovalForRouteWithDisplay lower now raws r s = (s', out)" and c: "codes_ok s" and t: "approvals_ok s"
  shows "codes_ok s'"
proof -
  let ?x = "new_pending lower now r"
  let ?s = "cleanupResolvedApprovalCodesLocked now s"
  have c1: "codes_ok ?s" by (rule codes_cleanup [OF c])
  consider (no) "s' = ?s"
    | (yes) w where "s' = ?s\<lparr>apItems := apItems s @ [?x\<lparr>paCode := w\<rparr>], apPending := apPending s @ [(paKey ?x, length (apItems s))]\<rparr>"
        "if paKind ?x = choiceInteractionApproval then newApprovalCodeLocked (take 16 raws) (paUserID ?x) (paRoute ?x) ?s = Inr w else w = []"
    using r by (auto simp: registerPendingApprovalForRouteWithDisplay_def Let_def split: sum.splits if_splits)
  then show ?thesis
  proof cases
    case (yes w)
    define x where "x = ?x\<lparr>paCode := w\<rparr>"
    have lt: "p < length (apItems s)" if "p \<in> snd ` set (apPending s)" for p using that t by (auto simp: approvals_ok_def)
    have w: "w = [] \<or> (normalizeApprovalCode w = w \<and> \<not> approvalCodeInUseLocked (paUserID x) (paRoute x) w ?s)"
      "paKind x = choiceInteractionApproval \<longrightarrow> w \<noteq> []"
      using yes(2) code_fresh by (auto simp: x_def split: if_splits)
    have new: "\<not> (same_window x (apItems s ! p) \<and> paCode (apItems s ! p) = w)" if "w \<noteq> []" "p \<in> snd ` set (apPending s)" for p
      using w(1) that by (auto simp: approvalCodeInUseLocked_def same_window_def list_ex_iff Let_def)
    have used: "approvalCodeMapKey (paUserID x) (paRoute x) w \<notin> fst ` set (apCodes ?s)" if "w \<noteq> []"
    proof -
      have n: "normalizeApprovalCode w = w" "\<not> approvalCodeInUseLocked (paUserID x) (paRoute x) w ?s" using w(1) that by blast+
      then show ?thesis unfolding approvalCodeInUseLocked_def map_of_eq_None_iff Let_def by simp
    qed
    have s': "apItems s' = apItems s @ [x]" "snd ` set (apPending s') = insert (length (apItems s)) (snd ` set (apPending s))"
      "apCodes s' = apCodes ?s"
      using yes(1) by (auto simp: x_def)
    have at: "(apItems s @ [x]) ! p = apItems s ! p" if "p \<in> snd ` set (apPending s)" for p using lt [OF that] by (simp add: nth_append)
    have pc: "paCode x = w" by (simp add: x_def)
    have one: "p = q" if "p \<in> snd ` set (apPending s')" "q \<in> snd ` set (apPending s')"
        "same_window (apItems s' ! p) (apItems s' ! q)" "paCode (apItems s' ! p) = paCode (apItems s' ! q)" "paCode (apItems s' ! p) \<noteq> []" for p q
    proof -
      consider "p = length (apItems s)" "q = length (apItems s)" | "p = length (apItems s)" "q \<in> snd ` set (apPending s)"
        | "q = length (apItems s)" "p \<in> snd ` set (apPending s)" | "p \<in> snd ` set (apPending s)" "q \<in> snd ` set (apPending s)"
        using \<open>p \<in> snd ` set (apPending s')\<close> \<open>q \<in> snd ` set (apPending s')\<close> s'(2) by blast
      then show ?thesis
      proof cases
        case 2
        then show ?thesis using that(3-5) new [OF _ 2(2)] at [OF 2(2)] s'(1) pc by simp
      next
        case 3
        then show ?thesis using that(3-5) new [OF _ 3(2)] at [OF 3(2)] s'(1) pc by (auto simp: same_window_def)
      next
        case 4
        then show ?thesis using that(3-5) at [OF 4(1)] at [OF 4(2)] s'(1) codes_okD(3) [OF c 4] by simp
      qed simp
    qed
    have free: "code_key s' p \<notin> fst ` set (apCodes s')"
      if "p \<in> snd ` set (apPending s')" "paCode (apItems s' ! p) \<noteq> []" for p
    proof (cases "p = length (apItems s)")
      case True
      then show ?thesis using used that(2) s'(1,3) pc by (simp add: code_key_def)
    next
      case False
      then have p: "p \<in> snd ` set (apPending s)" using that(1) s'(2) by blast
      then show ?thesis using that(2) at [OF p] s'(1,3) codes_okD(4) [OF c1, of p] by (simp add: code_key_def)
    qed
    show ?thesis
    proof (rule codes_okI [OF _ _ one free])
      fix p
      assume "p < length (apItems s')"
      then consider "p = length (apItems s)" | "p < length (apItems s)" using s'(1) by fastforce
      then show "paCode (apItems s' ! p) \<noteq> [] \<Longrightarrow> normalizeApprovalCode (paCode (apItems s' ! p)) = paCode (apItems s' ! p)"
        and "paKind (apItems s' ! p) = choiceInteractionApproval \<Longrightarrow> paCode (apItems s' ! p) \<noteq> []"
        using w s'(1) pc codes_okD(1,2) [OF c, of p] by (cases; auto simp: nth_append)+
    qed
  qed (use c1 in simp)
qed

lemma codes_clear:
  assumes c: "codes_ok s" and t: "approvals_ok s" and p: "p \<in> snd ` set (apPending s)"
  shows "codes_ok (clearPendingApproval now p s)" and "snd ` set (apPending (clearPendingApproval now p s)) = snd ` set (apPending s) - {p}"
proof -
  let ?x = "apItems s ! p"
  let ?k = "paKey ?x"
  let ?n = "approvalCodeMapKey (paUserID ?x) (paRoute ?x) (paCode ?x)"
  have mem: "(?k, p) \<in> set (apPending s)" using p t by (auto simp: approvals_ok_def)
  then have at: "map_of (apPending s) ?k = Some p" using t by (simp add: approvals_ok_def)
  have pend: "apPending (clearPendingApproval now p s) = AList.delete ?k (apPending s)"
    using at by (simp add: clearPendingApproval_def Let_def)
  have "q \<noteq> p" if "(k, q) \<in> set (apPending s)" "k \<noteq> ?k" for k q using that t by (auto simp: approvals_ok_def)
  moreover have "q = p" if "(?k, q) \<in> set (apPending s)" for q
    using that mem t by (auto simp: approvals_ok_def dest: eq_key_imp_eq_value)
  ultimately show rest: "snd ` set (apPending (clearPendingApproval now p s)) = snd ` set (apPending s) - {p}"
    unfolding pend AList.delete_eq by force
  have sub: "set (apPending (clearPendingApproval now p s)) \<subseteq> set (apPending s)" unfolding pend AList.delete_eq by auto
  have codes: "fst ` set (apCodes (clearPendingApproval now p s)) \<subseteq> (if paCode ?x = [] then {} else {?n}) \<union> fst ` set (apCodes s)"
    unfolding clearPendingApproval_def cleanupResolvedApprovalCodesLocked_def Let_def
    using AList.dom_update [of ?n "now + pendingApprovalTimeout" "apCodes s"] by auto
  have io: "item_ok (apItems s ! q)" if "q \<in> snd ` set (apPending s)" for q using that t by (auto simp: approvals_ok_def)
  have other: "approvalCodeMapKey (paUserID (apItems s ! q)) (paRoute (apItems s ! q)) (paCode (apItems s ! q)) \<noteq> ?n"
    if q: "q \<in> snd ` set (apPending s)" "q \<noteq> p" "paCode (apItems s ! q) \<noteq> []" "paCode ?x \<noteq> []" for q
  proof
    assume e: "approvalCodeMapKey (paUserID (apItems s ! q)) (paRoute (apItems s ! q)) (paCode (apItems s ! q)) = ?n"
    have nf: "nul_free (paUserID (apItems s ! r)) \<and> nul_free (paRoute (apItems s ! r)) \<and> go_trim (paUserID (apItems s ! r)) = paUserID (apItems s ! r) \<and>
        go_trim (paRoute (apItems s ! r)) = paRoute (apItems s ! r)" if "r \<in> snd ` set (apPending s)" for r
      using io [OF that] by (auto simp: item_ok_def nul_free_def go_trim_idem)
    have nc: "normalizeApprovalCode (paCode (apItems s ! r)) = paCode (apItems s ! r)" if "r \<in> snd ` set (apPending s)" "paCode (apItems s ! r) \<noteq> []" for r
      using c that t by (auto simp: codes_ok_def approvals_ok_def)
    from code_key_inj [OF e] nf [OF q(1)] nf [OF p] nc [OF q(1,3)] nc [OF p q(4)]
    have "same_window (apItems s ! q) ?x \<and> paCode (apItems s ! q) = paCode ?x" by (simp add: same_window_def)
    then show False using codes_okD(3) [OF c q(1) p] q by blast
  qed
  show "codes_ok (clearPendingApproval now p s)"
  proof (rule codes_okI)
    fix q
    assume "q \<in> snd ` set (apPending (clearPendingApproval now p s))" and n: "paCode (apItems (clearPendingApproval now p s) ! q) \<noteq> []"
    then have q: "q \<in> snd ` set (apPending s)" "q \<noteq> p" using rest by blast+
    have "code_key s q \<notin> fst ` set (apCodes s)" using codes_okD(4) [OF c q(1)] n by simp
    moreover have "paCode ?x \<noteq> [] \<Longrightarrow> code_key s q \<noteq> ?n" using other [OF q] n by (simp add: code_key_def)
    ultimately show "code_key (clearPendingApproval now p s) q \<notin> fst ` set (apCodes (clearPendingApproval now p s))"
      using codes by (auto simp: code_key_def split: if_splits)
  qed (use codes_okD [OF c] rest in auto)
qed

subsection \<open>The invariant\<close>

definition pendings :: "approval_table \<Rightarrow> nat set" where
  "pendings s = snd ` set (apPending s)"

definition code_inv :: "approval_system \<Rightarrow> bool" where
  "code_inv y \<longleftrightarrow> codes_ok (asTable y) \<and> owns_items (asTable y) (asCalls y)"

lemma pendings_fields [simp]:
  "pendings (set_item p x s) = pendings s" "pendings (cleanupResolvedApprovalCodesLocked now s) = pendings s"
  "pendings (setYoloMode k on s) = pendings s"
  by (simp_all add: pendings_def)

lemma owns_keep:
  assumes o: "owns_items s cs" and l: "i < length cs" and p: "pendings s' = pendings s"
    and c: "at_item c \<Longrightarrow> at_item (cs ! i) \<and> acPending c = acPending (cs ! i)"
  shows "owns_items s' (cs[i := c])"
proof -
  have a: "at_item (cs[i := c] ! k) \<Longrightarrow> at_item (cs ! k) \<and> acPending (cs[i := c] ! k) = acPending (cs ! k)" for k
    using c l by (cases "k = i") simp_all
  show ?thesis using o a p unfolding owns_items_def pendings_def length_list_update by metis
qed

lemma owns_append: "owns_items s cs \<Longrightarrow> \<not> at_item c \<Longrightarrow> owns_items s (cs @ [c])"
  unfolding owns_items_def by (auto simp: nth_append less_Suc_eq split: if_splits)

lemma code_call_item:
  assumes v: "code_inv y" and l: "i < length (asCalls y)" and a: "at_item (asCalls y ! i)"
    and f: "\<And>x' c' won. f (asCalls y ! i) (apItems (asTable y) ! acPending (asCalls y ! i)) = (x', c', won) \<Longrightarrow>
      frame x' = frame (apItems (asTable y) ! acPending (asCalls y ! i)) \<and> acPending c' = acPending (asCalls y ! i)"
  shows "code_inv (call_item i f y)"
proof -
  obtain x' c' won where e: "f (asCalls y ! i) (apItems (asTable y) ! acPending (asCalls y ! i)) = (x', c', won)"
    by (cases rule: prod_cases3)
  note w = f [OF e]
  show ?thesis unfolding call_item_eq [of f, OF e] code_inv_def
    using v codes_ok_set [of "asTable y" x' "acPending (asCalls y ! i)"] w owns_keep [OF _ l, where c = c' and s = "asTable y"] a
    by (simp add: code_inv_def)
qed

lemma code_sub_item:
  assumes "code_inv y" and "\<And>x b. f (asSubs y ! i) (apItems (asTable y) ! sbPending (asSubs y ! i)) = (x, b) \<Longrightarrow>
    frame x = frame (apItems (asTable y) ! sbPending (asSubs y ! i))"
  shows "code_inv (sub_item i f y)"
proof -
  obtain x b where e: "f (asSubs y ! i) (apItems (asTable y) ! sbPending (asSubs y ! i)) = (x, b)" by fastforce
  show ?thesis unfolding sub_item_eq [of f, OF e] code_inv_def
    using assms(1) codes_ok_set [OF _ assms(2) [OF e]] by (simp add: code_inv_def owns_items_def)
qed

lemma code_register:
  assumes v: "code_inv y" and i: "approval_inv lower y" and l: "i < length (asCalls y)" and st: "acStage (asCalls y ! i) = CallNext"
    and r: "register_next lower now raws (asTable y) (asCalls y ! i) = (s', c')"
  shows "code_inv (y\<lparr>asTable := s', asCalls := (asCalls y)[i := c']\<rparr>)"
proof -
  let ?c = "asCalls y ! i"
  have o: "owns_items (asTable y) (asCalls y)" and co: "codes_ok (asTable y)" using v by (simp_all add: code_inv_def)
  have keep: "code_inv (y\<lparr>asTable := s', asCalls := (asCalls y)[i := c']\<rparr>)"
    if "pendings s' = pendings (asTable y)" "codes_ok s'" "\<not> at_item c'"
    using that owns_keep [OF o l that(1), of c'] by (simp add: code_inv_def)
  consider "acNext ?c = []" | e rest where "acNext ?c = Inl e # rest" | q rest where "acNext ?c = Inr q # rest"
    by (metis list.exhaust sum.exhaust)
  then show ?thesis
  proof cases
    case 1
    then show ?thesis using r co by (intro keep) (auto simp: register_next_def at_item_def)
  next
    case 2
    then show ?thesis using r co by (intro keep) (auto simp: register_next_def at_item_def)
  next
    case (3 q rest)
    obtain out where f: "registerPendingApprovalForRouteWithDisplay lower now raws q (asTable y) = (s', out)"
      using r 3 by (auto simp: register_next_def split: prod.splits sum.splits)
    have cs: "codes_ok s'" by (rule codes_register [OF f co approval_invD(1) [OF i]])
    show ?thesis
    proof (cases out)
      case (Inl e)
      then have "pendings s' = pendings (asTable y)"
        using f by (auto simp: registerPendingApprovalForRouteWithDisplay_def pendings_def Let_def split: sum.splits if_splits)
      then show ?thesis using r 3 f Inl cs by (intro keep) (auto simp: register_next_def at_item_def)
    next
      case (Inr p)
      then have p: "p = length (apItems (asTable y))" "pendings s' = insert p (pendings (asTable y))"
        using f by (auto simp: registerPendingApprovalForRouteWithDisplay_def pendings_def Let_def split: sum.splits if_splits)
      have new: "p \<notin> pendings (asTable y)"
        using approval_invD(1) [OF i] p(1) by (auto simp: approvals_ok_def pendings_def)
      have c': "acPending c' = p" "at_item c'" using r 3 f Inr by (auto simp: register_next_def at_item_def)
      have old: "at_item (asCalls y ! k) \<Longrightarrow> k < length (asCalls y) \<Longrightarrow> acPending (asCalls y ! k) \<in> pendings (asTable y)" for k
        using o by (simp add: owns_items_def pendings_def)
      have "owns_items s' ((asCalls y)[i := c'])"
        unfolding owns_items_def pendings_def [symmetric] length_list_update
      proof (intro conjI allI impI; (elim conjE)?)
        fix k
        assume "k < length (asCalls y)" "at_item ((asCalls y)[i := c'] ! k)"
        then show "acPending ((asCalls y)[i := c'] ! k) \<in> pendings s'" using old [of k] p(2) c' l by (cases "k = i") auto
      next
        fix k j
        assume k: "k < length (asCalls y)" "at_item ((asCalls y)[i := c'] ! k)" and j: "j < length (asCalls y)" "at_item ((asCalls y)[i := c'] ! j)"
          and e: "acPending ((asCalls y)[i := c'] ! k) = acPending ((asCalls y)[i := c'] ! j)"
        show "k = j"
        proof (cases "k = i \<or> j = i")
          case True
          then show ?thesis using k j e old [of k] old [of j] new c' l by (cases "k = i"; cases "j = i") auto
        next
          case False
          then show ?thesis using k j e o by (simp add: owns_items_def)
        qed
      qed
      then show ?thesis using cs by (simp add: code_inv_def)
    qed
  qed
qed

lemma code_leave:
  assumes v: "code_inv y" and i: "approval_inv lower y" and l: "i < length (asCalls y)" and st: "acStage (asCalls y ! i) = CallLeaving out"
  shows "code_inv (y\<lparr>asTable := clearPendingApproval now (acPending (asCalls y ! i)) (asTable y),
      asCalls := (asCalls y)[i := after_item out (asCalls y ! i)]\<rparr>)"
proof -
  let ?p = "acPending (asCalls y ! i)"
  have o: "owns_items (asTable y) (asCalls y)" and co: "codes_ok (asTable y)" using v by (simp_all add: code_inv_def)
  have here: "at_item (asCalls y ! i)" using st by (simp add: at_item_def)
  then have p: "?p \<in> snd ` set (apPending (asTable y))" using o l by (simp add: owns_items_def)
  note c = codes_clear [OF co approval_invD(1) [OF i] p, of now]
  have gone: "\<not> at_item (after_item out (asCalls y ! i))"
    by (auto simp: after_item_def at_item_def split: bool.splits call_outcome.splits)
  have other: "acPending (asCalls y ! k) \<noteq> ?p" if "k < length (asCalls y)" "at_item (asCalls y ! k)" "k \<noteq> i" for k
    using that o here l unfolding owns_items_def by blast
  have "owns_items (clearPendingApproval now ?p (asTable y)) ((asCalls y)[i := after_item out (asCalls y ! i)])"
    unfolding owns_items_def c(2) length_list_update
  proof (intro conjI allI impI; (elim conjE)?)
    fix k
    assume k: "k < length (asCalls y)" "at_item ((asCalls y)[i := after_item out (asCalls y ! i)] ! k)"
    then have "k \<noteq> i" using gone l by auto
    then show "acPending ((asCalls y)[i := after_item out (asCalls y ! i)] ! k) \<in> snd ` set (apPending (asTable y)) - {?p}"
      using k other [of k] o by (auto simp: owns_items_def)
  next
    fix k j
    assume k: "k < length (asCalls y)" "at_item ((asCalls y)[i := after_item out (asCalls y ! i)] ! k)"
      and j: "j < length (asCalls y)" "at_item ((asCalls y)[i := after_item out (asCalls y ! i)] ! j)"
      and e: "acPending ((asCalls y)[i := after_item out (asCalls y ! i)] ! k) = acPending ((asCalls y)[i := after_item out (asCalls y ! i)] ! j)"
    then have "k \<noteq> i" "j \<noteq> i" using gone l by auto
    then show "k = j" using k j e o by (simp add: owns_items_def)
  qed
  then show ?thesis using c(1) by (simp add: code_inv_def)
qed

lemma code_step:
  assumes v: "code_inv y" and i: "approval_inv lower y" and "approval_step lower y z"
  shows "code_inv z"
  using assms(3)
proof cases
  case (ask_approval actor route lease options probe key reply recorder)
  have "\<not> at_item (approval_enter k r q s c)" for k r q s c by (auto simp: approval_enter_def at_item_def Let_def)
  then show ?thesis using v ask_approval owns_append
    by (auto simp: start_call_def code_inv_def at_item_def split: prod.splits bool.splits)
next
  case (ask_questions actor route lease request questions reply)
  have "\<not> at_item (questions_enter r q b c)" for r q b c by (auto simp: questions_enter_def at_item_def Let_def)
  then show ?thesis using v ask_questions owns_append
    by (auto simp: start_call_def code_inv_def at_item_def split: prod.splits bool.splits)
next
  case (register i now raws s' c')
  then show ?thesis using code_register [OF v assms(2)] by simp
next
  case (prepare i)
  then show ?thesis by (auto intro!: code_call_item [OF v] simp: at_item_def prepare_item_def)
next
  case (recheck i)
  then show ?thesis by (auto intro!: code_call_item [OF v] simp: at_item_def second_check_def item_ops Let_def split: if_splits)
next
  case (ask i ok)
  then show ?thesis
    by (auto intro!: code_call_item [OF v] simp: at_item_def asked_def item_ops Let_def split: prod.splits if_splits option.splits bool.splits)
next
  case (wait_for i ev now)
  then show ?thesis using wait_step_facts(1,4)
    by (auto intro!: code_call_item [OF v] simp: at_item_def item_move_def same_call_def)
next
  case (leave i out now)
  then show ?thesis using code_leave [OF v assms(2)] by simp
next
  case (finish i out)
  then show ?thesis
    using v owns_keep [of "asTable y" "asCalls y" i "asTable y" "(asCalls y ! i)\<lparr>acStage := CallDone out\<rparr>"]
    by (simp add: code_inv_def at_item_def)
next
  case (forget_codes now)
  then show ?thesis using v codes_cleanup by (simp add: code_inv_def owns_items_def)
next
  case (claim i)
  then show ?thesis by (auto intro!: code_sub_item [OF v] simp: claim_sub_def item_ops split: if_splits)
next
  case (put i)
  then show ?thesis by (auto intro!: code_sub_item [OF v] simp: put_sub_def item_ops split: submitted_value.splits if_splits)
next
  case (renew p actor route now)
  then show ?thesis using v codes_ok_set [of "asTable y" "renewDeadline now (apItems (asTable y) ! p)" p]
    by (simp add: code_inv_def owns_items_def item_ops)
next
  case (mode on actor route)
  then show ?thesis using v codes_mode by (simp add: code_inv_def owns_items_def)
qed (use v in \<open>simp_all add: code_inv_def\<close>)

interpretation approval_codes: invariant_system approval_init "approval_step lower" "\<lambda>y. approval_inv lower y \<and> code_inv y" for lower
proof
  show "approval_init s \<Longrightarrow> approval_inv lower s \<and> code_inv s" for s
    using approvals.inv_init [of s lower] by (simp add: approval_init_def code_inv_def codes_ok_def owns_items_def)
  show "approval_inv lower s \<and> code_inv s \<Longrightarrow> approval_step lower s t \<Longrightarrow> approval_inv lower t \<and> code_inv t" for s t
    using approval_inv_step [of lower s t] code_step [of s lower t] by blast
qed

lemma found_by_code:
  assumes t: "approvals_ok s" and c: "codes_ok s" and "p \<in> snd ` set (apPending s)" and "paKind (apItems s ! p) = choiceInteractionApproval"
    and "normalizeApprovalCode code = paCode (apItems s ! p)"
    and w: "go_trim user = paUserID (apItems s ! p)" "go_trim route = paRoute (apItems s ! p)" "go_trim user \<noteq> []"
  shows "snd (find_code now user route code approve s) =
    (let x = apItems s ! p; choice = (if approve then paYolo x else paDeny x) in
     if \<not> now < paExpiresAt x then CodeNotFound
     else if go_trim choice = [] then CodeDecisionUnavailable else CodeFound p choice)"
proof -
  let ?x = "apItems s ! p"
  have lt: "p < length (apItems s)" using assms(3) t by (auto simp: approvals_ok_def)
  have code: "paCode ?x \<noteq> []" using codes_okD(2) [OF c lt assms(4)] .
  have free: "code_key s p \<notin> fst ` set (apCodes s)" by (rule codes_okD(4) [OF c assms(3) code])
  define P where "P q \<longleftrightarrow> (let x = apItems s ! q in paUserID x = paUserID ?x \<and> paRoute x = paRoute ?x \<and>
      paKind x = choiceInteractionApproval \<and> paCode x = paCode ?x)" for q
  have "find P (map snd (apPending s)) = Some p"
  proof (cases "find P (map snd (apPending s))")
    case None
    then show ?thesis using assms(3,4) by (auto simp: find_None_iff P_def)
  next
    case (Some q)
    from find_SomeD [OF this] have q: "q \<in> snd ` set (apPending s)" "P q" by auto
    then have "same_window (apItems s ! q) ?x" "paCode (apItems s ! q) = paCode ?x" by (simp_all add: P_def same_window_def Let_def)
    then show ?thesis using codes_okD(3) [OF c q(1) assms(3)] code Some by simp
  qed
  then have found: "find (\<lambda>q. let x = apItems s ! q in paUserID x = paUserID ?x \<and> paRoute x = paRoute ?x \<and>
      paKind x = choiceInteractionApproval \<and> paCode x = paCode ?x) (map snd (apPending s)) = Some p" unfolding P_def .
  have "fst ` set (filter P al) \<subseteq> fst ` set al" for P and al :: "(string \<times> instant) list" by auto
  then have none: "map_of (apCodes (cleanupResolvedApprovalCodesLocked now s)) (code_key s p) = None"
    unfolding map_of_eq_None_iff cleanupResolvedApprovalCodesLocked_def using free by auto
  have key: "approvalCodeMapKey (paUserID ?x) (paRoute ?x) (paCode ?x) = code_key s p" by (simp add: code_key_def)
  show ?thesis
    using w(3) code unfolding find_code_def Let_def w(1,2) assms(5) key none
    using found by (simp add: Let_def)
qed

lemma cleared_by_code:
  assumes "normalizeApprovalCode code = paCode (apItems s ! p)" and "paCode (apItems s ! p) \<noteq> []"
    and w: "go_trim user = paUserID (apItems s ! p)" "go_trim route = paRoute (apItems s ! p)" "go_trim user \<noteq> []"
      "paResolved (apItems s ! p)" "now' < now + pendingApprovalTimeout"
  shows "snd (find_code now' user route code approve (clearPendingApproval now p s)) = CodeAlreadyResolved"
proof -
  have key: "approvalCodeMapKey (paUserID (apItems s ! p)) (paRoute (apItems s ! p)) (paCode (apItems s ! p)) = code_key s p"
    by (simp add: code_key_def)
  have "(code_key s p, now + pendingApprovalTimeout) \<in> set (apCodes (clearPendingApproval now p s))"
    using w(4) assms(2) by (auto simp: clearPendingApproval_def cleanupResolvedApprovalCodesLocked_def Let_def code_key_def pendingApprovalTimeout_def
        AList.update_conv' intro: map_of_SomeD)
  then have "(code_key s p, now + pendingApprovalTimeout) \<in>
      set (apCodes (cleanupResolvedApprovalCodesLocked now' (clearPendingApproval now p s)))"
    using w(5) by (simp add: cleanupResolvedApprovalCodesLocked_def)
  from weak_map_of_SomeI [OF this]
  have "map_of (apCodes (cleanupResolvedApprovalCodesLocked now' (clearPendingApproval now p s))) (code_key s p) \<noteq> None" by auto
  then show ?thesis using w(3) assms(2) unfolding find_code_def Let_def w(1,2) assms(1) key by simp
qed

text \<open>
  C28: a code stands for exactly one request. Typed in any letter case by the user who was asked, in the window of the request, it finds this
  request and no other, and it means the option that allows or the one that denies; past the deadline it finds nothing. Typed by another user
  or in another window it never reaches the request. After the request was decided and has gone, the
  code is answered with the news that it was decided, until it is forgotten.
\<close>

theorem approval_code_exact:
  assumes "reach approval_init (approval_step lower) y" and "p \<in> snd ` set (apPending (asTable y))"
    and "paKind (apItems (asTable y) ! p) = choiceInteractionApproval"
    and "normalizeApprovalCode code = paCode (apItems (asTable y) ! p)"
  shows "(go_trim user = paUserID (apItems (asTable y) ! p) \<and> go_trim route = paRoute (apItems (asTable y) ! p) \<and> go_trim user \<noteq> [] \<longrightarrow>
      snd (find_code now user route code approve (asTable y)) =
        (let x = apItems (asTable y) ! p; choice = (if approve then paYolo x else paDeny x) in
         if \<not> now < paExpiresAt x then CodeNotFound
         else if go_trim choice = [] then CodeDecisionUnavailable else CodeFound p choice)) \<and>
    (snd (find_code now user route code approve (asTable y)) = CodeFound p d \<longrightarrow>
      go_trim user = paUserID (apItems (asTable y) ! p) \<and> go_trim route = paRoute (apItems (asTable y) ! p)) \<and>
    (go_trim user = paUserID (apItems (asTable y) ! p) \<and> go_trim route = paRoute (apItems (asTable y) ! p) \<and> go_trim user \<noteq> [] \<and>
      paResolved (apItems (asTable y) ! p) \<and> now' < now + pendingApprovalTimeout \<longrightarrow>
      snd (find_code now' user route code approve (clearPendingApproval now p (asTable y))) = CodeAlreadyResolved)"
proof -
  have inv: "approval_inv lower y" "code_inv y" using approval_codes.reach_inv [OF assms(1)] by blast+
  have t: "approvals_ok (asTable y)" and c: "codes_ok (asTable y)" using approval_invD(1) [OF inv(1)] inv(2) by (simp_all add: code_inv_def)
  have lt: "p < length (apItems (asTable y))" using assms(2) t by (auto simp: approvals_ok_def)
  have third: "go_trim user = paUserID (apItems (asTable y) ! p) \<and> go_trim route = paRoute (apItems (asTable y) ! p)"
    if "snd (find_code now user route code approve (asTable y)) = CodeFound p d"
    using find_code_ok [OF t that] by (simp add: found_ok_def)
  note first = found_by_code [OF t c assms(2,3,4)] and second = cleared_by_code [OF assms(4) codes_okD(2) [OF c lt assms(3)]]
  show ?thesis unfolding Let_def using first second third unfolding Let_def by blast
qed

lemma approval_code_exact_witness:
  "snd (find_code 5 ''u'' ''u'' ''aaaaaaaa'' True (asTable (demo_at demo_item CallWaiting []))) = CodeFound 0 ''y''"
  using approval_code_exact [OF demo_reach_waiting, of 0 "''aaaaaaaa''" "''u''" "''u''" 5 True] demo_waiting_fields demo_item_fields demo_values
    demo_code_lower demo_not_blank by (simp add: pendingApprovalTimeout_def Let_def)

end
