(* ===== verification/Spec2Isabelle.thy ===== *)
theory Spec2Isabelle
  imports Outbox_Callers Outbox_Outcome Owner_Turns Gate Interactions Pipeline Monitor Throttle
    Desktop_Frame Desktop_Runs Desktop_Calls Task_Contract Approval_Contract Approval_Codes
begin

text \<open>
  \<^bold>\<open>A verification development of WeClaw.\<close>

  WeClaw connects coding agents (Codex, Claude and others) with chat platforms (Feishu, WeChat). A platform adapter
  receives events, lets each of them through once, orders the messages of a window and hands them to the message handler; the handler
  runs a turn of an agent under a writer lease of the thread; while the turn runs, approvals and questions go to every frontend
  that shows the thread; what the turn ends with is put into a durable outbox, which delivers it
  across failures and restarts. The development models the parts that carry this state, each from its source,
  and proves what makes them correct.

  \<^bold>\<open>Conventions.\<close> A struct is a record whose fields carry a short prefix, an operation is a function with the name
  of the source (a prefix is added where two components use the same name), an error is a value of a sum or option. An operation
  that runs under a mutex is one function on the state. Where several goroutines
  interleave, an inductive step relation has one rule per critical section, and the properties hold in every reachable state. Calls of the
  operating system and of other programs may fail: whether they do is an argument (a record of switches), and
  the properties hold for every choice. A pointer that is compared by identity is a number; a channel that is
  only closed is a counter of its closings. Where the source iterates over a map, the order is an argument.

  \<^bold>\<open>Theories and sources\<close> (all under \<open>src/\<close>).

  \<^item> \<open>Prelude\<close>: Go strings and \<open>strings.TrimSpace\<close>, instants and durations in nanoseconds, lists edited by key, and
    the two interfaces \<open>invariant_system\<close> (a transition system with an invariant) and \<open>claim_table\<close>
    (exclusive claims), which the components interpret. \<open>Go_Json\<close>: the small part of \<open>encoding/json\<close> the outbox relies on.

  \<^item> The terminal outbox, \<open>messaging/terminal_outbox.go\<close>: \<open>Outbox_Types\<close> (entries, drafts, guards and their
    validation), \<open>Outbox_Store\<close> (the outbox, the state file with its atomic replacement, the holds),
    \<open>Outbox_Ops\<close> (enqueue, reserve, commit, discard, re-anchor, redrive), \<open>Outbox_Delivery\<close> (attempts, stages, schedule,
    status), \<open>Outbox_Inv\<close> and \<open>Outbox_Steps\<close> (the invariant and that every operation keeps it), \<open>Outbox_System\<close> (callers, worker and
    crashes interleaved). \<open>Outbox_Contract\<close> has its main properties (restart loses nothing, the
    invariant, atomic writes, the worker refines the system), \<open>Outbox_Schedule\<close> the schedule, backoff and dead
    letters, \<open>Outbox_Callers\<close> what a caller sees, \<open>Outbox_Outcome\<close> what is delivered, and \<open>Outbox_Demo\<close> concrete states for witnesses.

  \<^item> The Codex runtime owner registry, \<open>agent/codex_desktop_owner.go\<close>, \<open>codex_runtime_lease.go\<close>, \<open>codex_runtime_observation.go\<close>,
    \<open>codex_runtime_reconcile.go\<close>: \<open>Owner_Registry\<close> (bindings, selection revisions, claims), \<open>Owner_Lease\<close> (turns
    and writer leases, observation, conflicts, reconciliation), \<open>Owner_System\<close> and \<open>Owner_Runs\<close> (the operations interleaved),
    \<open>Owner_Contract\<close> (exclusive leases, soundness of the check of a lease), \<open>Owner_Fences\<close> (superseded selections,
    archived threads), \<open>Owner_Turns\<close> (life of a turn, uncertain leases, conflicts).

  \<^item> \<open>Gate\<close>: \<open>agent/codex_app_server_gate.go\<close>, turns against maintenance of the app server: exclusion and wake ups.

  \<^item> \<open>Broker\<close> and \<open>Interactions\<close>: \<open>agent/codex_interaction_broker.go\<close> and the tables of \<open>agent/turn_channel_registry.go\<close>: an interaction shown in
    several frontends is decided once, and the end of a turn settles what is pending.

  \<^item> \<open>Dedup\<close> and \<open>Mirror\<close>: \<open>feishu/dedup.go\<close>, \<open>dedup_lease.go\<close>, \<open>mirror_dedup.go\<close>: each event is let through once, also
    across restarts, and a group mirror of a thread message is handled once. \<open>Dispatch\<close>: \<open>feishu/dispatch_order.go\<close>: messages of a window
    run in the order of their arrival. \<open>Pipeline\<close>: \<open>feishu/adapter_events.go\<close> and \<open>message_freshness.go\<close>, the composition of the three: the
    handler is called once per event and in order.

  \<^item> \<open>Monitor\<close>: \<open>ilink/monitor.go\<close> and \<open>monitor_queue.go\<close>: the queues of the WeChat long poll. \<open>Throttle\<close>:
    \<open>internal/auththrottle/throttle.go\<close>: counting and blocking of failed authentications.

  \<^item> The connection to the Codex Desktop and the cache of its threads, \<open>agent/codex_desktop_*.go\<close>. \<open>Go_Text\<close>: numbers as text, case
    folding, searching and joining of strings. \<open>Desktop_Frame\<close> (\<open>_frame.go\<close>): length prefixed frames, a round trip. \<open>Desktop_Client\<close>
    (\<open>_protocol.go\<close>, \<open>_client*.go\<close>): the check of envelopes and the critical sections of the connection, one function each;
    \<open>Desktop_Calls\<close> interleaves them: every caller is answered once, and told truly whether its request had
    been written. \<open>Desktop_Patch\<close> (\<open>_patch.go\<close>): JSON patches, their typing and their effect. \<open>Desktop_Projection\<close>
    (\<open>_projection.go\<close>, \<open>_projection_values.go\<close>): the events that lie between two revisions of a thread, which replay
    its texts. \<open>Desktop_State\<close> (\<open>_state*.go\<close>): the cache with its revisions, the queue of patches that came too early,
    pending requests and eviction; \<open>Desktop_Mirror\<close> runs the cache against the history that the Desktop publishes, and
    \<open>Desktop_Runs\<close> has its contract: a cached thread is the published state of its revision, and the end of a turn is
    reported at most once.

  \<^item> The running tasks of the message handler, \<open>messaging/task_*.go\<close>: \<open>Task_View\<close> (the snapshot a task shows and its timeline),
    \<open>Task_State\<close> (tasks, their phases, admission and stop requests), \<open>Task_Ops\<close> (waiting messages and guides, ends, reservations
    of shared turns, frontends that leave, draining), \<open>Task_System\<close> (all of it interleaved, with logs of what became of
    each waiting message), \<open>Task_Inv\<close> and \<open>Task_Runs\<close> (the invariant), and \<open>Task_Contract\<close>: slots are exclusive, a
    waiting message is neither lost nor doubled, an accepted stop holds, a drain does what it reports, and the snapshot only goes forward.

  \<^item> Approvals and questions, \<open>messaging/approvals.go\<close>, \<open>approval_options.go\<close>, \<open>approval_mode.go\<close>, \<open>agent_interactions.go\<close>:
    \<open>Approval_Types\<close> and \<open>Approval_Options\<close> (options, keys and codes), \<open>Approval_State\<close> (the table of pending items and every operation on it),
    \<open>Approval_System\<close> (the goroutines that ask, the answers, reviews, timers, the mode without questions and frontends that leave,
    interleaved), \<open>Approval_Inv\<close> and \<open>Approval_Runs\<close> (the invariant), \<open>Approval_Contract\<close>: a decision is authorised and taken
    once; \<open>Approval_Fences\<close>: a frontend does not leave a question behind; \<open>Approval_Codes\<close>: a code stands for one request.
    \<open>Approval_Demo\<close> is a run of an approval, for witnesses.

  \<^bold>\<open>Hypotheses.\<close> The outbox takes the validation of UUIDs and the normal form of raw JSON as parameters, with the documented laws of
  these libraries where a property needs them; a positive clock; and callers that use a reservation as the source does. The
  digest of a message is a parameter without law. What the Desktop published is a parameter of the runs of its cache, a state for each
  thread, connection and revision, and a true message is a snapshot of it or patches between two of its revisions; the decoders of requests and of
  nested envelopes are parameters without law, and so is the writer of a frame. In the table
  of tasks a task is the number of its creation and a continuation the number of its submission; the digest, fresh identifiers and whether the progress card lets
  a frontend go are arguments. In the table of approvals \<open>strings.ToLower\<close> is a parameter without law, the
  random bytes of codes are arguments, and the identifiers of users and windows contain no NUL byte. An arbitrary key of a map is chosen by a parameter that returns one of the keys. Properties
  with a hypothesis have a witness on a concrete state.

  \<^bold>\<open>Bounds and termination.\<close> Generations and revisions are 64 bit words, and the soundness of a lease check is stated for runs of fewer
  than \<open>2 ^ 64\<close> operations, since a generation that wraps could come back. The chain of redirections of the
  dispatch sequencer is a partial function, and every walk along it is proved to end. Eviction in the throttle ends because each round
  removes a source. The window of mirrors uses the saturating subtraction of 64 bit durations.

  \<^bold>\<open>Not modelled.\<close> Text for users, rendering of cards and markdown; HTTP, sockets, processes and the protocols of agents; the operating
  system (locks, key rings, file permissions beyond the state files above); logging. In the interaction broker
  the channels of owners and observers of a turn are left out, and in the monitor the sort of one answer. Of the Codex Desktop the dialling of
  its socket, the encoding of actions and the connector between connection and cache are left out.

  \<^bold>\<open>Plan.\<close> Next: the stores
  of followers and sessions (\<open>messaging/codex_follower_store.go\<close>), access codes and rate limits (\<open>messaging/access_code.go\<close>,
  \<open>rate_limit.go\<close>), the account store (\<open>codexauth/store.go\<close>), and the order of stream updates
  (\<open>messaging/progress.go\<close>, \<open>feishu/stream.go\<close>).
\<close>

end
